(* ===== verification/Prelude.thy ===== *)
theory Prelude
  imports Main "HOL-Library.Word" "HOL-Library.Monad_Syntax"
begin

text \<open>
  Shared vocabulary of the development: the machine words of the C sources, bit-level
  extensionality for 8- and 32-bit words, and buffers.

  A C array or a malloc'ed block is a list whose length is its capacity. Reading or writing
  outside the capacity is undefined behaviour in C; here it is the value \<open>None\<close>, so every
  theorem whose conclusion is \<open>Some\<close> also states that no access left its buffer.
\<close>

unbundle bit_operations_syntax

named_theorems buf_simps \<open>rewriting of buffer reads and writes\<close>
named_theorems bit8_simps \<open>bitwise normalisation of octet equations\<close>

type_synonym byte = "8 word"
type_synonym u16 = "16 word"
type_synonym u32 = "32 word"
type_synonym u64 = "64 word"


section \<open>Octets and words, bit by bit\<close>

lemma all_less_8:
  "(\<forall>n<8. P n) \<longleftrightarrow> P 0 \<and> P 1 \<and> P 2 \<and> P 3 \<and> P 4 \<and> P 5 \<and> P 6 \<and> P (7::nat)"
proof -
  have "n < 8 \<longleftrightarrow> n = 0 \<or> n = 1 \<or> n = 2 \<or> n = 3 \<or> n = 4 \<or> n = 5 \<or> n = 6 \<or> n = 7" for n :: nat
    by arith
  then show ?thesis by metis
qed

lemma byte_eq_iff: "a = b \<longleftrightarrow> (\<forall>n<8. bit a n = bit b n)" for a b :: byte
  by (auto intro: bit_word_eqI)

lemmas byte_bits = byte_eq_iff all_less_8

lemma all_less_16: "(\<forall>n<16. P n) \<longleftrightarrow> (\<forall>n<8. P n) \<and> (\<forall>n<8. P (n + 8))" for P :: "nat \<Rightarrow> bool"
proof
  assume r: "(\<forall>n<8. P n) \<and> (\<forall>n<8. P (n + 8))"
  show "\<forall>n<16. P n"
  proof (intro allI impI)
    fix n :: nat
    assume "n < 16"
    then show "P n" using r by (cases "n < 8") (metis le_add_diff_inverse2 less_diff_conv2 linorder_not_less numeral_Bit0)+
  qed
qed auto

lemma all_less_32: "(\<forall>n<32. P n) \<longleftrightarrow> (\<forall>n<16. P n) \<and> (\<forall>n<16. P (n + 16))" for P :: "nat \<Rightarrow> bool"
proof
  assume r: "(\<forall>n<16. P n) \<and> (\<forall>n<16. P (n + 16))"
  show "\<forall>n<32. P n"
  proof (intro allI impI)
    fix n :: nat
    assume "n < 32"
    then show "P n" using r by (cases "n < 16") (metis le_add_diff_inverse2 less_diff_conv2 linorder_not_less numeral_Bit0)+
  qed
qed auto

lemma u32_eq_iff: "a = b \<longleftrightarrow> (\<forall>n<32. bit a n = bit b n)" for a b :: u32
  by (auto intro: bit_word_eqI)

text \<open>Bit by bit, as a conjunction of thirty-two equations.\<close>

lemmas u32_bits = u32_eq_iff all_less_32 all_less_16 all_less_8

lemma u32_all_ones [simp]: "x AND 0xFFFFFFFF = x" for x :: u32
  unfolding u32_bits by (simp add: bit_simps)

lemma octet_bit: "bit (b :: byte) n \<Longrightarrow> n < 8"
  using bit_imp_le_length by fastforce

lemma octet_high: "8 \<le> n \<Longrightarrow> \<not> bit b n" for b :: byte
  using octet_bit by fastforce

lemma u32_eqI: "(\<And>n. n < 32 \<Longrightarrow> bit a n = bit b n) \<Longrightarrow> a = b" for a b :: u32
  by (rule bit_word_eqI) simp


section \<open>Buffers\<close>

definition buf_rd :: "'a list \<Rightarrow> nat \<Rightarrow> 'a option" where
  "buf_rd b i = (if i < length b then Some (b ! i) else None)"

definition buf_wr :: "'a list \<Rightarrow> nat \<Rightarrow> 'a \<Rightarrow> 'a list option" where
  "buf_wr b i x = (if i < length b then Some (b[i := x]) else None)"

text \<open>\<open>memcpy(dst + d, src + s, n)\<close>\<close>

definition memcpy :: "'a list \<Rightarrow> nat \<Rightarrow> 'a list \<Rightarrow> nat \<Rightarrow> nat \<Rightarrow> 'a list option" where
  "memcpy dst d src s n =
     (if d + n \<le> length dst \<and> s + n \<le> length src
      then Some (take d dst @ take n (drop s src) @ drop (d + n) dst) else None)"

text \<open>The effect of storing the elements of \<open>xs\<close> one after the other from index \<open>j\<close>.\<close>

definition buf_put :: "'a list \<Rightarrow> nat \<Rightarrow> 'a list \<Rightarrow> 'a list" where
  "buf_put b j xs = take j b @ xs @ drop (j + length xs) b"

lemma buf_rd_in [buf_simps]: "i < length b \<Longrightarrow> buf_rd b i = Some (b ! i)"
  by (simp add: buf_rd_def)

lemma buf_wr_in [buf_simps]: "i < length b \<Longrightarrow> buf_wr b i x = Some (b[i := x])"
  by (simp add: buf_wr_def)

lemma buf_rd_Some_iff: "buf_rd b i = Some x \<longleftrightarrow> i < length b \<and> b ! i = x"
  by (auto simp: buf_rd_def)

lemma buf_wr_Some_iff: "buf_wr b i x = Some b' \<longleftrightarrow> i < length b \<and> b' = b[i := x]"
  by (auto simp: buf_wr_def)

lemma buf_wr_length: "buf_wr b i x = Some b' \<Longrightarrow> length b' = length b"
  by (auto simp: buf_wr_Some_iff)

lemma memcpy_length: "memcpy dst d src s n = Some dst' \<Longrightarrow> length dst' = length dst"
  by (auto simp: memcpy_def split: if_splits)

lemma length_buf_put [simp]: "j + length xs \<le> length b \<Longrightarrow> length (buf_put b j xs) = length b"
  by (simp add: buf_put_def)

lemma buf_put_Nil [simp]: "buf_put b j [] = b"
  by (simp add: buf_put_def)

lemma memcpy_eq_buf_put:
  "d + n \<le> length dst \<Longrightarrow> s + n \<le> length src \<Longrightarrow>
   memcpy dst d src s n = Some (buf_put dst d (take n (drop s src)))"
  by (simp add: memcpy_def buf_put_def)

lemma list_update_buf_put: "j < length b \<Longrightarrow> b[j := x] = buf_put b j [x]"
  by (simp add: buf_put_def upd_conv_take_nth_drop)

lemma buf_put_append:
  "j + length xs + length ys \<le> length b \<Longrightarrow>
   buf_put (buf_put b j xs) (j + length xs) ys = buf_put b j (xs @ ys)"
  by (simp add: buf_put_def ac_simps)

lemma buf_put_step:
  "j + Suc (length ys) \<le> length b \<Longrightarrow> buf_put (b[j := x]) (Suc j) ys = buf_put b j (x # ys)"
  using buf_put_append [of j "[x]" ys b] by (simp add: list_update_buf_put)

lemma take_buf_put: "j + length xs \<le> length b \<Longrightarrow> take (j + length xs) (buf_put b j xs) = take j b @ xs"
  by (simp add: buf_put_def)

lemma drop_buf_put: "j + length xs \<le> length b \<Longrightarrow> drop (j + length xs) (buf_put b j xs) = drop (j + length xs) b"
  by (simp add: buf_put_def)

lemma nth_buf_put:
  "j + length xs \<le> length b \<Longrightarrow> i < length b \<Longrightarrow>
   buf_put b j xs ! i = (if i < j then b ! i else if i < j + length xs then xs ! (i - j) else b ! i)"
  by (auto simp: buf_put_def nth_append min_def)

text \<open>The half-open segment \<open>b[i..k)\<close>.\<close>

definition seg :: "nat \<Rightarrow> nat \<Rightarrow> 'a list \<Rightarrow> 'a list" where
  "seg i k b = take (k - i) (drop i b)"

lemma seg_empty [simp]: "k \<le> i \<Longrightarrow> seg i k b = []"
  by (simp add: seg_def)

lemma seg_step: "i < k \<Longrightarrow> k \<le> length b \<Longrightarrow> seg i k b = b ! i # seg (Suc i) k b"
  by (simp add: seg_def Cons_nth_drop_Suc [symmetric] Suc_diff_Suc [symmetric])

lemma length_seg [simp]: "k \<le> length b \<Longrightarrow> length (seg i k b) = k - i"
  by (simp add: seg_def)

text \<open>The octets of \<open>htons(x)\<close>, and of a 16-bit store, in memory.\<close>

definition net16 :: "u16 \<Rightarrow> byte list" where
  "net16 x = [ucast (drop_bit 8 x), ucast x]"

definition store16 :: "u16 \<Rightarrow> byte list" where
  "store16 x = [ucast x, ucast (drop_bit 8 x)]"

section \<open>Decimal output\<close>

text \<open>\<open>%u\<close> and \<open>%d\<close> of a number that is not negative.\<close>

definition digit :: "nat \<Rightarrow> char" where
  "digit n = char_of (48 + n)"

fun udec :: "nat \<Rightarrow> string" where
  "udec n = (if n < 10 then [digit n] else udec (n div 10) @ [digit (n mod 10)])"

declare udec.simps [simp del]

lemma length_udec: "n < 10 ^ k \<Longrightarrow> 0 < k \<Longrightarrow> length (udec n) \<le> k"
proof (induction k arbitrary: n)
  case 0
  then show ?case by simp
next
  case (Suc k)
  show ?case
  proof (cases "n < 10")
    case True
    then show ?thesis by (simp add: udec.simps [of n])
  next
    case False
    moreover have "n div 10 < 10 ^ k" using Suc.prems by (simp add: less_mult_imp_div_less)
    moreover have "0 < k" using False Suc.prems by (cases k) auto
    ultimately show ?thesis using Suc.IH [of "n div 10"] by (subst udec.simps) simp
  qed
qed

end
