(* ===== verification/RecStore.thy ===== *)
theory RecStore
  imports Prelude
begin

text \<open>
  The record store (\<open>records/records.c\<close>, interface \<open>records/lib_records.h\<close>): a library that keeps
  trade records of a rental terminal in six SQLite tables. Every public function takes a System V
  semaphore, prepares one SQL statement, steps it once, finalizes it and releases the semaphore.

  SQLite is not part of the repository: it is the parameter \<open>'d engine\<close> of the definitions,
  where \<open>'d\<close> is its database. The kernel's semaphores are part of the state. A prepared statement is
  its SQL text and its bindings; the state counts the statements that are not finalized.
  Output on \<open>stderr\<close> is left out. NULL pointers are \<open>None\<close>.
\<close>

section \<open>Environment\<close>

datatype sqlval = SInt int | SBlob "byte list" | SNull

record 'd engine =
  e_open :: "'d \<Rightarrow> string \<Rightarrow> int"
  e_exec :: "'d \<Rightarrow> string \<Rightarrow> int \<times> 'd"
  e_prepare :: "'d \<Rightarrow> string \<Rightarrow> int \<times> bool"
  e_step :: "'d \<Rightarrow> string \<Rightarrow> sqlval list \<Rightarrow> int \<times> sqlval list \<times> 'd"
  e_column_int :: "sqlval \<Rightarrow> int"
  e_column_blob :: "sqlval \<Rightarrow> byte list option"

text \<open>
  \<open>e_open d path\<close> is the return code of \<open>sqlite3_open\<close>; \<open>e_prepare d sql\<close> the return code of
  \<open>sqlite3_prepare_v2\<close> and whether it set the statement pointer to a non-NULL value;
  \<open>e_step d sql binds\<close> the return code, the result row and the new database of the first
  \<open>sqlite3_step\<close>.
\<close>

definition SQLITE_OK :: int where "SQLITE_OK = 0"
definition SQLITE_MISUSE :: int where "SQLITE_MISUSE = 21"
definition SQLITE_ROW :: int where "SQLITE_ROW = 100"
definition SQLITE_DONE :: int where "SQLITE_DONE = 101"
definition LIB_REC_OK :: int where "LIB_REC_OK = 0"
definition LIB_REC_ERROR :: int where "LIB_REC_ERROR = 1"

lemmas rec_codes = SQLITE_OK_def SQLITE_MISUSE_def SQLITE_ROW_def SQLITE_DONE_def
  LIB_REC_OK_def LIB_REC_ERROR_def

record 'd world =
  db :: 'd
  sems :: "int \<Rightarrow> int option"
  stmts :: int

text \<open>A call may wait forever on the semaphore, run into undefined behaviour, or return.\<close>

datatype 'a outcome = Blocked | Fault | Ret 'a

primrec out_bind :: "'a outcome \<Rightarrow> ('a \<Rightarrow> 'b outcome) \<Rightarrow> 'b outcome" where
  "out_bind Blocked f = Blocked"
| "out_bind Fault f = Fault"
| "out_bind (Ret x) f = f x"

record records_file =
  rf_db :: bool
  rf_pathname :: string
  rf_sem_id :: int
  rf_arg :: int


section \<open>Sleeping, busy callback, semaphore\<close>

record timeval =
  tv_sec :: u32
  tv_usec :: u32

definition rec_sleep :: "u32 \<Rightarrow> timeval" where
  "rec_sleep s = \<lparr>tv_sec = s, tv_usec = 0\<rparr>"

definition rec_msleep :: "u32 \<Rightarrow> timeval" where
  "rec_msleep ms = \<lparr>tv_sec = ms div 1000, tv_usec = (ms * 1000) mod 1000000\<rparr>"

definition rec_usleep :: "u32 \<Rightarrow> timeval" where
  "rec_usleep us = \<lparr>tv_sec = 0, tv_usec = us\<rparr>"

definition sqlite_busy_callback :: "int \<Rightarrow> int \<times> timeval option" where
  "sqlite_busy_callback cnt = (if cnt > 10 then (0, None) else (1, Some (rec_usleep 1000)))"

text \<open>
  \<open>semop\<close> with \<open>sem_op = -1\<close> waits while the value is 0; on a set that does not exist it fails
  with -1, which no caller looks at.
\<close>

definition sem_p :: "records_file \<Rightarrow> 'd world \<Rightarrow> (int \<times> 'd world) outcome" where
  "sem_p r w =
     (case sems w (rf_sem_id r) of
        None \<Rightarrow> Ret (-1, w)
      | Some v \<Rightarrow>
          if v \<le> 0 then Blocked
          else Ret (0, w\<lparr>sems := (sems w)(rf_sem_id r \<mapsto> v - 1)\<rparr>))"

definition sem_v :: "records_file \<Rightarrow> 'd world \<Rightarrow> int \<times> 'd world" where
  "sem_v r w =
     (case sems w (rf_sem_id r) of
        None \<Rightarrow> (-1, w)
      | Some v \<Rightarrow> (0, w\<lparr>sems := (sems w)(rf_sem_id r \<mapsto> v + 1)\<rparr>))"


section \<open>SQL commands\<close>

definition REC_CONSUME :: string where "REC_CONSUME = ''tbl_consume''"
definition REC_EXCEPTION :: string where "REC_EXCEPTION = ''tbl_exception''"
definition REC_RECONSUME :: string where "REC_RECONSUME = ''tbl_reconsume''"
definition REC_ONCARD_ACK :: string where "REC_ONCARD_ACK = ''tbl_oncard_ack''"
definition REC_OFFCARD_ACK :: string where "REC_OFFCARD_ACK = ''tbl_offcard_ack''"
definition REC_RECHARGE :: string where "REC_RECHARGE = ''tbl_recharge''"

lemmas rec_tables = REC_CONSUME_def REC_EXCEPTION_def REC_RECONSUME_def REC_ONCARD_ACK_def
  REC_OFFCARD_ACK_def REC_RECHARGE_def

text \<open>\<open>sprintf\<close> with \<open>%u\<close>: the argument is a C \<open>int\<close>, read as 32-bit unsigned.\<close>

definition fmt_u :: "int \<Rightarrow> string" where
  "fmt_u i = udec (nat (i mod 2 ^ 32))"

definition tabs :: "nat \<Rightarrow> string" where
  "tabs n = replicate n (CHR 0x09)"

definition sql_insert_consume :: string where
  "sql_insert_consume = ''INSERT INTO '' @ REC_CONSUME @ ''(pkt_sn, pid, lid, trade_record) VALUES (?,?,?,?);''"

definition sql_insert_exception :: string where
  "sql_insert_exception = ''INSERT INTO '' @ REC_EXCEPTION @ ''(sn, pid, trade_record) VALUES (?,?,?);''"

definition sql_insert :: "string \<Rightarrow> string" where
  "sql_insert tbl = ''INSERT INTO '' @ tbl @ ''(pkt_sn, pid, macaddr, pkt_len, pkt_data) VALUES (?,?,?,?,?);''"

definition sql_select :: "string \<Rightarrow> int \<Rightarrow> string" where
  "sql_select tbl pkt_sn = ''SELECT * FROM '' @ tbl @ '' WHERE pkt_sn = '' @ fmt_u pkt_sn @ '';''"

definition sql_select_all :: "string \<Rightarrow> string" where
  "sql_select_all tbl = ''SELECT * FROM '' @ tbl @ '' LIMIT 1;''"

definition sql_delete :: "string \<Rightarrow> int \<Rightarrow> string" where
  "sql_delete tbl pkt_sn = ''DELETE FROM '' @ tbl @ '' WHERE pkt_sn = '' @ fmt_u pkt_sn @ '';''"

definition sql_count :: "string \<Rightarrow> string" where
  "sql_count tbl = ''SELECT COUNT(*) FROM '' @ tbl @ '';''"


section \<open>One statement under the semaphore\<close>

definition prepare_v2 :: "'d engine \<Rightarrow> string \<Rightarrow> 'd world \<Rightarrow> int \<times> bool \<times> 'd world" where
  "prepare_v2 E sql w =
     (let (rc, stmt) = e_prepare E (db w) sql
      in (rc, stmt, w\<lparr>stmts := stmts w + (if stmt then 1 else 0)\<rparr>))"

definition step_v2 ::
  "'d engine \<Rightarrow> bool \<Rightarrow> string \<Rightarrow> sqlval list \<Rightarrow> 'd world \<Rightarrow> int \<times> sqlval list \<times> 'd world" where
  "step_v2 E stmt sql binds w =
     (if stmt then let (rc, row, d) = e_step E (db w) sql binds in (rc, row, w\<lparr>db := d\<rparr>)
      else (SQLITE_MISUSE, [], w))"

definition finalize :: "bool \<Rightarrow> 'd world \<Rightarrow> 'd world" where
  "finalize stmt w = (if stmt then w\<lparr>stmts := stmts w - 1\<rparr> else w)"

definition col :: "sqlval list \<Rightarrow> nat \<Rightarrow> sqlval" where
  "col row i = (if i < length row then row ! i else SNull)"

text \<open>\<open>finalize\<close> and \<open>__sem_v\<close> at the end of a path.\<close>

definition leave :: "records_file \<Rightarrow> bool \<Rightarrow> 'd world \<Rightarrow> 'd world" where
  "leave r stmt w = snd (sem_v r (finalize stmt w))"

text \<open>
  The part shared by the insert and delete functions: \<open>binds\<close> is \<open>None\<close> when a bound pointer does
  not cover the bound length.
\<close>

definition exec_done ::
  "'d engine \<Rightarrow> records_file \<Rightarrow> string \<Rightarrow> sqlval list option \<Rightarrow> 'd world \<Rightarrow> (int \<times> 'd world) outcome" where
  "exec_done E r sql binds w =
     out_bind (sem_p r w) (\<lambda>(_, w1).
       let (rc, stmt, w2) = prepare_v2 E sql w1 in
       if rc \<noteq> SQLITE_OK then Ret (LIB_REC_ERROR, leave r stmt w2)
       else (case binds of None \<Rightarrow> Fault
             | Some bs \<Rightarrow>
                 let (rc, row, w3) = step_v2 E stmt sql bs w2 in
                 if rc \<noteq> SQLITE_DONE then Ret (LIB_REC_ERROR, leave r stmt w3)
                 else Ret (LIB_REC_OK, leave r stmt w3)))"

text \<open>The blob of \<open>n\<close> octets at a pointer; \<open>n\<close> is a C \<open>int\<close>.\<close>

definition blob :: "byte list \<Rightarrow> int \<Rightarrow> sqlval option" where
  "blob p n = (if 0 \<le> n \<and> nat n \<le> length p then Some (SBlob (take (nat n) p)) else None)"


section \<open>Consume and exception records\<close>

definition lib_records_consume_insert_data ::
  "'d engine \<Rightarrow> records_file option \<Rightarrow> int \<Rightarrow> byte list option \<Rightarrow> byte list option \<Rightarrow> byte list option
   \<Rightarrow> 'd world \<Rightarrow> (int \<times> 'd world) outcome" where
  "lib_records_consume_insert_data E rf pkt_sn pid lid trade_record w =
     (case (rf, pid, lid, trade_record) of
        (Some r, Some p, Some l, Some t) \<Rightarrow>
          if \<not> rf_db r then Ret (LIB_REC_ERROR, w)
          else exec_done E r sql_insert_consume
                 (do { b2 \<leftarrow> blob p 8; b3 \<leftarrow> blob l 8; b4 \<leftarrow> blob t 90;
                       Some [SInt pkt_sn, b2, b3, b4] }) w
      | _ \<Rightarrow> Ret (LIB_REC_ERROR, w))"

definition lib_records_exception_insert_data ::
  "'d engine \<Rightarrow> records_file option \<Rightarrow> int \<Rightarrow> byte list option \<Rightarrow> byte list option
   \<Rightarrow> 'd world \<Rightarrow> (int \<times> 'd world) outcome" where
  "lib_records_exception_insert_data E rf sn pid trade_record w =
     (case (rf, pid, trade_record) of
        (Some r, Some p, Some t) \<Rightarrow>
          if \<not> rf_db r then Ret (LIB_REC_ERROR, w)
          else exec_done E r sql_insert_exception
                 (do { b2 \<leftarrow> blob p 8; b3 \<leftarrow> blob t 90; Some [SInt sn, b2, b3] }) w
      | _ \<Rightarrow> Ret (LIB_REC_ERROR, w))"


section \<open>Packet tables\<close>

text \<open>
  The four packet tables have the same five functions, which differ in the table name only.
  Each is written once here over the table and named per table below.
\<close>

definition pkt_insert ::
  "string \<Rightarrow> 'd engine \<Rightarrow> records_file option \<Rightarrow> int \<Rightarrow> byte list option \<Rightarrow> byte list option \<Rightarrow> int
   \<Rightarrow> byte list option \<Rightarrow> 'd world \<Rightarrow> (int \<times> 'd world) outcome" where
  "pkt_insert tbl E rf pkt_sn pid macaddr pkt_len pkt_data w =
     (case (rf, pid, macaddr, pkt_data) of
        (Some r, Some p, Some m, Some dat) \<Rightarrow>
          if \<not> rf_db r then Ret (LIB_REC_ERROR, w)
          else exec_done E r (sql_insert tbl)
                 (do { b2 \<leftarrow> blob p 8; b3 \<leftarrow> blob m 6; b5 \<leftarrow> blob dat pkt_len;
                       Some [SInt pkt_sn, b2, b3, SInt pkt_len, b5] }) w
      | _ \<Rightarrow> Ret (LIB_REC_ERROR, w))"

text \<open>
  The part shared by the select functions: the result is \<open>Some (pkt_sn, pkt_len, pkt_data)\<close> when a
  row was copied out. The return for a length above 512 sits before \<open>sqlite3_finalize\<close> and
  \<open>__sem_v\<close>, as in the source.
\<close>

definition select_stmt ::
  "'d engine \<Rightarrow> records_file \<Rightarrow> string \<Rightarrow> byte list \<Rightarrow> 'd world
   \<Rightarrow> (int \<times> (int \<times> int \<times> byte list) option \<times> 'd world) outcome" where
  "select_stmt E r sql dat w =
     out_bind (sem_p r w) (\<lambda>(_, w1).
       let (rc, stmt, w2) = prepare_v2 E sql w1 in
       if rc \<noteq> SQLITE_OK then Ret (LIB_REC_ERROR, None, leave r stmt w2)
       else
         let (rc, row, w3) = step_v2 E stmt sql [] w2 in
         if rc = SQLITE_ROW then
           let p_pkt_sn = e_column_int E (col row 1);
               p_pkt_len = e_column_int E (col row 4);
               p_pkt_data = e_column_blob E (col row 5) in
           if p_pkt_len > 512 then Ret (LIB_REC_ERROR, None, w3)
           else (case p_pkt_data of
               Some p \<Rightarrow>
                 (if p_pkt_len < 0 then Fault
                  else (case memcpy dat 0 p 0 (nat p_pkt_len) of
                      None \<Rightarrow> Fault
                    | Some dat' \<Rightarrow>
                        Ret (LIB_REC_OK, Some (p_pkt_sn, p_pkt_len, dat'), leave r stmt w3)))
             | None \<Rightarrow> Ret (LIB_REC_OK, None, leave r stmt w3))
         else Ret (LIB_REC_OK, None, leave r stmt w3))"

definition pkt_select ::
  "string \<Rightarrow> 'd engine \<Rightarrow> records_file option \<Rightarrow> int \<Rightarrow> int option \<Rightarrow> byte list option
   \<Rightarrow> 'd world \<Rightarrow> (int \<times> int option \<times> byte list option \<times> 'd world) outcome" where
  "pkt_select tbl E rf pkt_sn pkt_len pkt_data w =
     (case (rf, pkt_len, pkt_data) of
        (Some r, Some len, Some dat) \<Rightarrow>
          if \<not> rf_db r then Ret (LIB_REC_ERROR, pkt_len, pkt_data, w)
          else out_bind (select_stmt E r (sql_select tbl pkt_sn) dat w) (\<lambda>(rc, res, w').
            case res of
              None \<Rightarrow> Ret (rc, pkt_len, pkt_data, w')
            | Some (sn', len', dat') \<Rightarrow> Ret (rc, Some len', Some dat', w'))
      | _ \<Rightarrow> Ret (LIB_REC_ERROR, pkt_len, pkt_data, w))"

definition pkt_select_all ::
  "string \<Rightarrow> 'd engine \<Rightarrow> records_file option \<Rightarrow> int option \<Rightarrow> int option \<Rightarrow> byte list option
   \<Rightarrow> 'd world \<Rightarrow> (int \<times> int option \<times> int option \<times> byte list option \<times> 'd world) outcome" where
  "pkt_select_all tbl E rf pkt_sn pkt_len pkt_data w =
     (case (rf, pkt_sn, pkt_len, pkt_data) of
        (Some r, Some sn, Some len, Some dat) \<Rightarrow>
          if \<not> rf_db r then Ret (LIB_REC_ERROR, pkt_sn, pkt_len, pkt_data, w)
          else out_bind (select_stmt E r (sql_select_all tbl) dat w) (\<lambda>(rc, res, w').
            case res of
              None \<Rightarrow> Ret (rc, pkt_sn, pkt_len, pkt_data, w')
            | Some (sn', len', dat') \<Rightarrow> Ret (rc, Some sn', Some len', Some dat', w'))
      | _ \<Rightarrow> Ret (LIB_REC_ERROR, pkt_sn, pkt_len, pkt_data, w))"

definition pkt_delete ::
  "string \<Rightarrow> 'd engine \<Rightarrow> records_file option \<Rightarrow> int \<Rightarrow> 'd world \<Rightarrow> (int \<times> 'd world) outcome" where
  "pkt_delete tbl E rf pkt_sn w =
     (case rf of
        None \<Rightarrow> Ret (LIB_REC_ERROR, w)
      | Some r \<Rightarrow>
          if \<not> rf_db r then Ret (LIB_REC_ERROR, w)
          else exec_done E r (sql_delete tbl pkt_sn) (Some []) w)"

definition pkt_count ::
  "string \<Rightarrow> 'd engine \<Rightarrow> records_file option \<Rightarrow> int option \<Rightarrow> 'd world
   \<Rightarrow> (int \<times> int option \<times> 'd world) outcome" where
  "pkt_count tbl E rf cnt w =
     (case (rf, cnt) of
        (Some r, Some c) \<Rightarrow>
          if \<not> rf_db r then Ret (LIB_REC_ERROR, cnt, w)
          else out_bind (sem_p r w) (\<lambda>(_, w1).
            let (rc, stmt, w2) = prepare_v2 E (sql_count tbl) w1 in
            if rc \<noteq> SQLITE_OK then Ret (LIB_REC_ERROR, cnt, leave r stmt w2)
            else
              let (rc, row, w3) = step_v2 E stmt (sql_count tbl) [] w2 in
              if rc = SQLITE_ROW then
                Ret (LIB_REC_OK, Some (e_column_int E (col row 0)), leave r stmt w3)
              else Ret (LIB_REC_ERROR, cnt, leave r stmt w3))
      | _ \<Rightarrow> Ret (LIB_REC_ERROR, cnt, w))"

definition lib_records_reconsume_insert_data ::
  "'d engine \<Rightarrow> records_file option \<Rightarrow> int \<Rightarrow> byte list option \<Rightarrow> byte list option \<Rightarrow> int
   \<Rightarrow> byte list option \<Rightarrow> 'd world \<Rightarrow> (int \<times> 'd world) outcome" where
  "lib_records_reconsume_insert_data = pkt_insert REC_RECONSUME"

definition lib_records_reconsume_select_data ::
  "'d engine \<Rightarrow> records_file option \<Rightarrow> int \<Rightarrow> int option \<Rightarrow> byte list option
   \<Rightarrow> 'd world \<Rightarrow> (int \<times> int option \<times> byte list option \<times> 'd world) outcome" where
  "lib_records_reconsume_select_data = pkt_select REC_RECONSUME"

definition lib_records_reconsume_select_all_data ::
  "'d engine \<Rightarrow> records_file option \<Rightarrow> int option \<Rightarrow> int option \<Rightarrow> byte list option
   \<Rightarrow> 'd world \<Rightarrow> (int \<times> int option \<times> int option \<times> byte list option \<times> 'd world) outcome" where
  "lib_records_reconsume_select_all_data = pkt_select_all REC_RECONSUME"

definition lib_records_reconsume_delete_data ::
  "'d engine \<Rightarrow> records_file option \<Rightarrow> int \<Rightarrow> 'd world \<Rightarrow> (int \<times> 'd world) outcome" where
  "lib_records_reconsume_delete_data = pkt_delete REC_RECONSUME"

definition lib_records_reconsume_count ::
  "'d engine \<Rightarrow> records_file option \<Rightarrow> int option \<Rightarrow> 'd world \<Rightarrow> (int \<times> int option \<times> 'd world) outcome" where
  "lib_records_reconsume_count = pkt_count REC_RECONSUME"

definition lib_records_oncard_ack_insert_data ::
  "'d engine \<Rightarrow> records_file option \<Rightarrow> int \<Rightarrow> byte list option \<Rightarrow> byte list option \<Rightarrow> int
   \<Rightarrow> byte list option \<Rightarrow> 'd world \<Rightarrow> (int \<times> 'd world) outcome" where
  "lib_records_oncard_ack_insert_data = pkt_insert REC_ONCARD_ACK"

definition lib_records_oncard_ack_select_data ::
  "'d engine \<Rightarrow> records_file option \<Rightarrow> int \<Rightarrow> int option \<Rightarrow> byte list option
   \<Rightarrow> 'd world \<Rightarrow> (int \<times> int option \<times> byte list option \<times> 'd world) outcome" where
  "lib_records_oncard_ack_select_data = pkt_select REC_ONCARD_ACK"

definition lib_records_oncard_ack_select_all_data ::
  "'d engine \<Rightarrow> records_file option \<Rightarrow> int option \<Rightarrow> int option \<Rightarrow> byte list option
   \<Rightarrow> 'd world \<Rightarrow> (int \<times> int option \<times> int option \<times> byte list option \<times> 'd world) outcome" where
  "lib_records_oncard_ack_select_all_data = pkt_select_all REC_ONCARD_ACK"

definition lib_records_oncard_ack_delete_data ::
  "'d engine \<Rightarrow> records_file option \<Rightarrow> int \<Rightarrow> 'd world \<Rightarrow> (int \<times> 'd world) outcome" where
  "lib_records_oncard_ack_delete_data = pkt_delete REC_ONCARD_ACK"

definition lib_records_oncard_ack_count ::
  "'d engine \<Rightarrow> records_file option \<Rightarrow> int option \<Rightarrow> 'd world \<Rightarrow> (int \<times> int option \<times> 'd world) outcome" where
  "lib_records_oncard_ack_count = pkt_count REC_ONCARD_ACK"

definition lib_records_offcard_ack_insert_data ::
  "'d engine \<Rightarrow> records_file option \<Rightarrow> int \<Rightarrow> byte list option \<Rightarrow> byte list option \<Rightarrow> int
   \<Rightarrow> byte list option \<Rightarrow> 'd world \<Rightarrow> (int \<times> 'd world) outcome" where
  "lib_records_offcard_ack_insert_data = pkt_insert REC_OFFCARD_ACK"

definition lib_records_offcard_ack_select_data ::
  "'d engine \<Rightarrow> records_file option \<Rightarrow> int \<Rightarrow> int option \<Rightarrow> byte list option
   \<Rightarrow> 'd world \<Rightarrow> (int \<times> int option \<times> byte list option \<times> 'd world) outcome" where
  "lib_records_offcard_ack_select_data = pkt_select REC_OFFCARD_ACK"

definition lib_records_offcard_ack_select_all_data ::
  "'d engine \<Rightarrow> records_file option \<Rightarrow> int option \<Rightarrow> int option \<Rightarrow> byte list option
   \<Rightarrow> 'd world \<Rightarrow> (int \<times> int option \<times> int option \<times> byte list option \<times> 'd world) outcome" where
  "lib_records_offcard_ack_select_all_data = pkt_select_all REC_OFFCARD_ACK"

definition lib_records_offcard_ack_delete_data ::
  "'d engine \<Rightarrow> records_file option \<Rightarrow> int \<Rightarrow> 'd world \<Rightarrow> (int \<times> 'd world) outcome" where
  "lib_records_offcard_ack_delete_data = pkt_delete REC_OFFCARD_ACK"

definition lib_records_offcard_ack_count ::
  "'d engine \<Rightarrow> records_file option \<Rightarrow> int option \<Rightarrow> 'd world \<Rightarrow> (int \<times> int option \<times> 'd world) outcome" where
  "lib_records_offcard_ack_count = pkt_count REC_OFFCARD_ACK"

definition lib_records_recharge_insert_data ::
  "'d engine \<Rightarrow> records_file option \<Rightarrow> int \<Rightarrow> byte list option \<Rightarrow> byte list option \<Rightarrow> int
   \<Rightarrow> byte list option \<Rightarrow> 'd world \<Rightarrow> (int \<times> 'd world) outcome" where
  "lib_records_recharge_insert_data = pkt_insert REC_RECHARGE"

definition lib_records_recharge_select_data ::
  "'d engine \<Rightarrow> records_file option \<Rightarrow> int \<Rightarrow> int option \<Rightarrow> byte list option
   \<Rightarrow> 'd world \<Rightarrow> (int \<times> int option \<times> byte list option \<times> 'd world) outcome" where
  "lib_records_recharge_select_data = pkt_select REC_RECHARGE"

definition lib_records_recharge_select_all_data ::
  "'d engine \<Rightarrow> records_file option \<Rightarrow> int option \<Rightarrow> int option \<Rightarrow> byte list option
   \<Rightarrow> 'd world \<Rightarrow> (int \<times> int option \<times> int option \<times> byte list option \<times> 'd world) outcome" where
  "lib_records_recharge_select_all_data = pkt_select_all REC_RECHARGE"

definition lib_records_recharge_delete_data ::
  "'d engine \<Rightarrow> records_file option \<Rightarrow> int \<Rightarrow> 'd world \<Rightarrow> (int \<times> 'd world) outcome" where
  "lib_records_recharge_delete_data = pkt_delete REC_RECHARGE"

definition lib_records_recharge_count ::
  "'d engine \<Rightarrow> records_file option \<Rightarrow> int option \<Rightarrow> 'd world \<Rightarrow> (int \<times> int option \<times> 'd world) outcome" where
  "lib_records_recharge_count = pkt_count REC_RECHARGE"

lemmas pkt_functions =
  lib_records_reconsume_insert_data_def lib_records_reconsume_select_data_def lib_records_reconsume_select_all_data_def lib_records_reconsume_delete_data_def lib_records_reconsume_count_def
  lib_records_oncard_ack_insert_data_def lib_records_oncard_ack_select_data_def lib_records_oncard_ack_select_all_data_def lib_records_oncard_ack_delete_data_def lib_records_oncard_ack_count_def
  lib_records_offcard_ack_insert_data_def lib_records_offcard_ack_select_data_def lib_records_offcard_ack_select_all_data_def lib_records_offcard_ack_delete_data_def lib_records_offcard_ack_count_def
  lib_records_recharge_insert_data_def lib_records_recharge_select_data_def lib_records_recharge_select_all_data_def lib_records_recharge_delete_data_def lib_records_recharge_count_def


section \<open>Creating and destroying a store\<close>

definition sql_create_consume :: string where
  "sql_create_consume = ''CREATE TABLE IF NOT EXISTS '' @
     REC_CONSUME @
     ''(idx INTEGER PRIMARY KEY AUTOINCREMENT, '' @
     tabs 5 @
     ''pkt_sn INTEGER DEFAULT 0, pid CHAR(8), lid CHAR(8),  trade_record BLOB, '' @
     tabs 5 @
     ''[last_time] TimeStamp NOT NULL DEFAULT (datetime('now','localtime')))''"

definition sql_create_exception :: string where
  "sql_create_exception = ''CREATE TABLE IF NOT EXISTS '' @
     REC_EXCEPTION @
     ''(idx INTEGER PRIMARY KEY AUTOINCREMENT, '' @
     tabs 5 @
     ''sn INTEGER DEFAULT 0, pid CHAR(8), trade_record BLOB, '' @
     tabs 5 @
     ''[last_time] TimeStamp NOT NULL DEFAULT (datetime('now','localtime')))''"

definition sql_create_reconsume :: string where
  "sql_create_reconsume = ''CREATE TABLE IF NOT EXISTS '' @
     REC_RECONSUME @
     ''(idx INTEGER PRIMARY KEY AUTOINCREMENT, '' @
     tabs 5 @
     ''pkt_sn INTEGER DEFAULT 0, pid CHAR(8), macaddr CHAR(6), pkt_len INTEGER DEFAULT 0, pkt_data BLOB, '' @
     tabs 5 @
     ''[last_time] TimeStamp NOT NULL DEFAULT (datetime('now','localtime')))''"

definition sql_create_oncard_ack :: string where
  "sql_create_oncard_ack = ''CREATE TABLE IF NOT EXISTS '' @
     REC_ONCARD_ACK @
     ''(idx INTEGER PRIMARY KEY AUTOINCREMENT, '' @
     tabs 6 @
     ''pkt_sn INTEGER DEFAULT 0, pid CHAR(8), macaddr CHAR(6), pkt_len INTEGER DEFAULT 0, pkt_data BLOB,  '' @
     tabs 6 @
     ''[last_time] TimeStamp NOT NULL DEFAULT (datetime('now','localtime')))''"

definition sql_create_offcard_ack :: string where
  "sql_create_offcard_ack = ''CREATE TABLE IF NOT EXISTS '' @
     REC_OFFCARD_ACK @
     ''(idx INTEGER PRIMARY KEY AUTOINCREMENT, '' @
     tabs 5 @
     ''pkt_sn INTEGER DEFAULT 0, pid CHAR(8), macaddr CHAR(6), pkt_len INTEGER DEFAULT 0, pkt_data BLOB,  '' @
     tabs 5 @
     ''[last_time] TimeStamp NOT NULL DEFAULT (datetime('now','localtime')))''"

definition sql_create_recharge :: string where
  "sql_create_recharge = ''CREATE TABLE IF NOT EXISTS '' @
     REC_RECHARGE @
     ''(idx INTEGER PRIMARY KEY AUTOINCREMENT, '' @
     tabs 5 @
     ''pkt_sn INTEGER DEFAULT 0, pid CHAR(8), macaddr CHAR(6), pkt_len INTEGER DEFAULT 0, pkt_data BLOB,  '' @
     tabs 5 @
     ''[last_time] TimeStamp NOT NULL DEFAULT (datetime('now','localtime')))''"

text \<open>The nine commands of \<open>__sqlite3_create\<close>, in order.\<close>

definition create_cmds :: "string list" where
  "create_cmds =
     [''PRAGMA journal_mode=OFF'', ''PRAGMA synchronous=OFF'', ''PRAGMA case_sensitive_like=1'',
      sql_create_consume, sql_create_exception, sql_create_reconsume,
      sql_create_oncard_ack, sql_create_offcard_ack, sql_create_recharge]"

text \<open>Each command is executed, the first failure jumps to \<open>ERR\<close>.\<close>

fun exec_cmds :: "'d engine \<Rightarrow> string list \<Rightarrow> 'd world \<Rightarrow> bool \<times> 'd world" where
  "exec_cmds E [] w = (True, w)"
| "exec_cmds E (c # cs) w =
     (let (rc, d) = e_exec E (db w) c; w' = w\<lparr>db := d\<rparr> in
      if rc \<noteq> SQLITE_OK then (False, w') else exec_cmds E cs w')"

text \<open>
  The calls on the operating system: \<open>time(NULL)\<close>, \<open>ftok\<close>, the identifier \<open>semget\<close> returns for a
  key (-1 on failure) and whether \<open>malloc\<close> succeeds. \<open>semctl(\<dots>, IPC_RMID)\<close> removes a set.
\<close>

record os =
  os_time :: int
  os_ftok :: "string \<Rightarrow> int \<Rightarrow> int"
  os_semget :: "int \<Rightarrow> int"
  os_malloc :: bool

definition sem_rmid :: "records_file \<Rightarrow> 'd world \<Rightarrow> records_file \<times> 'd world" where
  "sem_rmid r w =
     (if rf_sem_id r \<noteq> -1
      then (r\<lparr>rf_sem_id := -1\<rparr>, w\<lparr>sems := (sems w)(rf_sem_id r := None)\<rparr>) else (r, w))"

definition sqlite3_create ::
  "'d engine \<Rightarrow> os \<Rightarrow> records_file \<Rightarrow> 'd world \<Rightarrow> int \<times> records_file \<times> 'd world" where
  "sqlite3_create E sys r w =
     (if e_open E (db w) (rf_pathname r) \<noteq> SQLITE_OK
      then (LIB_REC_ERROR, r\<lparr>rf_db := True\<rparr>, w)
      else
        let ident = os_time sys mod 100;
            sid = os_semget sys (os_ftok sys (rf_pathname r) ident);
            r1 = r\<lparr>rf_db := True, rf_sem_id := sid, rf_arg := 1\<rparr>;
            w1 = (if sid \<noteq> -1 then w\<lparr>sems := (sems w)(sid \<mapsto> 1)\<rparr> else w);
            (done_all, w2) = exec_cmds E create_cmds w1 in
        if done_all then (LIB_REC_OK, r1, w2)
        else let (r2, w3) = sem_rmid r1 w2 in (LIB_REC_ERROR, r2\<lparr>rf_db := False\<rparr>, w3))"

definition lib_records_create ::
  "'d engine \<Rightarrow> os \<Rightarrow> string option \<Rightarrow> 'd world \<Rightarrow> (records_file option \<times> 'd world) outcome" where
  "lib_records_create E sys pathname w =
     (case pathname of
        None \<Rightarrow> Ret (None, w)
      | Some path \<Rightarrow>
          if \<not> os_malloc sys then Fault
          else if 64 \<le> length path then Fault
          else
            let r = \<lparr>rf_db = False, rf_pathname = path, rf_sem_id = 0, rf_arg = 0\<rparr>;
                (err, r1, w1) = sqlite3_create E sys r w in
            if err = LIB_REC_OK then Ret (Some r1, w1)
            else Ret (None, snd (sem_rmid r1 w1)))"

definition lib_records_destroy :: "records_file option \<Rightarrow> 'd world \<Rightarrow> 'd world" where
  "lib_records_destroy rf w = (case rf of None \<Rightarrow> w | Some r \<Rightarrow> snd (sem_rmid r w))"

definition lib_records_get_version :: string where
  "lib_records_get_version = ''lib records version 1.1.1 2016/04/13  10:15''"

end
