(* ===== verification/RecProps.thy ===== *)
theory RecProps
  imports RecStore
begin

text \<open>
  Properties of the record store: the semaphore and statement discipline of every call, the
  contents of the packet tables under the documented behaviour of SQLite, creation and
  destruction of a store, and the bounds of the command buffers.
\<close>

named_theorems rec_lock \<open>the semaphore and statement counts along a path\<close>

section \<open>The semaphore along one call\<close>

lemma out_bind_Ret_iff: "out_bind m f = Ret y \<longleftrightarrow> (\<exists>x. m = Ret x \<and> f x = Ret y)"
  by (cases m) auto

lemma out_bind_Blocked_iff: "out_bind m f = Blocked \<longleftrightarrow> m = Blocked \<or> (\<exists>x. m = Ret x \<and> f x = Blocked)"
  by (cases m) auto

lemma out_bind_Fault_iff: "out_bind m f = Fault \<longleftrightarrow> m = Fault \<or> (\<exists>x. m = Ret x \<and> f x = Fault)"
  by (cases m) auto

text \<open>The semaphore is there and at least one process may enter.\<close>

definition sem_free :: "records_file \<Rightarrow> 'd world \<Rightarrow> bool" where
  "sem_free r w \<longleftrightarrow> (\<exists>v>0. sems w (rf_sem_id r) = Some v)"

definition taken :: "records_file \<Rightarrow> 'd world \<Rightarrow> 'd world" where
  "taken r w = w\<lparr>sems := (sems w)(rf_sem_id r := map_option (\<lambda>v. v - 1) (sems w (rf_sem_id r)))\<rparr>"

lemma sem_p_free: "sem_free r w \<Longrightarrow> sem_p r w = Ret (0, taken r w)"
  by (auto simp: sem_free_def sem_p_def taken_def)

lemma sem_p_zero: "sems w (rf_sem_id r) = Some v \<Longrightarrow> v \<le> 0 \<Longrightarrow> sem_p r w = Blocked"
  by (simp add: sem_p_def)

text \<open>A world between \<open>__sem_p\<close> and \<open>__sem_v\<close>, with or without a live statement.\<close>

definition inside :: "records_file \<Rightarrow> 'd world \<Rightarrow> bool \<Rightarrow> 'd world \<Rightarrow> bool" where
  "inside r w stmt w' \<longleftrightarrow> sems w' = sems (taken r w) \<and> stmts w' = stmts w + (if stmt then 1 else 0)"

lemma inside_prepare:
  "prepare_v2 E sql (taken r w) = (rc, stmt, w') \<Longrightarrow> inside r w stmt w' \<and> db w' = db w"
  by (auto simp: prepare_v2_def inside_def taken_def split: prod.splits)

lemma inside_step:
  "inside r w stmt w1 \<Longrightarrow> step_v2 E stmt sql bs w1 = (rc, row, w2) \<Longrightarrow> inside r w stmt w2"
  by (auto simp: step_v2_def inside_def split: prod.splits if_splits)

lemma leave_inside [rec_lock]:
  assumes "sem_free r w" "inside r w stmt w'"
  shows "sems (leave r stmt w') = sems w" "stmts (leave r stmt w') = stmts w" "db (leave r stmt w') = db w'"
proof -
  from assms obtain v where v: "sems w (rf_sem_id r) = Some v" by (auto simp: sem_free_def)
  have s: "sems w' = (sems w)(rf_sem_id r \<mapsto> v - 1)"
    using assms(2) v by (simp add: inside_def taken_def)
  have restore: "(sems w)(rf_sem_id r \<mapsto> v) = sems w" using v by (simp add: fun_upd_idem)
  show "sems (leave r stmt w') = sems w"
    by (cases stmt) (simp_all add: leave_def finalize_def sem_v_def s restore)
  show "stmts (leave r stmt w') = stmts w"
    using assms(2) by (auto simp: leave_def finalize_def sem_v_def inside_def split: option.splits)
  show "db (leave r stmt w') = db w'"
    by (simp add: leave_def finalize_def sem_v_def s)
qed

text \<open>What \<open>exec_done\<close> does on a free semaphore: one step of the engine or none.\<close>

lemma exec_done_run:
  assumes free: "sem_free r w"
  shows "exec_done E r sql (Some bs) w \<noteq> Blocked" "exec_done E r sql (Some bs) w \<noteq> Fault"
    and "exec_done E r sql b w = Ret (rc, w') \<Longrightarrow>
      sems w' = sems w \<and> stmts w' = stmts w \<and>
      (rc = LIB_REC_ERROR \<and> db w' = db w \<or>
       (\<exists>bs rc' row. b = Some bs \<and> e_prepare E (db w) sql = (SQLITE_OK, True) \<and>
          e_step E (db w) sql bs = (rc', row, db w') \<and>
          rc = (if rc' = SQLITE_DONE then LIB_REC_OK else LIB_REC_ERROR)))"
proof -
  obtain rc0 stmt w2 where pr: "prepare_v2 E sql (taken r w) = (rc0, stmt, w2)"
    by (metis prod_cases3)
  have in2: "inside r w stmt w2" and db2: "db w2 = db w" using inside_prepare [OF pr] by auto
  have ep: "e_prepare E (db w) sql = (rc0, stmt)"
    using pr by (auto simp: prepare_v2_def taken_def split: prod.splits)
  show "exec_done E r sql (Some bs) w \<noteq> Blocked" "exec_done E r sql (Some bs) w \<noteq> Fault"
    using sem_p_free [OF free] pr by (auto simp: exec_done_def Let_def split: prod.splits)
  assume run: "exec_done E r sql b w = Ret (rc, w')"
  show "sems w' = sems w \<and> stmts w' = stmts w \<and>
      (rc = LIB_REC_ERROR \<and> db w' = db w \<or>
       (\<exists>bs rc' row. b = Some bs \<and> e_prepare E (db w) sql = (SQLITE_OK, True) \<and>
          e_step E (db w) sql bs = (rc', row, db w') \<and>
          rc = (if rc' = SQLITE_DONE then LIB_REC_OK else LIB_REC_ERROR)))"
  proof (cases "rc0 = SQLITE_OK")
    case False
    then have "rc = LIB_REC_ERROR" "w' = leave r stmt w2"
      using run sem_p_free [OF free] pr by (auto simp: exec_done_def)
    then show ?thesis using leave_inside [OF free in2] db2 by simp
  next
    case True
    then obtain bs' where b: "b = Some bs'"
      using run sem_p_free [OF free] pr by (cases b) (auto simp: exec_done_def)
    obtain rc' row w3 where st: "step_v2 E stmt sql bs' w2 = (rc', row, w3)"
      by (metis prod_cases3)
    have in3: "inside r w stmt w3" using in2 st by (rule inside_step)
    have res: "w' = leave r stmt w3" "rc = (if rc' = SQLITE_DONE then LIB_REC_OK else LIB_REC_ERROR)"
      using run sem_p_free [OF free] pr st b True by (auto simp: exec_done_def split: if_splits)
    show ?thesis
    proof (cases stmt)
      case True
      then have "e_step E (db w) sql bs' = (rc', row, db w3)"
        using st db2 by (auto simp: step_v2_def split: prod.splits)
      then show ?thesis
        using res leave_inside [OF free in3] b ep \<open>rc0 = SQLITE_OK\<close> True by auto
    next
      case False
      then have "rc' = SQLITE_MISUSE" "w3 = w2" using st by (auto simp: step_v2_def)
      then show ?thesis
        using res leave_inside [OF free in3] db2 by (auto simp: rec_codes)
    qed
  qed
qed

text \<open>
  A select on a free semaphore: on every path but one it puts semaphore and statements back.
\<close>

lemma select_stmt_run:
  assumes free: "sem_free r w"
  shows "select_stmt E r sql dat w \<noteq> Blocked"
    and "select_stmt E r sql dat w = Ret (rc, res, w') \<Longrightarrow>
      sems w' = sems w \<and> stmts w' = stmts w \<or>
      rc = LIB_REC_ERROR \<and> res = None \<and> sems w' = sems (taken r w) \<and> stmts w' = stmts w + 1 \<and>
      (\<exists>row. e_prepare E (db w) sql = (SQLITE_OK, True) \<and>
         e_step E (db w) sql [] = (SQLITE_ROW, row, db w') \<and> 512 < e_column_int E (col row 4))"
proof -
  obtain rc0 stmt w2 where pr: "prepare_v2 E sql (taken r w) = (rc0, stmt, w2)"
    by (metis prod_cases3)
  have in2: "inside r w stmt w2" and db2: "db w2 = db w" using inside_prepare [OF pr] by auto
  have ep: "e_prepare E (db w) sql = (rc0, stmt)"
    using pr by (auto simp: prepare_v2_def taken_def split: prod.splits)
  obtain rc' row w3 where st: "step_v2 E stmt sql [] w2 = (rc', row, w3)"
    by (metis prod_cases3)
  have in3: "inside r w stmt w3" using in2 st by (rule inside_step)
  note defs = select_stmt_def Let_def
  show "select_stmt E r sql dat w \<noteq> Blocked"
    using sem_p_free [OF free] pr st by (auto simp: defs split: option.splits)
  assume run: "select_stmt E r sql dat w = Ret (rc, res, w')"
  show "sems w' = sems w \<and> stmts w' = stmts w \<or>
      rc = LIB_REC_ERROR \<and> res = None \<and> sems w' = sems (taken r w) \<and> stmts w' = stmts w + 1 \<and>
      (\<exists>row. e_prepare E (db w) sql = (SQLITE_OK, True) \<and>
         e_step E (db w) sql [] = (SQLITE_ROW, row, db w') \<and> 512 < e_column_int E (col row 4))"
  proof (cases "rc0 = SQLITE_OK \<and> rc' = SQLITE_ROW \<and> 512 < e_column_int E (col row 4)")
    case True
    then have "rc = LIB_REC_ERROR" "res = None" "w' = w3"
      using run sem_p_free [OF free] pr st by (auto simp: defs)
    moreover have stmt: stmt using True st by (auto simp: step_v2_def rec_codes split: if_splits)
    moreover have "e_step E (db w) sql [] = (SQLITE_ROW, row, db w3)"
      using st stmt db2 True by (auto simp: step_v2_def split: prod.splits)
    ultimately show ?thesis using in3 ep True by (auto simp: inside_def)
  next
    case False
    then have "w' = leave r stmt w2 \<or> w' = leave r stmt w3"
      using run sem_p_free [OF free] pr st by (auto simp: defs split: if_splits option.splits)
    then show ?thesis using leave_inside [OF free in2] leave_inside [OF free in3] by auto
  qed
qed

lemma pkt_count_run:
  assumes free: "sem_free r w" and "rf_db r"
  shows "\<exists>rc c' w'. pkt_count tbl E (Some r) (Some c) w = Ret (rc, c', w') \<and>
           sems w' = sems w \<and> stmts w' = stmts w \<and>
           (db w' = db w \<and> rc = LIB_REC_ERROR \<and> c' = Some c \<or>
            (\<exists>rc' row. e_step E (db w) (sql_count tbl) [] = (rc', row, db w') \<and>
              (if rc' = SQLITE_ROW then rc = LIB_REC_OK \<and> c' = Some (e_column_int E (col row 0))
               else rc = LIB_REC_ERROR \<and> c' = Some c)))"
proof -
  let ?sql = "sql_count tbl"
  obtain rc0 stmt w2 where pr: "prepare_v2 E ?sql (taken r w) = (rc0, stmt, w2)"
    by (metis prod_cases3)
  have in2: "inside r w stmt w2" and db2: "db w2 = db w" using inside_prepare [OF pr] by auto
  obtain rc' row w3 where st: "step_v2 E stmt ?sql [] w2 = (rc', row, w3)"
    by (metis prod_cases3)
  have in3: "inside r w stmt w3" using in2 st by (rule inside_step)
  have "stmt \<Longrightarrow> e_step E (db w) ?sql [] = (rc', row, db w3)"
    using st db2 by (auto simp: step_v2_def split: prod.splits)
  moreover have "\<not> stmt \<Longrightarrow> db w3 = db w \<and> rc' \<noteq> SQLITE_ROW"
    using st db2 by (auto simp: step_v2_def rec_codes)
  ultimately show ?thesis
    using sem_p_free [OF free] pr st db2 leave_inside [OF free in2] leave_inside [OF free in3] assms(2)
    by (cases stmt) (auto simp: pkt_count_def)
qed

section \<open>Sessions of calls\<close>

definition pkt_tables :: "string list" where
  "pkt_tables = [REC_RECONSUME, REC_ONCARD_ACK, REC_OFFCARD_ACK, REC_RECHARGE]"

datatype rec_call =
    CConsume int "byte list" "byte list" "byte list"
  | CException int "byte list" "byte list"
  | CInsert string int "byte list" "byte list" int "byte list"
  | CDelete string int
  | CCount string int
  | CSelect string int int "byte list"
  | CSelectAll string int int "byte list"

fun call_run :: "'d engine \<Rightarrow> records_file \<Rightarrow> rec_call \<Rightarrow> 'd world \<Rightarrow> 'd world outcome" where
  "call_run E r (CConsume sn pid lid rec) w =
     map_outcome snd (lib_records_consume_insert_data E (Some r) sn (Some pid) (Some lid) (Some rec) w)"
| "call_run E r (CException sn pid rec) w =
     map_outcome snd (lib_records_exception_insert_data E (Some r) sn (Some pid) (Some rec) w)"
| "call_run E r (CInsert t sn pid mac len dat) w =
     map_outcome snd (pkt_insert t E (Some r) sn (Some pid) (Some mac) len (Some dat) w)"
| "call_run E r (CDelete t sn) w = map_outcome snd (pkt_delete t E (Some r) sn w)"
| "call_run E r (CCount t c) w =
     map_outcome (\<lambda>(rc, c', w'). w') (pkt_count t E (Some r) (Some c) w)"
| "call_run E r (CSelect t sn len dat) w =
     map_outcome (\<lambda>(rc, len', dat', w'). w') (pkt_select t E (Some r) sn (Some len) (Some dat) w)"
| "call_run E r (CSelectAll t sn len dat) w =
     map_outcome (\<lambda>(rc, sn', len', dat', w'). w')
       (pkt_select_all t E (Some r) (Some sn) (Some len) (Some dat) w)"

text \<open>The lengths the interface promises for the pointers, and 512 octets for results.\<close>

fun call_ok :: "rec_call \<Rightarrow> bool" where
  "call_ok (CConsume sn pid lid rec) \<longleftrightarrow> 8 \<le> length pid \<and> 8 \<le> length lid \<and> 90 \<le> length rec"
| "call_ok (CException sn pid rec) \<longleftrightarrow> 8 \<le> length pid \<and> 90 \<le> length rec"
| "call_ok (CInsert t sn pid mac len dat) \<longleftrightarrow>
     t \<in> set pkt_tables \<and> 8 \<le> length pid \<and> 6 \<le> length mac \<and> 0 \<le> len \<and> nat len \<le> length dat"
| "call_ok (CDelete t sn) \<longleftrightarrow> t \<in> set pkt_tables"
| "call_ok (CCount t c) \<longleftrightarrow> t \<in> set pkt_tables"
| "call_ok (CSelect t sn len dat) \<longleftrightarrow> t \<in> set pkt_tables \<and> 512 \<le> length dat"
| "call_ok (CSelectAll t sn len dat) \<longleftrightarrow> t \<in> set pkt_tables \<and> 512 \<le> length dat"

fun is_select :: "rec_call \<Rightarrow> bool" where
  "is_select (CSelect t sn len dat) = True"
| "is_select (CSelectAll t sn len dat) = True"
| "is_select c = False"

text \<open>Packets fit the 512 octets a select copies out.\<close>

fun short_insert :: "rec_call \<Rightarrow> bool" where
  "short_insert (CInsert t sn pid mac len dat) \<longleftrightarrow> len \<le> 512"
| "short_insert c = True"

fun run_all :: "('c \<Rightarrow> 'w \<Rightarrow> 'w outcome) \<Rightarrow> 'c list \<Rightarrow> 'w \<Rightarrow> 'w outcome" where
  "run_all run [] w = Ret w"
| "run_all run (c # cs) w = out_bind (run c w) (run_all run cs)"

text \<open>
  The contract of a family of calls: from a good state every admissible call returns, in a good
  state. Whole sessions then return.
\<close>

locale locked_calls =
  fixes run :: "'c \<Rightarrow> 'w \<Rightarrow> 'w outcome"
    and good :: "'w \<Rightarrow> bool"
    and admissible :: "'c \<Rightarrow> bool"
  assumes call_returns: "good w \<Longrightarrow> admissible c \<Longrightarrow> \<exists>w'. run c w = Ret w' \<and> good w'"
begin

lemma session_returns: "good w \<Longrightarrow> list_all admissible cs \<Longrightarrow> \<exists>w'. run_all run cs w = Ret w' \<and> good w'"
proof (induction cs arbitrary: w)
  case Nil
  then show ?case by simp
next
  case (Cons c cs)
  then obtain w1 where "run c w = Ret w1" "good w1" using call_returns [of w c] by auto
  with Cons show ?case by auto
qed

end

text \<open>Idle: the semaphore can be taken, and nothing is left over from earlier calls.\<close>

definition idle :: "records_file \<Rightarrow> (int \<Rightarrow> int option) \<Rightarrow> int \<Rightarrow> 'd world \<Rightarrow> bool" where
  "idle r S n w \<longleftrightarrow> sem_free r w \<and> sems w = S \<and> stmts w = n"

lemma idle_same: "idle r S n w \<Longrightarrow> sems w' = sems w \<Longrightarrow> stmts w' = stmts w \<Longrightarrow> idle r S n w'"
  by (auto simp: idle_def sem_free_def)

lemma exec_done_idle:
  assumes "idle r S n w"
  shows "\<exists>w'. map_outcome snd (exec_done E r sql (Some bs) w) = Ret w' \<and> idle r S n w'"
proof -
  have free: "sem_free r w" using assms by (simp add: idle_def)
  obtain rc w' where "exec_done E r sql (Some bs) w = Ret (rc, w')"
    using exec_done_run(1,2) [OF free, of E sql bs] by (cases "exec_done E r sql (Some bs) w") auto
  moreover from exec_done_run(3) [OF free this] have "idle r S n w'" using assms idle_same by blast
  ultimately show ?thesis by simp
qed

lemma writer_returns:
  assumes "idle r S n w" "call_ok c \<and> \<not> is_select c"
  shows "\<exists>w'. call_run E r c w = Ret w' \<and> idle r S n w'"
proof (cases "rf_db r")
  case False
  then show ?thesis using assms
    by (cases c) (auto simp: lib_records_consume_insert_data_def lib_records_exception_insert_data_def
        pkt_insert_def pkt_delete_def pkt_count_def)
next
  case True
  have "sem_free r w" using assms by (simp add: idle_def)
  note count = pkt_count_run [OF this True]
  show ?thesis
  proof (cases c)
    case (CCount t k)
    then show ?thesis using count [of t E k] idle_same [OF assms(1)] by force
  qed (use assms True exec_done_idle [OF assms(1)] in
      \<open>auto simp: lib_records_consume_insert_data_def lib_records_exception_insert_data_def
        pkt_insert_def pkt_delete_def blob_def\<close>)
qed

interpretation writers: locked_calls "call_run E r" "idle r S n" "\<lambda>c. call_ok c \<and> \<not> is_select c"
  for E r S n
  by unfold_locales (rule writer_returns)

section \<open>The packet tables under the documented behaviour of SQLite\<close>

record prow =
  p_sn :: int
  p_pid :: "byte list"
  p_mac :: "byte list"
  p_len :: int
  p_data :: "byte list"

definition row_of :: "prow \<Rightarrow> sqlval list \<Rightarrow> bool" where
  "row_of p row \<longleftrightarrow> col row 1 = SInt (p_sn p) \<and> col row 4 = SInt (p_len p) \<and> col row 5 = SBlob (p_data p)"

text \<open>
  What the library relies on. \<open>rows d t\<close> is the contents of table \<open>t\<close>. A statement that does not
  report success leaves the tables as they are; which of several matching rows a SELECT returns
  is left open. \<open>sqlite3_column_blob\<close> of an empty blob is NULL.
\<close>

definition law_columns :: "'d engine \<Rightarrow> bool" where
  "law_columns E \<longleftrightarrow>
     (\<forall>i. - (2 ^ 31) \<le> i \<and> i < 2 ^ 31 \<longrightarrow> e_column_int E (SInt i) = i) \<and>
     (\<forall>b. e_column_blob E (SBlob b) = (if b = [] then None else Some b))"

definition law_insert :: "'d engine \<Rightarrow> ('d \<Rightarrow> string \<Rightarrow> prow list) \<Rightarrow> bool" where
  "law_insert E rows \<longleftrightarrow>
     (\<forall>d t sn pid mac len dat rc row d'. t \<in> set pkt_tables \<longrightarrow>
        e_step E d (sql_insert t) [SInt sn, SBlob pid, SBlob mac, SInt len, SBlob dat] = (rc, row, d') \<longrightarrow>
        rows d' = (if rc = SQLITE_DONE
          then (rows d)(t := rows d t @ [\<lparr>p_sn = sn, p_pid = pid, p_mac = mac, p_len = len, p_data = dat\<rparr>])
          else rows d)) \<and>
     (\<forall>d binds rc row d'. e_step E d sql_insert_consume binds = (rc, row, d') \<or>
        e_step E d sql_insert_exception binds = (rc, row, d') \<longrightarrow> rows d' = rows d)"

definition law_select :: "'d engine \<Rightarrow> ('d \<Rightarrow> string \<Rightarrow> prow list) \<Rightarrow> bool" where
  "law_select E rows \<longleftrightarrow>
     (\<forall>d t n rc row d'. t \<in> set pkt_tables \<longrightarrow> 0 \<le> n \<longrightarrow> n < 2 ^ 32 \<longrightarrow>
        e_step E d (sql_select t n) [] = (rc, row, d') \<longrightarrow>
        rows d' = rows d \<and>
        (rc = SQLITE_ROW \<longrightarrow> (\<exists>p \<in> set (rows d t). p_sn p = n \<and> row_of p row)) \<and>
        (rc = SQLITE_DONE \<longrightarrow> (\<forall>p \<in> set (rows d t). p_sn p \<noteq> n))) \<and>
     (\<forall>d t rc row d'. t \<in> set pkt_tables \<longrightarrow> e_step E d (sql_select_all t) [] = (rc, row, d') \<longrightarrow>
        rows d' = rows d \<and>
        (rc = SQLITE_ROW \<longrightarrow> (\<exists>p \<in> set (rows d t). row_of p row)) \<and>
        (rc = SQLITE_DONE \<longrightarrow> rows d t = [])) \<and>
     (\<forall>d t rc row d'. t \<in> set pkt_tables \<longrightarrow> e_step E d (sql_count t) [] = (rc, row, d') \<longrightarrow>
        rows d' = rows d \<and> (rc = SQLITE_ROW \<longrightarrow> col row 0 = SInt (int (length (rows d t)))))"

definition law_delete :: "'d engine \<Rightarrow> ('d \<Rightarrow> string \<Rightarrow> prow list) \<Rightarrow> bool" where
  "law_delete E rows \<longleftrightarrow>
     (\<forall>d t n rc row d'. t \<in> set pkt_tables \<longrightarrow> 0 \<le> n \<longrightarrow> n < 2 ^ 32 \<longrightarrow>
        e_step E d (sql_delete t n) [] = (rc, row, d') \<longrightarrow>
        rows d' = (if rc = SQLITE_DONE
          then (rows d)(t := filter (\<lambda>p. p_sn p \<noteq> n) (rows d t)) else rows d))"

text \<open>Stored packets: a length between 0 and 512 that is the length of the data.\<close>

definition row_ok :: "prow \<Rightarrow> bool" where
  "row_ok p \<longleftrightarrow> 0 \<le> p_len p \<and> p_len p \<le> 512 \<and> length (p_data p) = nat (p_len p)"

definition db_ok :: "('d \<Rightarrow> string \<Rightarrow> prow list) \<Rightarrow> 'd \<Rightarrow> bool" where
  "db_ok rows d \<longleftrightarrow> (\<forall>t \<in> set pkt_tables. \<forall>p \<in> set (rows d t). row_ok p)"

definition unsigned_sn :: "int \<Rightarrow> int" where
  "unsigned_sn sn = sn mod 2 ^ 32"

lemma unsigned_sn_range: "0 \<le> unsigned_sn sn" "unsigned_sn sn < 2 ^ 32"
  by (simp_all add: unsigned_sn_def)

lemma unsigned_sn_id: "0 \<le> sn \<Longrightarrow> sn < 2 ^ 32 \<Longrightarrow> unsigned_sn sn = sn"
  by (simp add: unsigned_sn_def)

text \<open>The \<open>%u\<close> conversion: the SQL text names the unsigned value of \<open>pkt_sn\<close>.\<close>

lemma sql_unsigned: "sql_select t sn = sql_select t (unsigned_sn sn)" "sql_delete t sn = sql_delete t (unsigned_sn sn)"
  by (simp_all add: sql_select_def sql_delete_def fmt_u_def unsigned_sn_def)

locale sqlite_store =
  fixes E :: "'d engine"
    and rows :: "'d \<Rightarrow> string \<Rightarrow> prow list"
  assumes columns: "law_columns E"
    and inserts: "law_insert E rows"
    and selects: "law_select E rows"
    and deletes: "law_delete E rows"
begin

lemma column_int: "- (2 ^ 31) \<le> i \<Longrightarrow> i < 2 ^ 31 \<Longrightarrow> e_column_int E (SInt i) = i"
  using columns by (simp add: law_columns_def)

lemma column_blob: "e_column_blob E (SBlob b) = (if b = [] then None else Some b)"
  using columns by (simp add: law_columns_def)

lemma insert_step:
  "t \<in> set pkt_tables \<Longrightarrow>
   e_step E d (sql_insert t) [SInt sn, SBlob pid, SBlob mac, SInt len, SBlob dat] = (rc, row, d') \<Longrightarrow>
   rows d' = (if rc = SQLITE_DONE
     then (rows d)(t := rows d t @ [\<lparr>p_sn = sn, p_pid = pid, p_mac = mac, p_len = len, p_data = dat\<rparr>])
     else rows d)"
  using inserts unfolding law_insert_def by blast

lemma other_insert_step:
  "e_step E d sql_insert_consume binds = (rc, row, d') \<or>
   e_step E d sql_insert_exception binds = (rc, row, d') \<Longrightarrow> rows d' = rows d"
  using inserts unfolding law_insert_def by blast

lemma select_step:
  assumes "t \<in> set pkt_tables" "e_step E d (sql_select t sn) [] = (rc, row, d')"
  shows "rows d' = rows d"
    "rc = SQLITE_ROW \<Longrightarrow> \<exists>p \<in> set (rows d t). p_sn p = unsigned_sn sn \<and> row_of p row"
    "rc = SQLITE_DONE \<Longrightarrow> \<forall>p \<in> set (rows d t). p_sn p \<noteq> unsigned_sn sn"
  using selects assms unsigned_sn_range [of sn]
  unfolding law_select_def sql_unsigned(1) [of t sn] by blast+

lemma select_all_step:
  assumes "t \<in> set pkt_tables" "e_step E d (sql_select_all t) [] = (rc, row, d')"
  shows "rows d' = rows d" "rc = SQLITE_ROW \<Longrightarrow> \<exists>p \<in> set (rows d t). row_of p row"
  using selects assms unfolding law_select_def by blast+

lemma count_step:
  assumes "t \<in> set pkt_tables" "e_step E d (sql_count t) [] = (rc, row, d')"
  shows "rows d' = rows d" "rc = SQLITE_ROW \<Longrightarrow> col row 0 = SInt (int (length (rows d t)))"
  using selects assms unfolding law_select_def by blast+

lemma delete_step:
  assumes "t \<in> set pkt_tables" "e_step E d (sql_delete t sn) [] = (rc, row, d')"
  shows "rows d' = (if rc = SQLITE_DONE
          then (rows d)(t := filter (\<lambda>p. p_sn p \<noteq> unsigned_sn sn) (rows d t)) else rows d)"
  using deletes assms unsigned_sn_range [of sn]
  unfolding law_delete_def sql_unsigned(2) [of t sn] by blast

text \<open>A well-formed row is copied out whole and never takes the early return.\<close>

lemma row_fits:
  assumes "row_ok p" "row_of p row" "512 \<le> length dat"
  shows "\<not> 512 < e_column_int E (col row 4)" "\<not> e_column_int E (col row 4) < 0"
    and "e_column_blob E (col row 5) = Some b \<Longrightarrow>
         b = p_data p \<and> memcpy dat 0 b 0 (nat (e_column_int E (col row 4))) =
           Some (p_data p @ drop (length (p_data p)) dat)"
  using assms by (auto simp: row_ok_def row_of_def column_int column_blob memcpy_def split: if_splits)

lemma select_stmt_good:
  assumes "idle r S n w" "db_ok rows (db w)"
    and law: "\<And>rc row d'. e_step E (db w) sql [] = (rc, row, d') \<Longrightarrow>
          rows d' = rows (db w) \<and> (rc = SQLITE_ROW \<longrightarrow> (\<exists>p. row_ok p \<and> row_of p row))"
    and room: "512 \<le> length dat"
  shows "\<exists>rc res w'. select_stmt E r sql dat w = Ret (rc, res, w') \<and> idle r S n w' \<and> db_ok rows (db w')"
proof -
  have free: "sem_free r w" using assms(1) by (simp add: idle_def)
  obtain rc0 stmt w2 where pr: "prepare_v2 E sql (taken r w) = (rc0, stmt, w2)"
    by (metis prod_cases3)
  have in2: "inside r w stmt w2" and db2: "db w2 = db w" using inside_prepare [OF pr] by auto
  obtain rc' row w3 where st: "step_v2 E stmt sql [] w2 = (rc', row, w3)"
    by (metis prod_cases3)
  have in3: "inside r w stmt w3" using in2 st by (rule inside_step)
  have law3: "rows (db w3) = rows (db w) \<and> (rc' = SQLITE_ROW \<longrightarrow> (\<exists>p. row_ok p \<and> row_of p row))"
    using st law [of rc' row "db w3"] db2
    by (cases stmt) (auto simp: step_v2_def rec_codes split: prod.splits)
  have done2: "idle r S n (leave r stmt w2) \<and> db_ok rows (db (leave r stmt w2))"
    and done3: "idle r S n (leave r stmt w3) \<and> db_ok rows (db (leave r stmt w3))"
    using leave_inside [OF free in2] leave_inside [OF free in3] idle_same [OF assms(1)] db2 law3 assms(2)
    by (auto simp: db_ok_def)
  show ?thesis
  proof (cases "rc0 = SQLITE_OK \<and> rc' = SQLITE_ROW")
    case True
    then obtain p where p: "row_ok p" "row_of p row" using law3 by blast
    note fits = row_fits [OF p room]
    show ?thesis using True sem_p_free [OF free] pr st fits done3
      by (cases "e_column_blob E (col row 5)") (auto simp: select_stmt_def Let_def)
  next
    case False
    then show ?thesis using sem_p_free [OF free] pr st done2 done3
      by (auto simp: select_stmt_def Let_def)
  qed
qed

text \<open>
  Under the laws every call of a session keeps semaphore, statements and the packets'
  well-formedness, selects included.
\<close>

lemma store_returns:
  assumes "idle r S n w \<and> db_ok rows (db w)" "call_ok c \<and> short_insert c"
  shows "\<exists>w'. call_run E r c w = Ret w' \<and> idle r S n w' \<and> db_ok rows (db w')"
proof (cases "rf_db r")
  case False
  then show ?thesis using assms
    by (cases c) (auto simp: lib_records_consume_insert_data_def lib_records_exception_insert_data_def
        pkt_insert_def pkt_delete_def pkt_count_def pkt_select_def pkt_select_all_def)
next
  case True
  have free: "sem_free r w" and idle: "idle r S n w" and ok: "db_ok rows (db w)"
    using assms by (auto simp: idle_def)
  have exec: "\<exists>w'. map_outcome snd (exec_done E r sql (Some bs) w) = Ret w' \<and> idle r S n w' \<and> db_ok rows (db w')"
    if keeps: "\<And>rc row d'. e_step E (db w) sql bs = (rc, row, d') \<Longrightarrow> db_ok rows d'" for sql bs
  proof -
    obtain rc w' where run: "exec_done E r sql (Some bs) w = Ret (rc, w')"
      using exec_done_run(1,2) [OF free, of E sql bs] by (cases "exec_done E r sql (Some bs) w") auto
    from exec_done_run(3) [OF free this] have "db_ok rows (db w')" "idle r S n w'"
      using ok keeps idle_same [OF idle] by auto
    then show ?thesis using run by simp
  qed
  have sel: "\<exists>rc res w'. select_stmt E r sql dat w = Ret (rc, res, w') \<and> idle r S n w' \<and> db_ok rows (db w')"
    if "\<And>rc row d'. e_step E (db w) sql [] = (rc, row, d') \<Longrightarrow>
          rows d' = rows (db w) \<and> (rc = SQLITE_ROW \<longrightarrow> (\<exists>p. row_ok p \<and> row_of p row))"
      and "512 \<le> length dat" for sql dat
    using select_stmt_good [OF idle ok that] by blast
  show ?thesis
  proof (cases c)
    case (CConsume sn pid lid rec)
    have "db_ok rows d'" if "e_step E (db w) sql_insert_consume bs = (rc, row, d')" for bs rc row d'
      using other_insert_step that ok unfolding db_ok_def by metis
    from exec [OF this] show ?thesis using CConsume assms True
      by (auto simp: lib_records_consume_insert_data_def blob_def)
  next
    case (CException sn pid rec)
    have "db_ok rows d'" if "e_step E (db w) sql_insert_exception bs = (rc, row, d')" for bs rc row d'
      using other_insert_step that ok unfolding db_ok_def by metis
    from exec [OF this] show ?thesis using CException assms True
      by (auto simp: lib_records_exception_insert_data_def blob_def)
  next
    case (CInsert t sn pid mac len dat)
    then have "db_ok rows d'" if "e_step E (db w) (sql_insert t)
        [SInt sn, SBlob (take 8 pid), SBlob (take 6 mac), SInt len, SBlob (take (nat len) dat)] = (rc, row, d')"
      for rc row d'
      using insert_step [OF _ that] assms ok by (auto simp: db_ok_def row_ok_def)
    from exec [OF this] show ?thesis using CInsert assms True
      by (auto simp: pkt_insert_def blob_def)
  next
    case (CDelete t sn)
    then have "db_ok rows d'" if "e_step E (db w) (sql_delete t sn) [] = (rc, row, d')" for rc row d'
      using delete_step [OF _ that] assms ok by (auto simp: db_ok_def)
    from exec [OF this] show ?thesis using CDelete True by (simp add: pkt_delete_def)
  next
    case (CCount t k)
    then show ?thesis
      using pkt_count_run [OF free True, of t E k] count_step(1) assms idle_same [OF idle] ok
      by (force simp: db_ok_def)
  next
    case (CSelect t sn len dat)
    then show ?thesis
      using sel [of "sql_select t sn" dat] select_step [of t "db w" sn] assms True ok
      by (fastforce simp: pkt_select_def db_ok_def split: option.splits)
  next
    case (CSelectAll t sn len dat)
    then show ?thesis
      using sel [of "sql_select_all t" dat] select_all_step [of t "db w"] assms True ok
      by (fastforce simp: pkt_select_all_def db_ok_def split: option.splits)
  qed
qed

end

sublocale sqlite_store \<subseteq> sessions: locked_calls "call_run E r"
    "\<lambda>w. idle r S n w \<and> db_ok rows (db w)" "\<lambda>c. call_ok c \<and> short_insert c" for r S n
  by unfold_locales (rule store_returns)

context sqlite_store
begin

lemmas session_good = sessions.session_returns

text \<open>
  A select that the engine answers: it copies out a row with the wanted number if there is one
  and leaves the caller's variables alone otherwise, and returns \<open>LIB_REC_OK\<close> either way.
\<close>

lemma select_answer:
  assumes "idle r S n w" "db_ok rows (db w)" "rf_db r" "t \<in> set pkt_tables" "512 \<le> length dat"
    and prep: "e_prepare E (db w) (sql_select t sn) = (SQLITE_OK, True)"
    and ans: "fst (e_step E (db w) (sql_select t sn) []) \<in> {SQLITE_ROW, SQLITE_DONE}"
  shows "\<exists>w'. idle r S n w' \<and> rows (db w') = rows (db w) \<and>
    (if \<exists>p \<in> set (rows (db w) t). p_sn p = unsigned_sn sn
     then \<exists>p \<in> set (rows (db w) t). p_sn p = unsigned_sn sn \<and>
       pkt_select t E (Some r) sn (Some len) (Some dat) w =
         (if p_data p = [] then Ret (LIB_REC_OK, Some len, Some dat, w')
          else Ret (LIB_REC_OK, Some (p_len p), Some (p_data p @ drop (length (p_data p)) dat), w'))
     else pkt_select t E (Some r) sn (Some len) (Some dat) w = Ret (LIB_REC_OK, Some len, Some dat, w'))"
proof -
  let ?sql = "sql_select t sn"
  have free: "sem_free r w" using assms(1) by (simp add: idle_def)
  obtain rc row d where st: "e_step E (db w) ?sql [] = (rc, row, d)" by (metis prod_cases3)
  define w2 where "w2 = (taken r w)\<lparr>stmts := stmts w + 1\<rparr>"
  have pr: "prepare_v2 E ?sql (taken r w) = (SQLITE_OK, True, w2)"
    using prep by (simp add: prepare_v2_def w2_def taken_def)
  have in2: "inside r w True w2" using inside_prepare [OF pr] by simp
  have st2: "step_v2 E True ?sql [] w2 = (rc, row, w2\<lparr>db := d\<rparr>)"
    using st by (simp add: step_v2_def w2_def taken_def)
  have in3: "inside r w True (w2\<lparr>db := d\<rparr>)" using in2 st2 by (rule inside_step)
  let ?w' = "leave r True (w2\<lparr>db := d\<rparr>)"
  note lv = leave_inside [OF free in3]
  have good: "idle r S n ?w'" "rows (db ?w') = rows (db w)"
    using idle_same [OF assms(1)] lv select_step(1) [OF assms(4) st] by simp_all
  note run = sem_p_free [OF free] pr st2 \<open>rf_db r\<close>
  show ?thesis
  proof (cases "rc = SQLITE_ROW")
    case True
    then obtain p where p: "p \<in> set (rows (db w) t)" "p_sn p = unsigned_sn sn" "row_of p row"
      using select_step(2) [OF assms(4) st] by blast
    have ok: "row_ok p" using p assms(2,4) by (auto simp: db_ok_def)
    note fits = row_fits [OF ok p(3) assms(5)]
    have sel: "select_stmt E r ?sql dat w =
        (if p_data p = [] then Ret (LIB_REC_OK, None, ?w')
         else Ret (LIB_REC_OK, Some (e_column_int E (SInt (p_sn p)), p_len p, p_data p @ drop (length (p_data p)) dat), ?w'))"
      using run True fits ok p(3) assms(2) unsigned_sn_range [of sn]
      by (auto simp: select_stmt_def Let_def row_of_def column_blob column_int row_ok_def)
    show ?thesis using p good sel \<open>rf_db r\<close> by (auto simp: pkt_select_def)
  next
    case False
    then have "rc = SQLITE_DONE" using ans st by simp
    then have "\<forall>p \<in> set (rows (db w) t). p_sn p \<noteq> unsigned_sn sn" by (rule select_step(3) [OF assms(4) st])
    moreover have "select_stmt E r ?sql dat w = Ret (LIB_REC_OK, None, ?w')"
      using run False by (auto simp: select_stmt_def Let_def)
    ultimately show ?thesis using good \<open>rf_db r\<close> by (auto simp: pkt_select_def)
  qed
qed

text \<open>An insert appends its row or, when it reports an error, changes nothing; likewise a delete.\<close>

lemma insert_result:
  assumes "idle r S n w" "rf_db r" "t \<in> set pkt_tables"
    and "8 \<le> length pid" "6 \<le> length mac" "0 \<le> len" "nat len \<le> length dat"
    and run: "pkt_insert t E (Some r) sn (Some pid) (Some mac) len (Some dat) w = Ret (rc, w')"
  shows "idle r S n w'"
    "rows (db w') = (if rc = LIB_REC_OK then (rows (db w))(t := rows (db w) t @
       [\<lparr>p_sn = sn, p_pid = take 8 pid, p_mac = take 6 mac, p_len = len, p_data = take (nat len) dat\<rparr>])
     else rows (db w))"
proof -
  have free: "sem_free r w" using assms(1) by (simp add: idle_def)
  let ?bs = "[SInt sn, SBlob (take 8 pid), SBlob (take 6 mac), SInt len, SBlob (take (nat len) dat)]"
  have "exec_done E r (sql_insert t) (Some ?bs) w = Ret (rc, w')"
    using run assms by (simp add: pkt_insert_def blob_def)
  note res = exec_done_run(3) [OF free this]
  show "idle r S n w'" using idle_same [OF assms(1)] res by blast
  show "rows (db w') = (if rc = LIB_REC_OK then (rows (db w))(t := rows (db w) t @
       [\<lparr>p_sn = sn, p_pid = take 8 pid, p_mac = take 6 mac, p_len = len, p_data = take (nat len) dat\<rparr>])
     else rows (db w))"
    using res insert_step [OF assms(3)] by (auto simp: rec_codes)
qed

lemma delete_result:
  assumes "idle r S n w" "rf_db r" "t \<in> set pkt_tables" "pkt_delete t E (Some r) sn w = Ret (rc, w')"
  shows "idle r S n w'"
    "rows (db w') = (if rc = LIB_REC_OK
       then (rows (db w))(t := filter (\<lambda>p. p_sn p \<noteq> unsigned_sn sn) (rows (db w) t)) else rows (db w))"
proof -
  have free: "sem_free r w" using assms(1) by (simp add: idle_def)
  have "exec_done E r (sql_delete t sn) (Some []) w = Ret (rc, w')"
    using assms by (simp add: pkt_delete_def)
  note res = exec_done_run(3) [OF free this]
  show "idle r S n w'" using idle_same [OF assms(1)] res by blast
  show "rows (db w') = (if rc = LIB_REC_OK
       then (rows (db w))(t := filter (\<lambda>p. p_sn p \<noteq> unsigned_sn sn) (rows (db w) t)) else rows (db w))"
    using res delete_step [OF assms(3)] by (auto simp: rec_codes)
qed

end

end
