(* ===== verification/RecEngine.thy ===== *)
theory RecEngine
  imports RecProps
begin

text \<open>
  An in-memory engine that executes the statements of \<open>records.c\<close> on a list of
  rows: it satisfies the laws the record store relies on, so the theorems under those laws speak
  about something, and it is the concrete engine of the witnesses.
\<close>

section \<open>Decimal numerals\<close>

definition undigit :: "char \<Rightarrow> nat" where
  "undigit c = of_char c - 48"

definition undec :: "string \<Rightarrow> nat" where
  "undec s = foldl (\<lambda>n c. 10 * n + undigit c) 0 s"

lemma undigit_digit: "n < 10 \<Longrightarrow> undigit (digit n) = n"
  by (simp add: undigit_def digit_def)

lemma undec_udec: "undec (udec n) = n"
proof (induction n rule: udec.induct)
  case (1 n)
  then show ?case
    by (subst udec.simps) (simp add: undec_def undigit_digit)
qed

lemma udec_inj: "udec a = udec b \<longleftrightarrow> a = b"
  by (metis undec_udec)

lemma fmt_u_inj:
  assumes "0 \<le> a" "a < 2 ^ 32" "0 \<le> b" "b < 2 ^ 32"
  shows "fmt_u a = fmt_u b \<longleftrightarrow> a = b"
proof -
  have "a mod 2 ^ 32 = a" "b mod 2 ^ 32 = b" using assms by (simp_all add: mod_pos_pos_trivial)
  then show ?thesis using assms by (simp add: fmt_u_def udec_inj eq_nat_nat_iff)
qed

lemma length_fmt_u: "length (fmt_u i) \<le> 10"
proof -
  have "nat (i mod 2 ^ 32) < 10 ^ 10" using pos_mod_bound [of "2 ^ 32" i] by simp
  then show ?thesis unfolding fmt_u_def by (rule length_udec) simp
qed

section \<open>The statements are told apart by their text\<close>

lemmas sql_texts = sql_insert_def sql_select_def sql_select_all_def sql_delete_def sql_count_def
  sql_insert_consume_def sql_insert_exception_def

lemma sql_table_inj:
  assumes "t \<in> set pkt_tables" "t' \<in> set pkt_tables"
  shows "sql_insert t = sql_insert t' \<longleftrightarrow> t = t'"
    "sql_select_all t = sql_select_all t' \<longleftrightarrow> t = t'"
    "sql_count t = sql_count t' \<longleftrightarrow> t = t'"
    "sql_select t a = sql_select t' b \<longleftrightarrow> t = t' \<and> fmt_u a = fmt_u b"
    "sql_delete t a = sql_delete t' b \<longleftrightarrow> t = t' \<and> fmt_u a = fmt_u b"
  using assms by (auto simp: pkt_tables_def sql_texts rec_tables)

lemma sql_kinds_differ:
  assumes "t \<in> set pkt_tables" "t' \<in> set pkt_tables"
  shows "sql_insert t \<noteq> sql_select_all t'" "sql_insert t \<noteq> sql_count t'"
    "sql_insert t \<noteq> sql_select t' a" "sql_insert t \<noteq> sql_delete t' a"
    "sql_select_all t \<noteq> sql_count t'" "sql_select_all t \<noteq> sql_select t' a"
    "sql_select_all t \<noteq> sql_delete t' a" "sql_count t \<noteq> sql_select t' a" "sql_count t \<noteq> sql_delete t' a"
    "sql_insert t \<noteq> sql_insert_consume" "sql_insert t \<noteq> sql_insert_exception"
    "sql_select_all t \<noteq> sql_insert_consume" "sql_select_all t \<noteq> sql_insert_exception"
    "sql_count t \<noteq> sql_insert_consume" "sql_count t \<noteq> sql_insert_exception"
  using assms by (auto simp: pkt_tables_def sql_texts rec_tables)

section \<open>The engine\<close>

type_synonym ref_db = "(string \<times> prow) list"

definition ref_rows :: "ref_db \<Rightarrow> string \<Rightarrow> prow list" where
  "ref_rows d t = map snd (filter (\<lambda>x. fst x = t) d)"

definition ref_row :: "prow \<Rightarrow> sqlval list" where
  "ref_row p = [SNull, SInt (p_sn p), SBlob (p_pid p), SBlob (p_mac p), SInt (p_len p), SBlob (p_data p)]"

definition names_row :: "(string \<Rightarrow> int \<Rightarrow> string) \<Rightarrow> string \<Rightarrow> string \<times> prow \<Rightarrow> bool" where
  "names_row f sql x \<longleftrightarrow> fst x \<in> set pkt_tables \<and> 0 \<le> p_sn (snd x) \<and> p_sn (snd x) < 2 ^ 32 \<and>
     f (fst x) (p_sn (snd x)) = sql"

definition answer :: "ref_db \<Rightarrow> prow list \<Rightarrow> int \<times> sqlval list \<times> ref_db" where
  "answer d ps = (case ps of [] \<Rightarrow> (SQLITE_DONE, [], d) | p # _ \<Rightarrow> (SQLITE_ROW, ref_row p, d))"

fun ref_insert :: "ref_db \<Rightarrow> string \<Rightarrow> sqlval list \<Rightarrow> int \<times> sqlval list \<times> ref_db" where
  "ref_insert d t [SInt sn, SBlob pid, SBlob mac, SInt len, SBlob dat] =
     (SQLITE_DONE, [], d @ [(t, \<lparr>p_sn = sn, p_pid = pid, p_mac = mac, p_len = len, p_data = dat\<rparr>)])"
| "ref_insert d t bs = (SQLITE_MISUSE, [], d)"

definition ref_step :: "ref_db \<Rightarrow> string \<Rightarrow> sqlval list \<Rightarrow> int \<times> sqlval list \<times> ref_db" where
  "ref_step d sql bs =
     (case find (\<lambda>t. sql_insert t = sql) pkt_tables of Some t \<Rightarrow> ref_insert d t bs
      | None \<Rightarrow> (case find (\<lambda>t. sql_select_all t = sql) pkt_tables of Some t \<Rightarrow> answer d (ref_rows d t)
      | None \<Rightarrow> (case find (\<lambda>t. sql_count t = sql) pkt_tables of
                   Some t \<Rightarrow> (SQLITE_ROW, [SInt (int (length (ref_rows d t)))], d)
      | None \<Rightarrow> if take 6 sql = ''SELECT'' then answer d (map snd (filter (names_row sql_select sql) d))
                else (SQLITE_DONE, [], filter (\<lambda>x. \<not> names_row sql_delete sql x) d))))"

definition ref_engine :: "ref_db engine" where
  "ref_engine = \<lparr>e_open = (\<lambda>d path. SQLITE_OK), e_exec = (\<lambda>d sql. (SQLITE_OK, d)),
     e_prepare = (\<lambda>d sql. (SQLITE_OK, True)), e_step = ref_step,
     e_column_int = (\<lambda>v. case v of SInt i \<Rightarrow> i | _ \<Rightarrow> 0),
     e_column_blob = (\<lambda>v. case v of SBlob b \<Rightarrow> if b = [] then None else Some b | _ \<Rightarrow> None)\<rparr>"

lemma find_unique: "x \<in> set xs \<Longrightarrow> (\<And>y. y \<in> set xs \<Longrightarrow> P y \<longleftrightarrow> y = x) \<Longrightarrow> find P xs = Some x"
  by (induction xs) auto

lemma find_no_table:
  "(\<And>t'. t' \<in> set pkt_tables \<Longrightarrow> f t' \<noteq> sql) \<Longrightarrow> find (\<lambda>t'. f t' = sql) pkt_tables = None"
  by (auto simp: find_None_iff)

lemma find_table:
  assumes "t \<in> set pkt_tables"
  shows "find (\<lambda>t'. sql_insert t' = sql_insert t) pkt_tables = Some t"
    "find (\<lambda>t'. sql_select_all t' = sql_select_all t) pkt_tables = Some t"
    "find (\<lambda>t'. sql_count t' = sql_count t) pkt_tables = Some t"
  using assms by (auto intro!: find_unique simp: sql_table_inj)

lemma ref_step_insert: "t \<in> set pkt_tables \<Longrightarrow> ref_step d (sql_insert t) bs = ref_insert d t bs"
  by (simp add: ref_step_def find_table)

lemma ref_step_select_all: "t \<in> set pkt_tables \<Longrightarrow> ref_step d (sql_select_all t) bs = answer d (ref_rows d t)"
  by (simp add: ref_step_def find_table find_no_table sql_kinds_differ)

lemma ref_step_count:
  "t \<in> set pkt_tables \<Longrightarrow> ref_step d (sql_count t) bs = (SQLITE_ROW, [SInt (int (length (ref_rows d t)))], d)"
  by (simp add: ref_step_def find_table find_no_table sql_kinds_differ sql_kinds_differ [symmetric])

lemma ref_step_select:
  assumes "t \<in> set pkt_tables" "0 \<le> n" "n < 2 ^ 32"
  shows "ref_step d (sql_select t n) bs = answer d (filter (\<lambda>p. p_sn p = n) (filter (\<lambda>p. 0 \<le> p_sn p) (ref_rows d t)))"
proof -
  have "take 6 (sql_select t n) = ''SELECT''" by (simp add: sql_select_def)
  moreover have "map snd (filter (names_row sql_select (sql_select t n)) d) =
      filter (\<lambda>p. p_sn p = n) (filter (\<lambda>p. 0 \<le> p_sn p) (ref_rows d t))"
    using assms by (induction d) (auto simp: names_row_def ref_rows_def sql_table_inj fmt_u_inj)
  ultimately show ?thesis using assms(1)
    by (simp add: ref_step_def find_no_table sql_kinds_differ sql_kinds_differ [symmetric])
qed

lemma ref_step_delete:
  assumes "t \<in> set pkt_tables" "0 \<le> n" "n < 2 ^ 32"
  shows "ref_step d (sql_delete t n) bs = (SQLITE_DONE, [], filter (\<lambda>x. \<not> (fst x = t \<and> p_sn (snd x) = n)) d)"
proof -
  have "take 6 (sql_delete t n) \<noteq> ''SELECT''" by (simp add: sql_delete_def)
  moreover have "filter (\<lambda>x. \<not> names_row sql_delete (sql_delete t n) x) d =
      filter (\<lambda>x. \<not> (fst x = t \<and> p_sn (snd x) = n)) d"
    using assms by (induction d) (auto simp: names_row_def sql_table_inj fmt_u_inj)
  ultimately show ?thesis using assms(1)
    by (simp add: ref_step_def find_no_table sql_kinds_differ sql_kinds_differ [symmetric])
qed

lemma ref_step_other:
  "ref_step d sql_insert_consume bs = (SQLITE_DONE, [], d)"
  "ref_step d sql_insert_exception bs = (SQLITE_DONE, [], d)"
proof -
  have no: "\<not> names_row sql_delete sql_insert_consume x" "\<not> names_row sql_delete sql_insert_exception x" for x
    by (auto simp: names_row_def sql_delete_def sql_insert_consume_def sql_insert_exception_def)
  show "ref_step d sql_insert_consume bs = (SQLITE_DONE, [], d)"
    "ref_step d sql_insert_exception bs = (SQLITE_DONE, [], d)"
    by (simp_all add: ref_step_def find_no_table sql_kinds_differ no)
       (simp_all add: sql_insert_consume_def sql_insert_exception_def)
qed

lemma ref_rows_delete:
  "ref_rows (filter (\<lambda>x. \<not> (fst x = t \<and> p_sn (snd x) = n)) d) =
   (ref_rows d)(t := filter (\<lambda>p. p_sn p \<noteq> n) (ref_rows d t))"
  by (rule ext, induction d) (auto simp: ref_rows_def)

lemmas ref_steps = ref_step_insert ref_step_select_all ref_step_count ref_step_select ref_step_delete
  ref_step_other

interpretation ref: sqlite_store ref_engine ref_rows
proof
  show "law_columns ref_engine" by (simp add: law_columns_def ref_engine_def)
  show "law_insert ref_engine ref_rows"
    by (auto simp: law_insert_def ref_engine_def ref_steps ref_rows_def fun_eq_iff)
  show "law_select ref_engine ref_rows"
    unfolding law_select_def
    by (auto simp: ref_engine_def ref_steps answer_def row_of_def ref_row_def col_def rec_codes
        filter_empty_conv filter_eq_Cons_iff split: list.splits)
  show "law_delete ref_engine ref_rows"
    by (auto simp: law_delete_def ref_engine_def ref_steps ref_rows_delete [simplified])
qed

end
