(* ===== verification/RecClaims.thy ===== *)
theory RecClaims
  imports RecEngine
begin

text \<open>
  The theorems of the record store, over arbitrary engines where the source alone carries
  them and under the SQLite laws otherwise. The witnesses run the in-memory engine.
\<close>

section \<open>A concrete store\<close>

definition store0 :: records_file where
  "store0 = \<lparr>rf_db = True, rf_pathname = ''rec.db'', rf_sem_id = 7, rf_arg = 1\<rparr>"

definition world0 :: "ref_db \<Rightarrow> ref_db world" where
  "world0 d = \<lparr>db = d, sems = [7 \<mapsto> 1], stmts = 0\<rparr>"

lemma idle0: "idle store0 [7 \<mapsto> 1] 0 (world0 d)"
  by (simp add: idle_def sem_free_def store0_def world0_def)

lemma pkt_table_recharge [simp]: "REC_RECHARGE \<in> set pkt_tables"
  by (simp add: pkt_tables_def)

lemma ref_engine_simps:
  "e_prepare ref_engine d sql = (SQLITE_OK, True)" "e_step ref_engine = ref_step"
  "e_column_int ref_engine (SInt i) = i"
  "e_column_blob ref_engine (SBlob b) = (if b = [] then None else Some b)"
  by (simp_all add: ref_engine_def)

lemma ref_rows_eqs: "ref_rows [] t = []" "ref_rows (x # d) t = (if fst x = t then snd x # ref_rows d t else ref_rows d t)"
  by (simp_all add: ref_rows_def)

lemmas ref_laws = ref.columns ref.inserts ref.selects ref.deletes

lemmas ref_run = world0_def store0_def db_ok_def row_ok_def ref_rows_eqs exec_done_def sem_p_def prepare_v2_def
  step_v2_def ref_engine_simps ref_steps leave_def finalize_def sem_v_def

section \<open>Sessions\<close>

text \<open>
  C26. Any sequence of insert, delete and count calls with arguments as the interface promises
  them returns, whatever SQLite answers (errors included): no call waits forever, none accesses memory
  out of bounds, and at the end every semaphore has its old value and no prepared statement is left over.
\<close>

theorem writer_session_returns:
  assumes "sems w (rf_sem_id r) = Some v" "0 < v" "list_all (\<lambda>c. call_ok c \<and> \<not> is_select c) cs"
  shows "\<exists>w'. run_all (call_run E r) cs w = Ret w' \<and> sems w' = sems w \<and> stmts w' = stmts w"
proof -
  have "idle r (sems w) (stmts w) w" using assms by (auto simp: idle_def sem_free_def)
  from writers.session_returns [OF this assms(3)] show ?thesis by (auto simp: idle_def)
qed

theorem writer_session_returns_witness:
  "\<exists>w'. run_all (call_run ref_engine store0) [CInsert REC_RECHARGE 5 (replicate 8 0) (replicate 6 0) 2 [1, 2],
      CCount REC_RECHARGE 0, CDelete REC_RECHARGE 5] (world0 []) = Ret w' \<and>
     sems w' = sems (world0 []) \<and> stmts w' = stmts (world0 [])"
  by (rule writer_session_returns [of _ _ 1]) (simp_all add: store0_def world0_def)



section \<open>What the tables hold\<close>

text \<open>The answer of a select: the engine prepared the statement and reported a row or the end.\<close>

definition answers :: "'d engine \<Rightarrow> string \<Rightarrow> int \<Rightarrow> 'd \<Rightarrow> bool" where
  "answers E t sn d \<longleftrightarrow> e_prepare E d (sql_select t sn) = (SQLITE_OK, True) \<and>
     fst (e_step E d (sql_select t sn) []) \<in> {SQLITE_ROW, SQLITE_DONE}"

lemma ref_answers: "t \<in> set pkt_tables \<Longrightarrow> answers ref_engine t sn d"
  unfolding answers_def sql_unsigned(1) [of t sn]
  by (simp add: ref_engine_def ref_step_select [OF _ unsigned_sn_range] answer_def split: list.splits)

text \<open>
  C11. Storing and reading back: after a packet was inserted under a number that the
  table did not have, the select of that number returns \<open>LIB_REC_OK\<close>, the inserted length, and the inserted
  octets at the start of the caller's buffer.
\<close>

theorem insert_select_roundtrip:
  assumes "law_columns E" "law_insert E rows" "law_select E rows" "law_delete E rows"
    and "sems w (rf_sem_id r) = Some v" "0 < v" "db_ok rows (db w)" "rf_db r" "t \<in> set pkt_tables"
    and "8 \<le> length pid" "6 \<le> length mac" "0 < len" "len \<le> 512" "nat len \<le> length dat"
    and "0 \<le> sn" "sn < 2 ^ 31" "sn \<notin> p_sn ` set (rows (db w) t)"
    and ins: "pkt_insert t E (Some r) sn (Some pid) (Some mac) len (Some dat) w = Ret (LIB_REC_OK, w1)"
    and "answers E t sn (db w1)" "512 \<le> length out"
  shows "\<exists>w2. pkt_select t E (Some r) sn (Some len0) (Some out) w1 =
     Ret (LIB_REC_OK, Some len, Some (take (nat len) dat @ drop (nat len) out), w2) \<and>
     sems w2 = sems w \<and> stmts w2 = stmts w"
proof -
  have S: "sqlite_store E rows" using assms by unfold_locales
  have idle: "idle r (sems w) (stmts w) w" using assms by (auto simp: idle_def sem_free_def)
  have i1: "idle r (sems w) (stmts w) w1" and r1: "rows (db w1) = (rows (db w))(t := rows (db w) t @
       [\<lparr>p_sn = sn, p_pid = take 8 pid, p_mac = take 6 mac, p_len = len, p_data = take (nat len) dat\<rparr>])"
    using sqlite_store.insert_result [OF S idle _ _ _ _ _ _ ins] assms by simp_all
  have ok1: "db_ok rows (db w1)" using assms by (auto simp: db_ok_def r1 row_ok_def)
  have u: "unsigned_sn sn = sn" using assms by (simp add: unsigned_sn_id)
  have none: "take (nat len) dat \<noteq> []" "length (take (nat len) dat) = nat len" using assms by auto
  show ?thesis
    using sqlite_store.select_answer [OF S i1 ok1, of t out sn len0] assms none
    by (auto simp: r1 u answers_def idle_def)
qed

theorem insert_select_roundtrip_witness:
  "\<exists>w2. pkt_select REC_RECHARGE ref_engine (Some store0) 5 (Some 0) (Some (replicate 512 0))
       (world0 [(REC_RECHARGE, \<lparr>p_sn = 5, p_pid = replicate 8 0, p_mac = replicate 6 0, p_len = 2, p_data = [1, 2]\<rparr>)]) =
     Ret (LIB_REC_OK, Some 2, Some (take (nat 2) [1, 2] @ drop (nat 2) (replicate 512 0)), w2) \<and>
     sems w2 = sems (world0 []) \<and> stmts w2 = stmts (world0 [])"
  by (rule insert_select_roundtrip [of _ ref_rows _ _ 1 _ "replicate 8 0" "replicate 6 0"])
     (simp_all add: ref_laws ref_answers ref_run pkt_insert_def blob_def)

text \<open>
  After a delete that reported \<open>LIB_REC_OK\<close>, a select of the deleted number still returns
  \<open>LIB_REC_OK\<close>, with the caller's length and buffer as they were: the return code does not tell
  a missing record from a found one.
\<close>

theorem delete_then_select:
  assumes "law_columns E" "law_insert E rows" "law_select E rows" "law_delete E rows"
    and "sems w (rf_sem_id r) = Some v" "0 < v" "db_ok rows (db w)" "rf_db r" "t \<in> set pkt_tables"
    and del: "pkt_delete t E (Some r) sn w = Ret (LIB_REC_OK, w1)"
    and "answers E t sn (db w1)" "512 \<le> length out"
  shows "\<exists>w2. pkt_select t E (Some r) sn (Some len0) (Some out) w1 = Ret (LIB_REC_OK, Some len0, Some out, w2) \<and>
     rows (db w2) = rows (db w1)"
proof -
  have S: "sqlite_store E rows" using assms by unfold_locales
  have idle: "idle r (sems w) (stmts w) w" using assms by (auto simp: idle_def sem_free_def)
  have i1: "idle r (sems w) (stmts w) w1"
    and r1: "rows (db w1) = (rows (db w))(t := filter (\<lambda>p. p_sn p \<noteq> unsigned_sn sn) (rows (db w) t))"
    using sqlite_store.delete_result [OF S idle _ _ del] assms by simp_all
  have ok1: "db_ok rows (db w1)" using assms by (auto simp: db_ok_def r1)
  show ?thesis
    using sqlite_store.select_answer [OF S i1 ok1, of t out sn len0] assms
    by (auto simp: r1 answers_def)
qed

theorem delete_then_select_witness:
  "\<exists>w2. pkt_select REC_RECHARGE ref_engine (Some store0) 5 (Some 9) (Some (replicate 512 0)) (world0 []) =
       Ret (LIB_REC_OK, Some 9, Some (replicate 512 0), w2) \<and> ref_rows (db w2) = ref_rows (db (world0 []))"
  by (rule delete_then_select [of _ _ "world0 [(REC_RECHARGE,
        \<lparr>p_sn = 5, p_pid = [], p_mac = [], p_len = 1, p_data = [1]\<rparr>)]" _ 1])
     (simp_all add: ref_laws ref_answers ref_run pkt_delete_def)

text \<open>
  The select and delete commands print the packet number with \<open>%u\<close>, the insert binds it signed: a
  packet stored under a negative number is kept, but the delete of that number reports
  \<open>LIB_REC_OK\<close> without removing it, and no select of it copies anything out as long as no stored number is
  at least \<open>2\<^sup>31\<close>.
\<close>

theorem negative_number_unreachable:
  assumes "law_columns E" "law_insert E rows" "law_select E rows" "law_delete E rows"
    and "sems w (rf_sem_id r) = Some v" "0 < v" "db_ok rows (db w)" "rf_db r" "t \<in> set pkt_tables"
    and "- (2 ^ 31) \<le> sn" "sn < 0" "\<forall>p \<in> set (rows (db w) t). p_sn p < 2 ^ 31"
    and "answers E t sn (db w)" "512 \<le> length out"
  shows "(\<exists>w1. pkt_select t E (Some r) sn (Some len0) (Some out) w = Ret (LIB_REC_OK, Some len0, Some out, w1)) \<and>
     (\<exists>rc w2. pkt_delete t E (Some r) sn w = Ret (rc, w2) \<and> rows (db w2) = rows (db w))"
proof -
  have S: "sqlite_store E rows" using assms by unfold_locales
  have idle: "idle r (sems w) (stmts w) w" using assms by (auto simp: idle_def sem_free_def)
  have "unsigned_sn sn = sn + 2 ^ 32"
    using assms(10,11) unsigned_sn_id [of "sn + 2 ^ 32"] by (simp add: unsigned_sn_def)
  then have big: "\<forall>p \<in> set (rows (db w) t). p_sn p \<noteq> unsigned_sn sn" using assms(10,12) by auto
  have free: "sem_free r w" using idle by (simp add: idle_def)
  obtain rc w2 where del: "pkt_delete t E (Some r) sn w = Ret (rc, w2)"
    using exec_done_run(1,2) [OF free, of E "sql_delete t sn" "[]"] assms(8)
    by (cases "exec_done E r (sql_delete t sn) (Some []) w") (auto simp: pkt_delete_def)
  from sqlite_store.delete_result(2) [OF S idle assms(8,9) this] have "rows (db w2) = rows (db w)"
    using big by (auto simp: fun_eq_iff filter_id_conv)
  then show ?thesis
    using sqlite_store.select_answer [OF S idle assms(7,8,9), of out sn len0] big assms(13,14) del
    by (auto simp: answers_def)
qed

definition stored_negative :: "ref_db world" where
  "stored_negative = world0 [(REC_RECHARGE, \<lparr>p_sn = - 5, p_pid = [], p_mac = [], p_len = 1, p_data = [1]\<rparr>)]"

theorem negative_number_unreachable_witness:
  "(\<exists>w1. pkt_select REC_RECHARGE ref_engine (Some store0) (- 5) (Some 9) (Some (replicate 512 0)) stored_negative =
      Ret (LIB_REC_OK, Some 9, Some (replicate 512 0), w1)) \<and>
   (\<exists>rc w2. pkt_delete REC_RECHARGE ref_engine (Some store0) (- 5) stored_negative = Ret (rc, w2) \<and>
      ref_rows (db w2) = ref_rows (db stored_negative))"
  unfolding stored_negative_def
  by (rule negative_number_unreachable [of _ ref_rows _ _ 1])
     (simp_all add: ref_laws ref_answers ref_run)

text \<open>
  A count that returns \<open>LIB_REC_OK\<close> stored the number of rows of the table; one that returns an error left the
  caller's variable alone.
\<close>

theorem count_is_number_of_rows:
  assumes "law_columns E" "law_insert E rows" "law_select E rows" "law_delete E rows"
    and "sems w (rf_sem_id r) = Some v" "0 < v" "rf_db r" "t \<in> set pkt_tables" "length (rows (db w) t) < 2 ^ 31"
  shows "\<exists>rc c' w'. pkt_count t E (Some r) (Some c) w = Ret (rc, c', w') \<and>
    (if rc = LIB_REC_OK then c' = Some (int (length (rows (db w) t))) else c' = Some c) \<and>
    rows (db w') = rows (db w)"
proof -
  have S: "sqlite_store E rows" using assms by unfold_locales
  have free: "sem_free r w" using assms by (auto simp: sem_free_def)
  have n: "e_column_int E (SInt (int (length (rows (db w) t)))) = int (length (rows (db w) t))"
    using assms(9) by (intro sqlite_store.column_int [OF S]) auto
  show ?thesis
    using pkt_count_run [OF free assms(7), of t E c] sqlite_store.count_step [OF S assms(8), of "db w"] n
    by (fastforce simp: rec_codes split: if_splits)
qed

theorem count_is_number_of_rows_witness:
  "\<exists>rc c' w'. pkt_count REC_RECHARGE ref_engine (Some store0) (Some 9) (world0 []) = Ret (rc, c', w') \<and>
    (if rc = LIB_REC_OK then c' = Some (int (length (ref_rows (db (world0 [])) REC_RECHARGE))) else c' = Some 9) \<and>
    ref_rows (db w') = ref_rows (db (world0 []))"
  by (rule count_is_number_of_rows [of _ _ _ _ 1]) (simp_all add: ref_laws ref_run)

text \<open>
  A stored packet longer than 512 octets wedges the store: the select that meets it returns
  an error without finalizing its statement and without releasing the semaphore, and the next
  call of the process, or of any other that uses the semaphore, waits forever.
\<close>

theorem oversize_select_wedges:
  assumes "sems w (rf_sem_id r) = Some 1" "rf_db r"
    and "e_prepare E (db w) (sql_select t sn) = (SQLITE_OK, True)"
    and "e_step E (db w) (sql_select t sn) [] = (SQLITE_ROW, row, d)" "512 < e_column_int E (col row 4)"
  shows "\<exists>w'. pkt_select t E (Some r) sn (Some len) (Some dat) w = Ret (LIB_REC_ERROR, Some len, Some dat, w') \<and>
     stmts w' = stmts w + 1 \<and>
     (\<forall>t' sn' c. pkt_delete t' E (Some r) sn' w' = Blocked \<and> pkt_count t' E (Some r) (Some c) w' = Blocked \<and>
        pkt_select t' E (Some r) sn' (Some len) (Some dat) w' = Blocked)"
proof -
  let ?w' = "w\<lparr>db := d, sems := (sems w)(rf_sem_id r \<mapsto> 0), stmts := stmts w + 1\<rparr>"
  have "pkt_select t E (Some r) sn (Some len) (Some dat) w = Ret (LIB_REC_ERROR, Some len, Some dat, ?w')"
    using assms by (simp add: pkt_select_def select_stmt_def sem_p_def prepare_v2_def step_v2_def)
  moreover have "sem_p r ?w' = Blocked" by (simp add: sem_p_def)
  ultimately show ?thesis
    using assms(2) by (auto simp: pkt_delete_def pkt_count_def pkt_select_def select_stmt_def exec_done_def)
qed

theorem oversize_select_wedges_witness:
  "\<exists>w'. pkt_select REC_RECHARGE ref_engine (Some store0) 5 (Some 0) (Some [])
       (world0 [(REC_RECHARGE, \<lparr>p_sn = 5, p_pid = [], p_mac = [], p_len = 513, p_data = replicate 513 0\<rparr>)]) =
      Ret (LIB_REC_ERROR, Some 0, Some [], w') \<and> stmts w' = 0 + 1 \<and>
     (\<forall>t' sn' c. pkt_delete t' ref_engine (Some store0) sn' w' = Blocked \<and>
        pkt_count t' ref_engine (Some store0) (Some c) w' = Blocked \<and>
        pkt_select t' ref_engine (Some store0) sn' (Some 0) (Some []) w' = Blocked)"
  using oversize_select_wedges [of "world0 [(REC_RECHARGE,
      \<lparr>p_sn = 5, p_pid = [], p_mac = [], p_len = 513, p_data = replicate 513 0\<rparr>)]" store0 ref_engine
      REC_RECHARGE 5 "ref_row \<lparr>p_sn = 5, p_pid = [], p_mac = [], p_len = 513, p_data = replicate 513 0\<rparr>" _ 0 "[]"]
  by (simp add: ref_run answer_def ref_row_def col_def)

section \<open>Command buffers\<close>

lemma table_names_short: "t \<in> set pkt_tables \<Longrightarrow> length t \<le> 15"
  by (auto simp: pkt_tables_def rec_tables)

text \<open>
  Every command that \<open>sprintf\<close> or \<open>strcpy\<close> writes fits its buffer with the terminating NUL:
  512 octets in \<open>__sqlite3_create\<close>, 128 octets elsewhere, for every packet number.
\<close>

theorem sql_commands_fit:
  "list_all (\<lambda>c. length c < 512) create_cmds \<and>
   length sql_insert_consume < 128 \<and> length sql_insert_exception < 128 \<and>
   (\<forall>t. t \<in> set pkt_tables \<longrightarrow> length (sql_insert t) < 128 \<and> length (sql_select_all t) < 128 \<and>
      length (sql_count t) < 128 \<and> length (sql_select t sn) < 128 \<and> length (sql_delete t sn) < 128)"
proof -
  have "list_all (\<lambda>c. length c < 512) create_cmds"
    by (simp add: create_cmds_def sql_create_consume_def sql_create_exception_def sql_create_reconsume_def
        sql_create_oncard_ack_def sql_create_offcard_ack_def sql_create_recharge_def tabs_def rec_tables)
  moreover have "length (sql_insert t) < 128 \<and> length (sql_select_all t) < 128 \<and>
      length (sql_count t) < 128 \<and> length (sql_select t sn) < 128 \<and> length (sql_delete t sn) < 128"
    if "t \<in> set pkt_tables" for t
    using table_names_short [OF that] length_fmt_u [of sn] by (simp add: sql_texts)
  ultimately show ?thesis by (simp add: sql_insert_consume_def sql_insert_exception_def rec_tables)
qed

theorem sql_commands_fit_witness:
  "REC_RECHARGE \<in> set pkt_tables \<and> length (sql_select REC_RECHARGE 4294967295) < 128"
  using sql_commands_fit [of 4294967295] by (simp add: pkt_tables_def)

section \<open>Creating a store\<close>

lemma exec_cmds_frame: "exec_cmds E cs w = (ok, w') \<Longrightarrow> sems w' = sems w \<and> stmts w' = stmts w"
  by (induction cs arbitrary: w) (auto simp: Let_def split: prod.splits if_splits)

text \<open>The descriptor of a store that was created.\<close>

lemma created:
  assumes "lib_records_create E sys (Some path) w = Ret (Some r, w')"
  shows "os_malloc sys" "length path < 64"
    "r = \<lparr>rf_db = True, rf_pathname = path, rf_sem_id = os_semget sys (os_ftok sys path (os_time sys mod 100)), rf_arg = 1\<rparr>"
    "stmts w' = stmts w \<and> sems w' = (if rf_sem_id r \<noteq> -1 then (sems w)(rf_sem_id r \<mapsto> 1) else sems w)"
proof -
  show path: "os_malloc sys" "length path < 64"
    using assms by (auto simp: lib_records_create_def split: if_splits)
  let ?sid = "os_semget sys (os_ftok sys path (os_time sys mod 100))"
  obtain ok w2 where ex: "exec_cmds E create_cmds (if ?sid \<noteq> -1 then w\<lparr>sems := (sems w)(?sid \<mapsto> 1)\<rparr> else w) = (ok, w2)"
    by fastforce
  have run: "r = \<lparr>rf_db = True, rf_pathname = path, rf_sem_id = ?sid, rf_arg = 1\<rparr> \<and> w' = w2"
  proof (cases "e_open E (db w) path = SQLITE_OK")
    case True
    then show ?thesis using assms ex path
      by (cases ok) (simp_all add: lib_records_create_def sqlite3_create_def Let_def rec_codes
          split: prod.splits)
  next
    case False
    then show ?thesis using assms path
      by (simp add: lib_records_create_def sqlite3_create_def rec_codes)
  qed
  then show "r = \<lparr>rf_db = True, rf_pathname = path, rf_sem_id = ?sid, rf_arg = 1\<rparr>" by simp
  show "stmts w' = stmts w \<and> sems w' = (if rf_sem_id r \<noteq> -1 then (sems w)(rf_sem_id r \<mapsto> 1) else sems w)"
    using run exec_cmds_frame [OF ex] by simp
qed

text \<open>
  A store that \<open>lib_records_create\<close> returns has its database open and its semaphore at 1, no other
  semaphore was touched, and \<open>lib_records_destroy\<close> removes the semaphore again.
\<close>

theorem create_then_destroy:
  assumes "lib_records_create E sys (Some path) w = Ret (Some r, w')"
    and "os_semget sys (os_ftok sys path (os_time sys mod 100)) \<noteq> -1"
  shows "rf_db r \<and> rf_pathname r = path \<and> length path < 64 \<and>
     sems w' = (sems w)(rf_sem_id r \<mapsto> 1) \<and> stmts w' = stmts w \<and>
     sems (lib_records_destroy (Some r) w') = (sems w)(rf_sem_id r := None)"
  using created [OF assms(1)] assms(2) by (simp add: lib_records_destroy_def sem_rmid_def)

definition sys0 :: os where
  "sys0 = \<lparr>os_time = 1234, os_ftok = (\<lambda>p i. i), os_semget = (\<lambda>k. k), os_malloc = True\<rparr>"

lemma create0:
  "lib_records_create ref_engine sys0 (Some ''rec.db'') (world0 []) =
     Ret (Some \<lparr>rf_db = True, rf_pathname = ''rec.db'', rf_sem_id = 34, rf_arg = 1\<rparr>,
       (world0 [])\<lparr>sems := (sems (world0 []))(34 \<mapsto> 1)\<rparr>)"
  "lib_records_create ref_engine (sys0\<lparr>os_time := 1235\<rparr>) (Some ''rec.db'') (world0 []) =
     Ret (Some \<lparr>rf_db = True, rf_pathname = ''rec.db'', rf_sem_id = 35, rf_arg = 1\<rparr>,
       (world0 [])\<lparr>sems := (sems (world0 []))(35 \<mapsto> 1)\<rparr>)"
  by (simp_all add: lib_records_create_def sqlite3_create_def Let_def rec_codes sys0_def create_cmds_def
        ref_engine_def world0_def)

theorem create_then_destroy_witness:
  "\<exists>r w'. lib_records_create ref_engine sys0 (Some ''rec.db'') (world0 []) = Ret (Some r, w') \<and> rf_db r \<and>
     sems w' = (sems (world0 []))(rf_sem_id r \<mapsto> 1)"
  using create_then_destroy [OF create0(1)] create0(1) by (simp add: sys0_def)

text \<open>
  When \<open>sqlite3_open\<close> fails, \<open>lib_records_create\<close> removes the System V semaphore set with
  identifier 0, which belongs to somebody else: the descriptor's \<open>sem_id\<close> is still the 0 of
  \<open>memset\<close> and passes the test against -1. (A failed \<open>malloc\<close> dereferences NULL on the same path.)
\<close>

theorem open_failure_removes_semaphore_0:
  assumes "os_malloc sys" "length path < 64" "e_open E (db w) path \<noteq> SQLITE_OK"
  shows "lib_records_create E sys (Some path) w = Ret (None, w\<lparr>sems := (sems w)(0 := None)\<rparr>)"
  using assms by (simp add: lib_records_create_def sqlite3_create_def sem_rmid_def rec_codes)

theorem open_failure_removes_semaphore_0_witness:
  "lib_records_create (ref_engine\<lparr>e_open := (\<lambda>d p. 14)\<rparr>) sys0 (Some ''rec.db'') (world0 []) =
     Ret (None, (world0 [])\<lparr>sems := (sems (world0 []))(0 := None)\<rparr>)"
  by (rule open_failure_removes_semaphore_0) (simp_all add: sys0_def rec_codes)

text \<open>
  Both users of the same path share a semaphore only when they were created in seconds that agree
  modulo 100: the key is derived from \<open>time(NULL) % 100\<close>. With an \<open>ftok\<close> and \<open>semget\<close> that keep different
  keys apart, two stores on one path created in different seconds of that cycle have different semaphores.
\<close>

theorem two_stores_two_semaphores:
  assumes "lib_records_create E sys (Some path) w = Ret (Some r, w')"
    and "lib_records_create E (sys\<lparr>os_time := t\<rparr>) (Some path) w1 = Ret (Some r', w1')"
    and "inj (os_ftok sys path)" "inj (os_semget sys)" "t mod 100 \<noteq> os_time sys mod 100"
  shows "rf_sem_id r \<noteq> rf_sem_id r'"
  using assms(5) by (simp add: created(3) [OF assms(1)] created(3) [OF assms(2)] inj_eq [OF assms(3)] inj_eq [OF assms(4)])

theorem two_stores_two_semaphores_witness:
  "\<exists>r r' w1 w2. lib_records_create ref_engine sys0 (Some ''rec.db'') (world0 []) = Ret (Some r, w1) \<and>
     lib_records_create ref_engine (sys0\<lparr>os_time := 1235\<rparr>) (Some ''rec.db'') (world0 []) = Ret (Some r', w2) \<and>
     rf_sem_id r \<noteq> rf_sem_id r'"
proof -
  have "inj (os_ftok sys0 ''rec.db'')" "inj (os_semget sys0)" "1235 mod 100 \<noteq> os_time sys0 mod 100"
    by (simp_all add: sys0_def inj_def)
  from two_stores_two_semaphores [OF create0 this] create0 show ?thesis by blast
qed

text \<open>
  \<open>rec_msleep\<close> waits for the requested time when it is below 4294968 ms; from there on the
  product \<open>ms * 1000\<close> wraps around in 32 bits and the microseconds are wrong for some values.
\<close>

theorem rec_msleep_exact:
  assumes "ms < 4294968"
  shows "unat (tv_sec (rec_msleep ms)) * 1000000 + unat (tv_usec (rec_msleep ms)) = unat ms * 1000"
proof -
  have ms: "unat ms < 4294968" using assms by (simp add: word_less_nat_alt)
  have "unat (ms * 1000) = unat ms * 1000"
    using ms by (simp add: unat_word_ariths)
  moreover have "unat ms * 1000 mod 1000000 = unat ms mod 1000 * 1000"
    using mult_mod_left [of "unat ms" 1000 1000] by simp
  moreover have "q * 1000000 + m * 1000 = n * 1000" if "q * 1000 + m = n" for q m n :: nat
    using that by simp
  from this [OF div_mult_mod_eq]
  have "unat ms div 1000 * 1000000 + unat ms mod 1000 * 1000 = unat ms * 1000" .
  ultimately show ?thesis by (simp add: rec_msleep_def unat_div unat_mod)
qed

theorem rec_msleep_exact_witness:
  "unat (tv_sec (rec_msleep 1500)) * 1000000 + unat (tv_usec (rec_msleep 1500)) = unat (1500 :: u32) * 1000"
  by (rule rec_msleep_exact) simp

end
