(* ===== verification/RecRefine.thy ===== *)
theory RecRefine
  imports RecClaims
begin

text \<open>
  The record store refines a plain specification: a table is a list of rows, and a call either is refused and changes nothing or does what its name says. The
  simulation of one call is the assumption of a locale whose conclusion is about sessions; the store is its interpretation.
\<close>

section \<open>Specification\<close>

type_synonym tables = "string \<Rightarrow> prow list"

text \<open>What the caller sees of a call: the return code and the contents of the variables it passed.\<close>

datatype reply = Code int | Counted int int | Found int int "byte list" | First int int int "byte list"

fun refused :: "rec_call \<Rightarrow> reply" where
  "refused (CCount t c) = Counted LIB_REC_ERROR c"
| "refused (CSelect t sn len dat) = Found LIB_REC_ERROR len dat"
| "refused (CSelectAll t sn len dat) = First LIB_REC_ERROR sn len dat"
| "refused c = Code LIB_REC_ERROR"

definition c_int :: "int \<Rightarrow> bool" where
  "c_int i \<longleftrightarrow> - (2 ^ 31) \<le> i \<and> i < 2 ^ 31"

definition over :: "byte list \<Rightarrow> byte list \<Rightarrow> byte list" where
  "over xs buf = xs @ drop (length xs) buf"

text \<open>
  Numbers outside the range of \<open>int\<close> come out as anything. An empty packet is not told from a missing one. A select by number sees the number
  as unsigned.
\<close>

inductive table_step :: "rec_call \<Rightarrow> tables \<Rightarrow> reply \<Rightarrow> tables \<Rightarrow> bool" where
  refuse: "table_step c T (refused c) T"
| consume: "table_step (CConsume sn pid lid trade) T (Code LIB_REC_OK) T"
| exception: "table_step (CException sn pid trade) T (Code LIB_REC_OK) T"
| insert: "table_step (CInsert t sn pid mac len dat) T (Code LIB_REC_OK)
    (T(t := T t @ [\<lparr>p_sn = sn, p_pid = take 8 pid, p_mac = take 6 mac, p_len = len, p_data = take (nat len) dat\<rparr>]))"
| delete: "table_step (CDelete t sn) T (Code LIB_REC_OK) (T(t := filter (\<lambda>p. p_sn p \<noteq> unsigned_sn sn) (T t)))"
| count: "(c_int (int (length (T t))) \<Longrightarrow> n = int (length (T t))) \<Longrightarrow> table_step (CCount t c) T (Counted LIB_REC_OK n) T"
| select: "p \<in> set (T t) \<Longrightarrow> p_sn p = unsigned_sn sn \<Longrightarrow> p_data p \<noteq> [] \<Longrightarrow>
    table_step (CSelect t sn len dat) T (Found LIB_REC_OK (p_len p) (over (p_data p) dat)) T"
| select_nothing: "(\<forall>p\<in>set (T t). p_sn p \<noteq> unsigned_sn sn) \<or> (\<exists>p\<in>set (T t). p_sn p = unsigned_sn sn \<and> p_data p = []) \<Longrightarrow>
    table_step (CSelect t sn len dat) T (Found LIB_REC_OK len dat) T"
| first: "p \<in> set (T t) \<Longrightarrow> p_data p \<noteq> [] \<Longrightarrow> (c_int (p_sn p) \<Longrightarrow> sn' = p_sn p) \<Longrightarrow>
    table_step (CSelectAll t sn len dat) T (First LIB_REC_OK sn' (p_len p) (over (p_data p) dat)) T"
| first_nothing: "T t = [] \<or> (\<exists>p\<in>set (T t). p_data p = []) \<Longrightarrow>
    table_step (CSelectAll t sn len dat) T (First LIB_REC_OK sn len dat) T"

inductive spec_run :: "('c \<Rightarrow> 'a \<Rightarrow> 'o \<Rightarrow> 'a \<Rightarrow> bool) \<Rightarrow> 'c list \<Rightarrow> 'a \<Rightarrow> 'o list \<Rightarrow> 'a \<Rightarrow> bool"
  for spec where
  nil: "spec_run spec [] T [] T"
| cons: "spec c T out T1 \<Longrightarrow> spec_run spec cs T1 outs T2 \<Longrightarrow> spec_run spec (c # cs) T (out # outs) T2"

section \<open>The store's calls with their replies\<close>

fun call_reply :: "'d engine \<Rightarrow> records_file \<Rightarrow> rec_call \<Rightarrow> 'd world \<Rightarrow> (reply \<times> 'd world) outcome" where
  "call_reply E r (CConsume sn pid lid trade) w =
     map_outcome (map_prod Code id) (lib_records_consume_insert_data E (Some r) sn (Some pid) (Some lid) (Some trade) w)"
| "call_reply E r (CException sn pid trade) w =
     map_outcome (map_prod Code id) (lib_records_exception_insert_data E (Some r) sn (Some pid) (Some trade) w)"
| "call_reply E r (CInsert t sn pid mac len dat) w =
     map_outcome (map_prod Code id) (pkt_insert t E (Some r) sn (Some pid) (Some mac) len (Some dat) w)"
| "call_reply E r (CDelete t sn) w = map_outcome (map_prod Code id) (pkt_delete t E (Some r) sn w)"
| "call_reply E r (CCount t c) w =
     map_outcome (\<lambda>(rc, c', w'). (Counted rc (the c'), w')) (pkt_count t E (Some r) (Some c) w)"
| "call_reply E r (CSelect t sn len dat) w =
     map_outcome (\<lambda>(rc, len', dat', w'). (Found rc (the len') (the dat'), w')) (pkt_select t E (Some r) sn (Some len) (Some dat) w)"
| "call_reply E r (CSelectAll t sn len dat) w =
     map_outcome (\<lambda>(rc, sn', len', dat', w'). (First rc (the sn') (the len') (the dat'), w'))
       (pkt_select_all t E (Some r) (Some sn) (Some len) (Some dat) w)"

fun replies :: "('c \<Rightarrow> 'w \<Rightarrow> ('o \<times> 'w) outcome) \<Rightarrow> 'c list \<Rightarrow> 'w \<Rightarrow> ('o list \<times> 'w) outcome" where
  "replies run [] w = Ret ([], w)"
| "replies run (c # cs) w = out_bind (run c w) (\<lambda>(out, w1). map_outcome (map_prod (Cons out) id) (replies run cs w1))"

locale call_refinement =
  fixes run :: "'c \<Rightarrow> 'w \<Rightarrow> ('o \<times> 'w) outcome"
    and spec :: "'c \<Rightarrow> 'a \<Rightarrow> 'o \<Rightarrow> 'a \<Rightarrow> bool"
    and abs :: "'w \<Rightarrow> 'a"
    and good :: "'w \<Rightarrow> bool"
    and admissible :: "'c \<Rightarrow> bool"
  assumes simulation: "good w \<Longrightarrow> admissible c \<Longrightarrow> \<exists>out w'. run c w = Ret (out, w') \<and> good w' \<and> spec c (abs w) out (abs w')"
begin

lemma session_refines:
  "good w \<Longrightarrow> list_all admissible cs \<Longrightarrow>
   \<exists>outs w'. replies run cs w = Ret (outs, w') \<and> good w' \<and> spec_run spec cs (abs w) outs (abs w')"
proof (induction cs arbitrary: w)
  case Nil
  then show ?case by (auto intro: spec_run.nil)
next
  case (Cons c cs)
  then obtain out w1 where one: "run c w = Ret (out, w1)" "good w1" "spec c (abs w) out (abs w1)"
    using simulation [of w c] by auto
  with Cons obtain outs w2 where "replies run cs w1 = Ret (outs, w2)" "good w2" "spec_run spec cs (abs w1) outs (abs w2)"
    by fastforce
  with one show ?case by (auto intro!: spec_run.cons)
qed

end

section \<open>Simulation\<close>

text \<open>SELECT statements that were prepared give a row or the end, never an error.\<close>

definition law_answers :: "'d engine \<Rightarrow> bool" where
  "law_answers E \<longleftrightarrow> (\<forall>d t sn sql. t \<in> set pkt_tables \<longrightarrow> sql = sql_select t sn \<or> sql = sql_select_all t \<longrightarrow>
     e_prepare E d sql \<noteq> (SQLITE_OK, False) \<and> fst (e_step E d sql []) \<in> {SQLITE_ROW, SQLITE_DONE})"

text \<open>The result of a select among the rows \<open>X\<close>: refused, nothing, or one of them.\<close>

definition copied :: "prow set \<Rightarrow> byte list \<Rightarrow> int \<Rightarrow> (int \<times> int \<times> byte list) option \<Rightarrow> bool" where
  "copied X dat rc res \<longleftrightarrow>
     rc = LIB_REC_ERROR \<and> res = None \<or>
     rc = LIB_REC_OK \<and> res = None \<and> (X = {} \<or> (\<exists>p\<in>X. p_data p = [])) \<or>
     rc = LIB_REC_OK \<and> (\<exists>p\<in>X. \<exists>sn'. p_data p \<noteq> [] \<and> res = Some (sn', p_len p, over (p_data p) dat) \<and> (c_int (p_sn p) \<longrightarrow> sn' = p_sn p))"

locale reliable_store = sqlite_store +
  assumes answers: "law_answers E"
begin

lemma select_all_empty: "t \<in> set pkt_tables \<Longrightarrow> e_step E d (sql_select_all t) [] = (SQLITE_DONE, row, d') \<Longrightarrow> rows d t = []"
  using selects unfolding law_select_def by blast

text \<open>What a select copies out: a row among those the command names, unless there is none or its data is empty.\<close>

lemma select_stmt_reply:
  assumes idle: "idle r S n w" and room: "512 \<le> length dat"
    and prep: "e_prepare E (db w) sql \<noteq> (SQLITE_OK, False)"
    and law: "\<And>rc row d'. e_step E (db w) sql [] = (rc, row, d') \<Longrightarrow>
          rows d' = rows (db w) \<and> (rc = SQLITE_ROW \<and> (\<exists>p\<in>X. row_ok p \<and> row_of p row) \<or> rc = SQLITE_DONE \<and> X = {})"
  shows "\<exists>rc res w'. select_stmt E r sql dat w = Ret (rc, res, w') \<and> idle r S n w' \<and> rows (db w') = rows (db w) \<and> copied X dat rc res"
proof -
  have free: "sem_free r w" using idle by (simp add: idle_def)
  obtain rc0 stmt w2 where pr: "prepare_v2 E sql (taken r w) = (rc0, stmt, w2)" by (metis prod_cases3)
  have in2: "inside r w stmt w2" and db2: "db w2 = db w" using inside_prepare [OF pr] by auto
  have ep: "e_prepare E (db w) sql = (rc0, stmt)" using pr by (auto simp: prepare_v2_def taken_def split: prod.splits)
  obtain rc' row w3 where st: "step_v2 E stmt sql [] w2 = (rc', row, w3)" by (metis prod_cases3)
  have in3: "inside r w stmt w3" using in2 st by (rule inside_step)
  note lv = leave_inside [OF free in2] leave_inside [OF free in3]
  show ?thesis
  proof (cases "rc0 = SQLITE_OK")
    case False
    then show ?thesis using sem_p_free [OF free] pr lv(1-3) db2 idle_same [OF idle] by (auto simp: select_stmt_def copied_def)
  next
    case True
    then have stmt: stmt using prep ep by simp
    then have step: "e_step E (db w) sql [] = (rc', row, db w3)" using st db2 by (auto simp: step_v2_def split: prod.splits)
    note l = law [OF step]
    have good: "idle r S n (leave r stmt w3)" "rows (db (leave r stmt w3)) = rows (db w)" using lv(4-6) idle_same [OF idle] l by auto
    show ?thesis
    proof (cases "rc' = SQLITE_ROW")
      case False
      then show ?thesis using sem_p_free [OF free] pr st good l True by (auto simp: select_stmt_def copied_def)
    next
      case row: True
      then obtain p where p: "p \<in> X" "row_ok p" "row_of p row" using l by (auto simp: rec_codes)
      note fits = row_fits [OF p(2,3) room]
      have sel: "select_stmt E r sql dat w =
          (if p_data p = [] then Ret (LIB_REC_OK, None, leave r stmt w3)
           else Ret (LIB_REC_OK, Some (e_column_int E (SInt (p_sn p)), p_len p, over (p_data p) dat), leave r stmt w3))"
        using sem_p_free [OF free] pr st True row fits p
        by (auto simp: select_stmt_def Let_def row_of_def column_blob column_int row_ok_def over_def)
      have sn: "c_int (p_sn p) \<longrightarrow> e_column_int E (SInt (p_sn p)) = p_sn p" using column_int by (simp add: c_int_def)
      show ?thesis using sel good p(1) sn by (cases "p_data p = []") (auto simp: copied_def)
    qed
  qed
qed

text \<open>A statement without result rows: it either is refused and changes nothing, or its effect is the engine's.\<close>

lemma exec_done_reply:
  assumes "idle r S n w"
  shows "\<exists>rc w'. exec_done E r sql (Some bs) w = Ret (rc, w') \<and> idle r S n w' \<and>
     (rc = LIB_REC_ERROR \<and> db w' = db w \<or>
      (\<exists>rc' row. e_step E (db w) sql bs = (rc', row, db w') \<and> rc = (if rc' = SQLITE_DONE then LIB_REC_OK else LIB_REC_ERROR)))"
proof -
  have free: "sem_free r w" using assms by (simp add: idle_def)
  obtain rc w' where run: "exec_done E r sql (Some bs) w = Ret (rc, w')"
    using exec_done_run(1,2) [OF free, of E sql bs] by (cases "exec_done E r sql (Some bs) w") auto
  from exec_done_run(3) [OF free this] show ?thesis using run idle_same [OF assms] by blast
qed

lemma select_reply:
  assumes idle: "idle r S n w" and ok: "db_ok rows (db w)" and t: "t \<in> set pkt_tables" and room: "512 \<le> length dat"
  shows "\<exists>rc res w'. select_stmt E r (sql_select t sn) dat w = Ret (rc, res, w') \<and> idle r S n w' \<and> rows (db w') = rows (db w) \<and>
     table_step (CSelect t sn len dat) (rows (db w)) (case res of None \<Rightarrow> Found rc len dat | Some (sn', len', dat') \<Rightarrow> Found rc len' dat') (rows (db w))"
proof -
  let ?X = "{p \<in> set (rows (db w) t). p_sn p = unsigned_sn sn}" and ?sql = "sql_select t sn"
  have a: "e_prepare E (db w) ?sql \<noteq> (SQLITE_OK, False)" "fst (e_step E (db w) ?sql []) \<in> {SQLITE_ROW, SQLITE_DONE}"
    using answers t unfolding law_answers_def by blast+
  have law: "rows d' = rows (db w) \<and> (rc = SQLITE_ROW \<and> (\<exists>p\<in>?X. row_ok p \<and> row_of p row) \<or> rc = SQLITE_DONE \<and> ?X = {})"
    if st: "e_step E (db w) ?sql [] = (rc, row, d')" for rc row d'
    using select_step [OF t st] a(2) st ok t by (fastforce simp: db_ok_def)
  have "\<exists>rc res w'. select_stmt E r ?sql dat w = Ret (rc, res, w') \<and> idle r S n w' \<and> rows (db w') = rows (db w) \<and> copied ?X dat rc res"
    by (rule select_stmt_reply [OF idle room a(1) law])
  then obtain rc res w' where sel: "select_stmt E r ?sql dat w = Ret (rc, res, w')" "idle r S n w'" "rows (db w') = rows (db w)"
    and cases: "copied ?X dat rc res" by blast
  have "table_step (CSelect t sn len dat) (rows (db w)) (case res of None \<Rightarrow> Found rc len dat | Some (sn', len', dat') \<Rightarrow> Found rc len' dat') (rows (db w))"
    using cases table_step.refuse [of "CSelect t sn len dat"] by (auto simp: copied_def intro: table_step.select intro!: table_step.select_nothing)
  then show ?thesis using sel by blast
qed

lemma select_all_reply:
  assumes idle: "idle r S n w" and ok: "db_ok rows (db w)" and t: "t \<in> set pkt_tables" and room: "512 \<le> length dat"
  shows "\<exists>rc res w'. select_stmt E r (sql_select_all t) dat w = Ret (rc, res, w') \<and> idle r S n w' \<and> rows (db w') = rows (db w) \<and>
     table_step (CSelectAll t sn len dat) (rows (db w))
       (case res of None \<Rightarrow> First rc sn len dat | Some (sn', len', dat') \<Rightarrow> First rc sn' len' dat') (rows (db w))"
proof -
  let ?X = "set (rows (db w) t)" and ?sql = "sql_select_all t"
  have a: "e_prepare E (db w) ?sql \<noteq> (SQLITE_OK, False)" "fst (e_step E (db w) ?sql []) \<in> {SQLITE_ROW, SQLITE_DONE}"
    using answers t unfolding law_answers_def by blast+
  have law: "rows d' = rows (db w) \<and> (rc = SQLITE_ROW \<and> (\<exists>p\<in>?X. row_ok p \<and> row_of p row) \<or> rc = SQLITE_DONE \<and> ?X = {})"
    if st: "e_step E (db w) ?sql [] = (rc, row, d')" for rc row d'
    using select_all_step [OF t st] select_all_empty [OF t, of "db w" row d'] a(2) st ok t by (fastforce simp: db_ok_def)
  have "\<exists>rc res w'. select_stmt E r ?sql dat w = Ret (rc, res, w') \<and> idle r S n w' \<and> rows (db w') = rows (db w) \<and> copied ?X dat rc res"
    by (rule select_stmt_reply [OF idle room a(1) law])
  then obtain rc res w' where sel: "select_stmt E r ?sql dat w = Ret (rc, res, w')" "idle r S n w'" "rows (db w') = rows (db w)"
    and cases: "copied ?X dat rc res" by blast
  have "table_step (CSelectAll t sn len dat) (rows (db w))
      (case res of None \<Rightarrow> First rc sn len dat | Some (sn', len', dat') \<Rightarrow> First rc sn' len' dat') (rows (db w))"
    using cases table_step.refuse [of "CSelectAll t sn len dat"] by (auto simp: copied_def intro: table_step.first intro!: table_step.first_nothing)
  then show ?thesis using sel by blast
qed

lemma call_simulated:
  assumes "idle r S n w \<and> db_ok rows (db w)" "call_ok c \<and> short_insert c"
  shows "\<exists>out w'. call_reply E r c w = Ret (out, w') \<and> idle r S n w' \<and> table_step c (rows (db w)) out (rows (db w'))"
proof (cases "rf_db r")
  case False
  then show ?thesis using assms table_step.refuse [of c "rows (db w)"]
    by (cases c) (auto simp: lib_records_consume_insert_data_def lib_records_exception_insert_data_def
        pkt_insert_def pkt_delete_def pkt_count_def pkt_select_def pkt_select_all_def)
next
  case True
  have idle: "idle r S n w" and ok: "db_ok rows (db w)" and free: "sem_free r w" using assms by (auto simp: idle_def)
  note exec = exec_done_reply [OF idle] and refuse = table_step.refuse [of c "rows (db w)"]
  show ?thesis
  proof (cases c)
    case (CConsume sn pid lid rec)
    from exec [of sql_insert_consume "[SInt sn, SBlob (take 8 pid), SBlob (take 8 lid), SBlob (take 90 rec)]"] show ?thesis
      using other_insert_step assms True refuse unfolding CConsume
      by (fastforce simp: lib_records_consume_insert_data_def blob_def intro: table_step.consume)
  next
    case (CException sn pid rec)
    from exec [of sql_insert_exception "[SInt sn, SBlob (take 8 pid), SBlob (take 90 rec)]"] show ?thesis
      using other_insert_step assms True refuse unfolding CException
      by (fastforce simp: lib_records_exception_insert_data_def blob_def intro: table_step.exception)
  next
    case (CInsert t sn pid mac len dat)
    from exec [of "sql_insert t" "[SInt sn, SBlob (take 8 pid), SBlob (take 6 mac), SInt len, SBlob (take (nat len) dat)]"] show ?thesis
      using insert_step assms True refuse table_step.insert unfolding CInsert
      by (fastforce simp: pkt_insert_def blob_def)
  next
    case (CDelete t sn)
    from exec [of "sql_delete t sn" "[]"] show ?thesis
      using delete_step assms True refuse table_step.delete unfolding CDelete by (fastforce simp: pkt_delete_def)
  next
    case (CCount t k)
    from pkt_count_run [OF free True, of t E k] show ?thesis
      using count_step [of t "db w"] assms refuse idle_same [OF idle] column_int unfolding CCount
      by (fastforce simp: c_int_def intro!: table_step.count split: if_splits)
  next
    case (CSelect t sn len dat)
    from select_reply [OF idle ok, of t dat sn len] show ?thesis
      using assms True unfolding CSelect by (fastforce simp: pkt_select_def split: option.splits)
  next
    case (CSelectAll t sn len dat)
    from select_all_reply [OF idle ok, of t dat sn len] show ?thesis
      using assms True unfolding CSelectAll by (fastforce simp: pkt_select_all_def split: option.splits)
  qed
qed

lemma call_simulated_good:
  assumes "idle r S n w \<and> db_ok rows (db w)" "call_ok c \<and> short_insert c"
  shows "\<exists>out w'. call_reply E r c w = Ret (out, w') \<and> (idle r S n w' \<and> db_ok rows (db w')) \<and> table_step c (rows (db w)) out (rows (db w'))"
proof -
  obtain out w' where sim: "call_reply E r c w = Ret (out, w')" "idle r S n w'" "table_step c (rows (db w)) out (rows (db w'))"
    using call_simulated [OF assms] by blast
  have "db_ok rows (db w')" using sim(3) assms by (cases rule: table_step.cases) (auto simp: db_ok_def row_ok_def)
  then show ?thesis using sim by blast
qed

end

sublocale reliable_store \<subseteq> tables: call_refinement "call_reply E r" table_step "\<lambda>w. rows (db w)"
    "\<lambda>w. idle r S n w \<and> db_ok rows (db w)" "\<lambda>c. call_ok c \<and> short_insert c" for r S n
  by unfold_locales (rule call_simulated_good)

context reliable_store
begin

lemmas session_refines_tables = tables.session_refines

end

lemma ref_law_answers: "law_answers ref_engine"
proof -
  have "fst (e_step ref_engine d (sql_select_all t) []) \<in> {SQLITE_ROW, SQLITE_DONE}" if "t \<in> set pkt_tables" for d t
    using that by (simp add: ref_engine_simps ref_step_select_all answer_def split: list.splits)
  then show ?thesis using ref_answers by (auto simp: law_answers_def answers_def ref_engine_simps)
qed

interpretation ref_store: reliable_store ref_engine ref_rows
  by unfold_locales (rule ref_law_answers)



end
