(* ===== verification/Feistel.thy ===== *)
theory Feistel
  imports Prelude
begin

text \<open>
  Feistel networks: a round mixes a function of one half into the other. Whatever
  the round function is, running the same rounds with the subkeys in reverse order on the
  swapped result gives the swapped input back. The block ciphers built on it instantiate the round function.
\<close>

locale feistel =
  fixes F :: "'k \<Rightarrow> 'w \<Rightarrow> 'w"
    and mix :: "'w \<Rightarrow> 'w \<Rightarrow> 'w"
  assumes mix_undo: "mix (mix x y) y = x"
begin

definition fe :: "'k \<Rightarrow> 'w \<times> 'w \<Rightarrow> 'w \<times> 'w" where
  "fe k s = (snd s, mix (fst s) (F k (snd s)))"

definition network :: "'k list \<Rightarrow> 'w \<times> 'w \<Rightarrow> 'w \<times> 'w" where
  "network ks s = fold fe ks s"

lemma network_Nil [simp]: "network [] s = s"
  by (simp add: network_def)

lemma network_Cons [simp]: "network (k # ks) s = network ks (fe k s)"
  by (simp add: network_def)

lemma network_append: "network (ks @ ls) s = network ls (network ks s)"
  by (simp add: network_def)

lemma fe_undo: "fe k (prod.swap (fe k s)) = prod.swap s"
  by (simp add: fe_def mix_undo prod.swap_def)

theorem network_undo: "network (rev ks) (prod.swap (network ks s)) = prod.swap s"
  by (induction ks arbitrary: s) (simp_all add: network_append fe_undo)

end

end
