(* ===== verification/Des.thy ===== *)
theory Des
  imports Feistel
begin

text \<open>
  DES and two-key Triple-DES (\<open>encryption/des.c\<close>). The target is a 32-bit ARM, so \<open>unsigned long\<close>
  is a 32-bit word. The macros that work on the variables \<open>X\<close>, \<open>Y\<close> and \<open>T\<close> become functions on the pair of
  halves; the subkey pointer \<open>SK\<close> becomes a list and an offset. A key schedule \<open>des_main_ks\<close> returns the 32
  words it stores.
\<close>

section \<open>Tables\<close>

definition SB1 :: "u32 list" where
  "SB1 = [
     0x01010400, 0x00000000, 0x00010000, 0x01010404,
     0x01010004, 0x00010404, 0x00000004, 0x00010000,
     0x00000400, 0x01010400, 0x01010404, 0x00000400,
     0x01000404, 0x01010004, 0x01000000, 0x00000004,
     0x00000404, 0x01000400, 0x01000400, 0x00010400,
     0x00010400, 0x01010000, 0x01010000, 0x01000404,
     0x00010004, 0x01000004, 0x01000004, 0x00010004,
     0x00000000, 0x00000404, 0x00010404, 0x01000000,
     0x00010000, 0x01010404, 0x00000004, 0x01010000,
     0x01010400, 0x01000000, 0x01000000, 0x00000400,
     0x01010004, 0x00010000, 0x00010400, 0x01000004,
     0x00000400, 0x00000004, 0x01000404, 0x00010404,
     0x01010404, 0x00010004, 0x01010000, 0x01000404,
     0x01000004, 0x00000404, 0x00010404, 0x01010400,
     0x00000404, 0x01000400, 0x01000400, 0x00000000,
     0x00010004, 0x00010400, 0x00000000, 0x01010004]"

definition SB2 :: "u32 list" where
  "SB2 = [
     0x80108020, 0x80008000, 0x00008000, 0x00108020,
     0x00100000, 0x00000020, 0x80100020, 0x80008020,
     0x80000020, 0x80108020, 0x80108000, 0x80000000,
     0x80008000, 0x00100000, 0x00000020, 0x80100020,
     0x00108000, 0x00100020, 0x80008020, 0x00000000,
     0x80000000, 0x00008000, 0x00108020, 0x80100000,
     0x00100020, 0x80000020, 0x00000000, 0x00108000,
     0x00008020, 0x80108000, 0x80100000, 0x00008020,
     0x00000000, 0x00108020, 0x80100020, 0x00100000,
     0x80008020, 0x80100000, 0x80108000, 0x00008000,
     0x80100000, 0x80008000, 0x00000020, 0x80108020,
     0x00108020, 0x00000020, 0x00008000, 0x80000000,
     0x00008020, 0x80108000, 0x00100000, 0x80000020,
     0x00100020, 0x80008020, 0x80000020, 0x00100020,
     0x00108000, 0x00000000, 0x80008000, 0x00008020,
     0x80000000, 0x80100020, 0x80108020, 0x00108000]"

definition SB3 :: "u32 list" where
  "SB3 = [
     0x00000208, 0x08020200, 0x00000000, 0x08020008,
     0x08000200, 0x00000000, 0x00020208, 0x08000200,
     0x00020008, 0x08000008, 0x08000008, 0x00020000,
     0x08020208, 0x00020008, 0x08020000, 0x00000208,
     0x08000000, 0x00000008, 0x08020200, 0x00000200,
     0x00020200, 0x08020000, 0x08020008, 0x00020208,
     0x08000208, 0x00020200, 0x00020000, 0x08000208,
     0x00000008, 0x08020208, 0x00000200, 0x08000000,
     0x08020200, 0x08000000, 0x00020008, 0x00000208,
     0x00020000, 0x08020200, 0x08000200, 0x00000000,
     0x00000200, 0x00020008, 0x08020208, 0x08000200,
     0x08000008, 0x00000200, 0x00000000, 0x08020008,
     0x08000208, 0x00020000, 0x08000000, 0x08020208,
     0x00000008, 0x00020208, 0x00020200, 0x08000008,
     0x08020000, 0x08000208, 0x00000208, 0x08020000,
     0x00020208, 0x00000008, 0x08020008, 0x00020200]"

definition SB4 :: "u32 list" where
  "SB4 = [
     0x00802001, 0x00002081, 0x00002081, 0x00000080,
     0x00802080, 0x00800081, 0x00800001, 0x00002001,
     0x00000000, 0x00802000, 0x00802000, 0x00802081,
     0x00000081, 0x00000000, 0x00800080, 0x00800001,
     0x00000001, 0x00002000, 0x00800000, 0x00802001,
     0x00000080, 0x00800000, 0x00002001, 0x00002080,
     0x00800081, 0x00000001, 0x00002080, 0x00800080,
     0x00002000, 0x00802080, 0x00802081, 0x00000081,
     0x00800080, 0x00800001, 0x00802000, 0x00802081,
     0x00000081, 0x00000000, 0x00000000, 0x00802000,
     0x00002080, 0x00800080, 0x00800081, 0x00000001,
     0x00802001, 0x00002081, 0x00002081, 0x00000080,
     0x00802081, 0x00000081, 0x00000001, 0x00002000,
     0x00800001, 0x00002001, 0x00802080, 0x00800081,
     0x00002001, 0x00002080, 0x00800000, 0x00802001,
     0x00000080, 0x00800000, 0x00002000, 0x00802080]"

definition SB5 :: "u32 list" where
  "SB5 = [
     0x00000100, 0x02080100, 0x02080000, 0x42000100,
     0x00080000, 0x00000100, 0x40000000, 0x02080000,
     0x40080100, 0x00080000, 0x02000100, 0x40080100,
     0x42000100, 0x42080000, 0x00080100, 0x40000000,
     0x02000000, 0x40080000, 0x40080000, 0x00000000,
     0x40000100, 0x42080100, 0x42080100, 0x02000100,
     0x42080000, 0x40000100, 0x00000000, 0x42000000,
     0x02080100, 0x02000000, 0x42000000, 0x00080100,
     0x00080000, 0x42000100, 0x00000100, 0x02000000,
     0x40000000, 0x02080000, 0x42000100, 0x40080100,
     0x02000100, 0x40000000, 0x42080000, 0x02080100,
     0x40080100, 0x00000100, 0x02000000, 0x42080000,
     0x42080100, 0x00080100, 0x42000000, 0x42080100,
     0x02080000, 0x00000000, 0x40080000, 0x42000000,
     0x00080100, 0x02000100, 0x40000100, 0x00080000,
     0x00000000, 0x40080000, 0x02080100, 0x40000100]"

definition SB6 :: "u32 list" where
  "SB6 = [
     0x20000010, 0x20400000, 0x00004000, 0x20404010,
     0x20400000, 0x00000010, 0x20404010, 0x00400000,
     0x20004000, 0x00404010, 0x00400000, 0x20000010,
     0x00400010, 0x20004000, 0x20000000, 0x00004010,
     0x00000000, 0x00400010, 0x20004010, 0x00004000,
     0x00404000, 0x20004010, 0x00000010, 0x20400010,
     0x20400010, 0x00000000, 0x00404010, 0x20404000,
     0x00004010, 0x00404000, 0x20404000, 0x20000000,
     0x20004000, 0x00000010, 0x20400010, 0x00404000,
     0x20404010, 0x00400000, 0x00004010, 0x20000010,
     0x00400000, 0x20004000, 0x20000000, 0x00004010,
     0x20000010, 0x20404010, 0x00404000, 0x20400000,
     0x00404010, 0x20404000, 0x00000000, 0x20400010,
     0x00000010, 0x00004000, 0x20400000, 0x00404010,
     0x00004000, 0x00400010, 0x20004010, 0x00000000,
     0x20404000, 0x20000000, 0x00400010, 0x20004010]"

definition SB7 :: "u32 list" where
  "SB7 = [
     0x00200000, 0x04200002, 0x04000802, 0x00000000,
     0x00000800, 0x04000802, 0x00200802, 0x04200800,
     0x04200802, 0x00200000, 0x00000000, 0x04000002,
     0x00000002, 0x04000000, 0x04200002, 0x00000802,
     0x04000800, 0x00200802, 0x00200002, 0x04000800,
     0x04000002, 0x04200000, 0x04200800, 0x00200002,
     0x04200000, 0x00000800, 0x00000802, 0x04200802,
     0x00200800, 0x00000002, 0x04000000, 0x00200800,
     0x04000000, 0x00200800, 0x00200000, 0x04000802,
     0x04000802, 0x04200002, 0x04200002, 0x00000002,
     0x00200002, 0x04000000, 0x04000800, 0x00200000,
     0x04200800, 0x00000802, 0x00200802, 0x04200800,
     0x00000802, 0x04000002, 0x04200802, 0x04200000,
     0x00200800, 0x00000000, 0x00000002, 0x04200802,
     0x00000000, 0x00200802, 0x04200000, 0x00000800,
     0x04000002, 0x04000800, 0x00000800, 0x00200002]"

definition SB8 :: "u32 list" where
  "SB8 = [
     0x10001040, 0x00001000, 0x00040000, 0x10041040,
     0x10000000, 0x10001040, 0x00000040, 0x10000000,
     0x00040040, 0x10040000, 0x10041040, 0x00041000,
     0x10041000, 0x00041040, 0x00001000, 0x00000040,
     0x10040000, 0x10000040, 0x10001000, 0x00001040,
     0x00041000, 0x00040040, 0x10040040, 0x10041000,
     0x00001040, 0x00000000, 0x00000000, 0x10040040,
     0x10000040, 0x10001000, 0x00041040, 0x00040000,
     0x00041040, 0x00040000, 0x10041000, 0x00001000,
     0x00000040, 0x10040040, 0x00001000, 0x00041040,
     0x10001000, 0x00000040, 0x10000040, 0x10040000,
     0x10040040, 0x10000000, 0x00040000, 0x10001040,
     0x00000000, 0x10041040, 0x00040040, 0x10000040,
     0x10040000, 0x10001000, 0x10001040, 0x00000000,
     0x10041040, 0x00041000, 0x00041000, 0x00001040,
     0x00001040, 0x00040040, 0x10000000, 0x10041000]"

definition LHs :: "u32 list" where
  "LHs = [
     0x00000000, 0x00000001, 0x00000100, 0x00000101,
     0x00010000, 0x00010001, 0x00010100, 0x00010101,
     0x01000000, 0x01000001, 0x01000100, 0x01000101,
     0x01010000, 0x01010001, 0x01010100, 0x01010101]"

definition RHs :: "u32 list" where
  "RHs = [
     0x00000000, 0x01000000, 0x00010000, 0x01010000,
     0x00000100, 0x01000100, 0x00010100, 0x01010100,
     0x00000001, 0x01000001, 0x00010001, 0x01010001,
     0x00000101, 0x01000101, 0x00010101, 0x01010101]"

lemmas sboxes = SB1_def SB2_def SB3_def SB4_def SB5_def SB6_def SB7_def SB8_def

section \<open>Words and octets\<close>

definition GET_UINT32_BE :: "byte list \<Rightarrow> nat \<Rightarrow> u32" where
  "GET_UINT32_BE b i =
     push_bit 24 (ucast (b ! i)) OR push_bit 16 (ucast (b ! (i + 1))) OR
     push_bit 8 (ucast (b ! (i + 2))) OR ucast (b ! (i + 3))"

definition PUT_UINT32_BE :: "u32 \<Rightarrow> byte list" where
  "PUT_UINT32_BE n = [ucast (drop_bit 24 n), ucast (drop_bit 16 n), ucast (drop_bit 8 n), ucast n]"

section \<open>Permutations\<close>

text \<open>\<open>T = ((X >> n) ^ Y) & m; Y ^= T; X ^= (T << n);\<close>\<close>

definition swap_bits :: "nat \<Rightarrow> u32 \<Rightarrow> u32 \<times> u32 \<Rightarrow> u32 \<times> u32" where
  "swap_bits n m s = (let (X, Y) = s; T = (drop_bit n X XOR Y) AND m in (X XOR push_bit n T, Y XOR T))"

text \<open>The same with the roles of \<open>X\<close> and \<open>Y\<close> exchanged.\<close>

definition swap_bits_yx :: "nat \<Rightarrow> u32 \<Rightarrow> u32 \<times> u32 \<Rightarrow> u32 \<times> u32" where
  "swap_bits_yx n m s = (let (X, Y) = s; T = (drop_bit n Y XOR X) AND m in (X XOR T, Y XOR push_bit n T))"

definition rol1 :: "u32 \<Rightarrow> u32" where
  "rol1 X = (push_bit 1 X OR drop_bit 31 X) AND 0xFFFFFFFF"

definition ror1 :: "u32 \<Rightarrow> u32" where
  "ror1 X = (push_bit 31 X OR drop_bit 1 X) AND 0xFFFFFFFF"

definition DES_IP :: "u32 \<times> u32 \<Rightarrow> u32 \<times> u32" where
  "DES_IP s = (let
     s = swap_bits 4 0x0F0F0F0F s;
     s = swap_bits 16 0x0000FFFF s;
     s = swap_bits_yx 2 0x33333333 s;
     s = swap_bits_yx 8 0x00FF00FF s;
     s = (fst s, rol1 (snd s));
     s = swap_bits 0 0xAAAAAAAA s
   in (rol1 (fst s), snd s))"

definition DES_FP :: "u32 \<times> u32 \<Rightarrow> u32 \<times> u32" where
  "DES_FP s = (let
     s = (ror1 (fst s), snd s);
     s = swap_bits 0 0xAAAAAAAA s;
     s = (fst s, ror1 (snd s));
     s = swap_bits_yx 8 0x00FF00FF s;
     s = swap_bits_yx 2 0x33333333 s;
     s = swap_bits 16 0x0000FFFF s
   in swap_bits 4 0x0F0F0F0F s)"

section \<open>Rounds\<close>

definition sbox :: "u32 list \<Rightarrow> u32 \<Rightarrow> u32" where
  "sbox SB T = SB ! unat (T AND 0x3F)"

text \<open>What a round mixes into the other half, from the two subkey words.\<close>

definition des_f :: "u32 \<times> u32 \<Rightarrow> u32 \<Rightarrow> u32" where
  "des_f k X = (let
     T = fst k XOR X;
     a = sbox SB8 T XOR sbox SB6 (drop_bit 8 T) XOR sbox SB4 (drop_bit 16 T) XOR sbox SB2 (drop_bit 24 T);
     T = snd k XOR (push_bit 28 X OR drop_bit 4 X)
   in a XOR (sbox SB7 T XOR sbox SB5 (drop_bit 8 T) XOR sbox SB3 (drop_bit 16 T) XOR sbox SB1 (drop_bit 24 T)))"

definition DES_ROUND :: "u32 list \<Rightarrow> nat \<Rightarrow> u32 \<Rightarrow> u32 \<Rightarrow> u32" where
  "DES_ROUND SK i X Y = Y XOR des_f (SK ! i, SK ! (i + 1)) X"

text \<open>One source line \<open>DES_ROUND(Y, X); DES_ROUND(X, Y);\<close> from subkey \<open>i\<close> on, and eight of them.\<close>

definition des_pair :: "u32 list \<Rightarrow> nat \<Rightarrow> u32 \<times> u32 \<Rightarrow> u32 \<times> u32" where
  "des_pair SK i s = (let X = DES_ROUND SK i (snd s) (fst s); Y = DES_ROUND SK (i + 2) X (snd s) in (X, Y))"

definition des_rounds :: "u32 list \<Rightarrow> nat \<Rightarrow> u32 \<times> u32 \<Rightarrow> u32 \<times> u32" where
  "des_rounds SK i s = fold (\<lambda>n. des_pair SK (i + 4 * n)) [0..<8] s"

section \<open>Key schedule\<close>

definition tbl4 :: "u32 list \<Rightarrow> u32 \<Rightarrow> u32" where
  "tbl4 tbl x = tbl ! unat (x AND 0xF)"

definition des_pc1 :: "u32 \<times> u32 \<Rightarrow> u32 \<times> u32" where
  "des_pc1 s = (let
     s = swap_bits_yx 4 0x0F0F0F0F s;
     s = swap_bits_yx 0 0x10101010 s;
     X = fst s; Y = snd s;
     X = push_bit 3 (tbl4 LHs X) OR push_bit 2 (tbl4 LHs (drop_bit 8 X)) OR
     push_bit 1 (tbl4 LHs (drop_bit 16 X)) OR tbl4 LHs (drop_bit 24 X) OR
     push_bit 7 (tbl4 LHs (drop_bit 5 X)) OR push_bit 6 (tbl4 LHs (drop_bit 13 X)) OR
     push_bit 5 (tbl4 LHs (drop_bit 21 X)) OR push_bit 4 (tbl4 LHs (drop_bit 29 X));
     Y = push_bit 3 (tbl4 RHs (drop_bit 1 Y)) OR push_bit 2 (tbl4 RHs (drop_bit 9 Y)) OR
     push_bit 1 (tbl4 RHs (drop_bit 17 Y)) OR tbl4 RHs (drop_bit 25 Y) OR
     push_bit 7 (tbl4 RHs (drop_bit 4 Y)) OR push_bit 6 (tbl4 RHs (drop_bit 12 Y)) OR
     push_bit 5 (tbl4 RHs (drop_bit 20 Y)) OR push_bit 4 (tbl4 RHs (drop_bit 28 Y))
   in (X AND 0x0FFFFFFF, Y AND 0x0FFFFFFF))"

definition des_rot :: "nat \<Rightarrow> u32 \<Rightarrow> u32" where
  "des_rot n X = (push_bit n X OR drop_bit (28 - n) X) AND 0x0FFFFFFF"

definition des_sk0 :: "u32 \<Rightarrow> u32 \<Rightarrow> u32" where
  "des_sk0 X Y =
     (push_bit 4 X AND 0x24000000) OR (push_bit 28 X AND 0x10000000) OR
     (push_bit 14 X AND 0x08000000) OR (push_bit 18 X AND 0x02080000) OR
     (push_bit 6 X AND 0x01000000) OR (push_bit 9 X AND 0x00200000) OR
     (drop_bit 1 X AND 0x00100000) OR (push_bit 10 X AND 0x00040000) OR
     (push_bit 2 X AND 0x00020000) OR (drop_bit 10 X AND 0x00010000) OR
     (drop_bit 13 Y AND 0x00002000) OR (drop_bit 4 Y AND 0x00001000) OR
     (push_bit 6 Y AND 0x00000800) OR (drop_bit 1 Y AND 0x00000400) OR
     (drop_bit 14 Y AND 0x00000200) OR (Y AND 0x00000100) OR
     (drop_bit 5 Y AND 0x00000020) OR (drop_bit 10 Y AND 0x00000010) OR
     (drop_bit 3 Y AND 0x00000008) OR (drop_bit 18 Y AND 0x00000004) OR
     (drop_bit 26 Y AND 0x00000002) OR (drop_bit 24 Y AND 0x00000001)"

definition des_sk1 :: "u32 \<Rightarrow> u32 \<Rightarrow> u32" where
  "des_sk1 X Y =
     (push_bit 15 X AND 0x20000000) OR (push_bit 17 X AND 0x10000000) OR
     (push_bit 10 X AND 0x08000000) OR (push_bit 22 X AND 0x04000000) OR
     (drop_bit 2 X AND 0x02000000) OR (push_bit 1 X AND 0x01000000) OR
     (push_bit 16 X AND 0x00200000) OR (push_bit 11 X AND 0x00100000) OR
     (push_bit 3 X AND 0x00080000) OR (drop_bit 6 X AND 0x00040000) OR
     (push_bit 15 X AND 0x00020000) OR (drop_bit 4 X AND 0x00010000) OR
     (drop_bit 2 Y AND 0x00002000) OR (push_bit 8 Y AND 0x00001000) OR
     (drop_bit 14 Y AND 0x00000808) OR (drop_bit 9 Y AND 0x00000400) OR
     (Y AND 0x00000200) OR (push_bit 7 Y AND 0x00000100) OR
     (drop_bit 7 Y AND 0x00000020) OR (drop_bit 3 Y AND 0x00000011) OR
     (push_bit 2 Y AND 0x00000004) OR (drop_bit 21 Y AND 0x00000002)"

fun des_ks_loop :: "nat list \<Rightarrow> u32 \<Rightarrow> u32 \<Rightarrow> u32 list" where
  "des_ks_loop [] X Y = []"
| "des_ks_loop (i # is) X Y =
     (let n = (if i < 2 \<or> i = 8 \<or> i = 15 then 1 else 2);
          X = des_rot n X; Y = des_rot n Y
      in des_sk0 X Y # des_sk1 X Y # des_ks_loop is X Y)"

definition des_main_ks :: "byte list \<Rightarrow> u32 list" where
  "des_main_ks key =
     (let (X, Y) = des_pc1 (GET_UINT32_BE key 0, GET_UINT32_BE key 4) in des_ks_loop [0..<16] X Y)"

record des_context =
  esk :: "u32 list"
  dsk :: "u32 list"

text \<open>\<open>des3_context\<close> has the same two fields with 96 words each.\<close>

type_synonym des3_context = des_context

text \<open>The context is uninitialised on entry: \<open>ctx\<close> holds whatever was on the stack.\<close>

definition des_set_key :: "des_context \<Rightarrow> byte list \<Rightarrow> des_context" where
  "des_set_key ctx key =
     (let ctx = ctx\<lparr>esk := des_main_ks key\<rparr> in
      fold (\<lambda>n ctx. let i = 2 * n in
          ctx\<lparr>dsk := (dsk ctx)[i := esk ctx ! (30 - i), i + 1 := esk ctx ! (31 - i)]\<rparr>) [0..<16] ctx)"

definition des3_step :: "nat \<Rightarrow> des3_context \<Rightarrow> des3_context" where
  "des3_step i ctx = (let
     ctx = ctx\<lparr>dsk := (dsk ctx)[i := esk ctx ! (30 - i), i + 1 := esk ctx ! (31 - i)]\<rparr>;
     ctx = ctx\<lparr>esk := (esk ctx)[i + 32 := dsk ctx ! (62 - i), i + 33 := dsk ctx ! (63 - i)]\<rparr>;
     ctx = ctx\<lparr>esk := (esk ctx)[i + 64 := esk ctx ! i, i + 65 := esk ctx ! (1 + i)]\<rparr>
   in ctx\<lparr>dsk := (dsk ctx)[i + 64 := dsk ctx ! i, i + 65 := dsk ctx ! (1 + i)]\<rparr>)"

definition des3_set_2keys :: "des3_context \<Rightarrow> byte list \<Rightarrow> des3_context" where
  "des3_set_2keys ctx key =
     (let ctx = ctx\<lparr>esk := buf_put (esk ctx) 0 (des_main_ks key)\<rparr>;
          ctx = ctx\<lparr>dsk := buf_put (dsk ctx) 32 (des_main_ks (drop 8 key))\<rparr>
      in fold (\<lambda>n. des3_step (2 * n)) [0..<16] ctx)"

section \<open>Blocks\<close>

definition des_crypt :: "u32 list \<Rightarrow> byte list \<Rightarrow> byte list" where
  "des_crypt SK input = (let
     s = DES_IP (GET_UINT32_BE input 0, GET_UINT32_BE input 4);
     s = des_rounds SK 0 s;
     (Y, X) = DES_FP (snd s, fst s)
   in PUT_UINT32_BE Y @ PUT_UINT32_BE X)"

definition des_encrypt :: "des_context \<Rightarrow> byte list \<Rightarrow> byte list" where
  "des_encrypt ctx input = des_crypt (esk ctx) input"

definition des_decrypt :: "des_context \<Rightarrow> byte list \<Rightarrow> byte list" where
  "des_decrypt ctx input = des_crypt (dsk ctx) input"

text \<open>The middle sixteen rounds have the roles of \<open>X\<close> and \<open>Y\<close> exchanged.\<close>

definition des3_crypt :: "u32 list \<Rightarrow> byte list \<Rightarrow> byte list" where
  "des3_crypt SK input = (let
     s = DES_IP (GET_UINT32_BE input 0, GET_UINT32_BE input 4);
     s = des_rounds SK 0 s;
     s = prod.swap (des_rounds SK 32 (prod.swap s));
     s = des_rounds SK 64 s;
     (Y, X) = DES_FP (snd s, fst s)
   in PUT_UINT32_BE Y @ PUT_UINT32_BE X)"

definition des3_encrypt :: "des3_context \<Rightarrow> byte list \<Rightarrow> byte list" where
  "des3_encrypt ctx input = des3_crypt (esk ctx) input"

definition des3_decrypt :: "des3_context \<Rightarrow> byte list \<Rightarrow> byte list" where
  "des3_decrypt ctx input = des3_crypt (dsk ctx) input"

section \<open>Buffers\<close>

text \<open>
  \<open>lib_des3(&out[i], &in[i], key, direct)\<close>: \<open>None\<close> when one of the two blocks or the key is not there.
  The contexts are on the stack; \<open>stack\<close> is what they hold before the key is set.
\<close>

definition block_at :: "(byte list \<Rightarrow> byte list) \<Rightarrow> byte list \<Rightarrow> byte list \<Rightarrow> nat \<Rightarrow> byte list option" where
  "block_at f out inp i =
     (if i + 8 \<le> length inp \<and> i + 8 \<le> length out
      then Some (buf_put out i (f (take 8 (drop i inp)))) else None)"

definition lib_des3 ::
  "des3_context \<Rightarrow> byte list \<Rightarrow> byte list \<Rightarrow> nat \<Rightarrow> byte list \<Rightarrow> u32 \<Rightarrow> byte list option" where
  "lib_des3 stack out inp i key direct =
     (if length key < 16 then None
      else let ctx3 = des3_set_2keys stack key in
        block_at (if direct = 1 then des3_decrypt ctx3 else des3_encrypt ctx3) out inp i)"

definition lib_des ::
  "des_context \<Rightarrow> byte list \<Rightarrow> byte list \<Rightarrow> nat \<Rightarrow> byte list \<Rightarrow> u32 \<Rightarrow> byte list option" where
  "lib_des stack out inp i key direct =
     (if length key < 8 then None
      else let ctx = des_set_key stack key in
        block_at (if direct = 1 then des_decrypt ctx else des_encrypt ctx) out inp i)"

function block_loop ::
  "(byte list \<Rightarrow> byte list \<Rightarrow> nat \<Rightarrow> byte list option) \<Rightarrow> byte list \<Rightarrow> byte list \<Rightarrow> nat \<Rightarrow> nat \<Rightarrow> byte list option" where
  "block_loop f m_out m_in i inlen =
     (if i < inlen then do { m_out \<leftarrow> f m_out m_in i; block_loop f m_out m_in (i + 8) inlen }
      else Some m_out)"
  by pat_completeness auto
termination by (relation "measure (\<lambda>(f, m_out, m_in, i, inlen). inlen - i)") auto

declare block_loop.simps [simp del]

text \<open>
  The four buffer functions copy the input into a zeroed block of \<open>BUF_MAX_SIZE\<close>, run the blocks and copy
  \<open>inlen\<close> octets out. A negative \<open>inlen\<close> becomes a huge \<open>size_t\<close> in \<open>memcpy\<close>.
\<close>

definition BUF_MAX_SIZE :: nat where "BUF_MAX_SIZE = 1024"

definition block_buffer ::
  "(byte list \<Rightarrow> byte list \<Rightarrow> nat \<Rightarrow> byte list option) \<Rightarrow> byte list \<Rightarrow> byte list \<Rightarrow> int \<Rightarrow> byte list option" where
  "block_buffer f out inp inlen =
     (if inlen < 0 then None
      else do {
        m_in \<leftarrow> memcpy (replicate BUF_MAX_SIZE 0) 0 inp 0 (nat inlen);
        m_out \<leftarrow> block_loop f (replicate BUF_MAX_SIZE 0) m_in 0 (nat inlen);
        memcpy out 0 m_out 0 (nat inlen)
      })"

definition lib_des3_encrypt :: "des3_context \<Rightarrow> byte list \<Rightarrow> byte list \<Rightarrow> int \<Rightarrow> byte list \<Rightarrow> byte list option" where
  "lib_des3_encrypt stack out inp inlen key =
     block_buffer (\<lambda>m_out m_in i. lib_des3 stack m_out m_in i key 0) out inp inlen"

definition lib_des3_decrypt :: "des3_context \<Rightarrow> byte list \<Rightarrow> byte list \<Rightarrow> int \<Rightarrow> byte list \<Rightarrow> byte list option" where
  "lib_des3_decrypt stack out inp inlen key =
     block_buffer (\<lambda>m_out m_in i. lib_des3 stack m_out m_in i key 1) out inp inlen"

definition lib_des_encrypt :: "des_context \<Rightarrow> byte list \<Rightarrow> byte list \<Rightarrow> int \<Rightarrow> byte list \<Rightarrow> byte list option" where
  "lib_des_encrypt stack out inp inlen key =
     block_buffer (\<lambda>m_out m_in i. lib_des stack m_out m_in i key 0) out inp inlen"

definition lib_des_decrypt :: "des_context \<Rightarrow> byte list \<Rightarrow> byte list \<Rightarrow> int \<Rightarrow> byte list \<Rightarrow> byte list option" where
  "lib_des_decrypt stack out inp inlen key =
     block_buffer (\<lambda>m_out m_in i. lib_des stack m_out m_in i key 1) out inp inlen"

end
