(* ===== verification/DesProps.thy ===== *)
theory DesProps
  imports Des
begin

text \<open>
  Properties of DES and Triple-DES: the final permutation inverts the initial one, the rounds are a Feistel
  network, the key schedules give the decryption subkeys in reverse order, and so decryption undoes encryption for blocks
  and buffers.
\<close>

section \<open>Words and octets\<close>

lemma GET_PUT: "GET_UINT32_BE (PUT_UINT32_BE x @ rest) 0 = x" "GET_UINT32_BE (PUT_UINT32_BE y @ PUT_UINT32_BE x) 4 = x"
proof -
  have join: "push_bit 24 (ucast (ucast (drop_bit 24 x) :: byte)) OR push_bit 16 (ucast (ucast (drop_bit 16 x) :: byte)) OR
     push_bit 8 (ucast (ucast (drop_bit 8 x) :: byte)) OR ucast (ucast x :: byte) = x"
    unfolding u32_bits by (simp add: bit_simps)
  show "GET_UINT32_BE (PUT_UINT32_BE x @ rest) 0 = x" "GET_UINT32_BE (PUT_UINT32_BE y @ PUT_UINT32_BE x) 4 = x"
    using join by (simp_all add: GET_UINT32_BE_def PUT_UINT32_BE_def)
qed

lemma PUT_GET: "i + 4 \<le> length b \<Longrightarrow> PUT_UINT32_BE (GET_UINT32_BE b i) = take 4 (drop i b)"
proof -
  have cut: "ucast (drop_bit 24 w) = a" "ucast (drop_bit 16 w) = a'" "ucast (drop_bit 8 w) = a''" "ucast w = a'''"
    if "w = push_bit 24 (ucast a) OR push_bit 16 (ucast a') OR push_bit 8 (ucast a'') OR ucast a'''"
    for w :: u32 and a a' a'' a''' :: byte
    unfolding that byte_eq_iff by (auto simp: bit_simps dest: bit_imp_le_length)
  assume "i + 4 \<le> length b"
  then have "take 4 (drop i b) = [b ! i, b ! (i + 1), b ! (i + 2), b ! (i + 3)]"
    by (simp add: numeral_eq_Suc take_Suc_conv_app_nth)
  then show ?thesis using cut [OF GET_UINT32_BE_def] by (simp add: PUT_UINT32_BE_def)
qed

section \<open>Permutations\<close>

lemma swap_bits_undo:
  assumes "drop_bit n (push_bit n m) = m"
  shows "swap_bits n m (swap_bits n m s) = s" "swap_bits_yx n m (swap_bits_yx n m s) = s"
proof -
  have m: "i + n < 32" if "bit m i" for i
  proof -
    have "bit (drop_bit n (push_bit n m)) i" using that assms by simp
    then show ?thesis by (simp add: bit_simps)
  qed
  have T: "(drop_bit n (X XOR push_bit n T) XOR (Y XOR T)) AND m = T"
    if "T = (drop_bit n X XOR Y) AND m" for X Y T :: u32
    unfolding that by (rule u32_eqI) (auto simp: bit_simps dest: m)
  have "swap_bits n m (swap_bits n m (X, Y)) = (X, Y) \<and> swap_bits_yx n m (swap_bits_yx n m (Y, X)) = (Y, X)" for X Y
  proof -
    define T where "T = (drop_bit n X XOR Y) AND m"
    have 1: "swap_bits n m (X, Y) = (X XOR push_bit n T, Y XOR T)" "swap_bits_yx n m (Y, X) = (Y XOR T, X XOR push_bit n T)"
      by (simp_all add: swap_bits_def swap_bits_yx_def T_def)
    show ?thesis
      unfolding 1 unfolding swap_bits_def swap_bits_yx_def prod.case Let_def T [OF T_def] by (simp add: xor.assoc)
  qed
  then show "swap_bits n m (swap_bits n m s) = s" "swap_bits_yx n m (swap_bits_yx n m s) = s"
    by (metis surj_pair)+
qed

lemma rot_undo: "ror1 (rol1 x) = x" "rol1 (ror1 x) = x"
  unfolding u32_bits ror1_def rol1_def by (simp_all add: bit_simps del: push_bit_Suc flip: numeral_2_eq_2 numeral_3_eq_3)

lemma FP_IP: "DES_FP (DES_IP s) = s"
  by (simp add: DES_FP_def DES_IP_def Let_def rot_undo swap_bits_undo)

lemma IP_FP: "DES_IP (DES_FP s) = s"
  by (simp add: DES_FP_def DES_IP_def Let_def rot_undo swap_bits_undo)

section \<open>The rounds are a Feistel network\<close>

interpretation des: feistel des_f "(XOR)"
  by unfold_locales (simp add: xor.assoc)

definition subkeys :: "u32 list \<Rightarrow> nat \<Rightarrow> (u32 \<times> u32) list" where
  "subkeys SK i = map (\<lambda>r. (SK ! (i + 2 * r), SK ! (i + 2 * r + 1))) [0..<16]"

lemma des_pair_fe:
  "des_pair SK i s = des.fe (SK ! (i + 2), SK ! (i + 3)) (des.fe (SK ! i, SK ! (i + 1)) s)"
  by (simp add: des_pair_def DES_ROUND_def des.fe_def Let_def add.commute numeral_eq_Suc)

lemma des_rounds_network: "des_rounds SK i s = des.network (subkeys SK i) s"
  by (simp add: des_rounds_def subkeys_def des_pair_fe upt_rec numeral_eq_Suc)

text \<open>Decryption subkeys are the encryption subkeys in reverse order.\<close>

lemma subkeys_rev:
  assumes "\<And>r. r < 16 \<Longrightarrow> D ! (j + 2 * r) = K ! (i + (30 - 2 * r))"
    and "\<And>r. r < 16 \<Longrightarrow> D ! (j + 2 * r + 1) = K ! (i + (31 - 2 * r))"
  shows "subkeys D j = rev (subkeys K i)"
proof (rule nth_equalityI)
  fix r
  assume "r < length (subkeys D j)"
  then have r: "r < 16" by (simp add: subkeys_def)
  moreover have "2 * (15 - r) = 30 - 2 * r" "Suc (2 * (15 - r)) = 31 - 2 * r" using r by auto
  moreover have "i + 2 * (15 - r) + 1 = i + (31 - 2 * r)" using r by auto
  ultimately show "subkeys D j ! r = rev (subkeys K i) ! r"
    using assms [of r] by (simp add: subkeys_def rev_nth)
qed (simp add: subkeys_def)

lemma subkeys_same:
  assumes "\<And>r. r < 16 \<Longrightarrow> D ! (j + 2 * r) = K ! (i + 2 * r)"
    and "\<And>r. r < 16 \<Longrightarrow> D ! (j + 2 * r + 1) = K ! (i + 2 * r + 1)"
  shows "subkeys D j = subkeys K i"
  using assms by (simp add: subkeys_def)

section \<open>Key schedules\<close>

lemma length_ks_loop: "length (des_ks_loop is X Y) = 2 * length is"
  by (induction "is" arbitrary: X Y) (simp_all add: Let_def)

lemma length_main_ks [simp]: "length (des_main_ks key) = 32"
  by (simp add: des_main_ks_def length_ks_loop split: prod.splits)

lemma des_set_key_loop:
  assumes "length (dsk c) = 32" "n \<le> 16"
  defines "c' \<equiv> fold (\<lambda>n ctx. let i = 2 * n in
          ctx\<lparr>dsk := (dsk ctx)[i := esk ctx ! (30 - i), i + 1 := esk ctx ! (31 - i)]\<rparr>) [0..<n] c"
  shows "esk c' = esk c \<and> length (dsk c') = 32 \<and>
    (\<forall>r<n. dsk c' ! (2 * r) = esk c ! (30 - 2 * r) \<and> dsk c' ! (2 * r + 1) = esk c ! (31 - 2 * r))"
  using assms(2) unfolding c'_def
proof (induction n)
  case 0
  then show ?case using assms(1) by simp
next
  case (Suc n)
  then show ?case by (auto simp: Let_def nth_list_update less_Suc_eq)
qed

definition des3_inv :: "nat \<Rightarrow> des3_context \<Rightarrow> des3_context \<Rightarrow> bool" where
  "des3_inv n c c' \<longleftrightarrow> length (esk c') = 96 \<and> length (dsk c') = 96 \<and>
    (\<forall>j<32. esk c' ! j = esk c ! j) \<and> (\<forall>j<32. dsk c' ! (32 + j) = dsk c ! (32 + j)) \<and>
    (\<forall>r<n. dsk c' ! (2 * r) = esk c ! (30 - 2 * r) \<and> dsk c' ! (2 * r + 1) = esk c ! (31 - 2 * r)) \<and>
    (\<forall>r<n. esk c' ! (32 + 2 * r) = dsk c ! (32 + (30 - 2 * r)) \<and> esk c' ! (32 + 2 * r + 1) = dsk c ! (32 + (31 - 2 * r))) \<and>
    (\<forall>r<n. esk c' ! (64 + 2 * r) = esk c ! (2 * r) \<and> esk c' ! (64 + 2 * r + 1) = esk c ! (2 * r + 1)) \<and>
    (\<forall>r<n. dsk c' ! (64 + 2 * r) = esk c ! (30 - 2 * r) \<and> dsk c' ! (64 + 2 * r + 1) = esk c ! (31 - 2 * r))"

lemma des3_step_inv:
  assumes "des3_inv n c c'" "n < 16"
  shows "des3_inv (Suc n) c (des3_step (2 * n) c')"
proof -
  have len: "length (esk c') = 96" "length (dsk c') = 96"
    and low: "\<And>j. j < 32 \<Longrightarrow> esk c' ! j = esk c ! j" and mid: "\<And>j. j < 32 \<Longrightarrow> dsk c' ! (32 + j) = dsk c ! (32 + j)"
    using assms(1) by (simp_all add: des3_inv_def)
  have mid': "dsk c' ! (62 - 2 * n) = dsk c ! (62 - 2 * n)" "dsk c' ! (63 - 2 * n) = dsk c ! (63 - 2 * n)"
    using mid [of "30 - 2 * n"] mid [of "31 - 2 * n"] assms(2) by simp_all
  define e where "e = (esk c')[2 * n + 32 := dsk c ! (62 - 2 * n), 2 * n + 33 := dsk c ! (63 - 2 * n),
     2 * n + 64 := esk c ! (2 * n), 2 * n + 65 := esk c ! (1 + 2 * n)]"
  define d where "d = (dsk c')[2 * n := esk c ! (30 - 2 * n), 2 * n + 1 := esk c ! (31 - 2 * n),
     2 * n + 64 := esk c ! (30 - 2 * n), 2 * n + 65 := esk c ! (31 - 2 * n)]"
  have "des3_step (2 * n) c' = c'\<lparr>esk := e, dsk := d\<rparr>"
    using assms(2) len low mid' by (simp add: des3_step_def Let_def e_def d_def nth_list_update)
  moreover have "des3_inv (Suc n) c (c'\<lparr>esk := e, dsk := d\<rparr>)"
    using assms len unfolding des3_inv_def e_def d_def
    by (auto simp: nth_list_update less_Suc_eq)
  ultimately show ?thesis by simp
qed

lemma des3_loop:
  "length (esk c) = 96 \<Longrightarrow> length (dsk c) = 96 \<Longrightarrow> n \<le> 16 \<Longrightarrow>
   des3_inv n c (fold (\<lambda>n. des3_step (2 * n)) [0..<n] c)"
proof (induction n)
  case 0
  then show ?case by (simp add: des3_inv_def)
next
  case (Suc n)
  then show ?case using des3_step_inv by simp
qed

lemma des_set_key_subkeys:
  assumes "length (dsk stack) = 32"
  shows "subkeys (dsk (des_set_key stack key)) 0 = rev (subkeys (esk (des_set_key stack key)) 0)"
  using des_set_key_loop [of "stack\<lparr>esk := des_main_ks key\<rparr>" 16] assms
  by (intro subkeys_rev) (simp_all add: des_set_key_def Let_def)

lemma des3_set_2keys_subkeys:
  assumes "length (esk stack) = 96" "length (dsk stack) = 96"
    and c: "c = des3_set_2keys stack key"
  shows "subkeys (dsk c) 0 = rev (subkeys (esk c) 64)" "subkeys (dsk c) 32 = rev (subkeys (esk c) 32)"
    "subkeys (dsk c) 64 = rev (subkeys (esk c) 0)"
proof -
  define c0 where "c0 = stack\<lparr>esk := buf_put (esk stack) 0 (des_main_ks key),
    dsk := buf_put (dsk stack) 32 (des_main_ks (drop 8 key))\<rparr>"
  have "c = fold (\<lambda>n. des3_step (2 * n)) [0..<16] c0" by (simp add: c c0_def des3_set_2keys_def)
  then have inv: "des3_inv 16 c0 c" using des3_loop [of c0 16] assms(1,2) by (simp add: c0_def)
  have k1: "subkeys (esk c) 0 = subkeys (esk c0) 0"
    using inv by (intro subkeys_same) (simp_all add: des3_inv_def)
  have k3: "subkeys (esk c) 64 = subkeys (esk c0) 0"
    using inv by (intro subkeys_same) (simp_all add: des3_inv_def)
  have "dsk c ! (32 + j) = dsk c0 ! (32 + j)" if "j < 32" for j using inv that by (simp add: des3_inv_def)
  from this [of "2 * _"] this [of "2 * _ + 1"] have k2: "subkeys (dsk c) 32 = subkeys (dsk c0) 32"
    by (intro subkeys_same) simp_all
  have "subkeys (dsk c) 0 = rev (subkeys (esk c0) 0)" "subkeys (dsk c) 64 = rev (subkeys (esk c0) 0)"
    "subkeys (esk c) 32 = rev (subkeys (dsk c0) 32)"
    using inv by (intro subkeys_rev; simp add: des3_inv_def)+
  then show "subkeys (dsk c) 0 = rev (subkeys (esk c) 64)" "subkeys (dsk c) 32 = rev (subkeys (esk c) 32)"
    "subkeys (dsk c) 64 = rev (subkeys (esk c) 0)"
    using k1 k2 k3 by simp_all
qed

section \<open>Decryption undoes encryption\<close>

text \<open>A cipher of the file is a map on the halves between the two permutations.\<close>

definition des_block :: "(u32 \<times> u32 \<Rightarrow> u32 \<times> u32) \<Rightarrow> byte list \<Rightarrow> byte list" where
  "des_block f input =
     (let (Y, X) = DES_FP (prod.swap (f (DES_IP (GET_UINT32_BE input 0, GET_UINT32_BE input 4))))
      in PUT_UINT32_BE Y @ PUT_UINT32_BE X)"

lemma des_block_undo:
  assumes "\<And>s. g (prod.swap (f s)) = prod.swap s" "length b = 8"
  shows "des_block g (des_block f b) = b"
proof -
  obtain Y X where fp: "DES_FP (prod.swap (f (DES_IP (GET_UINT32_BE b 0, GET_UINT32_BE b 4)))) = (Y, X)"
    by (metis surj_pair)
  then have "DES_IP (Y, X) = prod.swap (f (DES_IP (GET_UINT32_BE b 0, GET_UINT32_BE b 4)))"
    by (metis IP_FP)
  then have "DES_FP (prod.swap (g (DES_IP (Y, X)))) = (GET_UINT32_BE b 0, GET_UINT32_BE b 4)"
    by (simp add: assms(1) FP_IP)
  moreover have "take 4 b @ take 4 (drop 4 b) = b" using assms(2) by simp
  ultimately show ?thesis
    using fp assms(2) by (simp add: des_block_def GET_PUT PUT_GET)
qed

lemma des_crypt_block: "des_crypt SK = des_block (des.network (subkeys SK 0))"
  by (simp add: fun_eq_iff des_crypt_def des_block_def des_rounds_network Let_def prod.swap_def)

lemma des3_crypt_block:
  "des3_crypt SK = des_block (\<lambda>s. des.network (subkeys SK 64)
     (prod.swap (des.network (subkeys SK 32) (prod.swap (des.network (subkeys SK 0) s)))))"
  by (simp add: fun_eq_iff des3_crypt_def des_block_def des_rounds_network Let_def prod.swap_def)

lemma length_PUT [simp]: "length (PUT_UINT32_BE x) = 4"
  by (simp add: PUT_UINT32_BE_def)

lemma length_des_block [simp]: "length (des_block f b) = 8"
  by (simp add: des_block_def split: prod.splits)

lemma des_decrypt_encrypt:
  assumes "length (dsk stack) = 32" "length input = 8"
  shows "des_decrypt (des_set_key stack key) (des_encrypt (des_set_key stack key) input) = input"
  unfolding des_decrypt_def des_encrypt_def des_crypt_block
  using assms by (intro des_block_undo) (simp_all add: des_set_key_subkeys des.network_undo)

lemma des3_decrypt_encrypt:
  assumes "length (esk stack) = 96" "length (dsk stack) = 96" "length input = 8"
  shows "des3_decrypt (des3_set_2keys stack key) (des3_encrypt (des3_set_2keys stack key) input) = input"
proof -
  have sw: "prod.swap (prod.swap x) = x" for x :: "u32 \<times> u32" by simp
  have undo: "des.network (rev ks) x = prod.swap (prod.swap y)" if "x = prod.swap (des.network ks (prod.swap y))" for ks x y
    using that des.network_undo [of ks "prod.swap y"] by simp
  show ?thesis
    unfolding des3_decrypt_def des3_encrypt_def des3_crypt_block des3_set_2keys_subkeys [OF assms(1,2) refl]
    using assms(3) by (intro des_block_undo) (simp_all add: des.network_undo undo [OF refl])
qed

section \<open>Buffers\<close>

function blocks :: "(byte list \<Rightarrow> byte list) \<Rightarrow> byte list \<Rightarrow> byte list" where
  "blocks g xs = (if xs = [] then [] else g (take 8 xs) @ blocks g (drop 8 xs))"
  by pat_completeness auto
termination by (relation "measure (length \<circ> snd)") auto

declare blocks.simps [simp del]

lemma blocks_Nil [simp]: "blocks g [] = []"
  by (simp add: blocks.simps)

lemma blocks_Cons: "length b = 8 \<Longrightarrow> blocks g (b @ xs) = g b @ blocks g xs"
  by (subst blocks.simps) auto

lemma length_blocks: "(\<And>b. length (g b) = 8) \<Longrightarrow> length xs = 8 * k \<Longrightarrow> length (blocks g xs) = 8 * k"
proof (induction k arbitrary: xs)
  case (Suc k)
  then have "length (drop 8 xs) = 8 * k" "xs \<noteq> []" by auto
  then show ?case using Suc by (subst blocks.simps) simp
qed simp

lemma blocks_undo:
  assumes "\<And>b. length b = 8 \<Longrightarrow> h (g b) = b" "\<And>b. length (g b) = 8" "length xs = 8 * k"
  shows "blocks h (blocks g xs) = xs"
  using assms(3)
proof (induction k arbitrary: xs)
  case (Suc k)
  then have "length (drop 8 xs) = 8 * k" "xs \<noteq> []" "length (take 8 xs) = 8" by auto
  then show ?case using Suc.IH assms(1,2) by (subst (2) blocks.simps) (simp add: blocks_Cons)
qed simp

lemma block_loop_blocks:
  assumes "\<And>b m i. f b m i = block_at g b m i" "\<And>b. length (g b) = 8"
    and "length m_in = length m_out" "i + 8 * k \<le> length m_in"
  shows "block_loop f m_out m_in i (i + 8 * k) = Some (buf_put m_out i (blocks g (seg i (i + 8 * k) m_in)))"
  using assms(3,4)
proof (induction k arbitrary: i m_out)
  case 0
  then show ?case by (simp add: block_loop.simps)
next
  case (Suc k)
  have "seg i (i + 8 * Suc k) m_in = take 8 (drop i m_in) @ seg (i + 8) (i + 8 + 8 * k) m_in"
    using take_add [of 8 "8 * k" "drop i m_in"] by (simp add: seg_def add.commute)
  then have blk: "blocks g (seg i (i + 8 * Suc k) m_in) =
      g (take 8 (drop i m_in)) @ blocks g (seg (i + 8) (i + 8 + 8 * k) m_in)"
    using Suc.prems by (simp add: blocks_Cons)
  have len: "length (blocks g (seg (i + 8) (i + 8 + 8 * k) m_in)) = 8 * k"
    using Suc.prems assms(2) by (intro length_blocks) (auto simp: seg_def)
  have "block_loop f m_out m_in i (i + 8 * Suc k) =
      block_loop f (buf_put m_out i (g (take 8 (drop i m_in)))) m_in (i + 8) (i + 8 + 8 * k)"
    using Suc.prems by (subst block_loop.simps) (simp add: assms(1) block_at_def algebra_simps)
  also have "\<dots> = Some (buf_put (buf_put m_out i (g (take 8 (drop i m_in)))) (i + 8)
      (blocks g (seg (i + 8) (i + 8 + 8 * k) m_in)))"
    using Suc.prems by (intro Suc.IH) (simp_all add: assms(2))
  also have "\<dots> = Some (buf_put m_out i (blocks g (seg i (i + 8 * Suc k) m_in)))"
    unfolding blk
    using buf_put_append [of i "g (take 8 (drop i m_in))" "blocks g (seg (i + 8) (i + 8 + 8 * k) m_in)" m_out]
      Suc.prems len by (simp add: assms(2))
  finally show ?case .
qed

lemma block_buffer_blocks:
  assumes "\<And>b m i. f b m i = block_at g b m i" "\<And>b. length (g b) = 8"
    and "inlen = 8 * int k" "k \<le> 128" "8 * k \<le> length inp" "8 * k \<le> length out"
  shows "block_buffer f out inp inlen = Some (blocks g (take (8 * k) inp) @ drop (8 * k) out)"
proof -
  let ?m = "take (8 * k) inp @ replicate (1024 - 8 * k) 0"
  have "block_loop f (replicate 1024 0) ?m 0 (0 + 8 * k) = Some (buf_put (replicate 1024 0) 0 (blocks g (seg 0 (0 + 8 * k) ?m)))"
    using assms by (intro block_loop_blocks [OF assms(1,2)]) auto
  moreover have "seg 0 (0 + 8 * k) ?m = take (8 * k) inp" using assms by (simp add: seg_def)
  moreover have "length (blocks g (take (8 * k) inp)) = 8 * k" using assms by (intro length_blocks) auto
  ultimately show ?thesis using assms
    by (simp add: block_buffer_def memcpy_def BUF_MAX_SIZE_def buf_put_def nat_mult_distrib)
qed

lemma lib_des_block_at:
  "8 \<le> length key \<Longrightarrow> lib_des stack b m i key d =
     block_at (if d = 1 then des_decrypt (des_set_key stack key) else des_encrypt (des_set_key stack key)) b m i"
  by (simp add: lib_des_def Let_def)

lemma lib_des3_block_at:
  "16 \<le> length key \<Longrightarrow> lib_des3 stack b m i key d =
     block_at (if d = 1 then des3_decrypt (des3_set_2keys stack key) else des3_encrypt (des3_set_2keys stack key)) b m i"
  by (simp add: lib_des3_def Let_def)

lemma length_des [simp]: "length (des_encrypt c b) = 8" "length (des_decrypt c b) = 8"
  "length (des3_encrypt c b) = 8" "length (des3_decrypt c b) = 8"
  by (simp_all add: des_encrypt_def des_decrypt_def des3_encrypt_def des3_decrypt_def des_crypt_block des3_crypt_block)

text \<open>
  C5. The Triple-DES buffer functions work on whole buffers of at most 1024 octets whose length is a multiple of
  eight: encryption succeeds within all buffers, and decrypting its result with the same key gives the input back.
\<close>

theorem lib_des3_roundtrip:
  assumes "length (esk stack) = 96" "length (dsk stack) = 96" "16 \<le> length key"
    and "inlen = 8 * int k" "k \<le> 128" "8 * k \<le> length inp" "8 * k \<le> length out" "8 * k \<le> length out2"
  shows "\<exists>enc. lib_des3_encrypt stack out inp inlen key = Some (enc @ drop (8 * k) out) \<and> length enc = 8 * k \<and>
    lib_des3_decrypt stack out2 (enc @ drop (8 * k) out) inlen key = Some (take (8 * k) inp @ drop (8 * k) out2)"
proof -
  let ?c = "des3_set_2keys stack key"
  let ?enc = "blocks (des3_encrypt ?c) (take (8 * k) inp)"
  have len: "length ?enc = 8 * k" using assms(6) by (intro length_blocks) auto
  have "blocks (des3_decrypt ?c) ?enc = take (8 * k) inp"
    using assms by (intro blocks_undo [of _ _ _ k]) (auto simp: des3_decrypt_encrypt)
  moreover have "lib_des3_encrypt stack out inp inlen key = Some (?enc @ drop (8 * k) out)"
    unfolding lib_des3_encrypt_def using assms by (intro block_buffer_blocks) (simp_all add: lib_des3_block_at)
  moreover have "lib_des3_decrypt stack out2 (?enc @ drop (8 * k) out) inlen key =
      Some (blocks (des3_decrypt ?c) (take (8 * k) (?enc @ drop (8 * k) out)) @ drop (8 * k) out2)"
    unfolding lib_des3_decrypt_def using assms len by (intro block_buffer_blocks) (simp_all add: lib_des3_block_at)
  ultimately show ?thesis using len by auto
qed

theorem lib_des3_roundtrip_witness:
  "\<exists>enc. lib_des3_encrypt \<lparr>esk = replicate 96 0, dsk = replicate 96 7\<rparr> (replicate 16 0) (replicate 16 5) 16 (replicate 16 1) =
      Some (enc @ drop (8 * 2) (replicate 16 0)) \<and> length enc = 8 * 2 \<and>
    lib_des3_decrypt \<lparr>esk = replicate 96 0, dsk = replicate 96 7\<rparr> (replicate 20 0) (enc @ drop (8 * 2) (replicate 16 0)) 16 (replicate 16 1) =
      Some (take (8 * 2) (replicate 16 5) @ drop (8 * 2) (replicate 20 0))"
  by (rule lib_des3_roundtrip) simp_all

text \<open>The same for single DES.\<close>

theorem lib_des_roundtrip:
  assumes "length (dsk stack) = 32" "8 \<le> length key"
    and "inlen = 8 * int k" "k \<le> 128" "8 * k \<le> length inp" "8 * k \<le> length out" "8 * k \<le> length out2"
  shows "\<exists>enc. lib_des_encrypt stack out inp inlen key = Some (enc @ drop (8 * k) out) \<and> length enc = 8 * k \<and>
    lib_des_decrypt stack out2 (enc @ drop (8 * k) out) inlen key = Some (take (8 * k) inp @ drop (8 * k) out2)"
proof -
  let ?c = "des_set_key stack key"
  let ?enc = "blocks (des_encrypt ?c) (take (8 * k) inp)"
  have len: "length ?enc = 8 * k" using assms(5) by (intro length_blocks) auto
  have "blocks (des_decrypt ?c) ?enc = take (8 * k) inp"
    using assms by (intro blocks_undo [of _ _ _ k]) (auto simp: des_decrypt_encrypt)
  moreover have "lib_des_encrypt stack out inp inlen key = Some (?enc @ drop (8 * k) out)"
    unfolding lib_des_encrypt_def using assms by (intro block_buffer_blocks) (simp_all add: lib_des_block_at)
  moreover have "lib_des_decrypt stack out2 (?enc @ drop (8 * k) out) inlen key =
      Some (blocks (des_decrypt ?c) (take (8 * k) (?enc @ drop (8 * k) out)) @ drop (8 * k) out2)"
    unfolding lib_des_decrypt_def using assms len by (intro block_buffer_blocks) (simp_all add: lib_des_block_at)
  ultimately show ?thesis using len by auto
qed

theorem lib_des_roundtrip_witness:
  "\<exists>enc. lib_des_encrypt \<lparr>esk = [], dsk = replicate 32 7\<rparr> (replicate 16 0) (replicate 16 5) 16 (replicate 8 1) =
      Some (enc @ drop (8 * 2) (replicate 16 0)) \<and> length enc = 8 * 2 \<and>
    lib_des_decrypt \<lparr>esk = [], dsk = replicate 32 7\<rparr> (replicate 20 0) (enc @ drop (8 * 2) (replicate 16 0)) 16 (replicate 8 1) =
      Some (take (8 * 2) (replicate 16 5) @ drop (8 * 2) (replicate 20 0))"
  by (rule lib_des_roundtrip) simp_all

text \<open>
  The working buffers have 1024 octets and the length is not checked: every call with a
  larger \<open>inlen\<close>, and with a negative one, runs over them.
\<close>

theorem des_buffers_overrun:
  "1024 < inlen \<or> inlen < 0 \<Longrightarrow>
   lib_des_encrypt stack out inp inlen key = None \<and> lib_des_decrypt stack out inp inlen key = None \<and>
   lib_des3_encrypt stack out inp inlen key = None \<and> lib_des3_decrypt stack out inp inlen key = None"
  by (auto simp: lib_des_encrypt_def lib_des_decrypt_def lib_des3_encrypt_def lib_des3_decrypt_def
      block_buffer_def memcpy_def BUF_MAX_SIZE_def)

theorem des_buffers_overrun_witness:
  "lib_des_encrypt \<lparr>esk = [], dsk = replicate 32 7\<rparr> (replicate 1032 0) (replicate 1032 0) 1032 (replicate 8 0) = None"
  using des_buffers_overrun [of 1032] by simp

text \<open>A partial last block is padded with zeros on the way in and cut off on the way out.\<close>

lemma block_loop_pad: "block_loop f m_out m_in (8 * q) n = block_loop f m_out m_in (8 * q) (8 * ((n + 7) div 8))"
proof (induction "n - 8 * q" arbitrary: q m_out rule: less_induct)
  case less
  have "8 * q < n \<longleftrightarrow> 8 * q < 8 * ((n + 7) div 8)" by presburger
  moreover have "8 * q < n \<Longrightarrow> block_loop f b m_in (8 * Suc q) n = block_loop f b m_in (8 * Suc q) (8 * ((n + 7) div 8))" for b
    by (rule less) simp
  ultimately show ?case
    by (subst (1 2) block_loop.simps) (auto simp: add.commute [of _ 8])
qed

definition zero_padded :: "byte list \<Rightarrow> byte list" where
  "zero_padded xs = xs @ replicate (8 * ((length xs + 7) div 8) - length xs) 0"

lemma length_zero_padded: "length (zero_padded xs) = 8 * ((length xs + 7) div 8)"
proof -
  have "length xs \<le> 8 * ((length xs + 7) div 8)" by presburger
  then show ?thesis by (simp add: zero_padded_def)
qed

lemma block_buffer_padded:
  assumes "\<And>b m i. f b m i = block_at g b m i" "\<And>b. length (g b) = 8"
    and "0 \<le> inlen" "inlen \<le> 1024" "nat inlen \<le> length inp" "nat inlen \<le> length out"
  shows "block_buffer f out inp inlen = Some (take (nat inlen) (blocks g (zero_padded (take (nat inlen) inp))) @ drop (nat inlen) out)"
proof -
  define n where "n = nat inlen"
  define k where "k = (n + 7) div 8"
  have n: "n \<le> 1024" "n \<le> length inp" "n \<le> length out" using assms(3-6) by (auto simp: n_def)
  have k: "8 * k \<le> 1024" "n \<le> 8 * k" using n(1) by (auto simp: k_def)
  let ?m = "take n inp @ replicate (1024 - n) 0"
  have "block_loop f (replicate 1024 0) ?m 0 n = block_loop f (replicate 1024 0) ?m (8 * 0) (8 * k)"
    using block_loop_pad [of f _ _ 0 n] by (simp add: k_def)
  also have "\<dots> = block_loop f (replicate 1024 0) ?m 0 (0 + 8 * k)" by simp
  also have "\<dots> = Some (buf_put (replicate 1024 0) 0 (blocks g (seg 0 (0 + 8 * k) ?m)))"
    using n k by (intro block_loop_blocks [OF assms(1,2)]) auto
  also have "seg 0 (0 + 8 * k) ?m = zero_padded (take n inp)"
    using n k by (simp add: seg_def zero_padded_def k_def min_def)
  finally have loop: "block_loop f (replicate 1024 0) ?m 0 n = Some (buf_put (replicate 1024 0) 0 (blocks g (zero_padded (take n inp))))" .
  have "length (blocks g (zero_padded (take n inp))) = 8 * k"
    using n by (intro length_blocks [OF assms(2)]) (simp add: length_zero_padded k_def)
  then show ?thesis using loop n k assms(3)
    by (simp add: block_buffer_def memcpy_def BUF_MAX_SIZE_def buf_put_def n_def [symmetric] min_def)
qed

text \<open>
  What the DES buffer functions compute for every length up to 1024: the input, padded with zeros to whole
  blocks, goes through the block function in electronic-codebook mode, and the first \<open>inlen\<close> octets of the result are
  copied out. For a length that is not a multiple of eight the tail of the last cipher block is lost.
\<close>

theorem lib_des_buffers_ecb:
  assumes "8 \<le> length key" "0 \<le> inlen" "inlen \<le> 1024" "nat inlen \<le> length inp" "nat inlen \<le> length out"
  shows "lib_des_encrypt stack out inp inlen key =
      Some (take (nat inlen) (blocks (des_encrypt (des_set_key stack key)) (zero_padded (take (nat inlen) inp))) @ drop (nat inlen) out) \<and>
    lib_des_decrypt stack out inp inlen key =
      Some (take (nat inlen) (blocks (des_decrypt (des_set_key stack key)) (zero_padded (take (nat inlen) inp))) @ drop (nat inlen) out)"
  unfolding lib_des_encrypt_def lib_des_decrypt_def
  using assms by (intro conjI block_buffer_padded) (simp_all add: lib_des_block_at)

theorem lib_des_buffers_ecb_witness:
  "lib_des_encrypt \<lparr>esk = [], dsk = replicate 32 7\<rparr> (replicate 3 0) [1, 2, 3] 3 (replicate 8 1) =
     Some (take (nat 3) (blocks (des_encrypt (des_set_key \<lparr>esk = [], dsk = replicate 32 7\<rparr> (replicate 8 1)))
       (zero_padded (take (nat 3) [1, 2, 3]))) @ drop (nat 3) (replicate 3 0))"
  by (rule lib_des_buffers_ecb [THEN conjunct1]) simp_all

end
