(* ===== verification/DesKat.thy ===== *)
theory DesKat
  imports DesProps
begin

text \<open>
  A published DES example (FIPS 81): key \<open>0123456789ABCDEF\<close>, plaintext "Now is t". The kernel computes
  the cipher text in stages: the permuted key, its sixteen rotations and subkeys, the sixteen rounds.
\<close>

definition kat_key :: "byte list" where
  "kat_key = [0x01, 0x23, 0x45, 0x67, 0x89, 0xAB, 0xCD, 0xEF]"

definition kat_plain :: "byte list" where
  "kat_plain = [0x4E, 0x6F, 0x77, 0x20, 0x69, 0x73, 0x20, 0x74]"

definition kat_sk :: "u32 list" where
  "kat_sk = [
     0x30273425, 0x02092626, 0x1A191626, 0x1A190928,
     0x1D0A0212, 0x11122D23, 0x28121817, 0x1C272909,
     0x0E033A02, 0x0F20051B, 0x321E0805, 0x08140F15,
     0x00152E06, 0x1B120213, 0x38380E01, 0x15201B16,
     0x0C292B39, 0x30270920, 0x1E073132, 0x240C1835,
     0x1103183A, 0x083E0324, 0x13251514, 0x1C031131,
     0x1C10183C, 0x24131203, 0x04361D0D, 0x150E2032,
     0x29052135, 0x2D04021A, 0x23030732, 0x32342E00]"

lemma kat_pc1: "des_pc1 (GET_UINT32_BE kat_key 0, GET_UINT32_BE kat_key 4) = (0x0F0CCAA0, 0x0AACCF00)"
  by code_simp

lemma kat_rot:
  "des_rot (Suc 0) 0x0F0CCAA0 = 0x0E199541" "des_rot (Suc 0) 0x0AACCF00 = 0x05599E01"
  "des_rot (Suc 0) 0x0E199541 = 0x0C332A83" "des_rot (Suc 0) 0x05599E01 = 0x0AB33C02"
  "des_rot (2) 0x0C332A83 = 0x00CCAA0F" "des_rot (2) 0x0AB33C02 = 0x0ACCF00A"
  "des_rot (2) 0x00CCAA0F = 0x0332A83C" "des_rot (2) 0x0ACCF00A = 0x0B33C02A"
  "des_rot (2) 0x0332A83C = 0x0CCAA0F0" "des_rot (2) 0x0B33C02A = 0x0CCF00AA"
  "des_rot (2) 0x0CCAA0F0 = 0x032A83C3" "des_rot (2) 0x0CCF00AA = 0x033C02AB"
  "des_rot (2) 0x032A83C3 = 0x0CAA0F0C" "des_rot (2) 0x033C02AB = 0x0CF00AAC"
  "des_rot (2) 0x0CAA0F0C = 0x02A83C33" "des_rot (2) 0x0CF00AAC = 0x03C02AB3"
  "des_rot (Suc 0) 0x02A83C33 = 0x05507866" "des_rot (Suc 0) 0x03C02AB3 = 0x07805566"
  "des_rot (2) 0x05507866 = 0x0541E199" "des_rot (2) 0x07805566 = 0x0E015599"
  "des_rot (2) 0x0541E199 = 0x05078665" "des_rot (2) 0x0E015599 = 0x08055667"
  "des_rot (2) 0x05078665 = 0x041E1995" "des_rot (2) 0x08055667 = 0x0015599E"
  "des_rot (2) 0x041E1995 = 0x00786655" "des_rot (2) 0x0015599E = 0x00556678"
  "des_rot (2) 0x00786655 = 0x01E19954" "des_rot (2) 0x00556678 = 0x015599E0"
  "des_rot (2) 0x01E19954 = 0x07866550" "des_rot (2) 0x015599E0 = 0x05566780"
  "des_rot (Suc 0) 0x07866550 = 0x0F0CCAA0" "des_rot (Suc 0) 0x05566780 = 0x0AACCF00"
  by (code_simp+)

lemma kat_subkeys:
  "des_sk0 0x0E199541 0x05599E01 = 0x30273425" "des_sk1 0x0E199541 0x05599E01 = 0x02092626"
  "des_sk0 0x0C332A83 0x0AB33C02 = 0x1A191626" "des_sk1 0x0C332A83 0x0AB33C02 = 0x1A190928"
  "des_sk0 0x00CCAA0F 0x0ACCF00A = 0x1D0A0212" "des_sk1 0x00CCAA0F 0x0ACCF00A = 0x11122D23"
  "des_sk0 0x0332A83C 0x0B33C02A = 0x28121817" "des_sk1 0x0332A83C 0x0B33C02A = 0x1C272909"
  "des_sk0 0x0CCAA0F0 0x0CCF00AA = 0x0E033A02" "des_sk1 0x0CCAA0F0 0x0CCF00AA = 0x0F20051B"
  "des_sk0 0x032A83C3 0x033C02AB = 0x321E0805" "des_sk1 0x032A83C3 0x033C02AB = 0x08140F15"
  "des_sk0 0x0CAA0F0C 0x0CF00AAC = 0x00152E06" "des_sk1 0x0CAA0F0C 0x0CF00AAC = 0x1B120213"
  "des_sk0 0x02A83C33 0x03C02AB3 = 0x38380E01" "des_sk1 0x02A83C33 0x03C02AB3 = 0x15201B16"
  "des_sk0 0x05507866 0x07805566 = 0x0C292B39" "des_sk1 0x05507866 0x07805566 = 0x30270920"
  "des_sk0 0x0541E199 0x0E015599 = 0x1E073132" "des_sk1 0x0541E199 0x0E015599 = 0x240C1835"
  "des_sk0 0x05078665 0x08055667 = 0x1103183A" "des_sk1 0x05078665 0x08055667 = 0x083E0324"
  "des_sk0 0x041E1995 0x0015599E = 0x13251514" "des_sk1 0x041E1995 0x0015599E = 0x1C031131"
  "des_sk0 0x00786655 0x00556678 = 0x1C10183C" "des_sk1 0x00786655 0x00556678 = 0x24131203"
  "des_sk0 0x01E19954 0x015599E0 = 0x04361D0D" "des_sk1 0x01E19954 0x015599E0 = 0x150E2032"
  "des_sk0 0x07866550 0x05566780 = 0x29052135" "des_sk1 0x07866550 0x05566780 = 0x2D04021A"
  "des_sk0 0x0F0CCAA0 0x0AACCF00 = 0x23030732" "des_sk1 0x0F0CCAA0 0x0AACCF00 = 0x32342E00"
  by (code_simp+)

lemma kat_ks: "des_main_ks kat_key = kat_sk"
  unfolding des_main_ks_def kat_pc1
  by (simp add: upt_rec Let_def kat_rot [simplified] kat_subkeys [simplified] kat_sk_def)

lemma kat_rounds:
  "des_pair kat_sk 0 (0x6F490E6D, 0x01FC264E) = (0x93DFC6F3, 0x844BAE2F)"
  "des_pair kat_sk 4 (0x93DFC6F3, 0x844BAE2F) = (0x3DF8E708, 0xEDE567BC)"
  "des_pair kat_sk 8 (0x3DF8E708, 0xEDE567BC) = (0x21AAA700, 0xD20E73FB)"
  "des_pair kat_sk 12 (0x21AAA700, 0xD20E73FB) = (0xAE466FE0, 0x9B32D1C9)"
  "des_pair kat_sk 16 (0xAE466FE0, 0x9B32D1C9) = (0x4AD52D72, 0x00938499)"
  "des_pair kat_sk 20 (0x4AD52D72, 0x00938499) = (0x42CC754D, 0x6E29C133)"
  "des_pair kat_sk 24 (0x42CC754D, 0x6E29C133) = (0x47D6588D, 0x729B52CB)"
  "des_pair kat_sk 28 (0x47D6588D, 0x729B52CB) = (0x3406FA1A, 0xC1234F42)"
  by (code_simp+)

lemma kat_ends:
  "DES_IP (GET_UINT32_BE kat_plain 0, GET_UINT32_BE kat_plain 4) = (0x6F490E6D, 0x01FC264E)"
  "DES_FP (0xC1234F42, 0x3406FA1A) = (0x3FA40E8A, 0x984D4815)"
  by (code_simp+)

text \<open>The encryption function gives the cipher text of the published example.\<close>

theorem des_known_answer:
  "des_encrypt (des_set_key stack kat_key) kat_plain = [0x3F, 0xA4, 0x0E, 0x8A, 0x98, 0x4D, 0x48, 0x15]"
proof -
  have "esk (des_set_key stack kat_key) = kat_sk"
  proof -
    have "esk (fold (\<lambda>n ctx. let i = 2 * n in
        ctx\<lparr>dsk := (dsk ctx)[i := esk ctx ! (30 - i), i + 1 := esk ctx ! (31 - i)]\<rparr>) ns c) = esk c" for ns and c :: des_context
      by (induction ns arbitrary: c) (simp_all add: Let_def)
    then show ?thesis by (simp add: des_set_key_def kat_ks)
  qed
  moreover have "PUT_UINT32_BE 0x3FA40E8A @ PUT_UINT32_BE 0x984D4815 = [0x3F, 0xA4, 0x0E, 0x8A, 0x98, 0x4D, 0x48, 0x15]"
    by code_simp
  ultimately show ?thesis
    by (simp add: des_encrypt_def des_crypt_def des_rounds_def upt_rec kat_ends [simplified] kat_rounds [simplified])
qed

end
