(* ===== verification/AesTables.thy ===== *)
theory AesTables
  imports Aes
begin

text \<open>
  The tables that \<open>aes_gen_tables\<close> computes at the first use are the constant tables that the source keeps for the other
  configuration. Multiplication by a constant in the field of 256 elements is written as a combination of \<open>XTIME\<close>; multiplication
  by three runs through all elements but zero.
\<close>

section \<open>Arrays filled by a loop\<close>

lemma length_fold_upd [simp]: "length (fold (\<lambda>i t. t[f i := v i]) is t) = length t"
  by (induction "is" arbitrary: t) simp_all

lemma fold_upd_out: "k \<notin> f ` set is \<Longrightarrow> fold (\<lambda>i t. t[f i := v i]) is t ! k = t ! k"
  by (induction "is" arbitrary: t) auto

lemma fold_upd_in:
  "inj_on f (set is) \<Longrightarrow> i \<in> set is \<Longrightarrow> f i < length t \<Longrightarrow> fold (\<lambda>i t. t[f i := v i]) is t ! f i = v i"
proof (induction "is" arbitrary: t)
  case (Cons a "is")
  show ?case
  proof (cases "i \<in> set is")
    case True
    then show ?thesis using Cons by simp
  next
    case False
    then have "i = a" "f a \<notin> f ` set is" using Cons.prems by auto
    then show ?thesis using Cons.prems by (simp add: fold_upd_out)
  qed
qed simp

lemma fold_upd_fill:
  "n \<le> length t \<Longrightarrow> fold (\<lambda>i t. t[i := v i]) [0..<n] t = map v [0..<n] @ drop n t"
proof (rule nth_equalityI)
  fix k
  assume "n \<le> length t" "k < length (fold (\<lambda>i t. t[i := v i]) [0..<n] t)"
  then show "fold (\<lambda>i t. t[i := v i]) [0..<n] t ! k = (map v [0..<n] @ drop n t) ! k"
    using fold_upd_in [of id "[0..<n]" k t v] fold_upd_out [of k id "[0..<n]" v t] by (cases "k < n") (simp_all add: nth_append)
qed simp

section \<open>Multiplication by constants\<close>

definition mul3 :: "byte \<Rightarrow> byte" where "mul3 x = x XOR XTIME x"
definition mul9 :: "byte \<Rightarrow> byte" where "mul9 x = XTIME (XTIME (XTIME x)) XOR x"
definition mulB :: "byte \<Rightarrow> byte" where "mulB x = XTIME (XTIME (XTIME x)) XOR XTIME x XOR x"
definition mulD :: "byte \<Rightarrow> byte" where "mulD x = XTIME (XTIME (XTIME x)) XOR XTIME (XTIME x) XOR x"
definition mulE :: "byte \<Rightarrow> byte" where "mulE x = XTIME (XTIME (XTIME x)) XOR XTIME (XTIME x) XOR XTIME x"

lemmas muls = mul3_def mul9_def mulB_def mulD_def mulE_def

lemma xtime_msb: "x AND 0x80 \<noteq> 0 \<longleftrightarrow> bit x 7" for x :: byte
  unfolding byte_bits by (simp add: bit_simps)

lemma xor_cancel [simp]: "x XOR (x XOR y) = y" for x y :: "'a :: len word"
  by (simp flip: xor.assoc)

lemma XTIME_xor: "XTIME (x XOR y) = XTIME x XOR XTIME y"
proof -
  have "push_bit 1 (x XOR y) = push_bit 1 x XOR push_bit 1 y" by (rule push_bit_xor)
  then show ?thesis unfolding XTIME_def xtime_msb by (simp add: bit_xor_iff ac_simps)
qed

lemmas xor_ac = xor.assoc xor.commute xor.left_commute

lemma mul3_commutes:
  "mul9 (mul3 x) = mul3 (mul9 x)" "mulB (mul3 x) = mul3 (mulB x)" "mulD (mul3 x) = mul3 (mulD x)" "mulE (mul3 x) = mul3 (mulE x)"
  by (simp_all add: muls XTIME_xor xor_ac)

lemma funpow_commutes: "(\<And>x. f (g x) = g (f x)) \<Longrightarrow> f ((g ^^ n) x) = (g ^^ n) (f x)"
  by (induction n arbitrary: x) simp_all

definition pow_tab :: "byte list" where
  "pow_tab = [
     1, 3, 5, 15, 17, 51, 85, 255, 26, 46, 114, 150, 161, 248, 19, 53, 95, 225, 56, 72, 216, 115, 149, 164,
     247, 2, 6, 10, 30, 34, 102, 170, 229, 52, 92, 228, 55, 89, 235, 38, 106, 190, 217, 112, 144, 171, 230, 49,
     83, 245, 4, 12, 20, 60, 68, 204, 79, 209, 104, 184, 211, 110, 178, 205, 76, 212, 103, 169, 224, 59, 77, 215,
     98, 166, 241, 8, 24, 40, 120, 136, 131, 158, 185, 208, 107, 189, 220, 127, 129, 152, 179, 206, 73, 219, 118, 154,
     181, 196, 87, 249, 16, 48, 80, 240, 11, 29, 39, 105, 187, 214, 97, 163, 254, 25, 43, 125, 135, 146, 173, 236,
     47, 113, 147, 174, 233, 32, 96, 160, 251, 22, 58, 78, 210, 109, 183, 194, 93, 231, 50, 86, 250, 21, 63, 65,
     195, 94, 226, 61, 71, 201, 64, 192, 91, 237, 44, 116, 156, 191, 218, 117, 159, 186, 213, 100, 172, 239, 42, 126,
     130, 157, 188, 223, 122, 142, 137, 128, 155, 182, 193, 88, 232, 35, 101, 175, 234, 37, 111, 177, 200, 67, 197, 84,
     252, 31, 33, 99, 165, 244, 7, 9, 27, 45, 119, 153, 176, 203, 70, 202, 69, 207, 74, 222, 121, 139, 134, 145,
     168, 227, 62, 66, 198, 81, 243, 14, 18, 54, 90, 238, 41, 123, 141, 140, 143, 138, 133, 148, 167, 242, 13, 23,
     57, 75, 221, 124, 132, 151, 162, 253, 28, 36, 108, 180, 199, 82, 246, 1]"

definition log_tab :: "byte list" where
  "log_tab = [
     0, 255, 25, 1, 50, 2, 26, 198, 75, 199, 27, 104, 51, 238, 223, 3, 100, 4, 224, 14, 52, 141, 129, 239,
     76, 113, 8, 200, 248, 105, 28, 193, 125, 194, 29, 181, 249, 185, 39, 106, 77, 228, 166, 114, 154, 201, 9, 120,
     101, 47, 138, 5, 33, 15, 225, 36, 18, 240, 130, 69, 53, 147, 218, 142, 150, 143, 219, 189, 54, 208, 206, 148,
     19, 92, 210, 241, 64, 70, 131, 56, 102, 221, 253, 48, 191, 6, 139, 98, 179, 37, 226, 152, 34, 136, 145, 16,
     126, 110, 72, 195, 163, 182, 30, 66, 58, 107, 40, 84, 250, 133, 61, 186, 43, 121, 10, 21, 155, 159, 94, 202,
     78, 212, 172, 229, 243, 115, 167, 87, 175, 88, 168, 80, 244, 234, 214, 116, 79, 174, 233, 213, 231, 230, 173, 232,
     44, 215, 117, 122, 235, 22, 11, 245, 89, 203, 95, 176, 156, 169, 81, 160, 127, 12, 246, 111, 23, 196, 73, 236,
     216, 67, 31, 45, 164, 118, 123, 183, 204, 187, 62, 90, 251, 96, 177, 134, 59, 82, 161, 108, 170, 85, 41, 157,
     151, 178, 135, 144, 97, 190, 220, 252, 188, 149, 207, 205, 55, 63, 91, 209, 83, 57, 132, 60, 65, 162, 109, 71,
     20, 42, 158, 93, 86, 242, 211, 171, 68, 17, 146, 217, 35, 32, 46, 137, 180, 124, 184, 38, 119, 153, 227, 165,
     103, 74, 237, 222, 197, 49, 254, 24, 13, 99, 140, 128, 192, 247, 112, 7]"

section \<open>The tables, entry by entry\<close>

lemma length_tabs: "length pow_tab = 256" "length log_tab = 256" "length FSb_fixed = 256" "length RSb_fixed = 256"
  "length FT_fixed = 256" "length RT_fixed = 256"
  by (simp_all add: pow_tab_def log_tab_def FSb_fixed_def RSb_fixed_def FT_fixed_def RT_fixed_def)

lemma pow_tab_step: "map mul3 (butlast pow_tab) = tl pow_tab"
  by (simp add: pow_tab_def mul3_def XTIME_def)

lemma FT_fixed_octets: "FT_fixed = map (\<lambda>w. let x = ucast w in (XTIME x, x, x, mul3 x)) FSb_fixed"
  by (simp add: FT_fixed_def FSb_fixed_def mul3_def XTIME_def)

lemma RT_fixed_octets: "RT_fixed = map (\<lambda>w. let x = ucast w in (mulE x, mul9 x, mulD x, mulB x)) RSb_fixed"
  by (simp add: RT_fixed_def RSb_fixed_def muls XTIME_def)

lemma log_pow: "map (\<lambda>x. log_tab ! unat x) (tl pow_tab) = map of_nat [1..<256]"
  by (simp add: pow_tab_def) (simp add: log_tab_def upt_rec)

lemma sbox_pow: "map (\<lambda>x. FSb_fixed ! unat x) (tl pow_tab) = map (\<lambda>x. ucast (sbox_entry x)) (rev (butlast pow_tab))"
  by (simp add: pow_tab_def sbox_entry_def rotl_octet_def) (simp add: FSb_fixed_def)

lemma RSb_FSb: "map (\<lambda>x. RSb_fixed ! unat x) FSb_fixed = map of_nat [0..<256]"
  by (simp add: FSb_fixed_def) (simp add: RSb_fixed_def upt_rec)

section \<open>Powers of three\<close>

lemma pow_tab_nth: "i < 256 \<Longrightarrow> pow_tab ! i = (mul3 ^^ i) 1"
proof (induction i)
  case 0
  then show ?case by (simp add: pow_tab_def)
next
  case (Suc i)
  have "map mul3 (butlast pow_tab) ! i = tl pow_tab ! i" by (simp add: pow_tab_step)
  then have "pow_tab ! Suc i = mul3 (pow_tab ! i)" using Suc.prems by (simp add: nth_butlast nth_tl length_tabs)
  then show ?case using Suc by simp
qed

lemma mul3_order: "(mul3 ^^ 255) 1 = 1"
  using pow_tab_nth [of 255] by (simp add: pow_tab_def)

lemma mul3_mod: "(mul3 ^^ n) 1 = (mul3 ^^ (n mod 255)) 1"
proof (induction n rule: less_induct)
  case (less n)
  show ?case
  proof (cases "n < 255")
    case False
    then have "(mul3 ^^ n) 1 = (mul3 ^^ (n - 255)) ((mul3 ^^ 255) 1)"
      by (metis add.commute comp_apply funpow_add le_add_diff_inverse not_less)
    then show ?thesis using less.IH [of "n - 255"] False by (simp add: mul3_order le_mod_geq)
  qed simp
qed

text \<open>The position of an element in the table of powers.\<close>

lemma log_tab_pow: "0 < i \<Longrightarrow> i < 256 \<Longrightarrow> log_tab ! unat (pow_tab ! i) = of_nat i"
  using arg_cong [OF log_pow, of "\<lambda>xs. xs ! (i - 1)"] by (cases i) (simp_all add: length_tabs nth_tl)

lemma pow_tab_inj: "inj_on (\<lambda>i. unat (pow_tab ! i)) {1..<256}"
proof (rule inj_onI)
  fix i j :: nat
  assume a: "i \<in> {1..<256}" "j \<in> {1..<256}" "unat (pow_tab ! i) = unat (pow_tab ! j)"
  then have "(of_nat i :: byte) = of_nat j" using log_tab_pow [of i] log_tab_pow [of j] by simp
  then have "unat (of_nat i :: byte) = unat (of_nat j :: byte)" by simp
  then show "i = j" using a by (simp add: unat_of_nat)
qed

lemma pow_tab_nz: "i < 256 \<Longrightarrow> pow_tab ! i \<noteq> 0"
proof -
  have "0 \<notin> set pow_tab" by (simp add: pow_tab_def)
  moreover assume "i < 256"
  then have "pow_tab ! i \<in> set pow_tab" by (simp add: length_tabs)
  ultimately show ?thesis by metis
qed

lemma pow_tab_surj: "(\<lambda>i. unat (pow_tab ! i)) ` {1..<256} = {1..<256}"
proof (rule endo_inj_surj)
  have "unat (pow_tab ! i) \<in> {1..<256}" if "i \<in> {1..<256}" for i
    using that pow_tab_nz [of i] unsigned_less [of "pow_tab ! i", where ?'a = nat] by (simp add: Suc_le_eq unat_gt_0)
  then show "(\<lambda>i. unat (pow_tab ! i)) ` {1..<256} \<subseteq> {1..<256}" by blast
qed (use pow_tab_inj in simp_all)

lemma pow_tab_cases:
  assumes "y \<noteq> 0"
  obtains i where "0 < i" "i < 256" "y = pow_tab ! i"
proof -
  have "unat y \<in> {1..<256}" using assms unsigned_less [of y, where ?'a = nat] by (simp add: Suc_le_eq unat_gt_0)
  then obtain i where "i \<in> {1..<256}" "unat y = unat (pow_tab ! i)" using pow_tab_surj by (metis (no_types, lifting) imageE)
  then show ?thesis using that [of i] by (simp add: word_unat_eq_iff)
qed

section \<open>What the loops compute\<close>

lemma pow_log_fold:
  "fold pow_log_step is (x, p, l) = (fold (\<lambda>i x. mul3 x) is x,
     snd (fold (\<lambda>i (x, p). (mul3 x, p[i := x])) is (x, p)), snd (fold (\<lambda>i (x, l). (mul3 x, l[unat x := of_nat i])) is (x, l)))"
  by (induction "is" arbitrary: x p l) (simp_all add: pow_log_step_def mul3_def)

lemma fold_iterate:
  "fold (\<lambda>i (x, t). (f x, u i x t)) [0..<n] (x, t) = ((f ^^ n) x, fold (\<lambda>i t. u i ((f ^^ i) x) t) [0..<n] t)"
  by (induction n) simp_all

lemma fold_mul3_upd:
  "fold (\<lambda>i (x, t). (mul3 x, u i x t)) [0..<256] (1, t) = ((mul3 ^^ 256) 1, fold (\<lambda>i t. u i (pow_tab ! i) t) [0..<256] t)"
proof -
  have "fold (\<lambda>i t. u i ((mul3 ^^ i) 1) t) [0..<256] t = fold (\<lambda>i t. u i (pow_tab ! i) t) [0..<256] t"
    by (rule fold_cong) (simp_all add: pow_tab_nth)
  then show ?thesis unfolding fold_iterate by simp
qed

lemma pow_log_eq: "pow_log = (pow_tab, log_tab)"
proof -
  let ?l = "fold (\<lambda>i l. l[unat (pow_tab ! i) := of_nat i]) [0..<256] (replicate 256 (0 :: byte))"
  have p: "fold (\<lambda>i p. p[i := pow_tab ! i]) [0..<256] (replicate 256 0) = pow_tab"
    using map_nth [of pow_tab] by (simp add: fold_upd_fill length_tabs)
  have "?l = log_tab"
  proof (rule nth_equalityI)
    fix k
    assume "k < length ?l"
    then have k: "k < 256" by simp
    have split: "?l = fold (\<lambda>i l. l[unat (pow_tab ! i) := of_nat i]) [1..<256] ((replicate 256 0)[unat (pow_tab ! 0) := 0])"
      by (subst upt_rec) simp
    show "?l ! k = log_tab ! k"
    proof (cases "k = 0")
      case True
      have "0 \<notin> (\<lambda>i. unat (pow_tab ! i)) ` set [1..<256]" using pow_tab_surj by simp
      then show ?thesis using True unfolding split by (subst fold_upd_out) (simp_all add: pow_tab_def log_tab_def)
    next
      case False
      then obtain i where i: "i \<in> {1..<256}" "k = unat (pow_tab ! i)" using k pow_tab_surj by (metis (no_types, lifting) atLeastLessThan_iff imageE less_one linorder_not_less)
      then have "?l ! k = of_nat i" unfolding split i(2)
        using k i pow_tab_inj by (intro fold_upd_in) simp_all
      then show ?thesis using log_tab_pow [of i] i by simp
    qed
  qed (simp add: length_tabs)
  then show ?thesis using p fold_mul3_upd [of "\<lambda>i x p. p[i := x]" "replicate 256 0"]
      fold_mul3_upd [of "\<lambda>i x l. l[unat x := of_nat i :: byte]" "replicate 256 0"]
    unfolding pow_log_def pow_log_fold by simp
qed

lemma rcon_eq:
  assumes "length t = 10"
  shows "snd (fold rcon_step [0..<10] (1, t)) = RCON_fixed"
proof -
  have "rcon_step = (\<lambda>i (x, t). (XTIME x, t[i := push_bit 24 (ucast x)]))" by (auto simp: rcon_step_def fun_eq_iff)
  then have "snd (fold rcon_step [0..<10] (1, t)) = map (\<lambda>i. push_bit 24 (ucast ((XTIME ^^ i) 1))) [0..<10]"
    using assms unfolding \<open>rcon_step = _\<close> fold_iterate by (simp add: fold_upd_fill)
  also have "\<dots> = RCON_fixed" by (simp add: upt_rec RCON_fixed_def XTIME_def)
  finally show ?thesis .
qed

lemma FSb_fixed_octet: "i < 256 \<Longrightarrow> FSb_fixed ! i < 256" "i < 256 \<Longrightarrow> RSb_fixed ! i < 256"
proof -
  have "list_all (\<lambda>w. w < 256) FSb_fixed" "list_all (\<lambda>w. w < 256) RSb_fixed"
    by (simp_all add: FSb_fixed_def RSb_fixed_def)
  then show "i < 256 \<Longrightarrow> FSb_fixed ! i < 256" "i < 256 \<Longrightarrow> RSb_fixed ! i < 256"
    by (simp_all add: list_all_length length_tabs)
qed

definition sb :: "nat \<Rightarrow> byte" where
  "sb i = sbox_entry (pow_tab ! (255 - unat (log_tab ! i)))"

lemma sb_eq:
  assumes "0 < i" "i < 256"
  shows "ucast (sb i) = FSb_fixed ! i"
proof -
  obtain k where k: "0 < k" "k < 256" "unat (pow_tab ! k) = i"
  proof -
    have "unat (of_nat i :: byte) = i" using assms by (simp add: unat_of_nat)
    then have "(of_nat i :: byte) \<noteq> 0" using assms(1) by (metis less_irrefl unat_0)
    then show thesis using pow_tab_cases that \<open>unat (of_nat i :: byte) = i\<close> by metis
  qed
  have "FSb_fixed ! unat (pow_tab ! k) = ucast (sbox_entry (rev (butlast pow_tab) ! (k - 1)))"
    using arg_cong [OF sbox_pow, of "\<lambda>xs. xs ! (k - 1)"] k(1,2) by (cases k) (simp_all add: length_tabs nth_tl)
  also have "rev (butlast pow_tab) ! (k - 1) = pow_tab ! (255 - k)"
    using k(1,2) by (simp add: rev_nth length_tabs nth_butlast)
  finally show ?thesis using log_tab_pow [OF k(1,2)] k by (simp add: sb_def unat_of_nat)
qed

lemma FSb_loop:
  assumes "length t = 256"
  shows "fold (\<lambda>i t. t[i := ucast (sb i)]) [1..<256] (t[0 := 0x63]) = FSb_fixed"
proof (rule nth_equalityI)
  fix k
  assume "k < length (fold (\<lambda>i t. t[i := ucast (sb i)]) [1..<256] (t[0 := 0x63]))"
  then have k: "k < 256" using assms by simp
  show "fold (\<lambda>i t. t[i := ucast (sb i)]) [1..<256] (t[0 := 0x63]) ! k = FSb_fixed ! k"
  proof (cases "k = 0")
    case True
    then show ?thesis using fold_upd_out [of k id "[1..<256]" "\<lambda>i. ucast (sb i)" "t[0 := 0x63]"] assms
      by (simp add: FSb_fixed_def nth_list_update)
  next
    case False
    then show ?thesis using fold_upd_in [of id "[1..<256]" k "t[0 := 0x63]" "\<lambda>i. ucast (sb i)"] assms k sb_eq [of k] by simp
  qed
qed (simp add: assms length_tabs)

lemma RSb_FSb_nth: "i < 256 \<Longrightarrow> RSb_fixed ! unat (FSb_fixed ! i) = of_nat i"
  using arg_cong [OF RSb_FSb, of "\<lambda>xs. xs ! i"] by (simp add: length_tabs)

lemma FSb_fixed_inj: "inj_on (\<lambda>i. unat (FSb_fixed ! i)) {0..<256}"
proof (rule inj_onI)
  fix i j :: nat
  assume a: "i \<in> {0..<256}" "j \<in> {0..<256}" "unat (FSb_fixed ! i) = unat (FSb_fixed ! j)"
  then have "(of_nat i :: u32) = of_nat j" using RSb_FSb_nth [of i] RSb_FSb_nth [of j] by simp
  then have "unat (of_nat i :: u32) = unat (of_nat j :: u32)" by simp
  then show "i = j" using a by (simp add: unat_of_nat)
qed

lemma unat_less_256: "w < 256 \<Longrightarrow> unat w < 256" for w :: u32
  using unat_mono [of w 256] by simp

lemma FSb_fixed_surj: "(\<lambda>i. unat (FSb_fixed ! i)) ` {0..<256} = {0..<256}"
  using FSb_fixed_inj by (intro endo_inj_surj) (auto simp: unat_less_256 FSb_fixed_octet)

lemma RSb_loop:
  assumes "length t = 256"
  shows "fold (\<lambda>i t. t[unat (FSb_fixed ! i) := of_nat i]) [0..<256] t = RSb_fixed"
proof (rule nth_equalityI)
  fix k
  assume "k < length (fold (\<lambda>i t. t[unat (FSb_fixed ! i) := of_nat i]) [0..<256] t)"
  then have "k \<in> {0..<256}" using assms by simp
  then obtain i where i: "i \<in> {0..<256}" "k = unat (FSb_fixed ! i)" using FSb_fixed_surj by (metis (no_types, lifting) imageE)
  then show "fold (\<lambda>i t. t[unat (FSb_fixed ! i) := of_nat i]) [0..<256] t ! k = RSb_fixed ! k"
    using fold_upd_in [of "\<lambda>i. unat (FSb_fixed ! i)" "[0..<256]" i t "\<lambda>i. of_nat i"] FSb_fixed_inj assms
    by (simp add: RSb_FSb_nth unat_less_256 FSb_fixed_octet)
qed (simp add: assms length_tabs)

lemma sbox_loop_split:
  "fold (sbox_step pow_tab log_tab) is (f, r) = (fold (\<lambda>i t. t[i := ucast (sb i)]) is f, fold (\<lambda>i t. t[unat (sb i) := of_nat i]) is r)"
  by (induction "is" arbitrary: f r) (simp_all add: sbox_step_def sb_def Let_def)

lemma unat_ucast_octet [simp]: "unat (ucast b :: u32) = unat b" for b :: byte
  using unsigned_less [of b, where ?'a = nat] by (simp add: unsigned_ucast_eq take_bit_nat_eq_self)

lemma sbox_eq:
  assumes "length f = 256" "length r = 256"
  shows "fold (sbox_step pow_tab log_tab) [1..<256] (f[0 := 0x63], r[0x63 := 0]) = (FSb_fixed, RSb_fixed)"
proof -
  have "unat (sb i) = unat (FSb_fixed ! i)" if "i \<in> set [1..<256]" for i
    using that arg_cong [OF sb_eq [of i], of unat] by simp
  then have "fold (\<lambda>i t. t[unat (sb i) := of_nat i]) [1..<256] (r[0x63 := 0]) =
      fold (\<lambda>i t. t[unat (FSb_fixed ! i) := of_nat i]) [1..<256] (r[0x63 := 0])"
    by (intro fold_cong) simp_all
  also have "\<dots> = fold (\<lambda>i t. t[unat (FSb_fixed ! i) := of_nat i]) [0..<256] r"
    by (simp add: upt_conv_Cons [of 0] FSb_fixed_def [THEN arg_cong, of "\<lambda>x. x ! 0"])
  finally show ?thesis using FSb_loop [OF assms(1)] RSb_loop [OF assms(2)] by (simp add: sbox_loop_split)
qed

section \<open>Forward and reverse tables\<close>

declare octet_high [simp]

lemma ft0_entry_V0: "ft0_entry x = V0 (XTIME x, x, x, mul3 x)"
  unfolding ft0_entry_def Let_def mul3_def V0_def V_word_def prod.case u32_bits by (simp add: bit_simps)

lemma ROTR8_V: "ROTR8 (V0 v) = V1 v" "ROTR8 (V1 v) = V2 v" "ROTR8 (V2 v) = V3 v"
proof -
  have "ROTR8 (V_word a b c d) = V_word d a b c" for a b c d
    unfolding ROTR8_def V_word_def u32_all_ones u32_bits by (simp add: bit_simps)
  then show "ROTR8 (V0 v) = V1 v" "ROTR8 (V1 v) = V2 v" "ROTR8 (V2 v) = V3 v"
    by (simp_all add: V0_def V1_def V2_def V3_def split: prod.split)
qed

text \<open>The product by logarithms is the product by a combination of \<open>XTIME\<close>.\<close>

lemma MUL_mul:
  assumes "f 1 = c" "\<And>x. f (mul3 x) = mul3 (f x)" "c \<noteq> 0" "f 0 = 0"
  shows "MUL pow_tab log_tab c y = f y"
proof (cases "y = 0")
  case False
  obtain i where i: "0 < i" "i < 256" "y = pow_tab ! i" using pow_tab_cases [OF False] .
  obtain k where k: "0 < k" "k < 256" "c = pow_tab ! k" using pow_tab_cases [OF assms(3)] .
  have "f y = (mul3 ^^ i) c" using funpow_commutes [of f mul3 i 1] assms(1,2) i by (simp add: pow_tab_nth)
  also have "\<dots> = (mul3 ^^ (k + i)) 1" using k by (simp add: pow_tab_nth add.commute [of k] funpow_add)
  also have "\<dots> = pow_tab ! ((k + i) mod 255)"
    using mul3_mod [of "k + i"] pow_tab_nth [of "(k + i) mod 255"] by (simp add: less_trans [OF mod_less_divisor])
  also have "\<dots> = MUL pow_tab log_tab c y"
    using False assms(3) i(1,2) k(1,2) unfolding MUL_def i(3) k(3) by (simp add: log_tab_pow unat_of_nat pow_tab_nz)
  finally show ?thesis by simp
qed (simp add: MUL_def assms)

lemma MUL_consts: "MUL pow_tab log_tab 0x0B y = mulB y" "MUL pow_tab log_tab 0x0D y = mulD y"
  "MUL pow_tab log_tab 0x09 y = mul9 y" "MUL pow_tab log_tab 0x0E y = mulE y"
proof -
  have "mulB 1 = 0x0B" "mulD 1 = 0x0D" "mul9 1 = 0x09" "mulE 1 = 0x0E" "mulB 0 = 0" "mulD 0 = 0" "mul9 0 = 0" "mulE 0 = 0"
    by (simp_all add: muls XTIME_def)
  then show "MUL pow_tab log_tab 0x0B y = mulB y" "MUL pow_tab log_tab 0x0D y = mulD y"
    "MUL pow_tab log_tab 0x09 y = mul9 y" "MUL pow_tab log_tab 0x0E y = mulE y"
    by (auto intro!: MUL_mul simp: mul3_commutes)
qed

lemma rt0_entry_V0: "rt0_entry pow_tab log_tab y = V0 (mulE y, mul9 y, mulD y, mulB y)"
  unfolding rt0_entry_def MUL_consts V0_def V_word_def prod.case u32_bits by (simp add: bit_simps)

definition aes_arrays :: "aes_globals \<Rightarrow> bool" where
  "aes_arrays g \<longleftrightarrow> length (FSb g) = 256 \<and> length (RSb g) = 256 \<and> length (RCON g) = 10 \<and>
     length (FT0 g) = 256 \<and> length (FT1 g) = 256 \<and> length (FT2 g) = 256 \<and> length (FT3 g) = 256 \<and>
     length (RT0 g) = 256 \<and> length (RT1 g) = 256 \<and> length (RT2 g) = 256 \<and> length (RT3 g) = 256 \<and>
     length (KT0 g) = 256 \<and> length (KT1 g) = 256 \<and> length (KT2 g) = 256 \<and> length (KT3 g) = 256"

lemma table_loop:
  assumes "aes_arrays g" "n \<le> 256"
  shows "fold (table_step pow_tab log_tab) [0..<n] g = (let
      f = (\<lambda>i. ft0_entry (ucast (FSb g ! i))); r = (\<lambda>i. rt0_entry pow_tab log_tab (ucast (RSb g ! i))) in
    g\<lparr>FT0 := fold (\<lambda>i t. t[i := f i]) [0..<n] (FT0 g), FT1 := fold (\<lambda>i t. t[i := ROTR8 (f i)]) [0..<n] (FT1 g),
      FT2 := fold (\<lambda>i t. t[i := ROTR8 (ROTR8 (f i))]) [0..<n] (FT2 g), FT3 := fold (\<lambda>i t. t[i := ROTR8 (ROTR8 (ROTR8 (f i)))]) [0..<n] (FT3 g),
      RT0 := fold (\<lambda>i t. t[i := r i]) [0..<n] (RT0 g), RT1 := fold (\<lambda>i t. t[i := ROTR8 (r i)]) [0..<n] (RT1 g),
      RT2 := fold (\<lambda>i t. t[i := ROTR8 (ROTR8 (r i))]) [0..<n] (RT2 g), RT3 := fold (\<lambda>i t. t[i := ROTR8 (ROTR8 (ROTR8 (r i)))]) [0..<n] (RT3 g)\<rparr>)"
  using assms(2)
proof (induction n)
  case 0
  then show ?case by simp
next
  case (Suc n)
  then show ?case using assms(1) by (simp add: table_step_def Let_def aes_arrays_def)
qed

text \<open>The globals once the tables have been computed.\<close>

definition with_tables :: "aes_globals \<Rightarrow> aes_globals" where
  "with_tables g = g\<lparr>FSb := FSb_fixed, RSb := RSb_fixed, RCON := RCON_fixed,
     FT0 := map V0 FT_fixed, FT1 := map V1 FT_fixed, FT2 := map V2 FT_fixed, FT3 := map V3 FT_fixed,
     RT0 := map V0 RT_fixed, RT1 := map V1 RT_fixed, RT2 := map V2 RT_fixed, RT3 := map V3 RT_fixed\<rparr>"

lemma map_table: "length t = 256 \<Longrightarrow> length xs = 256 \<Longrightarrow> fold (\<lambda>i t. t[i := h (xs ! i)]) [0..<256] t = map h xs"
proof -
  assume "length t = 256" "length xs = 256"
  moreover from this have "map (\<lambda>i. h (xs ! i)) [0..<256] = map h xs" by (intro nth_equalityI) simp_all
  ultimately show ?thesis by (simp add: fold_upd_fill)
qed

lemma map_entries:
  "map V0 FT_fixed = map (\<lambda>w. ft0_entry (ucast w)) FSb_fixed"
  "map V0 RT_fixed = map (\<lambda>w. rt0_entry pow_tab log_tab (ucast w)) RSb_fixed"
  by (simp_all add: FT_fixed_octets RT_fixed_octets ft0_entry_V0 rt0_entry_V0 Let_def)

lemma map_rotated:
  "map V1 vs = map (\<lambda>w. ROTR8 w) (map V0 vs)" "map V2 vs = map (\<lambda>w. ROTR8 (ROTR8 w)) (map V0 vs)"
  "map V3 vs = map (\<lambda>w. ROTR8 (ROTR8 (ROTR8 w))) (map V0 vs)"
  by (simp_all add: ROTR8_V)

lemma gen_tables_eq:
  assumes "aes_arrays g"
  shows "aes_gen_tables g = with_tables g"
proof -
  define g1 where "g1 = g\<lparr>RCON := RCON_fixed, FSb := FSb_fixed, RSb := RSb_fixed\<rparr>"
  have "aes_arrays g1" using assms by (simp add: g1_def aes_arrays_def length_tabs RCON_fixed_def)
  moreover have "aes_gen_tables g = fold (table_step pow_tab log_tab) [0..<256] g1"
    using assms rcon_eq [of "RCON g"] sbox_eq [of "FSb g" "RSb g"]
    by (cases "fold rcon_step [0..<10] (1, RCON g)") (simp add: aes_gen_tables_def pow_log_eq aes_arrays_def g1_def Let_def)
  moreover have "FSb g1 = FSb_fixed" "RSb g1 = RSb_fixed" by (simp_all add: g1_def)
  moreover note map_table [of _ FSb_fixed "\<lambda>w. ft0_entry (ucast w)"] map_table [of _ FSb_fixed "\<lambda>w. ROTR8 (ft0_entry (ucast w))"]
    map_table [of _ FSb_fixed "\<lambda>w. ROTR8 (ROTR8 (ft0_entry (ucast w)))"]
    map_table [of _ FSb_fixed "\<lambda>w. ROTR8 (ROTR8 (ROTR8 (ft0_entry (ucast w))))"]
    map_table [of _ RSb_fixed "\<lambda>w. rt0_entry pow_tab log_tab (ucast w)"]
    map_table [of _ RSb_fixed "\<lambda>w. ROTR8 (rt0_entry pow_tab log_tab (ucast w))"]
    map_table [of _ RSb_fixed "\<lambda>w. ROTR8 (ROTR8 (rt0_entry pow_tab log_tab (ucast w)))"]
    map_table [of _ RSb_fixed "\<lambda>w. ROTR8 (ROTR8 (ROTR8 (rt0_entry pow_tab log_tab (ucast w))))"]
  ultimately show ?thesis
    by (simp add: table_loop Let_def aes_arrays_def length_tabs)
       (simp add: g1_def with_tables_def map_rotated map_entries comp_def)
qed

text \<open>
  C10. The tables computed at the first use are the constant tables of the other configuration, all of them and entry by entry:
  both substitution boxes, the eight round tables and the round constants.
\<close>

theorem generated_tables_are_fixed: "aes_arrays g \<Longrightarrow> aes_gen_tables g = with_tables g"
  by (rule gen_tables_eq)

definition zero_globals :: aes_globals where
  "zero_globals = \<lparr>FSb = replicate 256 0, FT0 = replicate 256 0, FT1 = replicate 256 0, FT2 = replicate 256 0, FT3 = replicate 256 0,
     RSb = replicate 256 0, RT0 = replicate 256 0, RT1 = replicate 256 0, RT2 = replicate 256 0, RT3 = replicate 256 0,
     RCON = replicate 10 0, do_init = True, KT_init = True,
     KT0 = replicate 256 0, KT1 = replicate 256 0, KT2 = replicate 256 0, KT3 = replicate 256 0\<rparr>"

lemma zero_globals_arrays: "aes_arrays zero_globals"
  by (simp add: aes_arrays_def zero_globals_def)

theorem generated_tables_are_fixed_witness: "aes_gen_tables zero_globals = with_tables zero_globals"
  by (rule generated_tables_are_fixed [OF zero_globals_arrays])

end
