(* ===== verification/Spn.thy ===== *)
theory Spn
  imports Main
begin

text \<open>
  Ciphers built from rounds of a substitution, a linear mixing and a round key, with the inverse arranged the same way: the
  rounds of the inverse use the keys in reverse order, passed through the inverse mixing.
\<close>

locale spn =
  fixes sub isub mix imix :: "'s \<Rightarrow> 's" and add :: "'s \<Rightarrow> 's \<Rightarrow> 's"
  assumes isub_sub: "isub (sub s) = s"
    and imix_mix: "imix (mix s) = s"
    and imix_add: "imix (add k s) = add (imix k) (imix s)"
    and add_add: "add k (add k s) = s"
begin

definition forward :: "'s \<Rightarrow> 's \<Rightarrow> 's" where
  "forward k s = add k (mix (sub s))"

definition backward :: "'s \<Rightarrow> 's \<Rightarrow> 's" where
  "backward k s = add (imix k) (imix (isub s))"

definition encipher :: "'s \<Rightarrow> 's list \<Rightarrow> 's \<Rightarrow> 's \<Rightarrow> 's" where
  "encipher first ks final s = add final (sub (fold forward ks (add first s)))"

definition decipher :: "'s \<Rightarrow> 's list \<Rightarrow> 's \<Rightarrow> 's \<Rightarrow> 's" where
  "decipher first ks final c = add first (isub (fold backward (rev ks) (add final c)))"

lemma backward_forward: "backward k (sub (forward k s)) = sub s"
  by (simp add: backward_def forward_def isub_sub imix_add imix_mix add_add)

lemma rounds_undone: "fold backward (rev ks) (sub (fold forward ks s)) = sub s"
  by (induction ks rule: rev_induct) (simp_all add: backward_forward)

lemma deciphered: "decipher first ks final (encipher first ks final s) = s"
  by (simp add: decipher_def encipher_def add_add rounds_undone isub_sub)

end

end
