(* ===== verification/AesProps.thy ===== *)
theory AesProps
  imports AesTables DesProps Spn
begin

text \<open>
  The AES functions: decryption undoes encryption for each of the key sizes, whatever has been done with the globals before; what the
  buffer functions do when input and output are apart and when they are the same.
\<close>

section \<open>Octets of words\<close>

definition oct :: "nat \<Rightarrow> u32 \<Rightarrow> byte" where
  "oct n w = ucast (drop_bit n w)"

lemma oct_V_word [simp]:
  "oct 24 (V_word a b c d) = a" "oct 16 (V_word a b c d) = b" "oct 8 (V_word a b c d) = c" "oct 0 (V_word a b c d) = d"
  unfolding oct_def V_word_def byte_bits by (simp_all add: bit_simps)

lemma V_word_oct [simp]: "V_word (oct 24 w) (oct 16 w) (oct 8 w) (oct 0 w) = w"
  unfolding oct_def V_word_def u32_bits by (simp add: bit_simps)

lemma V_word_xor: "V_word a b c d XOR V_word a' b' c' d' = V_word (a XOR a') (b XOR b') (c XOR c') (d XOR d')"
  unfolding V_word_def u32_bits by (simp add: bit_simps)

lemma V_word_shifts: "push_bit 24 (ucast a) XOR push_bit 16 (ucast b) XOR push_bit 8 (ucast c) XOR ucast d = V_word a b c d"
  unfolding V_word_def u32_bits by (simp add: bit_simps)

lemma oct_xor: "oct n (v XOR w) = oct n v XOR oct n w"
  by (simp add: oct_def drop_bit_xor of_bool_def unsigned_xor_eq)

section \<open>Columns\<close>

definition fcol :: "byte \<Rightarrow> byte \<times> byte \<times> byte \<times> byte" where "fcol x = (XTIME x, x, x, mul3 x)"
definition rcol :: "byte \<Rightarrow> byte \<times> byte \<times> byte \<times> byte" where "rcol x = (mulE x, mul9 x, mulD x, mulB x)"

definition mixw :: "(byte \<Rightarrow> byte \<times> byte \<times> byte \<times> byte) \<Rightarrow> u32 \<Rightarrow> u32" where
  "mixw f w = V0 (f (oct 24 w)) XOR V1 (f (oct 16 w)) XOR V2 (f (oct 8 w)) XOR V3 (f (oct 0 w))"

lemma mul_xor: "mul3 (x XOR y) = mul3 x XOR mul3 y" "mul9 (x XOR y) = mul9 x XOR mul9 y" "mulB (x XOR y) = mulB x XOR mulB y"
  "mulD (x XOR y) = mulD x XOR mulD y" "mulE (x XOR y) = mulE x XOR mulE y"
  by (simp_all add: muls XTIME_xor xor_ac)

lemma mixw_rcol_xor: "mixw rcol (v XOR w) = mixw rcol v XOR mixw rcol w"
  by (simp add: mixw_def rcol_def V0_def V1_def V2_def V3_def oct_xor mul_xor V_word_xor [symmetric] xor_ac)

lemma mixw_fcol: "mixw fcol (V_word a b c d) =
    V_word (XTIME a XOR mul3 b XOR c XOR d) (a XOR XTIME b XOR mul3 c XOR d) (a XOR b XOR XTIME c XOR mul3 d) (mul3 a XOR b XOR c XOR XTIME d)"
  by (simp add: mixw_def fcol_def V0_def V1_def V2_def V3_def V_word_xor)

lemma mixw_rcol: "mixw rcol (V_word a b c d) =
    V_word (mulE a XOR mulB b XOR mulD c XOR mul9 d) (mul9 a XOR mulE b XOR mulB c XOR mulD d)
      (mulD a XOR mul9 b XOR mulE c XOR mulB d) (mulB a XOR mulD b XOR mul9 c XOR mulE d)"
  by (simp add: mixw_def rcol_def V0_def V1_def V2_def V3_def V_word_xor)

lemma unmix: "mixw rcol (mixw fcol w) = w"
proof -
  have "mixw rcol (mixw fcol (V_word a b c d)) = V_word a b c d" for a b c d
    unfolding mixw_fcol mixw_rcol by (simp add: muls XTIME_xor xor_ac)
  from this [of "oct 24 w" "oct 16 w" "oct 8 w" "oct 0 w"] show ?thesis by simp
qed

section \<open>Ready globals\<close>

definition S :: "byte \<Rightarrow> byte" where "S b = ucast (FSb_fixed ! unat b)"
definition R :: "byte \<Rightarrow> byte" where "R b = ucast (RSb_fixed ! unat b)"

lemma unat_octet: "unat b < 256" for b :: byte
  using unsigned_less [of b, where ?'a = nat] by simp

lemma ucast_octet: "w < 256 \<Longrightarrow> ucast (ucast w :: byte) = w" for w :: u32
  using unat_less_256 [of w] by (simp add: word_unat_eq_iff unsigned_ucast_eq unsigned_take_bit_eq take_bit_nat_eq_self)

lemma ucast_up_down [simp]: "ucast (ucast b :: u32) = b" for b :: byte
  by (rule bit_word_eqI) (simp add: bit_simps)

lemma S_octet: "FSb_fixed ! unat b = ucast (S b)" "RSb_fixed ! unat b = ucast (R b)"
  using FSb_fixed_octet [of "unat b"] by (simp_all add: S_def R_def unat_octet ucast_octet)

lemma R_S [simp]: "R (S b) = b"
proof -
  have "RSb_fixed ! unat (S b) = of_nat (unat b)"
    using RSb_FSb_nth [of "unat b"] by (simp add: S_octet unat_octet)
  then show ?thesis by (simp add: R_def)
qed

text \<open>All tables are in place.\<close>

definition aes_ready :: "aes_globals \<Rightarrow> bool" where
  "aes_ready g \<longleftrightarrow> with_tables g = g \<and> KT0 g = map (\<lambda>i. V0 (rcol (of_nat i))) [0..<256] \<and> KT1 g = map (\<lambda>i. V1 (rcol (of_nat i))) [0..<256] \<and>
     KT2 g = map (\<lambda>i. V2 (rcol (of_nat i))) [0..<256] \<and> KT3 g = map (\<lambda>i. V3 (rcol (of_nat i))) [0..<256]"

text \<open>
  The globals between calls: before the first use the tables are arbitrary, and the flags say which of them
  have been computed.
\<close>

definition aes_inv :: "aes_globals \<Rightarrow> bool" where
  "aes_inv g \<longleftrightarrow> aes_arrays g \<and> (do_init g \<longrightarrow> KT_init g) \<and> (\<not> do_init g \<longrightarrow> with_tables g = g) \<and> (\<not> KT_init g \<longrightarrow> aes_ready g)"

lemma with_tables_simps:
  assumes "with_tables g = g"
  shows "FSb g = FSb_fixed" "RSb g = RSb_fixed" "RCON g = RCON_fixed"
    "FT0 g = map V0 FT_fixed" "FT1 g = map V1 FT_fixed" "FT2 g = map V2 FT_fixed" "FT3 g = map V3 FT_fixed"
    "RT0 g = map V0 RT_fixed" "RT1 g = map V1 RT_fixed" "RT2 g = map V2 RT_fixed" "RT3 g = map V3 RT_fixed"
proof -
  have "f (with_tables g) = f g" for f :: "aes_globals \<Rightarrow> u32 list" using assms by simp
  from this [of FSb] this [of RSb] this [of RCON] this [of FT0] this [of FT1] this [of FT2] this [of FT3]
    this [of RT0] this [of RT1] this [of RT2] this [of RT3]
  show "FSb g = FSb_fixed" "RSb g = RSb_fixed" "RCON g = RCON_fixed"
    "FT0 g = map V0 FT_fixed" "FT1 g = map V1 FT_fixed" "FT2 g = map V2 FT_fixed" "FT3 g = map V3 FT_fixed"
    "RT0 g = map V0 RT_fixed" "RT1 g = map V1 RT_fixed" "RT2 g = map V2 RT_fixed" "RT3 g = map V3 RT_fixed"
    by (simp_all add: with_tables_def)
qed

lemma FT_fixed_nth: "FT_fixed ! unat b = fcol (S b)" "RT_fixed ! unat b = rcol (R b)"
  by (simp_all add: FT_fixed_octets RT_fixed_octets length_tabs unat_octet fcol_def rcol_def S_def R_def Let_def)

lemma tab_oct: "tab t n w = t ! unat (oct n w)"
  by (simp add: tab_def oct_def)

lemma tab_simps:
  assumes "with_tables g = g"
  shows "tab (FSb g) n w = ucast (S (oct n w))" "tab (RSb g) n w = ucast (R (oct n w))"
    "tab (FT0 g) n w = V0 (fcol (S (oct n w)))" "tab (FT1 g) n w = V1 (fcol (S (oct n w)))"
    "tab (FT2 g) n w = V2 (fcol (S (oct n w)))" "tab (FT3 g) n w = V3 (fcol (S (oct n w)))"
    "tab (RT0 g) n w = V0 (rcol (R (oct n w)))" "tab (RT1 g) n w = V1 (rcol (R (oct n w)))"
    "tab (RT2 g) n w = V2 (rcol (R (oct n w)))" "tab (RT3 g) n w = V3 (rcol (R (oct n w)))"
  by (simp_all add: tab_oct with_tables_simps [OF assms] S_octet FT_fixed_nth length_tabs unat_octet)

lemma kt_word_ready: "aes_ready g \<Longrightarrow> kt_word g w = mixw rcol w"
  by (simp add: aes_ready_def kt_word_def tab_oct mixw_def unat_octet)

lemma kt_loop:
  "n \<le> 256 \<Longrightarrow> aes_arrays g \<Longrightarrow> fold kt_step [0..<n] g =
     g\<lparr>KT0 := fold (\<lambda>i t. t[i := RT0 g ! unat (FSb g ! i)]) [0..<n] (KT0 g), KT1 := fold (\<lambda>i t. t[i := RT1 g ! unat (FSb g ! i)]) [0..<n] (KT1 g),
       KT2 := fold (\<lambda>i t. t[i := RT2 g ! unat (FSb g ! i)]) [0..<n] (KT2 g), KT3 := fold (\<lambda>i t. t[i := RT3 g ! unat (FSb g ! i)]) [0..<n] (KT3 g)\<rparr>"
  by (induction n) (simp_all add: kt_step_def)

lemma RT_FSb: "i < 256 \<Longrightarrow> RT_fixed ! unat (FSb_fixed ! i) = rcol (of_nat i)"
proof -
  assume "i < 256"
  then have i: "unat (of_nat i :: byte) = i" by (simp add: unat_of_nat)
  have "RT_fixed ! unat (FSb_fixed ! unat (of_nat i :: byte)) = rcol (of_nat i)"
    by (simp add: S_octet FT_fixed_nth)
  then show ?thesis by (simp add: i)
qed

lemma kt_ready:
  assumes "aes_arrays g" "with_tables g = g"
  shows "aes_ready (fold kt_step [0..<256] g)"
proof -
  have "unat (FSb_fixed ! i) < 256" if "i < 256" for i using that FSb_fixed_octet unat_less_256 by blast
  then have eq: "map (\<lambda>i. map V RT_fixed ! unat (FSb_fixed ! i)) [0..<256] = map (\<lambda>i. V (rcol (of_nat i))) [0..<256]"
    for V :: "byte \<times> byte \<times> byte \<times> byte \<Rightarrow> u32"
    by (intro map_cong) (simp_all add: length_tabs RT_FSb)
  have "with_tables (g\<lparr>KT0 := a, KT1 := b, KT2 := c, KT3 := d\<rparr>) = g\<lparr>KT0 := a, KT1 := b, KT2 := c, KT3 := d\<rparr>" for a b c d
    by (subst (2) assms(2) [symmetric]) (simp add: with_tables_def)
  then show ?thesis using assms(1)
    by (simp add: kt_loop aes_ready_def fold_upd_fill with_tables_simps [OF assms(2)] eq aes_arrays_def)
qed

section \<open>States\<close>

definition map4 :: "(u32 \<Rightarrow> u32) \<Rightarrow> aes_state \<Rightarrow> aes_state" where
  "map4 f s = (case s of (a, b, c, d) \<Rightarrow> (f a, f b, f c, f d))"

definition add4 :: "aes_state \<Rightarrow> aes_state \<Rightarrow> aes_state" where
  "add4 k s = (case k of (p, q, r, t) \<Rightarrow> case s of (a, b, c, d) \<Rightarrow> (p XOR a, q XOR b, r XOR c, t XOR d))"

definition subw :: "(byte \<Rightarrow> byte) \<Rightarrow> u32 \<Rightarrow> u32 \<Rightarrow> u32 \<Rightarrow> u32 \<Rightarrow> u32" where
  "subw f A B C D = V_word (f (oct 24 A)) (f (oct 16 B)) (f (oct 8 C)) (f (oct 0 D))"

definition st_sub :: "aes_state \<Rightarrow> aes_state" where
  "st_sub s = (case s of (A, B, C, D) \<Rightarrow> (subw S A B C D, subw S B C D A, subw S C D A B, subw S D A B C))"

definition st_isub :: "aes_state \<Rightarrow> aes_state" where
  "st_isub s = (case s of (A, B, C, D) \<Rightarrow> (subw R A D C B, subw R B A D C, subw R C B A D, subw R D C B A))"

interpretation aes: spn st_sub st_isub "map4 (mixw fcol)" "map4 (mixw rcol)" add4
  by unfold_locales (simp_all add: st_sub_def st_isub_def map4_def add4_def subw_def unmix mixw_rcol_xor split: prod.splits)

definition rkey :: "u32 list \<Rightarrow> nat \<Rightarrow> aes_state" where
  "rkey rk i = (rk ! (4 * i), rk ! (4 * i + 1), rk ! (4 * i + 2), rk ! (4 * i + 3))"

lemmas aes_states = rkey_def add4_def map4_def st_sub_def st_isub_def subw_def

lemma AES_FROUND_eq: "with_tables g = g \<Longrightarrow> AES_FROUND g rk i s = aes.forward (rkey rk i) s"
  by (cases s) (simp add: AES_FROUND_def aes.forward_def aes_states aes_col_def tab_simps mixw_def Let_def)

lemma AES_RROUND_eq: "with_tables g = g \<Longrightarrow> AES_RROUND g rk i s = add4 (rkey rk i) (map4 (mixw rcol) (st_isub s))"
  by (cases s) (simp add: AES_RROUND_def aes_states aes_col_def tab_simps mixw_def Let_def)

lemma aes_last_eq:
  assumes "with_tables g = g"
  shows "aes_flast g rk i s = add4 (rkey rk i) (st_sub s)" "aes_rlast g rk i s = add4 (rkey rk i) (st_isub s)"
  by (cases s; simp add: aes_flast_def aes_rlast_def aes_states last_col_def tab_simps [OF assms] Let_def flip: V_word_shifts)+

definition words4 :: "byte list \<Rightarrow> aes_state" where
  "words4 b = (GET_UINT32_BE b 0, GET_UINT32_BE b 4, GET_UINT32_BE b 8, GET_UINT32_BE b 12)"

lemma aes_load_eq: "aes_load rk b = add4 (rkey rk 0) (words4 b)"
  by (simp add: aes_load_def add4_def rkey_def words4_def xor.commute numeral_2_eq_2)

lemma words4_store: "words4 (aes_store s) = s"
proof -
  have "GET_UINT32_BE (xs @ PUT_UINT32_BE x @ ys) (length xs) = x" for xs ys x
    using GET_PUT(1) [of x ys] by (simp add: GET_UINT32_BE_def nth_append PUT_UINT32_BE_def)
  from this [of "[]"] this [of "PUT_UINT32_BE (fst s)"] this [of "PUT_UINT32_BE (fst s) @ PUT_UINT32_BE (fst (snd s))"]
    this [of "PUT_UINT32_BE (fst s) @ PUT_UINT32_BE (fst (snd s)) @ PUT_UINT32_BE (fst (snd (snd s)))" _ "[]"]
  show ?thesis by (cases s) (simp add: words4_def aes_store_def)
qed

lemma store_words4: "length b = 16 \<Longrightarrow> aes_store (words4 b) = b"
  by (simp add: words4_def aes_store_def PUT_GET) (simp add: take_drop [symmetric] flip: take_add append_assoc)

lemma aes_rounds_eq: "n \<in> {10, 12, 14} \<Longrightarrow> aes_rounds f n s = (n, fold f [1..<n] s)"
  by (auto simp: aes_rounds_def upt_rec eval_nat_numeral)

section \<open>Round keys\<close>

lemma length_rk_copy [simp]: "length (rk_copy f rk r s sk) = length sk"
  by (simp add: rk_copy_def)

lemma rkey_rk_copy:
  "4 * i + 4 \<le> length sk \<Longrightarrow> rkey (rk_copy f rk r (4 * i) sk) i = (f (rk ! r), f (rk ! (r + 1)), f (rk ! (r + 2)), f (rk ! (r + 3)))"
  by (simp add: rkey_def rk_copy_def nth_list_update)

lemma rkey_rk_copy_other: "i \<noteq> j \<Longrightarrow> rkey (rk_copy f rk r (4 * j) sk) i = rkey sk i"
proof -
  assume "i \<noteq> j"
  then have "4 * i + a \<noteq> 4 * j + b" if "a < 4" "b < 4" for a b using that by arith
  from this [of 0 0] this [of 0 1] this [of 0 2] this [of 0 3] this [of 1 0] this [of 1 1] this [of 1 2] this [of 1 3]
    this [of 2 0] this [of 2 1] this [of 2 2] this [of 2 3] this [of 3 0] this [of 3 1] this [of 3 2] this [of 3 3]
  show ?thesis by (simp add: rkey_def rk_copy_def)
qed

lemma length_copy_loop [simp]: "length (fold (\<lambda>i. rk_copy f rk (r i) (s i)) is sk) = length sk"
  by (induction "is" arbitrary: sk) simp_all

lemma copy_loop_other:
  "i \<notin> set is \<Longrightarrow> rkey (fold (\<lambda>i. rk_copy f rk (r i) (4 * i)) is sk) i = rkey sk i"
  by (induction "is" arbitrary: sk) (simp_all add: rkey_rk_copy_other)

lemma copy_loop:
  "distinct is \<Longrightarrow> i \<in> set is \<Longrightarrow> 4 * i + 4 \<le> length sk \<Longrightarrow>
   rkey (fold (\<lambda>i. rk_copy f rk (r i) (4 * i)) is sk) i = (f (rk ! r i), f (rk ! (r i + 1)), f (rk ! (r i + 2)), f (rk ! (r i + 3)))"
proof (induction "is" arbitrary: sk)
  case (Cons a "is")
  show ?case
  proof (cases "i = a")
    case True
    then have "i \<notin> set is" using Cons.prems by auto
    then show ?thesis using True Cons.prems by (simp add: copy_loop_other rkey_rk_copy)
  next
    case False
    then show ?thesis using Cons by simp
  qed
qed simp

text \<open>The keys of the decryption are those of the encryption, in reverse and mixed.\<close>

definition drk_ok :: "aes_context \<Rightarrow> bool" where
  "drk_ok ctx \<longleftrightarrow> nr ctx \<in> {10, 12, 14} \<and> rkey (drk ctx) 0 = rkey (erk ctx) (nr ctx) \<and> rkey (drk ctx) (nr ctx) = rkey (erk ctx) 0 \<and>
     (\<forall>i. 0 < i \<and> i < nr ctx \<longrightarrow> rkey (drk ctx) i = map4 (mixw rcol) (rkey (erk ctx) (nr ctx - i)))"

lemma drk_schedule:
  assumes "n \<in> {10, 12, 14}" "aes_ready g" "length sk0 = 64"
    and "sk1 = rk_copy id rk (4 * n) 0 sk0"
    and "sk2 = fold (\<lambda>i. rk_copy (kt_word g) rk (4 * n - 4 * i) (4 * i)) [1..<n] sk1"
    and "sk3 = rk_copy id rk 0 (4 * n) sk2"
  shows "drk_ok \<lparr>erk = rk, drk = sk3, nr = n\<rparr>"
proof -
  have n: "0 < n" "4 * n + 4 \<le> 64" using assms(1) by auto
  have l: "length sk1 = 64" "length sk2 = 64" using assms by simp_all
  have "rkey sk3 0 = rkey sk1 0" using n by (simp add: assms(5,6) rkey_rk_copy_other copy_loop_other)
  then have 1: "rkey sk3 0 = rkey rk n"
    using rkey_rk_copy [of 0 sk0 id rk "4 * n"] assms(3,4) by (simp add: rkey_def)
  have 2: "rkey sk3 n = rkey rk 0"
    using rkey_rk_copy [of n sk2 id rk 0] n l by (simp add: assms(6)) (simp add: rkey_def)
  have 3: "rkey sk3 i = map4 (mixw rcol) (rkey rk (n - i))" if "0 < i" "i < n" for i
  proof -
    have "rkey sk3 i = rkey sk2 i" using that by (simp add: assms(6) rkey_rk_copy_other)
    also have "\<dots> = map4 (mixw rcol) (rkey rk (n - i))"
      using that n l unfolding assms(5) by (subst copy_loop) (simp_all add: kt_word_ready [OF assms(2)] map4_def rkey_def diff_mult_distrib2)
    finally show ?thesis .
  qed
  show ?thesis using assms(1) 1 2 3 by (simp add: drk_ok_def)
qed

section \<open>Setting a key\<close>

text \<open>The globals after any first call.\<close>

definition aes_const :: aes_globals where
  "aes_const = (with_tables zero_globals)\<lparr>do_init := False, KT_init := False,
     KT0 := map (\<lambda>i. V0 (rcol (of_nat i))) [0..<256], KT1 := map (\<lambda>i. V1 (rcol (of_nat i))) [0..<256],
     KT2 := map (\<lambda>i. V2 (rcol (of_nat i))) [0..<256], KT3 := map (\<lambda>i. V3 (rcol (of_nat i))) [0..<256]\<rparr>"

lemma aes_ready_const: "aes_ready g \<Longrightarrow> g\<lparr>do_init := False, KT_init := False\<rparr> = aes_const"
  by (cases g) (auto simp: aes_ready_def aes_const_def with_tables_def zero_globals_def)

lemma aes_const_ready: "with_tables aes_const = aes_const" "aes_ready aes_const" "aes_inv aes_const"
proof -
  show w: "with_tables aes_const = aes_const" by (simp add: aes_const_def with_tables_def)
  then show r: "aes_ready aes_const" by (simp add: aes_ready_def) (simp add: aes_const_def)
  have "aes_arrays aes_const" by (simp add: aes_arrays_def aes_const_def with_tables_def length_tabs RCON_fixed_def)
  then show "aes_inv aes_const" using w r by (simp add: aes_inv_def) (simp add: aes_const_def)
qed

lemma with_tables_idem: "with_tables (with_tables g) = with_tables g" "with_tables (g\<lparr>do_init := b\<rparr>) = (with_tables g)\<lparr>do_init := b\<rparr>"
  by (simp_all add: with_tables_def)

lemma flags_down: "\<not> do_init h \<Longrightarrow> h\<lparr>KT_init := False\<rparr> = h\<lparr>do_init := False, KT_init := False\<rparr>"
  "\<not> do_init h \<Longrightarrow> \<not> KT_init h \<Longrightarrow> h = h\<lparr>do_init := False, KT_init := False\<rparr>"
  by (cases h, simp)+

text \<open>The two initialisations of a call.\<close>

definition aes_init1 :: "aes_globals \<Rightarrow> aes_globals" where
  "aes_init1 g = (if do_init g then (aes_gen_tables g)\<lparr>do_init := False\<rparr> else g)"

definition aes_init2 :: "aes_globals \<Rightarrow> aes_globals" where
  "aes_init2 g = (if KT_init g then (fold kt_step [0..<256] g)\<lparr>KT_init := False\<rparr> else g)"

lemma aes_init:
  assumes "aes_inv g"
  shows "with_tables (aes_init1 g) = aes_init1 g" "aes_init2 (aes_init1 g) = aes_const"
proof -
  have 1: "with_tables (aes_init1 g) = aes_init1 g \<and> aes_arrays (aes_init1 g) \<and> \<not> do_init (aes_init1 g)"
  proof (cases "do_init g")
    case True
    then have "aes_init1 g = (with_tables g)\<lparr>do_init := False\<rparr>"
      using assms gen_tables_eq [of g] by (simp add: aes_init1_def aes_inv_def)
    then show ?thesis using assms
      by (simp add: with_tables_idem) (simp add: aes_inv_def aes_arrays_def with_tables_def length_tabs RCON_fixed_def)
  qed (use assms in \<open>auto simp: aes_init1_def aes_inv_def\<close>)
  then show "with_tables (aes_init1 g) = aes_init1 g" by blast
  show "aes_init2 (aes_init1 g) = aes_const"
  proof (cases "KT_init (aes_init1 g)")
    case True
    have "do_init (fold kt_step [0..<256] (aes_init1 g)) = do_init (aes_init1 g)" using 1 by (simp add: kt_loop)
    then have "aes_init2 (aes_init1 g) = (fold kt_step [0..<256] (aes_init1 g))\<lparr>do_init := False, KT_init := False\<rparr>"
      using True 1 flags_down(1) [of "fold kt_step [0..<256] (aes_init1 g)"] by (simp add: aes_init2_def)
    then show ?thesis using aes_ready_const [OF kt_ready, of "aes_init1 g"] 1 by simp
  next
    case False
    then have "\<not> do_init g" "aes_ready g" "\<not> KT_init g" "aes_init1 g = g"
      using assms by (auto simp: aes_init1_def aes_inv_def with_tables_def gen_tables_eq split: if_splits)
    then show ?thesis using aes_ready_const [of g] flags_down(2) [of g] by (simp add: aes_init2_def)
  qed
qed

lemma length_rk_xor [simp]: "length (rk_xor p t rk) = length rk"
  by (simp add: rk_xor_def split: prod.split)

lemma key_load_run:
  "n \<le> length rk \<Longrightarrow> 4 * n \<le> length key \<Longrightarrow> i \<le> n \<Longrightarrow> \<exists>rk'. key_load key n i rk = Some rk' \<and> length rk' = length rk"
proof (induction "n - i" arbitrary: i rk)
  case 0
  then show ?case by (subst key_load.simps) simp
next
  case (Suc m)
  then show ?case using Suc.hyps(1) [of "Suc i" "rk[i := GET_UINT32_BE key (i * 4)]"]
    by (subst key_load.simps) (simp add: buf_wr_in)
qed

text \<open>The key sizes the code can handle: at most 64 words, all of them there.\<close>

definition key_ok :: "byte list \<Rightarrow> u32 \<Rightarrow> bool" where
  "key_ok key keysize \<longleftrightarrow> (let n = unat (drop_bit 5 keysize) in n \<le> 64 \<and> 4 * n \<le> length key)"

lemma aes_set_key_run:
  assumes "aes_inv g" "key_ok key keysize"
  shows "\<exists>ctx. aes_set_key g aes_zero_context key keysize = Some (aes_const, ctx) \<and> drk_ok ctx"
proof -
  let ?n = "if keysize = 256 then 14 else if keysize = 192 then 12 else (10 :: nat)"
  let ?g = "aes_init1 g"
  obtain rk where rk: "key_load key (unat (drop_bit 5 keysize)) 0 (replicate 64 0) = Some rk" "length rk = 64"
    using key_load_run [of _ "replicate 64 0" key 0] assms(2) by (auto simp: key_ok_def Let_def)
  define rk' where "rk' = (if ?n = 10 then fold (ks10_step ?g) [0..<10] rk
      else if ?n = 12 then fold (ks12_step ?g) [0..<8] rk else fold (ks14_step ?g) [0..<7] rk)"
  define sk1 where "sk1 = rk_copy id rk' (4 * ?n) 0 (replicate 64 0)"
  define sk2 where "sk2 = fold (\<lambda>i. rk_copy (kt_word aes_const) rk' (4 * ?n - 4 * i) (4 * i)) [1..<?n] sk1"
  define sk3 where "sk3 = rk_copy id rk' 0 (4 * ?n) sk2"
  have "drk_ok \<lparr>erk = rk', drk = sk3, nr = ?n\<rparr>"
    by (rule drk_schedule [OF _ aes_const_ready(2) _ sk1_def sk2_def sk3_def]) simp_all
  moreover have "aes_set_key g aes_zero_context key keysize = Some (aes_const, \<lparr>erk = rk', drk = sk3, nr = ?n\<rparr>)"
    unfolding aes_set_key_def aes_init1_def [symmetric] aes_init2_def [symmetric]
    using rk(1) by (simp add: aes_init(2) [OF assms(1)] aes_zero_context_def rk'_def sk1_def sk2_def sk3_def Let_def)
  ultimately show ?thesis by blast
qed

text \<open>The context depends on the key alone, not on what was called before.\<close>

lemma aes_set_key_pure:
  assumes "aes_inv g"
  shows "aes_set_key g ctx key keysize = aes_set_key aes_const ctx key keysize"
proof -
  have step: "ks10_step (aes_init1 g) = ks10_step aes_const" "ks12_step (aes_init1 g) = ks12_step aes_const"
    "ks14_step (aes_init1 g) = ks14_step aes_const"
  proof -
    have "FSb (aes_init1 g) = FSb aes_const" "RCON (aes_init1 g) = RCON aes_const"
      using with_tables_simps [OF aes_init(1) [OF assms]] with_tables_simps [OF aes_const_ready(1)] by simp_all
    then show "ks10_step (aes_init1 g) = ks10_step aes_const" "ks12_step (aes_init1 g) = ks12_step aes_const"
      "ks14_step (aes_init1 g) = ks14_step aes_const"
      by (simp_all add: fun_eq_iff ks10_step_def ks12_step_def ks14_step_def rot_sub_def sub_word_def)
  qed
  have c: "aes_init1 aes_const = aes_const" "aes_init2 aes_const = aes_const"
    by (simp_all add: aes_init1_def aes_init2_def) (simp_all add: aes_const_def)
  show ?thesis
    unfolding aes_set_key_def aes_init1_def [symmetric] aes_init2_def [symmetric] by (simp add: step c aes_init(2) [OF assms])
qed

section \<open>Blocks\<close>

lemma rev_minus: "map (\<lambda>i. n - i) [1..<n] = rev [1..<n]"
  by (rule nth_equalityI) (auto simp: rev_nth)

lemma aes_encrypt_eq:
  assumes "with_tables g = g" "nr ctx \<in> {10, 12, 14}"
  shows "aes_encrypt g ctx b = aes_store (aes.encipher (rkey (erk ctx) 0) (map (rkey (erk ctx)) [1..<nr ctx]) (rkey (erk ctx) (nr ctx)) (words4 b))"
proof -
  have "AES_FROUND g (erk ctx) = (\<lambda>i. aes.forward (rkey (erk ctx) i))" using AES_FROUND_eq [OF assms(1)] by blast
  then show ?thesis
    by (simp add: aes_encrypt_def aes_rounds_eq [OF assms(2)] aes_last_eq [OF assms(1)] aes_load_eq aes.encipher_def fold_map comp_def Let_def)
qed

lemma aes_decrypt_eq:
  assumes "with_tables g = g" "drk_ok ctx"
  shows "aes_decrypt g ctx b = aes_store (aes.decipher (rkey (erk ctx) 0) (map (rkey (erk ctx)) [1..<nr ctx]) (rkey (erk ctx) (nr ctx)) (words4 b))"
proof -
  let ?n = "nr ctx"
  have n: "?n \<in> {10, 12, 14}" using assms(2) by (simp add: drk_ok_def)
  have "fold (AES_RROUND g (drk ctx)) [1..<?n] s = fold (\<lambda>i. aes.backward (rkey (erk ctx) (?n - i))) [1..<?n] s" for s
    using assms(2) by (intro fold_cong) (auto simp: AES_RROUND_eq [OF assms(1)] aes.backward_def drk_ok_def fun_eq_iff)
  also have "fold (\<lambda>i. aes.backward (rkey (erk ctx) (?n - i))) [1..<?n] s = fold aes.backward (map (rkey (erk ctx)) (map (\<lambda>i. ?n - i) [1..<?n])) s" for s
    by (simp add: fold_map comp_def)
  finally have "fold (AES_RROUND g (drk ctx)) [1..<?n] s = fold aes.backward (rev (map (rkey (erk ctx)) [1..<?n])) s" for s
    by (simp only: rev_minus rev_map)
  then show ?thesis using assms(2)
    by (simp add: aes_decrypt_def aes_rounds_eq [OF n] aes_last_eq [OF assms(1)] aes_load_eq aes.decipher_def drk_ok_def Let_def)
qed

lemma length_aes_store [simp]: "length (aes_store s) = 16"
  by (cases s) (simp add: aes_store_def)

lemma aes_block_undo:
  assumes "with_tables g = g" "drk_ok ctx" "length b = 16"
  shows "aes_decrypt g ctx (aes_encrypt g ctx b) = b"
proof -
  have "nr ctx \<in> {10, 12, 14}" using assms(2) by (simp add: drk_ok_def)
  then show ?thesis using assms by (simp add: aes_encrypt_eq aes_decrypt_eq words4_store aes.deciphered store_words4)
qed

end
