(* ===== verification/AesBuf.thy ===== *)
theory AesBuf
  imports AesProps
begin

text \<open>
  The AES buffer functions on a memory: round trips with input and output apart and in place, the extra pass over the first
  block, and the published example.
\<close>

section \<open>Blocks of a memory\<close>

definition blk :: "byte list \<Rightarrow> nat \<Rightarrow> byte list" where
  "blk mem p = take 16 (drop p mem)"

lemma length_blk: "p + 16 \<le> length mem \<Longrightarrow> length (blk mem p) = 16"
  by (simp add: blk_def)

lemma blk_put_same: "p + 16 \<le> length mem \<Longrightarrow> length x = 16 \<Longrightarrow> blk (buf_put mem p x) p = x"
  by (simp add: blk_def buf_put_def)

lemma blk_put_other:
  assumes "p + 16 \<le> length mem" "length x = 16" "q + 16 \<le> p \<or> p + 16 \<le> q" "q + 16 \<le> length mem"
  shows "blk (buf_put mem p x) q = blk mem q"
  using assms by (intro nth_equalityI) (auto simp: blk_def nth_buf_put)

text \<open>Either the two areas of \<open>n\<close> blocks are one, or they do not overlap.\<close>

definition areas_ok :: "byte list \<Rightarrow> nat \<Rightarrow> nat \<Rightarrow> nat \<Rightarrow> bool" where
  "areas_ok mem inp out n \<longleftrightarrow> inp + 16 * n \<le> length mem \<and> out + 16 * n \<le> length mem \<and>
     (inp = out \<or> inp + 16 * n \<le> out \<or> out + 16 * n \<le> inp)"

lemma mem_blocks_run:
  assumes "areas_ok mem inp out n" "\<And>b. length (f b) = 16" "i \<le> n"
  shows "\<exists>mem'. mem_blocks f inp out n i mem = Some mem' \<and> length mem' = length mem \<and>
    (\<forall>j. i \<le> j \<and> j < n \<longrightarrow> blk mem' (out + j * 16) = f (blk mem (inp + j * 16))) \<and>
    (\<forall>k < length mem. k < out + i * 16 \<or> out + n * 16 \<le> k \<longrightarrow> mem' ! k = mem ! k)"
  using assms(1,3)
proof (induction "n - i" arbitrary: i mem)
  case 0
  then show ?case by (subst mem_blocks.simps) auto
next
  case (Suc m)
  then have i: "i < n" by simp
  let ?m = "buf_put mem (out + i * 16) (f (blk mem (inp + i * 16)))"
  have fit: "inp + i * 16 + 16 \<le> length mem" "out + i * 16 + 16 \<le> length mem"
    using Suc.prems i by (auto simp: areas_ok_def)
  then have len: "length ?m = length mem" by (simp add: assms(2))
  obtain mem' where m': "mem_blocks f inp out n (Suc i) ?m = Some mem'" "length mem' = length mem"
    "\<forall>j. Suc i \<le> j \<and> j < n \<longrightarrow> blk mem' (out + j * 16) = f (blk ?m (inp + j * 16))"
    "\<forall>k < length mem. k < out + Suc i * 16 \<or> out + n * 16 \<le> k \<longrightarrow> mem' ! k = ?m ! k"
  proof -
    have "n - Suc i = m" "areas_ok ?m inp out n" using Suc.hyps(2) Suc.prems len by (simp_all add: areas_ok_def)
    then show thesis using Suc.hyps(1) [of "Suc i" ?m] i len that by auto
  qed
  have "mem_blocks f inp out n i mem = Some mem'"
    using m'(1) fit i by (subst mem_blocks.simps) (simp add: mem_block_def blk_def)
  moreover have "blk mem' (out + j * 16) = f (blk mem (inp + j * 16))" if "i \<le> j" "j < n" for j
  proof (cases "j = i")
    case True
    have "blk mem' (out + i * 16) = blk ?m (out + i * 16)"
      using fit m'(2,4) len by (intro nth_equalityI) (auto simp: blk_def)
    then show ?thesis using True fit by (simp add: blk_put_same assms(2))
  next
    case False
    then have "Suc i \<le> j" using that by simp
    then have "i * 16 + 16 \<le> j * 16" "j * 16 + 16 \<le> 16 * n" "i * 16 + 16 \<le> 16 * n" using that i by auto
    then have "blk ?m (inp + j * 16) = blk mem (inp + j * 16)"
      using Suc.prems(1) fit by (intro blk_put_other) (auto simp: areas_ok_def assms(2))
    then show ?thesis using m'(3) \<open>Suc i \<le> j\<close> that by simp
  qed
  moreover have "mem' ! k = mem ! k" if "k < length mem" "k < out + i * 16 \<or> out + n * 16 \<le> k" for k
    using m'(4) that fit i by (auto simp: nth_buf_put assms(2))
  ultimately show ?case using m'(2) by blast
qed

lemma mem_blocks_done [simp]: "mem_blocks f inp out n n = Some"
  by (simp add: fun_eq_iff mem_blocks.simps)

lemma mem_blocks_snoc:
  "i \<le> n \<Longrightarrow> mem_blocks f inp out (Suc n) i mem = do { mem \<leftarrow> mem_blocks f inp out n i mem; mem_block f (inp + n * 16) (out + n * 16) mem }"
proof (induction "n - i" arbitrary: i mem)
  case 0
  then show ?case by (subst (1) mem_blocks.simps) simp
next
  case (Suc m)
  then have "i < n" "m = n - Suc i" by simp_all
  then show ?case using Suc.hyps(1) [of "Suc i"]
    by (subst (1 2) mem_blocks.simps) (cases "mem_block f (inp + i * 16) (out + i * 16) mem"; simp)
qed

text \<open>The number of blocks that are started.\<close>

definition nblk :: "int \<Rightarrow> nat" where
  "nblk inlen = nat ((inlen + 15) div 16)"

lemma aes_buffer_eq: "aes_buffer f out inp inlen mem = do { mem \<leftarrow> mem_blocks f inp out (nblk inlen) 0 mem; mem_block f inp out mem }"
proof -
  have d: "(inlen + 15) div 16 = inlen div 16 + (inlen mod 16 + 15) div 16"
    using div_add1_eq [of inlen 15 16] by simp
  show ?thesis
  proof (cases "inlen > 0 \<and> inlen mod 16 > 0")
    case True
    have "(m + 15) div 16 = 1" if "0 < m" "m < 16" for m :: int using that by presburger
    then have "nblk inlen = Suc (nat (inlen div 16))" using True d by (simp add: nblk_def nat_add_distrib pos_imp_zdiv_nonneg_iff)
    then show ?thesis using True by (simp add: aes_buffer_def mem_blocks_snoc Let_def)
  next
    case False
    have "nat ((inlen + 15) div 16) = nat (inlen div 16)"
    proof (cases "inlen > 0")
      case True
      then have "inlen mod 16 = 0" using False pos_mod_sign [of 16 inlen] by simp
      then show ?thesis using d by simp
    next
      case False
      then have "(inlen + 15) div 16 \<le> 0" "inlen div 16 \<le> 0" by linarith+
      then show ?thesis by simp
    qed
    then show ?thesis using False by (auto simp: aes_buffer_def nblk_def Let_def)
  qed
qed

section \<open>The buffer functions\<close>

text \<open>Input and output apart: every started block is enciphered once; the first one is enciphered again, to the same.\<close>

definition apart :: "byte list \<Rightarrow> nat \<Rightarrow> nat \<Rightarrow> int \<Rightarrow> bool" where
  "apart mem a b inlen \<longleftrightarrow> (let n = 16 * max 1 (nblk inlen) in
     a + n \<le> length mem \<and> b + n \<le> length mem \<and> (a + n \<le> b \<or> b + n \<le> a))"

lemma aes_buffer_apart:
  assumes "apart mem inp out inlen" "\<And>b. length (f b) = 16"
  shows "\<exists>mem'. aes_buffer f out inp inlen mem = Some mem' \<and> length mem' = length mem \<and>
    (\<forall>j < max 1 (nblk inlen). blk mem' (out + j * 16) = f (blk mem (inp + j * 16))) \<and>
    (\<forall>k < length mem. k < out \<or> out + 16 * max 1 (nblk inlen) \<le> k \<longrightarrow> mem' ! k = mem ! k)"
proof -
  let ?n = "nblk inlen"
  have fit: "inp + 16 \<le> length mem" "out + 16 \<le> length mem" "inp + 16 \<le> out \<or> out + 16 \<le> inp"
    using assms(1) by (auto simp: apart_def Let_def)
  have "areas_ok mem inp out ?n" using assms(1) by (auto simp: apart_def areas_ok_def Let_def)
  from mem_blocks_run [where f = f and i = 0, OF this assms(2)]
  obtain m1 where m1: "mem_blocks f inp out ?n 0 mem = Some m1" "length m1 = length mem"
    "\<And>j. j < ?n \<Longrightarrow> blk m1 (out + j * 16) = f (blk mem (inp + j * 16))"
    "\<And>k. k < length mem \<Longrightarrow> k < out \<or> out + ?n * 16 \<le> k \<Longrightarrow> m1 ! k = mem ! k" by auto
  have "inp + i < out \<or> out + ?n * 16 \<le> inp + i" if "i < 16" for i
    using assms(1) that by (cases "?n \<le> 1") (auto simp: apart_def Let_def max_def)
  then have in0: "blk m1 inp = blk mem inp"
    using m1(2,4) fit(1) by (intro nth_equalityI) (simp_all add: blk_def)
  let ?m = "buf_put m1 out (f (blk mem inp))"
  have "aes_buffer f out inp inlen mem = Some ?m"
    using m1(1,2) fit in0 by (simp add: aes_buffer_eq mem_block_def flip: blk_def)
  moreover have "blk ?m (out + j * 16) = f (blk mem (inp + j * 16))" if "j < max 1 ?n" for j
  proof (cases j)
    case 0
    then show ?thesis using fit m1(2) by (simp add: blk_put_same assms(2))
  next
    case (Suc i)
    then have "j < ?n" "16 \<le> j * 16" using that by auto
    moreover have "out + j * 16 + 16 \<le> length mem" using assms(1) \<open>j < ?n\<close> by (auto simp: apart_def Let_def)
    ultimately show ?thesis using m1(2,3) fit by (simp add: blk_put_other assms(2))
  qed
  moreover have "?m ! k = mem ! k" if "k < length mem" "k < out \<or> out + 16 * max 1 ?n \<le> k" for k
    using m1(2,4) that fit by (auto simp: nth_buf_put assms(2))
  ultimately show ?thesis using m1(2) fit by (simp add: assms(2))
qed

lemma blk_eqD: "blk m p = blk m' q \<Longrightarrow> p + 16 \<le> length m \<Longrightarrow> q + 16 \<le> length m' \<Longrightarrow> i < 16 \<Longrightarrow> m ! (p + i) = m' ! (q + i)"
  by (drule arg_cong [of _ _ "\<lambda>x. x ! i"]) (simp add: blk_def)

text \<open>
  C9. AES round trip. Whatever has been called before, encrypting an area of memory into another one and decrypting
  that into a third, or back over the first, restores the octets, for every key size the code accepts and every length: lengths that
  are not multiples of sixteen work on whole blocks. Nothing outside the areas of whole blocks changes.
\<close>

theorem lib_aes_roundtrip:
  assumes "aes_inv g" "key_ok key keysize" "apart mem a b inlen" "apart mem b c inlen"
  shows "\<exists>g1 m1 g2 m2. lib_aes_encrypt g b a inlen key keysize mem = Some (g1, m1) \<and> lib_aes_decrypt g1 c b inlen key keysize m1 = Some (g2, m2) \<and>
    aes_inv g2 \<and> length m2 = length mem \<and>
    (\<forall>j < max 1 (nblk inlen). blk m2 (c + j * 16) = blk mem (a + j * 16)) \<and>
    (\<forall>k < length mem. (k < b \<or> b + 16 * max 1 (nblk inlen) \<le> k) \<and> (k < c \<or> c + 16 * max 1 (nblk inlen) \<le> k) \<longrightarrow> m2 ! k = mem ! k)"
proof -
  obtain ctx where ctx: "aes_set_key g aes_zero_context key keysize = Some (aes_const, ctx)" "drk_ok ctx"
    using aes_set_key_run [OF assms(1,2)] by blast
  then have ctx': "aes_set_key aes_const aes_zero_context key keysize = Some (aes_const, ctx)"
    using aes_set_key_pure [OF assms(1)] by metis
  let ?e = "aes_encrypt aes_const ctx" and ?d = "aes_decrypt aes_const ctx"
  have n: "nr ctx \<in> {10, 12, 14}" using ctx(2) by (simp add: drk_ok_def)
  have len: "length (?e x) = 16" "length (?d x) = 16" for x
    using n ctx(2) by (simp_all add: aes_encrypt_eq aes_decrypt_eq aes_const_ready(1))
  obtain m1 where m1: "aes_buffer ?e b a inlen mem = Some m1" "length m1 = length mem"
    "\<And>j. j < max 1 (nblk inlen) \<Longrightarrow> blk m1 (b + j * 16) = ?e (blk mem (a + j * 16))"
    "\<And>k. k < length mem \<Longrightarrow> k < b \<or> b + 16 * max 1 (nblk inlen) \<le> k \<Longrightarrow> m1 ! k = mem ! k"
    using aes_buffer_apart [where f = ?e, OF assms(3) len(1)] by blast
  have "apart m1 b c inlen" using assms(4) m1(2) by (simp add: apart_def)
  then obtain m2 where m2: "aes_buffer ?d c b inlen m1 = Some m2" "length m2 = length mem"
    "\<And>j. j < max 1 (nblk inlen) \<Longrightarrow> blk m2 (c + j * 16) = ?d (blk m1 (b + j * 16))"
    "\<And>k. k < length mem \<Longrightarrow> k < c \<or> c + 16 * max 1 (nblk inlen) \<le> k \<Longrightarrow> m2 ! k = m1 ! k"
    using aes_buffer_apart [where f = ?d, OF _ len(2)] m1(2) by metis
  have "blk m2 (c + j * 16) = blk mem (a + j * 16)" if j: "j < max 1 (nblk inlen)" for j
  proof -
    have "a + j * 16 + 16 \<le> a + 16 * max 1 (nblk inlen)" using j by linarith
    then have "length (blk mem (a + j * 16)) = 16" using assms(3) by (intro length_blk) (simp add: apart_def Let_def)
    then show ?thesis using m1(3) m2(3) j aes_block_undo [OF aes_const_ready(1) ctx(2)] by simp
  qed
  then show ?thesis using ctx(1) ctx' m1 m2 aes_const_ready(3) by (simp add: lib_aes_encrypt_def lib_aes_decrypt_def)
qed

lemma zero_globals_inv: "aes_inv zero_globals"
  using zero_globals_arrays by (simp add: aes_inv_def) (simp add: zero_globals_def)

theorem lib_aes_roundtrip_witness:
  "\<exists>g1 m1 g2 m2. lib_aes_encrypt zero_globals 16 0 5 (replicate 16 1) 128 (replicate 48 7) = Some (g1, m1) \<and>
    lib_aes_decrypt g1 32 16 5 (replicate 16 1) 128 m1 = Some (g2, m2) \<and> blk m2 32 = replicate 16 7"
proof -
  have n: "nblk 5 = 1" by (simp add: nblk_def)
  have "key_ok (replicate 16 1) 128" by (simp add: key_ok_def)
  moreover have "apart (replicate 48 7) 0 16 5" "apart (replicate 48 7) 16 32 5" by (simp_all add: apart_def n)
  ultimately show ?thesis using lib_aes_roundtrip [OF zero_globals_inv, of "replicate 16 1" 128 "replicate 48 7" 0 16 5 32]
    by (fastforce simp: n blk_def)
qed

text \<open>
  C29. The initialisation of the tables at the first call is invisible: with whatever calls before, a call computes what it would have
  computed as the first one, and leaves the globals in the same state.
\<close>

theorem aes_history_invisible:
  assumes "aes_inv g"
  shows "lib_aes_encrypt g out inp inlen key keysize mem = lib_aes_encrypt zero_globals out inp inlen key keysize mem \<and>
    lib_aes_decrypt g out inp inlen key keysize mem = lib_aes_decrypt zero_globals out inp inlen key keysize mem \<and>
    (\<forall>g' mem'. lib_aes_encrypt g out inp inlen key keysize mem = Some (g', mem') \<longrightarrow> aes_inv g') \<and>
    (\<forall>g' mem'. lib_aes_decrypt g out inp inlen key keysize mem = Some (g', mem') \<longrightarrow> aes_inv g')"
proof -
  have k: "aes_set_key g aes_zero_context key keysize = aes_set_key zero_globals aes_zero_context key keysize"
    using aes_set_key_pure [OF assms] aes_set_key_pure [OF zero_globals_inv] by simp
  have "g' = aes_const" if "aes_set_key g aes_zero_context key keysize = Some (g', ctx)" for g' ctx
    using that aes_init(2) [OF assms]
    unfolding aes_set_key_def aes_init1_def [symmetric] aes_init2_def [symmetric] Let_def
    by (auto split: Option.bind_splits prod.splits)
  then show ?thesis
    by (auto simp: lib_aes_encrypt_def lib_aes_decrypt_def k aes_const_ready(3) split: Option.bind_splits)
qed

theorem aes_history_invisible_witness:
  "lib_aes_encrypt aes_const 0 0 16 (replicate 16 1) 128 (replicate 16 7) = lib_aes_encrypt zero_globals 0 0 16 (replicate 16 1) 128 (replicate 16 7)"
  using aes_history_invisible [OF aes_const_ready(3)] by blast

section \<open>In place\<close>

lemma aes_buffer_in_place:
  assumes "p + 16 * n \<le> length mem" "n = nblk inlen" "0 < n" "\<And>b. length (f b) = 16"
  shows "\<exists>mem'. aes_buffer f p p inlen mem = Some mem' \<and> length mem' = length mem \<and> blk mem' p = f (f (blk mem p)) \<and>
    (\<forall>j. 0 < j \<and> j < n \<longrightarrow> blk mem' (p + j * 16) = f (blk mem (p + j * 16))) \<and>
    (\<forall>k < length mem. k < p \<or> p + 16 * n \<le> k \<longrightarrow> mem' ! k = mem ! k)"
proof -
  have "areas_ok mem p p n" using assms(1) by (simp add: areas_ok_def)
  from mem_blocks_run [where f = f and i = 0, OF this assms(4)]
  obtain m1 where m1: "mem_blocks f p p n 0 mem = Some m1" "length m1 = length mem"
    "\<And>j. j < n \<Longrightarrow> blk m1 (p + j * 16) = f (blk mem (p + j * 16))"
    "\<And>k. k < length mem \<Longrightarrow> k < p \<or> p + n * 16 \<le> k \<Longrightarrow> m1 ! k = mem ! k" by auto
  have fit: "p + 16 \<le> length mem" using assms(1,3) by linarith
  let ?m = "buf_put m1 p (f (blk m1 p))"
  have "aes_buffer f p p inlen mem = Some ?m"
    using m1(1,2) fit by (simp add: aes_buffer_eq mem_block_def assms(2) flip: blk_def)
  moreover have "blk ?m p = f (f (blk mem p))" using m1(3) [OF assms(3)] m1(2) fit by (simp add: blk_put_same assms(4))
  moreover have "blk ?m (p + j * 16) = f (blk mem (p + j * 16))" if "0 < j" "j < n" for j
  proof -
    have "p + j * 16 + 16 \<le> length m1" using assms(1) that m1(2) by linarith
    then show ?thesis using m1(2,3) fit that by (simp add: blk_put_other assms(4))
  qed
  moreover have "?m ! k = mem ! k" if "k < length mem" "k < p \<or> p + 16 * n \<le> k" for k
    using m1(2,4) that fit assms(3) by (auto simp: nth_buf_put assms(4))
  ultimately show ?thesis using m1(2) fit by (simp add: assms(4))
qed

lemma mem_eq_blocks:
  assumes "length m = length m'" "p + 16 * n \<le> length m'" "\<And>j. j < n \<Longrightarrow> blk m (p + j * 16) = blk m' (p + j * 16)"
    and "\<And>k. k < length m' \<Longrightarrow> k < p \<or> p + 16 * n \<le> k \<Longrightarrow> m ! k = m' ! k"
  shows "m = m'"
proof (rule nth_equalityI)
  fix k
  assume "k < length m"
  show "m ! k = m' ! k"
  proof (cases "k < p \<or> p + 16 * n \<le> k")
    case False
    define j i where "j = (k - p) div 16" and "i = (k - p) mod 16"
    have "k = p + j * 16 + i" "i < 16" "j < n" using False by (auto simp: j_def i_def less_mult_imp_div_less)
    moreover from this have "p + j * 16 + 16 \<le> length m'" using assms(2) by linarith
    ultimately show ?thesis using blk_eqD [OF assms(3) [of j], of i] assms(1) by simp
  qed (use assms \<open>k < length m\<close> in auto)
qed (rule assms(1))

text \<open>
  In place, the first block is enciphered twice, because the buffer functions end with one more pass over it; the others once. Decrypting
  in place deciphers it twice and restores the memory, but the first block is not AES.
\<close>

theorem lib_aes_in_place:
  assumes "aes_inv g" "key_ok key keysize" "0 < inlen" "p + 16 * nblk inlen \<le> length mem"
  shows "\<exists>g1 ctx m1. aes_set_key g aes_zero_context key keysize = Some (g1, ctx) \<and> lib_aes_encrypt g p p inlen key keysize mem = Some (g1, m1) \<and>
    blk m1 p = aes_encrypt g1 ctx (aes_encrypt g1 ctx (blk mem p)) \<and>
    (\<forall>j. 0 < j \<and> j < nblk inlen \<longrightarrow> blk m1 (p + j * 16) = aes_encrypt g1 ctx (blk mem (p + j * 16))) \<and>
    lib_aes_decrypt g1 p p inlen key keysize m1 = Some (g1, mem)"
proof -
  obtain ctx where ctx: "aes_set_key g aes_zero_context key keysize = Some (aes_const, ctx)" "drk_ok ctx"
    using aes_set_key_run [OF assms(1,2)] by blast
  then have ctx': "aes_set_key aes_const aes_zero_context key keysize = Some (aes_const, ctx)"
    using aes_set_key_pure [OF assms(1)] by metis
  let ?e = "aes_encrypt aes_const ctx" and ?d = "aes_decrypt aes_const ctx" and ?n = "nblk inlen"
  have len: "length (?e x) = 16" "length (?d x) = 16" for x
    using ctx(2) by (simp_all add: aes_encrypt_eq aes_decrypt_eq aes_const_ready(1) drk_ok_def)
  have n: "0 < ?n" using assms(3) by (simp add: nblk_def pos_imp_zdiv_pos_iff)
  obtain m1 where m1: "aes_buffer ?e p p inlen mem = Some m1" "length m1 = length mem" "blk m1 p = ?e (?e (blk mem p))"
    "\<And>j. 0 < j \<Longrightarrow> j < ?n \<Longrightarrow> blk m1 (p + j * 16) = ?e (blk mem (p + j * 16))"
    "\<And>k. k < length mem \<Longrightarrow> k < p \<or> p + 16 * ?n \<le> k \<Longrightarrow> m1 ! k = mem ! k"
    using aes_buffer_in_place [where f = ?e, OF assms(4) refl n len(1)] by blast
  have "p + 16 * ?n \<le> length m1" using m1(2) assms(4) by simp
  from aes_buffer_in_place [where f = ?d, OF this refl n len(2)]
  obtain m2 where m2: "aes_buffer ?d p p inlen m1 = Some m2" "length m2 = length m1" "blk m2 p = ?d (?d (blk m1 p))"
    "\<And>j. 0 < j \<Longrightarrow> j < ?n \<Longrightarrow> blk m2 (p + j * 16) = ?d (blk m1 (p + j * 16))"
    "\<And>k. k < length m1 \<Longrightarrow> k < p \<or> p + 16 * ?n \<le> k \<Longrightarrow> m2 ! k = m1 ! k" by blast
  have "m2 = mem"
  proof (rule mem_eq_blocks)
    fix j
    assume j: "j < ?n"
    then have "p + j * 16 + 16 \<le> length mem" using assms(4) by linarith
    then have "length (blk mem (p + j * 16)) = 16" by (rule length_blk)
    then show "blk m2 (p + j * 16) = blk mem (p + j * 16)"
      using m1(3,4) m2(3,4) j aes_block_undo [OF aes_const_ready(1) ctx(2)] len by (cases "j = 0") simp_all
  qed (use m1 m2 assms(4) in auto)
  then show ?thesis using ctx(1) ctx' m1(1,3,4) m2(1) by (simp add: lib_aes_encrypt_def lib_aes_decrypt_def)
qed

theorem lib_aes_in_place_witness:
  "\<exists>g1 ctx m1. aes_set_key zero_globals aes_zero_context (replicate 32 1) 256 = Some (g1, ctx) \<and>
    lib_aes_encrypt zero_globals 0 0 20 (replicate 32 1) 256 (replicate 32 7) = Some (g1, m1) \<and>
    blk m1 0 = aes_encrypt g1 ctx (aes_encrypt g1 ctx (replicate 16 7)) \<and>
    lib_aes_decrypt g1 0 0 20 (replicate 32 1) 256 m1 = Some (g1, replicate 32 7)"
proof -
  have "key_ok (replicate 32 1) 256" by (simp add: key_ok_def)
  moreover have "0 + 16 * nblk 20 \<le> length (replicate 32 (7 :: byte))" by (simp add: nblk_def)
  ultimately show ?thesis using lib_aes_in_place [OF zero_globals_inv, of "replicate 32 1" 256 20 0 "replicate 32 7"]
    by (auto simp: blk_def)
qed

end
