(* ===== verification/AesKat.thy ===== *)
theory AesKat
  imports AesBuf
begin

text \<open>
  The published AES example (FIPS 197, appendix C.1): key 00 01 .. 0F, plain text 00 11 .. FF. The kernel computes the key
  schedule and the rounds one after the other.
\<close>

definition kat_key16 :: "byte list" where
  "kat_key16 = [0x00, 0x01, 0x02, 0x03, 0x04, 0x05, 0x06, 0x07, 0x08, 0x09, 0x0A, 0x0B, 0x0C, 0x0D, 0x0E, 0x0F]"

definition kat_text :: "byte list" where
  "kat_text = [0x00, 0x11, 0x22, 0x33, 0x44, 0x55, 0x66, 0x77, 0x88, 0x99, 0xAA, 0xBB, 0xCC, 0xDD, 0xEE, 0xFF]"

definition kat_rk :: "u32 list" where
  "kat_rk = [
     0x00010203, 0x04050607, 0x08090A0B, 0x0C0D0E0F,
     0xD6AA74FD, 0xD2AF72FA, 0xDAA678F1, 0xD6AB76FE,
     0xB692CF0B, 0x643DBDF1, 0xBE9BC500, 0x6830B3FE,
     0xB6FF744E, 0xD2C2C9BF, 0x6C590CBF, 0x0469BF41,
     0x47F7F7BC, 0x95353E03, 0xF96C32BC, 0xFD058DFD,
     0x3CAAA3E8, 0xA99F9DEB, 0x50F3AF57, 0xADF622AA,
     0x5E390F7D, 0xF7A69296, 0xA7553DC1, 0x0AA31F6B,
     0x14F9701A, 0xE35FE28C, 0x440ADF4D, 0x4EA9C026,
     0x47438735, 0xA41C65B9, 0xE016BAF4, 0xAEBF7AD2,
     0x549932D1, 0xF0855768, 0x1093ED9C, 0xBE2C974E,
     0x13111D7F, 0xE3944A17, 0xF307A78B, 0x4D2B30C5]"

lemma const_tabs: "FSb aes_const = FSb_fixed" "RCON aes_const = RCON_fixed" "FT0 aes_const = map V0 FT_fixed"
  "FT1 aes_const = map V1 FT_fixed" "FT2 aes_const = map V2 FT_fixed" "FT3 aes_const = map V3 FT_fixed"
  by (simp_all add: with_tables_simps [OF aes_const_ready(1)])

lemma kat_rot_sub:
  "rot_sub aes_const 0x0C0D0E0F = 0xD7AB76FE"
  "rot_sub aes_const 0xD6AB76FE = 0x6238BBF6"
  "rot_sub aes_const 0x6830B3FE = 0x046DBB45"
  "rot_sub aes_const 0x0469BF41 = 0xF90883F2"
  "rot_sub aes_const 0xFD058DFD = 0x6B5D5454"
  "rot_sub aes_const 0xADF622AA = 0x4293AC95"
  "rot_sub aes_const 0x0AA31F6B = 0x0AC07F67"
  "rot_sub aes_const 0x4EA9C026 = 0xD3BAF72F"
  "rot_sub aes_const 0xAEBF7AD2 = 0x08DAB5E4"
  "rot_sub aes_const 0xBE2C974E = 0x71882FAE"
  by (simp_all add: rot_sub_def tab_def const_tabs FSb_fixed_def)

lemma kat_frounds:
  "AES_FROUND aes_const (kat_rk @ z) (Suc 0) (0x00102030, 0x40506070, 0x8090A0B0, 0xC0D0E0F0) = (0x89D810E8, 0x855ACE68, 0x2D1843D8, 0xCB128FE4)"
  "AES_FROUND aes_const (kat_rk @ z) 2 (0x89D810E8, 0x855ACE68, 0x2D1843D8, 0xCB128FE4) = (0x4915598F, 0x55E5D7A0, 0xDACA94FA, 0x1F0A63F7)"
  "AES_FROUND aes_const (kat_rk @ z) 3 (0x4915598F, 0x55E5D7A0, 0xDACA94FA, 0x1F0A63F7) = (0xFA636A28, 0x25B339C9, 0x40668A31, 0x57244D17)"
  "AES_FROUND aes_const (kat_rk @ z) 4 (0xFA636A28, 0x25B339C9, 0x40668A31, 0x57244D17) = (0x24724023, 0x6966B3FA, 0x6ED27532, 0x88425B6C)"
  "AES_FROUND aes_const (kat_rk @ z) 5 (0x24724023, 0x6966B3FA, 0x6ED27532, 0x88425B6C) = (0xC81677BC, 0x9B7AC93B, 0x25027992, 0xB0261996)"
  "AES_FROUND aes_const (kat_rk @ z) 6 (0xC81677BC, 0x9B7AC93B, 0x25027992, 0xB0261996) = (0xC62FE109, 0xF75EEDC3, 0xCC79395D, 0x84F9CF5D)"
  "AES_FROUND aes_const (kat_rk @ z) 7 (0xC62FE109, 0xF75EEDC3, 0xCC79395D, 0x84F9CF5D) = (0xD1876C0F, 0x79C4300A, 0xB45594AD, 0xD66FF41F)"
  "AES_FROUND aes_const (kat_rk @ z) 8 (0xD1876C0F, 0x79C4300A, 0xB45594AD, 0xD66FF41F) = (0xFDE3BAD2, 0x05E5D0D7, 0x3547964E, 0xF1FE37F1)"
  "AES_FROUND aes_const (kat_rk @ z) 9 (0xFDE3BAD2, 0x05E5D0D7, 0x3547964E, 0xF1FE37F1) = (0xBD6E7C3D, 0xF2B5779E, 0x0B61216E, 0x8B10B689)"
  by (simp_all add: AES_FROUND_def aes_col_def tab_def const_tabs length_tabs V0_def V1_def V2_def V3_def V_word_def kat_rk_def, simp_all add: FT_fixed_def)

lemma kat_last: "aes_flast aes_const (kat_rk @ z) 10 (0xBD6E7C3D, 0xF2B5779E, 0x0B61216E, 0x8B10B689) = (0x69C4E0D8, 0x6A7B0430, 0xD8CDB780, 0x70B4C55A)"
  by (simp add: aes_flast_def last_col_def tab_def const_tabs kat_rk_def FSb_fixed_def)

lemma kat_load: "key_load kat_key16 4 0 (replicate 64 0) = Some (take 4 kat_rk @ replicate 60 0)"
  by (simp add: key_load.simps kat_key16_def buf_wr_def GET_UINT32_BE_def kat_rk_def, simp add: numeral_eq_Suc)

lemma kat_schedule: "fold (ks10_step aes_const) [0..<10] (take 4 kat_rk @ replicate 60 0) = kat_rk @ replicate 20 0"
  by (simp add: upt_rec ks10_step_def rk_xor_def kat_rk_def const_tabs RCON_fixed_def numeral_eq_Suc kat_rot_sub Let_def)

lemma kat_first: "aes_load (kat_rk @ z) kat_text = (0x00102030, 0x40506070, 0x8090A0B0, 0xC0D0E0F0)"
  by (simp add: aes_load_def kat_rk_def kat_text_def GET_UINT32_BE_def)

lemma kat_bytes: "aes_store (0x69C4E0D8, 0x6A7B0430, 0xD8CDB780, 0x70B4C55A) =
    [0x69, 0xC4, 0xE0, 0xD8, 0x6A, 0x7B, 0x04, 0x30, 0xD8, 0xCD, 0xB7, 0x80, 0x70, 0xB4, 0xC5, 0x5A]"
  by (simp add: aes_store_def PUT_UINT32_BE_def)

lemma kat_context: "\<exists>sk. aes_set_key zero_globals aes_zero_context kat_key16 128 = Some (aes_const, \<lparr>erk = kat_rk @ replicate 20 0, drk = sk, nr = 10\<rparr>)"
proof -
  have "aes_init1 aes_const = aes_const" "aes_init2 aes_const = aes_const"
    by (simp_all add: aes_init1_def aes_init2_def) (simp_all add: aes_const_def)
  moreover have "key_load kat_key16 (unat (drop_bit 5 128 :: u32)) 0 (erk aes_zero_context) = Some (take 4 kat_rk @ replicate 60 0)"
    using kat_load by (simp add: aes_zero_context_def)
  ultimately have "\<exists>sk. aes_set_key aes_const aes_zero_context kat_key16 128 = Some (aes_const, \<lparr>erk = kat_rk @ replicate 20 0, drk = sk, nr = 10\<rparr>)"
    unfolding aes_set_key_def aes_init1_def [symmetric] aes_init2_def [symmetric] using kat_schedule by (simp add: Let_def)
  then show ?thesis by (simp only: aes_set_key_pure [OF zero_globals_inv, of aes_zero_context kat_key16 128])
qed

text \<open>The encryption function gives the cipher text of the published example.\<close>

theorem aes_known_answer:
  "map_option (\<lambda>(g, ctx). aes_encrypt g ctx kat_text) (aes_set_key zero_globals aes_zero_context kat_key16 128) =
     Some [0x69, 0xC4, 0xE0, 0xD8, 0x6A, 0x7B, 0x04, 0x30, 0xD8, 0xCD, 0xB7, 0x80, 0x70, 0xB4, 0xC5, 0x5A]"
proof -
  obtain sk where sk: "aes_set_key zero_globals aes_zero_context kat_key16 128 = Some (aes_const, \<lparr>erk = kat_rk @ replicate 20 0, drk = sk, nr = 10\<rparr>)"
    using kat_context by blast
  have "fold (AES_FROUND aes_const (kat_rk @ z)) [1..<10] (0x00102030, 0x40506070, 0x8090A0B0, 0xC0D0E0F0) = (0xBD6E7C3D, 0xF2B5779E, 0x0B61216E, 0x8B10B689)" for z
  proof -
    have "[1..<10] = [Suc 0, 2, 3, 4, 5, 6, 7, 8, 9]" by (simp add: upt_rec eval_nat_numeral)
    then show ?thesis by (simp add: kat_frounds)
  qed
  then show ?thesis
    by (simp add: sk aes_encrypt_def aes_rounds_def kat_first kat_last kat_bytes)
qed

end
