(* ===== verification/Md5.thy ===== *)
theory Md5
  imports Prelude
begin

text \<open>
  MD5 (\<open>encryption/md5.c\<close>). \<open>unsigned long\<close> is 32 bits wide on the target. The context is a record; its buffer
  is a list of 64 octets, uninitialised when the context is created on the stack.
\<close>

section \<open>Words and octets\<close>

definition GET_UINT32_LE :: "byte list \<Rightarrow> nat \<Rightarrow> u32" where
  "GET_UINT32_LE b i =
     ucast (b ! i) OR push_bit 8 (ucast (b ! (i + 1))) OR
     push_bit 16 (ucast (b ! (i + 2))) OR push_bit 24 (ucast (b ! (i + 3)))"

definition PUT_UINT32_LE :: "u32 \<Rightarrow> byte list" where
  "PUT_UINT32_LE n = [ucast n, ucast (drop_bit 8 n), ucast (drop_bit 16 n), ucast (drop_bit 24 n)]"

section \<open>Context and compression\<close>

record md5_context =
  total0 :: u32
  total1 :: u32
  md5_state :: "u32 list"
  md5_buffer :: "byte list"

definition md5_starts :: "md5_context \<Rightarrow> md5_context" where
  "md5_starts ctx =
     ctx\<lparr>total0 := 0, total1 := 0, md5_state := [0x67452301, 0xEFCDAB89, 0x98BADCFE, 0x10325476]\<rparr>"

definition md5_S :: "u32 \<Rightarrow> nat \<Rightarrow> u32" where
  "md5_S x n = push_bit n x OR drop_bit (32 - n) (x AND 0xFFFFFFFF)"

definition md5_F1 :: "u32 \<Rightarrow> u32 \<Rightarrow> u32 \<Rightarrow> u32" where "md5_F1 x y z = z XOR (x AND (y XOR z))"
definition md5_F2 :: "u32 \<Rightarrow> u32 \<Rightarrow> u32 \<Rightarrow> u32" where "md5_F2 x y z = y XOR (z AND (x XOR y))"
definition md5_F3 :: "u32 \<Rightarrow> u32 \<Rightarrow> u32 \<Rightarrow> u32" where "md5_F3 x y z = x XOR y XOR z"
definition md5_F4 :: "u32 \<Rightarrow> u32 \<Rightarrow> u32 \<Rightarrow> u32" where "md5_F4 x y z = y XOR (x OR NOT z)"

text \<open>
  The macro \<open>P(a,b,c,d,k,s,t)\<close> changes its first argument. The calls name the registers
  \<open>A B C D\<close>, \<open>D A B C\<close>, \<open>C D A B\<close>, \<open>B C D A\<close> in turn: after each call the four registers move one place.
\<close>

definition md5_P ::
  "(u32 \<Rightarrow> u32 \<Rightarrow> u32 \<Rightarrow> u32) \<Rightarrow> u32 list \<Rightarrow> nat \<times> nat \<times> u32 \<Rightarrow> u32 \<times> u32 \<times> u32 \<times> u32 \<Rightarrow> u32 \<times> u32 \<times> u32 \<times> u32" where
  "md5_P F X kst abcd =
     (case kst of (k, s, t) \<Rightarrow> case abcd of (a, b, c, d) \<Rightarrow>
        let a = a + (F b c d + X ! k + t); a = md5_S a s + b in (d, a, b, c))"

text \<open>The four groups of calls: index into the block, rotation, constant.\<close>

definition md5_round1 :: "(nat \<times> nat \<times> u32) list" where
  "md5_round1 = [
     (0, 7, 0xD76AA478), (1, 12, 0xE8C7B756), (2, 17, 0x242070DB), (3, 22, 0xC1BDCEEE),
     (4, 7, 0xF57C0FAF), (5, 12, 0x4787C62A), (6, 17, 0xA8304613), (7, 22, 0xFD469501),
     (8, 7, 0x698098D8), (9, 12, 0x8B44F7AF), (10, 17, 0xFFFF5BB1), (11, 22, 0x895CD7BE),
     (12, 7, 0x6B901122), (13, 12, 0xFD987193), (14, 17, 0xA679438E), (15, 22, 0x49B40821)]"

definition md5_round2 :: "(nat \<times> nat \<times> u32) list" where
  "md5_round2 = [
     (1, 5, 0xF61E2562), (6, 9, 0xC040B340), (11, 14, 0x265E5A51), (0, 20, 0xE9B6C7AA),
     (5, 5, 0xD62F105D), (10, 9, 0x02441453), (15, 14, 0xD8A1E681), (4, 20, 0xE7D3FBC8),
     (9, 5, 0x21E1CDE6), (14, 9, 0xC33707D6), (3, 14, 0xF4D50D87), (8, 20, 0x455A14ED),
     (13, 5, 0xA9E3E905), (2, 9, 0xFCEFA3F8), (7, 14, 0x676F02D9), (12, 20, 0x8D2A4C8A)]"

definition md5_round3 :: "(nat \<times> nat \<times> u32) list" where
  "md5_round3 = [
     (5, 4, 0xFFFA3942), (8, 11, 0x8771F681), (11, 16, 0x6D9D6122), (14, 23, 0xFDE5380C),
     (1, 4, 0xA4BEEA44), (4, 11, 0x4BDECFA9), (7, 16, 0xF6BB4B60), (10, 23, 0xBEBFBC70),
     (13, 4, 0x289B7EC6), (0, 11, 0xEAA127FA), (3, 16, 0xD4EF3085), (6, 23, 0x04881D05),
     (9, 4, 0xD9D4D039), (12, 11, 0xE6DB99E5), (15, 16, 0x1FA27CF8), (2, 23, 0xC4AC5665)]"

definition md5_round4 :: "(nat \<times> nat \<times> u32) list" where
  "md5_round4 = [
     (0, 6, 0xF4292244), (7, 10, 0x432AFF97), (14, 15, 0xAB9423A7), (5, 21, 0xFC93A039),
     (12, 6, 0x655B59C3), (3, 10, 0x8F0CCC92), (10, 15, 0xFFEFF47D), (1, 21, 0x85845DD1),
     (8, 6, 0x6FA87E4F), (15, 10, 0xFE2CE6E0), (6, 15, 0xA3014314), (13, 21, 0x4E0811A1),
     (4, 6, 0xF7537E82), (11, 10, 0xBD3AF235), (2, 15, 0x2AD7D2BB), (9, 21, 0xEB86D391)]"

definition md5_process :: "u32 list \<Rightarrow> byte list \<Rightarrow> u32 list" where
  "md5_process st dat = (let
     X = map (\<lambda>i. GET_UINT32_LE dat (4 * i)) [0..<16];
     r = (st ! 0, st ! 1, st ! 2, st ! 3);
     r = fold (md5_P md5_F1 X) md5_round1 r;
     r = fold (md5_P md5_F2 X) md5_round2 r;
     r = fold (md5_P md5_F3 X) md5_round3 r;
     (A, B, C, D) = fold (md5_P md5_F4 X) md5_round4 r
   in [st ! 0 + A, st ! 1 + B, st ! 2 + C, st ! 3 + D])"

section \<open>Streaming\<close>

function md5_blocks :: "u32 list \<Rightarrow> byte list \<Rightarrow> nat \<Rightarrow> nat \<Rightarrow> u32 list \<times> nat \<times> nat" where
  "md5_blocks st input pos ilen =
     (if 64 \<le> ilen then md5_blocks (md5_process st (take 64 (drop pos input))) input (pos + 64) (ilen - 64)
      else (st, pos, ilen))"
  by pat_completeness auto
termination by (relation "measure (\<lambda>(st, input, pos, ilen). ilen)") auto

declare md5_blocks.simps [simp del]

text \<open>The counter, and the part of \<open>md5_update\<close> after the buffered block.\<close>

definition md5_add :: "md5_context \<Rightarrow> int \<Rightarrow> md5_context" where
  "md5_add ctx ilen =
     (let ctx = ctx\<lparr>total0 := (total0 ctx + of_int ilen) AND 0xFFFFFFFF\<rparr> in
      if total0 ctx < of_int ilen then ctx\<lparr>total1 := total1 ctx + 1\<rparr> else ctx)"

definition md5_tail :: "md5_context \<Rightarrow> byte list \<Rightarrow> nat \<Rightarrow> nat \<Rightarrow> nat \<Rightarrow> md5_context option" where
  "md5_tail ctx input pos ilen left =
     (let (st, pos, ilen) = md5_blocks (md5_state ctx) input pos ilen;
          ctx = ctx\<lparr>md5_state := st\<rparr> in
      if 0 < ilen then do {
        buf \<leftarrow> memcpy (md5_buffer ctx) left input pos ilen;
        Some (ctx\<lparr>md5_buffer := buf\<rparr>)
      }
      else Some ctx)"

text \<open>\<open>None\<close> when the input is shorter than \<open>ilen\<close> or a copy leaves the 64-octet buffer.\<close>

definition md5_update :: "md5_context \<Rightarrow> byte list \<Rightarrow> int \<Rightarrow> md5_context option" where
  "md5_update ctx input ilen =
     (if ilen \<le> 0 then Some ctx
      else if length input < nat ilen then None
      else
        let left = unat (total0 ctx AND 0x3F);
            fill = 64 - left;
            ctx = md5_add ctx ilen in
        if left \<noteq> 0 \<and> fill \<le> nat ilen then do {
          buf \<leftarrow> memcpy (md5_buffer ctx) left input 0 fill;
          md5_tail (ctx\<lparr>md5_buffer := buf, md5_state := md5_process (md5_state ctx) buf\<rparr>)
            input fill (nat ilen - fill) 0
        }
        else md5_tail ctx input 0 (nat ilen) left)"

definition md5_padding :: "byte list" where
  "md5_padding = 0x80 # replicate 63 0"

definition md5_finish :: "md5_context \<Rightarrow> (md5_context \<times> byte list) option" where
  "md5_finish ctx =
     (let high = drop_bit 29 (total0 ctx) OR push_bit 3 (total1 ctx);
          low = push_bit 3 (total0 ctx);
          msglen = PUT_UINT32_LE low @ PUT_UINT32_LE high;
          last = unat (total0 ctx AND 0x3F);
          padn = (if last < 56 then 56 - last else 120 - last) in
      do {
        ctx \<leftarrow> md5_update ctx md5_padding (int padn);
        ctx \<leftarrow> md5_update ctx msglen 8;
        Some (ctx, PUT_UINT32_LE (md5_state ctx ! 0) @ PUT_UINT32_LE (md5_state ctx ! 1) @
                   PUT_UINT32_LE (md5_state ctx ! 2) @ PUT_UINT32_LE (md5_state ctx ! 3))
      })"

definition md5_csum :: "md5_context \<Rightarrow> byte list \<Rightarrow> int \<Rightarrow> byte list option" where
  "md5_csum stack input ilen = do {
     ctx \<leftarrow> md5_update (md5_starts stack) input ilen;
     (ctx, output) \<leftarrow> md5_finish ctx;
     Some output
   }"

definition lib_md5_checksum :: "md5_context \<Rightarrow> byte list \<Rightarrow> int \<Rightarrow> byte list option" where
  "lib_md5_checksum stack inp inlen = md5_csum stack inp inlen"

end
