(* ===== verification/BlockHash.thy ===== *)
theory BlockHash
  imports Prelude
begin

text \<open>
  Iterated hash functions over 64-octet blocks: the specification of streaming (whole blocks absorbed, the
  rest kept), and the contract of an incremental implementation as a locale.
\<close>

section \<open>Blocks and rest\<close>

function absorb :: "('s \<Rightarrow> byte list \<Rightarrow> 's) \<Rightarrow> 's \<Rightarrow> byte list \<Rightarrow> 's" where
  "absorb f s bs = (if length bs < 64 then s else absorb f (f s (take 64 bs)) (drop 64 bs))"
  by pat_completeness auto
termination by (relation "measure (\<lambda>(f, s, bs). length bs)") auto

declare absorb.simps [simp del]

definition rest :: "byte list \<Rightarrow> byte list" where
  "rest bs = drop (64 * (length bs div 64)) bs"

lemma length_rest [simp]: "length (rest bs) = length bs mod 64"
  by (simp add: rest_def minus_mult_div_eq_mod)

lemma absorb_short [simp]: "length bs < 64 \<Longrightarrow> absorb f s bs = s"
  by (simp add: absorb.simps)

lemma absorb_block: "length b = 64 \<Longrightarrow> absorb f s (b @ bs) = absorb f (f s b) bs"
  by (subst absorb.simps) simp

lemma rest_short [simp]: "length bs < 64 \<Longrightarrow> rest bs = bs"
  by (simp add: rest_def)

lemma rest_block: "length b = 64 \<Longrightarrow> rest (b @ bs) = rest bs"
proof -
  have "(64 + length bs) div 64 = Suc (length bs div 64)" by simp
  then show "length b = 64 \<Longrightarrow> rest (b @ bs) = rest bs" by (simp add: rest_def)
qed

lemma block_cases:
  obtains "length bs < 64" | b cs where "bs = b @ cs" "length b = 64" "length cs < length bs"
proof (cases "length bs < 64")
  case False
  then show ?thesis using that(2) [of "take 64 bs" "drop 64 bs"] by simp
qed (rule that(1))

text \<open>Only the rest of what was absorbed before matters for what follows.\<close>

lemma absorb_append: "absorb f s (a @ b) = absorb f (absorb f s a) (rest a @ b)"
proof (induction "length a" arbitrary: a s rule: less_induct)
  case less
  show ?case
  proof (cases a rule: block_cases)
    case (2 h t)
    then show ?thesis using less [of t "f s h"] by (simp add: absorb_block rest_block)
  qed simp
qed

lemma rest_append: "rest (a @ b) = rest (rest a @ b)"
proof (induction "length a" arbitrary: a rule: less_induct)
  case less
  show ?case
  proof (cases a rule: block_cases)
    case (2 h t)
    then show ?thesis using less [of t] by (simp add: rest_block)
  qed simp
qed

section \<open>Incremental implementations\<close>

fun feed :: "('c \<Rightarrow> byte list \<Rightarrow> 'c option) \<Rightarrow> byte list list \<Rightarrow> 'c \<Rightarrow> 'c option" where
  "feed upd [] c = Some c"
| "feed upd (x # xs) c = Option.bind (upd c x) (feed upd xs)"

locale stream_hash =
  fixes repr :: "'c \<Rightarrow> byte list \<Rightarrow> bool"
    and update :: "'c \<Rightarrow> byte list \<Rightarrow> 'c option"
    and fits :: "byte list \<Rightarrow> bool"
  assumes update_repr: "repr c m \<Longrightarrow> fits x \<Longrightarrow> \<exists>c'. update c x = Some c' \<and> repr c' (m @ x)"
begin

text \<open>Chunks are absorbed as if they had come in one piece.\<close>

lemma feed_repr: "repr c m \<Longrightarrow> list_all fits xs \<Longrightarrow> \<exists>c'. feed update xs c = Some c' \<and> repr c' (m @ concat xs)"
proof (induction xs arbitrary: c m)
  case (Cons x xs)
  then obtain c1 where "update c x = Some c1" "repr c1 (m @ x)" using update_repr [of c m x] by auto
  then show ?case using Cons.IH [of c1 "m @ x"] Cons.prems by simp
qed simp

end

end
