(* ===== verification/Md5Props.thy ===== *)
theory Md5Props
  imports Md5 BlockHash
begin

text \<open>
  MD5 as specified: padding with \<open>0x80\<close>, zeros and the bit length, then the compression function over all
  blocks. The incremental functions of the source implement it for every way of cutting the message.
\<close>

section \<open>The context represents a message\<close>

definition md5_iv :: "u32 list" where
  "md5_iv = [0x67452301, 0xEFCDAB89, 0x98BADCFE, 0x10325476]"

definition md5_repr :: "md5_context \<Rightarrow> byte list \<Rightarrow> bool" where
  "md5_repr c m \<longleftrightarrow> length (md5_buffer c) = 64 \<and>
     md5_state c = absorb md5_process md5_iv m \<and>
     take (length m mod 64) (md5_buffer c) = rest m \<and>
     total0 c = of_nat (length m) \<and> total1 c = of_nat (length m div 2 ^ 32)"

lemma md5_starts_repr: "length (md5_buffer c) = 64 \<Longrightarrow> md5_repr (md5_starts c) []"
  by (simp add: md5_repr_def md5_starts_def md5_iv_def)

lemma left_octets: "unat ((of_nat n :: u32) AND 0x3F) = n mod 64"
proof -
  have "(of_nat n :: u32) AND 0x3F = take_bit 6 (of_nat n)" by (simp add: take_bit_eq_mask mask_eq_exp_minus_1)
  also have "\<dots> = of_nat n mod 64" by (simp add: take_bit_eq_mod)
  finally show ?thesis by (simp add: unat_mod unat_of_nat mod_mod_cancel)
qed

lemma md5_blocks_absorb:
  "pos + n \<le> length input \<Longrightarrow>
   md5_blocks st input pos n = (absorb md5_process st (take n (drop pos input)), pos + 64 * (n div 64), n mod 64)"
proof (induction n arbitrary: st pos rule: less_induct)
  case (less n)
  show ?case
  proof (cases "64 \<le> n")
    case True
    then have "take n (drop pos input) = take 64 (drop pos input) @ take (n - 64) (drop (pos + 64) input)"
      using take_add [of 64 "n - 64" "drop pos input"] by (simp add: add.commute)
    then have "absorb md5_process st (take n (drop pos input)) =
        absorb md5_process (md5_process st (take 64 (drop pos input))) (take (n - 64) (drop (pos + 64) input))"
      using less.prems True by (simp add: absorb_block)
    moreover have "n div 64 = Suc ((n - 64) div 64)" "(n - 64) mod 64 = n mod 64"
      using True by (simp_all add: le_div_geq le_mod_geq)
    ultimately show ?thesis using less True by (subst md5_blocks.simps) simp
  next
    case False
    then show ?thesis by (simp add: md5_blocks.simps)
  qed
qed

text \<open>The two counter words count octets modulo \<open>2\<^sup>64\<close>.\<close>

lemma md5_count:
  fixes L n :: nat
  assumes "n < 2 ^ 31"
  shows "(if (of_nat L + of_nat n :: u32) < of_nat n then (of_nat (L div 2 ^ 32) :: u32) + 1 else of_nat (L div 2 ^ 32)) =
    of_nat ((L + n) div 2 ^ 32)"
proof -
  define M :: nat where "M = 2 ^ 32"
  define q r where "q = L div M" and "r = L mod M"
  have r: "r < M" and nM: "n < M" using assms by (simp_all add: r_def M_def)
  have L: "L = r + q * M" by (simp add: q_def r_def)
  have un: "unat (of_nat n :: u32) = n" using assms by (simp add: unat_of_nat)
  have uL: "unat (of_nat L + of_nat n :: u32) = (r + n) mod M"
    by (simp add: unat_of_nat r_def M_def mod_add_left_eq flip: of_nat_add)
  show ?thesis
  proof (cases "M \<le> r + n")
    case True
    then have "(r + n) mod M = r + n - M" using r nM by (simp add: le_mod_geq)
    then have "(of_nat L + of_nat n :: u32) < of_nat n" using un uL r True by (simp add: word_less_nat_alt)
    moreover have "L + n = (r + n - M) + (q + 1) * M" using L True by simp
    then have "(L + n) div M = (r + n - M) div M + (q + 1)" using r by (metis div_mult_self1 less_nat_zero_code add.commute)
    then have "(L + n) div M = q + 1" using r nM by simp
    ultimately show ?thesis by (simp add: q_def M_def)
  next
    case False
    then have "\<not> (of_nat L + of_nat n :: u32) < of_nat n" using un uL by (simp add: word_less_nat_alt)
    moreover have "L + n = (r + n) + q * M" using L by simp
    then have "(L + n) div M = (r + n) div M + q" using r by (metis div_mult_self1 less_nat_zero_code add.commute)
    then have "(L + n) div M = q" using False by simp
    ultimately show ?thesis by (simp add: q_def M_def)
  qed
qed

lemma md5_tail_run:
  assumes "pos + n \<le> length input" "length (md5_buffer c) = 64" "left = 0 \<or> left + n < 64"
  shows "md5_tail c input pos n left =
    Some (c\<lparr>md5_state := absorb md5_process (md5_state c) (take n (drop pos input)),
            md5_buffer := buf_put (md5_buffer c) left (rest (take n (drop pos input)))\<rparr>)"
proof -
  let ?x = "take n (drop pos input)"
  have r: "rest ?x = take (n mod 64) (drop (pos + 64 * (n div 64)) input)"
    using assms(1) by (simp add: rest_def drop_take minus_mult_div_eq_mod add.commute)
  have "left + n mod 64 \<le> 64" using assms(3) mod_less_divisor [of 64 n] by auto
  moreover have "pos + 64 * (n div 64) + n mod 64 \<le> length input" using assms(1) by simp
  ultimately show ?thesis
    using assms r by (cases "n mod 64 = 0") (auto simp: md5_tail_def md5_blocks_absorb memcpy_eq_buf_put Let_def)
qed

lemma md5_update_repr:
  assumes "md5_repr c m" "n \<le> length input" "n < 2 ^ 31"
  shows "\<exists>c'. md5_update c input (int n) = Some c' \<and> md5_repr c' (m @ take n input)"
proof (cases "n = 0")
  case True
  then show ?thesis using assms(1) by (simp add: md5_update_def)
next
  case False
  define left where "left = length m mod 64"
  define x where "x = take n input"
  define st where "st = md5_state c"
  have left: "left < 64" "length (rest m) = left" by (simp_all add: left_def)
  have lx: "length x = n" using assms(2) by (simp add: x_def)
  have buf: "length (md5_buffer c) = 64" "take left (md5_buffer c) = rest m"
    and st_eq: "st = absorb md5_process md5_iv m"
    and tot: "total0 c = of_nat (length m)" "total1 c = of_nat (length m div 2 ^ 32)"
    using assms(1) by (simp_all add: md5_repr_def left_def st_def)
  define c1 where "c1 = c\<lparr>total0 := of_nat (length m + n), total1 := of_nat ((length m + n) div 2 ^ 32)\<rparr>"
  have c1: "md5_add c (int n) = c1"
    using md5_count [OF assms(3), of "length m"] tot by (auto simp: c1_def md5_add_def Let_def split: if_splits)
  have lft: "unat (total0 c AND 0x3F) = left" by (simp add: tot left_octets left_def)
  have fin: "md5_repr (c1\<lparr>md5_state := s', md5_buffer := b'\<rparr>) (m @ x)"
    if "s' = absorb md5_process st (rest m @ x)" "length b' = 64" "take ((left + n) mod 64) b' = rest (rest m @ x)" for s' b'
    using that lx by (simp add: md5_repr_def c1_def absorb_append [of _ _ m x] rest_append [of m x] st_eq left_def mod_add_left_eq)
  have upd: "md5_update c input (int n) =
      (if left \<noteq> 0 \<and> 64 - left \<le> n
       then Option.bind (memcpy (md5_buffer c) left input 0 (64 - left)) (\<lambda>buf.
         md5_tail (c1\<lparr>md5_buffer := buf, md5_state := md5_process st buf\<rparr>) input (64 - left) (n - (64 - left)) 0)
       else md5_tail c1 input 0 n left)"
    using False assms(2) by (simp add: md5_update_def Let_def lft c1) (simp add: c1_def st_def)
  show ?thesis
  proof (cases "left \<noteq> 0 \<and> 64 - left \<le> n")
    case True
    define f where "f = 64 - left"
    define b where "b = rest m @ take f x"
    have f: "f \<le> n" "left + f = 64" using True left by (auto simp: f_def)
    have lb: "length b = 64" using f left lx by (simp add: b_def)
    have "memcpy (md5_buffer c) left input 0 f = Some b"
      using f assms(2) buf by (simp add: memcpy_def b_def x_def min_def)
    moreover have "rest m @ x = b @ drop f x" by (simp add: b_def)
    moreover have "drop f x = take (n - f) (drop f input)" by (simp add: x_def drop_take)
    moreover have "(left + n) mod 64 = (n - f) mod 64" using f by (metis add.commute add_diff_assoc2 diff_add_inverse le_add1 le_mod_geq mod_add_self1 ordered_cancel_comm_monoid_diff_class.add_diff_inverse)
    moreover have "length (buf_put b 0 (rest (take (n - f) (drop f input)))) = 64"
      "take ((n - f) mod 64) (buf_put b 0 (rest (take (n - f) (drop f input)))) = rest (take (n - f) (drop f input))"
      using lb f assms(2) by (simp_all add: buf_put_def)
    ultimately show ?thesis
      using upd True f assms(2) lb
        fin [of "absorb md5_process st (rest m @ x)" "buf_put b 0 (rest (take (n - f) (drop f input)))"]
        md5_tail_run [of f "n - f" input "c1\<lparr>md5_buffer := b, md5_state := md5_process st b\<rparr>" 0]
      by (auto simp: f_def [symmetric] absorb_block rest_block x_def [symmetric])
  next
    case False
    have short: "left = 0 \<or> left + n < 64" using False left by auto
    have "absorb md5_process st (rest m @ x) = absorb md5_process st x \<and>
        take ((left + n) mod 64) (buf_put (md5_buffer c) left (rest x)) = rest (rest m @ x)"
    proof (cases "left = 0")
      case True
      then have "rest m = []" using left(2) by (metis length_0_conv)
      then show ?thesis using True lx by (simp add: buf_put_def)
    next
      case False
      then have "left + n < 64" using short by simp
      then show ?thesis using buf left lx by (simp add: buf_put_def)
    qed
    moreover have "length (buf_put (md5_buffer c) left (rest x)) = 64"
      using buf(1) short lx left(1) by (intro trans [OF length_buf_put]) auto
    ultimately show ?thesis
      using upd False assms(2) buf(1) short
        fin [of "absorb md5_process st x" "buf_put (md5_buffer c) left (rest x)"] md5_tail_run [of 0 n input c1 left]
      by (auto simp: c1_def st_def x_def [symmetric])
  qed
qed

interpretation md5: stream_hash md5_repr "\<lambda>c x. md5_update c x (int (length x))" "\<lambda>x. length x < 2 ^ 31"
proof
  fix c m and x :: "byte list"
  assume "md5_repr c m" "length x < 2 ^ 31"
  then show "\<exists>c'. md5_update c x (int (length x)) = Some c' \<and> md5_repr c' (m @ x)"
    using md5_update_repr [of c m "length x" x] by simp
qed

section \<open>Padding\<close>

text \<open>The eight octets of a number modulo \<open>2\<^sup>64\<close>, lowest first.\<close>

definition le64 :: "nat \<Rightarrow> byte list" where
  "le64 n = map (\<lambda>i. of_nat (drop_bit (8 * i) n)) [0..<8]"

definition md5_pad :: "byte list \<Rightarrow> byte list" where
  "md5_pad m = m @ take (if length m mod 64 < 56 then 56 - length m mod 64 else 120 - length m mod 64) (0x80 # replicate 63 0)
     @ le64 (8 * length m)"

definition md5_spec :: "byte list \<Rightarrow> byte list" where
  "md5_spec m = concat (map PUT_UINT32_LE (absorb md5_process md5_iv (md5_pad m)))"

lemma bit_length_octets:
  "PUT_UINT32_LE (push_bit 3 (of_nat L)) @
   PUT_UINT32_LE (drop_bit 29 (of_nat L) OR push_bit 3 (of_nat (L div 2 ^ 32))) = le64 (8 * L)"
proof -
  have n: "8 * L = push_bit 3 L" "L div 2 ^ 32 = drop_bit 32 L" by (simp_all add: push_bit_eq_mult drop_bit_eq_div)
  have "drop_bit (8 * i) (8 * L) = drop_bit (8 * i) (push_bit 3 L)" for i by (simp add: n(1))
  then show ?thesis unfolding PUT_UINT32_LE_def le64_def n
    by (simp add: upt_rec byte_bits bit_simps)
qed

lemma length_process [simp]: "length (md5_process st b) = 4"
  by (simp add: md5_process_def Let_def split: prod.splits)

lemma length_absorb: "length st = 4 \<Longrightarrow> length (absorb md5_process st bs) = 4"
  by (induction "length bs" arbitrary: st bs rule: less_induct) (subst absorb.simps, simp)

lemma concat_PUT: "length st = 4 \<Longrightarrow>
  concat (map PUT_UINT32_LE st) = PUT_UINT32_LE (st ! 0) @ PUT_UINT32_LE (st ! 1) @ PUT_UINT32_LE (st ! 2) @ PUT_UINT32_LE (st ! 3)"
  by (auto simp: length_Suc_conv numeral_eq_Suc)

lemma md5_finish_spec:
  assumes "md5_repr c m"
  shows "\<exists>c'. md5_finish c = Some (c', md5_spec m)"
proof -
  define padn where "padn = (if length m mod 64 < 56 then 56 - length m mod 64 else 120 - length m mod 64)"
  have padn: "padn \<le> 64" using mod_less_divisor [of 64 "length m"] by (auto simp: padn_def)
  then obtain c1 where c1: "md5_update c md5_padding (int padn) = Some c1" "md5_repr c1 (m @ take padn md5_padding)"
    using md5_update_repr [OF assms, of padn md5_padding] by (auto simp: md5_padding_def)
  obtain c2 where c2: "md5_update c1 (le64 (8 * length m)) 8 = Some c2" "md5_repr c2 (md5_pad m)"
    using md5_update_repr [OF c1(2), of 8 "le64 (8 * length m)"]
    by (auto simp: md5_pad_def padn_def [symmetric] md5_padding_def le64_def)
  have tot: "total0 c = of_nat (length m)" "total1 c = of_nat (length m div 2 ^ 32)"
    using assms by (simp_all add: md5_repr_def)
  have "md5_state c2 = absorb md5_process md5_iv (md5_pad m)" using c2(2) by (simp add: md5_repr_def)
  moreover from this have "length (md5_state c2) = 4" by (simp add: length_absorb md5_iv_def)
  ultimately show ?thesis
    using c1(1) c2(1) bit_length_octets [of "length m"]
    by (simp add: md5_finish_def Let_def tot left_octets padn_def [symmetric] md5_spec_def concat_PUT)
qed

section \<open>Properties\<close>

lemma md5_checksum_eq:
  assumes "length (md5_buffer stack) = 64" "0 \<le> inlen" "inlen < 2 ^ 31" "nat inlen \<le> length inp"
  shows "lib_md5_checksum stack inp inlen = Some (md5_spec (take (nat inlen) inp))"
proof -
  obtain c where "md5_update (md5_starts stack) inp inlen = Some c" "md5_repr c (take (nat inlen) inp)"
    using md5_update_repr [OF md5_starts_repr [OF assms(1)], of "nat inlen" inp] assms by (auto simp: nat_less_iff)
  then show ?thesis using md5_finish_spec [of c "take (nat inlen) inp"]
    by (auto simp: lib_md5_checksum_def md5_csum_def)
qed

text \<open>
  The checksum function computes MD5 as specified: the message followed by \<open>0x80\<close>, zeros and its length in
  bits, compressed block by block; nothing the context held before matters and no access leaves a buffer.
\<close>

theorem md5_checksum_spec:
  assumes "length (md5_buffer stack) = 64" "0 \<le> inlen" "inlen < 2 ^ 31" "nat inlen \<le> length inp"
  shows "lib_md5_checksum stack inp inlen = Some (md5_spec (take (nat inlen) inp))"
  using assms by (rule md5_checksum_eq)

theorem md5_checksum_spec_witness:
  "lib_md5_checksum \<lparr>total0 = 1, total1 = 2, md5_state = [], md5_buffer = replicate 64 3\<rparr> [97, 98, 99, 100] 3 =
     Some (md5_spec (take (nat 3) [97, 98, 99, 100]))"
  by (rule md5_checksum_spec) simp_all

text \<open>
  C6. Feeding a message in pieces, of any sizes below \<open>2\<^sup>31\<close>, and finishing gives the MD5 of the whole.
\<close>

theorem md5_stream_spec:
  assumes "length (md5_buffer stack) = 64" "list_all (\<lambda>x. length x < 2 ^ 31) xs"
  shows "\<exists>c c'. feed (\<lambda>c x. md5_update c x (int (length x))) xs (md5_starts stack) = Some c \<and>
    md5_finish c = Some (c', md5_spec (concat xs))"
proof -
  obtain c where "feed (\<lambda>c x. md5_update c x (int (length x))) xs (md5_starts stack) = Some c" "md5_repr c (concat xs)"
    using md5.feed_repr [OF md5_starts_repr [OF assms(1)] assms(2)] by auto
  then show ?thesis using md5_finish_spec by blast
qed

theorem md5_stream_spec_witness:
  "\<exists>c c'. feed (\<lambda>c x. md5_update c x (int (length x))) [[97], [], [98, 99]]
      (md5_starts \<lparr>total0 = 1, total1 = 2, md5_state = [], md5_buffer = replicate 64 3\<rparr>) = Some c \<and>
    md5_finish c = Some (c', md5_spec (concat [[97], [], [98, 99]]))"
  by (rule md5_stream_spec) simp_all

definition md5_abc :: "byte list" where
  "md5_abc = [97, 98, 99, 0x80] @ replicate 52 0 @ [24, 0, 0, 0, 0, 0, 0, 0]"

lemma md5_pad_abc: "md5_pad [97, 98, 99] = md5_abc"
proof -
  have "le64 24 = [24, 0, 0, 0, 0, 0, 0, 0]" by (simp add: le64_def upt_rec drop_bit_eq_div)
  then show ?thesis by (simp add: md5_pad_def md5_abc_def take_Cons')
qed

definition md5_abc_words :: "u32 list" where
  "md5_abc_words = [0x80636261] @ replicate 13 0 @ [24, 0]"

lemma md5_abc_get: "map (\<lambda>i. GET_UINT32_LE md5_abc (4 * i)) [0..<16] = md5_abc_words"
  by code_simp

lemma md5_abc_rounds:
  "fold (md5_P md5_F1 md5_abc_words) md5_round1 (0x67452301, 0xEFCDAB89, 0x98BADCFE, 0x10325476) = (0xDDA9B9A6, 0x72AFF2E0, 0xE396856B, 0xA1051895)"
  "fold (md5_P md5_F2 md5_abc_words) md5_round2 (0xDDA9B9A6, 0x72AFF2E0, 0xE396856B, 0xA1051895) = (0x790A77FB, 0x726342D3, 0xA62884AA, 0x9F47E4F8)"
  "fold (md5_P md5_F3 md5_abc_words) md5_round3 (0x790A77FB, 0x726342D3, 0xA62884AA, 0x9F47E4F8) = (0x7F2E507B, 0x7BEB9700, 0x8FAE6399, 0x99D9679D)"
  "fold (md5_P md5_F4 md5_abc_words) md5_round4 (0x7F2E507B, 0x7BEB9700, 0x8FAE6399, 0x99D9679D) = (0x310ADE8F, 0xC08226B3, 0xE484B9D8, 0x624D8CB2)"
  by (code_simp+)

lemma md5_process_abc: "md5_process md5_iv md5_abc = [0x98500190, 0xB04FD23C, 0x7D3F96D6, 0x727FE128]"
proof -
  have "(md5_iv ! 0, md5_iv ! 1, md5_iv ! 2, md5_iv ! 3) = (0x67452301, 0xEFCDAB89, 0x98BADCFE, 0x10325476)"
    by (simp add: md5_iv_def)
  then show ?thesis
    unfolding md5_process_def Let_def md5_abc_get by (simp only: md5_abc_rounds prod.case) (simp add: md5_iv_def)
qed

text \<open>The digest of "abc" published with the algorithm.\<close>

theorem md5_known_answer:
  "md5_spec [97, 98, 99] =
     [0x90, 0x01, 0x50, 0x98, 0x3C, 0xD2, 0x4F, 0xB0, 0xD6, 0x96, 0x3F, 0x7D, 0x28, 0xE1, 0x7F, 0x72]"
proof -
  have "length md5_abc = 64" by (simp add: md5_abc_def)
  then have "absorb md5_process md5_iv md5_abc = md5_process md5_iv md5_abc"
    using absorb_block [of md5_abc md5_process md5_iv "[]"] by simp
  then show ?thesis
    by (simp add: md5_spec_def md5_pad_abc md5_process_abc PUT_UINT32_LE_def)
qed

end
