(* ===== verification/Ctos.thy ===== *)
theory Ctos
  imports Prelude "HOL-Library.Numeral_Type"
begin

text \<open>
  The CAN-to-serial library (\<open>cantoserial/ctos.c\<close>): messages to and from the lock stakes of a station are cut
  into CAN frames of eight octets and put together again per stake.

  The 29-bit identifier of an extended frame is a bit-field structure; its fields are words of their width.
  The ring buffers, the mutex and \<open>lib_writen\<close> belong to a library that is only present as a header: the ring buffer
  operations and the write are parameters. Lock and unlock enclose single ring buffer calls with no path out between them and
  are left out, as are the delays and the output on \<open>stderr\<close>. \<open>None\<close> as a result is an access outside an array.
\<close>

section \<open>Data\<close>

definition LIB_CTOS_EOK :: int where "LIB_CTOS_EOK = 0"
definition LIB_CTOS_ERROR :: int where "LIB_CTOS_ERROR = -1"
definition LIB_CTOS_EXCMEM :: int where "LIB_CTOS_EXCMEM = -6"

lemmas ctos_codes = LIB_CTOS_EOK_def LIB_CTOS_ERROR_def LIB_CTOS_EXCMEM_def

definition CAN_BUS_NO_MAX :: nat where "CAN_BUS_NO_MAX = 2"
definition CAN_FRAME_LEN_MAX :: nat where "CAN_FRAME_LEN_MAX = 8"
definition CAN_FRAME_MARK_SINGLE :: "2 word" where "CAN_FRAME_MARK_SINGLE = 0"
definition CAN_FRAME_MARK_HEAD :: "2 word" where "CAN_FRAME_MARK_HEAD = 1"
definition CAN_FRAME_MARK_MIDDLE :: "2 word" where "CAN_FRAME_MARK_MIDDLE = 2"
definition CAN_FRAME_MARK_TAIL :: "2 word" where "CAN_FRAME_MARK_TAIL = 3"
definition STAKE_NUM_MAX :: nat where "STAKE_NUM_MAX = 128"
definition STAKE_BUF_MAX :: nat where "STAKE_BUF_MAX = 320"
definition STAKE_FRAME_MAX :: nat where "STAKE_FRAME_MAX = 64"

lemmas ctos_consts = CAN_BUS_NO_MAX_def CAN_FRAME_LEN_MAX_def STAKE_NUM_MAX_def STAKE_BUF_MAX_def STAKE_FRAME_MAX_def
lemmas ctos_marks = CAN_FRAME_MARK_SINGLE_def CAN_FRAME_MARK_HEAD_def CAN_FRAME_MARK_MIDDLE_def CAN_FRAME_MARK_TAIL_def

record can_frame_metadata =
  d_addr :: "7 word"
  s_addr :: "7 word"
  frame_mark :: "2 word"
  frame_seq :: "6 word"
  random :: "3 word"
  rsv :: "3 word"
  priority :: "1 word"
  err :: "1 word"
  rtr :: "1 word"
  eff :: "1 word"
  can_dlc :: byte
  frame_data :: "byte list"

record stake_frame_buf =
  has_frame_head :: byte
  cnt :: byte
  len :: byte
  randoms :: "byte list"
  buf_data :: "byte list"

record stake_frame =
  err_statistics :: u32
  err_random :: u32
  frame_buf :: "stake_frame_buf list"

record 'rb ctos =
  can_bus :: byte
  can_id :: byte
  baud_rate :: u32
  can_buf_num :: u32
  rb_sz :: u32
  sockfd :: int
  sn :: byte
  pack_ptr :: "stake_frame option"
  ringbuffer :: "'rb option"
  send_delay :: u32

text \<open>\<open>memset(&frame_buf[i], 0, sizeof(struct stake_frame_buf))\<close>\<close>

definition stake_clear :: stake_frame_buf where
  "stake_clear = \<lparr>has_frame_head = 0, cnt = 0, len = 0,
     randoms = replicate STAKE_FRAME_MAX 0, buf_data = replicate STAKE_BUF_MAX 0\<rparr>"

section \<open>Serial number and reassembly buffers\<close>

definition frame_sn_get :: "'rb ctos \<Rightarrow> byte \<times> 'rb ctos" where
  "frame_sn_get ctos =
     (let n = sn ctos + 1; n = (if n > 7 then 0 else n) in (n, ctos\<lparr>sn := n\<rparr>))"

text \<open>The new block is not cleared: \<open>fresh\<close> is what \<open>malloc\<close> returns.\<close>

definition stake_cmd_buf_init :: "stake_frame option \<Rightarrow> 'rb ctos \<Rightarrow> int \<times> 'rb ctos" where
  "stake_cmd_buf_init fresh ctos =
     (let ctos = ctos\<lparr>pack_ptr := fresh\<rparr> in
      if fresh = None then (LIB_CTOS_ERROR, ctos) else (LIB_CTOS_EOK, ctos))"

definition stake_cmd_buf_detach :: "'rb ctos \<Rightarrow> 'rb ctos" where
  "stake_cmd_buf_detach ctos = (if pack_ptr ctos \<noteq> None then ctos\<lparr>pack_ptr := None\<rparr> else ctos)"

text \<open>
  What a frame does to the buffer of its stake: the new buffer, the number of random-code mismatches
  counted, and either a return code or the octets handed to the ring buffer.
\<close>

datatype stake_act = Keep int | Deliver "byte list"

definition stake_copy :: "stake_frame_buf \<Rightarrow> can_frame_metadata \<Rightarrow> stake_frame_buf option" where
  "stake_copy b meta = do {
     dat \<leftarrow> memcpy (buf_data b) (unat (frame_seq meta) * CAN_FRAME_LEN_MAX) (frame_data meta) 0 CAN_FRAME_LEN_MAX;
     Some (b\<lparr>buf_data := dat\<rparr>)
   }"

definition stake_head :: "stake_frame_buf \<Rightarrow> can_frame_metadata \<Rightarrow> (stake_frame_buf \<times> nat \<times> stake_act) option" where
  "stake_head b meta = do {
     b \<leftarrow> stake_copy stake_clear meta;
     let b = b\<lparr>cnt := 0, len := len b + of_nat CAN_FRAME_LEN_MAX, has_frame_head := 1\<rparr>;
     rs \<leftarrow> buf_wr (randoms b) 0 (ucast (random meta));
     Some (b\<lparr>randoms := rs\<rparr>, 0, Keep LIB_CTOS_EOK)
   }"

definition stake_middle :: "stake_frame_buf \<Rightarrow> can_frame_metadata \<Rightarrow> (stake_frame_buf \<times> nat \<times> stake_act) option" where
  "stake_middle b meta = do {
     b \<leftarrow> stake_copy b meta;
     let c = cnt b;
     let b = b\<lparr>cnt := c + 1, len := len b + of_nat CAN_FRAME_LEN_MAX\<rparr>;
     rs \<leftarrow> buf_wr (randoms b) (unat c) (ucast (random meta));
     Some (b\<lparr>randoms := rs\<rparr>, 0, Keep LIB_CTOS_EOK)
   }"

definition stake_tail :: "stake_frame_buf \<Rightarrow> can_frame_metadata \<Rightarrow> (stake_frame_buf \<times> nat \<times> stake_act) option" where
  "stake_tail b meta = do {
     b \<leftarrow> stake_copy b meta;
     let c = cnt b;
     let b = b\<lparr>cnt := c + 1\<rparr>;
     if cnt b \<noteq> ucast (frame_seq meta) \<or> has_frame_head b \<noteq> 1 then Some (b, 0, Keep LIB_CTOS_EXCMEM)
     else do {
       let b = b\<lparr>has_frame_head := 0, len := len b + of_nat CAN_FRAME_LEN_MAX\<rparr>;
       rs \<leftarrow> buf_wr (randoms b) (unat c) (ucast (random meta));
       let bad = length (filter (\<lambda>i. rs ! i \<noteq> rs ! 0) [0..<unat c]);
       if 0 < bad then Some (stake_clear, bad, Keep LIB_CTOS_ERROR)
       else if unat (len b) \<le> length (buf_data b)
       then Some (stake_clear, 0, Deliver (take (unat (len b)) (buf_data b)))
       else None
     }
   }"

definition stake_single :: "stake_frame_buf \<Rightarrow> can_frame_metadata \<Rightarrow> (stake_frame_buf \<times> nat \<times> stake_act) option" where
  "stake_single b meta = Some (b\<lparr>len := of_nat CAN_FRAME_LEN_MAX\<rparr>, 0, Deliver (take CAN_FRAME_LEN_MAX (frame_data meta)))"

definition stake_step :: "stake_frame_buf \<Rightarrow> can_frame_metadata \<Rightarrow> (stake_frame_buf \<times> nat \<times> stake_act) option" where
  "stake_step b meta =
     (if frame_mark meta = CAN_FRAME_MARK_HEAD then stake_head b meta
      else if frame_mark meta = CAN_FRAME_MARK_MIDDLE then stake_middle b meta
      else if frame_mark meta = CAN_FRAME_MARK_TAIL then stake_tail b meta
      else stake_single b meta)"

definition stake_cmd_buf_put ::
  "('rb \<Rightarrow> byte list \<Rightarrow> int \<times> 'rb) \<Rightarrow> 'rb ctos \<Rightarrow> can_frame_metadata \<Rightarrow> (int \<times> 'rb ctos) option" where
  "stake_cmd_buf_put putforce ctos meta =
     (case pack_ptr ctos of
        None \<Rightarrow> Some (LIB_CTOS_ERROR, ctos)
      | Some frame \<Rightarrow>
          if err meta = 1
          then Some (LIB_CTOS_ERROR, ctos\<lparr>pack_ptr := Some (frame\<lparr>err_statistics := err_statistics frame + 1\<rparr>)\<rparr>)
          else (case ringbuffer ctos of
              None \<Rightarrow> Some (LIB_CTOS_ERROR, ctos)
            | Some rb \<Rightarrow>
                let stake_id = unat (s_addr meta) in
                if STAKE_NUM_MAX \<le> stake_id \<or> ucast (s_addr meta) = can_id ctos then Some (LIB_CTOS_ERROR, ctos)
                else do {
                  b \<leftarrow> buf_rd (frame_buf frame) stake_id;
                  (b, bad, act) \<leftarrow> stake_step b meta;
                  let frame = frame\<lparr>frame_buf := (frame_buf frame)[stake_id := b], err_random := err_random frame + of_nat bad\<rparr>;
                  let ctos = ctos\<lparr>pack_ptr := Some frame\<rparr>;
                  (case act of
                     Keep rc \<Rightarrow> Some (rc, ctos)
                   | Deliver bs \<Rightarrow> let (ret, rb) = putforce rb bs in Some (ret, ctos\<lparr>ringbuffer := Some rb\<rparr>))
                }))"

section \<open>Sending\<close>

definition ctos_meta ::
  "'rb ctos \<Rightarrow> byte \<Rightarrow> byte \<Rightarrow> byte \<Rightarrow> nat \<Rightarrow> 2 word \<Rightarrow> byte list \<Rightarrow> can_frame_metadata" where
  "ctos_meta ctos dest rnd prio i mark dat =
     \<lparr>d_addr = ucast dest, s_addr = ucast (can_id ctos), frame_mark = mark, frame_seq = of_nat i,
      random = ucast rnd, rsv = 0, priority = ucast prio, err = 0, rtr = 0, eff = 1,
      can_dlc = of_nat CAN_FRAME_LEN_MAX, frame_data = dat\<rparr>"

definition META_LEN :: int where "META_LEN = 16"

text \<open>The loop over the frames; \<open>writen\<close> is \<open>lib_writen\<close> on the socket.\<close>

function ctos_put_loop ::
  "('w \<Rightarrow> can_frame_metadata \<Rightarrow> int \<times> 'w) \<Rightarrow> (nat \<Rightarrow> 2 word \<Rightarrow> byte list \<Rightarrow> can_frame_metadata) \<Rightarrow>
   byte list \<Rightarrow> nat \<Rightarrow> nat \<Rightarrow> nat \<Rightarrow> nat \<Rightarrow> 'w \<Rightarrow> (int \<times> 'w) option" where
  "ctos_put_loop writen mk dat n frame_num i send_bytes w =
     (if i < frame_num then do {
        (mark, d, send_bytes) \<leftarrow>
          (if i = 0 then do {
             d \<leftarrow> memcpy (replicate 8 0) 0 dat (i * CAN_FRAME_LEN_MAX) CAN_FRAME_LEN_MAX;
             Some (CAN_FRAME_MARK_HEAD, d, send_bytes + CAN_FRAME_LEN_MAX)
           }
           else if i = frame_num - 1 then do {
             d \<leftarrow> memcpy (replicate 8 0) 0 dat (i * CAN_FRAME_LEN_MAX) (n - send_bytes);
             Some (CAN_FRAME_MARK_TAIL, d, send_bytes)
           }
           else do {
             d \<leftarrow> memcpy (replicate 8 0) 0 dat (i * CAN_FRAME_LEN_MAX) CAN_FRAME_LEN_MAX;
             Some (CAN_FRAME_MARK_MIDDLE, d, send_bytes + CAN_FRAME_LEN_MAX)
           });
        let (ret, w) = writen w (mk i mark d);
        if ret \<noteq> META_LEN then Some (LIB_CTOS_ERROR, w)
        else ctos_put_loop writen mk dat n frame_num (i + 1) send_bytes w
      }
      else Some (LIB_CTOS_EOK, w))"
  by pat_completeness auto
termination by (relation "measure (\<lambda>(writen, mk, dat, n, frame_num, i, send_bytes, w). frame_num - i)") auto

declare ctos_put_loop.simps [simp del]

definition ctos_put ::
  "byte \<Rightarrow> ('w \<Rightarrow> can_frame_metadata \<Rightarrow> int \<times> 'w) \<Rightarrow> 'rb ctos \<Rightarrow> byte \<Rightarrow> byte list \<Rightarrow> u32 \<Rightarrow> 'w
   \<Rightarrow> (int \<times> 'rb ctos \<times> 'w) option" where
  "ctos_put prio writen ctos dest dat dlen w =
     (let (rnd, ctos) = frame_sn_get ctos;
          n = unat dlen;
          frame_num = n div CAN_FRAME_LEN_MAX + (if n mod CAN_FRAME_LEN_MAX \<noteq> 0 then 1 else 0);
          mk = ctos_meta ctos dest rnd prio;
          (ret, w) = (if frame_num = 1 then writen w (mk 0 CAN_FRAME_MARK_SINGLE (replicate 8 0)) else (META_LEN, w)) in
      if ret \<noteq> META_LEN then Some (LIB_CTOS_ERROR, ctos, w)
      else do {
        (rc, w) \<leftarrow> ctos_put_loop writen mk dat n frame_num 0 0 w;
        Some (rc, ctos, w)
      })"

definition CAN_PRIORITY_LOW :: byte where "CAN_PRIORITY_LOW = 1"

definition lib_ctos_put ::
  "('w \<Rightarrow> can_frame_metadata \<Rightarrow> int \<times> 'w) \<Rightarrow> 'rb ctos \<Rightarrow> byte \<Rightarrow> byte list \<Rightarrow> u32 \<Rightarrow> 'w
   \<Rightarrow> (int \<times> 'rb ctos \<times> 'w) option" where
  "lib_ctos_put = ctos_put CAN_PRIORITY_LOW"

definition lib_ctos_put_priority ::
  "('w \<Rightarrow> can_frame_metadata \<Rightarrow> int \<times> 'w) \<Rightarrow> 'rb ctos \<Rightarrow> byte \<Rightarrow> byte list \<Rightarrow> u32 \<Rightarrow> byte \<Rightarrow> 'w
   \<Rightarrow> (int \<times> 'rb ctos \<times> 'w) option" where
  "lib_ctos_put_priority writen ctos dest dat dlen prio w = ctos_put prio writen ctos dest dat dlen w"

section \<open>Receiving\<close>

text \<open>
  A frame on the wire is a 32-bit identifier word, a length and eight octets; the explain thread
  reads it through the bit-field structure, whose fields start at bit 0 on the target. The receive thread stores
  each complete frame in a block buffer, the explain thread takes them out. One pass of each loop.
\<close>

definition meta_word :: "can_frame_metadata \<Rightarrow> u32" where
  "meta_word m =
     ucast (d_addr m) OR push_bit 7 (ucast (s_addr m)) OR push_bit 14 (ucast (frame_mark m)) OR
     push_bit 16 (ucast (frame_seq m)) OR push_bit 22 (ucast (random m)) OR push_bit 25 (ucast (rsv m)) OR
     push_bit 28 (ucast (priority m)) OR push_bit 29 (ucast (err m)) OR push_bit 30 (ucast (rtr m)) OR push_bit 31 (ucast (eff m))"

definition word_meta :: "u32 \<Rightarrow> byte \<Rightarrow> byte list \<Rightarrow> can_frame_metadata" where
  "word_meta w dlc dat =
     \<lparr>d_addr = ucast w, s_addr = ucast (drop_bit 7 w), frame_mark = ucast (drop_bit 14 w),
      frame_seq = ucast (drop_bit 16 w), random = ucast (drop_bit 22 w), rsv = ucast (drop_bit 25 w),
      priority = ucast (drop_bit 28 w), err = ucast (drop_bit 29 w), rtr = ucast (drop_bit 30 w),
      eff = ucast (drop_bit 31 w), can_dlc = dlc, frame_data = dat\<rparr>"

type_synonym can_frame = "u32 \<times> byte \<times> byte list"

definition can_recv_pass ::
  "('w \<Rightarrow> int \<times> can_frame \<times> 'w) \<Rightarrow> ('q \<Rightarrow> can_frame \<Rightarrow> 'q) \<Rightarrow> 'w \<Rightarrow> 'q \<Rightarrow> 'w \<times> 'q" where
  "can_recv_pass readn rb_put w q =
     (let (ret, cframe, w) = readn w in if ret = META_LEN then (w, rb_put q cframe) else (w, q))"

definition can_explain_pass ::
  "('q \<Rightarrow> int \<times> can_frame \<times> 'q) \<Rightarrow> ('rb \<Rightarrow> byte list \<Rightarrow> int \<times> 'rb) \<Rightarrow> 'q \<Rightarrow> 'rb ctos \<Rightarrow> ('q \<times> 'rb ctos) option" where
  "can_explain_pass rb_get putforce q ctos =
     (let (ret, (w, dlc, dat), q) = rb_get q in
      if ret = 0 then do {
        (rc, ctos) \<leftarrow> stake_cmd_buf_put putforce ctos (word_meta w dlc dat);
        Some (q, ctos)
      }
      else Some (q, ctos))"

definition lib_ctos_get ::
  "('rb \<Rightarrow> nat \<Rightarrow> int \<times> byte list \<times> 'rb) \<Rightarrow> 'rb ctos \<Rightarrow> nat \<Rightarrow> int \<times> byte list \<times> 'rb ctos" where
  "lib_ctos_get getforce ctos n =
     (case ringbuffer ctos of
        None \<Rightarrow> (LIB_CTOS_ERROR, [], ctos)
      | Some rb \<Rightarrow> let (ret, dat, rb) = getforce rb n in (ret, dat, ctos\<lparr>ringbuffer := Some rb\<rparr>))"

definition lib_ctos_getchar ::
  "('rb \<Rightarrow> int \<times> byte option \<times> 'rb) \<Rightarrow> 'rb ctos \<Rightarrow> int \<times> byte option \<times> 'rb ctos" where
  "lib_ctos_getchar getch ctos =
     (case ringbuffer ctos of
        None \<Rightarrow> (LIB_CTOS_ERROR, None, ctos)
      | Some rb \<Rightarrow> let (ret, ch, rb) = getch rb in (ret, ch, ctos\<lparr>ringbuffer := Some rb\<rparr>))"

section \<open>Opening and closing\<close>

definition BAUD_RATE_50kbps :: u32 where "BAUD_RATE_50kbps = 1"
definition BAUD_RATE_125kbps :: u32 where "BAUD_RATE_125kbps = 2"
definition BAUD_RATE_250kbps :: u32 where "BAUD_RATE_250kbps = 3"
definition BAUD_RATE_500kbps :: u32 where "BAUD_RATE_500kbps = 4"
definition BAUD_RATE_END :: u32 where "BAUD_RATE_END = 5"

lemmas baud_rates = BAUD_RATE_50kbps_def BAUD_RATE_125kbps_def BAUD_RATE_250kbps_def BAUD_RATE_500kbps_def
  BAUD_RATE_END_def

definition s_ifconfig :: "byte \<Rightarrow> string \<Rightarrow> string" where
  "s_ifconfig bus what = ''/sbin/ifconfig can'' @ udec (unat bus) @ what"

definition s_bitrate :: "byte \<Rightarrow> string \<Rightarrow> string" where
  "s_bitrate bus rate = ''/sbin/ip link set can'' @ udec (unat bus) @ '' type can bitrate '' @ rate"

text \<open>The shell commands are the third component of the result, in the order they are run.\<close>

definition baud_rate_set :: "'rb ctos \<Rightarrow> int \<times> 'rb ctos \<times> string list" where
  "baud_rate_set ct =
     (if unat (can_bus ct) > CAN_BUS_NO_MAX then (LIB_CTOS_ERROR, ct, [])
      else if baud_rate ct > BAUD_RATE_END - 1 then (LIB_CTOS_ERROR, ct, [])
      else
        let (rate, delay) =
          (if baud_rate ct = BAUD_RATE_50kbps then (''50000'', 2000)
           else if baud_rate ct = BAUD_RATE_125kbps then (''125000'', 800)
           else if baud_rate ct = BAUD_RATE_250kbps then (''250000'', 600)
           else if baud_rate ct = BAUD_RATE_500kbps then (''500000'', 500)
           else (''250000'', 600)) in
        (LIB_CTOS_EOK, ct\<lparr>send_delay := delay\<rparr>,
         [s_ifconfig (can_bus ct) '' down'', s_bitrate (can_bus ct) rate, s_ifconfig (can_bus ct) '' up'']))"

definition lib_ctos_set_baudrate :: "'rb ctos \<Rightarrow> u32 \<Rightarrow> int \<times> 'rb ctos \<times> string list" where
  "lib_ctos_set_baudrate ctos rate = baud_rate_set ctos"

text \<open>
  The operating system as seen by the set-up code: results of the calls in the order they are made.
  \<open>os_opts\<close> are the three \<open>setsockopt\<close> calls. The set of open descriptors is threaded through.
\<close>

record 'rb ctos_os =
  os_sock :: int
  os_ioctl :: int
  os_bind :: int
  os_opts :: "int list"
  os_mem :: bool
  os_regular_rb :: bool
  os_pack :: "stake_frame option"
  os_mutex :: bool
  os_ring :: "'rb option"
  os_recv_thr :: bool
  os_explain_thr :: bool
  os_rwlock_frees_mutex :: bool

definition CAN_EFF_FLAG :: u32 where "CAN_EFF_FLAG = 0x80000000"

definition can_socket_init ::
  "'rb ctos_os \<Rightarrow> byte \<Rightarrow> nat \<Rightarrow> int set \<Rightarrow> int \<times> int option \<times> (u32 \<times> u32) option \<times> int set" where
  "can_socket_init sys cid bus fds =
     (if bus > CAN_BUS_NO_MAX then (LIB_CTOS_ERROR, None, None, fds)
      else if os_sock sys < 0 then (LIB_CTOS_ERROR, None, None, fds)
      else
        let fd = os_sock sys; fds = insert fd fds in
        if os_ioctl sys < 0 then (LIB_CTOS_ERROR, None, None, fds - {fd})
        else if os_bind sys < 0 then (LIB_CTOS_ERROR, None, None, fds - {fd})
        else if os_opts sys ! 0 < 0 then (LIB_CTOS_ERROR, None, None, fds - {fd})
        else if os_opts sys ! 1 < 0 then (LIB_CTOS_ERROR, None, None, fds - {fd})
        else if os_opts sys ! 2 < 0 then (LIB_CTOS_ERROR, None, None, fds - {fd})
        else (LIB_CTOS_EOK, Some fd, Some (ucast cid OR CAN_EFF_FLAG, 0x7F), fds))"

text \<open>The kernel's filter rule: received identifier and filter agree under the mask.\<close>

definition can_filter_match :: "u32 \<times> u32 \<Rightarrow> u32 \<Rightarrow> bool" where
  "can_filter_match f w \<longleftrightarrow> w AND snd f = fst f AND snd f"

text \<open>What set-up acquires besides descriptors.\<close>

datatype ctos_res = RMem | RRegular | RPack | RMutex | RRing | RRecvThr | RExplainThr

record ctos_config =
  cf_bus :: byte
  cf_id :: byte
  cf_baud :: u32
  cf_buf_num :: u32
  cf_rb_sz :: u32

text \<open>
  The error exit: it releases what was acquired, closes the socket and frees the structure. It does not stop a receive
  thread that is running. With no structure it dereferences NULL. The mutex is handed to \<open>lib_rwlock_destroy\<close>;
  whether that releases a mutex is up to the library, \<open>os_rwlock_frees_mutex\<close>.
\<close>

definition ctos_err_exit :: "'rb ctos_os \<Rightarrow> 'rb ctos \<Rightarrow> int set \<Rightarrow> ctos_res set \<Rightarrow> int set \<times> ctos_res set" where
  "ctos_err_exit sys ctos fds live =
     (let fds = (if sockfd ctos > 0 then fds - {sockfd ctos} else fds);
          live = (if os_rwlock_frees_mutex sys then live - {RMutex} else live);
          live = live - {RRing};
          live = (if pack_ptr (stake_cmd_buf_detach ctos) = None then live - {RPack} else live)
      in (fds, live - {RRegular, RMem}))"

definition lib_ctos_create ::
  "'rb ctos_os \<Rightarrow> ctos_config \<Rightarrow> int set \<Rightarrow> ('rb ctos option \<times> int set \<times> ctos_res set) option" where
  "lib_ctos_create sys conf fds =
     (if \<not> os_mem sys then None
      else
        let ctos = \<lparr>can_bus = cf_bus conf, can_id = cf_id conf, baud_rate = cf_baud conf, can_buf_num = cf_buf_num conf,
              rb_sz = cf_rb_sz conf, sockfd = 0, sn = 0, pack_ptr = None, ringbuffer = None, send_delay = 0\<rparr>;
            fail = (\<lambda>ctos fds live. Some (None, ctos_err_exit sys ctos fds live));
            (rc, ctos, cmds) = baud_rate_set ctos in
        if rc \<noteq> LIB_CTOS_EOK then fail ctos fds {RMem}
        else
          let (rc, fd, flt, fds) = can_socket_init sys (can_id ctos) (unat (can_bus ctos)) fds;
              ctos = (case fd of Some x \<Rightarrow> ctos\<lparr>sockfd := x\<rparr> | None \<Rightarrow> ctos) in
          if rc \<noteq> LIB_CTOS_EOK then fail ctos fds {RMem}
          else if \<not> os_regular_rb sys then fail ctos fds {RMem}
          else
            let (rc, ctos) = stake_cmd_buf_init (os_pack sys) ctos in
            if rc \<noteq> LIB_CTOS_EOK then fail ctos fds {RMem, RRegular}
            else if \<not> os_mutex sys then fail ctos fds {RMem, RRegular, RPack}
            else
              let ctos = ctos\<lparr>ringbuffer := os_ring sys\<rparr> in
              if ringbuffer ctos = None then fail ctos fds {RMem, RRegular, RPack, RMutex}
              else if \<not> os_recv_thr sys then fail ctos fds {RMem, RRegular, RPack, RMutex, RRing}
              else if \<not> os_explain_thr sys then fail ctos fds {RMem, RRegular, RPack, RMutex, RRing, RRecvThr}
              else Some (Some ctos, fds, {RMem, RRegular, RPack, RMutex, RRing, RRecvThr, RExplainThr}))"

definition lib_ctos_destroy :: "'rb ctos \<Rightarrow> int set \<Rightarrow> ctos_res set \<Rightarrow> int \<times> int set \<times> ctos_res set" where
  "lib_ctos_destroy ctos fds live =
     (let live = live - {RMutex, RRing};
          live = (if pack_ptr (stake_cmd_buf_detach ctos) = None then live - {RPack} else live);
          fds = (if sockfd ctos > 0 then fds - {sockfd ctos} else fds)
      in (LIB_CTOS_EOK, fds, live - {RRegular, RMem}))"

definition lib_ctos_version :: string where
  "lib_ctos_version = ''CTOS VERSION 1.0.0''"

end
