(* ===== verification/CtosProps.thy ===== *)
theory CtosProps
  imports Ctos
begin

text \<open>
  Properties of the CAN library: what the sender puts on the bus, reassembly of packets whose frames
  arrive interleaved with those of other stakes, the identifier word and the receive filter, and the bookkeeping of
  set-up and tear-down.
\<close>

section \<open>One stake\<close>

fun steps :: "stake_frame_buf \<Rightarrow> can_frame_metadata list \<Rightarrow> (stake_frame_buf \<times> byte list list) option" where
  "steps b [] = Some (b, [])"
| "steps b (m # ms) = do {
     (b, bad, act) \<leftarrow> stake_step b m;
     (b, ds) \<leftarrow> steps b ms;
     Some (b, case act of Deliver d \<Rightarrow> d # ds | Keep rc \<Rightarrow> ds)
   }"

lemma steps_append:
  "steps b (xs @ ys) = do { (b, ds) \<leftarrow> steps b xs; (b, es) \<leftarrow> steps b ys; Some (b, ds @ es) }"
  by (induction xs arbitrary: b) (auto simp: Option.bind_assoc split: prod.splits stake_act.splits Option.bind_splits)

text \<open>The frames of a packet: \<open>k\<close> frames of one stake with one random code carrying \<open>p\<close>.\<close>

definition pkt_mark :: "nat \<Rightarrow> nat \<Rightarrow> 2 word" where
  "pkt_mark k i = (if i = 0 then CAN_FRAME_MARK_HEAD else if i = k - 1 then CAN_FRAME_MARK_TAIL else CAN_FRAME_MARK_MIDDLE)"

definition is_packet :: "7 word \<Rightarrow> byte list \<Rightarrow> can_frame_metadata list \<Rightarrow> bool" where
  "is_packet s p fs \<longleftrightarrow> (\<exists>k r. 2 \<le> k \<and> k \<le> 40 \<and> length p = 8 * k \<and> length fs = k \<and>
     (\<forall>i<k. s_addr (fs ! i) = s \<and> err (fs ! i) = 0 \<and> frame_mark (fs ! i) = pkt_mark k i \<and>
        frame_seq (fs ! i) = of_nat i \<and> random (fs ! i) = r \<and> frame_data (fs ! i) = take 8 (drop (8 * i) p)))"

text \<open>The buffer after the head and \<open>j\<close> middle frames.\<close>

definition filled :: "byte list \<Rightarrow> 3 word \<Rightarrow> nat \<Rightarrow> stake_frame_buf" where
  "filled p r j = \<lparr>has_frame_head = 1, cnt = of_nat j, len = of_nat (8 * Suc j),
     randoms = replicate (max 1 j) (ucast r) @ replicate (64 - max 1 j) 0,
     buf_data = take (8 * Suc j) p @ replicate (320 - 8 * Suc j) 0\<rparr>"

lemma seq_unat: "i < 64 \<Longrightarrow> unat (of_nat i :: 6 word) = i"
  by (simp add: unat_of_nat)

lemma byte_unat: "i < 256 \<Longrightarrow> unat (of_nat i :: byte) = i"
  by (simp add: unat_of_nat)

lemma copy_next:
  assumes "8 * j \<le> 312" "8 * Suc j \<le> length p" "frame_seq m = of_nat j" "frame_data m = take 8 (drop (8 * j) p)"
    and "buf_data b = take (8 * j) p @ replicate (320 - 8 * j) 0"
  shows "stake_copy b m = Some (b\<lparr>buf_data := take (8 * Suc j) p @ replicate (320 - 8 * Suc j) 0\<rparr>)"
proof -
  have "unat (frame_seq m) = j" using assms(1,3) by (simp add: seq_unat)
  moreover have "take (8 * Suc j) p = take (8 * j) p @ take 8 (drop (8 * j) p)"
    using take_add [of "8 * j" 8 p] by (simp add: add.commute)
  ultimately show ?thesis using assms
    by (simp add: stake_copy_def memcpy_def ctos_consts mult.commute [of j 8])
qed

lemma first_upd: "0 < n \<Longrightarrow> (replicate n a)[0 := x] = x # replicate (n - 1) a"
  by (cases n) simp_all

lemma head_step:
  assumes "8 \<le> length p" "frame_mark m = CAN_FRAME_MARK_HEAD" "frame_seq m = 0" "random m = r"
    and "frame_data m = take 8 p"
  shows "stake_step b m = Some (filled p r 0, 0, Keep LIB_CTOS_EOK)"
proof -
  have "stake_copy stake_clear m = Some (stake_clear\<lparr>buf_data := take (8 * Suc 0) p @ replicate (320 - 8 * Suc 0) 0\<rparr>)"
    using assms by (intro copy_next) (simp_all add: stake_clear_def ctos_consts)
  then show ?thesis using assms
    by (simp add: stake_step_def stake_head_def filled_def buf_wr_def stake_clear_def ctos_consts first_upd)
qed

lemma middle_step:
  assumes "Suc j < 40" "8 * Suc (Suc j) \<le> length p" "frame_mark m = CAN_FRAME_MARK_MIDDLE"
    and "frame_seq m = of_nat (Suc j)" "random m = r" "frame_data m = take 8 (drop (8 * Suc j) p)"
  shows "stake_step (filled p r j) m = Some (filled p r (Suc j), 0, Keep LIB_CTOS_EOK)"
proof -
  have "stake_copy (filled p r j) m =
      Some ((filled p r j)\<lparr>buf_data := take (8 * Suc (Suc j)) p @ replicate (320 - 8 * Suc (Suc j)) 0\<rparr>)"
    using assms by (intro copy_next) (simp_all add: filled_def)
  moreover have "(replicate (max 1 j) x @ replicate (64 - max 1 j) 0)[j := x] = replicate (Suc j) x @ replicate (63 - j) (0 :: byte)" for x
    using assms(1) by (intro nth_equalityI) (auto simp: nth_list_update nth_append nth_Cons' max_def)
  ultimately show ?thesis using assms
    by (simp add: stake_step_def stake_middle_def filled_def buf_wr_def ctos_marks ctos_consts byte_unat max_def Let_def add.commute)
qed

lemma tail_step:
  assumes "Suc j < 40" "8 * Suc (Suc j) = length p" "frame_mark m = CAN_FRAME_MARK_TAIL"
    and "frame_seq m = of_nat (Suc j)" "random m = r" "frame_data m = take 8 (drop (8 * Suc j) p)"
  shows "stake_step (filled p r j) m = Some (stake_clear, 0, Deliver (take (length p mod 256) p))"
proof -
  have "stake_copy (filled p r j) m =
      Some ((filled p r j)\<lparr>buf_data := take (8 * Suc (Suc j)) p @ replicate (320 - 8 * Suc (Suc j)) 0\<rparr>)"
    using assms by (intro copy_next) (simp_all add: filled_def)
  moreover have "of_nat j + 1 = (ucast (of_nat (Suc j) :: 6 word) :: byte)"
  proof -
    have "unat (ucast (of_nat (Suc j) :: 6 word) :: byte) = Suc j"
      using assms(1) seq_unat [of "Suc j"] by (simp only: unsigned_ucast_eq) (simp add: take_bit_eq_mod)
    then have "ucast (of_nat (Suc j) :: 6 word) = (of_nat (Suc j) :: byte)" by (metis of_nat_unat ucast_id)
    then show ?thesis by (simp add: add.commute)
  qed
  moreover have "unat (16 + 8 * of_nat j :: byte) = length p mod 256"
    using unat_of_nat [of "16 + 8 * j", where 'a = 8] assms(2) by simp
  moreover have "length p mod 256 \<le> length p" by simp
  ultimately show ?thesis using assms
    by (auto simp: stake_step_def stake_tail_def filled_def buf_wr_def ctos_marks ctos_consts byte_unat
        filter_empty_conv Let_def nth_append)
qed

lemma steps_filled:
  assumes "2 \<le> k" "k \<le> 40" "length p = 8 * k" "length fs = k"
    and fs: "\<And>i. i < k \<Longrightarrow> frame_mark (fs ! i) = pkt_mark k i \<and> frame_seq (fs ! i) = of_nat i \<and>
       random (fs ! i) = r \<and> frame_data (fs ! i) = take 8 (drop (8 * i) p)"
  shows "Suc j < k \<Longrightarrow> steps b (take (Suc j) fs) = Some (filled p r j, [])"
proof (induction j)
  case 0
  then have "take (Suc 0) fs = [fs ! 0]" using assms(1,4) by (simp add: take_Suc_conv_app_nth)
  moreover have "stake_step b (fs ! 0) = Some (filled p r 0, 0, Keep LIB_CTOS_EOK)"
    using assms(1,3) fs [of 0] by (intro head_step) (simp_all add: pkt_mark_def)
  ultimately show ?case by simp
next
  case (Suc j)
  then have "take (Suc (Suc j)) fs = take (Suc j) fs @ [fs ! Suc j]"
    using assms(4) by (simp add: take_Suc_conv_app_nth)
  moreover have "stake_step (filled p r j) (fs ! Suc j) = Some (filled p r (Suc j), 0, Keep LIB_CTOS_EOK)"
    using Suc.prems assms(2,3) fs [of "Suc j"] by (intro middle_step) (auto simp: pkt_mark_def)
  ultimately show ?case using Suc by (simp add: steps_append)
qed

text \<open>
  A packet that arrives complete and in order is delivered once, and the buffer is cleared. The length is an octet:
  it is the number of octets modulo 256 that is delivered.
\<close>

lemma steps_packet:
  assumes "is_packet s p fs"
  shows "steps b fs = Some (stake_clear, [take (length p mod 256) p])"
proof -
  from assms obtain k r where k: "2 \<le> k" "k \<le> 40" "length p = 8 * k" "length fs = k"
    and fs: "\<And>i. i < k \<Longrightarrow> frame_mark (fs ! i) = pkt_mark k i \<and> frame_seq (fs ! i) = of_nat i \<and>
       random (fs ! i) = r \<and> frame_data (fs ! i) = take 8 (drop (8 * i) p)"
    by (auto simp: is_packet_def)
  obtain j where j: "k = Suc (Suc j)" using k(1) by (metis Suc_diff_Suc numeral_2_eq_2 less_eq_Suc_le le_iff_add add_Suc)
  then have split: "take (Suc j) fs @ [fs ! Suc j] = fs" using k(4) by (metis lessI take_Suc_conv_app_nth take_all_iff le_refl)
  have "steps b (take (Suc j) fs) = Some (filled p r j, [])" using steps_filled [OF k fs] j by simp
  moreover have "stake_step (filled p r j) (fs ! Suc j) = Some (stake_clear, 0, Deliver (take (length p mod 256) p))"
    using k j fs [of "Suc j"] by (intro tail_step) (auto simp: pkt_mark_def)
  ultimately have "steps b (take (Suc j) fs @ [fs ! Suc j]) = Some (stake_clear, [take (length p mod 256) p])"
    by (simp add: steps_append)
  then show ?thesis by (simp only: split)
qed

section \<open>Many stakes\<close>

text \<open>All buffers at once; deliveries are tagged with their stake.\<close>

fun bus_run ::
  "stake_frame_buf list \<Rightarrow> can_frame_metadata list \<Rightarrow> (stake_frame_buf list \<times> (7 word \<times> byte list) list) option" where
  "bus_run bs [] = Some (bs, [])"
| "bus_run bs (m # ms) = do {
     (b, bad, act) \<leftarrow> stake_step (bs ! unat (s_addr m)) m;
     (bs, ds) \<leftarrow> bus_run (bs[unat (s_addr m) := b]) ms;
     Some (bs, case act of Deliver d \<Rightarrow> (s_addr m, d) # ds | Keep rc \<Rightarrow> ds)
   }"

text \<open>Each stake sees its own frames only.\<close>

lemma stake_range: "unat (s :: 7 word) < 128"
  using unsigned_less [of s, where ?'a = nat] by simp

lemma bus_isolation:
  assumes "length bs = 128" "\<And>s. steps (bs ! unat s) (filter (\<lambda>m. s_addr m = s) fs) \<noteq> None"
  shows "\<exists>bs' ds. bus_run bs fs = Some (bs', ds) \<and> length bs' = 128 \<and>
    (\<forall>s. steps (bs ! unat s) (filter (\<lambda>m. s_addr m = s) fs) = Some (bs' ! unat s, map snd (filter (\<lambda>x. fst x = s) ds)))"
  using assms
proof (induction fs arbitrary: bs)
  case (Cons m ms)
  let ?s = "s_addr m"
  from Cons.prems(2) [of ?s] obtain b bad act where st: "stake_step (bs ! unat ?s) m = Some (b, bad, act)"
    by (cases "stake_step (bs ! unat ?s) m") auto
  let ?bs = "bs[unat ?s := b]"
  have at: "?bs ! unat s = (if s = ?s then b else bs ! unat s)" for s
    using Cons.prems(1) stake_range [of ?s] by (auto simp: nth_list_update word_unat_eq_iff)
  have "steps (?bs ! unat s) (filter (\<lambda>m. s_addr m = s) ms) \<noteq> None" for s
    using Cons.prems(2) [of s] st by (auto simp: at split: Option.bind_splits if_splits)
  from Cons.IH [OF _ this] obtain bs' ds where run: "bus_run ?bs ms = Some (bs', ds)" "length bs' = 128"
    and each: "\<And>s. steps (?bs ! unat s) (filter (\<lambda>m. s_addr m = s) ms) = Some (bs' ! unat s, map snd (filter (\<lambda>x. fst x = s) ds))"
    using Cons.prems(1) by auto
  have "steps (bs ! unat s) (filter (\<lambda>m. s_addr m = s) (m # ms)) = Some (bs' ! unat s,
      map snd (filter (\<lambda>x. fst x = s) (case act of Deliver d \<Rightarrow> (?s, d) # ds | Keep rc \<Rightarrow> ds)))" for s
    using each [of s] st by (auto simp: at split: stake_act.splits if_splits)
  then show ?case using st run by (auto split: stake_act.splits)
qed simp

fun recv_all :: "('rb \<Rightarrow> byte list \<Rightarrow> int \<times> 'rb) \<Rightarrow> can_frame_metadata list \<Rightarrow> 'rb ctos \<Rightarrow> 'rb ctos option" where
  "recv_all put [] ctos = Some ctos"
| "recv_all put (m # ms) ctos = do { (rc, ctos) \<leftarrow> stake_cmd_buf_put put ctos m; recv_all put ms ctos }"

lemma recv_all_bus_run:
  assumes "pack_ptr c = Some frame" "ringbuffer c = Some rb" "length (frame_buf frame) = 128"
    and "\<forall>m \<in> set fs. err m = 0 \<and> ucast (s_addr m) \<noteq> can_id c"
    and "bus_run (frame_buf frame) fs = Some (bs', ds)"
  shows "\<exists>c'. recv_all put fs c = Some c' \<and> ringbuffer c' = Some (fold (\<lambda>d rb. snd (put rb d)) (map snd ds) rb)"
  using assms
proof (induction fs arbitrary: c frame rb ds)
  case (Cons m ms)
  let ?s = "unat (s_addr m)"
  from Cons.prems(5) obtain b bad act ds1 where st: "stake_step (frame_buf frame ! ?s) m = Some (b, bad, act)"
    and run: "bus_run ((frame_buf frame)[?s := b]) ms = Some (bs', ds1)"
    and ds: "ds = (case act of Deliver d \<Rightarrow> (s_addr m, d) # ds1 | Keep rc \<Rightarrow> ds1)"
    by (auto split: Option.bind_splits)
  let ?frame = "frame\<lparr>frame_buf := (frame_buf frame)[?s := b], err_random := err_random frame + of_nat bad\<rparr>"
  have put: "stake_cmd_buf_put put c m = (case act of
      Keep rc \<Rightarrow> Some (rc, c\<lparr>pack_ptr := Some ?frame\<rparr>)
    | Deliver d \<Rightarrow> let (ret, rb) = put rb d in Some (ret, c\<lparr>pack_ptr := Some ?frame, ringbuffer := Some rb\<rparr>))"
    using Cons.prems(1-4) st stake_range [of "s_addr m"]
    by (auto simp: stake_cmd_buf_put_def buf_rd_in ctos_consts Let_def split: stake_act.splits)
  show ?case
  proof (cases act)
    case (Keep rc)
    then show ?thesis
      using Cons.IH [of "c\<lparr>pack_ptr := Some ?frame\<rparr>" ?frame rb ds1] Cons.prems put run ds by simp
  next
    case (Deliver d)
    obtain ret rb1 where p: "put rb d = (ret, rb1)" by fastforce
    then show ?thesis
      using Cons.IH [of "c\<lparr>pack_ptr := Some ?frame, ringbuffer := Some rb1\<rparr>" ?frame rb1 ds1] Cons.prems put run ds Deliver
      by simp
  qed
qed simp

section \<open>What the sender puts on the bus\<close>

text \<open>A socket that accepts every frame and records it.\<close>

definition log_writen :: "can_frame_metadata list \<Rightarrow> can_frame_metadata \<Rightarrow> int \<times> can_frame_metadata list" where
  "log_writen w m = (META_LEN, w @ [m])"

definition padded :: "nat \<Rightarrow> byte list \<Rightarrow> nat \<Rightarrow> byte list" where
  "padded k dat n = take n dat @ replicate (8 * k - n) 0"

lemma padded_full: "8 * Suc i \<le> n \<Longrightarrow> take 8 (drop (8 * i) (padded k dat n)) = take 8 (drop (8 * i) dat)"
  if "n \<le> length dat"
  using that by (simp add: padded_def drop_take min_def)

lemma put_loop_frames:
  assumes "n \<le> length dat" "8 * (k - 1) < n" "n \<le> 8 * k" "2 \<le> k" "i < k"
  shows "ctos_put_loop log_writen mk dat n k i (8 * i) w =
    Some (LIB_CTOS_EOK, w @ map (\<lambda>j. mk j (pkt_mark k j) (take 8 (drop (8 * j) (padded k dat n)))) [i..<k])"
  using assms(5)
proof (induction "k - i" arbitrary: i w rule: less_induct)
  case less
  show ?case
  proof (cases "i = k - 1")
    case True
    have last: "take 8 (drop (8 * i) (padded k dat n)) = take (n - 8 * i) (drop (8 * i) dat) @ replicate (8 - (n - 8 * i)) 0"
      using assms(1-3) True less.prems by (simp add: padded_def drop_take)
    have "[i..<k] = [i]" using True less.prems by (simp add: upt_rec)
    moreover have "ctos_put_loop log_writen mk dat n k (Suc i) sb w' = Some (LIB_CTOS_EOK, w')" for sb w'
      using True assms(4) by (simp add: ctos_put_loop.simps)
    moreover have "i \<noteq> 0" "n - 8 * i \<le> 8" using True assms by auto
    ultimately show ?thesis using True assms(1-4) less.prems
      by (subst ctos_put_loop.simps)
         (simp add: memcpy_def ctos_consts log_writen_def pkt_mark_def last [unfolded True One_nat_def] mult.commute [of _ 8])
  next
    case False
    then have i: "Suc i < k" "8 * Suc i \<le> n" using less.prems assms by auto
    have full: "take 8 (drop (8 * i) (padded k dat n)) = take 8 (drop (8 * i) dat)"
      using padded_full [OF assms(1) i(2)] .
    let ?fs = "\<lambda>i. map (\<lambda>j. mk j (pkt_mark k j) (take 8 (drop (8 * j) (padded k dat n)))) [i..<k]"
    have fs: "?fs i = mk i (pkt_mark k i) (take 8 (drop (8 * i) dat)) # ?fs (Suc i)"
      using i by (simp add: upt_rec full)
    have ih: "ctos_put_loop log_writen mk dat n k (Suc i) (8 * Suc i) w' = Some (LIB_CTOS_EOK, w' @ ?fs (Suc i))" for w'
      using i by (intro less.hyps) auto
    have step: "ctos_put_loop log_writen mk dat n k i (8 * i) w =
        ctos_put_loop log_writen mk dat n k (Suc i) (8 * Suc i) (w @ [mk i (pkt_mark k i) (take 8 (drop (8 * i) dat))])"
      using i assms(1) False
      by (subst ctos_put_loop.simps)
         (auto simp: memcpy_def ctos_consts log_writen_def pkt_mark_def mult.commute [of _ 8] add.commute)
    show ?thesis unfolding step ih fs by simp
  qed
qed

lemma put_is_packet:
  assumes "8 < unat dlen" "unat dlen \<le> 320" "unat dlen \<le> length dat"
  shows "\<exists>c' fs. ctos_put prio log_writen c dest dat dlen w = Some (LIB_CTOS_EOK, c', w @ fs) \<and>
    is_packet (ucast (can_id c)) (padded ((unat dlen + 7) div 8) dat (unat dlen)) fs"
proof -
  define n where "n = unat dlen"
  define k where "k = (n + 7) div 8"
  have k: "2 \<le> k" "k \<le> 40" "8 * (k - 1) < n" "n \<le> 8 * k" using assms by (auto simp: n_def [symmetric] k_def)
  have num: "n div 8 + (if n mod 8 \<noteq> 0 then 1 else 0) = k" unfolding k_def by auto presburger+
  obtain rnd c' where sn: "frame_sn_get c = (rnd, c')" "can_id c' = can_id c"
    by (simp add: frame_sn_get_def Let_def)
  define mk where "mk = ctos_meta c' dest rnd prio"
  define fs where "fs = map (\<lambda>j. mk j (pkt_mark k j) (take 8 (drop (8 * j) (padded k dat n)))) [0..<k]"
  have "ctos_put prio log_writen c dest dat dlen w = Some (LIB_CTOS_EOK, c', w @ fs)"
    using put_loop_frames [of n dat k 0 mk w] assms(3) k num sn
    by (simp add: ctos_put_def n_def [symmetric] ctos_consts mk_def [symmetric] fs_def split del: if_split)
  moreover have "is_packet (ucast (can_id c)) (padded k dat n) fs"
    unfolding is_packet_def using k assms(3) sn(2)
    by (intro exI [of _ k] exI [of _ "ucast rnd"]) (auto simp: fs_def mk_def ctos_meta_def padded_def n_def)
  ultimately show ?thesis by (auto simp: n_def k_def)
qed

section \<open>Properties\<close>


text \<open>One transmission, without other traffic.\<close>

lemma lone_packet:
  assumes "is_packet s p fs" "pack_ptr c = Some frame" "ringbuffer c = Some rb" "length (frame_buf frame) = 128"
    and "ucast s \<noteq> can_id c"
  shows "\<exists>c'. recv_all put fs c = Some c' \<and> ringbuffer c' = Some (snd (put rb (take (length p mod 256) p)))"
proof -
  have all: "\<forall>m \<in> set fs. err m = 0 \<and> s_addr m = s" and "fs \<noteq> []"
    using assms(1) by (auto simp: is_packet_def in_set_conv_nth)
  then have sel: "filter (\<lambda>m. s_addr m = t) fs = (if t = s then fs else [])" for t
    by (auto simp: filter_id_conv filter_empty_conv)
  have st: "steps b (filter (\<lambda>m. s_addr m = t) fs) =
      (if t = s then Some (stake_clear, [take (length p mod 256) p]) else Some (b, []))" for b t
    using sel steps_packet [OF assms(1)] by simp
  then have "steps (frame_buf frame ! unat t) (filter (\<lambda>m. s_addr m = t) fs) \<noteq> None" for t by simp
  from bus_isolation [OF assms(4) this]
  obtain bs' ds where run: "bus_run (frame_buf frame) fs = Some (bs', ds)"
    and each: "\<And>t. steps (frame_buf frame ! unat t) (filter (\<lambda>m. s_addr m = t) fs) =
      Some (bs' ! unat t, map snd (filter (\<lambda>x. fst x = t) ds))"
    by blast
  have "x \<in> set ds \<Longrightarrow> fst x = s" for x using each [of "fst x"] st [of _ "fst x"]
    by (auto simp: filter_empty_conv split: if_splits)
  then have "filter (\<lambda>x. fst x = s) ds = ds" by (auto simp: filter_id_conv)
  then have "map snd ds = [take (length p mod 256) p]" using each [of s] st [of _ s] by simp
  then show ?thesis using recv_all_bus_run [OF assms(2-4) _ run, of put] all assms(5) by auto
qed


definition idle_frame :: stake_frame where
  "idle_frame = \<lparr>err_statistics = 0, err_random = 0, frame_buf = replicate 128 stake_clear\<rparr>"

definition idle_ctos :: "byte \<Rightarrow> byte list list ctos" where
  "idle_ctos i = \<lparr>can_bus = 0, can_id = i, baud_rate = 3, can_buf_num = 64, rb_sz = 1024, sockfd = 3, sn = 0,
     pack_ptr = Some idle_frame,
     ringbuffer = Some [], send_delay = 600\<rparr>"

definition log_put :: "byte list list \<Rightarrow> byte list \<Rightarrow> int \<times> byte list list" where
  "log_put rb d = (0, rb @ [d])"


text \<open>Two frames of a stake, for the witnesses.\<close>

definition two_frames :: "7 word \<Rightarrow> byte list \<Rightarrow> can_frame_metadata list" where
  "two_frames s p =
     [\<lparr>d_addr = 9, s_addr = s, frame_mark = 1, frame_seq = 0, random = 3, rsv = 0, priority = 1, err = 0, rtr = 0, eff = 1,
       can_dlc = 8, frame_data = take 8 p\<rparr>,
      \<lparr>d_addr = 9, s_addr = s, frame_mark = 3, frame_seq = 1, random = 3, rsv = 0, priority = 1, err = 0, rtr = 0, eff = 1,
       can_dlc = 8, frame_data = take 8 (drop 8 p)\<rparr>]"

lemma two_frames_packet: "length p = 16 \<Longrightarrow> is_packet s p (two_frames s p)"
  unfolding is_packet_def
  by (intro exI [of _ 2] exI [of _ 3]) (auto simp: two_frames_def pkt_mark_def ctos_marks less_2_cases_iff)

definition demo_payload :: "7 word \<Rightarrow> byte list" where
  "demo_payload s = replicate 16 (ucast s)"


section \<open>Short messages\<close>

text \<open>
  A message of one to eight octets is never received: the sender first sends a single frame
  whose data are zeros and then the octets in a head frame that no tail follows. The receiver hands eight zero
  octets to its ring buffer. (With fewer than eight octets behind the pointer, the copy reads past its end.)
\<close>

theorem short_message_lost:
  assumes "0 < unat dlen" "unat dlen \<le> 8"
    and "pack_ptr c = Some frame" "ringbuffer c = Some rb" "length (frame_buf frame) = 128"
    and "(ucast (ucast (can_id snd_ctos) :: 7 word) :: byte) \<noteq> can_id c"
  shows "(length dat < 8 \<longrightarrow> lib_ctos_put log_writen snd_ctos dest dat dlen [] = None) \<and>
    (8 \<le> length dat \<longrightarrow> (\<exists>ctos' fs c'. lib_ctos_put log_writen snd_ctos dest dat dlen [] = Some (LIB_CTOS_EOK, ctos', fs) \<and>
      recv_all put fs c = Some c' \<and> ringbuffer c' = Some (snd (put rb (replicate 8 0)))))"
proof -
  obtain rnd c' where sn: "frame_sn_get snd_ctos = (rnd, c')" "can_id c' = can_id snd_ctos"
    by (simp add: frame_sn_get_def Let_def)
  have num: "unat dlen div 8 + (if unat dlen mod 8 \<noteq> 0 then 1 else 0) = 1"
    using assms(1,2) by (cases "unat dlen = 8") auto
  define mk where "mk = ctos_meta c' dest rnd CAN_PRIORITY_LOW"
  define fs where "fs = [mk 0 CAN_FRAME_MARK_SINGLE (replicate 8 0), mk 0 CAN_FRAME_MARK_HEAD (take 8 dat)]"
  have loop: "ctos_put_loop log_writen mk dat n 1 0 0 w =
      (if length dat < 8 then None else Some (LIB_CTOS_EOK, w @ [mk 0 CAN_FRAME_MARK_HEAD (take 8 dat)]))" for n w
    by (subst ctos_put_loop.simps)
       (simp add: memcpy_def ctos_consts log_writen_def ctos_put_loop.simps [of _ _ _ _ "Suc 0" "Suc 0"])
  have put: "lib_ctos_put log_writen snd_ctos dest dat dlen [] = (if length dat < 8 then None else Some (LIB_CTOS_EOK, c', fs))"
    using sn num loop by (simp add: lib_ctos_put_def ctos_put_def ctos_consts mk_def [symmetric] log_writen_def fs_def split del: if_split)
       (simp add: fs_def)
  let ?b = "frame_buf frame ! unat (ucast (can_id snd_ctos) :: 7 word)"
  have "8 \<le> length dat \<Longrightarrow> \<exists>bs'. bus_run (frame_buf frame) fs = Some (bs', [(ucast (can_id snd_ctos), replicate 8 0)])"
    by (simp add: fs_def mk_def ctos_meta_def stake_step_def stake_single_def stake_head_def stake_copy_def stake_clear_def
        memcpy_def buf_wr_def ctos_marks ctos_consts sn(2))
  then show ?thesis using put recv_all_bus_run [OF assms(3-5), of fs _ _ put] assms(6)
    by (auto simp: fs_def mk_def ctos_meta_def sn(2))
qed

theorem short_message_lost_witness:
  "\<exists>ctos' fs c'. lib_ctos_put log_writen (idle_ctos 5) 9 (replicate 8 7) 4 [] = Some (LIB_CTOS_EOK, ctos', fs) \<and>
      recv_all log_put fs (idle_ctos 9) = Some c' \<and> ringbuffer c' = Some (snd (log_put [] (replicate 8 0)))"
  using short_message_lost [of 4 "idle_ctos 9" idle_frame "[]" "idle_ctos 5" "replicate 8 7" 9 log_put]
  by (simp add: idle_ctos_def idle_frame_def)

section \<open>What the receiver does not check\<close>

text \<open>
  The sequence number has six bits but a stake's buffer only room for 40 frames: a head, middle or
  tail frame with a number from 40 on makes the receiver write outside the buffer.
\<close>

theorem frame_number_overruns_buffer:
  assumes "pack_ptr c = Some frame" "ringbuffer c = Some rb" "length (frame_buf frame) = 128"
    and "length (buf_data (frame_buf frame ! unat (s_addr m))) = 320"
    and "err m = 0" "ucast (s_addr m) \<noteq> can_id c" "frame_mark m \<noteq> CAN_FRAME_MARK_SINGLE" "40 \<le> unat (frame_seq m)"
  shows "stake_cmd_buf_put put c m = None"
proof -
  have "frame_mark m = 1 \<or> frame_mark m = 2 \<or> frame_mark m = 3"
  proof -
    have "unat (frame_mark m) < 4" using unsigned_less [of "frame_mark m", where ?'a = nat] by simp
    moreover have "unat (frame_mark m) \<noteq> 0" using assms(7) by (simp add: ctos_marks unat_eq_zero)
    ultimately have "unat (frame_mark m) = 1 \<or> unat (frame_mark m) = 2 \<or> unat (frame_mark m) = 3" by auto
    then show ?thesis by (simp add: word_unat_eq_iff)
  qed
  moreover have "stake_copy b m = None" if "length (buf_data b) = 320" for b
    using that assms(8) by (simp add: stake_copy_def memcpy_def ctos_consts)
  then have "stake_copy stake_clear m = None" "stake_copy (frame_buf frame ! unat (s_addr m)) m = None"
    using assms(4) by (simp_all add: stake_clear_def ctos_consts)
  ultimately have "stake_step (frame_buf frame ! unat (s_addr m)) m = None"
    by (auto simp: stake_step_def stake_head_def stake_middle_def stake_tail_def ctos_marks)
  then show ?thesis using assms stake_range [of "s_addr m"]
    by (simp add: stake_cmd_buf_put_def buf_rd_in ctos_consts Let_def)
qed

theorem frame_number_overruns_buffer_witness:
  "stake_cmd_buf_put log_put (idle_ctos 9) (word_meta 0x80288081 8 (replicate 8 0)) = None"
proof (rule frame_number_overruns_buffer [where frame = idle_frame])
  show "40 \<le> unat (frame_seq (word_meta 0x80288081 8 (replicate 8 0)))" by (simp add: word_meta_def)
  show "frame_mark (word_meta 0x80288081 8 (replicate 8 0)) \<noteq> CAN_FRAME_MARK_SINGLE" by (simp add: word_meta_def ctos_marks)
qed (simp_all add: idle_ctos_def idle_frame_def word_meta_def stake_clear_def ctos_consts)

text \<open>
  The random code that marks the frames of one message is not checked on tail frames: whatever code a
  tail carries, the result is the same.
\<close>

theorem tail_random_unchecked:
  "frame_mark m = CAN_FRAME_MARK_TAIL \<Longrightarrow> length (randoms b) = 64 \<Longrightarrow> stake_step b (m\<lparr>random := r\<rparr>) = stake_step b m"
proof -
  assume "frame_mark m = CAN_FRAME_MARK_TAIL" "length (randoms b) = 64"
  moreover have "filter (\<lambda>i. (randoms b)[c := x] ! i \<noteq> (randoms b)[c := x] ! 0) [0..<c] =
      filter (\<lambda>i. randoms b ! i \<noteq> randoms b ! 0) [0..<c]" for c x
    by (rule filter_cong) (auto simp: nth_list_update)
  moreover have "stake_copy b (m\<lparr>random := r\<rparr>) = stake_copy b m" by (simp add: stake_copy_def)
  moreover have "stake_copy b m = Some b' \<Longrightarrow> randoms b' = randoms b" for b'
    by (auto simp: stake_copy_def split: Option.bind_splits)
  ultimately show ?thesis
    by (cases "stake_copy b m") (auto simp: stake_step_def stake_tail_def ctos_marks buf_wr_def Let_def)
qed

theorem tail_random_unchecked_witness:
  "stake_step stake_clear ((two_frames 1 (demo_payload 1) ! 1)\<lparr>random := 5\<rparr>) = stake_step stake_clear (two_frames 1 (demo_payload 1) ! 1)"
  by (rule tail_random_unchecked) (simp_all add: two_frames_def ctos_marks stake_clear_def ctos_consts)

section \<open>The identifier word\<close>

lemma low7: "w AND 0x7F = ucast (ucast w :: 7 word)" for w :: u32
  unfolding u32_bits by (simp add: bit_simps)

lemma low7_meta: "ucast (meta_word m) = d_addr m"
  by (rule bit_word_eqI) (auto simp: meta_word_def bit_simps)

lemma ucast_7_inj: "(ucast a :: u32) = ucast b \<longleftrightarrow> a = b" for a b :: "7 word"
proof
  assume "(ucast a :: u32) = ucast b"
  moreover have "ucast (ucast c :: u32) = c" for c :: "7 word"
    by (rule bit_word_eqI) (auto simp: bit_simps)
  ultimately show "a = b" by metis
qed simp

text \<open>
  The fields of a frame survive the trip through the 32-bit identifier word, and the filter that set-up installs
  lets exactly the frames through that are addressed to this node.
\<close>

theorem identifier_roundtrip_and_filter:
  "word_meta (meta_word m) (can_dlc m) (frame_data m) = m \<and>
   (can_filter_match (ucast cid OR CAN_EFF_FLAG, 0x7F) (meta_word m) \<longleftrightarrow> d_addr m = ucast cid)"
proof
  have "ucast (drop_bit 7 (meta_word m)) = s_addr m" "ucast (drop_bit 14 (meta_word m)) = frame_mark m"
    "ucast (drop_bit 16 (meta_word m)) = frame_seq m" "ucast (drop_bit 22 (meta_word m)) = random m"
    "ucast (drop_bit 25 (meta_word m)) = rsv m" "ucast (drop_bit 28 (meta_word m)) = priority m"
    "ucast (drop_bit 29 (meta_word m)) = err m" "ucast (drop_bit 30 (meta_word m)) = rtr m"
    "ucast (drop_bit 31 (meta_word m)) = eff m"
    by (rule bit_word_eqI, auto simp: meta_word_def bit_simps dest: bit_imp_le_length)+
  then show "word_meta (meta_word m) (can_dlc m) (frame_data m) = m" by (simp add: word_meta_def low7_meta)
  have flag: "CAN_EFF_FLAG = push_bit 31 1" by (simp add: CAN_EFF_FLAG_def)
  have "ucast (ucast cid OR CAN_EFF_FLAG) = (ucast cid :: 7 word)"
    unfolding flag by (rule bit_word_eqI) (auto simp del: push_bit_of_1 simp add: bit_simps)
  then show "can_filter_match (ucast cid OR CAN_EFF_FLAG, 0x7F) (meta_word m) \<longleftrightarrow> d_addr m = ucast cid"
    by (simp only: can_filter_match_def low7 low7_meta fst_conv snd_conv ucast_7_inj)
qed

section \<open>Set-up and shutdown\<close>

definition demo_os :: "byte list ctos_os" where
  "demo_os = \<lparr>os_sock = 3, os_ioctl = 0, os_bind = 0, os_opts = [0, 0, 0], os_mem = True, os_regular_rb = True,
     os_pack = Some idle_frame, os_mutex = True, os_ring = Some [], os_recv_thr = True, os_explain_thr = True,
     os_rwlock_frees_mutex = False\<rparr>"

definition demo_conf :: ctos_config where
  "demo_conf = \<lparr>cf_bus = 0, cf_id = 9, cf_baud = BAUD_RATE_250kbps, cf_buf_num = 16, cf_rb_sz = 1024\<rparr>"

lemma baud_rate_set_keeps: "baud_rate_set c = (rc, c', cmds) \<Longrightarrow>
    sockfd c' = sockfd c \<and> pack_ptr c' = pack_ptr c \<and> can_bus c' = can_bus c \<and> can_id c' = can_id c"
  by (auto simp: baud_rate_set_def Let_def split: if_splits prod.splits)

lemma can_socket_init_cases:
  assumes "can_socket_init sys cid bus fds = (rc, fd, flt, fds')" "os_sock sys \<notin> fds"
  shows "rc \<noteq> LIB_CTOS_EOK \<and> fd = None \<and> flt = None \<and> fds' = fds \<or>
    rc = LIB_CTOS_EOK \<and> fd = Some (os_sock sys) \<and> flt = Some (ucast cid OR CAN_EFF_FLAG, 0x7F) \<and> fds' = insert (os_sock sys) fds"
  using assms by (auto simp: can_socket_init_def Let_def ctos_codes split: if_splits)



section \<open>Bit rate\<close>

lemma length_udec_bus: "n \<le> 2 \<Longrightarrow> length (udec n) \<le> 1"
  by (subst length_udec) auto

text \<open>
  Setting the bit rate refuses bus numbers above two and unknown rates; otherwise it takes the interface down,
  sets the rate and brings it up again, and every command fits its 64-octet buffer, the terminating zero
  included. The rate argument of \<open>lib_ctos_set_baudrate\<close> has no influence.
\<close>

theorem baud_rate_commands:
  "(case lib_ctos_set_baudrate c rate of (rc, c', cmds) \<Rightarrow>
      (if unat (can_bus c) \<le> 2 \<and> baud_rate c \<le> 4
       then rc = LIB_CTOS_EOK \<and> length cmds = 3 \<and> list_all (\<lambda>s. length s < 64) cmds \<and>
         hd cmds = s_ifconfig (can_bus c) '' down'' \<and> last cmds = s_ifconfig (can_bus c) '' up'' \<and>
         500 \<le> send_delay c' \<and> send_delay c' \<le> 2000
       else rc = LIB_CTOS_ERROR \<and> c' = c \<and> cmds = [])) \<and>
   lib_ctos_set_baudrate c rate = lib_ctos_set_baudrate c rate'"
proof (cases "unat (can_bus c) \<le> 2")
  case True
  then show ?thesis using length_udec_bus [OF True]
    by (auto simp: lib_ctos_set_baudrate_def baud_rate_set_def s_ifconfig_def s_bitrate_def Let_def baud_rates ctos_consts
        not_le not_less)
next
  case False
  then show ?thesis by (simp add: lib_ctos_set_baudrate_def baud_rate_set_def ctos_consts)
qed

end
