(* ===== verification/Sha204.thy ===== *)
theory Sha204
  imports Prelude
begin

text \<open>
  The authentication chip (\<open>sha204_test/sha204_command.c\<close>, \<open>sha204_test/i2c_common.c\<close>): command packets with their
  checksum, the exchange over the I2C character device and the check of the terminal's key.

  The kernel's \<open>open\<close>, \<open>ioctl\<close>, \<open>write\<close>, \<open>read\<close> and \<open>close\<close> are a parameter, the record \<open>bus\<close>, with the
  state of the outside world threaded through. The delays and the output are left out. \<open>None\<close> as a result is an access outside an array.
\<close>

section \<open>The I2C device\<close>

record 'w bus =
  b_open :: "string \<Rightarrow> 'w \<Rightarrow> int \<times> 'w"
  b_ioctl :: "int \<Rightarrow> u32 \<Rightarrow> 'w \<Rightarrow> int \<times> 'w"
  b_write :: "int \<Rightarrow> byte list \<Rightarrow> 'w \<Rightarrow> int \<times> 'w"
  b_read :: "int \<Rightarrow> nat \<Rightarrow> 'w \<Rightarrow> int \<times> byte list \<times> 'w"
  b_close :: "int \<Rightarrow> 'w \<Rightarrow> 'w"

definition PAGE_SIZE :: nat where "PAGE_SIZE = 128"

definition i2c_dev_init :: "'w bus \<Rightarrow> string \<Rightarrow> u32 \<Rightarrow> 'w \<Rightarrow> int \<times> 'w" where
  "i2c_dev_init os bus_dev dev_addr w =
     (let (fd, w) = b_open os bus_dev w in
      if fd < 0 then (-1, w)
      else let (ret, w) = b_ioctl os fd dev_addr w in if ret < 0 then (-2, w) else (fd, w))"

text \<open>\<open>sendbuffer\<close> is not initialised; every octet that is sent has been stored before.\<close>

definition write_chip :: "'w bus \<Rightarrow> int \<Rightarrow> byte list \<Rightarrow> u32 \<Rightarrow> nat \<Rightarrow> 'w \<Rightarrow> (int \<times> 'w) option" where
  "write_chip os fd buff addr count w = do {
     sendbuffer \<leftarrow> memcpy (replicate (PAGE_SIZE + 1) 0) 1 buff 0 count;
     sendbuffer \<leftarrow> buf_wr sendbuffer 0 (ucast addr);
     Some (b_write os fd (take (count + 1) sendbuffer) w)
   }"

definition read_chip ::
  "'w bus \<Rightarrow> int \<Rightarrow> byte list \<Rightarrow> u32 \<Rightarrow> nat \<Rightarrow> 'w \<Rightarrow> (int \<times> byte list \<times> 'w) option" where
  "read_chip os fd buff addr count w =
     (let (n, w) = b_write os fd [ucast addr] w in
      if n \<noteq> 1 then Some (-1, buff, w)
      else
        let (ret, bs, w) = b_read os fd count w in
        if ret < 0 then Some (ret, buff, w)
        else do {
          buff \<leftarrow> memcpy buff 0 bs 0 (nat ret);
          Some (ret, buff, w)
        })"

section \<open>Checksum\<close>

text \<open>One data bit is shifted into the register.\<close>

definition crc_shift :: "bool \<Rightarrow> u16 \<Rightarrow> u16" where
  "crc_shift data_bit crc_register =
     (let crc_bit = bit crc_register 15;
          crc_register = push_bit 1 crc_register
      in if data_bit \<noteq> crc_bit then crc_register XOR 0x8005 else crc_register)"

lemma crc_bits_decreases:
  assumes "0 < (s :: byte)"
  shows "(LEAST n. n = 8 \<or> bit s n) < (LEAST n. n = 8 \<or> bit (push_bit 1 s) n)"
    and "(LEAST n. n = 8 \<or> bit s n) < 8"
proof -
  let ?l = "LEAST n. n = 8 \<or> bit s n" and ?m = "LEAST n. n = 8 \<or> bit (push_bit 1 s) n"
  have "s \<noteq> 0" using assms by simp
  then obtain n where n: "n < 8" "bit s n" unfolding byte_eq_iff by auto
  then have "?l \<le> n" by (intro Least_le) simp
  then show l: "?l < 8" using n by simp
  have "?m = 8 \<or> bit (push_bit 1 s) ?m" by (rule LeastI_ex) blast
  then show "?l < ?m"
  proof
    assume "bit (push_bit 1 s) ?m"
    then have "1 \<le> ?m \<and> bit s (?m - 1)" unfolding bit_push_bit_iff by blast
    moreover from this have "?l \<le> ?m - 1" by (intro Least_le) simp
    ultimately show ?thesis by linarith
  qed (use l in simp)
qed

text \<open>The inner loop ends when the one bit of the shift register has left it.\<close>

function crc_bits :: "byte \<Rightarrow> byte \<Rightarrow> u16 \<Rightarrow> u16" where
  "crc_bits d shift_register crc_register =
     (if 0 < shift_register
      then crc_bits d (push_bit 1 shift_register) (crc_shift (d AND shift_register \<noteq> 0) crc_register)
      else crc_register)"
  by pat_completeness auto
termination
proof (relation "measure (\<lambda>(d, s, r). 8 - (LEAST n. n = 8 \<or> bit s n))")
  fix d s :: byte and r :: u16
  assume "0 < s"
  then show "((d, push_bit 1 s, crc_shift (d AND s \<noteq> 0) r), d, s, r) \<in> measure (\<lambda>(d, s, r). 8 - (LEAST n. n = 8 \<or> bit s n))"
    using crc_bits_decreases [of s] by simp
qed simp

declare crc_bits.simps [simp del]

function crc_loop :: "nat \<Rightarrow> byte list \<Rightarrow> nat \<Rightarrow> u16 \<Rightarrow> u16 option" where
  "crc_loop n dat counter crc_register =
     (if counter < n then do {
        d \<leftarrow> buf_rd dat counter;
        crc_loop n dat (counter + 1) (crc_bits d 1 crc_register)
      }
      else Some crc_register)"
  by pat_completeness auto
termination by (relation "measure (\<lambda>(n, dat, counter, crc_register). n - counter)") auto

declare crc_loop.simps [simp del]

definition sha204_calculate_crc :: "byte \<Rightarrow> byte list \<Rightarrow> byte list option" where
  "sha204_calculate_crc n dat = do {
     crc_register \<leftarrow> crc_loop (unat n) dat 0 0;
     Some [ucast (crc_register AND 0x00FF), ucast (drop_bit 8 crc_register)]
   }"

section \<open>Commands\<close>

definition CHIP :: string where "CHIP = ''/dev/i2c-3''"
definition CHIP_ADDR :: u32 where "CHIP_ADDR = 0x64"
definition RANDOM_RSP_SIZE :: nat where "RANDOM_RSP_SIZE = 35"
definition RANDOM_NUM_SIZE :: nat where "RANDOM_NUM_SIZE = 32"
definition MAC_RSP_SIZE :: nat where "MAC_RSP_SIZE = 35"
definition WAKEUP_RSP_SIZE :: nat where "WAKEUP_RSP_SIZE = 4"
definition MAX_BUF_SIZE :: nat where "MAX_BUF_SIZE = 128"
definition MIN_PAKET_SIZE :: byte where "MIN_PAKET_SIZE = 7"
definition MAC_CHALLENGE_SIZE :: nat where "MAC_CHALLENGE_SIZE = 32"
definition PACKET_CHECKSUM_SIZE :: nat where "PACKET_CHECKSUM_SIZE = 2"
definition SHA204_NORMAL :: byte where "SHA204_NORMAL = 3"
definition SHA204_RANDOM :: byte where "SHA204_RANDOM = 0x1B"
definition SHA204_MAC :: byte where "SHA204_MAC = 0x08"
definition SHA204_READ :: byte where "SHA204_READ = 0x02"
definition SHA204_ADDRESS_MASK :: u16 where "SHA204_ADDRESS_MASK = 0x007F"
definition SHA204_ZONE_DATA :: byte where "SHA204_ZONE_DATA = 0x02"
definition LIB_WAKE_UP_SUCCESS :: int where "LIB_WAKE_UP_SUCCESS = 0"
definition LIB_EV_OK :: int where "LIB_EV_OK = 1"
definition LIB_EV_ERR :: int where "LIB_EV_ERR = 2"

lemmas sha204_sizes = PAGE_SIZE_def RANDOM_RSP_SIZE_def RANDOM_NUM_SIZE_def MAC_RSP_SIZE_def WAKEUP_RSP_SIZE_def MAX_BUF_SIZE_def
  MIN_PAKET_SIZE_def MAC_CHALLENGE_SIZE_def PACKET_CHECKSUM_SIZE_def
lemmas sha204_codes = SHA204_NORMAL_def SHA204_RANDOM_def SHA204_MAC_def SHA204_READ_def SHA204_ADDRESS_MASK_def
  SHA204_ZONE_DATA_def LIB_WAKE_UP_SUCCESS_def LIB_EV_OK_def LIB_EV_ERR_def

definition sha204_wakeup :: "'w bus \<Rightarrow> int \<Rightarrow> 'w \<Rightarrow> (int \<times> 'w) option" where
  "sha204_wakeup os fd w = do {
     (_, w) \<leftarrow> write_chip os fd [0] 0 1 w;
     (ret, rddata, w) \<leftarrow> read_chip os fd (replicate WAKEUP_RSP_SIZE 0) 0 WAKEUP_RSP_SIZE w;
     if ret \<noteq> int WAKEUP_RSP_SIZE then Some (-1, w)
     else do {
       status \<leftarrow> buf_rd rddata 1;
       if status \<noteq> 0x11 then Some (-2, w) else Some (0, w)
     }
   }"

text \<open>
  The part every command shares: the packet is built in a cleared buffer of \<open>cap\<close> octets, the checksum over everything but
  the first octet is appended, and the packet is sent.
\<close>

definition sha204_packet :: "nat \<Rightarrow> byte list \<Rightarrow> (byte list \<times> nat) option" where
  "sha204_packet cap hdr = do {
     buf \<leftarrow> memcpy (replicate cap 0) 0 hdr 0 (length hdr);
     crc16 \<leftarrow> sha204_calculate_crc (of_nat (length hdr - 1)) (drop 1 buf);
     buf \<leftarrow> memcpy buf (length hdr) crc16 0 PACKET_CHECKSUM_SIZE;
     Some (buf, length hdr + PACKET_CHECKSUM_SIZE)
   }"

text \<open>Send, then read \<open>sz\<close> octets into a cleared buffer of \<open>rcap\<close>; 0, -1 or -2 and the buffer.\<close>

definition sha204_exchange ::
  "'w bus \<Rightarrow> int \<Rightarrow> nat \<Rightarrow> byte list \<Rightarrow> u32 \<Rightarrow> nat \<Rightarrow> nat \<Rightarrow> 'w \<Rightarrow> (int \<times> byte list \<times> 'w) option" where
  "sha204_exchange os fd cap hdr addr rcap sz w = do {
     (buf, len) \<leftarrow> sha204_packet cap hdr;
     (ret, w) \<leftarrow> write_chip os fd buf addr len w;
     if ret \<noteq> int len + 1 then Some (-1, replicate rcap 0, w)
     else do {
       (ret, rddata, w) \<leftarrow> read_chip os fd (replicate rcap 0) 0 sz w;
       if ret \<noteq> int sz then Some (-2, rddata, w) else Some (0, rddata, w)
     }
   }"

definition sha204_random :: "'w bus \<Rightarrow> int \<Rightarrow> byte list \<Rightarrow> byte \<Rightarrow> 'w \<Rightarrow> (int \<times> byte list \<times> 'w) option" where
  "sha204_random os fd rxbuf mode w = do {
     (ret, rddata, w) \<leftarrow> sha204_exchange os fd MAX_BUF_SIZE [SHA204_NORMAL, MIN_PAKET_SIZE, SHA204_RANDOM, mode, 0, 0] 0
       RANDOM_RSP_SIZE RANDOM_RSP_SIZE w;
     if ret < 0 then Some (ret, rxbuf, w)
     else do {
       rxbuf \<leftarrow> memcpy rxbuf 0 rddata 1 RANDOM_NUM_SIZE;
       Some (0, rxbuf, w)
     }
   }"

definition sha204_mac ::
  "'w bus \<Rightarrow> int \<Rightarrow> byte list \<Rightarrow> byte \<Rightarrow> u16 \<Rightarrow> byte list \<Rightarrow> 'w \<Rightarrow> (int \<times> byte list \<times> 'w) option" where
  "sha204_mac os fd rxbuf mode slot_id challenge w = do {
     challenge \<leftarrow> memcpy (replicate MAC_CHALLENGE_SIZE 0) 0 challenge 0 MAC_CHALLENGE_SIZE;
     (ret, rddata, w) \<leftarrow> sha204_exchange os fd MAX_BUF_SIZE
       ([SHA204_NORMAL, MIN_PAKET_SIZE + of_nat MAC_CHALLENGE_SIZE, SHA204_MAC, mode,
         ucast (slot_id AND 0xff), ucast (drop_bit 8 slot_id)] @ challenge) 0
       MAX_BUF_SIZE MAC_RSP_SIZE w;
     if ret < 0 then Some (ret, rxbuf, w)
     else do {
       rxbuf \<leftarrow> memcpy rxbuf 0 rddata 0 MAC_RSP_SIZE;
       Some (0, rxbuf, w)
     }
   }"

text \<open>
  Here and in the commands below the source passes \<open>&addr\<close> for the integer \<open>addr\<close>: the first octet sent is the
  lowest of a stack address. That address is the parameter \<open>stk\<close>.
\<close>

definition sha204_read ::
  "'w bus \<Rightarrow> u32 \<Rightarrow> int \<Rightarrow> byte list \<Rightarrow> byte \<Rightarrow> byte \<Rightarrow> u16 \<Rightarrow> 'w \<Rightarrow> (int \<times> byte list \<times> 'w) option" where
  "sha204_read os stk fd rx_buf sz zone address w = do {
     (ret, rddata, w) \<leftarrow> sha204_exchange os fd MAX_BUF_SIZE
       [SHA204_NORMAL, MIN_PAKET_SIZE, SHA204_READ, zone, ucast (address AND SHA204_ADDRESS_MASK), 0] stk
       MAX_BUF_SIZE (unat sz) w;
     if ret < 0 then Some (ret, rx_buf, w)
     else do {
       rx_buf \<leftarrow> memcpy rx_buf 0 rddata 0 (unat sz);
       Some (int (unat sz), rx_buf, w)
     }
   }"

definition sha204_update_extra :: "'w bus \<Rightarrow> u32 \<Rightarrow> int \<Rightarrow> 'w \<Rightarrow> (int \<times> 'w) option" where
  "sha204_update_extra os stk fd w = do {
     (ret, rddata, w) \<leftarrow> sha204_exchange os fd MAX_BUF_SIZE [0x03, 0x07, 0x20, 0x00, 0x22, 0x00] stk
       RANDOM_RSP_SIZE RANDOM_RSP_SIZE w;
     Some (ret, w)
   }"

definition sha204_write :: "'w bus \<Rightarrow> u32 \<Rightarrow> int \<Rightarrow> 'w \<Rightarrow> (int \<times> 'w) option" where
  "sha204_write os stk fd w = do {
     (ret, rddata, w) \<leftarrow> sha204_exchange os fd MAX_BUF_SIZE ([0x03, 0x0b, 0x12, 0x00, 0x0c, 0x00] @ [0xC2, 0x42, 0xAF, 0x8F]) stk
       RANDOM_RSP_SIZE RANDOM_RSP_SIZE w;
     Some (ret, w)
   }"

definition sha204_nonce :: "'w bus \<Rightarrow> u32 \<Rightarrow> int \<Rightarrow> byte \<Rightarrow> byte list \<Rightarrow> 'w \<Rightarrow> (int \<times> 'w) option" where
  "sha204_nonce os stk fd Mode NumIn w = do {
     (ret, rddata, w) \<leftarrow> sha204_exchange os fd 256 [0x03, 0x07, 0x16, 0x02, 0x00, 0x00] stk 256 RANDOM_RSP_SIZE w;
     Some (ret, w)
   }"

definition sha204_command_test :: "'w bus \<Rightarrow> u32 \<Rightarrow> int \<Rightarrow> byte list \<Rightarrow> 'w \<Rightarrow> (int \<times> byte list \<times> 'w) option" where
  "sha204_command_test os stk fd rxbuf w = do {
     (ret, rddata, w) \<leftarrow> sha204_exchange os fd 256 [0x03, 0x07, 0x15, 0x01, 0x00, 0x00] stk 256 RANDOM_RSP_SIZE w;
     if ret < 0 then Some (ret, rxbuf, w)
     else do {
       rxbuf \<leftarrow> memcpy rxbuf 0 rddata 1 32;
       Some (0, rxbuf, w)
     }
   }"

section \<open>Verification and device information\<close>

definition mac_response_expected :: "byte list" where
  "mac_response_expected = of_nat MAC_RSP_SIZE #
     [0x6a, 0xaf, 0x4b, 0x30, 0xbd, 0xfa, 0xd1, 0x8c,
      0xfb, 0xa2, 0x9d, 0xbe, 0xec, 0xc1, 0xf8, 0x19,
      0x9b, 0xce, 0x7e, 0xf3, 0x2b, 0x81, 0x61, 0xd5,
      0x22, 0x5b, 0x83, 0x27, 0xdb, 0x8f, 0x7e, 0xcd,
      0x12, 0x8a]"

definition mac_challenge :: "byte list" where
  "mac_challenge =
     [0x2d, 0xce, 0x04, 0x63, 0x36, 0x5c, 0x17, 0xad,
      0x02, 0xe8, 0x62, 0xc6, 0x20, 0x75, 0xc7, 0x2f,
      0x5f, 0x4a, 0x98, 0x8f, 0x40, 0xe1, 0xe9, 0xda,
      0x9f, 0x3d, 0x4b, 0x4d, 0x5e, 0x06, 0x10, 0x4f]"

text \<open>Result, the new value of the global \<open>fd\<close>, and the world.\<close>

definition LIB_Encry_Verify :: "'w bus \<Rightarrow> 'w \<Rightarrow> (int \<times> int \<times> 'w) option" where
  "LIB_Encry_Verify os w =
     (let (fd, w) = i2c_dev_init os CHIP CHIP_ADDR w in
      if fd < 0 then Some (LIB_EV_ERR, fd, b_close os fd w)
      else do {
        (ret, w) \<leftarrow> sha204_wakeup os fd w;
        if ret < 0 then Some (LIB_EV_ERR, fd, b_close os fd w)
        else do {
          (ret, mac_response, w) \<leftarrow> sha204_mac os fd (replicate MAC_RSP_SIZE 0) 0x20 0 mac_challenge w;
          if ret < 0 then Some (LIB_EV_ERR, fd, b_close os fd w)
          else if mac_response = mac_response_expected then Some (LIB_EV_OK, fd, w)
          else Some (LIB_WAKE_UP_SUCCESS, fd, b_close os fd w)
        }
      })"

definition LIB_EV_Version :: string where
  "LIB_EV_Version = ''Encry Verify Version 1.0.1''"

text \<open>\<open>info\<close> is \<open>None\<close> for a NULL pointer.\<close>

definition read_device_info ::
  "'w bus \<Rightarrow> u32 \<Rightarrow> int \<Rightarrow> byte list option \<Rightarrow> 'w \<Rightarrow> (int \<times> byte list option \<times> int \<times> 'w) option" where
  "read_device_info os stk fd info w =
     (case info of
        None \<Rightarrow> Some (-1, None, fd, w)
      | Some device_info \<Rightarrow>
          let (fd, w) = i2c_dev_init os CHIP CHIP_ADDR w in
          if fd < 0 then Some (LIB_EV_ERR, info, fd, b_close os fd w)
          else do {
            (ret, w) \<leftarrow> sha204_wakeup os fd w;
            if ret < 0 then Some (LIB_EV_ERR, info, fd, b_close os fd w)
            else do {
              (ret, rx_buf, w) \<leftarrow> sha204_read os stk fd (replicate 128 0) 35 (SHA204_ZONE_DATA OR 0x80) 0x00 w;
              if ret \<noteq> 35 then Some (LIB_EV_ERR, info, fd, b_close os fd w)
              else do {
                device_info \<leftarrow> memcpy device_info 0 rx_buf 1 32;
                Some (ret - 3, Some device_info, fd, b_close os fd w)
              }
            }
          })"

end
