(* ===== verification/Sha204Props.thy ===== *)
theory Sha204Props
  imports Sha204
begin

text \<open>
  The checksum finds every change within sixteen consecutive bits, the packets are well formed and stay inside their
  buffers, and what the two entry points do to the descriptors.
\<close>

section \<open>The checksum as a linear register\<close>

lemma test_bit_mask: "(d AND push_bit k 1 \<noteq> 0) = bit d k" if "k < 8" for d :: byte
  using that unfolding byte_eq_iff by (auto simp: bit_simps simp del: push_bit_of_1)

definition octet_bits :: "byte \<Rightarrow> bool list" where
  "octet_bits d = map (bit d) [0..<8]"

lemma crc_bits_from:
  "k \<le> 8 \<Longrightarrow> crc_bits d (push_bit k 1) r = fold crc_shift (map (bit d) [k..<8]) r"
proof (induction "8 - k" arbitrary: k r)
  case 0
  then have "push_bit k (1 :: byte) = 0" by (simp add: byte_eq_iff bit_simps del: push_bit_of_1)
  then show ?case using 0 by (subst crc_bits.simps) (simp del: push_bit_of_1)
next
  case (Suc n)
  then have k: "k < 8" by simp
  have "bit (push_bit k (1 :: byte)) k" using k by (simp add: bit_simps del: push_bit_of_1)
  then have pos: "0 < push_bit k (1 :: byte)" by (metis bit_0_eq bot_apply bot_bool_def word_gt_0)
  have "crc_bits d (push_bit k 1) r = crc_bits d (push_bit (Suc k) 1) (crc_shift (bit d k) r)"
    using pos test_bit_mask [OF k] by (subst crc_bits.simps) (simp del: push_bit_of_1)
  also have "\<dots> = fold crc_shift (map (bit d) [Suc k..<8]) (crc_shift (bit d k) r)"
    using Suc.hyps(1) [of "Suc k"] Suc.hyps(2) k by simp
  finally show ?case using k by (simp add: upt_conv_Cons)
qed

lemma crc_bits_octet: "crc_bits d 1 r = fold crc_shift (octet_bits d) r"
  using crc_bits_from [of 0 d r] by (simp add: octet_bits_def)

definition msg_bits :: "byte list \<Rightarrow> bool list" where
  "msg_bits dat = concat (map octet_bits dat)"

lemma crc_loop_bits:
  "c \<le> n \<Longrightarrow> n \<le> length dat \<Longrightarrow> crc_loop n dat c r = Some (fold crc_shift (msg_bits (seg c n dat)) r)"
proof (induction "n - c" arbitrary: c r)
  case 0
  then show ?case by (subst crc_loop.simps) (simp add: msg_bits_def)
next
  case (Suc m)
  then have "c < n" by simp
  then show ?case using Suc.hyps(1) [of "Suc c"] Suc.hyps(2) Suc.prems
    by (subst crc_loop.simps) (simp add: buf_rd_in crc_bits_octet seg_step msg_bits_def)
qed

definition crc_octets :: "byte list \<Rightarrow> byte list" where
  "crc_octets dat = (let r = fold crc_shift (msg_bits dat) 0 in [ucast (r AND 0xFF), ucast (drop_bit 8 r)])"

lemma sha204_calculate_crc_eq:
  "length dat = n \<Longrightarrow> n < 256 \<Longrightarrow> n \<le> length buf \<Longrightarrow> take n buf = dat \<Longrightarrow>
   sha204_calculate_crc (of_nat n) buf = Some (crc_octets dat)"
  by (simp add: sha204_calculate_crc_def crc_loop_bits seg_def crc_octets_def unat_of_nat Let_def)

lemma length_crc_octets [simp]: "length (crc_octets dat) = 2"
  by (simp add: crc_octets_def Let_def)

lemma crc_shift_linear: "crc_shift a x XOR crc_shift b y = crc_shift (a \<noteq> b) (x XOR y)"
  by (rule bit_word_eqI) (auto simp: crc_shift_def bit_simps Let_def)

lemma crc_fold_linear:
  "length as = length bs \<Longrightarrow>
   fold crc_shift as x XOR fold crc_shift bs y = fold crc_shift (map2 (\<noteq>) as bs) (x XOR y)"
  by (induction as bs arbitrary: x y rule: list_induct2) (simp_all add: crc_shift_linear)

lemma crc_shift_bits:
  assumes "j < 16"
  shows "bit (crc_shift e x) j \<longleftrightarrow> ((j \<noteq> 0 \<and> bit x (j - 1)) \<noteq> ((e \<noteq> bit x 15) \<and> bit (0x8005 :: u16) j))"
proof -
  define y where "y = push_bit 1 x"
  have "bit y j \<longleftrightarrow> j \<noteq> 0 \<and> bit x (j - 1)" using assms unfolding y_def bit_push_bit_iff by auto
  moreover have "crc_shift e x = (if e \<noteq> bit x 15 then y XOR 0x8005 else y)" by (simp add: crc_shift_def y_def Let_def)
  ultimately show ?thesis by (auto simp: bit_xor_iff)
qed

lemma crc_shift_low: "bit (crc_shift e x) 0 \<longleftrightarrow> e \<noteq> bit x 15"
  by (simp add: crc_shift_bits)

text \<open>A register can only be cleared by the bits that are still in its upper end.\<close>

lemma crc_fold_zero:
  "length es \<le> 16 \<Longrightarrow> fold crc_shift es x = 0 \<Longrightarrow> j < 16 \<Longrightarrow> bit x (15 - j) \<longleftrightarrow> j < length es \<and> es ! j"
proof (induction es arbitrary: x j)
  case Nil
  then show ?case by simp
next
  case (Cons e es)
  let ?y = "crc_shift e x"
  have IH: "j < 16 \<Longrightarrow> bit ?y (15 - j) \<longleftrightarrow> j < length es \<and> es ! j" for j using Cons.IH [of ?y j] Cons.prems by simp
  have "\<not> bit ?y 0" using IH [of 15] Cons.prems by simp
  then have e: "e = bit x 15" by (simp add: crc_shift_low)
  show ?case
  proof (cases j)
    case 0
    then show ?thesis using e by simp
  next
    case (Suc i)
    then have "bit ?y (15 - i) = bit x (15 - j)" using Cons.prems(3) e by (simp add: crc_shift_bits)
    then show ?thesis using IH [of i] Suc Cons.prems(3) by simp
  qed
qed

lemma crc_shift_0: "crc_shift False 0 = 0"
  by (simp add: crc_shift_def)

lemma crc_fold_false: "\<forall>e\<in>set es. \<not> e \<Longrightarrow> fold crc_shift es 0 = 0"
proof (induction es)
  case (Cons e es)
  then have "e = False" by simp
  then show ?case using Cons by (simp add: crc_shift_0)
qed simp

lemma crc_shift_false_zero:
  assumes "crc_shift False x = 0"
  shows "x = 0"
proof (rule bit_word_eqI)
  fix n
  assume "n < LENGTH(16)"
  then have n: "n = 15 - (15 - n)" "15 - n < 16" by simp_all
  have "bit x (15 - (15 - n)) \<longleftrightarrow> 15 - n < 1 \<and> [False] ! (15 - n)"
    using crc_fold_zero [of "[False]" x "15 - n"] assms n(2) by simp
  then show "bit x n = bit 0 n" using n(1) by simp
qed

lemma crc_fold_false_zero: "\<forall>e\<in>set es. \<not> e \<Longrightarrow> fold crc_shift es x = 0 \<Longrightarrow> x = 0"
proof (induction es arbitrary: x)
  case (Cons e es)
  then have e: "e = False" by simp
  then have "crc_shift False x = 0" using Cons.IH [of "crc_shift False x"] Cons.prems by simp
  then show ?case by (rule crc_shift_false_zero)
qed simp

text \<open>A burst of at most sixteen bits leaves the register changed.\<close>

lemma crc_burst:
  assumes "fold crc_shift es 0 = 0" "\<And>i. i < length es \<Longrightarrow> es ! i \<Longrightarrow> k \<le> i \<and> i < k + 16"
  shows "\<forall>e\<in>set es. \<not> e"
proof -
  let ?a = "take k es" and ?b = "take 16 (drop k es)" and ?c = "drop (k + 16) es"
  have es: "es = ?a @ ?b @ ?c" by (metis add.commute append_take_drop_id drop_drop)
  have a: "\<forall>e\<in>set ?a. \<not> e"
  proof
    fix e assume "e \<in> set ?a"
    then obtain i where "i < length ?a" "?a ! i = e" by (auto simp: in_set_conv_nth)
    then show "\<not> e" using assms(2) [of i] by auto
  qed
  have c: "\<forall>e\<in>set ?c. \<not> e"
  proof
    fix e assume "e \<in> set ?c"
    then obtain i where "i < length ?c" "?c ! i = e" by (auto simp: in_set_conv_nth)
    then have "k + 16 + i < length es" "es ! (k + 16 + i) = e" by simp_all
    then show "\<not> e" using assms(2) [of "k + 16 + i"] by auto
  qed
  have "fold crc_shift ?c (fold crc_shift ?b 0) = 0"
    using assms(1) crc_fold_false [OF a] by (subst (asm) es) simp
  then have z: "fold crc_shift ?b 0 = 0" using crc_fold_false_zero [OF c] by blast
  have "\<not> ?b ! j" if "j < length ?b" for j
  proof -
    have "k \<le> length es" using that by (cases "k \<le> length es") simp_all
    then show ?thesis using crc_fold_zero [of ?b 0 j] z that by simp
  qed
  then have "\<forall>e\<in>set ?b. \<not> e" by (metis in_set_conv_nth)
  then show ?thesis using a c by (subst es) auto
qed

lemma length_octet_bits [simp]: "length (octet_bits d) = 8"
  by (simp add: octet_bits_def)

lemma length_msg_bits [simp]: "length (msg_bits dat) = 8 * length dat"
  by (induction dat) (simp_all add: msg_bits_def)

lemma nth_msg_bits: "i < 8 * length dat \<Longrightarrow> msg_bits dat ! i = bit (dat ! (i div 8)) (i mod 8)"
proof (induction dat arbitrary: i)
  case (Cons d dat)
  show ?case
  proof (cases "i < 8")
    case True
    then show ?thesis by (simp add: msg_bits_def nth_append octet_bits_def)
  next
    case False
    then have "msg_bits (d # dat) ! i = msg_bits dat ! (i - 8)" by (simp add: msg_bits_def nth_append)
    moreover have "i div 8 = Suc ((i - 8) div 8)" "i mod 8 = (i - 8) mod 8" using False by (simp_all add: le_div_geq le_mod_geq)
    ultimately show ?thesis using Cons.IH [of "i - 8"] Cons.prems False by simp
  qed
qed (simp add: msg_bits_def)

lemma msg_bits_inj: "length xs = length ys \<Longrightarrow> msg_bits xs = msg_bits ys \<Longrightarrow> xs = ys"
proof (rule nth_equalityI)
  fix i
  assume a: "length xs = length ys" "msg_bits xs = msg_bits ys" "i < length xs"
  have "bit (xs ! i) n = bit (ys ! i) n" if "n < 8" for n
  proof -
    have "8 * i + n < 8 * length xs" "8 * i + n < 8 * length ys" "(8 * i + n) div 8 = i" "(8 * i + n) mod 8 = n"
      using that a by simp_all
    then show ?thesis using nth_msg_bits [of "8 * i + n" xs] nth_msg_bits [of "8 * i + n" ys] a(2) by simp
  qed
  then show "xs ! i = ys ! i" by (simp add: byte_eq_iff)
qed

lemma ucast_low_octet: "ucast (x AND 0xFF) = (ucast x :: byte)" for x :: u16
  unfolding byte_bits by (simp add: bit_simps)

lemma u16_eq_octets:
  fixes x y :: u16
  assumes "(ucast x :: byte) = ucast y" "(ucast (drop_bit 8 x) :: byte) = ucast (drop_bit 8 y)"
  shows "x = y"
proof (rule bit_word_eqI)
  fix n
  assume n: "n < LENGTH(16)"
  show "bit x n = bit y n"
  proof (cases "n < 8")
    case True
    then show ?thesis using arg_cong [OF assms(1), of "\<lambda>w. bit w n"] by (simp add: bit_simps)
  next
    case False
    then have "n - 8 < 8" using n by simp
    then show ?thesis using False arg_cong [OF assms(2), of "\<lambda>w. bit w (n - 8)"] by (simp add: bit_simps)
  qed
qed

lemma crc_octets_inj:
  assumes "crc_octets xs = crc_octets ys"
  shows "fold crc_shift (msg_bits xs) 0 = fold crc_shift (msg_bits ys) 0"
  using assms by (intro u16_eq_octets) (simp_all add: crc_octets_def Let_def ucast_low_octet)

text \<open>
  C27. The checksum of a message of at most 255 octets changes whenever the message is changed within sixteen
  consecutive bits, wherever these are.
\<close>

theorem crc_detects_bursts:
  assumes "length xs = length ys" "length xs < 256" "xs \<noteq> ys"
    and "\<And>i. i < 8 * length xs \<Longrightarrow> bit (xs ! (i div 8)) (i mod 8) \<noteq> bit (ys ! (i div 8)) (i mod 8) \<Longrightarrow> k \<le> i \<and> i < k + 16"
  shows "\<exists>c d. sha204_calculate_crc (of_nat (length xs)) xs = Some c \<and> sha204_calculate_crc (of_nat (length ys)) ys = Some d \<and> c \<noteq> d"
proof -
  let ?e = "map2 (\<noteq>) (msg_bits xs) (msg_bits ys)"
  have "crc_octets xs \<noteq> crc_octets ys"
  proof
    assume "crc_octets xs = crc_octets ys"
    note r = crc_octets_inj [OF this]
    have "fold crc_shift ?e 0 = 0"
      using crc_fold_linear [of "msg_bits xs" "msg_bits ys" 0 0] assms(1) by (simp only: r length_msg_bits xor_self_eq)
    then have "\<forall>e\<in>set ?e. \<not> e" by (rule crc_burst) (use assms in \<open>simp add: nth_msg_bits\<close>)
    then have "\<not> ?e ! i" if "i < 8 * length xs" for i using that assms(1) by (metis (mono_tags, lifting) length_map length_msg_bits length_zip min.idem nth_mem)
    then have "msg_bits xs = msg_bits ys" using assms(1) by (intro nth_equalityI) simp_all
    then show False using msg_bits_inj assms by blast
  qed
  then show ?thesis using assms by (simp add: sha204_calculate_crc_eq)
qed

theorem crc_detects_bursts_witness:
  "\<exists>c d. sha204_calculate_crc 2 [4, 0x11] = Some c \<and> sha204_calculate_crc 2 [4, 0x91] = Some d \<and> c \<noteq> d"
proof -
  have "i < 16 \<Longrightarrow> 0 \<le> i \<and> i < 0 + 16" for i :: nat by simp
  then show ?thesis using crc_detects_bursts [of "[4, 0x11]" "[4, 0x91]" 0] by simp
qed

text \<open>
  The chip's documented wake-up answer and the answer the terminal expects to its challenge both end in the
  checksum of what precedes it.
\<close>

theorem crc_known_answers:
  "sha204_calculate_crc 2 [0x04, 0x11] = Some [0x33, 0x43] \<and>
   sha204_calculate_crc 33 mac_response_expected = Some (drop 33 mac_response_expected) \<and> length mac_response_expected = 35"
  by code_simp

section \<open>Exchanges\<close>

text \<open>What \<open>read\<close> documents: at most the octets asked for, and as many as it says.\<close>

definition bus_ok :: "'w bus \<Rightarrow> bool" where
  "bus_ok os \<longleftrightarrow> (\<forall>fd n w. case b_read os fd n w of (ret, bs, _) \<Rightarrow> ret \<le> int n \<and> (0 \<le> ret \<longrightarrow> length bs = nat ret))"

lemma bus_okD: "bus_ok os \<Longrightarrow> b_read os fd n w = (ret, bs, w') \<Longrightarrow> ret \<le> int n \<and> (0 \<le> ret \<longrightarrow> length bs = nat ret)"
  unfolding bus_ok_def by (metis (mono_tags, lifting) case_prod_conv)

text \<open>The octets of a command on the wire.\<close>

definition wire :: "u32 \<Rightarrow> byte list \<Rightarrow> byte list" where
  "wire addr hdr = ucast addr # hdr @ crc_octets (tl hdr)"

definition chip_read :: "'w bus \<Rightarrow> int \<Rightarrow> byte list \<Rightarrow> nat \<Rightarrow> 'w \<Rightarrow> int \<times> byte list \<times> 'w" where
  "chip_read os fd buff n w =
     (case b_write os fd [0] w of (m, w) \<Rightarrow>
        if m \<noteq> 1 then (-1, buff, w)
        else (case b_read os fd n w of (ret, bs, w) \<Rightarrow> if ret < 0 then (ret, buff, w) else (ret, bs @ drop (nat ret) buff, w)))"

lemma read_chip_eq:
  assumes "bus_ok os" "n \<le> length buff"
  shows "read_chip os fd buff 0 n w = Some (chip_read os fd buff n w)"
proof -
  obtain m w1 where "b_write os fd [0] w = (m, w1)" by fastforce
  moreover obtain ret bs w2 where r: "b_read os fd n w1 = (ret, bs, w2)" by (metis prod_cases3)
  ultimately show ?thesis using bus_okD [OF assms(1) r] assms(2)
    by (auto simp: read_chip_def chip_read_def memcpy_def)
qed

lemma write_chip_eq:
  "n \<le> 128 \<Longrightarrow> n \<le> length buff \<Longrightarrow> write_chip os fd buff addr n w = Some (b_write os fd (ucast addr # take n buff) w)"
  by (simp add: write_chip_def memcpy_def PAGE_SIZE_def buf_wr_def)

lemma sha204_packet_eq:
  assumes "hdr \<noteq> []" "length hdr + 2 \<le> cap" "length hdr \<le> 126"
  shows "sha204_packet cap hdr = Some (hdr @ crc_octets (tl hdr) @ replicate (cap - length hdr - 2) 0, length hdr + 2)"
proof -
  let ?buf = "hdr @ replicate (cap - length hdr) 0"
  have "take (length hdr - 1) (drop 1 ?buf) = tl hdr" "length (tl hdr) = length hdr - 1"
    using assms(1) by (cases hdr, simp_all)+
  then have "sha204_calculate_crc (of_nat (length hdr - 1)) (drop 1 ?buf) = Some (crc_octets (tl hdr))"
    using assms by (intro sha204_calculate_crc_eq) simp_all
  then show ?thesis using assms
    by (simp add: sha204_packet_def memcpy_def PACKET_CHECKSUM_SIZE_def)
qed

lemma sha204_exchange_eq:
  assumes "bus_ok os" "hdr \<noteq> []" "length hdr + 2 \<le> cap" "length hdr \<le> 126" "n \<le> rcap"
  shows "sha204_exchange os fd cap hdr addr rcap n w = Some
    (case b_write os fd (wire addr hdr) w of (m, w) \<Rightarrow>
       if m \<noteq> int (length hdr) + 3 then (-1, replicate rcap 0, w)
       else (case chip_read os fd (replicate rcap 0) n w of (ret, rd, w) \<Rightarrow> (if ret \<noteq> int n then -2 else 0, rd, w)))"
  using assms by (auto simp: sha204_exchange_def sha204_packet_eq write_chip_eq read_chip_eq wire_def split: prod.splits)

definition mac_hdr :: "byte list" where
  "mac_hdr = [3, 39, 8, 0x20, 0, 0] @ mac_challenge"

definition info_hdr :: "byte list" where
  "info_hdr = [3, 7, 2, 0x82, 0, 0]"

definition chip_reply :: "'w bus \<Rightarrow> int \<Rightarrow> byte list \<Rightarrow> nat \<Rightarrow> 'w \<Rightarrow> byte list option \<times> 'w" where
  "chip_reply os fd pkt n w =
     (case b_write os fd pkt w of (m, w) \<Rightarrow>
        if m \<noteq> int (length pkt) then (None, w)
        else (case b_write os fd [0] w of (m, w) \<Rightarrow>
          if m \<noteq> 1 then (None, w)
          else (case b_read os fd n w of (ret, bs, w) \<Rightarrow> (if ret = int n then Some bs else None, w))))"

lemma chip_reply_length: "bus_ok os \<Longrightarrow> chip_reply os fd pkt n w = (Some bs, w') \<Longrightarrow> length bs = n"
  by (auto simp: chip_reply_def split: prod.splits if_splits dest: bus_okD)

text \<open>
  The abstract exchange: a packet is sent, the answer is asked for and comes back whole or not at all.
\<close>

lemma exchange_reply:
  assumes "bus_ok os" "hdr \<noteq> []" "length hdr + 2 \<le> cap" "length hdr \<le> 126" "n \<le> rcap"
    and "chip_reply os fd (wire addr hdr) n w = (r, w')"
  shows "\<exists>ret rd. sha204_exchange os fd cap hdr addr rcap n w = Some (ret, rd, w') \<and>
    (case r of None \<Rightarrow> ret = -1 \<or> ret = -2 | Some bs \<Rightarrow> ret = 0 \<and> length bs = n \<and> rd = bs @ replicate (rcap - n) 0)"
proof -
  obtain m w1 where 1: "b_write os fd (wire addr hdr) w = (m, w1)" by fastforce
  obtain k w2 where 2: "b_write os fd [0] w1 = (k, w2)" by fastforce
  obtain ret bs w3 where 3: "b_read os fd n w2 = (ret, bs, w3)" by (metis prod_cases3)
  have l: "int (length (wire addr hdr)) = int (length hdr) + 3" by (simp add: wire_def)
  show ?thesis using assms(6) bus_okD [OF assms(1) 3] unfolding sha204_exchange_eq [OF assms(1-5)]
    by (auto simp: chip_reply_def chip_read_def 1 2 3 l split: if_splits)
qed

section \<open>Transcripts\<close>

text \<open>Every call that reaches the kernel, with its result, in order.\<close>

datatype call = Open int | Ioctl int int | Write int "byte list" int | Read int nat int "byte list" | Close int

definition logged :: "'w bus \<Rightarrow> ('w \<times> call list) bus" where
  "logged os = \<lparr>
     b_open = (\<lambda>p (w, l). case b_open os p w of (fd, w) \<Rightarrow> (fd, w, l @ [Open fd])),
     b_ioctl = (\<lambda>fd a (w, l). case b_ioctl os fd a w of (r, w) \<Rightarrow> (r, w, l @ [Ioctl fd r])),
     b_write = (\<lambda>fd bs (w, l). case b_write os fd bs w of (r, w) \<Rightarrow> (r, w, l @ [Write fd bs r])),
     b_read = (\<lambda>fd n (w, l). case b_read os fd n w of (r, bs, w) \<Rightarrow> (r, bs, w, l @ [Read fd n r bs])),
     b_close = (\<lambda>fd (w, l). (b_close os fd w, l @ [Close fd]))\<rparr>"

lemma bus_ok_logged: "bus_ok os \<Longrightarrow> bus_ok (logged os)"
  by (auto simp: bus_ok_def logged_def split: prod.splits) (metis case_prodD)+

text \<open>Descriptors that were opened and not closed.\<close>

fun left_open :: "call list \<Rightarrow> int list" where
  "left_open [] = []"
| "left_open (Open fd # l) = (if 0 \<le> fd \<and> Close fd \<notin> set l then fd # left_open l else left_open l)"
| "left_open (_ # l) = left_open l"

definition no_descr :: "call \<Rightarrow> bool" where
  "no_descr c = (case c of Open _ \<Rightarrow> False | Close _ \<Rightarrow> False | _ \<Rightarrow> True)"

lemma left_open_no_descr: "list_all no_descr l \<Longrightarrow> left_open l = []"
  by (induction l rule: left_open.induct) (auto simp: no_descr_def)

lemma no_close: "list_all no_descr l \<Longrightarrow> Close fd \<notin> set l"
  by (induction l) (auto simp: no_descr_def)

lemma left_open_append_Close: "left_open (l @ [Close fd]) = filter (\<lambda>x. x \<noteq> fd) (left_open l)"
  by (induction l rule: left_open.induct) auto

text \<open>One device, opened first, and only reads and writes since.\<close>

lemma left_open_session:
  assumes "0 \<le> fd" "list_all no_descr k"
  shows "left_open ([Open fd, Ioctl fd e] @ k) = [fd]" "left_open (([Open fd, Ioctl fd e] @ k) @ [Close fd]) = []"
  using assms by (auto simp: left_open_no_descr no_close left_open_append_Close simp del: append_assoc)

lemma logged_reply:
  assumes "chip_reply (logged os) fd pkt n (w, l) = (r, w', l')"
  shows "\<exists>k. l' = l @ k \<and> list_all no_descr k \<and> length k \<le> 3 \<and>
    (\<forall>bs. r = Some bs \<longleftrightarrow> k = [Write fd pkt (int (length pkt)), Write fd [0] 1, Read fd n (int n) bs])"
  using assms by (auto simp: chip_reply_def logged_def no_descr_def split: prod.splits if_splits)

definition woken :: "int \<Rightarrow> call list \<Rightarrow> bool" where
  "woken fd k \<longleftrightarrow> (\<exists>n st. k = [Write fd [0, 0] n, Write fd [0] 1, Read fd 4 4 st] \<and> st ! 1 = 0x11)"

lemma logged_wakeup:
  assumes "bus_ok os"
  shows "\<exists>ret w' k. sha204_wakeup (logged os) fd (w, l) = Some (ret, w', l @ k) \<and> list_all no_descr k \<and> length k \<le> 3 \<and>
    (ret < 0 \<longleftrightarrow> \<not> woken fd k)"
proof -
  obtain m w1 where 1: "b_write os fd [0, 0] w = (m, w1)" by fastforce
  obtain k w2 where 2: "b_write os fd [0] w1 = (k, w2)" by fastforce
  obtain ret bs w3 where 3: "b_read os fd 4 w2 = (ret, bs, w3)" by (metis prod_cases3)
  have "length bs = 4" if "ret = 4" using bus_okD [OF assms 3] that by simp
  moreover have "write_chip (logged os) fd [0] 0 1 (w, l) = Some (m, w1, l @ [Write fd [0, 0] m])"
    by (simp add: write_chip_eq logged_def 1)
  moreover have "read_chip (logged os) fd (replicate 4 0) 0 4 (w1, l @ [Write fd [0, 0] m]) =
      Some (chip_read (logged os) fd (replicate 4 0) 4 (w1, l @ [Write fd [0, 0] m]))"
    using bus_ok_logged [OF assms] by (rule read_chip_eq) simp
  ultimately show ?thesis
    by (cases "ret = 4") (auto simp: sha204_wakeup_def WAKEUP_RSP_SIZE_def chip_read_def logged_def 2 3 woken_def no_descr_def
        buf_rd_def nth_append)
qed

text \<open>Opening the device: the transcript so far, and a descriptor that stays open when the \<open>ioctl\<close> fails.\<close>

lemma logged_init:
  "\<exists>f e w' fd l. i2c_dev_init (logged os) CHIP CHIP_ADDR (w, []) = (fd, w', l) \<and>
     (f < 0 \<and> fd = -1 \<and> l = [Open f] \<or> 0 \<le> f \<and> e < 0 \<and> fd = -2 \<and> l = [Open f, Ioctl f e] \<or>
      0 \<le> f \<and> 0 \<le> e \<and> fd = f \<and> l = [Open f, Ioctl f e])"
proof -
  obtain f w1 where 1: "b_open os CHIP w = (f, w1)" by fastforce
  obtain e w2 where 2: "b_ioctl os f CHIP_ADDR w1 = (e, w2)" by fastforce
  show ?thesis by (rule exI [of _ f], rule exI [of _ e]) (auto simp: i2c_dev_init_def logged_def 1 2)
qed

lemma sha204_mac_eq:
  assumes "bus_ok os" "chip_reply os fd (wire 0 mac_hdr) 35 w = (r, w')"
  shows "\<exists>ret rx. sha204_mac os fd (replicate MAC_RSP_SIZE 0) 0x20 0 mac_challenge w = Some (ret, rx, w') \<and>
    (case r of None \<Rightarrow> ret < 0 | Some bs \<Rightarrow> ret = 0 \<and> rx = bs)"
proof -
  have ch: "length mac_challenge = 32" by (simp add: mac_challenge_def)
  then have "length mac_hdr = 38" by (simp add: mac_hdr_def)
  then have "mac_hdr \<noteq> []" "length mac_hdr + 2 \<le> 128" "length mac_hdr \<le> 126" by auto
  from exchange_reply [OF assms(1) this, of 35 128 fd 0 w r w'] assms(2)
  obtain ret rd where e: "sha204_exchange os fd 128 mac_hdr 0 128 35 w = Some (ret, rd, w')"
    and c: "case r of None \<Rightarrow> ret = -1 \<or> ret = -2 | Some bs \<Rightarrow> ret = 0 \<and> length bs = 35 \<and> rd = bs @ replicate (128 - 35) 0"
    by auto
  have h: "[SHA204_NORMAL, MIN_PAKET_SIZE + of_nat MAC_CHALLENGE_SIZE, SHA204_MAC, 0x20, ucast (0 AND 0xff :: u16),
      ucast (drop_bit 8 0 :: u16)] @ mac_challenge = mac_hdr"
    by (simp add: mac_hdr_def sha204_codes sha204_sizes)
  have m: "memcpy (replicate MAC_CHALLENGE_SIZE 0) 0 mac_challenge 0 MAC_CHALLENGE_SIZE = Some mac_challenge"
    using ch by (simp add: memcpy_def MAC_CHALLENGE_SIZE_def)
  have "sha204_mac os fd (replicate MAC_RSP_SIZE 0) 0x20 0 mac_challenge w =
      (if ret < 0 then Some (ret, replicate MAC_RSP_SIZE 0, w')
       else map_option (\<lambda>rx. (0, rx, w')) (memcpy (replicate MAC_RSP_SIZE 0) 0 rd 0 MAC_RSP_SIZE))"
    unfolding sha204_mac_def m bind.bind_lunit h by (simp add: MAX_BUF_SIZE_def MAC_RSP_SIZE_def e map_conv_bind_option comp_def)
  then show ?thesis using c by (cases r) (auto simp: memcpy_def MAC_RSP_SIZE_def)
qed

text \<open>The transcript of an accepted key.\<close>

definition accepted :: "int \<Rightarrow> call list \<Rightarrow> bool" where
  "accepted fd log \<longleftrightarrow> (\<exists>e k. 0 \<le> fd \<and> 0 \<le> e \<and> woken fd k \<and> log = [Open fd, Ioctl fd e] @ k @
     [Write fd (wire 0 mac_hdr) 41, Write fd [0] 1, Read fd 35 35 mac_response_expected])"

lemma accepted_last: "accepted fd (l @ [c]) \<Longrightarrow> c = Read fd 35 35 mac_response_expected"
  unfolding accepted_def by (metis (no_types, opaque_lifting) append_Cons append_Nil append_assoc last_snoc)

text \<open>
  C8. Verification of the terminal's key: it succeeds exactly when the transcript is device opened and addressed, chip
  woken with status 0x11, challenge packet sent whole, and the expected 35 octets read back. A failure leaves no
  descriptor open unless it was the \<open>ioctl\<close> that failed; then the device stays open and -2 is closed instead. After success the
  device stays open in the global \<open>fd\<close>. No access leaves a buffer whatever the kernel answers.
\<close>

theorem verify_transcript:
  assumes "bus_ok os"
  shows "\<exists>r fd w' log. LIB_Encry_Verify (logged os) (w, []) = Some (r, fd, w', log) \<and>
    (r = LIB_EV_OK \<longleftrightarrow> accepted fd log) \<and>
    left_open log = (if r = LIB_EV_OK then [fd] else if fd = -2 then [case hd log of Open f \<Rightarrow> f] else [])"
proof -
  obtain f e w1 fd l where i: "i2c_dev_init (logged os) CHIP CHIP_ADDR (w, []) = (fd, w1, l)"
    and c: "f < 0 \<and> fd = -1 \<and> l = [Open f] \<or> 0 \<le> f \<and> e < 0 \<and> fd = -2 \<and> l = [Open f, Ioctl f e] \<or>
      0 \<le> f \<and> 0 \<le> e \<and> fd = f \<and> l = [Open f, Ioctl f e]"
    using logged_init [of os w] by blast
  have close: "b_close (logged os) x (v, m) = (b_close os x v, m @ [Close x])" for x v m by (simp add: logged_def)
  note codes = LIB_EV_ERR_def LIB_EV_OK_def LIB_WAKE_UP_SUCCESS_def
  show ?thesis
  proof (cases "0 \<le> fd")
    case False
    then show ?thesis using c by (auto simp: LIB_Encry_Verify_def i close codes accepted_def)
  next
    case True
    then have l: "l = [Open fd, Ioctl fd e]" "0 \<le> e" using c by auto
    obtain ret w2 k where wk: "sha204_wakeup (logged os) fd (w1, l) = Some (ret, w2, l @ k)" "list_all no_descr k"
      "ret < 0 \<longleftrightarrow> \<not> woken fd k"
      using logged_wakeup [OF assms] by blast
    obtain rep w3 l3 where rep: "chip_reply (logged os) fd (wire 0 mac_hdr) 35 (w2, l @ k) = (rep, w3, l3)" by (metis prod_cases3)
    obtain k' where k': "l3 = (l @ k) @ k'" "list_all no_descr k'"
      "\<And>bs. rep = Some bs \<Longrightarrow> k' = [Write fd (wire 0 mac_hdr) 41, Write fd [0] 1, Read fd 35 35 bs]"
      using logged_reply [OF rep] by (auto simp: wire_def mac_hdr_def mac_challenge_def)
    obtain mr rx where mac: "sha204_mac (logged os) fd (replicate MAC_RSP_SIZE 0) 0x20 0 mac_challenge (w2, l @ k) = Some (mr, rx, w3, l3)"
      and cs: "case rep of None \<Rightarrow> mr < 0 | Some bs \<Rightarrow> mr = 0 \<and> rx = bs"
      using sha204_mac_eq [OF bus_ok_logged [OF assms] rep] by blast
    have res: "LIB_Encry_Verify (logged os) (w, []) = Some
       (if ret < 0 then (LIB_EV_ERR, fd, b_close os fd w2, (l @ k) @ [Close fd])
        else if mr < 0 then (LIB_EV_ERR, fd, b_close os fd w3, l3 @ [Close fd])
        else if rx = mac_response_expected then (LIB_EV_OK, fd, w3, l3)
        else (LIB_WAKE_UP_SUCCESS, fd, b_close os fd w3, l3 @ [Close fd]))"
      using True by (simp add: LIB_Encry_Verify_def i wk(1) mac close)
    have lo: "left_open l3 = [fd]" "left_open (l3 @ [Close fd]) = []" "left_open ((l @ k) @ [Close fd]) = []"
      using left_open_session [OF True, of "k @ k'" e] left_open_session [OF True wk(2), of e] k'(1,2) wk(2)
      by (simp_all add: l(1))
    have shut: "\<not> accepted fd (m @ [Close fd])" for m by (auto dest: accepted_last)
    have acc: "accepted fd l3" if "woken fd k" "rep = Some mac_response_expected"
      using that True l k'(1) k'(3) [OF that(2)] unfolding accepted_def by auto
    have codes: "LIB_EV_ERR \<noteq> LIB_EV_OK" "LIB_WAKE_UP_SUCCESS \<noteq> LIB_EV_OK" by (simp_all add: codes)
    show ?thesis unfolding res
      using True wk(3) cs acc shut lo codes by (cases rep) (auto simp del: append_assoc split: if_splits)
  qed
qed

text \<open>A chip that answers every request for 35 octets with \<open>resp\<close>.\<close>

definition demo_chip :: "byte list \<Rightarrow> unit bus" where
  "demo_chip resp = \<lparr>b_open = (\<lambda>p w. (3, w)), b_ioctl = (\<lambda>fd a w. (0, w)), b_write = (\<lambda>fd bs w. (int (length bs), w)),
     b_read = (\<lambda>fd n w. let bs = take n (if n = 4 then [0x04, 0x11, 0x33, 0x43] else resp) in (int (length bs), bs, w)),
     b_close = (\<lambda>fd w. w)\<rparr>"

lemma bus_ok_demo_chip: "bus_ok (demo_chip resp)"
  by (simp add: bus_ok_def demo_chip_def Let_def)

lemma demo_verify:
  "map_option fst (LIB_Encry_Verify (logged (demo_chip mac_response_expected)) ((), [])) = Some LIB_EV_OK"
  by code_simp

theorem verify_transcript_witness:
  "\<exists>fd w' log. LIB_Encry_Verify (logged (demo_chip mac_response_expected)) ((), []) = Some (LIB_EV_OK, fd, w', log) \<and>
    accepted fd log \<and> left_open log = [fd]"
  using verify_transcript [OF bus_ok_demo_chip, of mac_response_expected "()"] demo_verify by auto

section \<open>Device information\<close>

lemma sha204_read_eq:
  assumes "bus_ok os" "chip_reply os fd (wire stk info_hdr) 35 w = (r, w')"
  shows "\<exists>ret rx. sha204_read os stk fd (replicate 128 0) 35 (SHA204_ZONE_DATA OR 0x80) 0x00 w = Some (ret, rx, w') \<and>
    (case r of None \<Rightarrow> ret < 0 | Some bs \<Rightarrow> ret = 35 \<and> length bs = 35 \<and> rx = bs @ replicate 93 0)"
proof -
  have "info_hdr \<noteq> []" "length info_hdr + 2 \<le> 128" "length info_hdr \<le> 126" by (simp_all add: info_hdr_def)
  from exchange_reply [OF assms(1) this, of 35 128 fd stk w r w'] assms(2)
  obtain ret rd where e: "sha204_exchange os fd 128 info_hdr stk 128 35 w = Some (ret, rd, w')"
    and c: "case r of None \<Rightarrow> ret = -1 \<or> ret = -2 | Some bs \<Rightarrow> ret = 0 \<and> length bs = 35 \<and> rd = bs @ replicate (128 - 35) 0"
    by auto
  have h: "[SHA204_NORMAL, MIN_PAKET_SIZE, SHA204_READ, SHA204_ZONE_DATA OR 0x80, ucast (0x00 AND SHA204_ADDRESS_MASK), 0] = info_hdr"
    by (simp add: info_hdr_def sha204_codes sha204_sizes)
  have "sha204_read os stk fd (replicate 128 0) 35 (SHA204_ZONE_DATA OR 0x80) 0x00 w =
      (if ret < 0 then Some (ret, replicate 128 0, w')
       else map_option (\<lambda>rx. (35, rx, w')) (memcpy (replicate 128 0) 0 rd 0 35))"
    unfolding sha204_read_def h by (simp add: MAX_BUF_SIZE_def e map_conv_bind_option comp_def)
  then show ?thesis using c by (cases r) (auto simp: memcpy_def)
qed

text \<open>The transcript of a device information that was read.\<close>

definition info_read :: "u32 \<Rightarrow> int \<Rightarrow> byte list \<Rightarrow> call list \<Rightarrow> bool" where
  "info_read stk fd bs log \<longleftrightarrow> (\<exists>e k. 0 \<le> fd \<and> 0 \<le> e \<and> woken fd k \<and> length bs = 35 \<and> log = [Open fd, Ioctl fd e] @ k @
     [Write fd (wire stk info_hdr) 9, Write fd [0] 1, Read fd 35 35 bs, Close fd])"

lemma info_read_session:
  assumes "0 \<le> fd" "0 \<le> e" "length k \<le> 3" "length k' \<le> 3"
  shows "info_read stk fd bs ([Open fd, Ioctl fd e] @ k @ k' @ [Close fd]) \<longleftrightarrow>
    woken fd k \<and> length bs = 35 \<and> k' = [Write fd (wire stk info_hdr) 9, Write fd [0] 1, Read fd 35 35 bs]"
proof
  assume "info_read stk fd bs ([Open fd, Ioctl fd e] @ k @ k' @ [Close fd])"
  then obtain k2 where k2: "woken fd k2" "length bs = 35"
    "k @ k' = k2 @ [Write fd (wire stk info_hdr) 9, Write fd [0] 1, Read fd 35 35 bs]"
    by (auto simp: info_read_def)
  then have "length k2 = 3" by (auto simp: woken_def)
  then have "length k = length k2" using arg_cong [OF k2(3), of length] assms(3,4) by simp
  then show "woken fd k \<and> length bs = 35 \<and> k' = [Write fd (wire stk info_hdr) 9, Write fd [0] 1, Read fd 35 35 bs]"
    using k2 by simp
qed (use assms in \<open>auto simp: info_read_def\<close>)

text \<open>
  Reading the device information: it reports 32 octets exactly when the chip woke and answered the read command with 35
  octets, and stores octets 1 to 32 of the answer; the checksum at its end is not looked at. The first octet of the
  command is the low octet of a stack address, \<open>stk\<close>. On every other path the caller's buffer is unchanged. The device is closed unless
  the \<open>ioctl\<close> failed.
\<close>

theorem device_info_transcript:
  assumes "bus_ok os" "32 \<le> length info"
  shows "\<exists>r info' fd w' log. read_device_info (logged os) stk g (Some info) (w, []) = Some (r, Some info', fd, w', log) \<and>
    (r = 32 \<and> (\<exists>bs. info_read stk fd bs log \<and> info' = take 32 (drop 1 bs) @ drop 32 info) \<or>
     r = LIB_EV_ERR \<and> info' = info \<and> (\<nexists>bs. info_read stk fd bs log)) \<and>
    left_open log = (if fd = -2 then [case hd log of Open f \<Rightarrow> f] else [])"
proof -
  obtain f e w1 fd l where i: "i2c_dev_init (logged os) CHIP CHIP_ADDR (w, []) = (fd, w1, l)"
    and c: "f < 0 \<and> fd = -1 \<and> l = [Open f] \<or> 0 \<le> f \<and> e < 0 \<and> fd = -2 \<and> l = [Open f, Ioctl f e] \<or>
      0 \<le> f \<and> 0 \<le> e \<and> fd = f \<and> l = [Open f, Ioctl f e]"
    using logged_init [of os w] by blast
  have close: "b_close (logged os) x (v, m) = (b_close os x v, m @ [Close x])" for x v m by (simp add: logged_def)
  show ?thesis
  proof (cases "0 \<le> fd")
    case False
    then show ?thesis using c by (auto simp: read_device_info_def i close info_read_def)
  next
    case True
    then have l: "l = [Open fd, Ioctl fd e]" "0 \<le> e" using c by auto
    obtain ret w2 k where wk: "sha204_wakeup (logged os) fd (w1, l) = Some (ret, w2, l @ k)" "list_all no_descr k"
      "ret < 0 \<longleftrightarrow> \<not> woken fd k" "length k \<le> 3"
      using logged_wakeup [OF assms(1)] by blast
    obtain rep w3 l3 where rep: "chip_reply (logged os) fd (wire stk info_hdr) 35 (w2, l @ k) = (rep, w3, l3)" by (metis prod_cases3)
    obtain k' where k': "l3 = (l @ k) @ k'" "list_all no_descr k'"
      "\<And>bs. rep = Some bs \<longleftrightarrow> k' = [Write fd (wire stk info_hdr) 9, Write fd [0] 1, Read fd 35 35 bs]" "length k' \<le> 3"
      using logged_reply [OF rep] by (auto simp: wire_def info_hdr_def)
    obtain mr rx where rd: "sha204_read (logged os) stk fd (replicate 128 0) 35 (SHA204_ZONE_DATA OR 0x80) 0x00 (w2, l @ k) = Some (mr, rx, w3, l3)"
      and cs: "case rep of None \<Rightarrow> mr < 0 | Some bs \<Rightarrow> mr = 35 \<and> length bs = 35 \<and> rx = bs @ replicate 93 0"
      using sha204_read_eq [OF bus_ok_logged [OF assms(1)] rep] by blast
    have res: "read_device_info (logged os) stk g (Some info) (w, []) =
       (if ret < 0 then Some (LIB_EV_ERR, Some info, fd, b_close os fd w2, (l @ k) @ [Close fd])
        else if mr \<noteq> 35 then Some (LIB_EV_ERR, Some info, fd, b_close os fd w3, l3 @ [Close fd])
        else map_option (\<lambda>d. (32, Some d, fd, b_close os fd w3, l3 @ [Close fd])) (memcpy info 0 rx 1 32))"
      using True by (simp add: read_device_info_def i wk(1) rd close map_conv_bind_option comp_def)
    have lo: "left_open (l3 @ [Close fd]) = []" "left_open ((l @ k) @ [Close fd]) = []"
      using left_open_session(2) [OF True, of "k @ k'" e] left_open_session(2) [OF True wk(2), of e] k'(1,2) wk(2)
      by (simp_all add: l(1))
    have early: "\<not> info_read stk fd bs ((l @ k) @ [Close fd])" for bs
      using wk(4) by (auto simp: info_read_def l(1) woken_def)
    have late: "info_read stk fd bs (l3 @ [Close fd]) \<longleftrightarrow> woken fd k \<and> rep = Some bs \<and> length bs = 35" for bs
      using info_read_session [OF True l(2) wk(4) k'(4)] k'(3) by (simp add: k'(1) l(1) conj_commute)
    show ?thesis
    proof (cases "ret < 0")
      case True
      then show ?thesis using early lo \<open>0 \<le> fd\<close> by (auto simp: res simp del: append_assoc)
    next
      case False
      then show ?thesis using late lo \<open>0 \<le> fd\<close> cs wk(3) assms(2)
        by (cases rep) (auto simp: res memcpy_def simp del: append_assoc)
    qed
  qed
qed

lemma demo_info:
  "map_option (\<lambda>(r, info, _). (r, info)) (read_device_info (logged (demo_chip (replicate 35 7))) 0xBEFFF7A4 (-1)
     (Some (replicate 32 0)) ((), [])) = Some (32, Some (replicate 32 7))"
  by code_simp

theorem device_info_transcript_witness:
  "\<exists>fd w' log bs. read_device_info (logged (demo_chip (replicate 35 7))) 0xBEFFF7A4 (-1) (Some (replicate 32 0)) ((), []) =
      Some (32, Some (replicate 32 7), fd, w', log) \<and> info_read 0xBEFFF7A4 fd bs log"
  using device_info_transcript [OF bus_ok_demo_chip, of "replicate 32 0" "replicate 35 7" "0xBEFFF7A4" "-1" "()"] demo_info
  by (auto simp: LIB_EV_ERR_def)

section \<open>A read larger than the buffer\<close>

text \<open>
  \<open>sha204_read\<close> takes a size of up to 255 and reads into an array of 128: when the chip delivers the octets asked for and
  these are more than 128, the array is overrun.
\<close>

theorem oversize_read_overruns:
  assumes "128 < unat sz" "\<And>bs w. b_write os fd bs w = (int (length bs), w)"
    and "\<And>w. b_read os fd (unat sz) w = (int (unat sz), answer, w)"
  shows "sha204_read os stk fd rx_buf sz zone address w = None"
proof -
  let ?h = "[SHA204_NORMAL, MIN_PAKET_SIZE, SHA204_READ, zone, ucast (address AND SHA204_ADDRESS_MASK), 0]"
  have "sha204_packet MAX_BUF_SIZE ?h = Some (?h @ crc_octets (tl ?h) @ replicate (MAX_BUF_SIZE - length ?h - 2) 0, length ?h + 2)"
    by (rule sha204_packet_eq) (simp_all add: MAX_BUF_SIZE_def)
  then have "sha204_exchange os fd MAX_BUF_SIZE ?h stk MAX_BUF_SIZE (unat sz) w = None"
    using assms by (simp add: sha204_exchange_def write_chip_eq read_chip_def memcpy_def MAX_BUF_SIZE_def)
  then show ?thesis by (simp add: sha204_read_def)
qed

theorem oversize_read_overruns_witness:
  "sha204_read (demo_chip (replicate 200 7)) 0xBEFFF7A4 3 (replicate 200 0) 200 2 0 () = None"
  by (rule oversize_read_overruns [where answer = "replicate 200 7"]) (simp_all add: demo_chip_def)

end
