(* ===== verification/CString.thy ===== *)
theory CString
  imports Prelude Complex_Main
begin

text \<open>
  C strings and numbers as the parsers of this program use them: \<open>strtok\<close> on a buffer that it changes, \<open>atoi\<close>, decimal fractions as \<open>atof\<close> and
  \<open>%lf\<close> read them, and floating-point rounding. Characters are octets. A read behind the end of the buffer is \<open>None\<close>.
\<close>

section \<open>Strings in memory\<close>

text \<open>The octets from \<open>off\<close> up to the first NUL.\<close>

definition c_str :: "byte list \<Rightarrow> nat \<Rightarrow> byte list option" where
  "c_str mem off = (if 0 \<in> set (drop off mem) then Some (takeWhile (\<lambda>c. c \<noteq> 0) (drop off mem)) else None)"

definition strlen :: "byte list \<Rightarrow> nat" where
  "strlen s = length (takeWhile (\<lambda>c. c \<noteq> 0) s)"

definition str :: "string \<Rightarrow> byte list" where
  "str s = map of_char s"

text \<open>
  \<open>strtok\<close> with one separator, from the place where the last call stopped: the buffer with the separator behind the token overwritten, the
  token's place if there is one, and the new place.
\<close>

definition strtok :: "byte list \<Rightarrow> nat \<Rightarrow> byte \<Rightarrow> (byte list \<times> nat option \<times> nat) option" where
  "strtok mem pos d =
     (let start = pos + length (takeWhile (\<lambda>c. c = d) (drop pos mem)) in
      do {
        c \<leftarrow> buf_rd mem start;
        if c = 0 then Some (mem, None, start)
        else let e = start + length (takeWhile (\<lambda>c. c \<noteq> d \<and> c \<noteq> 0) (drop start mem)) in
          do {
            c \<leftarrow> buf_rd mem e;
            if c = 0 then Some (mem, Some start, e) else Some (mem[e := 0], Some start, e + 1)
          }
      })"

section \<open>Numbers\<close>

definition isspace :: "byte \<Rightarrow> bool" where
  "isspace c \<longleftrightarrow> c = 32 \<or> (9 \<le> c \<and> c \<le> 13)"

definition isdigit :: "byte \<Rightarrow> bool" where
  "isdigit c \<longleftrightarrow> 48 \<le> c \<and> c \<le> 57"

definition digits_value :: "byte list \<Rightarrow> nat" where
  "digits_value ds = foldl (\<lambda>v c. 10 * v + (unat c - 48)) 0 ds"

definition sign :: "byte list \<Rightarrow> bool \<times> byte list" where
  "sign s = (case s of [] \<Rightarrow> (False, []) | c # r \<Rightarrow> if c = 45 then (True, r) else if c = 43 then (False, r) else (False, s))"

text \<open>The value is that of C for numbers in the range of \<open>int\<close>; beyond it C leaves it undefined.\<close>

definition atoi :: "byte list \<Rightarrow> int" where
  "atoi s = (case sign (dropWhile isspace s) of (neg, s) \<Rightarrow>
     let v = int (digits_value (takeWhile isdigit s)) in if neg then - v else v)"

text \<open>A decimal number with optional fraction and exponent at the start of a string, as an exact quotient; \<open>None\<close> without digits. The hexadecimal, infinite
and not-a-number forms do not occur in what the receivers send.\<close>

definition scan_exponent :: "byte list \<Rightarrow> int" where
  "scan_exponent s = (case s of [] \<Rightarrow> 0 | c # r \<Rightarrow>
     if c = 69 \<or> c = 101 then (case sign r of (neg, r) \<Rightarrow>
       let e = int (digits_value (takeWhile isdigit r)) in if neg then - e else e) else 0)"

definition scan_decimal :: "byte list \<Rightarrow> rat option" where
  "scan_decimal s = (case sign (dropWhile isspace s) of (neg, s) \<Rightarrow>
     let ds = takeWhile isdigit s; s = dropWhile isdigit s;
         (fs, s) = (case s of [] \<Rightarrow> ([], []) | c # r \<Rightarrow> if c = 46 then (takeWhile isdigit r, dropWhile isdigit r) else ([], s))
     in if ds @ fs = [] then None
        else let v = of_nat (digits_value (ds @ fs)) / 10 ^ length fs * 10 powi (scan_exponent s)
             in Some (if neg then - v else v))"

section \<open>Floating point\<close>

text \<open>
  Rounding to \<open>p\<close> significant bits, ties to even: \<open>p\<close> is 24 for \<open>float\<close> and 53 for \<open>double\<close>. Magnitudes here stay far from overflow and from
  the subnormal range.
\<close>

definition round_even :: "rat \<Rightarrow> int" where
  "round_even m = (let f = \<lfloor>m\<rfloor>; r = m - of_int f in
     if r < 1 / 2 then f else if r > 1 / 2 then f + 1 else if even f then f else f + 1)"

fun bits_of :: "nat \<Rightarrow> nat" where
  "bits_of n = (if n = 0 then 0 else 1 + bits_of (n div 2))"

declare bits_of.simps [simp del]

text \<open>A unit in the last place: with \<open>2\<^sup>e \<le> \<bar>q\<bar> < 2\<^sup>e\<^sup>+\<^sup>1\<close> it is \<open>2\<close> to the \<open>e + 1 - p\<close>.\<close>

definition fl_exp :: "rat \<Rightarrow> int" where
  "fl_exp q = (case quotient_of q of (n, d) \<Rightarrow>
     let e = int (bits_of (nat \<bar>n\<bar>)) - int (bits_of (nat d)) in if \<bar>q\<bar> < 2 powi e then e - 1 else e)"

definition fl :: "nat \<Rightarrow> rat \<Rightarrow> rat" where
  "fl p q = (if q = 0 then 0 else let u = 2 powi (fl_exp q + 1 - int p) in of_int (round_even (q / u)) * u)"

definition f32 :: "rat \<Rightarrow> rat" where "f32 = fl 24"
definition f64 :: "rat \<Rightarrow> rat" where "f64 = fl 53"

definition atof :: "byte list \<Rightarrow> rat" where
  "atof s = (case scan_decimal s of None \<Rightarrow> 0 | Some q \<Rightarrow> f64 q)"

text \<open>\<open>(int) x\<close> truncates.\<close>

definition to_int :: "rat \<Rightarrow> int" where
  "to_int x = (if 0 \<le> x then \<lfloor>x\<rfloor> else \<lceil>x\<rceil>)"

text \<open>A token lies ahead of the place it was looked for at.\<close>

lemma strtok_progress:
  assumes "strtok mem pos d = Some (mem', Some p, pos')"
  shows "pos < pos'" "pos < length mem" "length mem' = length mem"
proof -
  let ?start = "pos + length (takeWhile (\<lambda>c. c = d) (drop pos mem))"
  let ?e = "?start + length (takeWhile (\<lambda>c. c \<noteq> d \<and> c \<noteq> 0) (drop ?start mem))"
  obtain c where c: "buf_rd mem ?start = Some c" "c \<noteq> 0"
    using assms by (auto simp: strtok_def Let_def bind_eq_Some_conv split: if_splits)
  then have lt: "?start < length mem" "mem ! ?start = c" by (simp_all add: buf_rd_Some_iff)
  have "c \<noteq> d"
  proof
    assume "c = d"
    let ?w = "takeWhile (\<lambda>c. c = d) (drop pos mem)"
    have "length ?w < length (drop pos mem)" using lt by simp
    then have "drop pos mem ! length ?w \<noteq> d" using nth_length_takeWhile by blast
    then show False using lt \<open>c = d\<close> by (simp add: nth_drop)
  qed
  have "drop ?start mem = c # drop (Suc ?start) mem" using lt by (metis Cons_nth_drop_Suc)
  then have "?start < ?e" using c(2) \<open>c \<noteq> d\<close> by simp
  then show "pos < pos'" "pos < length mem" "length mem' = length mem" using assms c lt
    by (auto simp: strtok_def Let_def bind_eq_Some_conv split: if_splits)
qed

lemma strtok_less: "strtok mem pos d = Some (mem', Some p, pos') \<Longrightarrow> length mem' - pos' < length mem - pos"
  by (metis diff_less_mono2 strtok_progress)

section \<open>Fields\<close>

definition plain :: "byte \<Rightarrow> byte list \<Rightarrow> bool" where
  "plain d f \<longleftrightarrow> f \<noteq> [] \<and> d \<notin> set f \<and> 0 \<notin> set f"

lemma c_str_drop: "drop p mem = f @ 0 # r \<Longrightarrow> 0 \<notin> set f \<Longrightarrow> c_str mem p = Some f"
  by (auto simp: c_str_def takeWhile_tail)

lemma c_str_app: "0 \<notin> set s \<Longrightarrow> c_str (s @ 0 # rest) 0 = Some s"
  by (auto simp: c_str_def takeWhile_tail)

lemma buf_rd_drop: "drop p mem = c # r \<Longrightarrow> buf_rd mem p = Some c"
  by (metis buf_rd_def drop_all linorder_not_less list.distinct(1) nth_via_drop)

lemma drop_further: "drop p mem = xs @ ys \<Longrightarrow> drop (p + length xs) mem = ys"
  by (metis add.commute append_eq_conv_conj drop_drop)

text \<open>The next token is the field in front of a separator or of the end.\<close>

lemma strtok_field:
  assumes "drop pos mem = f @ e # rest" "plain d f" "e = d \<or> e = 0"
  shows "strtok mem pos d = Some (mem[pos + length f := 0], Some pos, if e = 0 then pos + length f else pos + length f + 1)"
    "drop pos (mem[pos + length f := 0]) = f @ 0 # rest" "drop (pos + length f + 1) (mem[pos + length f := 0]) = rest"
proof -
  obtain c f' where f: "f = c # f'" "c \<noteq> d" "c \<noteq> 0" using assms(2) by (cases f) (auto simp: plain_def)
  have start: "takeWhile (\<lambda>c. c = d) (drop pos mem) = []" using assms(1) f by simp
  have c: "buf_rd mem pos = Some c" using buf_rd_drop assms(1) f by simp
  have tw: "takeWhile (\<lambda>c. c \<noteq> d \<and> c \<noteq> 0) (drop pos mem) = f"
    using assms by (auto simp: plain_def takeWhile_tail)
  have e: "buf_rd mem (pos + length f) = Some e" using buf_rd_drop [OF drop_further [OF assms(1)]] .
  have same: "e = 0 \<Longrightarrow> mem[pos + length f := 0] = mem" using e by (simp add: buf_rd_Some_iff list_update_same_conv)
  show "strtok mem pos d = Some (mem[pos + length f := 0], Some pos, if e = 0 then pos + length f else pos + length f + 1)"
    using c f e tw start same by (simp add: strtok_def Let_def)
  have "drop pos (mem[pos + length f := 0]) = (drop pos mem)[length f := 0]" by (simp add: drop_update_swap)
  then show d: "drop pos (mem[pos + length f := 0]) = f @ 0 # rest" using assms(1) by (simp add: list_update_append)
  show "drop (pos + length f + 1) (mem[pos + length f := 0]) = rest"
    using drop_further [of pos "mem[pos + length f := 0]" "f @ [0]" rest] d by simp
qed

lemma strtok_token:
  assumes "drop pos mem = f @ d # rest" "plain d f" "d \<noteq> 0"
  obtains mem' pos' where "strtok mem pos d = Some (mem', Some pos, pos')" "drop pos mem' = f @ 0 # rest" "drop pos' mem' = rest"
  using strtok_field [OF assms(1,2) disjI1 [OF refl]] that assms(3) by simp

lemma strtok_returns: "0 \<in> set (drop pos mem) \<Longrightarrow> d \<noteq> 0 \<Longrightarrow> strtok mem pos d \<noteq> None"
proof -
  assume z: "0 \<in> set (drop pos mem)" and d: "d \<noteq> 0"
  have shorter: "length (takeWhile P xs) < length xs" if "\<exists>x\<in>set xs. \<not> P x" for P and xs :: "byte list"
    using that by (induction xs) auto
  let ?s = "pos + length (takeWhile (\<lambda>c. c = d) (drop pos mem))"
  have "length (takeWhile (\<lambda>c. c = d) (drop pos mem)) < length (drop pos mem)" using z d by (intro shorter bexI [of _ 0]) auto
  then have s: "?s < length mem" by simp
  have "drop ?s mem = dropWhile (\<lambda>c. c = d) (drop pos mem)"
    by (metis add.commute drop_drop dropWhile_eq_drop)
  then have "0 \<in> set (drop ?s mem)" using z d by (metis (mono_tags, lifting) Un_iff set_append set_takeWhileD takeWhile_dropWhile_id)
  then have "length (takeWhile (\<lambda>c. c \<noteq> d \<and> c \<noteq> 0) (drop ?s mem)) < length (drop ?s mem)" by (intro shorter) blast
  then have "?s + length (takeWhile (\<lambda>c. c \<noteq> d \<and> c \<noteq> 0) (drop ?s mem)) < length mem" by simp
  then show ?thesis using s by (simp add: strtok_def Let_def buf_rd_def)
qed

lemma isdigit_not_space: "isdigit c \<Longrightarrow> \<not> isspace c \<and> c \<noteq> 45 \<and> c \<noteq> 43 \<and> c \<noteq> 0 \<and> c \<noteq> 44"
  by (auto simp: isdigit_def isspace_def word_le_nat_alt)

lemma atoi_digits: "list_all isdigit f \<Longrightarrow> atoi f = int (digits_value f)"
proof (cases f)
  case (Cons c r)
  assume d: "list_all isdigit f"
  have "dropWhile isspace f = f" "sign f = (False, f)" using isdigit_not_space [of c] d Cons by (simp_all add: sign_def)
  moreover have "takeWhile isdigit f = f" using d by (metis list_all_iff takeWhile_eq_all_conv)
  ultimately show ?thesis by (simp only: atoi_def prod.case Let_def if_False)
qed (simp add: atoi_def sign_def digits_value_def)

end
