(* ===== verification/Ping.thy ===== *)
theory Ping
  imports CString "HOL-Library.Signed_Division"
begin

text \<open>
  The network check (\<open>src/ping/ping.c\<close>): ICMP echo packets and their checksum, parsing of replies, the send loop with its
  statistics, and the entry point with its error exits. Kernel and resolver calls are the fields of a record of functions on an
  abstract world \<open>'w\<close>. The two globals of one megabyte are lists of that length; every index used is below 70. \<open>None\<close> is a
  loop that does not end. The target is little-endian and its plain \<open>char\<close> is unsigned (ARM). Output and \<open>sleep\<close> are left out.
\<close>

section \<open>State\<close>

datatype CHECK_RESULT = CHECK_RESULT_PACKET_OK | CHECK_RESULT_PACKET_LOSS | CHECK_RESULT_PACKET_ERROR | CHECK_RESULT_FAILED

definition E_FAILD_FD :: int where "E_FAILD_FD = -1"
definition ICMP_DATA_LEN :: nat where "ICMP_DATA_LEN = 16"
definition ICMP_ECHO_MAX :: byte where "ICMP_ECHO_MAX = 4"
definition ICMP_REQUEST_TIMEOUT :: int where "ICMP_REQUEST_TIMEOUT = 15"
definition BUF_LEN :: nat where "BUF_LEN = 1024 * 1024"

definition ICMP_ECHO :: byte where "ICMP_ECHO = 8"
definition ICMP_ECHOREPLY :: byte where "ICMP_ECHOREPLY = 0"

record ICMP_STATIC_S =
  uiSendPktNum :: u32
  uiRcvPktNum :: u32
  fMinTime :: rat
  fMaxTime :: rat
  fArgTime :: rat

record timeval =
  tv_sec :: int
  tv_usec :: int

record ping_globals =
  aucSendBuf :: "byte list"
  aucRecvBuf :: "byte list"
  g_stPktStatic :: ICMP_STATIC_S
  stSendTime :: timeval
  stRcvTime :: timeval

text \<open>
  The calls: \<open>n_recvfrom\<close> gives its result, the octets received and whether \<open>errno\<close> is \<open>EAGAIN\<close>; the resolvers give \<open>None\<close> for their
  null results, \<open>n_inet_addr\<close> for \<open>INADDR_NONE\<close>.
\<close>

record 'w net =
  n_getpid :: "'w \<Rightarrow> int"
  n_gettimeofday :: "'w \<Rightarrow> timeval \<times> 'w"
  n_sendto :: "int \<Rightarrow> byte list \<Rightarrow> byte list \<Rightarrow> 'w \<Rightarrow> int \<times> 'w"
  n_recvfrom :: "int \<Rightarrow> nat \<Rightarrow> 'w \<Rightarrow> int \<times> byte list \<times> bool \<times> 'w"
  n_getprotobyname :: "string \<Rightarrow> 'w \<Rightarrow> int option \<times> 'w"
  n_socket :: "int \<Rightarrow> 'w \<Rightarrow> int \<times> 'w"
  n_setuid :: "'w \<Rightarrow> int \<times> 'w"
  n_setsockopt :: "int \<Rightarrow> nat \<Rightarrow> int \<Rightarrow> 'w \<Rightarrow> 'w"
  n_inet_addr :: "string \<Rightarrow> byte list option"
  n_gethostbyname :: "string \<Rightarrow> 'w \<Rightarrow> byte list option \<times> 'w"
  n_close :: "int \<Rightarrow> 'w \<Rightarrow> 'w"

definition SO_RCVBUF :: nat where "SO_RCVBUF = 8"
definition SO_RCVTIMEO :: nat where "SO_RCVTIMEO = 20"

section \<open>Operations\<close>

definition showStatic :: "ICMP_STATIC_S \<Rightarrow> CHECK_RESULT" where
  "showStatic st = (let uiSend = uiSendPktNum st; uiRecv = uiRcvPktNum st in
     if uiSend > uiRecv then
       (if uiRecv = 0 then CHECK_RESULT_PACKET_ERROR else CHECK_RESULT_PACKET_LOSS)
     else if uiSend = uiRecv then CHECK_RESULT_PACKET_OK
     else CHECK_RESULT_PACKET_OK)"

definition timeSub :: "timeval \<Rightarrow> timeval \<Rightarrow> u32" where
  "timeSub pstOut pstIn =
     (let uiSec = word_of_int (tv_sec pstOut - tv_sec pstIn);
          iUsec = tv_usec pstOut - tv_usec pstIn;
          (iUsec, uiSec) = (if 0 > iUsec then (iUsec + 1000000, uiSec - 1) else (iUsec, uiSec))
      in uiSec * 1000 + word_of_int (iUsec sdiv 1000))"

text \<open>The 16-bit load of a little-endian machine.\<close>

definition load16 :: "byte \<Rightarrow> byte \<Rightarrow> u16" where
  "load16 b0 b1 = ucast b0 OR push_bit 8 (ucast b1)"

fun chk_loop :: "u16 \<Rightarrow> byte list \<Rightarrow> u16" where
  "chk_loop usChkSum (b0 # b1 # bs) = chk_loop (usChkSum + load16 b0 b1) bs"
| "chk_loop usChkSum [b] = usChkSum + ucast b"
| "chk_loop usChkSum [] = usChkSum"

text \<open>The accumulator has 16 bits, so the two folding steps add zero.\<close>

definition calcIcmpChkSum :: "byte list \<Rightarrow> u16" where
  "calcIcmpChkSum pPacket =
     (let usChkSum = chk_loop 0 pPacket;
          usChkSum = drop_bit 16 usChkSum + (usChkSum AND 0xFFFF);
          usChkSum = usChkSum + drop_bit 16 usChkSum
      in NOT usChkSum)"

definition newIcmpEcho :: "int \<Rightarrow> byte \<Rightarrow> nat \<Rightarrow> byte list \<times> nat" where
  "newIcmpEcho pid iPacketNum iDataLen =
     (let buf = replicate BUF_LEN 0;
          buf = buf[0 := ICMP_ECHO, 1 := 0];
          buf = buf_put buf 6 (net16 (ucast iPacketNum));
          buf = buf_put buf 4 (net16 (word_of_int pid));
          buf = buf_put buf 2 (store16 0);
          buf = buf_put buf 2 (store16 (calcIcmpChkSum (take (iDataLen + 8) buf)))
      in (buf, iDataLen + 8))"

definition parseIcmp :: "int \<Rightarrow> byte list \<Rightarrow> int \<Rightarrow> int" where
  "parseIcmp pid pRecvBuf iLen =
     (let iIpHeadLen = 4 * unat (pRecvBuf ! 0 AND 0x0F);
          iIcmpLen = iLen - int iIpHeadLen
      in if 8 > iIcmpLen then -1
         else if pRecvBuf ! iIpHeadLen \<noteq> ICMP_ECHOREPLY \<or> take 2 (drop (iIpHeadLen + 4) pRecvBuf) \<noteq> net16 (word_of_int pid) then -1
         else 1)"

definition recvIcmp :: "'w net \<Rightarrow> int \<Rightarrow> ping_globals \<Rightarrow> 'w \<Rightarrow> ping_globals \<times> 'w" where
  "recvIcmp os fd g w =
     (case n_recvfrom os fd BUF_LEN w of (iRecvLen, bs, again, w) \<Rightarrow>
      case n_gettimeofday os w of (t, w) \<Rightarrow>
      let g = g\<lparr>aucRecvBuf := bs @ replicate (BUF_LEN - length bs) 0, stRcvTime := t\<rparr>; st = g_stPktStatic g in
      if 0 > iRecvLen then
        (if again then (g\<lparr>g_stPktStatic := st\<lparr>fMaxTime := -1\<rparr>\<rparr>, w) else (g, w))
      else
        let uiInterval = timeSub (stRcvTime g) (stSendTime g); n = uiSendPktNum st; u = f32 (of_nat (unat uiInterval));
            st = st\<lparr>uiRcvPktNum := uiRcvPktNum st + 1\<rparr>;
            st = st\<lparr>fArgTime := f32 (f32 (f32 (fArgTime st * f32 (of_nat (unat (n - 1)))) + u) / f32 (of_nat (unat n)))\<rparr>;
            st = (if u < fMinTime st then st\<lparr>fMinTime := u\<rparr> else st);
            st = (if u > fMaxTime st then st\<lparr>fMaxTime := u\<rparr> else st);
            g = g\<lparr>g_stPktStatic := st\<rparr>;
            iRet = parseIcmp (n_getpid os w) (aucRecvBuf g) iRecvLen
        in if 0 > iRet then (g, w) else (g, w))"

text \<open>One pass of the loop up to the test of the result of \<open>sendto\<close>.\<close>

definition send_pass :: "'w net \<Rightarrow> int \<Rightarrow> byte list \<Rightarrow> byte \<Rightarrow> ping_globals \<Rightarrow> 'w \<Rightarrow> int \<times> ping_globals \<times> 'w" where
  "send_pass os fd dest ucEchoNum g w =
     (let (buf, iPktLen) = newIcmpEcho (n_getpid os w) ucEchoNum ICMP_DATA_LEN;
          st = g_stPktStatic g;
          g = g\<lparr>aucSendBuf := buf, g_stPktStatic := st\<lparr>uiSendPktNum := uiSendPktNum st + 1\<rparr>\<rparr>;
          (t, w) = n_gettimeofday os w;
          g = g\<lparr>stSendTime := t\<rparr>;
          (iRet, w) = n_sendto os fd (take iPktLen buf) dest w
      in (iRet, g, w))"

partial_function (option) sendIcmp_loop :: "'w net \<Rightarrow> int \<Rightarrow> byte list \<Rightarrow> byte \<Rightarrow> ping_globals \<Rightarrow> 'w \<Rightarrow> (ping_globals \<times> 'w) option" where
  "sendIcmp_loop os fd dest ucEchoNum g w =
     (if ICMP_ECHO_MAX > ucEchoNum then
        (case send_pass os fd dest ucEchoNum g w of (iRet, g, w) \<Rightarrow>
           if 0 > iRet then sendIcmp_loop os fd dest ucEchoNum g w
           else (case recvIcmp os fd g w of (g, w) \<Rightarrow> sendIcmp_loop os fd dest (ucEchoNum + 1) g w))
      else Some (g, w))"

definition sendIcmp :: "'w net \<Rightarrow> int \<Rightarrow> byte list \<Rightarrow> ping_globals \<Rightarrow> 'w \<Rightarrow> (ping_globals \<times> 'w) option" where
  "sendIcmp os fd dest g w = sendIcmp_loop os fd dest 0 g w"

definition statistics_reset :: "ICMP_STATIC_S \<Rightarrow> ICMP_STATIC_S" where
  "statistics_reset st = st\<lparr>uiSendPktNum := 0, uiRcvPktNum := 0, fMinTime := 1000000, fMaxTime := -1, fArgTime := 0\<rparr>"

text \<open>\<open>memcpy(&stDestAddr.sin_addr, a, h_length)\<close> on the four zero octets of the address.\<close>

definition sin_addr :: "byte list \<Rightarrow> byte list" where
  "sin_addr a = a @ drop (length a) [0, 0, 0, 0]"

definition lib_get_network_status :: "'w net \<Rightarrow> string \<Rightarrow> ping_globals \<Rightarrow> 'w \<Rightarrow> (CHECK_RESULT \<times> ping_globals \<times> 'w) option" where
  "lib_get_network_status os ip_addr g w =
     (let g = g\<lparr>g_stPktStatic := statistics_reset (g_stPktStatic g)\<rparr> in
      case n_getprotobyname os ''icmp'' w of
        (None, w) \<Rightarrow> Some (CHECK_RESULT_FAILED, g, w)
      | (Some p_proto, w) \<Rightarrow>
        (case n_socket os p_proto w of (fd, w) \<Rightarrow>
         if 0 > fd then Some (CHECK_RESULT_FAILED, g, w)
         else case n_setuid os w of (iRet, w) \<Rightarrow>
         if 0 > iRet then Some (CHECK_RESULT_FAILED, g, n_close os fd w)
         else
           let w = n_setsockopt os fd SO_RCVBUF (int BUF_LEN) w;
               w = n_setsockopt os fd SO_RCVTIMEO ICMP_REQUEST_TIMEOUT w;
               (host, w) = (case n_inet_addr os ip_addr of
                   None \<Rightarrow> n_gethostbyname os ip_addr w
                 | Some stHostAddr \<Rightarrow> (Some stHostAddr, w))
           in case host of
                None \<Rightarrow> Some (CHECK_RESULT_FAILED, g, n_close os fd w)
              | Some a \<Rightarrow> do {
                  (g, w) \<leftarrow> sendIcmp os fd (sin_addr a) g w;
                  let ret = showStatic (g_stPktStatic g);
                  Some (ret, g, n_close os fd w)
                }))"

end
