(* ===== verification/PingRuns.thy ===== *)
theory PingRuns
  imports PingProps
begin

text \<open>
  Runs of the network check: an instrumented network records what was opened, sent, received and closed. If no
  send fails forever the check returns, its verdict is the one the record calls for and its descriptor is closed; if every
  send fails it does not return.
\<close>

section \<open>Recording\<close>

datatype ping_event = Opened int | Sent bool | Got bool | Closed int

definition recorded :: "'w net \<Rightarrow> ('w \<times> ping_event list) net" where
  "recorded os = \<lparr>
     n_getpid = (\<lambda>(w, l). n_getpid os w),
     n_gettimeofday = (\<lambda>(w, l). case n_gettimeofday os w of (t, w) \<Rightarrow> (t, (w, l))),
     n_sendto = (\<lambda>fd p d (w, l). case n_sendto os fd p d w of (r, w) \<Rightarrow> (r, (w, l @ [Sent (0 \<le> r)]))),
     n_recvfrom = (\<lambda>fd n (w, l). case n_recvfrom os fd n w of (r, bs, a, w) \<Rightarrow> (r, bs, a, (w, l @ [Got (0 \<le> r)]))),
     n_getprotobyname = (\<lambda>s (w, l). case n_getprotobyname os s w of (r, w) \<Rightarrow> (r, (w, l))),
     n_socket = (\<lambda>p (w, l). case n_socket os p w of (fd, w) \<Rightarrow> (fd, (w, if 0 \<le> fd then l @ [Opened fd] else l))),
     n_setuid = (\<lambda>(w, l). case n_setuid os w of (r, w) \<Rightarrow> (r, (w, l))),
     n_setsockopt = (\<lambda>fd opt v (w, l). (n_setsockopt os fd opt v w, l)),
     n_inet_addr = n_inet_addr os,
     n_gethostbyname = (\<lambda>s (w, l). case n_gethostbyname os s w of (r, w) \<Rightarrow> (r, (w, l))),
     n_close = (\<lambda>fd (w, l). (n_close os fd w, l @ [Closed fd]))\<rparr>"

definition sent :: "ping_event list \<Rightarrow> nat" where
  "sent l = count_list l (Sent True) + count_list l (Sent False)"

definition got :: "ping_event list \<Rightarrow> nat" where
  "got l = count_list l (Got True)"

text \<open>What the statistics are meant to say about the packets.\<close>

definition verdict :: "ping_event list \<Rightarrow> CHECK_RESULT" where
  "verdict l = (if got l = 0 then CHECK_RESULT_PACKET_ERROR
     else if got l < sent l then CHECK_RESULT_PACKET_LOSS else CHECK_RESULT_PACKET_OK)"

text \<open>A failing pass of the loop brings the network closer to a send that does not fail.\<close>

definition sends_recover :: "'w net \<Rightarrow> ('w \<Rightarrow> nat) \<Rightarrow> bool" where
  "sends_recover os m \<longleftrightarrow> (\<forall>fd p d t w w1 r w2.
     n_gettimeofday os w = (t, w1) \<longrightarrow> n_sendto os fd p d w1 = (r, w2) \<longrightarrow> r < 0 \<longrightarrow> m w2 < m w)"

section \<open>The loop\<close>

text \<open>The statistics agree with the record, and \<open>k\<close> echoes have been exchanged.\<close>

definition tallied :: "nat \<Rightarrow> ping_globals \<Rightarrow> ping_event list \<Rightarrow> bool" where
  "tallied k g l \<longleftrightarrow> uiSendPktNum (g_stPktStatic g) = of_nat (sent l) \<and> uiRcvPktNum (g_stPktStatic g) = of_nat (got l) \<and>
     count_list l (Sent True) = k \<and> count_list l (Got True) + count_list l (Got False) = k"

definition descr_free :: "ping_event list \<Rightarrow> bool" where
  "descr_free l \<longleftrightarrow> (\<forall>fd. count_list l (Opened fd) = 0 \<and> count_list l (Closed fd) = 0)"

lemma send_pass_recorded:
  assumes "send_pass (recorded os) fd d n g (w, l) = (r, g', (w', l'))"
  shows "l' = l @ [Sent (0 \<le> r)] \<and> uiSendPktNum (g_stPktStatic g') = uiSendPktNum (g_stPktStatic g) + 1 \<and>
    uiRcvPktNum (g_stPktStatic g') = uiRcvPktNum (g_stPktStatic g)"
    and "sends_recover os m \<Longrightarrow> r < 0 \<Longrightarrow> m w' < m w"
proof -
  obtain buf len where nb: "newIcmpEcho (n_getpid os w) n ICMP_DATA_LEN = (buf, len)" by fastforce
  obtain t w1 where t: "n_gettimeofday os w = (t, w1)" by fastforce
  obtain r2 w2 where s: "n_sendto os fd (take len buf) d w1 = (r2, w2)" by fastforce
  have e: "r = r2 \<and> w' = w2 \<and> l' = l @ [Sent (0 \<le> r2)] \<and> uiSendPktNum (g_stPktStatic g') = uiSendPktNum (g_stPktStatic g) + 1 \<and>
    uiRcvPktNum (g_stPktStatic g') = uiRcvPktNum (g_stPktStatic g)"
    using assms by (auto simp: send_pass_def recorded_def Let_def nb t s)
  then show "l' = l @ [Sent (0 \<le> r)] \<and> uiSendPktNum (g_stPktStatic g') = uiSendPktNum (g_stPktStatic g) + 1 \<and>
    uiRcvPktNum (g_stPktStatic g') = uiRcvPktNum (g_stPktStatic g)" by simp
  show "m w' < m w" if "sends_recover os m" "r < 0" using that e t s unfolding sends_recover_def by blast
qed

lemma recvIcmp_recorded:
  assumes "recvIcmp (recorded os) fd g (w, l) = (g', (w', l'))"
  shows "\<exists>b. l' = l @ [Got b] \<and> uiSendPktNum (g_stPktStatic g') = uiSendPktNum (g_stPktStatic g) \<and>
    uiRcvPktNum (g_stPktStatic g') = uiRcvPktNum (g_stPktStatic g) + (if b then 1 else 0)"
proof -
  obtain r bs a w1 where r: "n_recvfrom os fd BUF_LEN w = (r, bs, a, w1)" by (metis prod_cases4)
  obtain t w2 where t: "n_gettimeofday os w1 = (t, w2)" by fastforce
  show ?thesis
    by (rule exI [of _ "0 \<le> r"]) (use assms in \<open>auto simp: recvIcmp_def recorded_def Let_def r t split: if_splits\<close>)
qed

lemma sendIcmp_loop_runs:
  assumes "sends_recover os m" "tallied (unat uc) g l" "unat uc \<le> 4"
  shows "\<exists>g' w' l'. sendIcmp_loop (recorded os) fd d uc g (w, l) = Some (g', (w', l @ l')) \<and>
    tallied 4 g' (l @ l') \<and> descr_free l'"
  using assms(2,3)
proof (induction "(uc, w)" arbitrary: uc g w l rule: wf_induct_rule [OF wf_measures [of "[\<lambda>(uc, w). 4 - unat uc, \<lambda>(uc, w). m w]"]])
  case (1 uc w)
  show ?case
  proof (cases "uc < 4")
    case False
    then have "unat uc = 4" using 1 by (simp add: word_less_nat_alt)
    moreover have "sendIcmp_loop (recorded os) fd d uc g (w, l) = Some (g, (w, l))"
      using False by (subst sendIcmp_loop.simps) (simp add: ICMP_ECHO_MAX_def)
    ultimately show ?thesis using 1(2) by (intro exI [of _ g] exI [of _ w] exI [of _ "[]"]) (simp add: descr_free_def)
  next
    case True
    obtain r g1 w1 l1 where p: "send_pass (recorded os) fd d uc g (w, l) = (r, g1, (w1, l1))" by (metis prod_cases4)
    note p' = send_pass_recorded [OF p]
    show ?thesis
    proof (cases "r < 0")
      case fail: True
      have "tallied (unat uc) g1 l1" using p' fail 1 by (simp add: tallied_def sent_def got_def)
      then obtain g' w' l' where "sendIcmp_loop (recorded os) fd d uc g1 (w1, l1) = Some (g', (w', l1 @ l'))"
        "tallied 4 g' (l1 @ l')" "descr_free l'"
        using 1(1) [of uc w1 g1 l1] p'(2) [OF assms(1) fail] 1(3) by (auto simp del: append_assoc)
      moreover have "sendIcmp_loop (recorded os) fd d uc g (w, l) = sendIcmp_loop (recorded os) fd d uc g1 (w1, l1)"
        using True fail p by (subst sendIcmp_loop.simps) (simp add: ICMP_ECHO_MAX_def)
      ultimately show ?thesis using fail p'(1)
        by (intro exI [of _ g'] exI [of _ w'] exI [of _ "Sent False # l'"]) (simp add: descr_free_def)
    next
      case ok: False
      obtain g2 w2 l2 where q: "recvIcmp (recorded os) fd g1 (w1, l1) = (g2, (w2, l2))" using prod_cases3 by blast
      obtain b where b: "l2 = l1 @ [Got b]" "uiSendPktNum (g_stPktStatic g2) = uiSendPktNum (g_stPktStatic g1)"
        "uiRcvPktNum (g_stPktStatic g2) = uiRcvPktNum (g_stPktStatic g1) + (if b then 1 else 0)"
        using recvIcmp_recorded [OF q] by auto
      have u: "unat (uc + 1) = unat uc + 1" using True by (simp add: word_less_nat_alt unat_word_ariths)
      have "tallied (unat (uc + 1)) g2 l2" using p'(1) ok b 1(2) by (simp add: tallied_def sent_def got_def u)
      then obtain g' w' l' where "sendIcmp_loop (recorded os) fd d (uc + 1) g2 (w2, l2) = Some (g', (w', l2 @ l'))"
        "tallied 4 g' (l2 @ l')" "descr_free l'"
        using 1(1) [of "uc + 1" w2 g2 l2] True diff_less_mono2 [of "unat uc" "unat uc + 1" 4] by (auto simp: u word_less_nat_alt)
      moreover have "sendIcmp_loop (recorded os) fd d uc g (w, l) = sendIcmp_loop (recorded os) fd d (uc + 1) g2 (w2, l2)"
        using True ok p q by (subst sendIcmp_loop.simps) (simp add: ICMP_ECHO_MAX_def)
      ultimately show ?thesis using ok p'(1) b(1)
        by (intro exI [of _ g'] exI [of _ w'] exI [of _ "Sent True # Got b # l'"]) (simp add: descr_free_def)
    qed
  qed
qed

section \<open>The check\<close>

lemma tallied_verdict:
  assumes "tallied 4 g l" "sent l < 2 ^ 32"
  shows "showStatic (g_stPktStatic g) = verdict l"
proof -
  have r: "got l \<le> 4" "4 \<le> sent l" using assms(1) by (simp_all add: tallied_def got_def sent_def)
  have "unat (of_nat (sent l) :: u32) = sent l" "unat (of_nat (got l) :: u32) = got l"
    using assms(2) r by (simp_all add: unsigned_of_nat take_bit_nat_eq_self)
  then show ?thesis using assms(1) r
    by (auto simp: tallied_def showStatic_def verdict_def Let_def word_less_nat_alt word_unat_eq_iff)
qed

lemma statistics_reset_tallied: "tallied 0 (g\<lparr>g_stPktStatic := statistics_reset st\<rparr>) []"
  by (simp add: tallied_def statistics_reset_def sent_def got_def)

text \<open>A run that reaches the loop.\<close>

lemma check_loop_runs:
  assumes "sends_recover os m"
  shows "\<exists>g' w' l. sendIcmp (recorded os) fd d (g\<lparr>g_stPktStatic := statistics_reset st\<rparr>) (w, [Opened fd]) = Some (g', (w', l)) \<and>
    (\<forall>k. count_list (l @ [Closed fd]) (Opened k) = count_list (l @ [Closed fd]) (Closed k)) \<and>
    count_list l (Sent True) = 4 \<and> count_list l (Got True) + count_list l (Got False) = 4 \<and>
    (sent l < 2 ^ 32 \<longrightarrow> showStatic (g_stPktStatic g') = verdict l)"
proof -
  have "tallied (unat (0::byte)) (g\<lparr>g_stPktStatic := statistics_reset st\<rparr>) [Opened fd]"
    using statistics_reset_tallied [of st g] by (simp add: tallied_def sent_def got_def)
  then obtain g' w' l' where run: "sendIcmp_loop (recorded os) fd d 0 (g\<lparr>g_stPktStatic := statistics_reset st\<rparr>) (w, [Opened fd]) =
      Some (g', (w', [Opened fd] @ l'))" and t: "tallied 4 g' ([Opened fd] @ l')" and "descr_free l'"
    using sendIcmp_loop_runs [OF assms] by (metis unsigned_0 zero_le)
  then show ?thesis using tallied_verdict [OF t] t
    by (intro exI [of _ g'] exI [of _ w'] exI [of _ "[Opened fd] @ l'"])
      (auto simp: sendIcmp_def descr_free_def tallied_def)
qed

text \<open>The calls before the loop: the check fails there with its descriptor closed again, or comes to the loop with one open descriptor.\<close>

lemma network_set_up:
  "(\<exists>g' w' l. lib_get_network_status (recorded os) ip_addr g (w, []) = Some (CHECK_RESULT_FAILED, g', (w', l)) \<and>
     (\<forall>fd. count_list l (Opened fd) = count_list l (Closed fd)) \<and> sent l = 0) \<or>
   (\<exists>fd a w5. \<forall>g' w' l.
     sendIcmp (recorded os) fd (sin_addr a) (g\<lparr>g_stPktStatic := statistics_reset (g_stPktStatic g)\<rparr>) (w5, [Opened fd]) = Some (g', (w', l)) \<longrightarrow>
     lib_get_network_status (recorded os) ip_addr g (w, []) = Some (showStatic (g_stPktStatic g'), g', (n_close os fd w', l @ [Closed fd])))"
proof -
  obtain pr w1 where pr: "n_getprotobyname os ''icmp'' w = (pr, w1)" by fastforce
  show ?thesis
  proof (cases pr)
    case None
    then show ?thesis by (simp add: lib_get_network_status_def recorded_def pr sent_def)
  next
    case (Some proto)
    obtain fd w2 where so: "n_socket os proto w1 = (fd, w2)" by fastforce
    obtain su w3 where su: "n_setuid os w2 = (su, w3)" by fastforce
    let ?w4 = "n_setsockopt os fd SO_RCVTIMEO ICMP_REQUEST_TIMEOUT (n_setsockopt os fd SO_RCVBUF (int BUF_LEN) w3)"
    obtain h w5 where h: "(case n_inet_addr os ip_addr of None \<Rightarrow> n_gethostbyname os ip_addr ?w4 | Some a \<Rightarrow> (Some a, ?w4)) = (h, w5)"
      by fastforce
    have calls: "n_getprotobyname (recorded os) ''icmp'' (w, []) = (pr, (w1, []))"
      "n_socket (recorded os) proto (w1, []) = (fd, (w2, if 0 \<le> fd then [Opened fd] else []))"
      "n_setuid (recorded os) (w2, l) = (su, (w3, l))"
      "n_setsockopt (recorded os) fd k v (x, l) = (n_setsockopt os fd k v x, l)"
      "n_close (recorded os) fd (x, l) = (n_close os fd x, l @ [Closed fd])" for l x k v
      using pr so su by (simp_all add: recorded_def)
    let ?wl = "\<lambda>l. n_setsockopt (recorded os) fd SO_RCVTIMEO ICMP_REQUEST_TIMEOUT (n_setsockopt (recorded os) fd SO_RCVBUF (int BUF_LEN) (w3, l))"
    have h': "(case n_inet_addr (recorded os) ip_addr of None \<Rightarrow> n_gethostbyname (recorded os) ip_addr (?wl l)
        | Some a \<Rightarrow> (Some a, ?wl l)) = (h, (w5, l))" for l
      unfolding calls(4) using h by (cases "n_inet_addr os ip_addr") (simp_all add: recorded_def, metis option.simps(5))
    note simps = lib_get_network_status_def Let_def calls Some h'
    consider "fd < 0 \<or> su < 0 \<or> h = None" | a where "0 \<le> fd" "0 \<le> su" "h = Some a" by fastforce
    then show ?thesis
    proof cases
      case 1
      then show ?thesis by (cases "fd < 0"; cases "su < 0") (auto simp: simps sent_def)
    next
      case 2
      then show ?thesis by (intro disjI2 exI [of _ fd] exI [of _ a] exI [of _ w5]) (simp add: simps)
    qed
  qed
qed

text \<open>
  C39. If sends do not fail forever, the network check returns. Either it failed before the first packet, or exactly four
  requests went out, each followed by one receive, and the verdict is what the record says: total loss when no receive
  gave anything, loss when fewer packets were received than sends attempted (failed ones included), success otherwise. Whatever was
  received counts, since the parser's answer is not used. Every descriptor that was opened has been closed.
\<close>

theorem network_check_returns:
  assumes "sends_recover os m"
  shows "\<exists>ret g' w' l. lib_get_network_status (recorded os) ip_addr g (w, []) = Some (ret, g', (w', l)) \<and>
    (\<forall>fd. count_list l (Opened fd) = count_list l (Closed fd)) \<and>
    (ret = CHECK_RESULT_FAILED \<and> sent l = 0 \<or>
     count_list l (Sent True) = 4 \<and> count_list l (Got True) + count_list l (Got False) = 4 \<and>
       (sent l < 2 ^ 32 \<longrightarrow> ret = verdict l))"
  using network_set_up [of os ip_addr g w]
proof (elim disjE exE)
  fix fd a w5
  assume run: "\<forall>g' w' l.
     sendIcmp (recorded os) fd (sin_addr a) (g\<lparr>g_stPktStatic := statistics_reset (g_stPktStatic g)\<rparr>) (w5, [Opened fd]) = Some (g', (w', l)) \<longrightarrow>
     lib_get_network_status (recorded os) ip_addr g (w, []) = Some (showStatic (g_stPktStatic g'), g', (n_close os fd w', l @ [Closed fd]))"
  obtain g' w' l where "sendIcmp (recorded os) fd (sin_addr a) (g\<lparr>g_stPktStatic := statistics_reset (g_stPktStatic g)\<rparr>) (w5, [Opened fd]) =
      Some (g', (w', l))" and v: "\<forall>k. count_list (l @ [Closed fd]) (Opened k) = count_list (l @ [Closed fd]) (Closed k)"
      "count_list l (Sent True) = 4" "count_list l (Got True) + count_list l (Got False) = 4"
      "sent l < 2 ^ 32 \<longrightarrow> showStatic (g_stPktStatic g') = verdict l"
    using check_loop_runs [OF assms] by metis
  moreover have "verdict (l @ [Closed fd]) = verdict l" "sent (l @ [Closed fd]) = sent l" by (simp_all add: verdict_def sent_def got_def)
  ultimately show ?thesis using v run
    by (intro exI [of _ "showStatic (g_stPktStatic g')"] exI [of _ g'] exI [of _ "n_close os fd w'"] exI [of _ "l @ [Closed fd]"]) auto
qed blast

text \<open>A network that drops the first send and then answers three of four requests.\<close>

definition demo_net :: "nat net" where
  "demo_net = \<lparr>n_getpid = (\<lambda>w. 7), n_gettimeofday = (\<lambda>w. (\<lparr>tv_sec = 0, tv_usec = 0\<rparr>, w)),
     n_sendto = (\<lambda>fd p d w. if w = 0 then (-1, 1) else (int (length p), w + 1)),
     n_recvfrom = (\<lambda>fd n w. if w = 3 then (-1, [], True, w) else (28, [0x45], False, w)),
     n_getprotobyname = (\<lambda>s w. (Some 1, w)), n_socket = (\<lambda>p w. (5, w)), n_setuid = (\<lambda>w. (0, w)),
     n_setsockopt = (\<lambda>fd k v w. w), n_inet_addr = (\<lambda>s. Some [10, 0, 0, 1]), n_gethostbyname = (\<lambda>s w. (None, w)),
     n_close = (\<lambda>fd w. w)\<rparr>"

lemma demo_recovers: "sends_recover demo_net (\<lambda>w. if w = 0 then 2 else 0)"
  by (auto simp: sends_recover_def demo_net_def split: if_splits)

theorem network_check_returns_witness:
  "\<exists>ret g' w' l. lib_get_network_status (recorded demo_net) ''10.0.0.1'' undefined (0, []) = Some (ret, g', (w', l)) \<and>
    (\<forall>fd. count_list l (Opened fd) = count_list l (Closed fd)) \<and>
    (ret = CHECK_RESULT_FAILED \<and> sent l = 0 \<or>
     count_list l (Sent True) = 4 \<and> count_list l (Got True) + count_list l (Got False) = 4 \<and>
       (sent l < 2 ^ 32 \<longrightarrow> ret = verdict l))"
  by (rule network_check_returns [OF demo_recovers])

section \<open>A network that is down\<close>

lemma sendIcmp_loop_stuck:
  assumes down: "\<forall>fd p d w. fst (n_sendto os fd p d w) < 0" and "sendIcmp_loop os fd d uc g w = Some r"
  shows "\<not> uc < 4"
proof (rule sendIcmp_loop.raw_induct [where P = "\<lambda>os' fd d uc g w r. os' = os \<longrightarrow> \<not> uc < 4", OF _ assms(2), THEN mp, OF _ refl])
  fix f os' fd d uc g w r
  assume IH: "\<And>os' fd d uc g w r. f os' fd d uc g w = Some r \<Longrightarrow> os' = os \<longrightarrow> \<not> uc < 4"
    and eq: "(if uc < ICMP_ECHO_MAX then case send_pass os' fd d uc g w of (iRet, g, w) \<Rightarrow>
        if iRet < 0 then f os' fd d uc g w else case recvIcmp os' fd g w of (g, w) \<Rightarrow> f os' fd d (uc + 1) g w
      else Some (g, w)) = Some r"
  show "os' = os \<longrightarrow> \<not> uc < 4"
  proof (intro impI notI)
    assume os: "os' = os" and uc: "uc < 4"
    obtain iRet g1 w1 where p: "send_pass os fd d uc g w = (iRet, g1, w1)" using prod_cases3 by blast
    then have "iRet < 0" using down by (auto simp: send_pass_def Let_def split: prod.splits) (metis fst_conv)
    then have "f os fd d uc g1 w1 = Some r" using eq os uc p by (simp add: ICMP_ECHO_MAX_def)
    then show False using IH uc by blast
  qed
qed

text \<open>
  C40. On a network where every send fails (an interface that is down), the check does not return once the socket is open and the address is
  known: the loop counts only sends that succeed. The failure verdicts are not given in the very case they are meant for.
\<close>

theorem down_network_never_returns:
  assumes "\<forall>fd p d w. fst (n_sendto os fd p d w) < 0"
    and "n_getprotobyname os ''icmp'' w = (Some proto, w1)" "n_socket os proto w1 = (fd, w2)" "0 \<le> fd"
    and "n_setuid os w2 = (su, w3)" "0 \<le> su" "n_inet_addr os ip_addr = Some a"
  shows "lib_get_network_status os ip_addr g w = None"
proof -
  have "sendIcmp os fd d g' w' = None" for d g' w'
    using sendIcmp_loop_stuck [OF assms(1)] by (fastforce simp: sendIcmp_def)
  then show ?thesis using assms(2-) by (simp add: lib_get_network_status_def)
qed

theorem down_network_never_returns_witness:
  "lib_get_network_status (demo_net\<lparr>n_sendto := \<lambda>fd p d w. (-1, w)\<rparr>) ''10.0.0.1'' undefined 0 = None"
  by (rule down_network_never_returns [where proto = 1 and fd = 5 and su = 0 and a = "[10, 0, 0, 1]"]) (simp_all add: demo_net_def)

end
