(* ===== verification/Base64.thy ===== *)
theory Base64
  imports Prelude
begin

text \<open>
  Base64 coding (\<open>encryption/lib_base64.c\<close>). The two loops run over index variables and write into
  caller-supplied buffers; every read and write is checked against the capacity. Characters are
  their octets.
\<close>

section \<open>The code\<close>

definition base64char :: "byte list" where
  "base64char = map (\<lambda>c. of_char c)
     ''ABCDEFGHIJKLMNOPQRSTUVWXYZabcdefghijklmnopqrstuvwxyz0123456789+/''"

definition b64_eq :: byte where "b64_eq = 61"

function base64_encode_loop ::
  "byte list \<Rightarrow> nat \<Rightarrow> nat \<Rightarrow> nat \<Rightarrow> byte list \<Rightarrow> (nat \<times> byte list) option" where
  "base64_encode_loop bindata binlength i j base64 =
     (if i < binlength then do {
        b0 \<leftarrow> buf_rd bindata i;
        let current = drop_bit 2 b0 AND 0x3F;
        c \<leftarrow> buf_rd base64char (unat current);
        base64 \<leftarrow> buf_wr base64 j c;
        let current = push_bit 4 b0 AND 0x30;
        if i + 1 \<ge> binlength then do {
          c \<leftarrow> buf_rd base64char (unat current);
          base64 \<leftarrow> buf_wr base64 (j + 1) c;
          base64 \<leftarrow> buf_wr base64 (j + 2) b64_eq;
          base64 \<leftarrow> buf_wr base64 (j + 3) b64_eq;
          Some (j + 4, base64)
        } else do {
          b1 \<leftarrow> buf_rd bindata (i + 1);
          let current = current OR (drop_bit 4 b1 AND 0x0F);
          c \<leftarrow> buf_rd base64char (unat current);
          base64 \<leftarrow> buf_wr base64 (j + 1) c;
          let current = push_bit 2 b1 AND 0x3C;
          if i + 2 \<ge> binlength then do {
            c \<leftarrow> buf_rd base64char (unat current);
            base64 \<leftarrow> buf_wr base64 (j + 2) c;
            base64 \<leftarrow> buf_wr base64 (j + 3) b64_eq;
            Some (j + 4, base64)
          } else do {
            b2 \<leftarrow> buf_rd bindata (i + 2);
            let current = current OR (drop_bit 6 b2 AND 0x03);
            c \<leftarrow> buf_rd base64char (unat current);
            base64 \<leftarrow> buf_wr base64 (j + 2) c;
            let current = b2 AND 0x3F;
            c \<leftarrow> buf_rd base64char (unat current);
            base64 \<leftarrow> buf_wr base64 (j + 3) c;
            base64_encode_loop bindata binlength (i + 3) (j + 4) base64
          }
        }
      } else Some (j, base64))"
  by pat_completeness auto
termination by (relation "measure (\<lambda>(bindata, binlength, i, j, base64). binlength - i)") auto

definition lib_base64_encode :: "byte list \<Rightarrow> byte list \<Rightarrow> int \<Rightarrow> byte list option" where
  "lib_base64_encode bindata base64 binlength = do {
     (j, base64) \<leftarrow> base64_encode_loop bindata (nat binlength) 0 0 base64;
     buf_wr base64 j 0
   }"

text \<open>The search loop of the decoder: the last index with the character, \<open>0xFF\<close> without one.\<close>

definition base64_find :: "byte \<Rightarrow> byte" where
  "base64_find c = foldl (\<lambda>temp k. if base64char ! k = c then of_nat k else temp) 0xFF [0..<64]"

function base64_decode_loop :: "byte list \<Rightarrow> nat \<Rightarrow> nat \<Rightarrow> byte list \<Rightarrow> (nat \<times> byte list) option" where
  "base64_decode_loop base64 i j bindata = do {
     c0 \<leftarrow> buf_rd base64 i;
     if c0 \<noteq> 0 then do {
       c1 \<leftarrow> buf_rd base64 (i + 1);
       c2 \<leftarrow> buf_rd base64 (i + 2);
       c3 \<leftarrow> buf_rd base64 (i + 3);
       let temp0 = base64_find c0;
       let temp1 = base64_find c1;
       let temp2 = base64_find c2;
       let temp3 = base64_find c3;
       bindata \<leftarrow> buf_wr bindata j ((push_bit 2 temp0 AND 0xFC) OR (drop_bit 4 temp1 AND 0x03));
       if c2 = b64_eq then Some (j + 1, bindata)
       else do {
         bindata \<leftarrow> buf_wr bindata (j + 1) ((push_bit 4 temp1 AND 0xF0) OR (drop_bit 2 temp2 AND 0x0F));
         if c3 = b64_eq then Some (j + 2, bindata)
         else do {
           bindata \<leftarrow> buf_wr bindata (j + 2) ((push_bit 6 temp2 AND 0xF0) OR (temp3 AND 0x3F));
           base64_decode_loop base64 (i + 4) (j + 3) bindata
         }
       }
     } else Some (j, bindata)
   }"
  by pat_completeness auto
termination
  by (relation "measure (\<lambda>(base64, i, j, bindata). length base64 - i)") (auto simp: buf_rd_Some_iff)

definition lib_base64_decode :: "byte list \<Rightarrow> byte list \<Rightarrow> (nat \<times> byte list) option" where
  "lib_base64_decode base64 bindata = base64_decode_loop base64 0 0 bindata"

declare base64_encode_loop.simps [simp del] base64_decode_loop.simps [simp del]

section \<open>Reference coding\<close>

definition b64_chr :: "byte \<Rightarrow> byte" where
  "b64_chr x = base64char ! unat x"

text \<open>The sextets of the coding.\<close>

definition sx0 :: "byte \<Rightarrow> byte" where "sx0 a = drop_bit 2 a AND 0x3F"
definition sx1 :: "byte \<Rightarrow> byte \<Rightarrow> byte" where "sx1 a b = (push_bit 4 a AND 0x30) OR (drop_bit 4 b AND 0x0F)"
definition sx1_last :: "byte \<Rightarrow> byte" where "sx1_last a = push_bit 4 a AND 0x30"
definition sx2 :: "byte \<Rightarrow> byte \<Rightarrow> byte" where "sx2 b c = (push_bit 2 b AND 0x3C) OR (drop_bit 6 c AND 0x03)"
definition sx2_last :: "byte \<Rightarrow> byte" where "sx2_last b = push_bit 2 b AND 0x3C"
definition sx3 :: "byte \<Rightarrow> byte" where "sx3 c = c AND 0x3F"

lemmas sx_defs = sx0_def sx1_def sx1_last_def sx2_def sx2_last_def sx3_def

fun b64 :: "byte list \<Rightarrow> byte list" where
  "b64 [] = []"
| "b64 [a] = [b64_chr (sx0 a), b64_chr (sx1_last a), b64_eq, b64_eq]"
| "b64 [a, b] = [b64_chr (sx0 a), b64_chr (sx1 a b), b64_chr (sx2_last b), b64_eq]"
| "b64 (a # b # c # xs) = [b64_chr (sx0 a), b64_chr (sx1 a b), b64_chr (sx2 b c), b64_chr (sx3 c)] @ b64 xs"

lemma length_b64: "length (b64 xs) = 4 * ((length xs + 2) div 3)"
proof (induction xs rule: b64.induct)
  case (4 a b c xs)
  have "(length (a # b # c # xs) + 2) div 3 = Suc ((length xs + 2) div 3)" by simp
  with 4 show ?case by simp
qed simp_all

lemma length_base64char [simp]: "length base64char = 64"
  by (simp add: base64char_def)

lemma six_bits: "x AND 0x3F = x \<Longrightarrow> unat x < 64" for x :: byte
  using word_and_le1 [of x "0x3F"] by (simp add: word_le_nat_alt)

lemma find_chr: "unat x < 64 \<Longrightarrow> base64_find (b64_chr x) = x"
proof -
  have "list_all (\<lambda>k. base64_find (base64char ! k) = of_nat k) [0..<64]" by code_simp
  then have "k < 64 \<Longrightarrow> base64_find (base64char ! k) = of_nat k" for k by (simp add: list_all_iff)
  then show "unat x < 64 \<Longrightarrow> base64_find (b64_chr x) = x" by (simp add: b64_chr_def)
qed

lemma chr_not_special: "unat x < 64 \<Longrightarrow> b64_chr x \<noteq> 0 \<and> b64_chr x \<noteq> b64_eq"
proof -
  have "list_all (\<lambda>c. c \<noteq> 0 \<and> c \<noteq> b64_eq) base64char" by code_simp
  then show "unat x < 64 \<Longrightarrow> b64_chr x \<noteq> 0 \<and> b64_chr x \<noteq> b64_eq" by (simp add: b64_chr_def list_all_length)
qed

text \<open>The sextets stay below 64 and reassemble to the octets.\<close>

lemma sextets:
  "unat (sx0 a) < 64" "unat (sx1_last a) < 64" "unat (sx1 a b) < 64" "unat (sx2_last b) < 64"
  "unat (sx2 b c) < 64" "unat (sx3 c) < 64"
  by (rule six_bits, simp add: sx_defs byte_bits bit_simps)+

lemma octets:
  "(push_bit 2 (sx0 a) AND 0xFC) OR (drop_bit 4 (sx1_last a) AND 0x03) = a"
  "(push_bit 2 (sx0 a) AND 0xFC) OR (drop_bit 4 (sx1 a b) AND 0x03) = a"
  "(push_bit 4 (sx1 a b) AND 0xF0) OR (drop_bit 2 (sx2_last b) AND 0x0F) = b"
  "(push_bit 4 (sx1 a b) AND 0xF0) OR (drop_bit 2 (sx2 b c) AND 0x0F) = b"
  "(push_bit 6 (sx2 b c) AND 0xF0) OR (sx3 c AND 0x3F) = c"
  unfolding sx_defs byte_bits by (simp_all add: bit_simps flip: numeral_2_eq_2 numeral_3_eq_3)

text \<open>Four stores in a row.\<close>

lemma four_stores:
  "j + 4 \<le> length out \<Longrightarrow> out[j := a, Suc j := b, j + 2 := c, j + 3 := d] = buf_put out j [a, b, c, d]"
  by (rule nth_equalityI) (auto simp: nth_buf_put nth_list_update nth_Cons' split: if_splits)

lemma four_more:
  "j + 4 + length ys \<le> length out \<Longrightarrow>
   buf_put (buf_put out j [a, b, c, d]) (j + 4) ys = buf_put out j (a # b # c # d # ys)"
  using buf_put_append [of j "[a, b, c, d]" ys out] by (simp add: numeral_eq_Suc)

lemma encode_loop:
  "i \<le> n \<Longrightarrow> n \<le> length bindata \<Longrightarrow> j + length (b64 (seg i n bindata)) \<le> length out \<Longrightarrow>
   base64_encode_loop bindata n i j out =
     Some (j + length (b64 (seg i n bindata)), buf_put out j (b64 (seg i n bindata)))"
proof (induction "n - i" arbitrary: i j out rule: less_induct)
  case less
  note rd = buf_rd_in buf_wr_in b64_chr_def [symmetric] sextets [unfolded sx_defs] sx_defs Let_def
  consider "n = i" | "n = i + 1" | "n = i + 2" | "i + 2 < n" using less.prems by linarith
  then show ?case
  proof cases
    case 1
    then show ?thesis by (simp add: base64_encode_loop.simps)
  next
    case 2
    then have "seg i n bindata = [bindata ! i]" using less.prems by (simp add: seg_step)
    then show ?thesis using less.prems 2 four_stores [of j out]
      by (subst base64_encode_loop.simps) (simp add: rd)
  next
    case 3
    then have "seg i n bindata = [bindata ! i, bindata ! (i + 1)]" using less.prems by (simp add: seg_step)
    then show ?thesis using less.prems 3 four_stores [of j out]
      by (subst base64_encode_loop.simps) (simp add: rd)
  next
    case 4
    then have seg: "seg i n bindata = bindata ! i # bindata ! (i + 1) # bindata ! (i + 2) # seg (i + 3) n bindata"
      using less.prems by (simp add: seg_step numeral_eq_Suc)
    show ?thesis using less.prems 4 four_stores [of j out] less.hyps [of "i + 3" "j + 4"]
      by (subst base64_encode_loop.simps)
         (simp add: rd seg four_more)
  qed
qed

lemma quad_read:
  assumes "drop i src = c0 # c1 # c2 # c3 # rest"
  shows "buf_rd src i = Some c0" "buf_rd src (Suc i) = Some c1" "buf_rd src (Suc (Suc i)) = Some c2"
    "buf_rd src (i + 3) = Some c3" "drop (i + 4) src = rest"
proof -
  have rd: "buf_rd src (i + k) = buf_rd (drop i src) k" for k
    by (auto simp: buf_rd_def nth_drop)
  show "buf_rd src i = Some c0" "buf_rd src (Suc i) = Some c1" "buf_rd src (Suc (Suc i)) = Some c2"
    "buf_rd src (i + 3) = Some c3"
    using rd [of 0] rd [of 1] rd [of 2] rd [of 3] assms by (simp_all add: buf_rd_def)
  have "drop (i + 4) src = drop 4 (drop i src)" by (simp add: add.commute)
  then show "drop (i + 4) src = rest" using assms by simp
qed

lemma decode_loop:
  "drop i src = b64 xs @ 0 # rest \<Longrightarrow> j + length xs \<le> length out \<Longrightarrow>
   base64_decode_loop src i j out = Some (j + length xs, buf_put out j xs)"
proof (induction xs arbitrary: i j out rule: b64.induct)
  case 1
  then have "buf_rd src i = Some 0" by (metis append_Nil b64.simps(1) buf_rd_def nth_via_drop drop_all linorder_not_less list.distinct(1))
  then show ?case by (simp add: base64_decode_loop.simps)
next
  case (2 a)
  note q = quad_read [OF "2.prems"(1) [simplified]]
  show ?case using "2.prems"(2)
    by (subst base64_decode_loop.simps)
       (simp add: q find_chr chr_not_special sextets octets buf_wr_in list_update_buf_put)
next
  case (3 a b)
  note q = quad_read [OF "3.prems"(1) [simplified]]
  show ?case using "3.prems"(2) buf_put_append [of j "[a]" "[b]" out]
    by (subst base64_decode_loop.simps)
       (simp add: q find_chr chr_not_special sextets octets buf_wr_in list_update_buf_put)
next
  case (4 a b c xs)
  note q = quad_read [OF "4.prems"(1) [simplified]]
  have "buf_put out j [a, b, c] = (buf_put (buf_put (buf_put out j [a]) (Suc j) [b]) (Suc (Suc j)) [c])"
    using "4.prems"(2) buf_put_append [of j "[a]" "[b]" out] buf_put_append [of j "[a, b]" "[c]" out] by simp
  moreover have "buf_put (buf_put out j [a, b, c]) (j + 3) xs = buf_put out j (a # b # c # xs)"
    using "4.prems"(2) buf_put_append [of j "[a, b, c]" xs out] by (simp add: numeral_eq_Suc)
  ultimately show ?case using "4.prems"(2) "4.IH" [of "i + 4" "j + 3" "buf_put out j [a, b, c]"]
    by (subst base64_decode_loop.simps)
       (simp add: q find_chr chr_not_special sextets octets buf_wr_in list_update_buf_put)
qed

section \<open>Properties\<close>

lemma encode_result:
  assumes "0 \<le> n" "nat n \<le> length bindata" "4 * ((nat n + 2) div 3) < length out"
  shows "lib_base64_encode bindata out n = Some (buf_put out 0 (b64 (take (nat n) bindata) @ [0]))"
proof -
  have seg: "seg 0 (nat n) bindata = take (nat n) bindata" by (simp add: seg_def)
  have len: "length (b64 (take (nat n) bindata)) = 4 * ((nat n + 2) div 3)"
    using assms by (simp add: length_b64)
  show ?thesis
    using encode_loop [of 0 "nat n" bindata 0 out] assms seg len
      buf_put_append [of 0 "b64 (take (nat n) bindata)" "[0]" out]
    by (simp add: lib_base64_encode_def buf_wr_in list_update_buf_put)
qed

text \<open>
  Encoding writes exactly four characters for every started group of three octets and a NUL, nothing
  else of the buffer changes, and a buffer of that size is enough; the characters are of the alphabet or
  padding.
\<close>

theorem base64_encode_layout:
  assumes "0 \<le> n" "nat n \<le> length bindata" "4 * ((nat n + 2) div 3) < length out"
  shows "\<exists>cs. lib_base64_encode bindata out n = Some (cs @ 0 # drop (length cs + 1) out) \<and>
    length cs = 4 * ((nat n + 2) div 3) \<and> set cs \<subseteq> set base64char \<union> {b64_eq}"
proof -
  have chr: "unat x < 64 \<Longrightarrow> b64_chr x \<in> set base64char" for x by (simp add: b64_chr_def)
  have "set (b64 xs) \<subseteq> set base64char \<union> {b64_eq}" for xs
    by (induction xs rule: b64.induct) (auto simp: chr sextets)
  moreover have "length (b64 (take (nat n) bindata)) = 4 * ((nat n + 2) div 3)"
    using assms by (simp add: length_b64)
  moreover have "lib_base64_encode bindata out n = Some (b64 (take (nat n) bindata) @
      0 # drop (length (b64 (take (nat n) bindata)) + 1) out)"
    using encode_result [OF assms] by (simp add: buf_put_def)
  ultimately show ?thesis by blast
qed

theorem base64_encode_layout_witness:
  "\<exists>cs. lib_base64_encode [77, 97] (replicate 5 0) 2 = Some (cs @ 0 # drop (length cs + 1) (replicate 5 0)) \<and>
    length cs = 4 * ((nat 2 + 2) div 3) \<and> set cs \<subseteq> set base64char \<union> {b64_eq}"
  by (rule base64_encode_layout) simp_all

text \<open>
  C25. Decoding what was encoded gives the octets back, for every length: the decoder
  returns their number, writes them at the start of its buffer and nothing else, and stays inside both buffers.
\<close>

theorem base64_roundtrip:
  assumes "0 \<le> n" "nat n \<le> length bindata" "4 * ((nat n + 2) div 3) < length out"
    and "nat n \<le> length bin2" "lib_base64_encode bindata out n = Some enc"
  shows "lib_base64_decode enc bin2 = Some (nat n, take (nat n) bindata @ drop (nat n) bin2)"
proof -
  have "drop 0 enc = b64 (take (nat n) bindata) @ 0 # drop (length (b64 (take (nat n) bindata)) + 1) out"
    using encode_result [OF assms(1-3)] assms(5) by (simp add: buf_put_def)
  from decode_loop [OF this, of 0 bin2] show ?thesis using assms
    by (simp add: lib_base64_decode_def buf_put_def)
qed

theorem base64_roundtrip_witness:
  "lib_base64_decode [84, 87, 69, 61, 0] (replicate 3 9) = Some (nat 2, take (nat 2) [77, 97] @ drop (nat 2) (replicate 3 9))"
proof (rule base64_roundtrip [of _ _ "replicate 5 0"])
  show "lib_base64_encode [77, 97] (replicate 5 0) 2 = Some [84, 87, 69, 61, 0]" by code_simp
qed simp_all

end
