(* ===== verification/RentRecord.thy ===== *)
theory RentRecord
  imports Base64 CString
begin

text \<open>
  Rental records (\<open>src/rent_record\<close>): the centre sends them as text in base64, printed in hexadecimal. \<open>str_to_hex\<close> undoes the
  printing, the base64 decoder of theory \<open>Base64\<close> the coding, and \<open>ParseRentBikeRecord\<close> cuts the text at tabs and newlines, copies each field into a
  packed structure and prints the record. What is printed is the result of the parser, so it is part of the model.
\<close>

section \<open>Hexadecimal\<close>

definition hex_value :: "byte \<Rightarrow> byte option" where
  "hex_value c =
     (if 48 \<le> c \<and> c \<le> 57 then Some (c - 48)
      else if 65 \<le> c \<and> c \<le> 70 then Some (c - 0x37)
      else if 97 \<le> c \<and> c \<le> 102 then Some (c - 0x57)
      else None)"

text \<open>The first loop replaces the characters in place; \<open>False\<close> is the return in the middle.\<close>

function hex_digits :: "byte list \<Rightarrow> nat \<Rightarrow> nat \<Rightarrow> (bool \<times> byte list) option" where
  "hex_digits o_buf str_len i =
     (if i < str_len then do {
        c \<leftarrow> buf_rd o_buf i;
        case hex_value c of
          None \<Rightarrow> Some (False, o_buf)
        | Some v \<Rightarrow> do { o_buf \<leftarrow> buf_wr o_buf i v; hex_digits o_buf str_len (i + 1) }
      } else Some (True, o_buf))"
  by pat_completeness auto
termination by (relation "measure (\<lambda>(o_buf, str_len, i). str_len - i)") auto

function hex_pairs :: "byte list \<Rightarrow> nat \<Rightarrow> nat \<Rightarrow> nat \<Rightarrow> byte list \<Rightarrow> (nat \<times> byte list) option" where
  "hex_pairs o_buf i j temp_len hex_data =
     (if j < i then do {
        a \<leftarrow> buf_rd o_buf j;
        b \<leftarrow> buf_rd o_buf (j + 1);
        hex_data \<leftarrow> buf_wr hex_data temp_len (push_bit 4 a OR b);
        hex_pairs o_buf i (j + 2) (temp_len + 1) hex_data
      } else Some (temp_len, hex_data))"
  by pat_completeness auto
termination by (relation "measure (\<lambda>(o_buf, i, j, temp_len, hex_data). i - j)") auto

declare hex_digits.simps [simp del] hex_pairs.simps [simp del]

definition str_to_hex :: "byte list \<Rightarrow> byte list \<Rightarrow> int \<Rightarrow> (nat \<times> byte list \<times> byte list) option" where
  "str_to_hex str_data hex_data str_len = do {
     (ok, o_buf) \<leftarrow> hex_digits str_data (nat str_len) 0;
     if \<not> ok then Some (0, o_buf, hex_data)
     else do {
       (temp_len, hex_data) \<leftarrow> hex_pairs o_buf (nat str_len) 0 0 hex_data;
       Some (temp_len, o_buf, hex_data)
     }
   }"

section \<open>Records\<close>

text \<open>
  \<open>struct rent_info_fmt\<close>: offset and size of \<open>bike_NO\<close>, \<open>rent_name\<close>, \<open>rent_time\<close>, \<open>return_name\<close>, \<open>return_time\<close>,
  \<open>used_time\<close> and \<open>fee\<close>. It is packed, 256 octets long, and an array of them is one block of memory.
\<close>

definition rent_info_fmt :: "(nat \<times> nat) list" where
  "rent_info_fmt = [(0, 32), (32, 64), (96, 32), (128, 64), (192, 32), (224, 16), (240, 16)]"

definition rent_info_size :: nat where "rent_info_size = 256"

record rent_state =
  rr_begin :: nat
  rr_cnt :: nat
  m_CurrRecordNum :: nat
  m_RentRecordInfo :: "byte list"
  rr_out :: "byte list list list"

text \<open>The seven strings that are printed with \<open>%s\<close>.\<close>

fun c_strs :: "byte list \<Rightarrow> nat list \<Rightarrow> byte list list option" where
  "c_strs mem [] = Some []"
| "c_strs mem (o1 # os) = do { s \<leftarrow> c_str mem o1; ss \<leftarrow> c_strs mem os; Some (s # ss) }"

text \<open>One of the seven cases of the switch: the size cut to that of the member, the copy, and the NUL behind it.\<close>

definition field_store :: "byte list \<Rightarrow> nat \<Rightarrow> rent_state \<Rightarrow> byte list option" where
  "field_store buff i st =
     (let (off, cap) = rent_info_fmt ! rr_cnt st;
          size = i - rr_begin st;
          size = (if size \<ge> cap then cap else size);
          dst = rent_info_size * m_CurrRecordNum st + off;
          src = (if rr_cnt st = 0 \<and> m_CurrRecordNum st = 0 then rr_begin st else rr_begin st + 1)
      in do {
        mem \<leftarrow> memcpy (m_RentRecordInfo st) dst buff src size;
        buf_wr mem (dst + size) 0
      })"

definition separator_step :: "byte list \<Rightarrow> nat \<Rightarrow> rent_state \<Rightarrow> rent_state option" where
  "separator_step buff i st = do {
     st \<leftarrow> (if rr_cnt st < 7 then do { mem \<leftarrow> field_store buff i st; Some (st\<lparr>m_RentRecordInfo := mem\<rparr>) }
           else Some (st\<lparr>rr_cnt := 0\<rparr>));
     Some (st\<lparr>rr_begin := i, rr_cnt := rr_cnt st + 1\<rparr>)
   }"

definition record_step :: "rent_state \<Rightarrow> rent_state option" where
  "record_step st = do {
     fs \<leftarrow> c_strs (m_RentRecordInfo st) (map (\<lambda>(off, cap). rent_info_size * m_CurrRecordNum st + off) rent_info_fmt);
     Some (st\<lparr>rr_out := rr_out st @ [fs], m_CurrRecordNum := m_CurrRecordNum st + 1, rr_cnt := 0\<rparr>)
   }"

definition parse_step :: "byte list \<Rightarrow> nat \<Rightarrow> rent_state \<Rightarrow> rent_state option" where
  "parse_step buff i st = do {
     c \<leftarrow> buf_rd buff i;
     st \<leftarrow> (if c = 0x09 \<or> c = 0x0a then separator_step buff i st else Some st);
     if c = 0x0a then record_step st else Some st
   }"

function parse_loop :: "byte list \<Rightarrow> nat \<Rightarrow> nat \<Rightarrow> rent_state \<Rightarrow> rent_state option" where
  "parse_loop buff i limit st =
     (if i < limit then do { st \<leftarrow> parse_step buff i st; parse_loop buff (i + 1) limit st } else Some st)"
  by pat_completeness auto
termination by (relation "measure (\<lambda>(buff, i, limit, st). limit - i)") auto

declare parse_loop.simps [simp del]

text \<open>
  \<open>calloc_ok\<close> says whether the allocation succeeds; a null pointer is a block without room. A null \<open>buff\<close> is \<open>None\<close>.
\<close>

definition ParseRentBikeRecord :: "bool \<Rightarrow> byte list option \<Rightarrow> int \<Rightarrow> (int \<times> byte list list list) option" where
  "ParseRentBikeRecord calloc_ok buff len =
     (case buff of
        None \<Rightarrow> Some (-1, [])
      | Some buff \<Rightarrow>
        if len \<le> 0 then Some (-1, [])
        else do {
          n \<leftarrow> buf_rd buff 8;
          let mem = (if calloc_ok then replicate (unat n * rent_info_size) 0 else []);
          st \<leftarrow> parse_loop buff 11 (nat len + 11) \<lparr>rr_begin = 11, rr_cnt = 0, m_CurrRecordNum = 0, m_RentRecordInfo = mem, rr_out = []\<rparr>;
          Some (0, rr_out st)
        })"

text \<open>The program: what it prints of the records in the string it holds.\<close>

definition rent_main :: "bool \<Rightarrow> byte list \<Rightarrow> byte list list list option" where
  "rent_main calloc_ok rent_str = do {
     (ret, rent_str, hexdata) \<leftarrow> str_to_hex rent_str (replicate 2048 0) (int (strlen rent_str));
     (ret, bindata) \<leftarrow> lib_base64_decode hexdata (replicate 2048 0);
     let size = 256 * uint (bindata ! 9) + uint (bindata ! 10);
     (ret, out) \<leftarrow> ParseRentBikeRecord calloc_ok (Some bindata) size;
     Some out
   }"

end
