(* ===== verification/RentProps.thy ===== *)
theory RentProps
  imports RentRecord
begin

text \<open>
  The rental record parser on well-formed input: what it prints, and the whole program from the hexadecimal text on.
\<close>

section \<open>Strings in memory\<close>

lemma c_str_put:
  assumes "0 \<notin> set s" "off + length s < length mem"
  shows "c_str (buf_put mem off (s @ [0])) off = Some s"
  using assms by (auto simp: c_str_def buf_put_def takeWhile_tail)

lemma c_str_put_later:
  assumes "c_str mem off = Some s" "off + length s < p" "p \<le> length mem"
  shows "c_str (buf_put mem p xs) off = Some s"
proof -
  have nul: "0 \<in> set (drop off mem)" and s: "s = takeWhile (\<lambda>c. c \<noteq> 0) (drop off mem)"
    using assms(1) by (auto simp: c_str_def split: if_splits)
  let ?d = "take (p - off) (drop off mem)"
  have split: "drop off mem = ?d @ drop p mem" using append_take_drop_id [of "p - off" "drop off mem"] assms(2) by simp
  have in_d: "0 \<in> set ?d"
  proof (rule ccontr)
    assume "0 \<notin> set ?d"
    then have "length s \<ge> length ?d" unfolding s by (subst split) (subst takeWhile_append2; auto)
    then show False using assms by simp
  qed
  have put: "drop off (buf_put mem p xs) = ?d @ xs @ drop (p + length xs) mem"
    using assms(2,3) by (simp add: buf_put_def drop_take)
  have tw: "takeWhile (\<lambda>c. c \<noteq> 0) (?d @ ys) = takeWhile (\<lambda>c. c \<noteq> 0) ?d" for ys
    using in_d by (intro takeWhile_append1) auto
  have "s = takeWhile (\<lambda>c. c \<noteq> 0) ?d" unfolding s by (subst split) (rule tw)
  then show ?thesis unfolding c_str_def put tw using in_d by simp
qed

section \<open>The loop\<close>

lemma parse_loop_append: "a \<le> b \<Longrightarrow> b \<le> c \<Longrightarrow> parse_loop buff a c st = parse_loop buff a b st \<bind> parse_loop buff b c"
proof (induction "b - a" arbitrary: a st)
  case 0
  then show ?case by (subst (2) parse_loop.simps) simp
next
  case (Suc n)
  then have "a < b" "a < c" "parse_loop buff (a + 1) c st' = parse_loop buff (a + 1) b st' \<bind> parse_loop buff b c" for st' by auto
  then show ?case by (subst (1 2) parse_loop.simps) (cases "parse_step buff a st"; simp)
qed

lemma parse_loop_plain:
  "drop i buff = s @ rest \<Longrightarrow> 9 \<notin> set s \<Longrightarrow> 10 \<notin> set s \<Longrightarrow> parse_loop buff i (i + length s) st = Some st"
proof (induction s arbitrary: i)
  case Nil
  then show ?case by (simp add: parse_loop.simps)
next
  case (Cons c s)
  then have "buf_rd buff i = Some c" by (simp add: buf_rd_drop)
  moreover have "drop (i + 1) buff = s @ rest" using drop_further [of i buff "[c]" "s @ rest"] Cons.prems(1) by simp
  ultimately show ?case using Cons.IH [of "i + 1"] Cons.prems by (subst parse_loop.simps) (simp add: parse_step_def)
qed

text \<open>Where the text of the field at \<open>p\<close> starts, and what is copied of it: all but the very first take the separator along.\<close>

definition at_field :: "rent_state \<Rightarrow> nat \<Rightarrow> bool" where
  "at_field st p \<longleftrightarrow> (if rr_cnt st = 0 \<and> m_CurrRecordNum st = 0 then rr_begin st = p else Suc (rr_begin st) = p)"

definition shown :: "nat \<Rightarrow> nat \<Rightarrow> byte list \<Rightarrow> byte list" where
  "shown k j f = (if k = 0 \<and> j = 0 then f else f @ [9])"

definition field_ok :: "nat \<Rightarrow> byte list \<Rightarrow> bool" where
  "field_ok j f \<longleftrightarrow> 0 \<notin> set f \<and> 9 \<notin> set f \<and> 10 \<notin> set f \<and> length f + 1 < snd (rent_info_fmt ! j)"

definition field_pos :: "nat \<Rightarrow> nat \<Rightarrow> nat" where
  "field_pos k j = rent_info_size * k + fst (rent_info_fmt ! j)"

lemma field_end: "j < 7 \<Longrightarrow> fst (rent_info_fmt ! j) + snd (rent_info_fmt ! j) \<le> 256 \<and>
    (j' < 7 \<longrightarrow> j < j' \<longrightarrow> fst (rent_info_fmt ! j) + snd (rent_info_fmt ! j) \<le> fst (rent_info_fmt ! j'))"
proof -
  have "list_all (\<lambda>j. fst (rent_info_fmt ! j) + snd (rent_info_fmt ! j) \<le> 256 \<and>
      list_all (\<lambda>j'. j < j' \<longrightarrow> fst (rent_info_fmt ! j) + snd (rent_info_fmt ! j) \<le> fst (rent_info_fmt ! j')) [0..<7]) [0..<7]"
    by code_simp
  then show "j < 7 \<Longrightarrow> ?thesis" by (simp add: list_all_iff)
qed

lemma field_fits:
  assumes "field_ok j f" "j < 7" "rent_info_size * (k + 1) \<le> n"
  shows "field_pos k j + length (shown k j f) < n"
proof -
  have "length (shown k j f) \<le> length f + 1" by (simp add: shown_def)
  moreover have "length f + 1 < snd (rent_info_fmt ! j)" using assms(1) by (simp add: field_ok_def)
  moreover have "fst (rent_info_fmt ! j) + snd (rent_info_fmt ! j) \<le> 256" using field_end [OF assms(2)] by blast
  ultimately show ?thesis using assms(3) by (simp add: field_pos_def rent_info_size_def)
qed

lemma memcpy_NUL:
  assumes "drop src buff = s @ rest" "d + length s < length mem" "src \<le> length buff"
  shows "(memcpy mem d buff src (length s) \<bind> (\<lambda>m. buf_wr m (d + length s) 0)) = Some (buf_put mem d (s @ [0]))"
proof -
  have l: "src + length s \<le> length buff" using arg_cong [OF assms(1), of length] assms(3) by simp
  have "memcpy mem d buff src (length s) = Some (buf_put mem d s)"
    using memcpy_eq_buf_put [of d "length s" mem src buff] l assms by simp
  then show ?thesis using assms(2) buf_put_append [of d s "[0]" mem] by (simp add: buf_wr_in list_update_buf_put)
qed

lemma parse_field:
  assumes d: "drop p buff = f @ 9 # rest" and at: "at_field st p" and j: "rr_cnt st < 7" and f: "field_ok (rr_cnt st) f"
    and room: "rent_info_size * (m_CurrRecordNum st + 1) \<le> length (m_RentRecordInfo st)"
  shows "parse_loop buff p (p + length f + 1) st =
    Some (st\<lparr>m_RentRecordInfo := buf_put (m_RentRecordInfo st) (field_pos (m_CurrRecordNum st) (rr_cnt st)) (shown (m_CurrRecordNum st) (rr_cnt st) f @ [0]),
      rr_begin := p + length f, rr_cnt := rr_cnt st + 1\<rparr>)"
proof -
  let ?j = "rr_cnt st" and ?k = "m_CurrRecordNum st" and ?i = "p + length f"
  have plain: "parse_loop buff p ?i st = Some st"
    using parse_loop_plain [of p buff f "9 # rest" st] d f by (simp add: field_ok_def)
  have c: "buf_rd buff ?i = Some 9" using buf_rd_drop [OF drop_further [OF d]] .
  have pos: "field_pos ?k ?j + length (shown ?k ?j f) < length (m_RentRecordInfo st)"
    using field_fits [OF f j room] .
  have store: "field_store buff ?i st = Some (buf_put (m_RentRecordInfo st) (field_pos ?k ?j) (shown ?k ?j f @ [0]))"
  proof -
    have size: "?i - rr_begin st = length (shown ?k ?j f)" using at by (auto simp: at_field_def shown_def split: if_splits)
    have src: "(if ?j = 0 \<and> ?k = 0 then rr_begin st else rr_begin st + 1) = p" using at by (auto simp: at_field_def)
    obtain off cap where fmt: "rent_info_fmt ! ?j = (off, cap)" by fastforce
    have cap: "length (shown ?k ?j f) < cap" using f fmt by (simp add: field_ok_def shown_def)
    have "drop p buff = shown ?k ?j f @ (if ?k = 0 \<and> ?j = 0 then 9 # rest else rest)" using d by (simp add: shown_def)
    moreover have "p \<le> length buff" using d by (cases "p \<le> length buff") auto
    ultimately show ?thesis using memcpy_NUL [OF _ pos, of p buff]
      using size src cap fmt by (auto simp: field_store_def Let_def field_pos_def conj_commute)
  qed
  have "parse_step buff ?i st = Some (st\<lparr>m_RentRecordInfo := buf_put (m_RentRecordInfo st) (field_pos ?k ?j) (shown ?k ?j f @ [0]),
      rr_begin := ?i, rr_cnt := ?j + 1\<rparr>)"
    using j by (simp add: parse_step_def c separator_step_def store)
  then have "parse_loop buff ?i (?i + 1) st = Some (st\<lparr>m_RentRecordInfo := buf_put (m_RentRecordInfo st) (field_pos ?k ?j) (shown ?k ?j f @ [0]),
      rr_begin := ?i, rr_cnt := ?j + 1\<rparr>)"
    by (subst parse_loop.simps) (simp add: parse_loop.simps)
  then show ?thesis using plain parse_loop_append [of p ?i "?i + 1" buff st] by simp
qed

section \<open>Records\<close>

definition fields_text :: "byte list list \<Rightarrow> byte list" where
  "fields_text fs = concat (map (\<lambda>f. f @ [9]) fs)"

definition rec_text :: "byte list list \<Rightarrow> byte list" where
  "rec_text fs = fields_text fs @ [10]"

definition rec_ok :: "byte list list \<Rightarrow> bool" where
  "rec_ok fs \<longleftrightarrow> length fs = 7 \<and> (\<forall>j<7. field_ok j (fs ! j))"

definition shown_rec :: "nat \<Rightarrow> byte list list \<Rightarrow> byte list list" where
  "shown_rec k fs = map (\<lambda>j. shown k j (fs ! j)) [0..<7]"

text \<open>After the first \<open>j\<close> fields of a record.\<close>

lemma parse_fields:
  assumes d: "drop p buff = fields_text fs @ rest" and ok: "rec_ok fs" and st: "at_field st p" "rr_cnt st = 0"
    and room: "rent_info_size * (m_CurrRecordNum st + 1) \<le> length (m_RentRecordInfo st)"
  shows "j \<le> 7 \<Longrightarrow> \<exists>st'. parse_loop buff p (p + length (fields_text (take j fs))) st = Some st' \<and>
    at_field st' (p + length (fields_text (take j fs))) \<and> rr_cnt st' = j \<and> m_CurrRecordNum st' = m_CurrRecordNum st \<and>
    rr_out st' = rr_out st \<and> length (m_RentRecordInfo st') = length (m_RentRecordInfo st) \<and>
    (\<forall>i<j. c_str (m_RentRecordInfo st') (field_pos (m_CurrRecordNum st) i) = Some (shown (m_CurrRecordNum st) i (fs ! i)))"
proof (induction j)
  case 0
  then show ?case using st by (simp add: fields_text_def parse_loop.simps)
next
  case (Suc j)
  let ?k = "m_CurrRecordNum st" and ?p = "p + length (fields_text (take j fs))" and ?f = "fs ! j"
  from Suc obtain st1 where run: "parse_loop buff p ?p st = Some st1" and at: "at_field st1 ?p" and cnt: "rr_cnt st1 = j"
    and num: "m_CurrRecordNum st1 = ?k" and out: "rr_out st1 = rr_out st" and len: "length (m_RentRecordInfo st1) = length (m_RentRecordInfo st)"
    and strs: "\<forall>i<j. c_str (m_RentRecordInfo st1) (field_pos ?k i) = Some (shown ?k i (fs ! i))" by auto
  have j: "j < 7" "j < length fs" and f: "field_ok j ?f" using Suc.prems ok by (auto simp: rec_ok_def)
  have "fields_text fs = fields_text (take j fs) @ ?f @ 9 # fields_text (drop (Suc j) fs)"
    by (subst id_take_nth_drop [OF j(2)]) (simp add: fields_text_def)
  then have dp: "drop ?p buff = ?f @ 9 # (fields_text (drop (Suc j) fs) @ rest)"
    using d by (intro drop_further) simp
  let ?st2 = "st1\<lparr>m_RentRecordInfo := buf_put (m_RentRecordInfo st1) (field_pos ?k j) (shown ?k j ?f @ [0]),
      rr_begin := ?p + length ?f, rr_cnt := Suc j\<rparr>"
  have q: "p + length (fields_text (take (Suc j) fs)) = ?p + length ?f + 1"
    using j by (simp add: fields_text_def take_Suc_conv_app_nth)
  have step: "parse_loop buff ?p (?p + length ?f + 1) st1 = Some ?st2"
    using parse_field [OF dp at] j f room cnt num len by simp
  have fit: "field_pos ?k j + length (shown ?k j ?f) < length (m_RentRecordInfo st1)"
    using field_fits [OF f j(1) room] len by simp
  have "\<forall>i<Suc j. c_str (m_RentRecordInfo ?st2) (field_pos ?k i) = Some (shown ?k i (fs ! i))"
  proof (intro allI impI)
    fix i
    assume "i < Suc j"
    then consider "i = j" | "i < j" by linarith
    then show "c_str (m_RentRecordInfo ?st2) (field_pos ?k i) = Some (shown ?k i (fs ! i))"
    proof cases
      case 1
      have "0 \<notin> set (shown ?k j ?f)" using f by (auto simp: shown_def field_ok_def)
      then show ?thesis using 1 c_str_put [OF _ fit] by simp
    next
      case 2
      have "field_ok i (fs ! i)" using ok 2 j by (simp add: rec_ok_def)
      then have "field_pos ?k i + length (shown ?k i (fs ! i)) < field_pos ?k j"
        using field_end [of i j] 2 j by (auto simp: field_ok_def shown_def field_pos_def)
      then show ?thesis using c_str_put_later [OF strs [rule_format, OF 2]] fit by simp
    qed
  qed
  moreover have "parse_loop buff p (?p + length ?f + 1) st = Some ?st2"
    using run step parse_loop_append [of p ?p "?p + length ?f + 1" buff st] by simp
  moreover have "length (m_RentRecordInfo ?st2) = length (m_RentRecordInfo st)"
    using fit len by (simp add: buf_put_def)
  ultimately show ?case using num out unfolding q by (intro exI [of _ ?st2]) (simp add: at_field_def)
qed

lemma c_strs_eq: "(\<forall>i<length os. c_str mem (os ! i) = Some (ss ! i)) \<Longrightarrow> length ss = length os \<Longrightarrow> c_strs mem os = Some ss"
proof (induction os arbitrary: ss)
  case (Cons o1 os)
  then obtain t ts where "ss = t # ts" by (cases ss) auto
  moreover have "c_str mem o1 = Some (ss ! 0)" using Cons.prems(1) by force
  moreover have "\<forall>i<length os. c_str mem (os ! i) = Some (ss ! Suc i)" using Cons.prems(1) by force
  ultimately show ?case using Cons.IH [of ts] Cons.prems(2) by simp
qed simp

lemma parse_record:
  assumes d: "drop p buff = rec_text fs @ rest" and ok: "rec_ok fs" and st: "at_field st p" "rr_cnt st = 0"
    and room: "rent_info_size * (m_CurrRecordNum st + 1) \<le> length (m_RentRecordInfo st)"
  shows "\<exists>st'. parse_loop buff p (p + length (rec_text fs)) st = Some st' \<and> at_field st' (p + length (rec_text fs)) \<and> rr_cnt st' = 0 \<and>
    m_CurrRecordNum st' = m_CurrRecordNum st + 1 \<and> length (m_RentRecordInfo st') = length (m_RentRecordInfo st) \<and>
    rr_out st' = rr_out st @ [shown_rec (m_CurrRecordNum st) fs]"
proof -
  let ?k = "m_CurrRecordNum st" and ?p = "p + length (fields_text fs)"
  have "drop p buff = fields_text fs @ 10 # rest" using d by (simp add: rec_text_def)
  from parse_fields [OF this ok st room, of 7] ok
  obtain st1 where run: "parse_loop buff p ?p st = Some st1" and cnt: "rr_cnt st1 = 7" and num: "m_CurrRecordNum st1 = ?k"
    and out: "rr_out st1 = rr_out st" and len: "length (m_RentRecordInfo st1) = length (m_RentRecordInfo st)"
    and strs: "\<forall>i<7. c_str (m_RentRecordInfo st1) (field_pos ?k i) = Some (shown ?k i (fs ! i))" by (auto simp: rec_ok_def)
  have "drop ?p buff = 10 # rest" using d by (intro drop_further) (simp add: rec_text_def)
  then have c: "buf_rd buff ?p = Some 10" by (rule buf_rd_drop)
  have l7: "length rent_info_fmt = 7" by (simp add: rent_info_fmt_def)
  have printed: "c_strs (m_RentRecordInfo st1) (map (\<lambda>(off, cap). rent_info_size * ?k + off) rent_info_fmt) = Some (shown_rec ?k fs)"
    by (rule c_strs_eq) (use strs in \<open>auto simp: l7 shown_rec_def field_pos_def case_prod_beta\<close>)
  let ?st2 = "st1\<lparr>rr_begin := ?p, rr_cnt := 0, rr_out := rr_out st @ [shown_rec ?k fs], m_CurrRecordNum := ?k + 1\<rparr>"
  have "parse_step buff ?p st1 = Some ?st2"
    using cnt num out printed by (simp add: parse_step_def c separator_step_def record_step_def)
  then have "parse_loop buff ?p (?p + 1) st1 = Some ?st2" by (subst parse_loop.simps) (simp add: parse_loop.simps)
  then have "parse_loop buff p (p + length (rec_text fs)) st = Some ?st2"
    using run parse_loop_append [of p ?p "?p + 1" buff st] by (simp add: rec_text_def)
  then show ?thesis using len by (intro exI [of _ ?st2]) (simp add: at_field_def rec_text_def)
qed

definition recs_text :: "byte list list list \<Rightarrow> byte list" where
  "recs_text rs = concat (map rec_text rs)"

lemma parse_records:
  assumes "drop p buff = recs_text rs @ rest" "list_all rec_ok rs" "at_field st p" "rr_cnt st = 0"
    "rent_info_size * (m_CurrRecordNum st + length rs) \<le> length (m_RentRecordInfo st)"
  shows "\<exists>st'. parse_loop buff p (p + length (recs_text rs)) st = Some st' \<and>
    rr_out st' = rr_out st @ map (\<lambda>i. shown_rec (m_CurrRecordNum st + i) (rs ! i)) [0..<length rs] \<and>
    rr_cnt st' = 0 \<and> m_CurrRecordNum st' = m_CurrRecordNum st + length rs \<and> length (m_RentRecordInfo st') = length (m_RentRecordInfo st)"
  using assms
proof (induction rs arbitrary: p st)
  case Nil
  then show ?case by (simp add: recs_text_def parse_loop.simps)
next
  case (Cons fs rs)
  let ?q = "p + length (rec_text fs)"
  have d: "drop p buff = rec_text fs @ (recs_text rs @ rest)" using Cons.prems(1) by (simp add: recs_text_def)
  obtain st1 where st1: "parse_loop buff p ?q st = Some st1" "at_field st1 ?q" "rr_cnt st1 = 0" "m_CurrRecordNum st1 = m_CurrRecordNum st + 1"
    "length (m_RentRecordInfo st1) = length (m_RentRecordInfo st)" "rr_out st1 = rr_out st @ [shown_rec (m_CurrRecordNum st) fs]"
    using parse_record [OF d _ Cons.prems(3,4)] Cons.prems(2,5) by (auto simp: rent_info_size_def)
  obtain st2 where "parse_loop buff ?q (?q + length (recs_text rs)) st1 = Some st2"
    "rr_out st2 = rr_out st1 @ map (\<lambda>i. shown_rec (m_CurrRecordNum st1 + i) (rs ! i)) [0..<length rs]"
    "rr_cnt st2 = 0" "m_CurrRecordNum st2 = m_CurrRecordNum st1 + length rs" "length (m_RentRecordInfo st2) = length (m_RentRecordInfo st1)"
    using Cons.IH [OF drop_further [OF d], of st1] Cons.prems(2,5) st1 by auto
  moreover have "map (\<lambda>i. shown_rec (k + i) ((fs # rs) ! i)) [0..<length (fs # rs)] =
      shown_rec k fs # map (\<lambda>i. shown_rec (k + 1 + i) (rs ! i)) [0..<length rs]" for k
    by (simp add: upt_conv_Cons map_Suc_upt [symmetric] del: upt_Suc)
  ultimately show ?case using st1 parse_loop_append [of p ?q "?q + length (recs_text rs)" buff st]
    by (intro exI [of _ st2]) (simp add: recs_text_def add.assoc del: upt_Suc)
qed

lemma parse_message:
  assumes "length hdr = 11" "hdr ! 8 = of_nat (length rs)" "length rs < 256" "rs \<noteq> []" "list_all rec_ok rs"
  shows "ParseRentBikeRecord True (Some (hdr @ recs_text rs @ rest)) (int (length (recs_text rs))) =
    Some (0, map (\<lambda>i. shown_rec i (rs ! i)) [0..<length rs])"
proof -
  let ?buff = "hdr @ recs_text rs @ rest"
  have ne: "0 < length (recs_text rs)" using assms(4) by (cases rs) (auto simp: recs_text_def rec_text_def)
  have n: "buf_rd ?buff 8 = Some (of_nat (length rs))" using assms by (simp add: buf_rd_def nth_append)
  have u: "unat (of_nat (length rs) :: byte) = length rs"
    using assms(3) by (simp add: unsigned_of_nat take_bit_nat_eq_self)
  have "drop 11 ?buff = recs_text rs @ rest" using assms(1) by simp
  from parse_records [OF this assms(5), of "\<lparr>rr_begin = 11, rr_cnt = 0, m_CurrRecordNum = 0,
      m_RentRecordInfo = replicate (length rs * rent_info_size) 0, rr_out = []\<rparr>"]
  show ?thesis using ne n u by (auto simp: ParseRentBikeRecord_def at_field_def mult.commute add.commute)
qed

lemma parse_one_too_many:
  assumes "length hdr = 11" "hdr ! 8 = of_nat (length rs)" "length rs < 256" "list_all rec_ok rs"
    and "9 \<notin> set f" "10 \<notin> set f" "length (recs_text rs) + length f < len"
  shows "ParseRentBikeRecord True (Some (hdr @ recs_text rs @ f @ 9 # rest)) (int len) = None"
proof -
  let ?buff = "hdr @ recs_text rs @ f @ 9 # rest" and ?p = "11 + length (recs_text rs)"
  let ?st0 = "\<lparr>rr_begin = 11, rr_cnt = 0, m_CurrRecordNum = 0, m_RentRecordInfo = replicate (length rs * rent_info_size) 0, rr_out = []\<rparr>"
  have n: "buf_rd ?buff 8 = Some (of_nat (length rs))" using assms by (simp add: buf_rd_def nth_append)
  have u: "unat (of_nat (length rs) :: byte) = length rs"
    using assms(3) by (simp add: unsigned_of_nat take_bit_nat_eq_self)
  have d: "drop 11 ?buff = recs_text rs @ f @ 9 # rest" using assms(1) by simp
  obtain st where st: "parse_loop ?buff 11 ?p ?st0 = Some st" "rr_cnt st = 0" "m_CurrRecordNum st = length rs"
    "length (m_RentRecordInfo st) = length rs * rent_info_size"
    using parse_records [OF d assms(4), of ?st0] by (auto simp: at_field_def mult.commute)
  have dp: "drop ?p ?buff = f @ 9 # rest" using drop_further [OF d] .
  have plain: "parse_loop ?buff ?p (?p + length f) st = Some st" using parse_loop_plain [OF dp] assms(5,6) by simp
  have c: "buf_rd ?buff (?p + length f) = Some 9" using buf_rd_drop [OF drop_further [OF dp]] .
  have "field_store ?buff (?p + length f) st = None"
    using st by (auto simp: field_store_def Let_def rent_info_fmt_def memcpy_def buf_wr_def bind_eq_None_conv split: if_splits)
  then have "parse_step ?buff (?p + length f) st = None" using st by (simp add: parse_step_def c separator_step_def)
  then have "parse_loop ?buff (?p + length f) (nat (int len) + 11) st = None"
    using assms(7) by (subst parse_loop.simps) simp
  then have "parse_loop ?buff 11 (nat (int len) + 11) ?st0 = None"
    using parse_loop_append [of 11 ?p "nat (int len) + 11" ?buff ?st0] parse_loop_append [of ?p "?p + length f" "nat (int len) + 11" ?buff st]
      st plain assms(7) by simp
  then show ?thesis using n u assms(7) by (simp add: ParseRentBikeRecord_def)
qed

text \<open>
  On a message with up to 255 well-formed records the parser prints every record, in order and with all seven fields; each field carries the tab
  that ended it, except the first field of the first record.
\<close>

theorem rent_records_printed:
  assumes "length hdr = 11" "hdr ! 8 = of_nat (length rs)" "length rs < 256" "rs \<noteq> []" "list_all rec_ok rs"
  shows "ParseRentBikeRecord True (Some (hdr @ recs_text rs @ rest)) (int (length (recs_text rs))) =
    Some (0, map (\<lambda>i. shown_rec i (rs ! i)) [0..<length rs])"
  using assms by (rule parse_message)

definition demo_recs :: "byte list list list" where
  "demo_recs = [[[49], [65], [50], [66], [51], [52], [53]], [[54], [67], [55], [], [56], [57], [48]]]"

lemma demo_recs_ok: "list_all rec_ok demo_recs"
proof -
  have "list_all (\<lambda>fs. length fs = 7 \<and> list_all (\<lambda>j. field_ok j (fs ! j)) [0..<7]) demo_recs" by code_simp
  then show ?thesis by (simp add: list_all_iff rec_ok_def)
qed

theorem rent_records_printed_witness:
  "ParseRentBikeRecord True (Some ([0, 0, 0, 0, 0, 0, 0, 0, 2, 0, 30] @ recs_text demo_recs @ [0])) (int (length (recs_text demo_recs))) =
    Some (0, [[[49], [65, 9], [50, 9], [66, 9], [51, 9], [52, 9], [53, 9]], [[54, 9], [67, 9], [55, 9], [9], [56, 9], [57, 9], [48, 9]]])"
proof -
  have e: "map (\<lambda>i. shown_rec i (demo_recs ! i)) [0..<length demo_recs] =
     [[[49], [65, 9], [50, 9], [66, 9], [51, 9], [52, 9], [53, 9]], [[54, 9], [67, 9], [55, 9], [9], [56, 9], [57, 9], [48, 9]]]"
    by code_simp
  show ?thesis by (subst rent_records_printed) (simp_all add: e [simplified] demo_recs_ok, simp_all add: demo_recs_def)
qed

text \<open>
  The number of records in the header is trusted: when one more field follows the announced records, the parser writes outside the memory
  it allocated for them.
\<close>

theorem announced_records_exceeded:
  assumes "length hdr = 11" "hdr ! 8 = of_nat (length rs)" "length rs < 256" "list_all rec_ok rs"
    and "9 \<notin> set f" "10 \<notin> set f" "length (recs_text rs) + length f < len"
  shows "ParseRentBikeRecord True (Some (hdr @ recs_text rs @ f @ 9 # rest)) (int len) = None"
  using assms by (rule parse_one_too_many)

theorem announced_records_exceeded_witness:
  "ParseRentBikeRecord True (Some ([0, 0, 0, 0, 0, 0, 0, 0, 2, 0, 30] @ recs_text demo_recs @ [65] @ 9 # [])) (int (length (recs_text demo_recs) + 2)) = None"
  by (rule announced_records_exceeded) (simp_all add: demo_recs_ok, simp_all add: demo_recs_def)

end
