(* ===== verification/RentMain.thy ===== *)
theory RentMain
  imports RentProps
begin

text \<open>
  The rental record program from end to end: hexadecimal text, base64, records. The loops of \<open>str_to_hex\<close> undo hexadecimal
  printing; the base64 step rests on the decoder's lemma in theory \<open>Base64\<close>.
\<close>

section \<open>Hexadecimal text\<close>

definition hex_chr :: "byte \<Rightarrow> byte" where
  "hex_chr v = (if v < 10 then 48 + v else 0x37 + v)"

definition hi :: "byte \<Rightarrow> byte" where "hi b = drop_bit 4 b"
definition lo :: "byte \<Rightarrow> byte" where "lo b = b AND 0x0F"

definition hex_text :: "byte list \<Rightarrow> byte list" where
  "hex_text bs = concat (map (\<lambda>b. [hex_chr (hi b), hex_chr (lo b)]) bs)"

lemma hex_chr_value: "v < 16 \<Longrightarrow> hex_value (hex_chr v) = Some v \<and> hex_chr v \<noteq> 0"
proof -
  have "list_all (\<lambda>k. hex_value (hex_chr (of_nat k)) = Some (of_nat k) \<and> hex_chr (of_nat k) \<noteq> 0) [0..<16]" by code_simp
  then have "k < 16 \<Longrightarrow> hex_value (hex_chr (of_nat k)) = Some (of_nat k) \<and> hex_chr (of_nat k) \<noteq> 0" for k
    by (simp add: list_all_iff)
  from this [of "unat v"] show "v < 16 \<Longrightarrow> ?thesis" by (simp add: word_less_nat_alt)
qed

lemma nibbles: "hi b < 16" "lo b < 16" "push_bit 4 (hi b) OR lo b = b"
proof -
  have "x AND 0x0F = x \<Longrightarrow> x < 16" for x :: byte using word_and_le1 [of x "0x0F"] by (simp add: word_le_nat_alt word_less_nat_alt)
  moreover have "hi b AND 0x0F = hi b" "lo b AND 0x0F = lo b" unfolding byte_bits hi_def lo_def by (auto simp: bit_simps dest: octet_bit)
  ultimately show "hi b < 16" "lo b < 16" by blast+
  show "push_bit 4 (hi b) OR lo b = b" unfolding byte_bits hi_def lo_def by (simp add: bit_simps)
qed

lemma hex_digits_run:
  assumes "drop i buf = cs @ rest" "list_all (\<lambda>c. hex_value c \<noteq> None) cs"
  shows "hex_digits buf (i + length cs) i = Some (True, buf_put buf i (map (\<lambda>c. the (hex_value c)) cs))"
  using assms
proof (induction cs arbitrary: i buf)
  case Nil
  then show ?case by (simp add: hex_digits.simps)
next
  case (Cons c cs)
  then obtain v where v: "hex_value c = Some v" by auto
  have rd: "buf_rd buf i = Some c" using Cons.prems(1) by (simp add: buf_rd_drop)
  then have i: "i < length buf" by (simp add: buf_rd_Some_iff)
  have dr: "drop (i + 1) (buf[i := v]) = cs @ rest"
    using drop_further [of i buf "[c]" "cs @ rest"] Cons.prems(1) by simp
  have len: "length cs \<le> length buf - (i + 1)" using arg_cong [OF dr, of length] by simp
  show ?case using Cons.IH [OF dr] Cons.prems(2) v rd i len buf_put_step [of i "map (\<lambda>c. the (hex_value c)) cs" buf v]
    by (subst hex_digits.simps) (simp add: buf_wr_in)
qed

lemma hex_pairs_run:
  assumes "drop j buf = concat (map (\<lambda>b. [hi b, lo b]) bs) @ rest" "t + length bs \<le> length hex"
  shows "hex_pairs buf (j + 2 * length bs) j t hex = Some (t + length bs, buf_put hex t bs)"
  using assms
proof (induction bs arbitrary: j t hex)
  case Nil
  then show ?case by (simp add: hex_pairs.simps)
next
  case (Cons b bs)
  have d: "drop j buf = [hi b, lo b] @ concat (map (\<lambda>b. [hi b, lo b]) bs) @ rest" using Cons.prems(1) by simp
  have rd: "buf_rd buf j = Some (hi b)" using d by (simp add: buf_rd_drop)
  have "drop (j + 1) buf = lo b # concat (map (\<lambda>b. [hi b, lo b]) bs) @ rest"
    using drop_further [of j buf "[hi b]"] d by simp
  then have rd2: "buf_rd buf (j + 1) = Some (lo b)" by (rule buf_rd_drop)
  have d2: "drop (j + 2) buf = concat (map (\<lambda>b. [hi b, lo b]) bs) @ rest" using drop_further [OF d] by simp
  have "hex_pairs buf (j + 2 + 2 * length bs) (j + 2) (t + 1) (hex[t := b]) = Some (t + 1 + length bs, buf_put (hex[t := b]) (t + 1) bs)"
    using Cons.IH [OF d2, of "t + 1" "hex[t := b]"] Cons.prems(2) by simp
  then show ?case using rd rd2 Cons.prems(2) buf_put_step [of t bs hex b]
    by (subst hex_pairs.simps) (simp add: buf_wr_in nibbles)
qed

lemma hex_text_chars: "c \<in> set (hex_text bs) \<Longrightarrow> hex_value c \<noteq> None \<and> c \<noteq> 0"
  using hex_chr_value nibbles(1,2) by (fastforce simp: hex_text_def)

lemma hex_text_values: "map (\<lambda>c. the (hex_value c)) (hex_text bs) = concat (map (\<lambda>b. [hi b, lo b]) bs)"
  by (induction bs) (simp_all add: hex_text_def hex_chr_value nibbles)

lemma length_hex_text [simp]: "length (hex_text bs) = 2 * length bs"
  by (induction bs) (simp_all add: hex_text_def)

lemma str_to_hex_run:
  assumes "length bs \<le> length hex"
  shows "str_to_hex (hex_text bs @ rest) hex (int (length (hex_text bs))) =
    Some (length bs, concat (map (\<lambda>b. [hi b, lo b]) bs) @ rest, buf_put hex 0 bs)"
proof -
  let ?v = "concat (map (\<lambda>b. [hi b, lo b]) bs)"
  have "list_all (\<lambda>c. hex_value c \<noteq> None) (hex_text bs)" using hex_text_chars by (auto simp: list_all_iff)
  from hex_digits_run [of 0 "hex_text bs @ rest" "hex_text bs" rest, OF _ this]
  have a: "hex_digits (hex_text bs @ rest) (2 * length bs) 0 = Some (True, ?v @ rest)"
    by (simp add: hex_text_values buf_put_def) (simp add: length_concat comp_def sum_list_triv)
  have "hex_pairs (?v @ rest) (2 * length bs) 0 0 hex = Some (length bs, buf_put hex 0 bs)"
    using hex_pairs_run [of 0 "?v @ rest" bs rest 0 hex] assms by simp
  then show ?thesis using a by (simp add: str_to_hex_def nat_mult_distrib)
qed

section \<open>The program\<close>

text \<open>
  C38. The whole program: given the hexadecimal print of the base64 coding of a message whose header holds the number of records and the length of
  their text, it prints the records, for every message whose coding is shorter than the 2048 octets of the buffer.
\<close>

theorem rent_main_end_to_end:
  assumes "length hdr = 11" "hdr ! 8 = of_nat (length rs)" "length rs < 256" "rs \<noteq> []" "list_all rec_ok rs"
    and "256 * uint (hdr ! 9) + uint (hdr ! 10) = int (length (recs_text rs))"
    and "length (b64 (hdr @ recs_text rs)) < 2048"
  shows "rent_main True (hex_text (b64 (hdr @ recs_text rs)) @ [0]) = Some (map (\<lambda>i. shown_rec i (rs ! i)) [0..<length rs])"
proof -
  let ?m = "hdr @ recs_text rs"
  let ?s = "hex_text (b64 ?m) @ [0]" and ?hex = "b64 ?m @ replicate (2048 - length (b64 ?m)) 0"
  have "strlen ?s = length (hex_text (b64 ?m))"
    using hex_text_chars by (simp add: strlen_def takeWhile_append2)
  then have "str_to_hex ?s (replicate 2048 0) (int (strlen ?s)) =
      Some (length (b64 ?m), concat (map (\<lambda>b. [hi b, lo b]) (b64 ?m)) @ [0], ?hex)"
    using str_to_hex_run [of "b64 ?m" "replicate 2048 0" "[0]"] assms(7) by (simp add: buf_put_def)
  moreover have "lib_base64_decode ?hex (replicate 2048 0) = Some (length ?m, ?m @ replicate (2048 - length ?m) 0)"
  proof -
    have "2048 - length (b64 ?m) = Suc (2047 - length (b64 ?m))" using assms(7) by linarith
    then have "drop 0 ?hex = b64 ?m @ 0 # replicate (2047 - length (b64 ?m)) 0" by simp
    moreover have "length ?m \<le> 2048" using assms(7) length_b64 [of ?m] by linarith
    ultimately show ?thesis using decode_loop [of 0 ?hex ?m _ 0 "replicate 2048 0"]
      by (simp add: lib_base64_decode_def buf_put_def)
  qed
  moreover have "?m @ replicate (2048 - length ?m) 0 = hdr @ recs_text rs @ replicate (2048 - length ?m) 0" by simp
  ultimately show ?thesis
    using parse_message [OF assms(1-5)] assms(1,6) by (simp add: rent_main_def nth_append)
qed

theorem rent_main_end_to_end_witness:
  "rent_main True (hex_text (b64 ([0, 0, 0, 0, 0, 0, 0, 0, 2, 0, 29] @ recs_text demo_recs)) @ [0]) =
    Some (map (\<lambda>i. shown_rec i (demo_recs ! i)) [0..<length demo_recs])"
  by (rule rent_main_end_to_end)
    (simp_all add: demo_recs_ok length_b64, simp_all add: demo_recs_def recs_text_def rec_text_def fields_text_def)

end
