(* ===== verification/Escape.thy ===== *)
theory Escape
  imports Prelude
begin

text \<open>
  Byte stuffing of the node protocol (\<open>node_server/escape.c\<close>). A frame is a head octet
  \<open>F1\<close>, a payload and a tail octet \<open>F2\<close>. \<open>__uplink_escape\<close> replaces every payload octet
  \<open>F0\<close>, \<open>F1\<close>, \<open>F2\<close> by a two-octet sequence starting with \<open>F0\<close>; \<open>__downlink_escape\<close> undoes it.
  Both functions work on index pairs \<open>(idxI, idxJ)\<close> over caller-supplied buffers, and so do the
  definitions here. The lengths are C \<open>int\<close>s; the loop bound \<open>slen - 2\<close> is computed on \<open>int\<close>.
\<close>

section \<open>The code\<close>

definition NDEV_HD :: byte where "NDEV_HD = 0xF1"
definition NDEV_TAIL :: byte where "NDEV_TAIL = 0xF2"
definition NDEV_ESC_F0H :: byte where "NDEV_ESC_F0H = 0xF0"
definition NDEV_ESC_00H :: byte where "NDEV_ESC_00H = 0x00"
definition NDEV_ESC_01H :: byte where "NDEV_ESC_01H = 0x01"
definition NDEV_ESC_02H :: byte where "NDEV_ESC_02H = 0x02"

lemmas ndev_defs = NDEV_HD_def NDEV_TAIL_def NDEV_ESC_F0H_def
  NDEV_ESC_00H_def NDEV_ESC_01H_def NDEV_ESC_02H_def

text \<open>The if/else chain on the octet after an escape; an unknown code stores nothing.\<close>

definition downlink_store :: "byte list \<Rightarrow> nat \<Rightarrow> byte \<Rightarrow> byte list option" where
  "downlink_store dest j d =
     (if d = 0x01 then buf_wr dest j NDEV_HD
      else if d = 0x02 then buf_wr dest j NDEV_ESC_F0H
      else if d = 0x00 then buf_wr dest j NDEV_TAIL
      else Some dest)"

function downlink_loop ::
  "byte list \<Rightarrow> byte list \<Rightarrow> int \<Rightarrow> nat \<Rightarrow> nat \<Rightarrow> (byte list \<times> nat) option" where
  "downlink_loop dest src slen idxI idxJ =
     (if int idxI \<le> slen - 2 then
        (case buf_rd src idxI of None \<Rightarrow> None
         | Some c \<Rightarrow>
             if c = NDEV_ESC_F0H then
               (case buf_rd src (idxI + 1) of None \<Rightarrow> None
                | Some d \<Rightarrow>
                   (case downlink_store dest idxJ d of None \<Rightarrow> None
                    | Some dest' \<Rightarrow> downlink_loop dest' src slen (idxI + 2) (idxJ + 1)))
             else
               (case buf_wr dest idxJ c of None \<Rightarrow> None
                | Some dest' \<Rightarrow> downlink_loop dest' src slen (idxI + 1) (idxJ + 1)))
      else Some (dest, idxJ))"
  by pat_completeness auto
termination
  by (relation "measure (\<lambda>(dest, src, slen, idxI, idxJ). nat (slen - int idxI))") auto

definition downlink_escape :: "byte list \<Rightarrow> byte list \<Rightarrow> int \<Rightarrow> (byte list \<times> nat) option" where
  "downlink_escape dest src slen = do {
     (dest1, idxJ) \<leftarrow> downlink_loop dest src slen 1 1;
     dest2 \<leftarrow> buf_wr dest1 0 NDEV_HD;
     dest3 \<leftarrow> buf_wr dest2 idxJ NDEV_TAIL;
     Some (dest3, idxJ + 1) }"

text \<open>One turn of the uplink \<open>switch\<close>: the stores and the new \<open>idxJ\<close>.\<close>

definition uplink_store :: "byte list \<Rightarrow> nat \<Rightarrow> byte \<Rightarrow> (byte list \<times> nat) option" where
  "uplink_store dest j c =
     (if c = NDEV_HD then do {
        dest1 \<leftarrow> buf_wr dest j NDEV_ESC_F0H;
        dest2 \<leftarrow> buf_wr dest1 (j + 1) NDEV_ESC_01H;
        Some (dest2, j + 2) }
      else if c = NDEV_TAIL then do {
        dest1 \<leftarrow> buf_wr dest j NDEV_ESC_F0H;
        dest2 \<leftarrow> buf_wr dest1 (j + 1) NDEV_ESC_00H;
        Some (dest2, j + 2) }
      else if c = NDEV_ESC_F0H then do {
        dest1 \<leftarrow> buf_wr dest j NDEV_ESC_F0H;
        dest2 \<leftarrow> buf_wr dest1 (j + 1) NDEV_ESC_02H;
        Some (dest2, j + 2) }
      else do {
        dest1 \<leftarrow> buf_wr dest j c;
        Some (dest1, j + 1) })"

function uplink_loop ::
  "byte list \<Rightarrow> byte list \<Rightarrow> int \<Rightarrow> nat \<Rightarrow> nat \<Rightarrow> (byte list \<times> nat) option" where
  "uplink_loop dest src slen idxI idxJ =
     (if int idxI \<le> slen - 2 then
        (case buf_rd src idxI of None \<Rightarrow> None
         | Some c \<Rightarrow>
            (case uplink_store dest idxJ c of None \<Rightarrow> None
             | Some (dest', idxJ') \<Rightarrow> uplink_loop dest' src slen (idxI + 1) idxJ'))
      else Some (dest, idxJ))"
  by pat_completeness auto
termination
  by (relation "measure (\<lambda>(dest, src, slen, idxI, idxJ). nat (slen - int idxI))") auto

definition uplink_escape :: "byte list \<Rightarrow> byte list \<Rightarrow> int \<Rightarrow> (byte list \<times> nat) option" where
  "uplink_escape dest src slen = do {
     (dest1, idxJ) \<leftarrow> uplink_loop dest src slen 1 1;
     dest2 \<leftarrow> buf_wr dest1 0 NDEV_HD;
     dest3 \<leftarrow> buf_wr dest2 idxJ NDEV_TAIL;
     Some (dest3, idxJ + 1) }"

declare downlink_loop.simps [simp del] uplink_loop.simps [simp del]


section \<open>What the code computes\<close>

text \<open>The stuffing of one octet and of a payload, as the protocol describes it.\<close>

definition esc :: "byte \<Rightarrow> byte list" where
  "esc c = (if c = 0xF1 then [0xF0, 0x01] else if c = 0xF2 then [0xF0, 0x00]
            else if c = 0xF0 then [0xF0, 0x02] else [c])"

definition stuff :: "byte list \<Rightarrow> byte list" where
  "stuff p = concat (map esc p)"

definition frame :: "byte list \<Rightarrow> byte list" where
  "frame p = 0xF1 # p @ [0xF2]"

lemma stuff_simps [simp]: "stuff [] = []" "stuff (c # p) = esc c @ stuff p"
  by (simp_all add: stuff_def)

lemma length_frame [simp]: "length (frame p) = length p + 2"
  by (simp add: frame_def)

lemma length_esc: "1 \<le> length (esc c)" "length (esc c) \<le> 2"
  by (simp_all add: esc_def)

lemma length_stuff: "length p \<le> length (stuff p)" "length (stuff p) \<le> 2 * length p"
proof -
  show "length p \<le> length (stuff p)"
  proof (induction p)
    case (Cons c p)
    then show ?case using length_esc(1) [of c] by simp
  qed simp
  show "length (stuff p) \<le> 2 * length p"
  proof (induction p)
    case (Cons c p)
    then show ?case using length_esc(2) [of c] by simp
  qed simp
qed

lemma stuff_no_marks: "0xF1 \<notin> set (stuff p)" "0xF2 \<notin> set (stuff p)"
  by (auto simp: stuff_def esc_def split: if_splits)

lemma uplink_store_eq:
  "j + length (esc c) \<le> length dest \<Longrightarrow>
   uplink_store dest j c = Some (buf_put dest j (esc c), j + length (esc c))"
  by (auto simp: uplink_store_def esc_def ndev_defs buf_simps list_update_buf_put
      buf_put_append [of j "[0xF0]" _ dest, simplified])

lemma uplink_loop_eq:
  assumes "slen = int (length src)" "1 \<le> i"
    and "j + length (stuff (seg i (length src - 1) src)) \<le> length dest"
  shows "uplink_loop dest src slen i j =
    Some (buf_put dest j (stuff (seg i (length src - 1) src)),
          j + length (stuff (seg i (length src - 1) src)))"
  using assms
proof (induction dest src slen i j rule: uplink_loop.induct)
  case (1 dest src slen i j)
  show ?case
  proof (cases "int i \<le> slen - 2")
    case False
    then have "seg i (length src - 1) src = []" using "1.prems" by simp
    with False show ?thesis by (simp add: uplink_loop.simps [of dest src slen i j])
  next
    case True
    then have i: "i < length src - 1" using "1.prems" by linarith
    let ?c = "src ! i" and ?r = "stuff (seg (Suc i) (length src - 1) src)"
    have sl: "seg i (length src - 1) src = ?c # seg (Suc i) (length src - 1) src"
      using i by (simp add: seg_step)
    have fit: "j + length (esc ?c) + length ?r \<le> length dest"
      using "1.prems" sl by (simp add: add.assoc)
    have rd: "buf_rd src i = Some ?c" using i by (simp add: buf_simps)
    have st: "uplink_store dest j ?c = Some (buf_put dest j (esc ?c), j + length (esc ?c))"
      using fit by (intro uplink_store_eq) simp
    have "uplink_loop (buf_put dest j (esc ?c)) src slen (i + 1) (j + length (esc ?c)) =
        Some (buf_put (buf_put dest j (esc ?c)) (j + length (esc ?c)) ?r,
              j + length (esc ?c) + length ?r)"
      using "1.IH" [OF True rd st refl] "1.prems" fit by simp
    then show ?thesis
      using True rd st sl fit
      by (simp add: uplink_loop.simps [of dest src slen i j] buf_put_append add.assoc)
  qed
qed

lemma esc_cases:
  obtains "c = 0xF1" "esc c = [0xF0, 0x01]" | "c = 0xF2" "esc c = [0xF0, 0x00]"
    | "c = 0xF0" "esc c = [0xF0, 0x02]" | "c \<noteq> 0xF0" "esc c = [c]"
  by (cases "c = 0xF1"; cases "c = 0xF2"; cases "c = 0xF0") (auto simp: esc_def)

lemma frame_put:
  assumes "length xs + 2 \<le> length dest"
  shows "(buf_put dest 1 xs)[0 := NDEV_HD, Suc (length xs) := NDEV_TAIL] = buf_put dest 0 (frame xs)"
proof (rule nth_equalityI)
  show "length ((buf_put dest 1 xs)[0 := NDEV_HD, Suc (length xs) := NDEV_TAIL]) =
        length (buf_put dest 0 (frame xs))"
    using assms by simp
next
  fix i assume "i < length ((buf_put dest 1 xs)[0 := NDEV_HD, Suc (length xs) := NDEV_TAIL])"
  then have "i < length dest" using assms by simp
  then show "(buf_put dest 1 xs)[0 := NDEV_HD, Suc (length xs) := NDEV_TAIL] ! i =
        buf_put dest 0 (frame xs) ! i"
    using assms
    by (auto simp: nth_list_update nth_buf_put frame_def nth_Cons nth_append ndev_defs split: nat.splits)
qed

text \<open>The common epilogue of both functions: head at 0, tail at \<open>idxJ\<close>.\<close>

lemma frame_epilogue:
  assumes "length xs + 2 \<le> length dest"
  shows "do { dest2 \<leftarrow> buf_wr (buf_put dest 1 xs) 0 NDEV_HD;
              dest3 \<leftarrow> buf_wr dest2 (1 + length xs) NDEV_TAIL;
              Some (dest3, 1 + length xs + 1) } =
         Some (buf_put dest 0 (frame xs), length xs + 2)"
proof -
  have "0 < length (buf_put dest 1 xs)" using assms by (subst length_buf_put) auto
  then have "buf_wr (buf_put dest 1 xs) 0 NDEV_HD = Some ((buf_put dest 1 xs)[0 := NDEV_HD])"
    by (rule buf_wr_in)
  moreover have "buf_wr ((buf_put dest 1 xs)[0 := NDEV_HD]) (1 + length xs) NDEV_TAIL =
      Some ((buf_put dest 1 xs)[0 := NDEV_HD, 1 + length xs := NDEV_TAIL])"
    using assms by (intro buf_wr_in) simp
  ultimately show ?thesis using frame_put [OF assms] by simp
qed

lemma uplink_escape_eq:
  assumes "2 \<le> length src" "length (stuff (seg 1 (length src - 1) src)) + 2 \<le> length dest"
  shows "uplink_escape dest src (int (length src)) =
    Some (buf_put dest 0 (frame (stuff (seg 1 (length src - 1) src))),
          length (stuff (seg 1 (length src - 1) src)) + 2)"
proof -
  let ?S = "stuff (seg 1 (length src - 1) src)"
  have "uplink_loop dest src (int (length src)) 1 1 = Some (buf_put dest 1 ?S, 1 + length ?S)"
    using assms by (intro uplink_loop_eq) auto
  then show ?thesis
    using frame_epilogue [OF assms(2)] by (simp add: uplink_escape_def del: One_nat_def)
qed

text \<open>Where the rest of the input is a stuffed payload, the downlink loop stores the payload.\<close>

lemma downlink_loop_stuffed:
  assumes "drop i src = stuff p @ [t]" "j + length p \<le> length dest"
  shows "downlink_loop dest src (int (length src)) i j = Some (buf_put dest j p, j + length p)"
  using assms
proof (induction p arbitrary: dest i j)
  case Nil
  have "length (drop i src) = 1" using Nil.prems by simp
  then have "\<not> int i \<le> int (length src) - 2" by auto
  then show ?case by (simp add: downlink_loop.simps [of dest src "int (length src)" i j])
next
  case (Cons c p)
  have "length (drop i src) = length (esc c) + length (stuff p) + 1" using Cons.prems by simp
  then have i: "int i \<le> int (length src) - 2" "i < length src" using length_esc(1) [of c] by auto
  have step: "downlink_loop (dest[j := c]) src (int (length src)) (i + length (esc c)) (j + 1) =
      Some (buf_put dest j (c # p), j + 1 + length p)"
  proof -
    have "drop (length (esc c)) (drop i src) = stuff p @ [t]" using Cons.prems by simp
    then have "drop (i + length (esc c)) src = stuff p @ [t]" by (simp add: add.commute)
    then show ?thesis using Cons.IH [of "i + length (esc c)" "j + 1" "dest[j := c]"] Cons.prems
      by (simp add: buf_put_step)
  qed
  have hd: "src ! i = hd (esc c)"
    using Cons.prems(1) i(2) hd_drop_conv_nth [of i src] length_esc(1) [of c] by (cases "esc c") auto
  have second: "length (esc c) = 2 \<Longrightarrow> i + 1 < length src \<and> src ! (i + 1) = esc c ! 1"
    using Cons.prems(1) i nth_drop [of i src 1] by (auto simp: nth_append)
  show ?case
    using i hd second step Cons.prems(2)
    by (cases rule: esc_cases [of c])
       (simp_all add: downlink_loop.simps [of dest src "int (length src)" i j]
          buf_simps downlink_store_def ndev_defs)
qed

lemma downlink_escape_stuffed:
  assumes "length p + 2 \<le> length dest"
  shows "downlink_escape dest (frame (stuff p)) (int (length (frame (stuff p)))) =
    Some (buf_put dest 0 (frame p), length p + 2)"
proof -
  have "downlink_loop dest (frame (stuff p)) (int (length (frame (stuff p)))) 1 1 =
      Some (buf_put dest 1 p, 1 + length p)"
    using assms by (intro downlink_loop_stuffed [where t = "0xF2"]) (auto simp: frame_def)
  then show ?thesis
    using frame_epilogue [OF assms] by (simp add: downlink_escape_def del: One_nat_def)
qed


section \<open>Properties\<close>

text \<open>
  C24. Stuffing a frame on the way up and unstuffing the result on the way down gives the frame
  back, for every payload. Both calls stay inside their buffers as soon as the first has room
  for twice the payload and the second for the payload, plus head and tail.
\<close>

theorem escape_roundtrip:
  assumes "2 * length p + 2 \<le> length up" "length p + 2 \<le> length down"
  shows "\<exists>up' n. uplink_escape up (frame p) (int (length p + 2)) = Some (up', n) \<and>
           downlink_escape down (take n up') (int n) = Some (buf_put down 0 (frame p), length p + 2)"
proof -
  have pay: "seg 1 (length (frame p) - 1) (frame p) = p"
    by (simp add: seg_def frame_def)
  have fit: "length (stuff p) + 2 \<le> length up" using assms(1) length_stuff(2) [of p] by simp
  have "uplink_escape up (frame p) (int (length p + 2)) =
      Some (buf_put up 0 (frame (stuff p)), length (stuff p) + 2)"
    using uplink_escape_eq [of "frame p" up] pay fit by simp
  moreover have "take (length (stuff p) + 2) (buf_put up 0 (frame (stuff p))) = frame (stuff p)"
    using fit take_buf_put [of 0 "frame (stuff p)" up] by simp
  ultimately show ?thesis using downlink_escape_stuffed [OF assms(2)] by simp
qed

theorem escape_roundtrip_witness:
  "\<exists>up' n. uplink_escape (replicate 8 0) (frame [0xF1, 0x55, 0xF0]) 5 = Some (up', n) \<and>
     downlink_escape (replicate 6 0xEE) (take n up') (int n) =
       Some ([0xF1, 0xF1, 0x55, 0xF0, 0xF2, 0xEE], 5)"
  using escape_roundtrip [of "[0xF1, 0x55, 0xF0]" "replicate 8 0" "replicate 6 0xEE"]
  by (simp add: buf_put_def frame_def eval_nat_numeral)

text \<open>
  What the uplink sends between head and tail contains neither delimiter, it is at most twice
  as long as the payload, and the destination is not touched behind the returned length.
\<close>

theorem uplink_delimiter_free:
  assumes "2 \<le> length src" "2 * length src \<le> length dest"
    and "uplink_escape dest src (int (length src)) = Some (dest', n)"
  shows "dest' ! 0 = 0xF1 \<and> dest' ! (n - 1) = 0xF2 \<and> n \<le> 2 * length src - 2 \<and>
         set (seg 1 (n - 1) dest') \<inter> {0xF1, 0xF2} = {} \<and> drop n dest' = drop n dest"
proof -
  let ?S = "stuff (seg 1 (length src - 1) src)"
  have len: "length ?S \<le> 2 * (length src - 2)"
    using length_stuff(2) [of "seg 1 (length src - 1) src"] by simp
  then have fit: "length ?S + 2 \<le> length dest" using assms(1,2) by linarith
  with assms have d: "dest' = buf_put dest 0 (frame ?S)" and n: "n = length ?S + 2"
    using uplink_escape_eq [of src dest] by simp_all
  have "take n dest' = frame ?S" using fit take_buf_put [of 0 "frame ?S" dest] d n by simp
  moreover have "drop n dest' = drop n dest"
    using fit drop_buf_put [of 0 "frame ?S" dest] d n by simp
  moreover have "dest' = take n dest' @ drop n dest'" by simp
  ultimately have split: "dest' = frame ?S @ drop n dest" by simp
  then have "seg 1 (n - 1) dest' = ?S" and "dest' ! 0 = 0xF1" and "dest' ! (n - 1) = 0xF2"
    using n by (simp_all add: seg_def frame_def nth_append)
  then show ?thesis
    using len assms(1) n \<open>drop n dest' = drop n dest\<close> stuff_no_marks [of "seg 1 (length src - 1) src"]
    by auto
qed

theorem uplink_delimiter_free_witness:
  "\<exists>dest' n. uplink_escape (replicate 6 0) [0xF1, 0xF2, 0xF2] 3 = Some (dest', n) \<and>
     set (seg 1 (n - 1) dest') \<inter> {0xF1, 0xF2} = {}"
proof -
  obtain dest' n where "uplink_escape (replicate 6 0) [0xF1, 0xF2, 0xF2] (int (length [0xF1, 0xF2, 0xF2 :: byte])) = Some (dest', n)"
    using uplink_escape_eq [of "[0xF1, 0xF2, 0xF2]" "replicate 6 0"]
    by (simp add: seg_def esc_def)
  with uplink_delimiter_free [of "[0xF1, 0xF2, 0xF2]" "replicate 6 0" dest' n] show ?thesis by auto
qed

text \<open>
  An escape octet followed by a code other than 0, 1, 2 is not rejected: the output index
  advances without a store, so the decoded frame carries whatever the destination buffer held
  at that place before the call.
\<close>

theorem downlink_unknown_code_stale:
  assumes "d \<noteq> 0x00" "d \<noteq> 0x01" "d \<noteq> 0x02"
  shows "downlink_escape [a, b, c] [0xF1, 0xF0, d, 0xF2] 4 = Some ([0xF1, b, 0xF2], 3)"
  using assms
  by (simp add: downlink_escape_def downlink_loop.simps [of _ _ _ "Suc 0"]
      downlink_loop.simps [of _ _ _ "Suc (Suc (Suc 0))"] downlink_store_def buf_simps ndev_defs)

theorem downlink_unknown_code_stale_witness:
  "downlink_escape [0x11, 0x22, 0x33] [0xF1, 0xF0, 0x07, 0xF2] 4 = Some ([0xF1, 0x22, 0xF2], 3)"
  using downlink_unknown_code_stale [of "0x07" "0x11" "0x22" "0x33"] by simp

end
