(* ===== verification/NodePacket.thy ===== *)
theory NodePacket
  imports Escape
begin

text \<open>
  Packets of the node server (\<open>src/node_server/common.c\<close>, \<open>main.c\<close>): the request for a communication server, the registration packet, and
  the program that sends the request, reads the answer and keeps its key. The general library's base64, checksum and socket functions are
  arguments: \<open>enc\<close> and \<open>dec\<close> give the octets \<open>lib_b64_encode_hex\<close> and \<open>lib_b64_decode_hex\<close> store, \<open>crc\<close> the value of \<open>lib_crc16_with_byte\<close>.
\<close>

definition FRAME_HEAD :: byte where "FRAME_HEAD = 0xf1"
definition FRAME_TAIL :: byte where "FRAME_TAIL = 0xf2"
definition DATA_LEN :: nat where "DATA_LEN = 12"
definition LOAD_BALANCE_REQ :: byte where "LOAD_BALANCE_REQ = 0xA4"

text \<open>Storing at \<open>data[len]\<close> and advancing \<open>len\<close>.\<close>

definition push :: "byte list \<Rightarrow> byte list \<times> nat \<Rightarrow> (byte list \<times> nat) option" where
  "push xs s = (case s of (data, len) \<Rightarrow>
     if len + length xs \<le> length data then Some (buf_put data len xs, len + length xs) else None)"

text \<open>
  The statements the two packet builders share: head to guide word, body, checksum, tail and escaping. \<open>extra\<close> is what follows the body (the \<open>&\<close> of
  the registration packet), and \<open>data_len\<close> the length field.
\<close>

definition packet :: "(byte list \<Rightarrow> u32) \<Rightarrow> nat \<Rightarrow> byte list \<Rightarrow> byte \<Rightarrow> byte \<Rightarrow> byte \<Rightarrow> u16 \<Rightarrow> byte list \<Rightarrow> byte list \<Rightarrow> byte list \<Rightarrow> (byte list \<times> nat) option" where
  "packet crc cap tbuf can_addr ctrl_bit cmd data_len guide body extra = do {
     s \<leftarrow> push [FRAME_HEAD] (replicate cap 0, 0);
     s \<leftarrow> push [0x02] s;
     s \<leftarrow> push (net16 0xAAAD) s;
     s \<leftarrow> push [can_addr] s;
     s \<leftarrow> push [ctrl_bit] s;
     s \<leftarrow> push [cmd] s;
     s \<leftarrow> push (net16 data_len) s;
     s \<leftarrow> push guide s;
     s \<leftarrow> push body s;
     (data, len) \<leftarrow> push extra s;
     let crc16 = ucast (crc (take (len - 1) (drop 1 data)));
     s \<leftarrow> push (net16 crc16) (data, len);
     (data, len) \<leftarrow> push [FRAME_TAIL] s;
     uplink_escape tbuf data (int len)
   }"

definition package_make :: "(byte list \<Rightarrow> byte list) \<Rightarrow> (byte list \<Rightarrow> u32) \<Rightarrow> byte list \<Rightarrow> byte \<Rightarrow> byte \<Rightarrow> byte \<Rightarrow> (byte list \<times> nat) option" where
  "package_make enc crc tbuf can_addr ctrl_bit cmd =
     (let buf = [0x54, 0x4A, 0x16, 0xC9, 0xF1, 0x3A, 0xAA, 0xAD, 0x00, 0x01, 0x00, 0x01];
          ret = length (enc buf)
      in do {
        txbuf \<leftarrow> memcpy (replicate 512 0) 0 (enc buf) 0 ret;
        packet crc 128 tbuf can_addr ctrl_bit cmd (of_nat (ret + 2)) [0x44, 0x50] (take ret txbuf) []
      })"

text \<open>\<open>mac\<close> is what \<open>lib_get_macaddr\<close> stores for \<open>eth1\<close>; the key is the global \<open>ack.encry_key\<close>.\<close>

definition make_package :: "(byte list \<Rightarrow> byte list) \<Rightarrow> (byte list \<Rightarrow> u32) \<Rightarrow> byte list \<Rightarrow> byte list \<Rightarrow> byte list \<Rightarrow> byte \<Rightarrow> byte \<Rightarrow> byte \<Rightarrow> (byte list \<times> nat) option" where
  "make_package enc crc mac encry_key tbuf can_addr ctrl_bit cmd =
     (let req = mac @ encry_key; ret = length (enc req)
      in do {
        txbuf \<leftarrow> memcpy (replicate 512 0) 0 (enc req) 0 ret;
        packet crc 512 tbuf can_addr ctrl_bit cmd (of_nat (ret + 2 + 1)) [0x41, 0x4e] (take ret txbuf) [0x26]
      })"

record data_frame =
  df_head :: byte
  df_serial_num :: byte
  df_term_code :: "byte list"
  df_dev_addr :: byte
  df_ctrl_bit :: byte
  df_cmd :: byte
  df_data_len :: "byte list"
  df_guid_word :: "byte list"
  df_data :: "byte list"
  df_crc16 :: "byte list"
  df_tail :: byte

definition data_frame_init :: "data_frame \<Rightarrow> int \<times> data_frame" where
  "data_frame_init d = (0, d\<lparr>df_head := 0xf1, df_serial_num := 0x01, df_term_code := net16 0xaaad, df_dev_addr := 0x00,
     df_ctrl_bit := 0x02, df_tail := 0xf2\<rparr>)"

section \<open>The program\<close>

record 'w node_net =
  u_new :: "'w \<Rightarrow> int \<times> 'w"
  u_send :: "int \<Rightarrow> byte list \<Rightarrow> 'w \<Rightarrow> int \<times> 'w"
  u_recv :: "int \<Rightarrow> nat \<Rightarrow> 'w \<Rightarrow> int \<times> byte list \<times> 'w"
  u_close :: "int \<Rightarrow> 'w \<Rightarrow> 'w"
  t_new :: "'w \<Rightarrow> int \<times> 'w"
  t_disconnect :: "int \<Rightarrow> 'w \<Rightarrow> 'w"

text \<open>Reading the answer: escapes removed, 36 characters from offset 11 decoded over the receive buffer, the key at offset 11 of the result.\<close>

definition ack_key :: "(byte list \<Rightarrow> byte list) \<Rightarrow> byte list \<Rightarrow> int \<Rightarrow> byte list option" where
  "ack_key dec rxbuf ret = do {
     (buf, ret) \<leftarrow> downlink_escape (replicate 512 0) rxbuf ret;
     let plain = dec (take 36 (drop 11 buf));
     rxbuf \<leftarrow> memcpy rxbuf 0 plain 0 (length plain);
     Some (take 16 (drop 11 rxbuf))
   }"

definition udp_exchange :: "'w node_net \<Rightarrow> (byte list \<Rightarrow> byte list) \<Rightarrow> (byte list \<Rightarrow> byte list) \<Rightarrow> (byte list \<Rightarrow> u32) \<Rightarrow> int \<Rightarrow> byte list \<Rightarrow> 'w \<Rightarrow> (byte list \<times> 'w) option" where
  "udp_exchange os enc dec crc sfd encry_key w = do {
     (txbuf, ret) \<leftarrow> package_make enc crc (replicate 512 0) 0x00 0x02 LOAD_BALANCE_REQ;
     case u_send os sfd (take ret txbuf) w of (ret, w) \<Rightarrow>
       if ret \<le> 0 then Some (encry_key, w)
       else (case u_recv os sfd 128 w of (ret, bs, w) \<Rightarrow>
         if ret \<le> 0 then Some (encry_key, w)
         else do {
           key \<leftarrow> ack_key dec (bs @ replicate (512 - length bs) 0) ret;
           Some (key, w)
         })
   }"

definition node_main :: "'w node_net \<Rightarrow> (byte list \<Rightarrow> byte list) \<Rightarrow> (byte list \<Rightarrow> byte list) \<Rightarrow> (byte list \<Rightarrow> u32) \<Rightarrow> byte list \<Rightarrow> 'w \<Rightarrow> (byte list \<times> 'w) option" where
  "node_main os enc dec crc encry_key w =
     (case u_new os w of (sfd, w) \<Rightarrow>
      if sfd \<le> 0 then Some (encry_key, w)
      else do {
        (encry_key, w) \<leftarrow> udp_exchange os enc dec crc sfd encry_key w;
        let w = u_close os sfd w;
        case t_new os w of (sfd, w) \<Rightarrow>
          if sfd \<le> 0 then Some (encry_key, w) else Some (encry_key, t_disconnect os sfd w)
      })"

section \<open>What is sent\<close>

lemma uplink_loop_prefix:
  "int i \<le> slen \<Longrightarrow> slen = int (length src) \<Longrightarrow> uplink_loop dest (src @ zs) slen i j = uplink_loop dest src slen i j"
proof (induction dest src slen i j rule: uplink_loop.induct)
  case (1 dest src slen i j)
  show ?case
  proof (cases "int i \<le> slen - 2")
    case True
    then have rd: "buf_rd (src @ zs) i = Some (src ! i)" "buf_rd src i = Some (src ! i)"
      using "1.prems" by (simp_all add: buf_rd_def nth_append)
    show ?thesis
    proof (cases "uplink_store dest j (src ! i)")
      case (Some r)
      then show ?thesis using "1.IH" [OF True rd(2)] "1.prems" True rd
        by (cases r) (simp add: uplink_loop.simps [of _ _ _ i j])
    qed (simp add: uplink_loop.simps [of _ _ _ i j] True rd)
  qed (simp add: uplink_loop.simps [of _ _ _ i j])
qed

lemma uplink_escape_prefix:
  "2 \<le> length src \<Longrightarrow> uplink_escape dest (src @ zs) (int (length src)) = uplink_escape dest src (int (length src))"
  by (simp add: uplink_escape_def uplink_loop_prefix)

lemma length_net16 [simp]: "length (net16 x) = 2"
  by (simp add: net16_def)

text \<open>The payload: everything between head and tail.\<close>

definition payload :: "(byte list \<Rightarrow> u32) \<Rightarrow> byte \<Rightarrow> byte \<Rightarrow> byte \<Rightarrow> u16 \<Rightarrow> byte list \<Rightarrow> byte list" where
  "payload crc can_addr ctrl_bit cmd data_len body =
     (let p = [0x02] @ net16 0xAAAD @ [can_addr, ctrl_bit, cmd] @ net16 data_len @ body in p @ net16 (ucast (crc p)))"

lemma packet_eq:
  assumes "length guide + length body + length extra + 12 \<le> cap"
  shows "packet crc cap tbuf can_addr ctrl_bit cmd data_len guide body extra =
    uplink_escape tbuf (frame (payload crc can_addr ctrl_bit cmd data_len (guide @ body @ extra)))
      (int (length (frame (payload crc can_addr ctrl_bit cmd data_len (guide @ body @ extra)))))"
proof -
  let ?p = "payload crc can_addr ctrl_bit cmd data_len (guide @ body @ extra)"
  let ?z = "replicate (cap - (length guide + length body + length extra + 12)) (0::byte)"
  have "packet crc cap tbuf can_addr ctrl_bit cmd data_len guide body extra =
      uplink_escape tbuf (frame ?p @ ?z) (int (length (frame ?p)))"
  proof -
    obtain k where "cap = 12 + (length guide + length body + length extra + k)"
      using le_Suc_ex [OF assms] by (auto simp: ac_simps)
    then show ?thesis unfolding packet_def push_def buf_put_def Let_def
      by (simp add: payload_def frame_def FRAME_HEAD_def FRAME_TAIL_def Let_def)
  qed
  then show ?thesis using uplink_escape_prefix [of "frame ?p"] by simp
qed

lemma uplink_frame:
  assumes "2 * length p + 2 \<le> length up"
  shows "uplink_escape up (frame p) (int (length (frame p))) = Some (buf_put up 0 (frame (stuff p)), length (stuff p) + 2)"
proof -
  have "seg 1 (length (frame p) - 1) (frame p) = p" by (simp add: seg_def frame_def)
  moreover have "length (stuff p) + 2 \<le> length up" using assms length_stuff(2) [of p] by simp
  ultimately show ?thesis using uplink_escape_eq [of "frame p" up] by simp
qed

lemma take_uplink: "2 * length p + 2 \<le> length up \<Longrightarrow> take (length (stuff p) + 2) (buf_put up 0 (frame (stuff p))) = frame (stuff p)"
  using length_stuff(2) [of p] take_buf_put [of 0 "frame (stuff p)" up] by simp

definition req_octets :: "byte list" where
  "req_octets = [0x54, 0x4A, 0x16, 0xC9, 0xF1, 0x3A, 0xAA, 0xAD, 0x00, 0x01, 0x00, 0x01]"

definition request_payload :: "(byte list \<Rightarrow> byte list) \<Rightarrow> (byte list \<Rightarrow> u32) \<Rightarrow> byte \<Rightarrow> byte \<Rightarrow> byte \<Rightarrow> byte list" where
  "request_payload enc crc can_addr ctrl_bit cmd =
     payload crc can_addr ctrl_bit cmd (of_nat (length (enc req_octets) + 2)) ([0x44, 0x50] @ enc req_octets)"

definition register_payload :: "(byte list \<Rightarrow> byte list) \<Rightarrow> (byte list \<Rightarrow> u32) \<Rightarrow> byte list \<Rightarrow> byte \<Rightarrow> byte \<Rightarrow> byte \<Rightarrow> byte list" where
  "register_payload enc crc req can_addr ctrl_bit cmd =
     payload crc can_addr ctrl_bit cmd (of_nat (length (enc req) + 2 + 1)) ([0x41, 0x4e] @ enc req @ [0x26])"

lemma length_request_payload: "length (request_payload enc crc a b c) = length (enc req_octets) + 12"
  by (simp add: request_payload_def payload_def Let_def)

lemma length_register_payload: "length (register_payload enc crc req a b c) = length (enc req) + 13"
  by (simp add: register_payload_def payload_def Let_def)

lemma package_make_eq:
  assumes "length (enc req_octets) \<le> 114"
  shows "package_make enc crc tbuf a b c =
    uplink_escape tbuf (frame (request_payload enc crc a b c)) (int (length (frame (request_payload enc crc a b c))))"
  using assms packet_eq [of "[0x44, 0x50]" "enc req_octets" "[]" 128 crc tbuf a b c]
  by (simp add: package_make_def Let_def memcpy_def request_payload_def flip: req_octets_def)

lemma make_package_eq:
  assumes "length (enc (mac @ key)) \<le> 497"
  shows "make_package enc crc mac key tbuf a b c =
    uplink_escape tbuf (frame (register_payload enc crc (mac @ key) a b c)) (int (length (frame (register_payload enc crc (mac @ key) a b c))))"
  using assms packet_eq [of "[0x41, 0x4e]" "enc (mac @ key)" "[0x26]" 512 crc tbuf a b c]
  by (simp add: make_package_def Let_def memcpy_def register_payload_def)

lemma there_and_back:
  assumes "2 * length p + 2 \<le> length tbuf" "length p + 2 \<le> length down"
  shows "\<exists>t n. uplink_escape tbuf (frame p) (int (length (frame p))) = Some (t, n) \<and>
      downlink_escape down (take n t) (int n) = Some (buf_put down 0 (frame p), length p + 2)"
  using uplink_frame [OF assms(1)] take_uplink [OF assms(1)] downlink_escape_stuffed [OF assms(2)] by simp

text \<open>
  Both packet builders give the centre, after it has removed the escapes, exactly head, the fields in their order, the coded body with its length, the
  checksum over everything since the head, and tail, whenever the coded body fits the work buffer; the escaped packet stays inside the caller's buffer.
\<close>

theorem packets_read_back:
  assumes "length (enc req_octets) \<le> 114" "2 * length (enc req_octets) + 26 \<le> length tbuf" "length (enc req_octets) + 14 \<le> length down"
    and "length (enc (mac @ key)) \<le> 497" "2 * length (enc (mac @ key)) + 28 \<le> length tbuf" "length (enc (mac @ key)) + 15 \<le> length down"
  shows "(\<exists>t n. package_make enc crc tbuf a b c = Some (t, n) \<and>
      downlink_escape down (take n t) (int n) = Some (buf_put down 0 (frame (request_payload enc crc a b c)), length (enc req_octets) + 14)) \<and>
    (\<exists>t n. make_package enc crc mac key tbuf a b c = Some (t, n) \<and>
      downlink_escape down (take n t) (int n) = Some (buf_put down 0 (frame (register_payload enc crc (mac @ key) a b c)), length (enc (mac @ key)) + 15))"
proof (intro conjI)
  show "\<exists>t n. package_make enc crc tbuf a b c = Some (t, n) \<and>
      downlink_escape down (take n t) (int n) = Some (buf_put down 0 (frame (request_payload enc crc a b c)), length (enc req_octets) + 14)"
    using there_and_back [of "request_payload enc crc a b c" tbuf down] assms(1-3) by (simp add: package_make_eq length_request_payload add.commute)
  show "\<exists>t n. make_package enc crc mac key tbuf a b c = Some (t, n) \<and>
      downlink_escape down (take n t) (int n) = Some (buf_put down 0 (frame (register_payload enc crc (mac @ key) a b c)), length (enc (mac @ key)) + 15)"
    using there_and_back [of "register_payload enc crc (mac @ key) a b c" tbuf down] assms(4-6) by (simp add: make_package_eq length_register_payload add.commute)
qed

theorem packets_read_back_witness:
  "(\<exists>t n. package_make id (\<lambda>p. 0xF1F2) (replicate 100 0) 0 2 0xA4 = Some (t, n) \<and>
      downlink_escape (replicate 50 0) (take n t) (int n) =
        Some (buf_put (replicate 50 0) 0 (frame (request_payload id (\<lambda>p. 0xF1F2) 0 2 0xA4)), length (id req_octets) + 14)) \<and>
   (\<exists>t n. make_package id (\<lambda>p. 0xF1F2) [1, 2, 3, 4, 5, 6] [0xF0, 0xF1] (replicate 100 0) 0 2 0xA4 = Some (t, n) \<and>
      downlink_escape (replicate 50 0) (take n t) (int n) =
        Some (buf_put (replicate 50 0) 0 (frame (register_payload id (\<lambda>p. 0xF1F2) ([1, 2, 3, 4, 5, 6] @ [0xF0, 0xF1]) 0 2 0xA4)),
          length (id ([1, 2, 3, 4, 5, 6] @ [0xF0, 0xF1] :: byte list)) + 15))"
  by (rule packets_read_back) (simp_all add: req_octets_def)

section \<open>What is received\<close>

lemma downlink_loop_prefix:
  "slen = int (length src) \<Longrightarrow> downlink_loop dest (src @ zs) slen i j = downlink_loop dest src slen i j"
proof (induction dest src slen i j rule: downlink_loop.induct)
  case (1 dest src slen i j)
  show ?case
  proof (cases "int i \<le> slen - 2")
    case True
    then have rd: "buf_rd (src @ zs) i = Some (src ! i)" "buf_rd src i = Some (src ! i)"
        "buf_rd (src @ zs) (i + 1) = Some (src ! (i + 1))" "buf_rd src (i + 1) = Some (src ! (i + 1))"
      using "1.prems" by (auto simp: buf_rd_def nth_append)
    then show ?thesis using "1.IH" [OF True rd(2)] "1.prems" True
      by (simp add: downlink_loop.simps [of _ _ _ i j] split: option.split)
  qed (simp add: downlink_loop.simps [of _ _ _ i j])
qed

lemma ack_key_eq:
  assumes "length hdr = 10" "dec (enc ack) = ack" "length ack = 27" "length (enc ack) = 36"
    and "length (hdr @ enc ack @ trail) + 2 \<le> 512" "length (frame (stuff (hdr @ enc ack @ trail))) \<le> 512"
  shows "ack_key dec (frame (stuff (hdr @ enc ack @ trail)) @ replicate (512 - length (frame (stuff (hdr @ enc ack @ trail)))) 0)
      (int (length (frame (stuff (hdr @ enc ack @ trail))))) = Some (take 16 (drop 11 ack))"
proof -
  let ?p = "hdr @ enc ack @ trail" and ?r = "frame (stuff (hdr @ enc ack @ trail))"
  let ?rx = "?r @ replicate (512 - length ?r) 0"
  have "downlink_escape (replicate 512 0) ?rx (int (length ?r)) = Some (buf_put (replicate 512 0) 0 (frame ?p), length ?p + 2)"
    using downlink_escape_stuffed [of ?p "replicate 512 0"] assms(5) downlink_loop_prefix [of "int (length ?r)" ?r]
    by (simp add: downlink_escape_def)
  moreover have "take 36 (drop 11 (buf_put (replicate 512 0) 0 (frame ?p))) = enc ack"
    using assms(1,4) by (simp add: buf_put_def frame_def)
  moreover have "length ?rx = 512" using assms(6) by simp
  then have "memcpy ?rx 0 ack 0 27 = Some (ack @ drop 27 ?rx)" using assms(3) by (simp add: memcpy_def)
  ultimately show ?thesis using assms(2,3) by (simp add: ack_key_def)
qed

text \<open>
  The program keeps the key that the server sent: for every answer whose body is the coding of the 27 octets of \<open>struct load_balance_ack\<close>, whatever octets of
  it had to be escaped, the key is octets 11 to 26 of the answer. The request goes out escaped, and the socket is closed.
\<close>

theorem node_key_received:
  assumes "length (enc req_octets) = 16" "length hdr = 10" "dec (enc ack) = ack" "length ack = 27" "length (enc ack) = 36"
    and "bs = frame (stuff (hdr @ enc ack @ trail))" "length bs \<le> 128"
    and "u_new os w = (sfd, w1)" "0 < sfd" "u_send os sfd (frame (stuff (request_payload enc crc 0 2 LOAD_BALANCE_REQ))) w1 = (r, w2)" "0 < r"
    and "u_recv os sfd 128 w2 = (int (length bs), bs, w3)" "t_new os (u_close os sfd w3) = (tfd, w4)"
  shows "node_main os enc dec crc old_key w = Some (take 16 (drop 11 ack), if tfd \<le> 0 then w4 else t_disconnect os tfd w4)"
proof -
  let ?q = "request_payload enc crc 0 2 LOAD_BALANCE_REQ" and ?p = "hdr @ enc ack @ trail"
  have q: "2 * length ?q + 2 \<le> length (replicate 512 (0::byte))" using assms(1) by (simp add: length_request_payload)
  have sent: "package_make enc crc (replicate 512 0) 0 2 LOAD_BALANCE_REQ = Some (buf_put (replicate 512 0) 0 (frame (stuff ?q)), length (stuff ?q) + 2)"
    using package_make_eq [of enc crc "replicate 512 0"] uplink_frame [OF q] assms(1) by simp
  have "length ?p \<le> length (stuff ?p)" by (rule length_stuff)
  then have len: "length ?p + 2 \<le> 512" "length (frame (stuff ?p)) \<le> 512" "0 < length bs" using assms(6,7) by simp_all
  have "udp_exchange os enc dec crc sfd old_key w1 = Some (take 16 (drop 11 ack), w3)"
    unfolding udp_exchange_def sent using take_uplink [OF q] assms(10-12) ack_key_eq [where dec = dec and enc = enc and ack = ack and hdr = hdr and trail = trail, OF assms(2-5) len(1,2)] len(3) assms(6) by simp
  then show ?thesis using assms(8,9,13) by (simp add: node_main_def)
qed

definition demo_server :: "byte list \<Rightarrow> nat node_net" where
  "demo_server answer = \<lparr>u_new = (\<lambda>w. (3, w)), u_send = (\<lambda>fd p w. (int (length p), w)), u_recv = (\<lambda>fd n w. (int (length answer), answer, w)),
     u_close = (\<lambda>fd w. w), t_new = (\<lambda>w. (-1, w)), t_disconnect = (\<lambda>fd w. w)\<rparr>"

text \<open>A coding with the lengths of base64, for the example: the octets, padded.\<close>

definition pad_coding :: "byte list \<Rightarrow> byte list" where
  "pad_coding xs = xs @ replicate (4 * ((length xs + 2) div 3) - length xs) 0"

theorem node_key_received_witness:
  "node_main (demo_server (frame (stuff (replicate 10 7 @ pad_coding (replicate 27 0xF0) @ [])))) pad_coding (take 27) (\<lambda>p. 0) [] 0 =
     Some (take 16 (drop 11 (replicate 27 0xF0)), 0)"
proof -
  let ?bs = "frame (stuff (replicate 10 7 @ pad_coding (replicate 27 0xF0) @ []))"
  have "length ?bs \<le> 128" by code_simp
  moreover have "length (pad_coding req_octets) = 16" "length (pad_coding (replicate 27 0xF0)) = 36" by code_simp+
  moreover have "take 27 (pad_coding (replicate 27 0xF0)) = replicate 27 0xF0" by (simp add: pad_coding_def)
  ultimately have "node_main (demo_server ?bs) pad_coding (take 27) (\<lambda>p. 0) [] 0 =
      Some (take 16 (drop 11 (replicate 27 0xF0)), if (-1::int) \<le> 0 then 0 else t_disconnect (demo_server ?bs) (-1) 0)"
    using node_key_received [of pad_coding "replicate 10 7" "take 27" "replicate 27 0xF0" ?bs "[]" "demo_server ?bs" 0 3 0 "\<lambda>p. 0"
        "int (length (frame (stuff (request_payload pad_coding (\<lambda>p. 0) 0 2 LOAD_BALANCE_REQ))))" 0 0 "-1" 0 "[]"]
    by (simp only: demo_server_def node_net.simps prod.inject simp_thms length_replicate of_nat_0_less_iff length_frame)
  then show ?thesis by simp
qed

end
