(* ===== verification/Calendar.thy ===== *)
theory Calendar
  imports Prelude "HOL-Library.Signed_Division"
begin

text \<open>
  The calendar functions of the position receivers: \<open>leap\<close>, \<open>monthday\<close> and \<open>get_yday\<close> (the same text in \<open>src/board_test/gps.c\<close> and
  \<open>src/4G/4g.c\<close>), and the weekday expression that both use. C division truncates, so it is \<open>sdiv\<close> and \<open>smod\<close>.
\<close>

definition leap :: "int \<Rightarrow> int" where
  "leap y = (if y smod 4 \<noteq> 0 then 0 else if y smod 100 \<noteq> 0 then 1 else if y smod 400 \<noteq> 0 then 0 else 1)"

definition monthday :: "int \<Rightarrow> int \<Rightarrow> int" where
  "monthday m team =
     (if m = 1 \<or> m = 3 \<or> m = 5 \<or> m = 7 \<or> m = 8 \<or> m = 10 \<or> m = 12 then 31
      else if m = 4 \<or> m = 6 \<or> m = 9 \<or> m = 11 then 30
      else if m = 2 \<and> team = 1 then 29
      else if m = 2 \<and> team = 0 then 28
      else -1)"

function yday_loop :: "int \<Rightarrow> int \<Rightarrow> int \<Rightarrow> int \<Rightarrow> int" where
  "yday_loop team mon m d = (if m < mon then yday_loop team mon (m + 1) (d + monthday m team) else d)"
  by pat_completeness auto
termination by (relation "measure (\<lambda>(team, mon, m, d). nat (mon - m))") auto

declare yday_loop.simps [simp del]

definition get_yday :: "int \<Rightarrow> int \<Rightarrow> int \<Rightarrow> int" where
  "get_yday year mon day = (let team = leap year; d = yday_loop team mon 1 0 in day + d)"

definition wday_of :: "int \<Rightarrow> int \<Rightarrow> int \<Rightarrow> int" where
  "wday_of year mon mday =
     (mday + 2 * mon + 3 * (mon + 1) sdiv 5 + year + year sdiv 4 - year sdiv 100 + year sdiv 400) smod 7 + 1"

section \<open>Dates\<close>

text \<open>The Gregorian calendar: which days there are and which follows which.\<close>

definition leap_year :: "int \<Rightarrow> bool" where
  "leap_year y \<longleftrightarrow> 4 dvd y \<and> (\<not> 100 dvd y \<or> 400 dvd y)"

definition month_length :: "int \<Rightarrow> int \<Rightarrow> int" where
  "month_length y m = (if m = 2 then (if leap_year y then 29 else 28) else if m \<in> {4, 6, 9, 11} then 30 else 31)"

definition valid_date :: "int \<times> int \<times> int \<Rightarrow> bool" where
  "valid_date D = (case D of (y, m, d) \<Rightarrow> 1 \<le> y \<and> 1 \<le> m \<and> m \<le> 12 \<and> 1 \<le> d \<and> d \<le> month_length y m)"

definition next_day :: "int \<times> int \<times> int \<Rightarrow> int \<times> int \<times> int" where
  "next_day D = (case D of (y, m, d) \<Rightarrow>
     if d < month_length y m then (y, m, d + 1) else if m < 12 then (y, m + 1, 1) else (y + 1, 1, 1))"

lemma smod_pos: "0 \<le> a \<Longrightarrow> 0 < b \<Longrightarrow> a smod b = a mod b" for a b :: int
  by (cases "a = 0") (simp_all add: signed_modulo_int_def signed_divide_int_def minus_mult_div_eq_mod mult.commute)

lemma sdiv_pos: "0 \<le> a \<Longrightarrow> 0 < b \<Longrightarrow> a sdiv b = a div b" for a b :: int
  by (cases "a = 0") (simp_all add: signed_divide_int_def)

lemma leap_eq: "0 \<le> y \<Longrightarrow> leap y = (if leap_year y then 1 else 0)"
  by (auto simp: leap_def leap_year_def smod_pos mod_eq_0_iff_dvd)

lemma months: "1 \<le> m \<Longrightarrow> m \<le> 12 \<Longrightarrow> m = 1 \<or> m = 2 \<or> m = 3 \<or> m = 4 \<or> m = 5 \<or> m = 6 \<or> m = 7 \<or> m = 8 \<or> m = 9 \<or> m = 10 \<or> m = 11 \<or> m = (12::int)"
  by arith

lemma monthday_eq: "0 \<le> y \<Longrightarrow> 1 \<le> m \<Longrightarrow> m \<le> 12 \<Longrightarrow> monthday m (leap y) = month_length y m"
  using months [of m] by (auto simp: monthday_def month_length_def leap_eq)

lemma yday_loop_add: "m \<le> mon \<Longrightarrow> yday_loop team (mon + 1) m d = yday_loop team mon m d + monthday mon team"
proof (induction team mon m d rule: yday_loop.induct)
  case (1 team mon m d)
  show ?case
  proof (cases "m < mon")
    case True
    then show ?thesis using 1 by (simp add: yday_loop.simps [of team _ m])
  next
    case False
    then have "m = mon" using 1 by simp
    then show ?thesis by (simp add: yday_loop.simps)
  qed
qed

lemma yday_month: "1 \<le> m \<Longrightarrow> m \<le> 12 \<Longrightarrow> 0 \<le> y \<Longrightarrow> get_yday y (m + 1) d = get_yday y m d + month_length y m"
  by (simp add: get_yday_def yday_loop_add monthday_eq)

lemma yday_january: "get_yday y 1 d = d"
  by (simp add: get_yday_def yday_loop.simps)

text \<open>The day of the year, month by month.\<close>

lemma yday_table:
  assumes "0 \<le> y"
  shows "get_yday y 2 d = d + 31" "get_yday y 3 d = d + 59 + (if leap_year y then 1 else 0)" "get_yday y 4 d = d + 90 + (if leap_year y then 1 else 0)"
    "get_yday y 5 d = d + 120 + (if leap_year y then 1 else 0)" "get_yday y 6 d = d + 151 + (if leap_year y then 1 else 0)"
    "get_yday y 7 d = d + 181 + (if leap_year y then 1 else 0)" "get_yday y 8 d = d + 212 + (if leap_year y then 1 else 0)"
    "get_yday y 9 d = d + 243 + (if leap_year y then 1 else 0)" "get_yday y 10 d = d + 273 + (if leap_year y then 1 else 0)"
    "get_yday y 11 d = d + 304 + (if leap_year y then 1 else 0)" "get_yday y 12 d = d + 334 + (if leap_year y then 1 else 0)"
  using assms yday_january [of y d] yday_month [of 1 y d] yday_month [of 2 y d] yday_month [of 3 y d] yday_month [of 4 y d] yday_month [of 5 y d]
    yday_month [of 6 y d] yday_month [of 7 y d] yday_month [of 8 y d] yday_month [of 9 y d] yday_month [of 10 y d] yday_month [of 11 y d]
  by (simp_all add: month_length_def)

text \<open>Days from the beginning of the era, with 1 January of year 1 (a Monday) as day 1; it advances by one with each day.\<close>

definition rata_die :: "int \<times> int \<times> int \<Rightarrow> int" where
  "rata_die D = (case D of (y, m, d) \<Rightarrow> 365 * (y - 1) + (y - 1) div 4 - (y - 1) div 100 + (y - 1) div 400 + get_yday y m d)"

definition weekday :: "int \<times> int \<times> int \<Rightarrow> int" where
  "weekday D = (rata_die D - 1) mod 7 + 1"

lemma year_step: "0 < k \<Longrightarrow> y div k = (y - 1) div k + (if k dvd y then 1 else 0)" for y k :: int
proof -
  assume k: "0 < k"
  have y: "y = k * (y div k) + y mod k" by simp
  have r: "0 \<le> y mod k" "y mod k < k" using k by simp_all
  show ?thesis
  proof (cases "k dvd y")
    case True
    then have "y - 1 = k * (y div k - 1) + (k - 1)" by (simp add: algebra_simps)
    then have "(y - 1) div k = y div k - 1" by (rule int_div_pos_eq) (use k in simp_all)
    then show ?thesis using True by simp
  next
    case False
    then have "y mod k \<noteq> 0" by (simp add: dvd_eq_mod_eq_0)
    then have "(y - 1) div k = y div k" by (intro int_div_pos_eq [of _ k _ "y mod k - 1"]) (use y r in linarith)+
    then show ?thesis using False by simp
  qed
qed

lemma yday_shift: "get_yday y m (d + k) = get_yday y m d + k"
  by (simp add: get_yday_def)

lemma valid_month: "valid_date (y, m, d) \<Longrightarrow> 1 \<le> m \<and> m \<le> 12 \<and> 0 \<le> y"
  by (simp add: valid_date_def)

lemma yday_next:
  assumes "valid_date (y, m, d)" "next_day (y, m, d) = (y', m', d')"
  shows "get_yday y' m' d' = (if y' = y then get_yday y m d + 1 else 1)"
proof -
  have v: "1 \<le> m" "m \<le> 12" "0 \<le> y" "d \<le> month_length y m" using assms(1) by (simp_all add: valid_date_def)
  consider "d < month_length y m" | "d = month_length y m" "m < 12" | "d = month_length y m" "m = 12" using v by linarith
  then show ?thesis
  proof cases
    case 1
    then show ?thesis using assms(2) yday_shift [of y m d 1] by (simp add: next_day_def)
  next
    case 2
    then show ?thesis using assms(2) yday_month [of m y 1] yday_shift [of y m 1 "d - 1"] v by (simp add: next_day_def)
  next
    case 3
    then show ?thesis using assms(2) yday_january by (simp add: next_day_def)
  qed
qed

definition leap_days :: "int \<Rightarrow> int" where
  "leap_days y = y div 4 - y div 100 + y div 400"

lemma leap_rule:
  "(r \<Longrightarrow> q) \<Longrightarrow> (q \<Longrightarrow> p) \<Longrightarrow> (a + (if p then 1 else 0)) - (b + (if q then 1 else 0)) + (c + (if r then 1 else 0)) =
     (a - b + c) + (if p \<and> (\<not> q \<or> r) then 1 else (0::int))"
  by auto

lemma leap_days_step: "leap_days y = leap_days (y - 1) + (if leap_year y then 1 else 0)"
  unfolding leap_days_def leap_year_def year_step [of 4 y, OF zero_less_numeral] year_step [of 100 y, OF zero_less_numeral]
    year_step [of 400 y, OF zero_less_numeral]
  by (rule leap_rule; rule dvd_trans [rotated], assumption, simp)

lemma rata_die_next:
  assumes "valid_date D"
  shows "rata_die (next_day D) = rata_die D + 1"
proof -
  obtain y m d where D: "D = (y, m, d)" by (metis prod_cases3)
  obtain y' m' d' where n: "next_day (y, m, d) = (y', m', d')" by (metis prod_cases3)
  note yd = yday_next [OF assms [unfolded D] n]
  show ?thesis
  proof (cases "y' = y")
    case True
    then show ?thesis using yd by (simp add: D n rata_die_def)
  next
    case False
    then have "m = 12" "d = 31" "y' = y + 1" using n assms by (auto simp: D next_day_def valid_date_def month_length_def split: if_splits)
    moreover have "0 \<le> y" using valid_month assms D by blast
    moreover have "get_yday y 12 31 = (if leap_year y then 366 else 365)" using \<open>0 \<le> y\<close> by (simp add: yday_table)
    moreover have "rata_die (y + 1, 1, 1) = 365 * y + leap_days y + 1" "rata_die (y, 12, 31) = 365 * (y - 1) + leap_days (y - 1) + get_yday y 12 31"
      by (simp_all add: rata_die_def leap_days_def yday_january)
    moreover have "next_day (y, 12, 31) = (y + 1, 1, 1)" by (simp add: next_day_def month_length_def)
    ultimately show ?thesis using leap_days_step [of y] by (cases "leap_year y") (simp_all add: D)
  qed
qed

lemma rata_die_anchor: "weekday (2000, 1, 1) = 6" "weekday (1, 1, 1) = 1"
  by (simp_all add: weekday_def rata_die_def yday_january)

text \<open>
  \<open>get_yday\<close> numbers the days of every year from 1: it is 1 on 1 January, one more on each following day of the year, and 365 or 366 on 31 December.
\<close>

theorem get_yday_counts_days:
  assumes "valid_date (y, m, d)" "next_day (y, m, d) = (y', m', d')"
  shows "get_yday y 1 1 = 1 \<and> 1 \<le> get_yday y m d \<and> get_yday y m d \<le> (if leap_year y then 366 else 365) \<and>
    get_yday y' m' d' = (if y' = y then get_yday y m d + 1 else 1)"
proof -
  have v: "1 \<le> m" "m \<le> 12" "0 \<le> y" "1 \<le> d" "d \<le> month_length y m" using assms(1) by (simp_all add: valid_date_def)
  have "1 \<le> get_yday y m d \<and> get_yday y m d \<le> (if leap_year y then 366 else 365)"
    using months [OF v(1,2)] v(4,5) by (elim disjE) (auto simp: yday_table [OF v(3)] yday_january month_length_def split: if_splits)
  then show ?thesis using yday_next [OF assms] yday_january by simp
qed

theorem get_yday_counts_days_witness:
  "get_yday 2024 1 1 = 1 \<and> 1 \<le> get_yday 2024 2 29 \<and> get_yday 2024 2 29 \<le> (if leap_year 2024 then 366 else 365) \<and>
    get_yday 2024 3 1 = (if (2024::int) = 2024 then get_yday 2024 2 29 + 1 else 1)"
  by (rule get_yday_counts_days) (simp_all add: valid_date_def next_day_def month_length_def leap_year_def)

section \<open>The weekday\<close>

text \<open>
  The expression is the classical one, in which January and February are months 13 and 14 of the year before; the code does not move
  them. The month term against the days before the month:
\<close>

lemma month_delta:
  assumes "1 \<le> m" "m \<le> 12" "0 \<le> y"
  shows "(2 * m + 3 * (m + 1) div 5 - (get_yday y m 0 - (if leap_year y then 1 else 0) - 2)) mod 7 =
    (if 3 \<le> m then 0 else (if m = 1 then 5 else 4) + (if leap_year y then 1 else 0))"
  using months [OF assms(1,2)] assms(3) by (elim disjE) (simp_all add: yday_table yday_january)

lemma rata_die_days: "rata_die (y, m, d) = 365 * (y - 1) + leap_days (y - 1) + get_yday y m 0 + d"
  using yday_shift [of y m 0 d] by (simp add: rata_die_def leap_days_def)

text \<open>How far the expression is off, when it is evaluated with \<open>off\<close> in place of the year.\<close>

lemma wday_of_delta:
  assumes "valid_date (y, m, d)" "0 \<le> z"
  shows "wday_of z m d = (rata_die (y, m, d) - 1 + (z + leap_days z - (y + leap_days y)) +
      (2 * m + 3 * (m + 1) div 5 - (get_yday y m 0 - (if leap_year y then 1 else 0) - 2))) mod 7 + 1"
proof -
  have v: "1 \<le> m" "1 \<le> d" using assms(1) by (simp_all add: valid_date_def)
  have ld: "0 \<le> leap_days z"
  proof -
    have "z div 100 \<le> z div 4" using assms(2) by (intro zdiv_mono2) simp_all
    moreover have "0 \<le> z div 400" using assms(2) by simp
    ultimately show ?thesis by (simp add: leap_days_def)
  qed
  let ?t = "2 * m + 3 * (m + 1) div 5" and ?L = "if leap_year y then 1 else (0::int)"
  have "wday_of z m d = (d + ?t + z + leap_days z) mod 7 + 1"
    using v assms(2) ld by (simp add: wday_of_def leap_days_def sdiv_pos smod_pos algebra_simps)
  moreover have "rata_die (y, m, d) - 1 + (z + leap_days z - (y + leap_days y)) + (?t - (get_yday y m 0 - ?L - 2)) =
      d + ?t + z + leap_days z + 7 * (52 * (y - 1))"
    using leap_days_step [of y] by (simp add: rata_die_days algebra_simps)
  ultimately show ?thesis by (simp only: mod_mult_self2)
qed

lemma mod7_cancel: "(a + x) mod 7 + 1 = a mod 7 + 1 \<longleftrightarrow> x mod 7 = 0" for a x :: int
  by (metis add_diff_cancel_left' add_right_cancel dvd_eq_mod_eq_0 mod_eq_dvd_iff)

lemma mod7_differ: "((a + - 2361 + x) mod 7 + 1 - (a mod 7 + 1)) mod 7 = (x mod 7 - 2) mod 7" for a x :: int
proof -
  have "((a + - 2361 + x) mod 7 + 1 - (a mod 7 + 1)) mod 7 = (a + - 2361 + x - a) mod 7" by (simp add: mod_diff_eq)
  also have "a + - 2361 + x - a = (x - 2) + 7 * (- 337)" by simp
  also have "\<dots> mod 7 = (x - 2) mod 7" by (rule mod_mult_self2)
  also have "\<dots> = (x mod 7 - 2) mod 7" by (rule mod_diff_left_eq [symmetric])
  finally show ?thesis .
qed

text \<open>
  The weekday computed for a date is right from March on and wrong in January and February of every year.
\<close>

theorem wday_right_iff:
  assumes "valid_date (y, m, d)"
  shows "wday_of y m d = weekday (y, m, d) \<longleftrightarrow> 3 \<le> m"
proof -
  have v: "1 \<le> m" "m \<le> 12" "0 \<le> y" using valid_month [OF assms] by simp_all
  let ?x = "2 * m + 3 * (m + 1) div 5 - (get_yday y m 0 - (if leap_year y then 1 else 0) - 2)"
  have "wday_of y m d = (rata_die (y, m, d) - 1 + ?x) mod 7 + 1" using wday_of_delta [OF assms v(3)] by simp
  then have "wday_of y m d = weekday (y, m, d) \<longleftrightarrow> ?x mod 7 = 0" by (simp only: weekday_def mod7_cancel)
  then show ?thesis using month_delta [OF v] by simp
qed

theorem wday_right_iff_witness: "wday_of 2016 12 22 = weekday (2016, 12, 22) \<and> wday_of 2017 1 1 \<noteq> weekday (2017, 1, 1)"
  using wday_right_iff [of 2016 12 22] wday_right_iff [of 2017 1 1] by (simp add: valid_date_def month_length_def)

text \<open>
  With the year counted from 1900, as the modem does, the weekday is never right from 2000 to 2099.
\<close>

theorem modem_wday_never_right:
  assumes "valid_date (y, m, d)" "2000 \<le> y" "y \<le> 2099"
  shows "(wday_of (y - 1900) m d - weekday (y, m, d)) mod 7 \<noteq> 0"
proof -
  have v: "1 \<le> m" "m \<le> 12" "0 \<le> y" using valid_month [OF assms(1)] by simp_all
  let ?x = "2 * m + 3 * (m + 1) div 5 - (get_yday y m 0 - (if leap_year y then 1 else 0) - 2)"
  have "(y - 1900) div 4 = y div 4 - 475" by presburger
  moreover have "(y - 1900) div 100 = 1" by (rule int_div_pos_eq [of _ _ _ "y - 2000"]) (use assms in simp_all)
  moreover have "(y - 1900) div 400 = 0" by (rule int_div_pos_eq [of _ _ _ "y - 1900"]) (use assms in simp_all)
  moreover have "y div 100 = 20" by (rule int_div_pos_eq [of _ _ _ "y - 2000"]) (use assms in simp_all)
  moreover have "y div 400 = 5" by (rule int_div_pos_eq [of _ _ _ "y - 2000"]) (use assms in simp_all)
  ultimately have e: "y - 1900 + leap_days (y - 1900) - (y + leap_days y) = - 2361" unfolding leap_days_def by linarith
  have "0 \<le> y - 1900" using assms(2) by simp
  from wday_of_delta [OF assms(1) this] have "wday_of (y - 1900) m d = (rata_die (y, m, d) - 1 + - 2361 + ?x) mod 7 + 1"
    unfolding e .
  then have "(wday_of (y - 1900) m d - weekday (y, m, d)) mod 7 = (?x mod 7 - 2) mod 7"
    by (simp only: weekday_def mod7_differ)
  then show ?thesis using month_delta [OF v] by simp
qed

theorem modem_wday_never_right_witness: "(wday_of (2016 - 1900) 12 22 - weekday (2016, 12, 22)) mod 7 \<noteq> 0"
  by (rule modem_wday_never_right) (simp_all add: valid_date_def month_length_def)

end
