(* ===== verification/Gps.thy ===== *)
theory Gps
  imports Calendar CString
begin

text \<open>
  The position receiver of the board test (\<open>src/board_test/gps.c\<close>): the two checksums, the messages that switch the receiver's sentences on and off, and the
  parsers of its sentences. The serial line is a record of functions on an abstract world. \<open>None\<close> is an access outside a buffer.
\<close>

definition GPS_EOK :: int where "GPS_EOK = 0"
definition GPS_ERROR :: int where "GPS_ERROR = -1"

record gps_zda =
  zda_msec :: int
  zda_sec :: int
  zda_min :: int
  zda_hour :: int
  zda_day :: int
  zda_mon :: int
  zda_year :: int

record gps_tm =
  tm_sec :: int
  tm_min :: int
  tm_hour :: int
  tm_mday :: int
  tm_mon :: int
  tm_year :: int
  tm_wday :: int
  tm_yday :: int

record gps_gga =
  latitude :: rat
  ns_indicator :: byte
  longitude :: rat
  ew_indicator :: byte

record lib_serial =
  sfd :: int
  pathname :: "byte list"
  flags :: u32
  speed :: u32
  databits :: u32
  stopbits :: u32

record 'w serial =
  s_init :: "lib_serial \<Rightarrow> 'w \<Rightarrow> int \<times> lib_serial \<times> 'w"
  s_send :: "int \<Rightarrow> byte list \<Rightarrow> 'w \<Rightarrow> int \<times> 'w"
  s_read :: "int \<Rightarrow> nat \<Rightarrow> int \<Rightarrow> 'w \<Rightarrow> int \<times> byte list \<times> 'w"
  s_close :: "lib_serial \<Rightarrow> 'w \<Rightarrow> 'w"

section \<open>Set-up\<close>

definition O_RDWR :: u32 where "O_RDWR = 2"

text \<open>
  \<open>memset(serial, 0, sizeof(serial))\<close> clears the four octets of the pointer's size, that is \<open>sfd\<close> only; the other members are stored
  next. The path is copied with its NUL into 128 octets.
\<close>

definition gps_init :: "'w serial \<Rightarrow> lib_serial \<Rightarrow> byte list \<Rightarrow> u32 \<Rightarrow> 'w \<Rightarrow> (int \<times> lib_serial \<times> 'w) option" where
  "gps_init os serial DEV_NAME speed_arg w =
     (let serial = serial\<lparr>sfd := 0\<rparr> in
      do {
        path \<leftarrow> memcpy (pathname serial) 0 (DEV_NAME @ [0]) 0 (length DEV_NAME + 1);
        let serial = serial\<lparr>pathname := path, flags := O_RDWR, speed := speed_arg, databits := 8, stopbits := 1\<rparr>;
        case s_init os serial w of (ret, serial, w) \<Rightarrow>
          if ret < 0 then Some (GPS_ERROR, serial, w) else Some (GPS_EOK, serial, w)
      })"

text \<open>\<open>__gps_resease\<close> closes the line and ends the program.\<close>

definition gps_resease :: "'w serial \<Rightarrow> lib_serial \<Rightarrow> 'w \<Rightarrow> 'w" where
  "gps_resease os serial w = s_close os serial w"

section \<open>Checksums\<close>

text \<open>
  The exclusive or of \<open>n\<close> octets, as two hexadecimal characters, is compared with the last two characters of the string. The second character is moved from
  \<open>:\<close> to \<open>A\<close> and on, the first is not.
\<close>

definition gps_nmea_crc :: "byte list \<Rightarrow> int \<Rightarrow> int option" where
  "gps_nmea_crc crcbuf n =
     (if int (length crcbuf) < n then None
      else
        let ck = fold (XOR) (take (nat n) crcbuf) 0;
            a = unat ck div 16 + 48;
            b = unat ck mod 16 + 48;
            b = (if b > 57 \<and> b < 65 then b + 7 else b)
        in do {
          s \<leftarrow> c_str crcbuf 0;
          if length s < 2 then None
          else if unat (s ! (length s - 2)) \<noteq> a \<or> unat (s ! (length s - 1)) \<noteq> b then Some GPS_ERROR
          else Some GPS_EOK
        })"

definition ubx_step :: "byte \<Rightarrow> byte \<times> byte \<Rightarrow> byte \<times> byte" where
  "ubx_step c r = (case r of (r0, r1) \<Rightarrow> (r0 + c, r1 + (r0 + c)))"

definition gps_ubx_crc :: "byte list \<Rightarrow> byte list" where
  "gps_ubx_crc crcbuf = (case fold ubx_step crcbuf (0, 0) of (r0, r1) \<Rightarrow> [r0, r1])"

section \<open>Receiver messages\<close>

definition ubx_send :: "'w serial \<Rightarrow> int \<Rightarrow> byte list \<Rightarrow> 'w \<Rightarrow> int \<times> 'w" where
  "ubx_send os fd txbuf w = (case s_send os fd txbuf w of (ret, w) \<Rightarrow> if ret < 0 then (ret, w) else (GPS_EOK, w))"

text \<open>The rate argument is not used; the checksum is stored behind the twelve octets that are sent.\<close>

definition gps_set_rate :: "'w serial \<Rightarrow> int \<Rightarrow> int \<Rightarrow> 'w \<Rightarrow> int \<times> 'w" where
  "gps_set_rate os fd ms_rate w =
     (let txbuf = [0xb5, 0x62, 0x06, 0x08, 0x06, 0x00, 0xff, 0x0f, 0x01, 0x00, 0x00, 0x00];
          txbuf = txbuf @ gps_ubx_crc (take 10 (drop 2 txbuf))
      in ubx_send os fd (take 12 txbuf) w)"

definition gps_gga_off :: "'w serial \<Rightarrow> int \<Rightarrow> 'w \<Rightarrow> int \<times> 'w" where
  "gps_gga_off os fd w = ubx_send os fd [0xb5, 0x62, 0x06, 0x01, 0x08, 0x00, 0xf0, 0x00, 0x00, 0x00, 0x00, 0x00, 0x00, 0x01, 0x00, 0x24] w"

definition gps_gga_on :: "'w serial \<Rightarrow> int \<Rightarrow> 'w \<Rightarrow> int \<times> 'w" where
  "gps_gga_on os fd w = ubx_send os fd [0xb5, 0x62, 0x06, 0x01, 0x08, 0x00, 0xf0, 0x00, 0x00, 0x01, 0x00, 0x00, 0x00, 0x01, 0x01, 0x29] w"

definition gps_gll_off :: "'w serial \<Rightarrow> int \<Rightarrow> 'w \<Rightarrow> int \<times> 'w" where
  "gps_gll_off os fd w = ubx_send os fd [0xb5, 0x62, 0x06, 0x01, 0x08, 0x00, 0xf0, 0x01, 0x00, 0x00, 0x00, 0x00, 0x00, 0x01, 0x01, 0x2b] w"

definition gps_gll_on :: "'w serial \<Rightarrow> int \<Rightarrow> 'w \<Rightarrow> int \<times> 'w" where
  "gps_gll_on os fd w = ubx_send os fd [0xb5, 0x62, 0x06, 0x01, 0x08, 0x00, 0xf0, 0x01, 0x00, 0x01, 0x00, 0x00, 0x00, 0x01, 0x02, 0x30] w"

definition gps_gsa_off :: "'w serial \<Rightarrow> int \<Rightarrow> 'w \<Rightarrow> int \<times> 'w" where
  "gps_gsa_off os fd w = ubx_send os fd [0xb5, 0x62, 0x06, 0x01, 0x08, 0x00, 0xf0, 0x02, 0x00, 0x00, 0x00, 0x00, 0x00, 0x01, 0x02, 0x32] w"

definition gps_gsa_on :: "'w serial \<Rightarrow> int \<Rightarrow> 'w \<Rightarrow> int \<times> 'w" where
  "gps_gsa_on os fd w = ubx_send os fd [0xb5, 0x62, 0x06, 0x01, 0x08, 0x00, 0xf0, 0x02, 0x00, 0x00, 0x00, 0x00, 0x00, 0x01, 0x02, 0x32] w"

definition gps_gsv_off :: "'w serial \<Rightarrow> int \<Rightarrow> 'w \<Rightarrow> int \<times> 'w" where
  "gps_gsv_off os fd w = ubx_send os fd [0xb5, 0x62, 0x06, 0x01, 0x08, 0x00, 0xf0, 0x03, 0x00, 0x00, 0x00, 0x00, 0x00, 0x01, 0x03, 0x39] w"

definition gps_gsv_on :: "'w serial \<Rightarrow> int \<Rightarrow> 'w \<Rightarrow> int \<times> 'w" where
  "gps_gsv_on os fd w = ubx_send os fd [0xb5, 0x62, 0x06, 0x01, 0x08, 0x00, 0xf0, 0x03, 0x00, 0x01, 0x00, 0x00, 0x00, 0x01, 0x04, 0x3e] w"

definition gps_rmc_off :: "'w serial \<Rightarrow> int \<Rightarrow> 'w \<Rightarrow> int \<times> 'w" where
  "gps_rmc_off os fd w = ubx_send os fd [0xb5, 0x62, 0x06, 0x01, 0x08, 0x00, 0xf0, 0x04, 0x00, 0x00, 0x00, 0x00, 0x00, 0x01, 0x04, 0x40] w"

definition gps_rmc_on :: "'w serial \<Rightarrow> int \<Rightarrow> 'w \<Rightarrow> int \<times> 'w" where
  "gps_rmc_on os fd w = ubx_send os fd [0xb5, 0x62, 0x06, 0x01, 0x08, 0x00, 0xf0, 0x04, 0x00, 0x01, 0x00, 0x00, 0x00, 0x01, 0x05, 0x45] w"

definition gps_vtg_off :: "'w serial \<Rightarrow> int \<Rightarrow> 'w \<Rightarrow> int \<times> 'w" where
  "gps_vtg_off os fd w = ubx_send os fd [0xb5, 0x62, 0x06, 0x01, 0x08, 0x00, 0xf0, 0x05, 0x00, 0x00, 0x00, 0x00, 0x00, 0x01, 0x05, 0x47] w"

definition gps_vtg_on :: "'w serial \<Rightarrow> int \<Rightarrow> 'w \<Rightarrow> int \<times> 'w" where
  "gps_vtg_on os fd w = ubx_send os fd [0xb5, 0x62, 0x06, 0x01, 0x08, 0x00, 0xf0, 0x05, 0x00, 0x01, 0x00, 0x00, 0x00, 0x01, 0x06, 0x4c] w"

definition gps_zda_off :: "'w serial \<Rightarrow> int \<Rightarrow> 'w \<Rightarrow> int \<times> 'w" where
  "gps_zda_off os fd w =
     (let txbuf = [0xb5, 0x62, 0x06, 0x01, 0x08, 0x00, 0xf0, 0x08, 0x00, 0x00, 0x00, 0x00, 0x00, 0x01]
      in ubx_send os fd (txbuf @ gps_ubx_crc (take 12 (drop 2 txbuf))) w)"

definition gps_zda_on :: "'w serial \<Rightarrow> int \<Rightarrow> 'w \<Rightarrow> int \<times> 'w" where
  "gps_zda_on os fd w =
     (let txbuf = [0xb5, 0x62, 0x06, 0x01, 0x08, 0x00, 0xf0, 0x08, 0x00, 0x01, 0x00, 0x00, 0x00, 0x01]
      in ubx_send os fd (txbuf @ gps_ubx_crc (take 12 (drop 2 txbuf))) w)"

section \<open>Sentences\<close>

text \<open>The lines of the buffer, each copied into a row of 512 octets; \<open>rows\<close> is the caller's array.\<close>

function split_loop :: "byte list \<Rightarrow> nat \<Rightarrow> byte list list \<Rightarrow> nat \<Rightarrow> (byte list \<times> byte list list \<times> nat) option" where
  "split_loop mem pos rows cnt =
     (case strtok mem pos 10 of
        None \<Rightarrow> None
      | Some (mem1, None, pos1) \<Rightarrow> Some (mem1, rows, cnt)
      | Some (mem1, Some p, pos1) \<Rightarrow>
          do {
            s \<leftarrow> c_str mem1 p;
            row \<leftarrow> buf_rd rows cnt;
            row \<leftarrow> memcpy row 0 (s @ [0]) 0 (length s + 1);
            split_loop mem1 pos1 (rows[cnt := row]) (cnt + 1)
          })"
  by pat_completeness auto
termination by (relation "measure (\<lambda>(mem, pos, rows, cnt). length mem - pos)") (auto intro: strtok_less)

declare split_loop.simps [simp del]

definition gps_split_info :: "byte list option \<Rightarrow> byte list list \<Rightarrow> nat \<Rightarrow> (int \<times> byte list list \<times> nat) option" where
  "gps_split_info rxbuf rows cnt =
     (case rxbuf of
        None \<Rightarrow> Some (-1, rows, cnt)
      | Some mem \<Rightarrow> do { (mem, rows, cnt) \<leftarrow> split_loop mem 0 rows cnt; Some (0, rows, cnt) })"

text \<open>The check that opens the three parsers: the sentence without its first character, all but its last three characters.\<close>

definition sentence_ok :: "byte list \<Rightarrow> int option" where
  "sentence_ok mem = do { s \<leftarrow> c_str mem 0; gps_nmea_crc (drop 1 mem) (int (length s) - 4) }"

text \<open>\<open>memset(buf, 0, 32); memcpy(buf, p + k, 2); atoi(buf)\<close>\<close>

definition two_digits :: "byte list \<Rightarrow> nat \<Rightarrow> int option" where
  "two_digits mem k = do {
     buf \<leftarrow> memcpy (replicate 32 0) 0 mem k 2;
     s \<leftarrow> c_str buf 0;
     Some (atoi s)
   }"

definition atoi_at :: "byte list \<Rightarrow> nat \<Rightarrow> int option" where
  "atoi_at mem p = map_option atoi (c_str mem p)"

definition scan_lf :: "byte list \<Rightarrow> nat \<Rightarrow> rat \<Rightarrow> rat option" where
  "scan_lf mem p db2 = map_option (\<lambda>s. case scan_decimal s of None \<Rightarrow> db2 | Some q \<Rightarrow> f64 q) (c_str mem p)"

text \<open>
  One field of a chain \<open>if (p) { use; p = strtok(NULL, ",") } else return GPS_ERROR\<close>: the rest of the chain gets the next token.
\<close>

definition field :: "byte list \<Rightarrow> nat option \<Rightarrow> nat \<Rightarrow> (nat \<Rightarrow> 's \<Rightarrow> 's option) \<Rightarrow> 's \<Rightarrow>
    (byte list \<Rightarrow> nat option \<Rightarrow> nat \<Rightarrow> 's \<Rightarrow> (int \<times> 's) option) \<Rightarrow> (int \<times> 's) option" where
  "field mem p pos use s k =
     (case p of
        None \<Rightarrow> Some (GPS_ERROR, s)
      | Some q \<Rightarrow> do {
          s \<leftarrow> use q s;
          (mem, p, pos) \<leftarrow> strtok mem pos 44;
          k mem p pos s
        })"

text \<open>
  \<open>db2\<close> has no value before the first number is read; \<open>junk\<close> stands for it. Indicators take one character (\<open>strncpy\<close> of one).
\<close>

definition gps_get_gga :: "rat \<Rightarrow> byte list option \<Rightarrow> gps_gga \<Rightarrow> (int \<times> gps_gga) option" where
  "gps_get_gga junk rxbuf gga =
     (case rxbuf of
        None \<Rightarrow> Some (-1, gga)
      | Some mem \<Rightarrow> do {
          ret \<leftarrow> sentence_ok mem;
          if ret < 0 then Some (GPS_ERROR, gga)
          else do {
            (mem, p, pos) \<leftarrow> strtok mem 0 44;
            r \<leftarrow> field mem p pos (\<lambda>q s. Some s) (gga, junk) (\<lambda>mem p pos s.
              field mem p pos (\<lambda>q s. Some s) s (\<lambda>mem p pos s.
              field mem p pos (\<lambda>q (g, db2). do { db2 \<leftarrow> scan_lf mem q db2; Some (g\<lparr>latitude := f64 (db2 / 100)\<rparr>, db2) }) s (\<lambda>mem p pos s.
              field mem p pos (\<lambda>q (g, db2). do { c \<leftarrow> buf_rd mem q; Some (g\<lparr>ns_indicator := c\<rparr>, db2) }) s (\<lambda>mem p pos s.
              field mem p pos (\<lambda>q (g, db2). do { db2 \<leftarrow> scan_lf mem q db2; Some (g\<lparr>longitude := f64 (db2 / 100)\<rparr>, db2) }) s (\<lambda>mem p pos s.
              field mem p pos (\<lambda>q (g, db2). do { c \<leftarrow> buf_rd mem q; Some (g\<lparr>ew_indicator := c\<rparr>, db2) }) s (\<lambda>mem p pos s.
              Some (GPS_EOK, s)))))));
            Some (fst r, fst (snd r))
          }
        })"

definition gps_get_tm :: "byte list option \<Rightarrow> gps_tm \<Rightarrow> (int \<times> gps_tm) option" where
  "gps_get_tm rxbuf tm =
     (case rxbuf of
        None \<Rightarrow> Some (GPS_ERROR, tm)
      | Some mem \<Rightarrow> do {
          ret \<leftarrow> sentence_ok mem;
          if ret < 0 then Some (GPS_ERROR, tm)
          else do {
            (mem, p, pos) \<leftarrow> strtok mem 0 44;
            field mem p pos (\<lambda>q tm. Some tm) tm (\<lambda>mem p pos tm.
            field mem p pos (\<lambda>q tm. do {
                h \<leftarrow> two_digits mem q; m \<leftarrow> two_digits mem (q + 2); s \<leftarrow> two_digits mem (q + 4);
                Some (tm\<lparr>tm_hour := h + 8, tm_min := m, tm_sec := s\<rparr>) }) tm (\<lambda>mem p pos tm.
            field mem p pos (\<lambda>q tm. do { v \<leftarrow> atoi_at mem q; Some (tm\<lparr>tm_mday := v\<rparr>) }) tm (\<lambda>mem p pos tm.
            field mem p pos (\<lambda>q tm. do { v \<leftarrow> atoi_at mem q; Some (tm\<lparr>tm_mon := v\<rparr>) }) tm (\<lambda>mem p pos tm.
            field mem p pos (\<lambda>q tm. do { v \<leftarrow> atoi_at mem q; Some (tm\<lparr>tm_year := v\<rparr>) }) tm (\<lambda>mem p pos tm.
            Some (0, tm\<lparr>tm_yday := get_yday (tm_year tm) (tm_mon tm) (tm_mday tm),
              tm_wday := wday_of (tm_year tm) (tm_mon tm) (tm_mday tm)\<rparr>))))))
          }
        })"

text \<open>Conversion to \<open>short\<close>.\<close>

definition to_short :: "int \<Rightarrow> int" where
  "to_short v = sint (word_of_int v :: 16 word)"

definition gps_get_zda :: "byte list option \<Rightarrow> gps_zda \<Rightarrow> (int \<times> gps_zda) option" where
  "gps_get_zda rxbuf zda =
     (case rxbuf of
        None \<Rightarrow> Some (GPS_ERROR, zda)
      | Some mem \<Rightarrow> do {
          ret \<leftarrow> sentence_ok mem;
          if ret < 0 then Some (GPS_ERROR, zda)
          else do {
            (mem, p, pos) \<leftarrow> strtok mem 0 44;
            field mem p pos (\<lambda>q z. Some z) zda (\<lambda>mem p pos z.
            field mem p pos (\<lambda>q z. do {
                h \<leftarrow> two_digits mem q; m \<leftarrow> two_digits mem (q + 2); s \<leftarrow> two_digits mem (q + 4); ms \<leftarrow> two_digits mem (q + 7);
                Some (z\<lparr>zda_hour := h, zda_min := m, zda_sec := s, zda_msec := ms\<rparr>) }) z (\<lambda>mem p pos z.
            field mem p pos (\<lambda>q z. do { v \<leftarrow> atoi_at mem q; Some (z\<lparr>zda_day := to_short v\<rparr>) }) z (\<lambda>mem p pos z.
            field mem p pos (\<lambda>q z. do { v \<leftarrow> atoi_at mem q; Some (z\<lparr>zda_mon := to_short v\<rparr>) }) z (\<lambda>mem p pos z.
            field mem p pos (\<lambda>q z. do { v \<leftarrow> atoi_at mem q; Some (z\<lparr>zda_year := to_short v\<rparr>) }) z (\<lambda>mem p pos z.
            Some (GPS_EOK, z))))))
          }
        })"

end
