(* ===== verification/GpsProps.thy ===== *)
theory GpsProps
  imports Gps
begin

text \<open>
  The position receiver: which sentences the checksum test accepts, what the messages to the receiver are, and what the time parser makes of a sentence.
\<close>

section \<open>The sentence checksum\<close>

definition hx :: "nat \<Rightarrow> byte" where
  "hx v = (if v < 10 then of_nat (48 + v) else of_nat (55 + v))"

definition xor_all :: "byte list \<Rightarrow> byte" where
  "xor_all body = fold (XOR) body 0"

text \<open>A sentence as the receiver sends it: the checksum of the characters between \<open>$\<close> and \<open>*\<close> in two hexadecimal characters.\<close>

definition sentence :: "byte list \<Rightarrow> byte list" where
  "sentence body = [36] @ body @ [42, hx (unat (xor_all body) div 16), hx (unat (xor_all body) mod 16)]"

lemma hx_unat: "v < 16 \<Longrightarrow> unat (hx v) = (if v < 10 then 48 + v else 55 + v)"
proof -
  have "list_all (\<lambda>v. unat (hx v) = (if v < 10 then 48 + v else 55 + v)) [0..<16]" by code_simp
  then show "v < 16 \<Longrightarrow> ?thesis" by (simp add: list_all_iff)
qed

lemma octet_nibbles: "unat b div 16 < 16" "unat b mod 16 < 16" for b :: byte
  using unsigned_less [of b, where ?'a = nat] by (simp_all add: less_mult_imp_div_less)

lemma sentence_ok_eq:
  assumes "0 \<notin> set body"
  shows "sentence_ok (sentence body @ 0 # rest) = Some (if unat (xor_all body) < 160 then GPS_EOK else GPS_ERROR)"
proof -
  let ?ck = "xor_all body"
  let ?a = "unat ?ck div 16" and ?b = "unat ?ck mod 16"
  have nz: "hx v \<noteq> 0" if "v < 16" for v using hx_unat [OF that] by (metis add_is_0 unsigned_0 zero_neq_numeral)
  have s: "c_str (sentence body @ 0 # rest) 0 = Some (sentence body)"
    using assms nz octet_nibbles [of ?ck] by (intro c_str_app) (auto simp: sentence_def)
  let ?t = "body @ [42, hx ?a, hx ?b]"
  have t: "c_str (?t @ 0 # rest) 0 = Some ?t"
    using assms nz octet_nibbles [of ?ck] by (intro c_str_app) auto
  have d: "drop 1 (sentence body @ 0 # rest) = ?t @ 0 # rest" by (simp add: sentence_def)
  have low: "unat (hx ?b) = (let b = ?b + 48 in if b > 57 \<and> b < 65 then b + 7 else b)"
    using hx_unat [OF octet_nibbles(2)] octet_nibbles(2) [of ?ck] by (auto simp: Let_def)
  have high: "unat (hx ?a) = ?a + 48 \<longleftrightarrow> unat ?ck < 160"
    using hx_unat [OF octet_nibbles(1)] by (auto simp: div_less_iff_less_mult)
  have "gps_nmea_crc (?t @ 0 # rest) (int (length body)) = Some (if unat ?ck < 160 then GPS_EOK else GPS_ERROR)"
    using low high unfolding gps_nmea_crc_def t by (simp add: xor_all_def Let_def nth_append)
  then show ?thesis unfolding sentence_ok_def s d by (simp add: sentence_def)
qed

text \<open>
  A sentence with a correct checksum passes the test exactly when the checksum is below A0 (hexadecimal): the first of its two characters is computed without the letters, so
  every sentence with a larger checksum is refused.
\<close>

theorem nmea_accepts_iff:
  assumes "0 \<notin> set body"
  shows "sentence_ok (sentence body @ 0 # rest) = Some GPS_EOK \<longleftrightarrow> unat (xor_all body) < 160"
  using sentence_ok_eq [OF assms] by (simp add: GPS_EOK_def GPS_ERROR_def)

theorem nmea_accepts_iff_witness: "sentence_ok (sentence [65, 66] @ 0 # []) = Some GPS_EOK \<and> sentence_ok (sentence [0xB0] @ 0 # []) \<noteq> Some GPS_EOK"
  using nmea_accepts_iff [of "[65, 66]" "[]"] nmea_accepts_iff [of "[0xB0]" "[]"] by (simp add: xor_all_def)

section \<open>Messages to the receiver\<close>

text \<open>The checksum of the receiver's protocol as its documentation defines it: the sum of the octets, and the sum of the partial sums.\<close>

definition partial_sum :: "byte list \<Rightarrow> nat \<Rightarrow> byte" where
  "partial_sum xs k = sum_list (take k xs)"

lemma ubx_fold: "fold ubx_step xs (a, b) = (a + sum_list xs, b + of_nat (length xs) * a + sum_list (map (partial_sum xs) [1..<length xs + 1]))"
proof (induction xs arbitrary: a b)
  case (Cons x xs)
  have "map (partial_sum (x # xs)) [1..<length (x # xs) + 1] = x # map (\<lambda>k. x + partial_sum xs k) [1..<length xs + 1]"
    by (rule nth_equalityI) (auto simp: partial_sum_def nth_Cons' take_Cons' simp del: upt_Suc)
  moreover have "sum_list (map (\<lambda>k. x + partial_sum xs k) ks) = of_nat (length ks) * x + sum_list (map (partial_sum xs) ks)" for ks
    by (induction ks) (simp_all add: algebra_simps)
  moreover have "ubx_step x (a, b) = (a + x, b + (a + x))" by (simp add: ubx_step_def)
  ultimately show ?case by (simp add: Cons.IH algebra_simps del: upt_Suc)
qed simp

lemma ubx_crc_eq: "gps_ubx_crc xs = [sum_list xs, sum_list (map (partial_sum xs) [1..<length xs + 1])]"
  by (simp add: gps_ubx_crc_def ubx_fold del: upt_Suc)

text \<open>The message that sets how often one sentence is sent on each of the six ports, with the documented checksum.\<close>

definition cfg_msg :: "byte \<Rightarrow> byte list \<Rightarrow> byte list" where
  "cfg_msg ident rates = (let m = [0x06, 0x01, 0x08, 0x00, 0xF0, ident] @ rates in
     [0xB5, 0x62] @ m @ [sum_list m, sum_list (map (partial_sum m) [1..<length m + 1])])"

abbreviation on :: "byte list" where "on \<equiv> [0, 1, 0, 0, 0, 1]"
abbreviation off :: "byte list" where "off \<equiv> [0, 0, 0, 0, 0, 1]"

lemma cfg_msg_eq: "cfg_msg ident rates = [0xB5, 0x62] @ ([0x06, 0x01, 0x08, 0x00, 0xF0, ident] @ rates) @ gps_ubx_crc ([0x06, 0x01, 0x08, 0x00, 0xF0, ident] @ rates)"
  by (simp add: cfg_msg_def ubx_crc_eq Let_def del: upt_Suc)

lemma ubx_crcs:
  "gps_ubx_crc [0x06, 0x01, 0x08, 0x00, 0xF0, 0, 0, 1, 0, 0, 0, 1] = [0x01, 0x29]"
  "gps_ubx_crc [0x06, 0x01, 0x08, 0x00, 0xF0, 0, 0, 0, 0, 0, 0, 1] = [0x00, 0x24]"
  "gps_ubx_crc [0x06, 0x01, 0x08, 0x00, 0xF0, 1, 0, 1, 0, 0, 0, 1] = [0x02, 0x30]"
  "gps_ubx_crc [0x06, 0x01, 0x08, 0x00, 0xF0, 1, 0, 0, 0, 0, 0, 1] = [0x01, 0x2B]"
  "gps_ubx_crc [0x06, 0x01, 0x08, 0x00, 0xF0, 2, 0, 1, 0, 0, 0, 1] = [0x03, 0x37]"
  "gps_ubx_crc [0x06, 0x01, 0x08, 0x00, 0xF0, 2, 0, 0, 0, 0, 0, 1] = [0x02, 0x32]"
  "gps_ubx_crc [0x06, 0x01, 0x08, 0x00, 0xF0, 3, 0, 1, 0, 0, 0, 1] = [0x04, 0x3E]"
  "gps_ubx_crc [0x06, 0x01, 0x08, 0x00, 0xF0, 3, 0, 0, 0, 0, 0, 1] = [0x03, 0x39]"
  "gps_ubx_crc [0x06, 0x01, 0x08, 0x00, 0xF0, 4, 0, 1, 0, 0, 0, 1] = [0x05, 0x45]"
  "gps_ubx_crc [0x06, 0x01, 0x08, 0x00, 0xF0, 4, 0, 0, 0, 0, 0, 1] = [0x04, 0x40]"
  "gps_ubx_crc [0x06, 0x01, 0x08, 0x00, 0xF0, 5, 0, 1, 0, 0, 0, 1] = [0x06, 0x4C]"
  "gps_ubx_crc [0x06, 0x01, 0x08, 0x00, 0xF0, 5, 0, 0, 0, 0, 0, 1] = [0x05, 0x47]"
  "gps_ubx_crc [0x06, 0x01, 0x08, 0x00, 0xF0, 8, 0, 1, 0, 0, 0, 1] = [0x09, 0x61]"
  "gps_ubx_crc [0x06, 0x01, 0x08, 0x00, 0xF0, 8, 0, 0, 0, 0, 0, 1] = [0x08, 0x5C]"
  by (code_simp+)

text \<open>
  Every message that switches a sentence on or off is the documented one with a correct checksum, except that the one to switch GSA on switches it off; the message that sets the
  rate goes out without its checksum, whatever rate is asked for.
\<close>

theorem receiver_messages:
  "gps_gga_on os fd w = ubx_send os fd (cfg_msg 0 on) w \<and> gps_gga_off os fd w = ubx_send os fd (cfg_msg 0 off) w \<and>
   gps_gll_on os fd w = ubx_send os fd (cfg_msg 1 on) w \<and> gps_gll_off os fd w = ubx_send os fd (cfg_msg 1 off) w \<and>
   gps_gsa_on os fd w = ubx_send os fd (cfg_msg 2 off) w \<and> gps_gsa_off os fd w = ubx_send os fd (cfg_msg 2 off) w \<and>
   gps_gsv_on os fd w = ubx_send os fd (cfg_msg 3 on) w \<and> gps_gsv_off os fd w = ubx_send os fd (cfg_msg 3 off) w \<and>
   gps_rmc_on os fd w = ubx_send os fd (cfg_msg 4 on) w \<and> gps_rmc_off os fd w = ubx_send os fd (cfg_msg 4 off) w \<and>
   gps_vtg_on os fd w = ubx_send os fd (cfg_msg 5 on) w \<and> gps_vtg_off os fd w = ubx_send os fd (cfg_msg 5 off) w \<and>
   gps_zda_on os fd w = ubx_send os fd (cfg_msg 8 on) w \<and> gps_zda_off os fd w = ubx_send os fd (cfg_msg 8 off) w \<and>
   gps_set_rate os fd ms_rate w = ubx_send os fd [0xB5, 0x62, 0x06, 0x08, 0x06, 0x00, 0xFF, 0x0F, 0x01, 0x00, 0x00, 0x00] w"
  unfolding gps_gga_on_def gps_gga_off_def gps_gll_on_def gps_gll_off_def gps_gsa_on_def gps_gsa_off_def gps_gsv_on_def gps_gsv_off_def
    gps_rmc_on_def gps_rmc_off_def gps_vtg_on_def gps_vtg_off_def gps_zda_on_def gps_zda_off_def gps_set_rate_def cfg_msg_eq Let_def
  by (simp add: ubx_crcs [simplified])

section \<open>The time\<close>

lemma field_run:
  assumes "drop pos mem = f @ 44 # rest" "plain 44 f"
  shows "field mem (Some q) pos use s k = use q s \<bind> k (mem[pos + length f := 0]) (Some pos) (pos + length f + 1)"
  using strtok_field [OF assms(1), of 44] assms(2) by (simp add: field_def)

lemma two_digits_run:
  assumes "drop k mem = a # b # rest" "isdigit a" "isdigit b"
  shows "two_digits mem k = Some (int (digits_value [a, b]))"
proof -
  have "k + 2 \<le> length mem" using arg_cong [OF assms(1), of length] by simp
  then have "memcpy (replicate 32 0) 0 mem k 2 = Some ([a, b] @ 0 # replicate 29 0)"
    using assms(1) by (simp add: memcpy_def numeral_eq_Suc)
  moreover have "c_str ([a, b] @ 0 # replicate 29 0) 0 = Some [a, b]"
    using assms isdigit_not_space by (intro c_str_app) auto
  ultimately show ?thesis using atoi_digits [of "[a, b]"] assms by (simp add: two_digits_def)
qed

lemma digits_plain: "list_all isdigit f \<Longrightarrow> f \<noteq> [] \<Longrightarrow> plain 44 f"
  using isdigit_not_space by (auto simp: plain_def list_all_iff)

lemma atoi_field: "drop p mem = f @ 0 # r \<Longrightarrow> list_all isdigit f \<Longrightarrow> f \<noteq> [] \<Longrightarrow> atoi_at mem p = Some (int (digits_value f))"
  using c_str_drop [of p mem f r] digits_plain [of f] atoi_digits [of f] by (simp add: atoi_at_def plain_def)

definition zda_body :: "byte list \<Rightarrow> byte list \<Rightarrow> byte list \<Rightarrow> byte list \<Rightarrow> byte list \<Rightarrow> byte list \<Rightarrow> byte list" where
  "zda_body h t d m y z = h @ 44 # t @ 44 # d @ 44 # m @ 44 # y @ 44 # z"

text \<open>
  From a sentence that passes the test the time parser takes hour, minute and second from the first six digits of the second field and day, month and year from
  the next three. The hour is that of China without a carry into the date, so it runs up to 31.
\<close>

theorem gps_time_parsed:
  assumes f: "plain 44 (36 # h)" "list_all isdigit [h1, h2, m1, m2, s1, s2]" "0 \<notin> set t" "44 \<notin> set t"
      "list_all isdigit d" "d \<noteq> []" "list_all isdigit m" "m \<noteq> []" "list_all isdigit y" "y \<noteq> []" "0 \<notin> set z"
    and body: "body = zda_body h ([h1, h2, m1, m2, s1, s2] @ t) d m y z" and ck: "unat (xor_all body) < 160"
  shows "gps_get_tm (Some (sentence body @ 0 # rest)) tm =
    (let D = int (digits_value d); M = int (digits_value m); Y = int (digits_value y) in
     Some (0, tm\<lparr>tm_hour := int (digits_value [h1, h2]) + 8, tm_min := int (digits_value [m1, m2]), tm_sec := int (digits_value [s1, s2]),
       tm_mday := D, tm_mon := M, tm_year := Y, tm_yday := get_yday Y M D, tm_wday := wday_of Y M D\<rparr>))"
proof -
  let ?T = "[h1, h2, m1, m2, s1, s2] @ t" and ?z = "z @ [42, hx (unat (xor_all body) div 16), hx (unat (xor_all body) mod 16)]"
  let ?mem = "sentence body @ 0 # rest"
  have nz: "0 \<notin> set body"
    using f digits_plain isdigit_not_space by (auto simp: body zda_body_def plain_def list_all_iff)
  have ok: "sentence_ok ?mem = Some GPS_EOK" using sentence_ok_eq [OF nz] ck by simp
  have d0: "drop 0 ?mem = (36 # h) @ 44 # ?T @ 44 # d @ 44 # m @ 44 # y @ 44 # ?z @ 0 # rest"
    by (simp add: sentence_def body zda_body_def)
  obtain mem0 p1 where s0: "strtok ?mem 0 44 = Some (mem0, Some 0, p1)" "drop p1 mem0 = ?T @ 44 # d @ 44 # m @ 44 # y @ 44 # ?z @ 0 # rest"
    by (rule strtok_token [OF d0 f(1)]) (simp, blast)
  have T: "plain 44 ?T" using f(2-4) isdigit_not_space by (auto simp: plain_def)
  obtain mem1 p2 where s1: "strtok mem0 p1 44 = Some (mem1, Some p1, p2)" "drop p1 mem1 = ?T @ 0 # d @ 44 # m @ 44 # y @ 44 # ?z @ 0 # rest"
      "drop p2 mem1 = d @ 44 # m @ 44 # y @ 44 # ?z @ 0 # rest"
    by (rule strtok_token [OF s0(2) T]) (simp, blast)
  obtain mem2 p3 where s2: "strtok mem1 p2 44 = Some (mem2, Some p2, p3)" "drop p2 mem2 = d @ 0 # m @ 44 # y @ 44 # ?z @ 0 # rest"
      "drop p3 mem2 = m @ 44 # y @ 44 # ?z @ 0 # rest"
    by (rule strtok_token [OF s1(3) digits_plain [OF f(5,6)]]) (simp, blast)
  obtain mem3 p4 where s3: "strtok mem2 p3 44 = Some (mem3, Some p3, p4)" "drop p3 mem3 = m @ 0 # y @ 44 # ?z @ 0 # rest"
      "drop p4 mem3 = y @ 44 # ?z @ 0 # rest"
    by (rule strtok_token [OF s2(3) digits_plain [OF f(7,8)]]) (simp, blast)
  obtain mem4 p5 where s4: "strtok mem3 p4 44 = Some (mem4, Some p4, p5)" "drop p4 mem4 = y @ 0 # ?z @ 0 # rest" "drop p5 mem4 = ?z @ 0 # rest"
    by (rule strtok_token [OF s3(3) digits_plain [OF f(9,10)]]) (simp, blast)
  have "0 \<in> set (drop p5 mem4)" by (simp add: s4(3))
  then obtain r where s5: "strtok mem4 p5 44 = Some r" using strtok_returns [of p5 mem4 44] by auto
  have four: "length [h1, h2, m1, m2] = 4" by simp
  have "two_digits mem1 p1 = Some (int (digits_value [h1, h2]))" using s1(2) f(2) by (intro two_digits_run) auto
  moreover have "two_digits mem1 (p1 + 2) = Some (int (digits_value [m1, m2]))"
    using drop_further [of p1 mem1 "[h1, h2]"] s1(2) f(2) by (intro two_digits_run) auto
  moreover have "two_digits mem1 (p1 + 4) = Some (int (digits_value [s1, s2]))"
    using drop_further [of p1 mem1 "[h1, h2, m1, m2]" "s1 # s2 # t @ 0 # d @ 44 # m @ 44 # y @ 44 # ?z @ 0 # rest"] s1(2) f(2)
    unfolding four by (intro two_digits_run) auto
  ultimately show ?thesis
    using ok s0(1) s1(1) s2(1) s3(1) s4(1) s5 atoi_field [OF s2(2) f(5,6)] atoi_field [OF s3(2) f(7,8)] atoi_field [OF s4(2) f(9,10)]
    by (simp add: gps_get_tm_def field_def GPS_EOK_def Let_def split: prod.split)
qed

theorem gps_time_parsed_witness:
  "gps_get_tm (Some (sentence (zda_body (str ''GPZDA'') (str ''230405.00'') (str ''22'') (str ''12'') (str ''2016'') (str ''00,00'')) @ 0 # []))
      \<lparr>tm_sec = 0, tm_min = 0, tm_hour = 0, tm_mday = 0, tm_mon = 0, tm_year = 0, tm_wday = 0, tm_yday = 0\<rparr> =
    Some (0, \<lparr>tm_sec = 5, tm_min = 4, tm_hour = 31, tm_mday = 22, tm_mon = 12, tm_year = 2016, tm_wday = 4, tm_yday = 357\<rparr>)"
proof -
  let ?b = "zda_body (str ''GPZDA'') (str ''230405.00'') (str ''22'') (str ''12'') (str ''2016'') (str ''00,00'')"
  have t: "str ''230405.00'' = [50, 51, 48, 52, 48, 53] @ str ''.00''" by code_simp
  have ck: "unat (xor_all ?b) < 160" by code_simp
  have yd: "get_yday 2016 12 22 = 357" "wday_of 2016 12 22 = 4" by (simp_all add: yday_table leap_year_def wday_of_def sdiv_pos smod_pos)
  have v: "digits_value (str ''22'') = 22" "digits_value (str ''12'') = 12" "digits_value (str ''2016'') = 2016" "digits_value [50, 51] = 23"
    "digits_value [48, 52] = 4" "digits_value [48, 53] = 5" by code_simp+
  have "gps_get_tm (Some (sentence ?b @ 0 # [])) \<lparr>tm_sec = 0, tm_min = 0, tm_hour = 0, tm_mday = 0, tm_mon = 0, tm_year = 0, tm_wday = 0, tm_yday = 0\<rparr> =
    (let D = int (digits_value (str ''22'')); M = int (digits_value (str ''12'')); Y = int (digits_value (str ''2016'')) in
     Some (0, \<lparr>tm_sec = 0, tm_min = 0, tm_hour = 0, tm_mday = 0, tm_mon = 0, tm_year = 0, tm_wday = 0, tm_yday = 0\<rparr>
       \<lparr>tm_hour := int (digits_value [50, 51]) + 8, tm_min := int (digits_value [48, 52]), tm_sec := int (digits_value [48, 53]),
       tm_mday := D, tm_mon := M, tm_year := Y, tm_yday := get_yday Y M D, tm_wday := wday_of Y M D\<rparr>))"
    by (rule gps_time_parsed [where h = "str ''GPZDA''" and t = "str ''.00''" and z = "str ''00,00''", OF _ _ _ _ _ _ _ _ _ _ _ _ ck]) (simp_all add: plain_def t [symmetric], simp_all add: str_def isdigit_def zda_body_def)
  then show ?thesis by (simp add: v yd)
qed

end
