(* ===== verification/Modem.thy ===== *)
theory Modem
  imports Gps
begin

text \<open>
  The 4G modem (\<open>src/4G/4g.c\<close>, \<open>main.c\<close>): the AT commands, dialing, the position report and its parser, and the program. The serial line and \<open>system\<close> are a
  record of functions on an abstract world. The three buffers of 1024 octets and \<open>__ret\<close> are globals. A function gives \<open>Some (code, state)\<close>; \<open>None\<close> is an access outside
  a buffer or through a null pointer. Output is left out. Two functions end without a return statement; the value their callers see is an argument.
\<close>

section \<open>State\<close>

record modem =
  m_txbuf :: "byte list"
  m_rxbuf :: "byte list"
  m_buf :: "byte list"
  m_ret :: int

record 'w modem_os = "'w serial" +
  m_system :: "string \<Rightarrow> 'w \<Rightarrow> 'w"

record lib_4g_gga =
  g_latitude :: rat
  g_ns_indicator :: byte
  g_longitude :: rat
  g_ew_indicator :: byte
  g_status :: int
  g_satellite :: int

record gps_attr =
  attr_gga :: nat
  attr_tm :: nat

definition ECM_4G_UNCONNECT :: int where "ECM_4G_UNCONNECT = 0"
definition ECM_4G_CONNECT :: int where "ECM_4G_CONNECT = 1"
definition ECM_4G_SERIAL_ERROR :: int where "ECM_4G_SERIAL_ERROR = 2"
definition CARD_CMCC :: int where "CARD_CMCC = 1"
definition CARD_CUCC :: int where "CARD_CUCC = 2"
definition CARD_CTCC :: int where "CARD_CTCC = 3"
definition CARD_STATUS_READY :: int where "CARD_STATUS_READY = 1"
definition CARD_STATUS_SIM_PIN :: int where "CARD_STATUS_SIM_PIN = 2"
definition CARD_STATUS_NO_INSERTED :: int where "CARD_STATUS_NO_INSERTED = 3"
definition CARD_STATUS_NO_INSERTED_AND_ERROR :: int where "CARD_STATUS_NO_INSERTED_AND_ERROR = 4"

lemmas modem_codes = ECM_4G_UNCONNECT_def ECM_4G_CONNECT_def ECM_4G_SERIAL_ERROR_def CARD_CMCC_def CARD_CUCC_def CARD_CTCC_def
  CARD_STATUS_READY_def CARD_STATUS_SIM_PIN_def CARD_STATUS_NO_INSERTED_def CARD_STATUS_NO_INSERTED_AND_ERROR_def

section \<open>One command\<close>

text \<open>A command line and the lines of an answer: \<open>\r\n\<close> around the text.\<close>

definition at_line :: "string \<Rightarrow> byte list" where
  "at_line s = str s @ [13, 10]"

definition answer_line :: "string \<Rightarrow> byte list" where
  "answer_line s = [13, 10] @ str s @ [13, 10]"

text \<open>\<open>memset(txbuf, 0, 1024); strcpy(txbuf, cmd); __ret = lib_serial_send(fd, txbuf, strlen(txbuf))\<close>\<close>

definition at_send :: "('w, 'x) modem_os_scheme \<Rightarrow> int \<Rightarrow> byte list \<Rightarrow> modem \<times> 'w \<Rightarrow> int \<times> modem \<times> 'w" where
  "at_send os fd cmd s = (case s of (g, w) \<Rightarrow>
     let tx = cmd @ replicate (1024 - length cmd) 0 in
     case s_send os fd (take (strlen tx) tx) w of (ret, w) \<Rightarrow> (ret, g\<lparr>m_txbuf := tx, m_ret := ret\<rparr>, w))"

text \<open>\<open>memset(rxbuf, 0, 1024); __ret = lib_serial_readn_select(fd, rxbuf, 1024, ms)\<close>\<close>

definition at_read :: "('w, 'x) modem_os_scheme \<Rightarrow> int \<Rightarrow> int \<Rightarrow> modem \<times> 'w \<Rightarrow> int \<times> modem \<times> 'w" where
  "at_read os fd ms s = (case s of (g, w) \<Rightarrow>
     case s_read os fd 1024 ms w of (ret, bs, w) \<Rightarrow>
       (ret, g\<lparr>m_rxbuf := take 1024 (bs @ replicate 1024 0), m_ret := ret\<rparr>, w))"

text \<open>The statements common to the commands: \<open>Some r\<close> is a return of \<open>r\<close>, \<open>None\<close> goes on.\<close>

definition at_exchange :: "('w, 'x) modem_os_scheme \<Rightarrow> int \<Rightarrow> byte list \<Rightarrow> int \<Rightarrow> modem \<times> 'w \<Rightarrow> int option \<times> modem \<times> 'w" where
  "at_exchange os fd cmd ms s =
     (case at_send os fd cmd s of (ret, s) \<Rightarrow>
        if ret < 0 then (Some ret, s)
        else (case at_read os fd ms s of (ret, s) \<Rightarrow> if ret > 0 then (None, s) else (Some ret, s)))"

definition at_then :: "int option \<times> 's \<Rightarrow> ('s \<Rightarrow> (int \<times> 's) option) \<Rightarrow> (int \<times> 's) option" where
  "at_then m k = (case m of (Some r, s) \<Rightarrow> Some (r, s) | (None, s) \<Rightarrow> k s)"

definition set_ret :: "int \<Rightarrow> modem \<times> 'w \<Rightarrow> modem \<times> 'w" where
  "set_ret r s = (case s of (g, w) \<Rightarrow> (g\<lparr>m_ret := r\<rparr>, w))"

text \<open>\<open>strcmp\<close> with a literal is zero.\<close>

definition streq :: "byte list \<Rightarrow> byte list \<Rightarrow> bool" where
  "streq mem lit \<longleftrightarrow> take (length lit + 1) mem = lit @ [0]"

section \<open>Commands\<close>

definition lib_4g_ate0 :: "('w, 'x) modem_os_scheme \<Rightarrow> int \<Rightarrow> modem \<times> 'w \<Rightarrow> (int \<times> modem \<times> 'w) option" where
  "lib_4g_ate0 os fd s = at_then (at_exchange os fd (at_line ''ATE0'') 500 s) (\<lambda>s. Some (0, s))"

definition lib_4g_ecm_disconnect :: "('w, 'x) modem_os_scheme \<Rightarrow> int \<Rightarrow> modem \<times> 'w \<Rightarrow> (int \<times> modem \<times> 'w) option" where
  "lib_4g_ecm_disconnect os fd s = at_then (at_exchange os fd (at_line ''AT+ZECMCALL=0'') 500 s) (\<lambda>s. Some (0, s))"

definition lib_4g_ecm_connect :: "('w, 'x) modem_os_scheme \<Rightarrow> int \<Rightarrow> modem \<times> 'w \<Rightarrow> (int \<times> modem \<times> 'w) option" where
  "lib_4g_ecm_connect os fd s = at_then (at_exchange os fd (at_line ''AT+ZECMCALL=1'') 8000 s) (\<lambda>(g, w).
     if streq (m_rxbuf g) (answer_line ''+CME ERROR: unknown'') then Some (-1, g, w)
     else Some (0, g, m_system os ''udhcpc -i usb0'' w))"

definition lib_4g_ecm_connect_status :: "('w, 'x) modem_os_scheme \<Rightarrow> int \<Rightarrow> modem \<times> 'w \<Rightarrow> (int \<times> modem \<times> 'w) option" where
  "lib_4g_ecm_connect_status os fd s =
     (case at_exchange os fd (at_line ''AT+ZECMCALL?'') 500 s of
        (Some r, s) \<Rightarrow> Some (ECM_4G_SERIAL_ERROR, s)
      | (None, g, w) \<Rightarrow> if m_ret g > 20 then Some (ECM_4G_CONNECT, g, w) else Some (ECM_4G_UNCONNECT, g, w))"

text \<open>The command built from the key in a local array of 30 octets is not the one that is sent.\<close>

definition lib_4g_decode :: "('w, 'x) modem_os_scheme \<Rightarrow> int \<Rightarrow> byte list \<Rightarrow> modem \<times> 'w \<Rightarrow> (int \<times> modem \<times> 'w) option" where
  "lib_4g_decode os fd key s =
     (let command = str ''AT+CPIN='' @ [34] @ key @ [34, 13, 10] in
      if length command + 1 > 30 then None
      else at_then (at_exchange os fd (str ''AT+CPIN='' @ [34] @ str ''0609'' @ [34, 13, 10]) 2000 s) (\<lambda>s. Some (0, s)))"

definition lib_4g_restart :: "('w, 'x) modem_os_scheme \<Rightarrow> int \<Rightarrow> modem \<times> 'w \<Rightarrow> (int \<times> modem \<times> 'w) option" where
  "lib_4g_restart os fd s = at_then (at_exchange os fd (at_line ''AT+CFUN=1,1'') 500 s) (\<lambda>s. Some (0, s))"

definition lib_4g_setECMforWindows_and_restart :: "('w, 'x) modem_os_scheme \<Rightarrow> int \<Rightarrow> modem \<times> 'w \<Rightarrow> (int \<times> modem \<times> 'w) option" where
  "lib_4g_setECMforWindows_and_restart os fd s =
     at_then (at_exchange os fd (at_line ''AT+ZSWITCH=X'') 500 s) (\<lambda>s. do { (r, s) \<leftarrow> lib_4g_restart os fd s; Some (0, s) })"

definition lib_4g_setECMforLinux_and_restart :: "('w, 'x) modem_os_scheme \<Rightarrow> int \<Rightarrow> modem \<times> 'w \<Rightarrow> (int \<times> modem \<times> 'w) option" where
  "lib_4g_setECMforLinux_and_restart os fd s =
     at_then (at_exchange os fd (at_line ''AT+ZSWITCH=L'') 500 s) (\<lambda>s. do { (r, s) \<leftarrow> lib_4g_restart os fd s; Some (0, s) })"

text \<open>\<open>strcpy(buf, rxbuf)\<close>\<close>

definition copy_answer :: "modem \<Rightarrow> byte list option" where
  "copy_answer g = do { t \<leftarrow> c_str (m_rxbuf g) 0; memcpy (m_buf g) 0 (t @ [0]) 0 (length t + 1) }"

text \<open>The second of two tokens: \<open>p = strtok(buf, d1); if (p) p = strtok(NULL, d2);\<close>\<close>

definition second_token :: "byte list \<Rightarrow> byte \<Rightarrow> byte \<Rightarrow> (byte list \<times> nat option) option" where
  "second_token mem d1 d2 = do {
     (mem, p, pos) \<leftarrow> strtok mem 0 d1;
     if p = None then Some (mem, None)
     else do { (mem, p, pos) \<leftarrow> strtok mem pos d2; Some (mem, p) }
   }"

definition lib_4g_get_csq :: "('w, 'x) modem_os_scheme \<Rightarrow> int \<Rightarrow> modem \<times> 'w \<Rightarrow> (int \<times> modem \<times> 'w) option" where
  "lib_4g_get_csq os fd s = at_then (at_exchange os fd (at_line ''AT+CSQ'') 500 s) (\<lambda>(g, w). do {
     mem \<leftarrow> copy_answer g;
     (mem, p) \<leftarrow> second_token mem 32 44;
     q \<leftarrow> p;
     t \<leftarrow> c_str mem q;
     Some (atoi t, g\<lparr>m_buf := mem\<rparr>, w)
   })"

definition lib_4g_check_cpin :: "('w, 'x) modem_os_scheme \<Rightarrow> int \<Rightarrow> modem \<times> 'w \<Rightarrow> (int \<times> modem \<times> 'w) option" where
  "lib_4g_check_cpin os fd s = at_then (at_exchange os fd (at_line ''AT+CPIN?'') 500 s) (\<lambda>(g, w).
     if streq (m_rxbuf g) (answer_line ''+CPIN: READY'' @ answer_line ''OK'') then Some (CARD_STATUS_READY, g, w)
     else if streq (m_rxbuf g) (answer_line ''+CPIN: SIM PIN'' @ answer_line ''OK'') then Some (CARD_STATUS_SIM_PIN, g, w)
     else if streq (m_rxbuf g) (answer_line ''+CME ERROR: SIM not inserted'') then Some (CARD_STATUS_NO_INSERTED, g, w)
     else if streq (m_rxbuf g) (answer_line ''+CME ERROR: 10'') then Some (CARD_STATUS_NO_INSERTED_AND_ERROR, g, w)
     else Some (0, g, w))"

text \<open>Here a failed send is only reported.\<close>

definition lib_4g_check_cops :: "('w, 'x) modem_os_scheme \<Rightarrow> int \<Rightarrow> modem \<times> 'w \<Rightarrow> (int \<times> modem \<times> 'w) option" where
  "lib_4g_check_cops os fd s =
     (case at_send os fd (at_line ''AT+COPS?'') s of (ret, s) \<Rightarrow>
      case at_read os fd 500 s of (ret, g, w) \<Rightarrow>
      if ret > 0 then
        (if ret < 20 then Some (ret, g, w)
         else do {
           mem \<leftarrow> copy_answer g;
           (mem, p) \<leftarrow> second_token mem 34 34;
           q \<leftarrow> p;
           t \<leftarrow> c_str mem q;
           let g = g\<lparr>m_buf := mem\<rparr>;
           if t = str ''CMCC'' then Some (CARD_CMCC, g, w)
           else if t = str ''????'' then Some (CARD_CTCC, g, w)
           else if t = str ''CHN-UNICOM'' then Some (CARD_CUCC, g, w)
           else Some (0, g, w)
         })
      else Some (0, g, w))"

text \<open>The value of a function that ends without a return statement is \<open>junk\<close>.\<close>

definition lib_4g_zpas :: "('w, 'x) modem_os_scheme \<Rightarrow> int \<Rightarrow> int \<Rightarrow> modem \<times> 'w \<Rightarrow> (int \<times> modem \<times> 'w) option" where
  "lib_4g_zpas os junk fd s = at_then (at_exchange os fd (at_line ''AT+ZPAS?'') 500 s) (\<lambda>s. Some (junk, s))"

definition lib_4g_get_basic_info :: "('w, 'x) modem_os_scheme \<Rightarrow> int \<Rightarrow> modem \<times> 'w \<Rightarrow> (int \<times> modem \<times> 'w) option" where
  "lib_4g_get_basic_info os fd s =
     at_then (at_exchange os fd (at_line ''AT+CEREG?'') 500 s) (\<lambda>s.
     at_then (at_exchange os fd (at_line ''AT+CGMR'') 500 s) (\<lambda>s.
     at_then (at_exchange os fd (at_line ''ATI'') 500 s) (\<lambda>s. Some (0, s))))"

definition lib_4g_zsnt :: "('w, 'x) modem_os_scheme \<Rightarrow> int \<Rightarrow> int \<Rightarrow> modem \<times> 'w \<Rightarrow> (int \<times> modem \<times> 'w) option" where
  "lib_4g_zsnt os junk fd s = at_then (at_exchange os fd (at_line ''AT+ZSNT=6,0,0'') 500 s) (\<lambda>s. Some (junk, s))"

section \<open>Dialing\<close>

definition dial :: "('w, 'x) modem_os_scheme \<Rightarrow> int \<Rightarrow> int \<Rightarrow> byte list \<Rightarrow> modem \<times> 'w \<Rightarrow> (int \<times> modem \<times> 'w) option" where
  "dial os junk fd cmd s = do {
     (ret, s) \<leftarrow> lib_4g_zsnt os junk fd s;
     let s = set_ret ret s;
     if ret < 0 then Some (-1, s)
     else at_then (at_exchange os fd cmd 500 s) (\<lambda>s. do {
       (ret, s) \<leftarrow> lib_4g_ecm_connect os fd s;
       let s = set_ret ret s;
       if ret < 0 then Some (-1, s) else Some (0, s)
     })
   }"

definition lib_4g_CMCC_dialing :: "('w, 'x) modem_os_scheme \<Rightarrow> int \<Rightarrow> int \<Rightarrow> modem \<times> 'w \<Rightarrow> (int \<times> modem \<times> 'w) option" where
  "lib_4g_CMCC_dialing os junk fd s =
     dial os junk fd (str ''AT+CGDCONT=1,'' @ [34] @ str ''IP'' @ [34, 44, 34] @ str ''CMNET'' @ [34, 13, 10]) s"

definition lib_4g_CUCC_CTCC_dialing :: "('w, 'x) modem_os_scheme \<Rightarrow> int \<Rightarrow> int \<Rightarrow> modem \<times> 'w \<Rightarrow> (int \<times> modem \<times> 'w) option" where
  "lib_4g_CUCC_CTCC_dialing os junk fd s =
     dial os junk fd (str ''AT+CGDCONT=1,'' @ [34] @ str ''IP'' @ [34, 13, 10]) s"

section \<open>Position\<close>

definition lib_4g_getGPS_init :: "('w, 'x) modem_os_scheme \<Rightarrow> int \<Rightarrow> modem \<times> 'w \<Rightarrow> (int \<times> modem \<times> 'w) option" where
  "lib_4g_getGPS_init os fd s =
     at_then (at_exchange os fd (at_line ''AT+ZGINIT'') 500 s) (\<lambda>s.
     at_then (at_exchange os fd (at_line ''AT+ZGFIXRATE=2,5'') 500 s) (\<lambda>s.
     at_then (at_exchange os fd (at_line ''AT+ZGQOS=50,255'') 500 s) (\<lambda>s.
     at_then (at_exchange os fd (at_line ''AT+ZGPSR=1'') 500 s) (\<lambda>s.
     at_then (at_exchange os fd (at_line ''AT+ZGMODE=3'') 500 s) (\<lambda>s. Some (0, s))))))"

text \<open>\<open>out\<close> is the caller's array.\<close>

definition lib_4g_get_gps_info :: "('w, 'x) modem_os_scheme \<Rightarrow> int \<Rightarrow> byte list \<Rightarrow> int \<Rightarrow> modem \<times> 'w \<Rightarrow> (int \<times> byte list \<times> modem \<times> 'w) option" where
  "lib_4g_get_gps_info os fd out msec s =
     (case at_exchange os fd (at_line ''AT+ZGRUN=1'') 500 s of
        (Some r, s) \<Rightarrow> Some (r, out, s)
      | (None, s) \<Rightarrow>
          (case at_read os fd msec s of (ret, g, w) \<Rightarrow>
             if ret > 0 then do { out \<leftarrow> memcpy out 0 (m_rxbuf g) 0 (nat ret); Some (0, out, g, w) }
             else Some (ret, out, g, w)))"

text \<open>The calendar functions are those of theory \<open>Calendar\<close> but for \<open>monthday\<close>, which here ends without a return for a month it does not know.\<close>

definition modem_monthday :: "(int \<Rightarrow> int) \<Rightarrow> int \<Rightarrow> int \<Rightarrow> int" where
  "modem_monthday junk m team =
     (if m = 1 \<or> m = 3 \<or> m = 5 \<or> m = 7 \<or> m = 8 \<or> m = 10 \<or> m = 12 then 31
      else if m = 4 \<or> m = 6 \<or> m = 9 \<or> m = 11 then 30
      else if m = 2 \<and> team = 1 then 29
      else if m = 2 \<and> team = 0 then 28
      else junk m)"

function modem_yday_loop :: "(int \<Rightarrow> int) \<Rightarrow> int \<Rightarrow> int \<Rightarrow> int \<Rightarrow> int \<Rightarrow> int" where
  "modem_yday_loop junk team mon m d = (if m < mon then modem_yday_loop junk team mon (m + 1) (d + modem_monthday junk m team) else d)"
  by pat_completeness auto
termination by (relation "measure (\<lambda>(junk, team, mon, m, d). nat (mon - m))") auto

declare modem_yday_loop.simps [simp del]

definition modem_get_yday :: "(int \<Rightarrow> int) \<Rightarrow> int \<Rightarrow> int \<Rightarrow> int \<Rightarrow> int" where
  "modem_get_yday junk year mon day = (let team = leap year; d = modem_yday_loop junk team mon 1 0 in day + d)"

text \<open>\<open>(int)temp % 100\<close>, and division of a \<open>double\<close> by 100.\<close>

definition low2 :: "rat \<Rightarrow> int" where
  "low2 temp = to_int temp smod 100"

definition shift2 :: "rat \<Rightarrow> rat" where
  "shift2 temp = f64 (temp / 100)"

definition set_utc :: "rat \<Rightarrow> gps_tm \<Rightarrow> gps_tm" where
  "set_utc temp tm =
     (let tm = tm\<lparr>tm_sec := low2 temp\<rparr>; temp = shift2 temp;
          tm = tm\<lparr>tm_min := low2 temp\<rparr>; temp = shift2 temp
      in tm\<lparr>tm_hour := low2 temp + 8\<rparr>)"

definition set_date :: "(int \<Rightarrow> int) \<Rightarrow> rat \<Rightarrow> gps_tm \<Rightarrow> gps_tm" where
  "set_date junk temp tm =
     (let tm = tm\<lparr>tm_year := low2 temp + 2000 - 1900\<rparr>; temp = shift2 temp;
          tm = tm\<lparr>tm_mon := low2 temp\<rparr>; temp = shift2 temp;
          tm = tm\<lparr>tm_mday := low2 temp\<rparr>;
          tm = tm\<lparr>tm_yday := modem_get_yday junk (tm_year tm) (tm_mon tm) (tm_mday tm)\<rparr>
      in tm\<lparr>tm_wday := wday_of (tm_year tm) (tm_mon tm) (tm_mday tm)\<rparr>)"

text \<open>A token that is only printed.\<close>

definition skip :: "byte list \<Rightarrow> nat \<Rightarrow> 's \<Rightarrow> 's option" where
  "skip mem q s = Some s"

definition utc_field :: "byte list \<Rightarrow> nat \<Rightarrow> gps_tm \<times> lib_4g_gga \<Rightarrow> (gps_tm \<times> lib_4g_gga) option" where
  "utc_field mem q s = do { t \<leftarrow> c_str mem q; Some (map_prod (set_utc (atof t)) id s) }"

text \<open>A token is never empty, so the last character exists.\<close>

definition latitude_field :: "byte list \<Rightarrow> nat \<Rightarrow> gps_tm \<times> lib_4g_gga \<Rightarrow> (gps_tm \<times> lib_4g_gga) option" where
  "latitude_field mem q s = do { t \<leftarrow> c_str mem q; Some (map_prod id (\<lambda>g. g\<lparr>g_latitude := shift2 (atof t), g_ns_indicator := last t\<rparr>) s) }"

definition longitude_field :: "byte list \<Rightarrow> nat \<Rightarrow> gps_tm \<times> lib_4g_gga \<Rightarrow> (gps_tm \<times> lib_4g_gga) option" where
  "longitude_field mem q s = do { t \<leftarrow> c_str mem q; Some (map_prod id (\<lambda>g. g\<lparr>g_longitude := shift2 (atof t), g_ew_indicator := last t\<rparr>) s) }"

definition date_field :: "(int \<Rightarrow> int) \<Rightarrow> byte list \<Rightarrow> nat \<Rightarrow> gps_tm \<times> lib_4g_gga \<Rightarrow> (gps_tm \<times> lib_4g_gga) option" where
  "date_field junk mem q s = do { t \<leftarrow> c_str mem q; Some (map_prod (set_date junk (atof t)) id s) }"

definition satellite_field :: "byte list \<Rightarrow> nat \<Rightarrow> gps_tm \<times> lib_4g_gga \<Rightarrow> (gps_tm \<times> lib_4g_gga) option" where
  "satellite_field mem q s = do { v \<leftarrow> atoi_at mem q; Some (map_prod id (\<lambda>g. g\<lparr>g_satellite := v\<rparr>) s) }"

text \<open>
  The statements \<open>if (p) { use; p = strtok(NULL, ",") } else return -1\<close> of the fields from the time on: the position accuracy, height, mode, course and the two speeds
  are only printed.
\<close>

fun chain :: "(byte list \<Rightarrow> nat \<Rightarrow> 's \<Rightarrow> 's option) list \<Rightarrow> byte list \<Rightarrow> nat option \<Rightarrow> nat \<Rightarrow> 's \<Rightarrow> (int \<times> 's) option" where
  "chain [] mem p pos s = Some (0, s)"
| "chain (use # uses) mem p pos s = field mem p pos (use mem) s (chain uses)"

definition zgpsr_fields :: "(int \<Rightarrow> int) \<Rightarrow> (byte list \<Rightarrow> nat \<Rightarrow> gps_tm \<times> lib_4g_gga \<Rightarrow> (gps_tm \<times> lib_4g_gga) option) list" where
  "zgpsr_fields junk = [utc_field, latitude_field, longitude_field, skip, skip, skip, skip, skip, skip, date_field junk, satellite_field]"

definition lib_4g_analytic_zgpsr :: "(int \<Rightarrow> int) \<Rightarrow> byte list \<Rightarrow> gps_tm \<Rightarrow> lib_4g_gga \<Rightarrow> gps_attr \<Rightarrow> (int \<times> gps_tm \<times> lib_4g_gga \<times> gps_attr) option" where
  "lib_4g_analytic_zgpsr junk rxbuf tm gga attr = do {
     (mem, p, pos) \<leftarrow> strtok rxbuf 0 10;
     (mem, p, pos) \<leftarrow> strtok mem pos 32;
     case p of
       None \<Rightarrow> Some (-1, tm, gga, attr)
     | Some q \<Rightarrow> do {
         t \<leftarrow> c_str mem q;
         if t \<noteq> str ''+ZGPSR:'' then Some (-1, tm, gga\<lparr>g_status := 0\<rparr>, attr)
         else do {
           let gga = gga\<lparr>g_status := 1\<rparr>;
           (mem, p, pos) \<leftarrow> strtok mem pos 44;
           (ret, tm, gga) \<leftarrow> chain (zgpsr_fields junk) mem p pos (tm, gga);
           if ret < 0 then Some (ret, tm, gga, attr)
           else Some (0, tm, gga, attr\<lparr>attr_gga := 1, attr_tm := 1\<rparr>)
         }
       }
   }"

section \<open>The program\<close>

text \<open>
  The state of the card as \<open>main\<close> asks for it: \<open>Some r\<close> is a return of \<open>r\<close>. \<open>need\<close> tells whether the card waits for its number.
\<close>

definition card_check :: "('w, 'x) modem_os_scheme \<Rightarrow> int \<Rightarrow> modem \<times> 'w \<Rightarrow> (int option \<times> bool \<times> modem \<times> 'w) option" where
  "card_check os fd s = do {
     (ret, s) \<leftarrow> lib_4g_check_cpin os fd s;
     if ret < 0 then Some (None, False, s)
     else if ret = CARD_STATUS_READY then Some (None, False, s)
     else if ret = CARD_STATUS_SIM_PIN then Some (None, True, s)
     else Some (Some (-1), False, s)
   }"

definition operator_dial :: "('w, 'x) modem_os_scheme \<Rightarrow> int \<Rightarrow> int \<Rightarrow> int \<Rightarrow> int \<times> modem \<times> 'w \<Rightarrow> (int \<times> modem \<times> 'w) option" where
  "operator_dial os junk fd card_type s =
     (if card_type = CARD_CMCC then lib_4g_CMCC_dialing os junk fd (snd s)
      else if card_type = CARD_CUCC \<or> card_type = CARD_CTCC then lib_4g_CUCC_CTCC_dialing os junk fd (snd s)
      else Some s)"

text \<open>From the signal strength to the end.\<close>

definition modem_dial_up :: "('w, 'x) modem_os_scheme \<Rightarrow> int \<Rightarrow> lib_serial \<Rightarrow> modem \<times> 'w \<Rightarrow> (int \<times> modem \<times> 'w) option" where
  "modem_dial_up os junk serial s = do {
     (rssi, s) \<leftarrow> lib_4g_get_csq os (sfd serial) s;
     (ret, s) \<leftarrow> lib_4g_check_cops os (sfd serial) s;
     let card_type = (if ret < 0 then 0 else ret);
     (ret, g, w) \<leftarrow> operator_dial os junk (sfd serial) card_type (ret, s);
     Some (0, g, s_close os serial w)
   }"

definition DEV_NAME :: "byte list" where
  "DEV_NAME = str ''/dev/MC27161''"

definition modem_main :: "('w, 'x) modem_os_scheme \<Rightarrow> int \<Rightarrow> lib_serial option \<Rightarrow> modem \<times> 'w \<Rightarrow> (int \<times> modem \<times> 'w) option" where
  "modem_main os junk alloc s = do {
     serial \<leftarrow> alloc;
     path \<leftarrow> memcpy (pathname serial) 0 (DEV_NAME @ [0]) 0 (length DEV_NAME + 1);
     let serial = serial\<lparr>pathname := path, flags := O_RDWR, speed := 115200, databits := 8, stopbits := 1\<rparr>;
     case s of (g, w) \<Rightarrow>
     case s_init os serial w of (ret, serial, w) \<Rightarrow>
     if ret < 0 then Some (-1, g, w)
     else do {
       (ret, s) \<leftarrow> lib_4g_ate0 os (sfd serial) (g, w);
       (r, need, s) \<leftarrow> card_check os (sfd serial) s;
       case r of
         Some r \<Rightarrow> Some (r, s)
       | None \<Rightarrow>
           if need then do {
             (ret, s) \<leftarrow> lib_4g_decode os (sfd serial) (str ''0609'') s;
             (r, need, s) \<leftarrow> card_check os (sfd serial) s;
             case r of Some r \<Rightarrow> Some (r, s) | None \<Rightarrow> modem_dial_up os junk serial s
           }
           else modem_dial_up os junk serial s
     }
   }"

end
