(* ===== verification/CFloat.thy ===== *)
theory CFloat
  imports CString
begin

text \<open>
  Bounds for the floating-point rounding of theory \<open>CString\<close>: for numbers below a million the result of \<open>double\<close> arithmetic stays on the same side of every
  integer and within \<open>2\<close> to the \<open>-34\<close> of the exact value, so that decimal digits can be taken off by division and truncation.
\<close>

lemma round_even_bounds: "\<lfloor>x\<rfloor> \<le> round_even x" "round_even x \<le> \<lceil>x\<rceil>" "\<bar>of_int (round_even x) - x\<bar> \<le> 1 / 2"
proof -
  have f: "of_int \<lfloor>x\<rfloor> \<le> x" "x < of_int \<lfloor>x\<rfloor> + 1" by (simp, rule floor_correct [THEN conjunct2, simplified])
  show "\<lfloor>x\<rfloor> \<le> round_even x" by (simp add: round_even_def Let_def)
  have "\<lceil>x\<rceil> = \<lfloor>x\<rfloor> + 1" if "x - of_int \<lfloor>x\<rfloor> \<ge> 1 / 2" using that f by (intro ceiling_unique) auto
  then show "round_even x \<le> \<lceil>x\<rceil>" using floor_le_ceiling [of x] by (auto simp: round_even_def Let_def)
  show "\<bar>of_int (round_even x) - x\<bar> \<le> 1 / 2"
  proof -
    have "round_even x = \<lfloor>x\<rfloor> \<and> x - of_int \<lfloor>x\<rfloor> \<le> 1 / 2 \<or> round_even x = \<lfloor>x\<rfloor> + 1 \<and> 1 / 2 \<le> x - of_int \<lfloor>x\<rfloor>"
      unfolding round_even_def Let_def by simp
    then show ?thesis using f unfolding abs_le_iff by (elim disjE conjE) (simp_all only: of_int_add of_int_1, linarith+)
  qed
qed

lemma bits_of_bounds: "0 < n \<Longrightarrow> 2 ^ (bits_of n - 1) \<le> n \<and> n < 2 ^ bits_of n \<and> 0 < bits_of n"
proof (induction n rule: bits_of.induct)
  case (1 n)
  show ?case
  proof (cases "n div 2 = 0")
    case True
    then have "n = 1" using 1(2) by auto
    then show ?thesis by (simp add: bits_of.simps)
  next
    case False
    then have ih: "2 ^ (bits_of (n div 2) - 1) \<le> n div 2 \<and> n div 2 < 2 ^ bits_of (n div 2) \<and> 0 < bits_of (n div 2)" using 1 by auto
    then obtain k where k: "bits_of (n div 2) = Suc k" by (auto simp: gr0_conv_Suc)
    have "bits_of n = Suc (Suc k)" using 1(2) k by (subst bits_of.simps) simp
    then show ?thesis using ih k by auto
  qed
qed

text \<open>The exponent is that of the leading bit.\<close>

lemma fl_exp_le:
  assumes "0 < q"
  shows "2 powi fl_exp q \<le> q"
proof -
  obtain n d where nd: "quotient_of q = (n, d)" by fastforce
  have d: "0 < d" using quotient_of_denom_pos [OF nd] .
  have q: "q = of_int n / of_int d" using quotient_of_div [OF nd] .
  have n: "0 < n" using assms d by (simp add: q zero_less_divide_iff)
  let ?bn = "bits_of (nat n)" and ?bd = "bits_of (nat d)"
  let ?e = "int ?bn - int ?bd"
  have bn: "2 ^ (?bn - 1) \<le> nat n" "0 < ?bn" using bits_of_bounds [of "nat n"] n by auto
  have bd: "nat d < 2 ^ ?bd" using bits_of_bounds [of "nat d"] d by auto
  have "(2 :: rat) ^ (?bn - 1) \<le> of_int n" using bn(1) n by (metis of_nat_nat of_nat_le_iff of_nat_numeral of_nat_power order_less_imp_le of_int_of_nat_eq)
  moreover have "of_int d \<le> (2 :: rat) ^ ?bd" using bd d by (metis of_nat_nat of_nat_le_iff of_nat_numeral of_nat_power order_less_imp_le of_int_of_nat_eq)
  ultimately have "(2 :: rat) ^ (?bn - 1) / 2 ^ ?bd \<le> q" using d n unfolding q by (intro frac_le) auto
  moreover have "(2 :: rat) ^ (?bn - 1) / 2 ^ ?bd = 2 powi (?e - 1)"
  proof -
    have "?e - 1 = int (?bn - 1) - int ?bd" using bn(2) by simp
    moreover have "(2 :: rat) powi (int (?bn - 1) - int ?bd) = 2 ^ (?bn - 1) / 2 ^ ?bd" by (subst power_int_diff) simp_all
    ultimately show ?thesis by (simp only:)
  qed
  ultimately have "2 powi (?e - 1) \<le> q" by simp
  moreover have "fl_exp q = (if q < 2 powi ?e then ?e - 1 else ?e)" using n d assms by (simp add: fl_exp_def nd Let_def)
  ultimately show ?thesis by (auto split: if_splits)
qed

lemma fl_exp_less: "0 < q \<Longrightarrow> q < 2 ^ n \<Longrightarrow> fl_exp q < int n"
proof -
  assume q: "0 < q" "q < 2 ^ n"
  have "(2 :: rat) powi fl_exp q < 2 powi int n" using fl_exp_le [OF q(1)] q(2) by simp
  then show ?thesis using power_int_increasing [of "int n" "fl_exp q" "2 :: rat"] by linarith
qed

text \<open>The rounded number is the nearest multiple of a power of two, and the power is at most \<open>2\<close> to the \<open>-33\<close>.\<close>

lemma f64_multiple:
  assumes "0 \<le> q" "q < 2 ^ 20"
  obtains k where "33 \<le> k" "f64 q = of_int (round_even (q * 2 ^ k)) / 2 ^ k"
proof (cases "q = 0")
  case True
  then show ?thesis using that [of 33] by (simp add: f64_def fl_def round_even_def)
next
  case False
  then have e: "fl_exp q < 20" using fl_exp_less [of q 20] assms by simp
  define k where "k = nat (52 - fl_exp q)"
  have "fl_exp q + 1 - int 53 = - int k" using e by (simp add: k_def)
  then have "f64 q = of_int (round_even (q / (2 powi (- int k)))) * 2 powi (- int k)"
    unfolding f64_def fl_def using False by (simp only: Let_def if_False)
  then have "f64 q = of_int (round_even (q * 2 ^ k)) / 2 ^ k" by (simp add: power_int_minus field_simps)
  moreover have "33 \<le> k" using e by (simp add: k_def)
  ultimately show ?thesis using that by blast
qed

lemma f64_bounds:
  assumes "0 \<le> q" "q < 2 ^ 20"
  shows "of_int n \<le> q \<Longrightarrow> of_int n \<le> f64 q" "\<bar>f64 q - q\<bar> \<le> 1 / 2 ^ 34"
proof -
  obtain k where k: "33 \<le> k" "f64 q = of_int (round_even (q * 2 ^ k)) / 2 ^ k" using f64_multiple [OF assms] .
  let ?r = "of_int (round_even (q * 2 ^ k)) :: rat"
  show "of_int n \<le> f64 q" if "of_int n \<le> q"
  proof -
    have "of_int (n * 2 ^ k) \<le> q * 2 ^ k" using that by simp
    then have "n * 2 ^ k \<le> \<lfloor>q * 2 ^ k\<rfloor>" by (simp only: le_floor_iff)
    then have "n * 2 ^ k \<le> round_even (q * 2 ^ k)" using round_even_bounds(1) order_trans by blast
    then have "(of_int (n * 2 ^ k) :: rat) \<le> ?r" by (simp only: of_int_le_iff)
    then show ?thesis unfolding k(2) by (simp add: pos_le_divide_eq)
  qed
  have "\<bar>f64 q - q\<bar> = \<bar>?r - q * 2 ^ k\<bar> / 2 ^ k" unfolding k(2) by (simp add: field_simps abs_divide flip: diff_divide_distrib)
  also have "\<dots> \<le> (1 / 2) / 2 ^ k" using round_even_bounds(3) by (intro divide_right_mono) auto
  also have "\<dots> \<le> (1 / 2) / 2 ^ 33" using k(1) by (intro divide_left_mono power_increasing) auto
  finally show "\<bar>f64 q - q\<bar> \<le> 1 / 2 ^ 34" by simp
qed

section \<open>Digits\<close>

text \<open>\<open>holds n r t\<close>: the number \<open>t\<close> has the integer part \<open>n\<close>, and at least \<open>r\<close> is missing to the next one.\<close>

definition holds :: "int \<Rightarrow> rat \<Rightarrow> rat \<Rightarrow> bool" where
  "holds n r t \<longleftrightarrow> of_int n \<le> t \<and> t \<le> of_int n + 1 - r"

lemma holds_round:
  assumes "holds n r q" "0 \<le> n" "n < 1000000" "0 \<le> r"
  shows "holds n (r - 1 / 2 ^ 34) (f64 q)"
proof -
  have q: "of_int n \<le> q" "q \<le> of_int n + 1 - r" using assms(1) by (simp_all add: holds_def)
  have "0 \<le> q" using q(1) assms(2) by (metis of_int_0_le_iff order_trans)
  moreover have "(of_int n :: rat) \<le> of_int 999999" using assms(3) by (simp only: of_int_le_iff)
  then have "q < 2 ^ 20" using q(2) assms(4) by simp
  ultimately have b: "of_int n \<le> f64 q" "\<bar>f64 q - q\<bar> \<le> 1 / 2 ^ 34" using f64_bounds q(1) by blast+
  have "f64 q \<le> q + 1 / 2 ^ 34" using abs_le_D1 [OF b(2)] by linarith
  then show ?thesis using b(1) q(2) unfolding holds_def by linarith
qed

lemma holds_div100:
  assumes "holds n r t" "0 \<le> n"
  shows "holds (n div 100) (r / 100) (t / 100)"
proof -
  have d: "of_int n = of_int (n div 100) * 100 + (of_int (n mod 100) :: rat)" by (metis div_mult_mod_eq of_int_add of_int_mult of_int_numeral)
  have "n mod 100 \<le> 99" "0 \<le> n mod 100" using pos_mod_bound [of 100 n] by simp_all
  then have m: "(of_int (n mod 100) :: rat) \<le> 99" "(0 :: rat) \<le> of_int (n mod 100)" by simp_all
  have "of_int n \<le> t" "t \<le> of_int n + 1 - r" using assms(1) by (simp_all add: holds_def)
  then show ?thesis using d m unfolding holds_def by linarith
qed

lemma holds_to_int: "holds n r t \<Longrightarrow> 0 \<le> n \<Longrightarrow> 0 < r \<Longrightarrow> to_int t = n"
proof -
  assume h: "holds n r t" "0 \<le> n" "0 < r"
  then have "of_int n \<le> t" "t < of_int n + 1" by (simp_all add: holds_def)
  then have "\<lfloor>t\<rfloor> = n" by (rule floor_unique)
  moreover have "0 \<le> t" using h by (metis holds_def of_int_0_le_iff order_trans)
  ultimately show ?thesis by (simp add: to_int_def)
qed

end
