(* ===== verification/ModemGps.thy ===== *)
theory ModemGps
  imports Modem CFloat
begin

text \<open>
  The parser of the modem's position report: the digits it takes by \<open>double\<close> arithmetic are the digits of the text, and what becomes of a whole report.
\<close>

section \<open>Decimal text\<close>

lemma digits_value_append: "digits_value (xs @ ys) = digits_value xs * 10 ^ length ys + digits_value ys"
proof (induction ys rule: rev_induct)
  case (snoc y ys)
  have "digits_value (zs @ [y]) = 10 * digits_value zs + (unat y - 48)" for zs by (simp add: digits_value_def)
  from this [of "xs @ ys"] this [of ys] snoc show ?case by simp
qed (simp add: digits_value_def)

lemma digits_value_less: "list_all isdigit xs \<Longrightarrow> digits_value xs < 10 ^ length xs"
proof (induction xs rule: rev_induct)
  case (snoc x xs)
  have "unat x - 48 < 10" using snoc.prems by (auto simp: isdigit_def word_le_nat_alt)
  then show ?case using snoc by (simp add: digits_value_def)
qed (simp add: digits_value_def)

lemma takeWhile_digits: "list_all isdigit ds \<Longrightarrow> r = [] \<or> \<not> isdigit (hd r) \<Longrightarrow> takeWhile isdigit (ds @ r) = ds \<and> dropWhile isdigit (ds @ r) = r"
  by (induction ds) (cases r; auto)+

text \<open>A number of at most six digits, with at most three behind the point.\<close>

lemma atof_holds:
  assumes ds: "list_all isdigit ds" "ds \<noteq> []" "length ds \<le> 6" and fs: "list_all isdigit fs" "length fs \<le> 3"
    and t: "t = ds @ 46 # fs \<or> t = ds \<and> fs = []"
  shows "holds (int (digits_value ds)) (1 / 1000 - 1 / 2 ^ 34) (atof t)"
proof -
  let ?N = "digits_value ds" and ?F = "digits_value fs" and ?k = "length fs"
  obtain c r where c: "ds = c # r" "isdigit c" using ds by (cases ds) auto
  have sg: "sign (dropWhile isspace t) = (False, t)" using t c isdigit_not_space [OF c(2)] by (auto simp: sign_def)
  have nd: "\<not> isdigit 46" by (simp add: isdigit_def word_le_nat_alt)
  have tw: "takeWhile isdigit t = ds" "dropWhile isdigit t = (if t = ds then [] else 46 # fs)"
    using t takeWhile_digits [OF ds(1), of "46 # fs"] takeWhile_digits [OF ds(1), of "[]"] nd by auto
  have ftw: "takeWhile isdigit fs = fs" "dropWhile isdigit fs = []" using takeWhile_digits [OF fs(1), of "[]"] by simp_all
  have "scan_decimal t = Some (of_nat (digits_value (ds @ fs)) / 10 ^ ?k)"
  proof (cases "t = ds")
    case True
    then have "fs = []" using t by auto
    then show ?thesis using True ds(2) unfolding scan_decimal_def sg prod.case Let_def tw by (simp add: scan_exponent_def)
  next
    case False
    then show ?thesis using ds(2) unfolding scan_decimal_def sg prod.case Let_def tw
      by (simp add: scan_exponent_def ftw del: takeWhile_eq_all_conv)
  qed
  then have D: "atof t = f64 (of_nat (?N * 10 ^ ?k + ?F) / 10 ^ ?k)" by (simp add: atof_def digits_value_append)
  let ?q = "of_nat (?N * 10 ^ ?k + ?F) / 10 ^ ?k :: rat"
  have q: "?q = of_nat ?N + of_nat ?F / 10 ^ ?k" by (simp add: field_simps)
  have "Suc ?F \<le> 10 ^ ?k" using digits_value_less [OF fs(1)] by simp
  then have "of_nat (Suc ?F) \<le> (of_nat (10 ^ ?k) :: rat)" by (simp only: of_nat_le_iff)
  then have "(of_nat ?F :: rat) / 10 ^ ?k \<le> 1 - 1 / 10 ^ ?k" by (simp add: field_simps)
  moreover have "(1 :: rat) / 10 ^ 3 \<le> 1 / 10 ^ ?k" using fs(2) by (intro divide_left_mono power_increasing) auto
  moreover have "(0 :: rat) \<le> of_nat ?F / 10 ^ ?k" "(1 :: rat) / 1000 = 1 / 10 ^ 3" by simp_all
  ultimately have h: "holds (int ?N) (1 / 1000) ?q" unfolding holds_def q of_int_of_nat_eq by linarith
  have "?N < 10 ^ 6" using digits_value_less [OF ds(1)] ds(3) power_increasing [of "length ds" 6 "10 :: nat"] by linarith
  then have "holds (int ?N) (1 / 1000 - 1 / 2 ^ 34) (f64 ?q)" using holds_round [OF h] by simp
  then show ?thesis unfolding D .
qed

lemma holds_low2: "holds n r t \<Longrightarrow> 0 \<le> n \<Longrightarrow> 0 < r \<Longrightarrow> low2 t = n mod 100"
  by (simp add: low2_def holds_to_int smod_pos)

lemma holds_shift2: "holds n r t \<Longrightarrow> 0 \<le> n \<Longrightarrow> n < 1000000 \<Longrightarrow> 0 \<le> r \<Longrightarrow> holds (n div 100) (r / 100 - 1 / 2 ^ 34) (shift2 t)"
  unfolding shift2_def by (rule holds_round [OF holds_div100]) auto

text \<open>The three pairs of digits, by truncation of \<open>double\<close> values.\<close>

lemma pairs_exact:
  assumes "holds n (1 / 1000 - 1 / 2 ^ 34) t" "0 \<le> n" "n < 1000000"
  shows "low2 t = n mod 100" "low2 (shift2 t) = n div 100 mod 100" "low2 (shift2 (shift2 t)) = n div 10000 mod 100"
proof -
  note h1 = holds_shift2 [OF assms]
  have n1: "0 \<le> n div 100" "n div 100 < 1000000" using assms(2,3) by auto
  have h2: "holds (n div 100 div 100) (((1 / 1000 - 1 / 2 ^ 34) / 100 - 1 / 2 ^ 34) / 100 - 1 / 2 ^ 34) (shift2 (shift2 t))"
    by (rule holds_shift2 [OF h1 n1]) simp_all
  show "low2 t = n mod 100" using holds_low2 [OF assms(1,2)] by simp
  show "low2 (shift2 t) = n div 100 mod 100" using holds_low2 [OF h1 n1(1)] by simp
  show "low2 (shift2 (shift2 t)) = n div 10000 mod 100" using holds_low2 [OF h2] n1 by (simp flip: zdiv_zmult2_eq)
qed

section \<open>Reports\<close>

text \<open>The remaining fields of a report, with commas between and a NUL behind.\<close>

fun joined :: "byte list list \<Rightarrow> byte list \<Rightarrow> byte list" where
  "joined [] rest = 0 # rest"
| "joined [t] rest = t @ 0 # rest"
| "joined (t # ts) rest = t @ 44 # joined ts rest"

text \<open>A use of a token depends on its text only.\<close>

definition uses_text :: "(byte list \<Rightarrow> nat \<Rightarrow> 's \<Rightarrow> 's option) \<Rightarrow> (byte list \<Rightarrow> 's \<Rightarrow> 's) \<Rightarrow> bool" where
  "uses_text u v \<longleftrightarrow> (\<forall>mem q t s. c_str mem q = Some t \<longrightarrow> u mem q s = Some (v t s))"

lemma chain_run:
  "list_all2 uses_text us vs \<Longrightarrow> length us = Suc (length ts) \<Longrightarrow> c_str mem q = Some t \<Longrightarrow> drop pos mem = joined ts rest \<Longrightarrow>
   list_all (plain 44) ts \<Longrightarrow> chain us mem (Some q) pos s = Some (0, fold (\<lambda>(v, t). v t) (zip vs (t # ts)) s)"
proof (induction us vs arbitrary: mem q t ts pos s rest rule: list_all2_induct)
  case (Cons u us v vs)
  have u: "u mem q s = Some (v t s)" using Cons by (simp add: uses_text_def)
  show ?case
  proof (cases ts)
    case Nil
    then have "us = []" "vs = []" using Cons by auto
    have "0 \<in> set (drop pos mem)" using Cons Nil by simp
    then obtain r where "strtok mem pos 44 = Some r" using strtok_returns [of pos mem 44] by auto
    then show ?thesis using u Nil \<open>us = []\<close> \<open>vs = []\<close> by (simp add: field_def split: prod.split)
  next
    case ts: (Cons t1 ts1)
    obtain e r1 where e: "joined ts rest = t1 @ e # r1" "e = 44 \<or> e = 0" "e = 44 \<longrightarrow> r1 = joined ts1 rest" "e = 0 \<longrightarrow> ts1 = []"
      using ts by (cases ts1) auto
    have p: "plain 44 t1" using Cons.prems ts by simp
    let ?mem = "mem[pos + length t1 := 0]" and ?pos = "if e = 0 then pos + length t1 else pos + length t1 + 1"
    have d: "drop pos mem = t1 @ e # r1" using Cons.prems e by simp
    note f = strtok_field [OF d p e(2)]
    have c: "c_str ?mem pos = Some t1" using c_str_drop [OF f(2)] p by (simp add: plain_def)
    have "drop ?pos ?mem = joined ts1 rest \<or> e = 0 \<and> (\<exists>r. drop ?pos ?mem = joined [] r)"
      using f(3) e drop_further [OF f(2)] by auto
    then obtain r' where dn: "drop ?pos ?mem = joined ts1 r'" using e by (cases "e = 0") auto
    have "chain us ?mem (Some pos) ?pos (v t s) = Some (0, fold (\<lambda>(v, t). v t) (zip vs (t1 # ts1)) (v t s))"
      using Cons.IH [OF _ c dn] Cons.prems ts by simp
    then show ?thesis using u f(1) ts by (simp add: field_def)
  qed
qed simp

definition report :: "byte list list \<Rightarrow> byte list \<Rightarrow> byte list" where
  "report ts rest = [13, 10] @ str ''+ZGPSR:'' @ 32 # joined ts rest"

lemma modem_yday_loop_eq: "1 \<le> m \<Longrightarrow> mon \<le> 13 \<Longrightarrow> team = 0 \<or> team = 1 \<Longrightarrow> modem_yday_loop junk team mon m d = yday_loop team mon m d"
proof (induction team mon m d rule: yday_loop.induct)
  case (1 team mon m d)
  show ?case
  proof (cases "m < mon")
    case True
    then have "modem_monthday junk m team = monthday m team"
      using months [of m] 1(2-4) by (elim disjE) (auto simp: modem_monthday_def monthday_def)
    then show ?thesis using 1 True by (simp add: modem_yday_loop.simps yday_loop.simps)
  qed (simp add: modem_yday_loop.simps yday_loop.simps)
qed

text \<open>The missing return of \<open>monthday\<close> does not matter for real months.\<close>

lemma modem_get_yday_eq: "mon \<le> 13 \<Longrightarrow> modem_get_yday junk y mon d = get_yday y mon d"
  by (simp add: modem_get_yday_def get_yday_def modem_yday_loop_eq leap_def Let_def)

lemma zgpsr_uses:
  "list_all2 uses_text (zgpsr_fields junk)
     [\<lambda>t. map_prod (set_utc (atof t)) id, \<lambda>t. map_prod id (\<lambda>g. g\<lparr>g_latitude := shift2 (atof t), g_ns_indicator := last t\<rparr>),
      \<lambda>t. map_prod id (\<lambda>g. g\<lparr>g_longitude := shift2 (atof t), g_ew_indicator := last t\<rparr>), \<lambda>t. id, \<lambda>t. id, \<lambda>t. id, \<lambda>t. id, \<lambda>t. id, \<lambda>t. id,
      \<lambda>t. map_prod (set_date junk (atof t)) id, \<lambda>t. map_prod id (\<lambda>g. g\<lparr>g_satellite := atoi t\<rparr>)]"
  by (simp add: zgpsr_fields_def uses_text_def utc_field_def latitude_field_def longitude_field_def skip_def date_field_def satellite_field_def atoi_at_def)

lemma report_run:
  assumes "list_all (plain 44) (utc # lat # lon # skipped @ [date, sats])" "length skipped = 6"
  shows "lib_4g_analytic_zgpsr junk (report (utc # lat # lon # skipped @ [date, sats]) rest) tm gga attr =
    Some (0, set_date junk (atof date) (set_utc (atof utc) tm),
      gga\<lparr>g_status := 1, g_latitude := shift2 (atof lat), g_ns_indicator := last lat, g_longitude := shift2 (atof lon), g_ew_indicator := last lon,
        g_satellite := atoi sats\<rparr>, attr\<lparr>attr_gga := 1, attr_tm := 1\<rparr>)"
proof -
  let ?fs = "lat # lon # skipped @ [date, sats]" and ?z = "str ''+ZGPSR:''"
  obtain a b c d e f where sk: "skipped = [a, b, c, d, e, f]" using assms(2) by (auto simp: numeral_eq_Suc length_Suc_conv)
  let ?rx = "report (utc # ?fs) rest"
  have d0: "drop 0 ?rx = [13] @ 10 # (?z @ 32 # utc @ 44 # joined ?fs rest)" by (simp add: report_def)
  obtain m0 p0 where s0: "strtok ?rx 0 10 = Some (m0, Some 0, p0)" "drop p0 m0 = ?z @ 32 # utc @ 44 # joined ?fs rest"
    by (rule strtok_token [OF d0]) (simp_all add: plain_def)
  have z: "plain 32 ?z" "0 \<notin> set ?z" by (simp_all add: plain_def str_def)
  obtain m1 p1 where s1: "strtok m0 p0 32 = Some (m1, Some p0, p1)" "drop p0 m1 = ?z @ 0 # utc @ 44 # joined ?fs rest" "drop p1 m1 = utc @ 44 # joined ?fs rest"
    by (rule strtok_token [OF s0(2) z(1)]) (simp, blast)
  have u: "plain 44 utc" using assms(1) by simp
  obtain m2 p2 where s2: "strtok m1 p1 44 = Some (m2, Some p1, p2)" "drop p1 m2 = utc @ 0 # joined ?fs rest" "drop p2 m2 = joined ?fs rest"
    by (rule strtok_token [OF s1(3) u]) (simp, blast)
  have tag: "c_str m1 p0 = Some ?z" using c_str_drop [OF s1(2) z(2)] .
  have ut: "c_str m2 p1 = Some utc" using c_str_drop [OF s2(2)] u by (simp add: plain_def)
  have "chain (zgpsr_fields junk) m2 (Some p1) p2 (tm, gga\<lparr>g_status := 1\<rparr>) =
      Some (0, set_date junk (atof date) (set_utc (atof utc) tm),
        gga\<lparr>g_status := 1, g_latitude := shift2 (atof lat), g_ns_indicator := last lat, g_longitude := shift2 (atof lon), g_ew_indicator := last lon,
          g_satellite := atoi sats\<rparr>)"
    using chain_run [OF zgpsr_uses _ ut s2(3), where s = "(tm, gga\<lparr>g_status := 1\<rparr>)"] assms(1) by (simp add: zgpsr_fields_def sk)
  then show ?thesis using s0(1) s1(1) s2(1) tag by (simp add: lib_4g_analytic_zgpsr_def)
qed

lemma six_digits:
  "digits_value [a, b, c, d, e, f] = 10000 * digits_value [a, b] + 100 * digits_value [c, d] + digits_value [e, f]"
  using digits_value_append [of "[a, b]" "[c, d, e, f]"] digits_value_append [of "[c, d]" "[e, f]"] by simp

lemma six_digits_split:
  assumes "list_all isdigit [a, b, c, d, e, f]"
  shows "int (digits_value [a, b, c, d, e, f]) mod 100 = int (digits_value [e, f])"
    "int (digits_value [a, b, c, d, e, f]) div 100 mod 100 = int (digits_value [c, d])"
    "int (digits_value [a, b, c, d, e, f]) div 10000 mod 100 = int (digits_value [a, b])"
    "int (digits_value [a, b, c, d, e, f]) < 1000000"
proof -
  have b: "digits_value [x, y] < 100" if "isdigit x" "isdigit y" for x y using digits_value_less [of "[x, y]"] that by simp
  have lt: "digits_value [a, b] < 100" "digits_value [c, d] < 100" "digits_value [e, f] < 100" using assms b by simp_all
  have n: "int (digits_value [a, b, c, d, e, f]) = int (digits_value [e, f]) + 100 * (int (digits_value [c, d]) + 100 * int (digits_value [a, b]))"
    unfolding six_digits by simp
  show "int (digits_value [a, b, c, d, e, f]) mod 100 = int (digits_value [e, f])" unfolding n mod_mult_self2 using lt(3) by simp
  show two: "int (digits_value [a, b, c, d, e, f]) div 100 mod 100 = int (digits_value [c, d])"
    unfolding n by (subst div_mult_self2) (use lt in simp_all)
  have "int (digits_value [a, b, c, d, e, f]) div (100 * 100) = int (digits_value [a, b])"
    unfolding n by (subst zdiv_zmult2_eq) (use lt in simp_all)
  then show "int (digits_value [a, b, c, d, e, f]) div 10000 mod 100 = int (digits_value [a, b])" using lt by simp
  show "int (digits_value [a, b, c, d, e, f]) < 1000000" using digits_value_less [OF assms] by simp
qed

text \<open>
  C32. A position report that is well formed is taken apart exactly: although seconds, minutes and hours, year, month and day are obtained by dividing \<open>double\<close>
  values by 100 and truncating, they are the pairs of digits of the text for every time with up to three decimals. The hour is that of China without a carry. The year is
  counted from 1900 before the calendar functions see it, so the weekday is wrong on every day from 2000 to 2099.
\<close>

theorem zgpsr_parsed:
  assumes digits: "list_all isdigit [h1, h2, m1, m2, s1, s2]" "list_all isdigit fs" "length fs \<le> 3" "list_all isdigit [d1, d2, o1, o2, y1, y2]"
    and plain: "list_all (plain 44) (lat # lon # skipped @ [sats])" "length skipped = 6"
    and shape: "utc = [h1, h2, m1, m2, s1, s2] @ 46 # fs" "date = [d1, d2, o1, o2, y1, y2]"
    and date: "Y = int (digits_value [y1, y2])" "M = int (digits_value [o1, o2])" "D = int (digits_value [d1, d2])" "valid_date (2000 + Y, M, D)"
  shows "lib_4g_analytic_zgpsr junk (report (utc # lat # lon # skipped @ [date, sats]) rest) tm gga attr =
    Some (0, tm\<lparr>tm_sec := int (digits_value [s1, s2]), tm_min := int (digits_value [m1, m2]), tm_hour := int (digits_value [h1, h2]) + 8,
        tm_year := Y + 100, tm_mon := M, tm_mday := D, tm_yday := get_yday (Y + 100) M D, tm_wday := wday_of (Y + 100) M D\<rparr>,
      gga\<lparr>g_status := 1, g_latitude := shift2 (atof lat), g_ns_indicator := last lat, g_longitude := shift2 (atof lon), g_ew_indicator := last lon,
        g_satellite := atoi sats\<rparr>, attr\<lparr>attr_gga := 1, attr_tm := 1\<rparr>) \<and>
    (wday_of (Y + 100) M D - weekday (2000 + Y, M, D)) mod 7 \<noteq> 0"
proof -
  have pl: "list_all (plain 44) (utc # lat # lon # skipped @ [date, sats])"
    using plain(1) digits isdigit_not_space by (auto simp: plain_def shape list_all_iff)
  have "holds (int (digits_value [h1, h2, m1, m2, s1, s2])) (1 / 1000 - 1 / 2 ^ 34) (atof utc)"
    by (rule atof_holds [OF digits(1) _ _ digits(2,3)]) (simp_all add: shape)
  note t = pairs_exact [OF this _ six_digits_split(4) [OF digits(1)]]
  have utc: "set_utc (atof utc) tm = tm\<lparr>tm_sec := int (digits_value [s1, s2]), tm_min := int (digits_value [m1, m2]), tm_hour := int (digits_value [h1, h2]) + 8\<rparr>"
    using t six_digits_split [OF digits(1)] by (simp add: set_utc_def Let_def)
  have "holds (int (digits_value [d1, d2, o1, o2, y1, y2])) (1 / 1000 - 1 / 2 ^ 34) (atof date)"
    by (rule atof_holds [OF digits(4), of "[]"]) (simp_all add: shape)
  note d = pairs_exact [OF this _ six_digits_split(4) [OF digits(4)]]
  have y: "low2 (atof date) = Y" "low2 (shift2 (atof date)) = M" "low2 (shift2 (shift2 (atof date))) = D"
    using d six_digits_split [OF digits(4)] by (simp_all add: date(1-3))
  have "M \<le> 13" using valid_month [OF date(4)] by simp
  then have set: "set_date junk (atof date) s = s\<lparr>tm_year := Y + 100, tm_mon := M, tm_mday := D, tm_yday := get_yday (Y + 100) M D, tm_wday := wday_of (Y + 100) M D\<rparr>" for s
    by (simp add: set_date_def Let_def y modem_get_yday_eq add.commute)
  have "Y \<le> 99" "0 \<le> Y" using digits_value_less [of "[y1, y2]"] digits(4) by (simp_all add: date(1))
  then have "(wday_of (Y + 100) M D - weekday (2000 + Y, M, D)) mod 7 \<noteq> 0" using modem_wday_never_right [OF date(4)] by (simp add: add.commute)
  then show ?thesis unfolding report_run [OF pl plain(2)] utc set by simp
qed

definition tm0 :: gps_tm where
  "tm0 = \<lparr>tm_sec = 0, tm_min = 0, tm_hour = 0, tm_mday = 0, tm_mon = 0, tm_year = 0, tm_wday = 0, tm_yday = 0\<rparr>"

definition gga0 :: lib_4g_gga where
  "gga0 = \<lparr>g_latitude = 0, g_ns_indicator = 0, g_longitude = 0, g_ew_indicator = 0, g_status = 0, g_satellite = 0\<rparr>"

theorem zgpsr_parsed_witness:
  "lib_4g_analytic_zgpsr (\<lambda>m. 0) (report (str ''123519.125'' # str ''3113.23N'' # str ''12113.45E'' # replicate 6 (str ''0'') @ [str ''221216'', str ''08'']) [])
      tm0 gga0 \<lparr>attr_gga = 0, attr_tm = 0\<rparr> =
    Some (0, tm0\<lparr>tm_sec := 19, tm_min := 35, tm_hour := 20, tm_year := 116, tm_mon := 12, tm_mday := 22, tm_yday := 357, tm_wday := wday_of 116 12 22\<rparr>,
      gga0\<lparr>g_status := 1, g_latitude := shift2 (atof (str ''3113.23N'')), g_ns_indicator := 78, g_longitude := shift2 (atof (str ''12113.45E'')),
        g_ew_indicator := 69, g_satellite := 8\<rparr>, \<lparr>attr_gga = 1, attr_tm = 1\<rparr>)"
proof -
  have v: "int (digits_value [49, 54]) = 16" "int (digits_value [49, 50]) = 12" "int (digits_value [50, 50]) = 22" "digits_value [49, 57] = 19"
    "digits_value [51, 53] = 35" "digits_value [49, 50] = 12" "last (str ''3113.23N'') = 78" "last (str ''12113.45E'') = 69" "atoi (str ''08'') = 8" by code_simp+
  have yd: "get_yday 116 12 22 = 357" by (simp add: yday_table leap_year_def)
  have "lib_4g_analytic_zgpsr (\<lambda>m. 0) (report (str ''123519.125'' # str ''3113.23N'' # str ''12113.45E'' # replicate 6 (str ''0'') @ [str ''221216'', str ''08'']) [])
      tm0 gga0 \<lparr>attr_gga = 0, attr_tm = 0\<rparr> =
    Some (0, tm0\<lparr>tm_sec := int (digits_value [49, 57]), tm_min := int (digits_value [51, 53]), tm_hour := int (digits_value [49, 50]) + 8,
        tm_year := 16 + 100, tm_mon := 12, tm_mday := 22, tm_yday := get_yday (16 + 100) 12 22, tm_wday := wday_of (16 + 100) 12 22\<rparr>,
      gga0\<lparr>g_status := 1, g_latitude := shift2 (atof (str ''3113.23N'')), g_ns_indicator := last (str ''3113.23N''),
        g_longitude := shift2 (atof (str ''12113.45E'')), g_ew_indicator := last (str ''12113.45E''),
        g_satellite := atoi (str ''08'')\<rparr>, \<lparr>attr_gga = 0, attr_tm = 0\<rparr>\<lparr>attr_gga := 1, attr_tm := 1\<rparr>) \<and>
    (wday_of (16 + 100) 12 22 - weekday (2000 + 16, 12, 22)) mod 7 \<noteq> 0"
    by (rule zgpsr_parsed [where fs = "[49, 50, 53]" and ?o1.0 = 49 and ?o2.0 = 50 and ?d1.0 = 50 and ?d2.0 = 50 and ?y1.0 = 49 and ?y2.0 = 54])
       (simp_all add: v plain_def isdigit_def str_def valid_date_def month_length_def list_all_iff)
  then show ?thesis by (simp add: v yd)
qed

end
