(* ===== verification/ModemProps.thy ===== *)
theory ModemProps
  imports ModemGps
begin

text \<open>
  The modem's commands: the buffers keep their sizes and only three functions can fail in memory; the signal strength; and the session that the program holds with a modem that
  answers, as the sequence of everything it does.
\<close>

section \<open>The buffers\<close>

definition sized :: "modem \<Rightarrow> bool" where
  "sized g \<longleftrightarrow> length (m_txbuf g) = 1024 \<and> length (m_rxbuf g) = 1024 \<and> length (m_buf g) = 1024"

datatype modem_call =
    MAte0 | MDisconnect | MConnect | MStatus | MDecode "byte list" | MRestart | MWindows | MLinux | MCsq | MCpin | MCops | MZpas | MInfo | MZsnt
  | MDialCmcc | MDialOther | MGpsInit

fun modem_run :: "('w, 'x) modem_os_scheme \<Rightarrow> int \<Rightarrow> int \<Rightarrow> modem_call \<Rightarrow> modem \<times> 'w \<Rightarrow> (int \<times> modem \<times> 'w) option" where
  "modem_run os junk fd MAte0 = lib_4g_ate0 os fd"
| "modem_run os junk fd MDisconnect = lib_4g_ecm_disconnect os fd"
| "modem_run os junk fd MConnect = lib_4g_ecm_connect os fd"
| "modem_run os junk fd MStatus = lib_4g_ecm_connect_status os fd"
| "modem_run os junk fd (MDecode key) = lib_4g_decode os fd key"
| "modem_run os junk fd MRestart = lib_4g_restart os fd"
| "modem_run os junk fd MWindows = lib_4g_setECMforWindows_and_restart os fd"
| "modem_run os junk fd MLinux = lib_4g_setECMforLinux_and_restart os fd"
| "modem_run os junk fd MCsq = lib_4g_get_csq os fd"
| "modem_run os junk fd MCpin = lib_4g_check_cpin os fd"
| "modem_run os junk fd MCops = lib_4g_check_cops os fd"
| "modem_run os junk fd MZpas = lib_4g_zpas os junk fd"
| "modem_run os junk fd MInfo = lib_4g_get_basic_info os fd"
| "modem_run os junk fd MZsnt = lib_4g_zsnt os junk fd"
| "modem_run os junk fd MDialCmcc = lib_4g_CMCC_dialing os junk fd"
| "modem_run os junk fd MDialOther = lib_4g_CUCC_CTCC_dialing os junk fd"
| "modem_run os junk fd MGpsInit = lib_4g_getGPS_init os fd"

text \<open>The calls that parse an answer, and the one that builds a command from a key.\<close>

fun can_fault :: "modem_call \<Rightarrow> bool" where
  "can_fault MCsq = True"
| "can_fault MCops = True"
| "can_fault (MDecode key) \<longleftrightarrow> 17 < length key"
| "can_fault c = False"

fun modem_session :: "('w, 'x) modem_os_scheme \<Rightarrow> int \<Rightarrow> int \<Rightarrow> modem_call list \<Rightarrow> modem \<times> 'w \<Rightarrow> (int list \<times> modem \<times> 'w) option" where
  "modem_session os junk fd [] s = Some ([], s)"
| "modem_session os junk fd (c # cs) s = do { (r, s) \<leftarrow> modem_run os junk fd c s; (rs, s) \<leftarrow> modem_session os junk fd cs s; Some (r # rs, s) }"

text \<open>The function returns with buffers of their sizes.\<close>

definition safe :: "(int \<times> modem \<times> 'w) option \<Rightarrow> bool" where
  "safe m \<longleftrightarrow> (\<exists>r s. m = Some (r, s) \<and> sized (fst s))"

named_theorems modem_safe \<open>commands that return and keep the buffers\<close>

lemma at_send_sized: "sized (fst s) \<Longrightarrow> length cmd \<le> 1024 \<Longrightarrow> at_send os fd cmd s = (ret, s') \<Longrightarrow> sized (fst s')"
  by (auto simp: at_send_def sized_def Let_def split: prod.splits)

lemma at_read_sized: "sized (fst s) \<Longrightarrow> at_read os fd ms s = (ret, s') \<Longrightarrow> sized (fst s')"
  by (auto simp: at_read_def sized_def split: prod.splits)

lemma at_exchange_sized: "sized (fst s) \<Longrightarrow> length cmd \<le> 1024 \<Longrightarrow> at_exchange os fd cmd ms s = (r, s') \<Longrightarrow> sized (fst s')"
  by (auto simp: at_exchange_def split: prod.splits if_splits dest: at_send_sized at_read_sized)

lemma safe_Some [simp]: "safe (Some (r, g, w)) = sized g" "safe (Some (r, s)) = sized (fst s)"
  by (simp_all add: safe_def)

lemma at_then_safe:
  assumes "sized (fst s)" "length cmd \<le> 1024" "\<And>s'. sized (fst s') \<Longrightarrow> safe (k s')"
  shows "safe (at_then (at_exchange os fd cmd ms s) k)"
proof -
  obtain r s' where e: "at_exchange os fd cmd ms s = (r, s')" by (metis surj_pair)
  have "sized (fst s')" using at_exchange_sized [OF assms(1,2) e] .
  then show ?thesis using assms(3) by (auto simp: at_then_def e split: option.splits)
qed

lemma short_lines [simp]: "length (at_line s) = length s + 2" "length (answer_line s) = length s + 4" "length (str s) = length s"
  by (simp_all add: at_line_def answer_line_def str_def)

lemma bind_safe: "safe m \<Longrightarrow> (\<And>r s. sized (fst s) \<Longrightarrow> safe (f (r, s))) \<Longrightarrow> safe (m \<bind> f)"
  by (auto simp: safe_def)

lemma set_ret_sized [simp]: "sized (fst (set_ret r s)) = sized (fst s)"
  by (simp add: set_ret_def sized_def split: prod.splits)

lemma connect_safe [modem_safe]: "sized (fst s) \<Longrightarrow> safe (lib_4g_ecm_connect os fd s)"
  unfolding lib_4g_ecm_connect_def by (rule at_then_safe) (auto split: prod.splits)

lemma restart_safe [modem_safe]: "sized (fst s) \<Longrightarrow> safe (lib_4g_restart os fd s)"
  unfolding lib_4g_restart_def by (rule at_then_safe) auto

lemma zsnt_safe [modem_safe]: "sized (fst s) \<Longrightarrow> safe (lib_4g_zsnt os junk fd s)"
  unfolding lib_4g_zsnt_def by (rule at_then_safe) auto

lemma dial_safe: "sized (fst s) \<Longrightarrow> length cmd \<le> 1024 \<Longrightarrow> safe (dial os junk fd cmd s)"
  unfolding dial_def Let_def
  by (rule bind_safe [OF zsnt_safe]) (auto intro!: at_then_safe bind_safe [OF connect_safe])

lemma status_safe [modem_safe]: "sized (fst s) \<Longrightarrow> safe (lib_4g_ecm_connect_status os fd s)"
  unfolding lib_4g_ecm_connect_status_def
  using at_exchange_sized [of s "at_line ''AT+ZECMCALL?''" os fd 500] by (auto split: prod.splits option.splits)

lemma cpin_safe [modem_safe]: "sized (fst s) \<Longrightarrow> safe (lib_4g_check_cpin os fd s)"
  unfolding lib_4g_check_cpin_def by (rule at_then_safe) (auto split: prod.splits)

lemma call_safe: "sized (fst s) \<Longrightarrow> \<not> can_fault c \<Longrightarrow> safe (modem_run os junk fd c s)"
proof (cases c)
  case (MDecode key)
  assume "sized (fst s)" "\<not> can_fault c"
  then show ?thesis unfolding MDecode by (auto simp: lib_4g_decode_def intro!: at_then_safe)
qed (auto simp: lib_4g_ate0_def lib_4g_ecm_disconnect_def lib_4g_setECMforWindows_and_restart_def lib_4g_setECMforLinux_and_restart_def
    lib_4g_zpas_def lib_4g_get_basic_info_def lib_4g_CMCC_dialing_def lib_4g_CUCC_CTCC_dialing_def lib_4g_getGPS_init_def
    intro!: at_then_safe dial_safe modem_safe bind_safe [OF restart_safe])

lemma strtok_length: "strtok mem pos d = Some (mem', p, pos') \<Longrightarrow> length mem' = length mem"
  by (auto simp: strtok_def Let_def bind_eq_Some_conv split: if_splits)

lemma parse_length: "copy_answer g = Some mem \<Longrightarrow> second_token mem d1 d2 = Some (mem', p) \<Longrightarrow> length mem' = length (m_buf g)"
  by (auto simp: copy_answer_def second_token_def bind_eq_Some_conv memcpy_def dest!: strtok_length split: if_splits)

lemma csq_keeps: "sized (fst s) \<Longrightarrow> lib_4g_get_csq os fd s = Some (r, s') \<Longrightarrow> sized (fst s')"
proof -
  assume s: "sized (fst s)" and run: "lib_4g_get_csq os fd s = Some (r, s')"
  obtain e g w where x: "at_exchange os fd (at_line ''AT+CSQ'') 500 s = (e, g, w)" by (metis surj_pair)
  have "sized g" using at_exchange_sized [OF s _ x] by simp
  then show ?thesis using run by (auto simp: lib_4g_get_csq_def x at_then_def sized_def bind_eq_Some_conv parse_length split: option.splits prod.splits)
qed

lemma cops_keeps: "sized (fst s) \<Longrightarrow> lib_4g_check_cops os fd s = Some (r, s') \<Longrightarrow> sized (fst s')"
proof -
  assume s: "sized (fst s)" and run: "lib_4g_check_cops os fd s = Some (r, s')"
  obtain e s1 where x: "at_send os fd (at_line ''AT+COPS?'') s = (e, s1)" by (metis surj_pair)
  obtain e1 g w where y: "at_read os fd 500 s1 = (e1, g, w)" by (metis surj_pair)
  have "sized g" using at_read_sized [OF at_send_sized [OF s _ x] y] by simp
  then show ?thesis using run
    by (auto simp: lib_4g_check_cops_def x y sized_def bind_eq_Some_conv Let_def parse_length split: option.splits prod.splits if_splits)
qed

lemma decode_keeps: "sized (fst s) \<Longrightarrow> lib_4g_decode os fd key s = Some (r, s') \<Longrightarrow> sized (fst s')"
  using call_safe [of s "MDecode key" os 0 fd] by (cases "17 < length key") (auto simp: lib_4g_decode_def safe_def)

lemma call_keeps: "sized (fst s) \<Longrightarrow> modem_run os junk fd c s = Some (r, s') \<Longrightarrow> sized (fst s')"
proof (cases "can_fault c")
  case True
  assume "sized (fst s)" "modem_run os junk fd c s = Some (r, s')"
  then show ?thesis using True by (cases c) (auto dest: csq_keeps cops_keeps decode_keeps)
next
  case False
  assume "sized (fst s)" "modem_run os junk fd c s = Some (r, s')"
  then show ?thesis using call_safe [OF _ False, of s os junk fd] by (auto simp: safe_def)
qed


definition idle_modem :: modem where
  "idle_modem = \<lparr>m_txbuf = replicate 1024 0, m_rxbuf = replicate 1024 0, m_buf = replicate 1024 0, m_ret = 0\<rparr>"

section \<open>A modem that answers\<close>

datatype event = Opened | Sent "byte list" | Ran string | Closed

text \<open>The world is the record of everything done so far; what the modem answers may depend on all of it.\<close>

definition device :: "(event list \<Rightarrow> byte list) \<Rightarrow> event list modem_os" where
  "device ans = \<lparr>s_init = (\<lambda>serial l. (0, serial, l @ [Opened])), s_send = (\<lambda>fd bs l. (int (length bs), l @ [Sent bs])),
     s_read = (\<lambda>fd n ms l. (int (length (ans l)), ans l, l)), s_close = (\<lambda>serial l. l @ [Closed]), m_system = (\<lambda>c l. l @ [Ran c])\<rparr>"

definition talks :: "(event list \<Rightarrow> byte list) \<Rightarrow> bool" where
  "talks ans \<longleftrightarrow> (\<forall>l. ans l \<noteq> [] \<and> length (ans l) < 1024 \<and> 0 \<notin> set (ans l))"

definition padded :: "byte list \<Rightarrow> byte list" where
  "padded bs = take 1024 (bs @ replicate 1024 0)"

lemma padded_eq: "length bs < 1024 \<Longrightarrow> padded bs = bs @ 0 # replicate (1023 - length bs) 0"
  by (simp add: padded_def Suc_diff_le flip: replicate_Suc)

lemma strlen_command: "0 \<notin> set cmd \<Longrightarrow> strlen (cmd @ replicate n 0) = length cmd"
proof -
  assume "0 \<notin> set cmd"
  then have "takeWhile (\<lambda>c. c \<noteq> 0) (cmd @ replicate n 0) = cmd @ takeWhile (\<lambda>c. c \<noteq> 0) (replicate n 0)" by (intro takeWhile_append2) auto
  moreover have "takeWhile (\<lambda>c. c \<noteq> 0) (replicate n (0 :: byte)) = []" by (cases n) simp_all
  ultimately show ?thesis unfolding strlen_def by (simp only: append_Nil2)
qed

definition heard :: "byte list \<Rightarrow> byte list \<Rightarrow> modem \<Rightarrow> modem" where
  "heard cmd a g = g\<lparr>m_txbuf := cmd @ replicate (1024 - length cmd) 0, m_rxbuf := padded a, m_ret := int (length a)\<rparr>"

lemma device_exchange:
  assumes "talks ans" "0 \<notin> set cmd"
  shows "at_exchange (device ans) fd cmd ms (g, l) = (None, heard cmd (ans (l @ [Sent cmd])) g, l @ [Sent cmd])"
  using assms by (simp add: at_exchange_def at_send_def at_read_def device_def Let_def strlen_command heard_def padded_def talks_def)

lemma heard_simps [simp]: "m_rxbuf (heard cmd a g) = padded a" "m_buf (heard cmd a g) = m_buf g" "m_ret (heard cmd a g) = int (length a)"
  by (simp_all add: heard_def)

text \<open>\<open>strcmp\<close> compares the whole answer.\<close>

lemma streq_padded:
  assumes "length a < 1024" "0 \<notin> set a" "0 \<notin> set lit"
  shows "streq (padded a) lit \<longleftrightarrow> a = lit"
proof
  assume "streq (padded a) lit"
  then have "take (length lit + 1) (a @ 0 # replicate (1023 - length a) 0) = lit @ [0]" using assms(1) by (simp add: streq_def padded_eq)
  then have "takeWhile (\<lambda>c. c \<noteq> 0) (a @ 0 # replicate (1023 - length a) 0) = takeWhile (\<lambda>c. c \<noteq> 0) (lit @ 0 # drop (length lit + 1) (a @ 0 # replicate (1023 - length a) 0))"
    by (metis append.assoc append_Cons append_Nil append_take_drop_id)
  moreover have "takeWhile (\<lambda>c. c \<noteq> 0) (x @ 0 # y) = x" if "0 \<notin> set x" for x y :: "byte list" using that by (auto simp: takeWhile_tail)
  ultimately show "a = lit" using assms by metis
qed (use assms in \<open>simp add: streq_def padded_eq\<close>)

section \<open>Signal strength\<close>

lemma copy_answer_eq:
  "length a < 1024 \<Longrightarrow> 0 \<notin> set a \<Longrightarrow> m_rxbuf g = padded a \<Longrightarrow> length (m_buf g) = 1024 \<Longrightarrow> copy_answer g = Some (a @ 0 # drop (length a + 1) (m_buf g))"
  by (auto simp: copy_answer_def padded_eq c_str_app memcpy_def)

lemma second_token_found:
  assumes "mem = f @ d1 # v @ d2 # r" "plain d1 f" "plain d2 v" "d1 \<noteq> 0" "d2 \<noteq> 0"
  obtains mem' q where "second_token mem d1 d2 = Some (mem', Some q)" "c_str mem' q = Some v"
proof -
  have d0: "drop 0 mem = f @ d1 # (v @ d2 # r)" using assms(1) by simp
  obtain m0 p0 where s0: "strtok mem 0 d1 = Some (m0, Some 0, p0)" "drop p0 m0 = v @ d2 # r" by (rule strtok_token [OF d0 assms(2,4)]) blast
  obtain m1 p1 where s1: "strtok m0 p0 d2 = Some (m1, Some p0, p1)" "drop p0 m1 = v @ 0 # r" by (rule strtok_token [OF s0(2) assms(3,5)]) blast
  have "c_str m1 p0 = Some v" using c_str_drop [OF s1(2)] assms(3) by (simp add: plain_def)
  then show ?thesis using that s0(1) s1(1) by (simp add: second_token_def)
qed

lemma second_token_missing:
  assumes "mem = f @ 0 # r" "plain d1 f" "d2 \<noteq> 0"
  shows "second_token mem d1 d2 = Some (mem, None)"
proof -
  have d0: "drop 0 mem = f @ 0 # r" using assms(1) by simp
  have "strtok mem 0 d1 = Some (mem, Some 0, length f)" using strtok_field(1) [OF d0 assms(2)] assms(1) by simp
  moreover have "strtok mem (length f) d2 = Some (mem, None, length f)" using assms by (simp add: strtok_def buf_rd_def)
  ultimately show ?thesis by (simp add: second_token_def)
qed

lemma csq_copied:
  assumes "talks ans" "sized g" "a = ans (l @ [Sent (at_line ''AT+CSQ'')])"
  shows "lib_4g_get_csq (device ans) fd (g, l) = do {
      (mem, p) \<leftarrow> second_token (a @ 0 # drop (length a + 1) (m_buf g)) 32 44; q \<leftarrow> p; t \<leftarrow> c_str mem q;
      Some (atoi t, (heard (at_line ''AT+CSQ'') a g)\<lparr>m_buf := mem\<rparr>, l @ [Sent (at_line ''AT+CSQ'')]) }"
proof -
  let ?g = "heard (at_line ''AT+CSQ'') a g"
  have a: "length a < 1024" "0 \<notin> set a" using assms(1,3) by (simp_all add: talks_def)
  have x: "at_exchange (device ans) fd (at_line ''AT+CSQ'') 500 (g, l) = (None, ?g, l @ [Sent (at_line ''AT+CSQ'')])"
    using device_exchange [OF assms(1)] by (simp add: assms(3) at_line_def str_def)
  have "copy_answer ?g = Some (a @ 0 # drop (length a + 1) (m_buf g))" using copy_answer_eq [of a ?g] a assms(2) by (simp add: sized_def)
  then show ?thesis by (simp add: lib_4g_get_csq_def at_then_def x)
qed

lemma csq_reads:
  assumes "talks ans" "sized g" "ans (l @ [Sent (at_line ''AT+CSQ'')]) = f @ 32 # v @ 44 # r" "plain 32 f" "plain 44 v"
  shows "\<exists>g'. lib_4g_get_csq (device ans) fd (g, l) = Some (atoi v, g', l @ [Sent (at_line ''AT+CSQ'')])"
proof -
  let ?a = "f @ 32 # v @ 44 # r"
  obtain mem' q where "second_token (?a @ 0 # drop (length ?a + 1) (m_buf g)) 32 44 = Some (mem', Some q)" "c_str mem' q = Some v"
    using second_token_found [OF _ assms(4,5), of "?a @ 0 # drop (length ?a + 1) (m_buf g)" "r @ 0 # drop (length ?a + 1) (m_buf g)"] by auto
  then show ?thesis unfolding csq_copied [OF assms(1,2) assms(3) [symmetric]] by simp
qed

text \<open>
  The signal strength is the number between the first blank and the comma behind it in the modem's answer. An answer without a blank, such as the error message,
  makes the function convert a token that is not there, through a null pointer.
\<close>

theorem signal_strength_read:
  assumes "talks ans" "sized g" "a = ans (l @ [Sent (at_line ''AT+CSQ'')])"
  shows "(\<forall>f v r. a = f @ 32 # v @ 44 # r \<longrightarrow> plain 32 f \<longrightarrow> plain 44 v \<longrightarrow>
      (\<exists>g'. lib_4g_get_csq (device ans) fd (g, l) = Some (atoi v, g', l @ [Sent (at_line ''AT+CSQ'')]))) \<and>
    (32 \<notin> set a \<longrightarrow> lib_4g_get_csq (device ans) fd (g, l) = None)"
proof -
  have "a \<noteq> []" "0 \<notin> set a" using assms(1,3) by (simp_all add: talks_def)
  then have "lib_4g_get_csq (device ans) fd (g, l) = None" if "32 \<notin> set a"
    using second_token_missing [of "a @ 0 # drop (length a + 1) (m_buf g)" a _ 32 44] that by (simp add: csq_copied [OF assms] plain_def)
  moreover have "\<exists>g'. lib_4g_get_csq (device ans) fd (g, l) = Some (atoi v, g', l @ [Sent (at_line ''AT+CSQ'')])"
    if "a = f @ 32 # v @ 44 # r" "plain 32 f" "plain 44 v" for f v r
    using csq_reads [OF assms(1,2) _ that(2,3)] that(1) unfolding assms(3) .
  ultimately show ?thesis by blast
qed

definition demo_answers :: "event list \<Rightarrow> byte list" where
  "demo_answers l =
     (if last l = Sent (at_line ''AT+CSQ'') then answer_line ''+CSQ: 23,99'' @ answer_line ''OK''
      else if last l = Sent (at_line ''AT+CPIN?'') then answer_line ''+CPIN: READY'' @ answer_line ''OK''
      else if last l = Sent (at_line ''AT+COPS?'') then answer_line (''+COPS: 0,0,'' @ [CHR 0x22] @ ''CMCC'' @ [CHR 0x22] @ '',7'') @ answer_line ''OK''
      else answer_line ''OK'')"

lemma demo_talks: "talks demo_answers"
  by (simp add: talks_def demo_answers_def answer_line_def str_def)

theorem signal_strength_read_witness:
  "\<exists>g'. lib_4g_get_csq (device demo_answers) 3 (idle_modem, []) = Some (23, g', [] @ [Sent (at_line ''AT+CSQ'')])"
proof -
  let ?a = "demo_answers ([] @ [Sent (at_line ''AT+CSQ'')])"
  have "?a = ([13, 10] @ str ''+CSQ:'') @ 32 # str ''23'' @ 44 # str ''99'' @ [13, 10] @ answer_line ''OK''"
    by (simp add: demo_answers_def answer_line_def str_def)
  moreover have "plain 32 ([13, 10] @ str ''+CSQ:'')" "plain 44 (str ''23'')" by (simp_all add: plain_def str_def)
  moreover have "atoi (str ''23'') = 23" by code_simp
  moreover have "sized idle_modem" by (simp add: sized_def idle_modem_def)
  ultimately show ?thesis using signal_strength_read [OF demo_talks _ refl, of idle_modem "[]" 3] by fastforce
qed


end
