(* ===== verification/ModemRun.thy ===== *)
theory ModemRun
  imports ModemProps
begin

text \<open>The modem program against a modem that answers: everything it does, in order.\<close>

lemmas at_texts = at_line_def answer_line_def str_def

abbreviation ready :: "byte list" where "ready \<equiv> answer_line ''+CPIN: READY'' @ answer_line ''OK''"
abbreviation wants_pin :: "byte list" where "wants_pin \<equiv> answer_line ''+CPIN: SIM PIN'' @ answer_line ''OK''"
abbreviation pin_line :: "byte list" where "pin_line \<equiv> str ''AT+CPIN='' @ [34] @ str ''0609'' @ [34, 13, 10]"
abbreviation cmnet_line :: "byte list" where "cmnet_line \<equiv> str ''AT+CGDCONT=1,'' @ [34] @ str ''IP'' @ [34, 44, 34] @ str ''CMNET'' @ [34, 13, 10]"
abbreviation ip_line :: "byte list" where "ip_line \<equiv> str ''AT+CGDCONT=1,'' @ [34] @ str ''IP'' @ [34, 13, 10]"

definition dial_events :: "(event list \<Rightarrow> byte list) \<Rightarrow> byte list \<Rightarrow> event list \<Rightarrow> event list" where
  "dial_events ans net l =
     (let l = l @ [Sent (at_line ''AT+ZSNT=6,0,0''), Sent net, Sent (at_line ''AT+ZECMCALL=1'')] in
      if ans l = answer_line ''+CME ERROR: unknown'' then l else l @ [Ran ''udhcpc -i usb0''])"

text \<open>The three operators by the names the modem reports; with any other the program does not dial.\<close>

definition dialled :: "(event list \<Rightarrow> byte list) \<Rightarrow> byte list \<Rightarrow> event list \<Rightarrow> event list" where
  "dialled ans operator l =
     (if operator = str ''CMCC'' then dial_events ans cmnet_line l
      else if operator = str ''CHN-UNICOM'' \<or> operator = str ''????'' then dial_events ans ip_line l
      else l)"

lemma heard_sized [simp]: "length cmd \<le> 1024 \<Longrightarrow> sized g \<Longrightarrow> sized (heard cmd a g)"
  by (simp add: sized_def heard_def padded_def)

lemma ate0_device: "talks ans \<Longrightarrow> lib_4g_ate0 (device ans) fd (g, l) =
    Some (0, heard (at_line ''ATE0'') (ans (l @ [Sent (at_line ''ATE0'')])) g, l @ [Sent (at_line ''ATE0'')])"
  by (simp add: lib_4g_ate0_def at_then_def device_exchange at_texts)

lemma decode_device: "talks ans \<Longrightarrow> lib_4g_decode (device ans) fd (str ''0609'') (g, l) =
    Some (0, heard pin_line (ans (l @ [Sent pin_line])) g, l @ [Sent pin_line])"
  by (simp add: lib_4g_decode_def at_then_def device_exchange at_texts)

lemma card_check_device:
  assumes "talks ans" "sized g"
  shows "\<exists>g'. sized g' \<and> card_check (device ans) fd (g, l) =
    (let a = ans (l @ [Sent (at_line ''AT+CPIN?'')]) in
     Some (if a = ready \<or> a = wants_pin then None else Some (-1), a = wants_pin, g', l @ [Sent (at_line ''AT+CPIN?'')]))"
proof -
  let ?cmd = "at_line ''AT+CPIN?''"
  let ?a = "ans (l @ [Sent ?cmd])"
  have a: "length ?a < 1024" "0 \<notin> set ?a" using assms(1) by (simp_all add: talks_def)
  have x: "at_exchange (device ans) fd ?cmd 500 (g, l) = (None, heard ?cmd ?a g, l @ [Sent ?cmd])"
    by (rule device_exchange [OF assms(1)]) (simp add: at_texts)
  have nz: "0 \<notin> set ready" "0 \<notin> set wants_pin" "0 \<notin> set (answer_line ''+CME ERROR: SIM not inserted'')" "0 \<notin> set (answer_line ''+CME ERROR: 10'')"
    by (simp_all add: at_texts)
  note eq = nz [THEN streq_padded [OF a]]
  have ne: "ready \<noteq> wants_pin" by (simp add: at_texts)
  have "sized (heard ?cmd ?a g)" using assms(2) by simp
  then show ?thesis
    using ne by (intro exI [of _ "heard ?cmd ?a g"]) (simp add: card_check_def lib_4g_check_cpin_def at_then_def x eq modem_codes Let_def)
qed

lemma dial_device:
  assumes "talks ans" "0 \<le> junk" "0 \<notin> set net"
  shows "\<exists>r g'. dial (device ans) junk fd net (g, l) = Some (r, g', dial_events ans net l)"
proof -
  let ?c = "at_line ''AT+ZECMCALL=1''" and ?z = "at_line ''AT+ZSNT=6,0,0''" and ?e = "answer_line ''+CME ERROR: unknown''"
  have nz: "0 \<notin> set ?c" "0 \<notin> set ?z" "0 \<notin> set ?e" by (simp_all add: at_texts)
  have a: "length (ans l) < 1024" "0 \<notin> set (ans l)" for l using assms(1) by (simp_all add: talks_def)
  show ?thesis
    using assms(2) by (simp add: dial_def lib_4g_zsnt_def lib_4g_ecm_connect_def at_then_def set_ret_def Let_def dial_events_def
        device_exchange [OF assms(1) nz(1)] device_exchange [OF assms(1) nz(2)] device_exchange [OF assms(1,3)] streq_padded [OF a nz(3)]) (simp add: device_def)
qed

lemma cops_device:
  assumes "talks ans" "sized g" "ans (l @ [Sent (at_line ''AT+COPS?'')]) = f @ 34 # operator @ 34 # r" "plain 34 f" "plain 34 operator"
    and "20 \<le> length (ans (l @ [Sent (at_line ''AT+COPS?'')]))"
  shows "\<exists>g'. lib_4g_check_cops (device ans) fd (g, l) =
    Some (if operator = str ''CMCC'' then CARD_CMCC else if operator = str ''????'' then CARD_CTCC else if operator = str ''CHN-UNICOM'' then CARD_CUCC else 0,
      g', l @ [Sent (at_line ''AT+COPS?'')])"
proof -
  let ?cmd = "at_line ''AT+COPS?''"
  let ?a = "ans (l @ [Sent ?cmd])"
  have a: "length ?a < 1024" "0 \<notin> set ?a" "?a \<noteq> []" using assms(1) by (simp_all add: talks_def)
  have nz: "0 \<notin> set ?cmd" by (simp add: at_texts)
  let ?g = "heard ?cmd ?a g"
  obtain w g1 where s: "at_send (device ans) fd ?cmd (g, l) = (w, g1, l @ [Sent ?cmd])" "at_read (device ans) fd 500 (g1, l @ [Sent ?cmd]) = (int (length ?a), ?g, l @ [Sent ?cmd])"
    using nz by (auto simp: at_send_def at_read_def device_def Let_def strlen_command heard_def padded_def)
  have c: "copy_answer ?g = Some (?a @ 0 # drop (length ?a + 1) (m_buf g))" using copy_answer_eq [of ?a ?g] a assms(2) by (simp add: sized_def)
  obtain mem q where t: "second_token (?a @ 0 # drop (length ?a + 1) (m_buf g)) 34 34 = Some (mem, Some q)" "c_str mem q = Some operator"
    using second_token_found [OF _ assms(4,5), of "?a @ 0 # drop (length ?a + 1) (m_buf g)" "r @ 0 # drop (length ?a + 1) (m_buf g)"] assms(3) by auto
  then show ?thesis using s c assms(6) a(3) by (simp add: lib_4g_check_cops_def modem_codes Let_def)
qed

lemma dial_up_device:
  assumes "talks ans" "sized g" "0 \<le> junk"
    and csq: "ans (l @ [Sent (at_line ''AT+CSQ'')]) = f1 @ 32 # v @ 44 # r1" "plain 32 f1" "plain 44 v"
    and cops: "l2 = l @ [Sent (at_line ''AT+CSQ''), Sent (at_line ''AT+COPS?'')]" "ans l2 = f2 @ 34 # operator @ 34 # r2" "plain 34 f2" "plain 34 operator" "20 \<le> length (ans l2)"
  shows "\<exists>g'. modem_dial_up (device ans) junk serial (g, l) = Some (0, g', dialled ans operator l2 @ [Closed])"
proof -
  obtain g1 where g1: "lib_4g_get_csq (device ans) (sfd serial) (g, l) = Some (atoi v, g1, l @ [Sent (at_line ''AT+CSQ'')])"
    using csq_reads [OF assms(1,2) csq] by blast
  have s1: "sized g1" using csq_keeps [OF _ g1] assms(2) by simp
  obtain g2 where g2: "lib_4g_check_cops (device ans) (sfd serial) (g1, l @ [Sent (at_line ''AT+CSQ'')]) =
    Some (if operator = str ''CMCC'' then CARD_CMCC else if operator = str ''????'' then CARD_CTCC else if operator = str ''CHN-UNICOM'' then CARD_CUCC else 0, g2, l2)"
    using cops_device [OF assms(1) s1, of "l @ [Sent (at_line ''AT+CSQ'')]" f2 operator r2 "sfd serial"] cops by auto
  have nz: "0 \<notin> set cmnet_line" "0 \<notin> set ip_line" by (simp_all add: str_def)
  have ne: "str ''CMCC'' \<noteq> str ''????''" "str ''CMCC'' \<noteq> str ''CHN-UNICOM''" "str ''????'' \<noteq> str ''CHN-UNICOM''" by (simp_all add: str_def)
  obtain ra ga where ca: "dial (device ans) junk (sfd serial) cmnet_line (g2, l2) = Some (ra, ga, dial_events ans cmnet_line l2)"
    using dial_device [OF assms(1,3) nz(1)] by blast
  obtain rb gb where cb: "dial (device ans) junk (sfd serial) ip_line (g2, l2) = Some (rb, gb, dial_events ans ip_line l2)"
    using dial_device [OF assms(1,3) nz(2)] by blast
  have close: "s_close (device ans) serial x = x @ [Closed]" for x by (simp add: device_def)
  show ?thesis
    unfolding modem_dial_up_def operator_dial_def dialled_def lib_4g_CMCC_dialing_def lib_4g_CUCC_CTCC_dialing_def
    using ne ca cb by (auto simp: g1 g2 close modem_codes)
qed

lemma main_device:
  assumes "talks ans" "sized g" "length (pathname serial) = 128"
    and l0: "l0 = [Opened, Sent (at_line ''ATE0''), Sent (at_line ''AT+CPIN?'')]"
    and l1: "l1 = (if ans l0 = wants_pin then l0 @ [Sent pin_line, Sent (at_line ''AT+CPIN?'')] else l0)"
  shows "\<exists>serial' g'. sized g' \<and> modem_main (device ans) junk (Some serial) (g, []) =
    (if ans l0 \<in> {ready, wants_pin} \<and> ans l1 \<in> {ready, wants_pin} then modem_dial_up (device ans) junk serial' (g', l1) else Some (-1, g', l1))"
proof -
  obtain path where path: "memcpy (pathname serial) 0 (DEV_NAME @ [0]) 0 (length DEV_NAME + 1) = Some path"
    using assms(3) by (auto simp: memcpy_def DEV_NAME_def)
  define serial' where "serial' = serial\<lparr>pathname := path, flags := O_RDWR, speed := 115200, databits := 8, stopbits := 1\<rparr>"
  let ?g = "heard (at_line ''ATE0'') (ans [Opened, Sent (at_line ''ATE0'')]) g"
  obtain g1 where g1: "sized g1" "card_check (device ans) (sfd serial') (?g, [Opened, Sent (at_line ''ATE0'')]) =
      Some (if ans l0 = ready \<or> ans l0 = wants_pin then None else Some (-1), ans l0 = wants_pin, g1, l0)"
    using card_check_device [OF assms(1), of ?g "sfd serial'" "[Opened, Sent (at_line ''ATE0'')]"] assms(2) by (auto simp: l0 Let_def)
  let ?h = "heard pin_line (ans (l0 @ [Sent pin_line])) g1" and ?l = "l0 @ [Sent pin_line, Sent (at_line ''AT+CPIN?'')]"
  obtain g2 where g2: "sized g2" "card_check (device ans) (sfd serial') (?h, l0 @ [Sent pin_line]) =
      Some (if ans ?l = ready \<or> ans ?l = wants_pin then None else Some (-1), ans ?l = wants_pin, g2, ?l)"
    using card_check_device [OF assms(1), of ?h "sfd serial'" "l0 @ [Sent pin_line]"] g1(1) by (auto simp: Let_def)
  have run: "modem_main (device ans) junk (Some serial) (g, []) = do {
       (r, need, s) \<leftarrow> card_check (device ans) (sfd serial') (?g, [Opened, Sent (at_line ''ATE0'')]);
       case r of
         Some r \<Rightarrow> Some (r, s)
       | None \<Rightarrow>
           if need then do {
             (ret, s) \<leftarrow> lib_4g_decode (device ans) (sfd serial') (str ''0609'') s;
             (r, need, s) \<leftarrow> card_check (device ans) (sfd serial') s;
             case r of Some r \<Rightarrow> Some (r, s) | None \<Rightarrow> modem_dial_up (device ans) junk serial' s
           }
           else modem_dial_up (device ans) junk serial' s }"
  proof -
    have init: "s_init (device ans) sr x = (0, sr, x @ [Opened])" for sr x by (simp add: device_def)
    have "sfd serial = sfd serial'" by (simp add: serial'_def)
    then show ?thesis unfolding modem_main_def by (simp add: path [simplified] init ate0_device [OF assms(1)] flip: serial'_def)
  qed
  have ne: "ready \<noteq> wants_pin" by (simp add: at_texts)
  show ?thesis
  proof (cases "ans l0 = wants_pin")
    case True
    then have "l1 = ?l" by (simp add: l1)
    then show ?thesis using g2(1) True
      by (intro exI [of _ serial'] exI [of _ g2]) (simp add: run g1(2) g2(2) decode_device [OF assms(1)] del: append.simps)
  next
    case False
    then have "l1 = l0" by (simp add: l1)
    then show ?thesis using g1(1) False by (intro exI [of _ serial'] exI [of _ g1]) (simp add: run g1(2))
  qed
qed



end
