(* ===== verification/CTokens.thy ===== *)
theory CTokens
  imports CString
begin

text \<open>
  \<open>strtok\<close> with a string of separators, \<open>strcpy\<close>, \<open>strcat\<close> and \<open>strcasecmp\<close> as the wireless module's functions use them, and the tokens of a text as a list:
  successive calls of \<open>strtok\<close> on a buffer give the members of that list.
\<close>

section \<open>The functions\<close>

definition strtok_any :: "byte list \<Rightarrow> nat \<Rightarrow> byte list \<Rightarrow> (byte list \<times> nat option \<times> nat) option" where
  "strtok_any mem pos seps =
     (let start = pos + length (takeWhile (\<lambda>c. c \<in> set seps) (drop pos mem)) in
      do {
        c \<leftarrow> buf_rd mem start;
        if c = 0 then Some (mem, None, start)
        else let e = start + length (takeWhile (\<lambda>c. c \<notin> set seps \<and> c \<noteq> 0) (drop start mem)) in
          do {
            c \<leftarrow> buf_rd mem e;
            if c = 0 then Some (mem, Some start, e) else Some (mem[e := 0], Some start, e + 1)
          }
      })"

text \<open>\<open>strcpy(dst, &mem[p])\<close>\<close>

definition strcpy :: "byte list \<Rightarrow> byte list \<Rightarrow> nat \<Rightarrow> byte list option" where
  "strcpy dst mem p = do { s \<leftarrow> c_str mem p; memcpy dst 0 (s @ [0]) 0 (length s + 1) }"

definition strcat :: "byte list \<Rightarrow> byte list \<Rightarrow> byte list option" where
  "strcat dst src = do { d \<leftarrow> c_str dst 0; s \<leftarrow> c_str src 0; memcpy dst (length d) (s @ [0]) 0 (length s + 1) }"

text \<open>A string literal in memory: its characters and the NUL.\<close>

definition lit :: "string \<Rightarrow> byte list" where
  "lit s = str s @ [0]"

definition tolower :: "byte \<Rightarrow> byte" where
  "tolower c = (if 65 \<le> c \<and> c \<le> 90 then c + 32 else c)"

text \<open>\<open>strcmp\<close> and \<open>strcasecmp\<close> with a literal give zero.\<close>

definition str_is :: "byte list \<Rightarrow> string \<Rightarrow> bool" where
  "str_is mem s \<longleftrightarrow> take (length s + 1) mem = lit s"

definition str_case_is :: "byte list \<Rightarrow> string \<Rightarrow> bool" where
  "str_case_is mem s \<longleftrightarrow> map tolower (take (length s + 1) mem) = map tolower (lit s)"

section \<open>Tokens of a text\<close>

definition next_token :: "byte list \<Rightarrow> byte list \<Rightarrow> (byte list \<times> byte list) option" where
  "next_token seps t =
     (let s = dropWhile (\<lambda>c. c \<in> set seps) t in
      if s = [] then None else Some (takeWhile (\<lambda>c. c \<notin> set seps) s, tl (dropWhile (\<lambda>c. c \<notin> set seps) s)))"

lemma next_token_less: "next_token seps t = Some (f, rest) \<Longrightarrow> length rest < length t"
proof -
  assume a: "next_token seps t = Some (f, rest)"
  let ?s = "dropWhile (\<lambda>c. c \<in> set seps) t"
  have s: "?s \<noteq> []" and r: "rest = tl (dropWhile (\<lambda>c. c \<notin> set seps) ?s)"
    using a by (auto simp: next_token_def Let_def split: if_splits)
  have "length ?s \<le> length t" by (rule length_dropWhile_le)
  moreover have "length (dropWhile (\<lambda>c. c \<notin> set seps) ?s) \<le> length ?s" by (rule length_dropWhile_le)
  ultimately show ?thesis using s r by (cases ?s) auto
qed

function tokens :: "byte list \<Rightarrow> byte list \<Rightarrow> byte list list" where
  "tokens seps t = (case next_token seps t of None \<Rightarrow> [] | Some (f, rest) \<Rightarrow> f # tokens seps rest)"
  by auto
termination by (relation "measure (\<lambda>(seps, t). length t)") (auto dest: next_token_less)

declare tokens.simps [simp del]

text \<open>The buffer has the text \<open>t\<close> at \<open>pos\<close>, and a NUL behind it.\<close>

definition text_at :: "byte list \<Rightarrow> nat \<Rightarrow> byte list \<Rightarrow> bool" where
  "text_at mem pos t \<longleftrightarrow> 0 \<notin> set t \<and> (\<exists>r. drop pos mem = t @ 0 # r)"

lemma text_at_c_str: "text_at mem pos t \<Longrightarrow> c_str mem pos = Some t"
  by (auto simp: text_at_def c_str_drop)

lemma text_at_start: "0 \<notin> set t \<Longrightarrow> text_at (t @ 0 # r) 0 t"
  by (simp add: text_at_def)

lemma takeWhile_stop: "(\<And>x. x \<in> set xs \<Longrightarrow> P x) \<Longrightarrow> \<not> P y \<Longrightarrow> takeWhile P (xs @ y # ys) = xs"
  by (simp add: takeWhile_tail)

text \<open>One call finds the next token, or none; the place it leaves has the rest of the text.\<close>

lemma strtok_any_none:
  assumes "text_at mem pos t" "0 \<notin> set seps" "next_token seps t = None"
  obtains pos' where "strtok_any mem pos seps = Some (mem, None, pos')" "text_at mem pos' []"
proof -
  obtain r where r: "drop pos mem = t @ 0 # r" using assms(1) by (auto simp: text_at_def)
  have all: "\<And>c. c \<in> set t \<Longrightarrow> c \<in> set seps" using assms(3) by (auto simp: next_token_def Let_def split: if_splits)
  have tw: "takeWhile (\<lambda>c. c \<in> set seps) (drop pos mem) = t" using r all assms(2) by (simp add: takeWhile_stop)
  have d: "drop (pos + length t) mem = 0 # r" using drop_further [OF r] .
  show thesis
  proof (rule that [of "pos + length t"])
    show "strtok_any mem pos seps = Some (mem, None, pos + length t)"
      using tw buf_rd_drop [OF d] by (simp add: strtok_any_def Let_def)
    show "text_at mem (pos + length t) []" using d by (auto simp: text_at_def)
  qed
qed

lemma strtok_any_some:
  assumes "text_at mem pos t" "0 \<notin> set seps" "next_token seps t = Some (f, rest)"
  obtains mem' p pos' where "strtok_any mem pos seps = Some (mem', Some p, pos')" "c_str mem' p = Some f" "text_at mem' pos' rest"
proof -
  obtain r where r: "drop pos mem = t @ 0 # r" and nz: "0 \<notin> set t" using assms(1) by (auto simp: text_at_def)
  define a where "a = takeWhile (\<lambda>c. c \<in> set seps) t"
  define s where "s = dropWhile (\<lambda>c. c \<in> set seps) t"
  define g where "g = dropWhile (\<lambda>c. c \<notin> set seps) s"
  have t: "t = a @ s" by (simp add: a_def s_def)
  have s: "s \<noteq> []" "f = takeWhile (\<lambda>c. c \<notin> set seps) s" "rest = tl g"
    using assms(3) by (auto simp: next_token_def Let_def s_def g_def split: if_splits)
  have sf: "s = f @ g" using s(2) by (simp add: g_def)
  have hd: "hd s \<notin> set seps" using s(1) by (metis hd_dropWhile s_def)
  then have f: "f \<noteq> []" using s by (cases s) auto
  have ds: "drop pos mem = a @ f @ g @ 0 # r" using r t sf by simp
  have start: "takeWhile (\<lambda>c. c \<in> set seps) (drop pos mem) = a"
  proof -
    have "drop pos mem = a @ hd s # tl (s @ 0 # r)" using r t s(1) by (cases s) auto
    moreover have "x \<in> set seps" if "x \<in> set a" for x using that by (auto simp: a_def dest: set_takeWhileD)
    ultimately show ?thesis using hd by (simp only:) (rule takeWhile_stop)
  qed
  define p where "p = pos + length a"
  have dp: "drop p mem = f @ g @ 0 # r" using drop_further [OF ds] by (simp add: p_def)
  obtain c f' where cf: "f = c # f'" using f by (cases f) auto
  have rd: "buf_rd mem p = Some c" using dp cf buf_rd_drop by fastforce
  have set_t: "set t = set a \<union> set f \<union> set g" unfolding t by (subst sf) auto
  have fin: "x \<notin> set seps \<and> x \<noteq> 0" if "x \<in> set f" for x
    using that nz set_t set_takeWhileD [of x "\<lambda>c. c \<notin> set seps" s] s(2) by fast
  have c0: "c \<noteq> 0" using fin cf by auto
  have de: "drop (p + length f) mem = g @ 0 # r" using drop_further [OF dp] .
  show thesis
  proof (cases g)
    case Nil
    have "takeWhile (\<lambda>c. c \<notin> set seps \<and> c \<noteq> 0) (drop p mem) = f" using dp Nil fin by (simp add: takeWhile_stop)
    then have "strtok_any mem pos seps = Some (mem, Some p, p + length f)"
      using start rd c0 buf_rd_drop [of "p + length f" mem 0 r] de Nil
      by (simp add: strtok_any_def Let_def p_def [symmetric])
    moreover have "c_str mem p = Some f" using dp Nil fin by (intro c_str_drop [of _ _ _ r]) auto
    moreover have "text_at mem (p + length f) rest" using de Nil s(3) by (auto simp: text_at_def)
    ultimately show thesis by (rule that)
  next
    case (Cons e h)
    have e: "e \<in> set seps" using Cons by (metis g_def hd_dropWhile list.distinct(1) list.sel(1))
    then have e0: "e \<noteq> 0" using assms(2) by auto
    let ?mem = "mem[p + length f := 0]"
    have "takeWhile (\<lambda>c. c \<notin> set seps \<and> c \<noteq> 0) (drop p mem) = f" using dp Cons fin e by (simp add: takeWhile_stop)
    then have "strtok_any mem pos seps = Some (?mem, Some p, p + length f + 1)"
      using start rd c0 buf_rd_drop [of "p + length f" mem e "h @ 0 # r"] de Cons e0
      by (simp add: strtok_any_def Let_def p_def [symmetric])
    moreover have d: "drop p ?mem = f @ 0 # h @ 0 # r" using dp Cons by (simp add: drop_update_swap list_update_append)
    then have "c_str ?mem p = Some f" using fin by (intro c_str_drop) auto
    moreover have "drop (p + length f + 1) ?mem = h @ 0 # r"
      using drop_further [of p ?mem "f @ [0]" "h @ 0 # r"] d by simp
    then have "text_at ?mem (p + length f + 1) rest" using s(3) Cons nz set_t by (auto simp: text_at_def)
    ultimately show thesis by (rule that)
  qed
qed

end
