(* ===== verification/Wifi.thy ===== *)
theory Wifi
  imports Gps CTokens
begin

text \<open>
  The wireless module of the board test (\<open>src/board_test/wifi.c\<close>): entering the command mode, one command and its answer, the functions that read and
  set the module's parameters. The serial line is that of \<open>Gps\<close> with the second reading function, beside it \<open>inet_pton\<close>. Pointers that the code
  tests for NULL are options. A result \<open>None\<close> is an access outside an array or through NULL. Messages and delays are left out. Local variables without
  initial value are arguments.
\<close>

section \<open>Data\<close>

definition WIFI_EOK :: int where "WIFI_EOK = 0"
definition WIFI_ERROR :: int where "WIFI_ERROR = -1"
definition WIFI_ETIMEOUT :: int where "WIFI_ETIMEOUT = -2"
definition WIFI_EEMPTY :: int where "WIFI_EEMPTY = -4"

lemmas wifi_codes = WIFI_EOK_def WIFI_ERROR_def WIFI_ETIMEOUT_def WIFI_EEMPTY_def

record wifi_netp =
  np_protocol :: "byte list"
  np_type :: "byte list"
  np_port :: u16
  np_ipaddr :: "byte list"

record wifi_lann =
  lan_ip :: "byte list"
  lan_mask :: "byte list"

record wifi_wakey =
  wk_auth :: "byte list"
  wk_encry :: "byte list"
  wk_key :: "byte list"

record wifi_wap =
  wa_mode :: "byte list"
  wa_ssid :: "byte list"
  wa_channel :: "byte list"

record wifi_wmode =
  wm_mode :: "byte list"

text \<open>The sizes of the members.\<close>

definition netp_ok :: "wifi_netp \<Rightarrow> bool" where
  "netp_ok n \<longleftrightarrow> length (np_protocol n) = 4 \<and> length (np_type n) = 7 \<and> length (np_ipaddr n) = 32"

definition lann_ok :: "wifi_lann \<Rightarrow> bool" where
  "lann_ok l \<longleftrightarrow> length (lan_ip l) = 32 \<and> length (lan_mask l) = 32"

definition wakey_ok :: "wifi_wakey \<Rightarrow> bool" where
  "wakey_ok k \<longleftrightarrow> length (wk_auth k) = 7 \<and> length (wk_encry k) = 8 \<and> length (wk_key k) = 64"

definition wap_ok :: "wifi_wap \<Rightarrow> bool" where
  "wap_ok a \<longleftrightarrow> length (wa_mode a) = 6 \<and> length (wa_ssid a) = 128 \<and> length (wa_channel a) = 5"

definition wmode_ok :: "wifi_wmode \<Rightarrow> bool" where
  "wmode_ok m \<longleftrightarrow> length (wm_mode m) = 4"

record 'w wifi_os = "'w serial" +
  s_read_select :: "int \<Rightarrow> nat \<Rightarrow> int \<Rightarrow> 'w \<Rightarrow> int \<times> byte list \<times> 'w"
  inet_pton :: "int \<Rightarrow> byte list \<Rightarrow> int"

definition AF_INET :: int where "AF_INET = 2"
definition AF_INET6 :: int where "AF_INET6 = 10"

section \<open>Addresses\<close>

definition invalid_ipaddr :: "('w, 'x) wifi_os_scheme \<Rightarrow> byte list option \<Rightarrow> int option" where
  "invalid_ipaddr os s =
     (case s of
        None \<Rightarrow> Some WIFI_ERROR
      | Some mem \<Rightarrow> do {
          c \<leftarrow> buf_rd mem 0;
          if c = 0 then Some WIFI_ERROR
          else do {
            t \<leftarrow> c_str mem 0;
            if inet_pton os AF_INET t = 1 then Some WIFI_EOK
            else if inet_pton os AF_INET6 t = 1 then Some WIFI_EOK
            else Some WIFI_ERROR
          }
        })"

section \<open>One command\<close>

text \<open>
  Octets that were read, at the start of a buffer. \<open>memset(rxbuf, 0, sizeof(rxbuf))\<close> clears as many octets as a pointer has.
\<close>

definition read_into :: "byte list \<Rightarrow> byte list \<Rightarrow> byte list" where
  "read_into buf bs = take (length buf) (bs @ drop (length bs) buf)"

definition sendAT :: "('w, 'x) wifi_os_scheme \<Rightarrow> int \<Rightarrow> byte list option \<Rightarrow> byte list \<Rightarrow> 'w \<Rightarrow> (int \<times> byte list \<times> 'w) option" where
  "sendAT os fd cmd rxbuf w =
     (if fd = 0 then Some (WIFI_ERROR, rxbuf, w)
      else case cmd of
        None \<Rightarrow> Some (WIFI_ERROR, rxbuf, w)
      | Some cmd \<Rightarrow> do {
          text \<leftarrow> c_str cmd 0;
          case s_send os fd text w of (ret, w) \<Rightarrow>
            if ret < 0 then Some (WIFI_ERROR, rxbuf, w)
            else do {
              rxbuf \<leftarrow> memcpy rxbuf 0 (replicate 4 0) 0 4;
              case s_read os fd 1024 1500 w of (ret, bs, w) \<Rightarrow>
                let rxbuf = read_into rxbuf bs in
                if ret < 0 then Some (ret, rxbuf, w)
                else if ret = 0 then Some (WIFI_EEMPTY, rxbuf, w)
                else Some (WIFI_EOK, rxbuf, w)
            }
        })"

definition wifi_resease :: "('w, 'x) wifi_os_scheme \<Rightarrow> lib_serial \<Rightarrow> 'w \<Rightarrow> 'w option" where
  "wifi_resease os serial w = do {
     (ret, rxbuf, w) \<leftarrow> sendAT os (sfd serial) (Some (str ''AT+ENTM'' @ [13, 0])) (replicate 1024 0) w;
     Some (s_close os serial w)
   }"

text \<open>Three times \<open>+\<close>, then \<open>a\<close> is awaited and sent back, and any answer is awaited.\<close>

definition init_AT_mode :: "('w, 'x) wifi_os_scheme \<Rightarrow> int \<Rightarrow> 'w \<Rightarrow> int \<times> 'w" where
  "init_AT_mode os fd w =
     (case s_send os fd [0x2b] w of (ret, w) \<Rightarrow> if ret < 0 then (WIFI_ERROR, w) else
      case s_send os fd [0x2b] w of (ret, w) \<Rightarrow> if ret < 0 then (WIFI_ERROR, w) else
      case s_send os fd [0x2b] w of (ret, w) \<Rightarrow> if ret < 0 then (WIFI_ERROR, w) else
      case s_read_select os fd 1024 1500 w of (ret, bs, w) \<Rightarrow>
        if ret < 0 then (WIFI_ETIMEOUT, w)
        else if read_into (replicate 1024 0) bs ! 0 \<noteq> 97 then (WIFI_ERROR, w)
        else case s_send os fd [97] w of (ret, w) \<Rightarrow> if ret < 0 then (WIFI_ERROR, w) else
          case s_read os fd 1024 1000 w of (ret, bs, w) \<Rightarrow>
            if ret < 0 then (WIFI_ETIMEOUT, w) else (WIFI_EOK, w))"

definition wifi_init :: "('w, 'x) wifi_os_scheme \<Rightarrow> lib_serial \<Rightarrow> 'w \<Rightarrow> int \<times> lib_serial \<times> 'w" where
  "wifi_init os serial w =
     (case s_init os serial w of (ret, serial, w) \<Rightarrow>
        if ret < 0 then (WIFI_ERROR, serial, w)
        else case init_AT_mode os (sfd serial) w of (ret, w) \<Rightarrow>
          if ret < 0 then (WIFI_ERROR, serial, w) else (WIFI_EOK, serial, w))"

section \<open>Reading parameters\<close>

definition seps :: "byte list" where
  "seps = str ''=,'' @ [13]"

definition seps_line :: "byte list" where
  "seps_line = str ''='' @ [10]"

definition wifi_get_lann ::
  "('w, 'x) wifi_os_scheme \<Rightarrow> int \<Rightarrow> wifi_lann option \<Rightarrow> 'w \<Rightarrow> (int \<times> wifi_lann option \<times> 'w) option" where
  "wifi_get_lann os fd lann w =
     (case lann of
        None \<Rightarrow> Some (WIFI_ERROR, None, w)
      | Some lann \<Rightarrow> do {
          (ret, buf, w) \<leftarrow> sendAT os fd (Some (str ''AT+LANN'' @ [13, 0])) (replicate 1024 0) w;
          if ret < 0 then Some (WIFI_ERROR, Some lann, w)
          else do {
            (buf, p, pos) \<leftarrow> strtok_any buf 0 seps;
            (buf, p, pos) \<leftarrow> strtok_any buf pos seps;
            case p of None \<Rightarrow> Some (WIFI_ERROR, Some lann, w) | Some _ \<Rightarrow> do {
            (buf, p, pos) \<leftarrow> strtok_any buf pos seps;
            case p of None \<Rightarrow> Some (WIFI_ERROR, Some lann, w) | Some p \<Rightarrow> do {
            x \<leftarrow> strcpy (lan_ip lann) buf p;
            let lann = lann\<lparr>lan_ip := x\<rparr>;
            (buf, p, pos) \<leftarrow> strtok_any buf pos seps;
            case p of None \<Rightarrow> Some (WIFI_ERROR, Some lann, w) | Some p \<Rightarrow> do {
            x \<leftarrow> strcpy (lan_mask lann) buf p;
            let lann = lann\<lparr>lan_mask := x\<rparr>;
            (buf, p, pos) \<leftarrow> strtok_any buf pos seps;
            Some (WIFI_EOK, Some lann, w)
          }}}}
        })"

definition wifi_get_netp ::
  "('w, 'x) wifi_os_scheme \<Rightarrow> int \<Rightarrow> wifi_netp option \<Rightarrow> 'w \<Rightarrow> (int \<times> wifi_netp option \<times> 'w) option" where
  "wifi_get_netp os fd netp w =
     (case netp of
        None \<Rightarrow> Some (WIFI_ERROR, None, w)
      | Some netp \<Rightarrow> do {
          (ret, buf, w) \<leftarrow> sendAT os fd (Some (str ''AT+NETP'' @ [13, 0])) (replicate 1024 0) w;
          if ret < 0 then Some (WIFI_ERROR, Some netp, w)
          else do {
            (buf, p, pos) \<leftarrow> strtok_any buf 0 seps;
            (buf, p, pos) \<leftarrow> strtok_any buf pos seps;
            case p of None \<Rightarrow> Some (WIFI_ERROR, Some netp, w) | Some _ \<Rightarrow> do {
            (buf, p, pos) \<leftarrow> strtok_any buf pos seps;
            case p of None \<Rightarrow> Some (WIFI_ERROR, Some netp, w) | Some p \<Rightarrow> do {
            x \<leftarrow> strcpy (np_protocol netp) buf p;
            let netp = netp\<lparr>np_protocol := x\<rparr>;
            (buf, p, pos) \<leftarrow> strtok_any buf pos seps;
            case p of None \<Rightarrow> Some (WIFI_ERROR, Some netp, w) | Some p \<Rightarrow> do {
            x \<leftarrow> strcpy (np_type netp) buf p;
            let netp = netp\<lparr>np_type := x\<rparr>;
            (buf, p, pos) \<leftarrow> strtok_any buf pos seps;
            case p of None \<Rightarrow> Some (WIFI_ERROR, Some netp, w) | Some p \<Rightarrow> do {
            t \<leftarrow> c_str buf p;
            let netp = netp\<lparr>np_port := word_of_int (atoi t)\<rparr>;
            (buf, p, pos) \<leftarrow> strtok_any buf pos seps;
            case p of None \<Rightarrow> Some (WIFI_ERROR, Some netp, w) | Some p \<Rightarrow> do {
            x \<leftarrow> strcpy (np_ipaddr netp) buf p;
            Some (WIFI_EOK, Some (netp\<lparr>np_ipaddr := x\<rparr>), w)
          }}}}}}
        })"

definition wifi_get_wakey ::
  "('w, 'x) wifi_os_scheme \<Rightarrow> int \<Rightarrow> wifi_wakey option \<Rightarrow> 'w \<Rightarrow> (int \<times> wifi_wakey option \<times> 'w) option" where
  "wifi_get_wakey os fd wakey w =
     (case wakey of
        None \<Rightarrow> Some (WIFI_ERROR, None, w)
      | Some wakey \<Rightarrow> do {
          (ret, buf, w) \<leftarrow> sendAT os fd (Some (str ''AT+WAKEY'' @ [13, 0])) (replicate 1024 0) w;
          if ret < 0 then Some (WIFI_ERROR, Some wakey, w)
          else do {
            (buf, p, pos) \<leftarrow> strtok_any buf 0 seps;
            (buf, p, pos) \<leftarrow> strtok_any buf pos seps;
            case p of None \<Rightarrow> Some (WIFI_ERROR, Some wakey, w) | Some _ \<Rightarrow> do {
            (buf, p, pos) \<leftarrow> strtok_any buf pos seps;
            case p of None \<Rightarrow> Some (WIFI_ERROR, Some wakey, w) | Some p \<Rightarrow> do {
            x \<leftarrow> strcpy (wk_auth wakey) buf p;
            let wakey = wakey\<lparr>wk_auth := x\<rparr>;
            (buf, p, pos) \<leftarrow> strtok_any buf pos seps;
            case p of None \<Rightarrow> Some (WIFI_ERROR, Some wakey, w) | Some p \<Rightarrow> do {
            x \<leftarrow> strcpy (wk_encry wakey) buf p;
            let wakey = wakey\<lparr>wk_encry := x\<rparr>;
            (buf, p, pos) \<leftarrow> strtok_any buf pos seps;
            case p of None \<Rightarrow> Some (WIFI_ERROR, Some wakey, w) | Some p \<Rightarrow> do {
            x \<leftarrow> strcpy (wk_key wakey) buf p;
            Some (WIFI_EOK, Some (wakey\<lparr>wk_key := x\<rparr>), w)
          }}}}}
        })"

definition wifi_get_wap ::
  "('w, 'x) wifi_os_scheme \<Rightarrow> int \<Rightarrow> wifi_wap option \<Rightarrow> 'w \<Rightarrow> (int \<times> wifi_wap option \<times> 'w) option" where
  "wifi_get_wap os fd wap w =
     (case wap of
        None \<Rightarrow> Some (WIFI_ERROR, None, w)
      | Some wap \<Rightarrow> do {
          (ret, buf, w) \<leftarrow> sendAT os fd (Some (str ''AT+WAP'' @ [13, 0])) (replicate 1024 0) w;
          if ret < 0 then Some (WIFI_ERROR, Some wap, w)
          else do {
            (buf, p, pos) \<leftarrow> strtok_any buf 0 seps;
            (buf, p, pos) \<leftarrow> strtok_any buf pos seps;
            case p of None \<Rightarrow> Some (WIFI_ERROR, Some wap, w) | Some _ \<Rightarrow> do {
            (buf, p, pos) \<leftarrow> strtok_any buf pos seps;
            case p of None \<Rightarrow> Some (WIFI_ERROR, Some wap, w) | Some p \<Rightarrow> do {
            x \<leftarrow> strcpy (wa_mode wap) buf p;
            let wap = wap\<lparr>wa_mode := x\<rparr>;
            (buf, p, pos) \<leftarrow> strtok_any buf pos seps;
            case p of None \<Rightarrow> Some (WIFI_ERROR, Some wap, w) | Some p \<Rightarrow> do {
            x \<leftarrow> strcpy (wa_ssid wap) buf p;
            let wap = wap\<lparr>wa_ssid := x\<rparr>;
            (buf, p, pos) \<leftarrow> strtok_any buf pos seps;
            case p of None \<Rightarrow> Some (WIFI_ERROR, Some wap, w) | Some p \<Rightarrow> do {
            x \<leftarrow> strcpy (wa_channel wap) buf p;
            Some (WIFI_EOK, Some (wap\<lparr>wa_channel := x\<rparr>), w)
          }}}}}
        })"

definition wifi_get_wmode ::
  "('w, 'x) wifi_os_scheme \<Rightarrow> int \<Rightarrow> wifi_wmode option \<Rightarrow> 'w \<Rightarrow> (int \<times> wifi_wmode option \<times> 'w) option" where
  "wifi_get_wmode os fd wmode w =
     (case wmode of
        None \<Rightarrow> Some (WIFI_ERROR, None, w)
      | Some wmode \<Rightarrow> do {
          (ret, buf, w) \<leftarrow> sendAT os fd (Some (str ''AT+WMODE'' @ [13, 0])) (replicate 1024 0) w;
          if ret < 0 then Some (WIFI_ERROR, Some wmode, w)
          else do {
            (buf, p, pos) \<leftarrow> strtok_any buf 0 seps_line;
            (buf, p, pos) \<leftarrow> strtok_any buf pos seps_line;
            case p of None \<Rightarrow> Some (WIFI_ERROR, Some wmode, w) | Some _ \<Rightarrow> do {
            (buf, p, pos) \<leftarrow> strtok_any buf pos seps;
            case p of None \<Rightarrow> Some (WIFI_ERROR, Some wmode, w) | Some p \<Rightarrow> do {
            x \<leftarrow> strcpy (wm_mode wmode) buf p;
            Some (WIFI_EOK, Some (wmode\<lparr>wm_mode := x\<rparr>), w)
          }}}
        })"

section \<open>Setting parameters\<close>

text \<open>
  The command is built with \<open>strcat\<close> in an array that is as long as the literal it starts with.
  \<open>strcats\<close> is a sequence of these calls.
\<close>

primrec strcats :: "byte list \<Rightarrow> byte list list \<Rightarrow> byte list option" where
  "strcats dst [] = Some dst"
| "strcats dst (s # ss) = do { dst \<leftarrow> strcat dst s; strcats dst ss }"

text \<open>The result of \<open>wifi_set_lann\<close> at success is a plain zero.\<close>

definition wifi_set_lann :: "('w, 'x) wifi_os_scheme \<Rightarrow> int \<Rightarrow> wifi_lann option \<Rightarrow> 'w \<Rightarrow> (int \<times> 'w) option" where
  "wifi_set_lann os fd lann w =
     (if fd = 0 then Some (WIFI_ERROR, w)
      else do {
        lann \<leftarrow> lann;
        ret \<leftarrow> invalid_ipaddr os (Some (lan_ip lann));
        if ret < 0 then Some (WIFI_ERROR, w)
        else do {
          ret \<leftarrow> invalid_ipaddr os (Some (lan_mask lann));
          if ret < 0 then Some (WIFI_ERROR, w)
          else do {
            s \<leftarrow> strcats (lit ''AT+LANN='') [lan_ip lann, lit '','', lan_mask lann, [13, 0]];
            (ret, rxbuf, w) \<leftarrow> sendAT os fd (Some s) (replicate 1024 0) w;
            if ret < 0 then Some (WIFI_ERROR, w) else Some (0, w)
          }
        }
      })"

text \<open>The second test of the type looks at the protocol.\<close>

definition wifi_set_netp ::
  "('w, 'x) wifi_os_scheme \<Rightarrow> byte list \<Rightarrow> byte list \<Rightarrow> int \<Rightarrow> wifi_netp option \<Rightarrow> 'w \<Rightarrow> (int \<times> 'w) option" where
  "wifi_set_netp os port rxbuf fd netp w =
     (case netp of
        None \<Rightarrow> Some (WIFI_ERROR, w)
      | Some netp \<Rightarrow>
          if \<not> str_is (np_protocol netp) ''TCP'' \<and> \<not> str_is (np_protocol netp) ''UDP'' then Some (WIFI_ERROR, w)
          else if \<not> str_is (np_type netp) ''SERVER'' \<and> \<not> str_is (np_protocol netp) ''CLIENT'' then Some (WIFI_ERROR, w)
          else if np_port netp > 32767 \<or> np_port netp < 100 then Some (WIFI_ERROR, w)
          else do {
            ret \<leftarrow> invalid_ipaddr os (Some (np_ipaddr netp));
            if ret < 0 then Some (WIFI_ERROR, w)
            else do {
              port \<leftarrow> strcpy port (lit (udec (unat (np_port netp)))) 0;
              s \<leftarrow> strcats (lit ''AT+NETP='')
                [np_protocol netp, lit '','', np_type netp, lit '','', port, lit '','', np_ipaddr netp, [13, 0]];
              (ret, rxbuf, w) \<leftarrow> sendAT os fd (Some s) rxbuf w;
              if ret < 0 then Some (WIFI_ERROR, w) else Some (WIFI_EOK, w)
            }
          })"

definition auth_known :: "byte list \<Rightarrow> bool" where
  "auth_known s \<longleftrightarrow> str_is s ''OPEN'' \<or> str_is s ''SHARED'' \<or> str_is s ''WPAPSK''"

definition encry_known :: "byte list \<Rightarrow> bool" where
  "encry_known s \<longleftrightarrow> str_is s ''NONE'' \<or> str_is s ''WEP-H'' \<or> str_is s ''WEP-A'' \<or> str_is s ''TKIP'' \<or>
     str_is s ''AES'' \<or> str_is s ''TKIPAES''"

definition wifi_set_wakey :: "('w, 'x) wifi_os_scheme \<Rightarrow> int \<Rightarrow> wifi_wakey option \<Rightarrow> 'w \<Rightarrow> (int \<times> 'w) option" where
  "wifi_set_wakey os fd wakey w =
     (case wakey of
        None \<Rightarrow> Some (WIFI_ERROR, w)
      | Some wakey \<Rightarrow>
          if \<not> auth_known (wk_auth wakey) then Some (WIFI_ERROR, w)
          else if \<not> encry_known (wk_encry wakey) then Some (WIFI_ERROR, w)
          else do {
            s \<leftarrow> strcats (lit ''AT+WAKEY='')
              ([wk_auth wakey, lit '','', wk_encry wakey] @
               (if str_is (wk_auth wakey) ''OPEN'' then [] else [lit '','', wk_key wakey]) @ [[13, 0]]);
            (ret, rxbuf, w) \<leftarrow> sendAT os fd (Some s) (replicate 1024 0) w;
            if ret < 0 then Some (WIFI_ERROR, w) else Some (WIFI_EOK, w)
          })"

definition wifi_mode_known :: "byte list \<Rightarrow> bool" where
  "wifi_mode_known s \<longleftrightarrow> str_is s ''11BG'' \<or> str_is s ''11B'' \<or> str_is s ''11G'' \<or> str_is s ''11BGN'' \<or> str_is s ''11N''"

definition channel_known :: "byte list \<Rightarrow> bool" where
  "channel_known s \<longleftrightarrow> str_is s ''CH1'' \<or> str_is s ''AUTO'' \<or> str_is s ''CH2'' \<or> str_is s ''CH3'' \<or> str_is s ''CH4'' \<or>
     str_is s ''CH5'' \<or> str_is s ''CH6'' \<or> str_is s ''CH7'' \<or> str_is s ''CH8'' \<or> str_is s ''CH9'' \<or>
     str_is s ''CH10'' \<or> str_is s ''CH11''"

definition wifi_set_wap :: "('w, 'x) wifi_os_scheme \<Rightarrow> int \<Rightarrow> wifi_wap option \<Rightarrow> 'w \<Rightarrow> (int \<times> 'w) option" where
  "wifi_set_wap os fd wap w =
     (case wap of
        None \<Rightarrow> Some (WIFI_ERROR, w)
      | Some wap \<Rightarrow>
          if \<not> wifi_mode_known (wa_mode wap) then Some (WIFI_ERROR, w)
          else if \<not> channel_known (wa_channel wap) then Some (WIFI_ERROR, w)
          else do {
            s \<leftarrow> strcats (lit ''AT+WAP='') [wa_mode wap, lit '','', wa_ssid wap, lit '','', wa_channel wap, [13, 0]];
            (ret, rxbuf, w) \<leftarrow> sendAT os fd (Some s) (replicate 1024 0) w;
            if ret < 0 then Some (WIFI_ERROR, w) else Some (WIFI_EOK, w)
          })"

definition wifi_set_wmode :: "('w, 'x) wifi_os_scheme \<Rightarrow> int \<Rightarrow> wifi_wmode option \<Rightarrow> 'w \<Rightarrow> (int \<times> 'w) option" where
  "wifi_set_wmode os fd wmode w =
     (case wmode of
        None \<Rightarrow> Some (WIFI_ERROR, w)
      | Some wmode \<Rightarrow>
          if \<not> str_case_is (wm_mode wmode) ''STA'' \<and> \<not> str_case_is (wm_mode wmode) ''AP'' then Some (WIFI_ERROR, w)
          else do {
            s \<leftarrow> strcats (lit ''AT+WMODE='') [wm_mode wmode, [13, 0]];
            (ret, rxbuf, w) \<leftarrow> sendAT os fd (Some s) (replicate 1024 0) w;
            if ret < 0 then Some (WIFI_ERROR, w) else Some (WIFI_EOK, w)
          })"

section \<open>Single parameters\<close>

text \<open>The structures on the stack are the arguments \<open>lann\<close>, \<open>netp\<close>, \<open>wakey\<close> and \<open>wap\<close>.\<close>

definition wifi_get_ip ::
  "('w, 'x) wifi_os_scheme \<Rightarrow> wifi_lann \<Rightarrow> int \<Rightarrow> byte list \<Rightarrow> 'w \<Rightarrow> (int \<times> byte list \<times> 'w) option" where
  "wifi_get_ip os lann fd ip w =
     (if fd = -1 then Some (WIFI_ERROR, ip, w)
      else do {
        (ret, lann, w) \<leftarrow> wifi_get_lann os fd (Some lann) w;
        if ret < 0 then Some (WIFI_ERROR, ip, w)
        else do { lann \<leftarrow> lann; ip \<leftarrow> strcpy ip (lan_ip lann) 0; Some (WIFI_EOK, ip, w) }
      })"

definition wifi_set_ip :: "('w, 'x) wifi_os_scheme \<Rightarrow> wifi_lann \<Rightarrow> int \<Rightarrow> byte list \<Rightarrow> 'w \<Rightarrow> (int \<times> 'w) option" where
  "wifi_set_ip os lann fd ip w =
     (if fd = -1 then Some (WIFI_ERROR, w)
      else do {
        x \<leftarrow> strcpy (lan_ip lann) ip 0;
        y \<leftarrow> strcpy (lan_mask lann) (lit ''255.255.255.0'') 0;
        (ret, w) \<leftarrow> wifi_set_lann os fd (Some (lann\<lparr>lan_ip := x, lan_mask := y\<rparr>)) w;
        if ret < 0 then Some (WIFI_ERROR, w) else Some (WIFI_EOK, w)
      })"

definition wifi_get_port ::
  "('w, 'x) wifi_os_scheme \<Rightarrow> wifi_netp \<Rightarrow> int \<Rightarrow> u16 \<Rightarrow> 'w \<Rightarrow> (int \<times> u16 \<times> 'w) option" where
  "wifi_get_port os netp fd port w =
     (if fd = -1 then Some (WIFI_ERROR, port, w)
      else do {
        (ret, netp, w) \<leftarrow> wifi_get_netp os fd (Some netp) w;
        if ret < 0 then Some (WIFI_ERROR, port, w)
        else do { netp \<leftarrow> netp; Some (WIFI_EOK, np_port netp, w) }
      })"

definition wifi_set_port ::
  "('w, 'x) wifi_os_scheme \<Rightarrow> byte list \<Rightarrow> byte list \<Rightarrow> wifi_netp \<Rightarrow> int \<Rightarrow> u16 \<Rightarrow> 'w \<Rightarrow> (int \<times> 'w) option" where
  "wifi_set_port os stk_port stk_rxbuf netp fd port w =
     (if fd = -1 then Some (WIFI_ERROR, w)
      else do {
        x \<leftarrow> strcpy (np_protocol netp) (lit ''TCP'') 0;
        y \<leftarrow> strcpy (np_type netp) (lit ''SERVER'') 0;
        z \<leftarrow> strcpy (np_ipaddr netp) (lit ''10.10.100.100'') 0;
        (ret, w) \<leftarrow> wifi_set_netp os stk_port stk_rxbuf fd
          (Some (netp\<lparr>np_protocol := x, np_type := y, np_port := port, np_ipaddr := z\<rparr>)) w;
        if ret < 0 then Some (WIFI_ERROR, w) else Some (WIFI_EOK, w)
      })"

definition wifi_get_key ::
  "('w, 'x) wifi_os_scheme \<Rightarrow> wifi_wakey \<Rightarrow> int \<Rightarrow> byte list \<Rightarrow> 'w \<Rightarrow> (int \<times> byte list \<times> 'w) option" where
  "wifi_get_key os wakey fd key w =
     (if fd = -1 then Some (WIFI_ERROR, key, w)
      else do {
        (ret, wakey, w) \<leftarrow> wifi_get_wakey os fd (Some wakey) w;
        if ret < 0 then Some (WIFI_ERROR, key, w)
        else do { wakey \<leftarrow> wakey; key \<leftarrow> strcpy key (wk_key wakey) 0; Some (WIFI_EOK, key, w) }
      })"

definition wifi_set_key :: "('w, 'x) wifi_os_scheme \<Rightarrow> wifi_wakey \<Rightarrow> int \<Rightarrow> byte list \<Rightarrow> 'w \<Rightarrow> (int \<times> 'w) option" where
  "wifi_set_key os wakey fd key w =
     (if fd = -1 then Some (WIFI_ERROR, w)
      else do {
        x \<leftarrow> strcpy (wk_auth wakey) (lit ''WPAPSK'') 0;
        y \<leftarrow> strcpy (wk_encry wakey) (lit ''TKIPAES'') 0;
        z \<leftarrow> strcpy (wk_key wakey) key 0;
        (ret, w) \<leftarrow> wifi_set_wakey os fd (Some (wakey\<lparr>wk_auth := x, wk_encry := y, wk_key := z\<rparr>)) w;
        if ret < 0 then Some (WIFI_ERROR, w) else Some (WIFI_EOK, w)
      })"

definition wifi_get_ssid ::
  "('w, 'x) wifi_os_scheme \<Rightarrow> wifi_wap \<Rightarrow> int \<Rightarrow> byte list \<Rightarrow> 'w \<Rightarrow> (int \<times> byte list \<times> 'w) option" where
  "wifi_get_ssid os wap fd ssid w =
     (if fd = -1 then Some (WIFI_ERROR, ssid, w)
      else do {
        (ret, wap, w) \<leftarrow> wifi_get_wap os fd (Some wap) w;
        if ret < 0 then Some (WIFI_ERROR, ssid, w)
        else do { wap \<leftarrow> wap; ssid \<leftarrow> strcpy ssid (wa_ssid wap) 0; Some (WIFI_EOK, ssid, w) }
      })"

definition wifi_set_ssid :: "('w, 'x) wifi_os_scheme \<Rightarrow> wifi_wap \<Rightarrow> int \<Rightarrow> byte list \<Rightarrow> 'w \<Rightarrow> (int \<times> 'w) option" where
  "wifi_set_ssid os wap fd ssid w =
     (if fd = -1 then Some (WIFI_ERROR, w)
      else do {
        x \<leftarrow> strcpy (wa_mode wap) (lit ''11BGN'') 0;
        y \<leftarrow> strcpy (wa_ssid wap) ssid 0;
        z \<leftarrow> strcpy (wa_channel wap) (lit ''AUTO'') 0;
        (ret, w) \<leftarrow> wifi_set_wap os fd (Some (wap\<lparr>wa_mode := x, wa_ssid := y, wa_channel := z\<rparr>)) w;
        if ret < 0 then Some (WIFI_ERROR, w) else Some (WIFI_EOK, w)
      })"

end
