(* ===== verification/Board.thy ===== *)
theory Board
  imports Wifi Ctos Sha204
begin

text \<open>
  The board test (\<open>src/board_test/bicycle.c\<close>, \<open>bicycle_test.c\<close>): a program on the terminal that takes seven-octet frames from a serial line, tests the part of the board
  they name and answers with a frame. The position receiver, the wireless module, the CAN library and the authentication chip are the models of their own theories; the libraries
  that are not in the repository (modem, USB, serial number, shell) are functions of \<open>board_os\<close>. A result \<open>None\<close> is an access outside
  an array, through NULL, or a failed assertion. Messages and delays are left out.
\<close>

section \<open>The outside\<close>

record ('w, 'rb) board_os = "'w wifi_os" +
  sh_system :: "string \<Rightarrow> 'w \<Rightarrow> 'w"
  sh_popen :: "byte list \<Rightarrow> 'w \<Rightarrow> nat option \<times> 'w"
  sh_fread :: "nat \<Rightarrow> nat \<Rightarrow> 'w \<Rightarrow> byte list \<times> 'w"
  sh_pclose :: "nat \<Rightarrow> 'w \<Rightarrow> 'w"
  wl_new :: "'w \<Rightarrow> nat option \<times> 'w"
  wl_hwver_get :: "nat \<Rightarrow> int \<Rightarrow> 'w \<Rightarrow> int \<times> 'w"
  wl_destroy :: "nat option \<Rightarrow> 'w \<Rightarrow> 'w"
  ft_new :: "'w \<Rightarrow> nat option \<times> 'w"
  ft_set_interface :: "nat \<Rightarrow> int \<Rightarrow> 'w \<Rightarrow> 'w"
  ft_usb_open :: "nat \<Rightarrow> int \<Rightarrow> int \<Rightarrow> 'w \<Rightarrow> int \<times> 'w"
  ft_usb_close :: "nat \<Rightarrow> 'w \<Rightarrow> 'w"
  ft_free :: "nat \<Rightarrow> 'w \<Rightarrow> 'w"
  sn_read32 :: "u32 \<Rightarrow> 'w \<Rightarrow> int \<times> u32 \<times> 'w"
  chip_bus :: "'w bus"
  crc16_with_byte :: "byte list \<Rightarrow> u16"
  can_sys :: "'w \<Rightarrow> 'rb ctos_os \<times> 'w"
  can_writen :: "'w \<Rightarrow> can_frame_metadata \<Rightarrow> int \<times> 'w"
  can_threads :: "'rb ctos \<Rightarrow> 'w \<Rightarrow> 'rb ctos \<times> 'w"
  can_getforce :: "'rb \<Rightarrow> nat \<Rightarrow> int \<times> byte list \<times> 'rb"

text \<open>
  The state of the program: its open CAN sockets, what the CAN library allocated and nobody holds any more, and the world. Variables without initial value: the serial structure of the
  position test, the structures of the wireless test.
\<close>

record 'w board =
  open_fds :: "int set"
  orphans :: "ctos_res set list"
  world :: 'w

record stack_vars =
  v_gps_serial :: lib_serial
  v_wmode :: wifi_wmode
  v_lann :: wifi_lann

section \<open>Frames\<close>

text \<open>The exclusive or of all octets but the last two; \<open>len - 2\<close> is negative for lengths below two.\<close>

definition crc16 :: "byte list \<Rightarrow> nat \<Rightarrow> byte option" where
  "crc16 buf n = (if n - 2 \<le> length buf then Some (fold (XOR) (take (n - 2) buf) 0) else None)"

text \<open>
  The statements at the end of the tests: \<open>txbuf\<close> is \<open>55 aa 07 cmd verdict\<close>, the checksum and a zero are stored behind it, and the seven octets are sent.
\<close>

definition send_answer :: "('w, 'rb, 'x) board_os_scheme \<Rightarrow> lib_serial \<Rightarrow> byte \<Rightarrow> byte \<Rightarrow> 'w \<Rightarrow> 'w option" where
  "send_answer os serial cmd verdict w =
     (let txbuf = [0x55, 0xaa, 0x07, cmd, verdict] in
      do {
        ck \<leftarrow> crc16 txbuf (unat (txbuf ! 2));
        Some (snd (s_send os (sfd serial) (txbuf @ [ck, 0]) w))
      })"

section \<open>Connection\<close>

definition ping_command :: "byte list \<Rightarrow> int \<Rightarrow> byte list" where
  "ping_command dst count = str ''ping '' @ dst @ str ('' -c '' @ udec (nat count) @ '' | grep time= | wc -l'')"

definition checkConnect :: "('w, 'rb, 'x) board_os_scheme \<Rightarrow> byte list option \<Rightarrow> int \<Rightarrow> 'w \<Rightarrow> (int \<times> 'w) option" where
  "checkConnect os dst count w =
     (case dst of
        None \<Rightarrow> Some (-1, w)
      | Some dst \<Rightarrow>
          if count \<le> 0 then Some (-1, w)
          else do {
            dst \<leftarrow> c_str dst 0;
            cmdBuf \<leftarrow> memcpy (replicate 256 0) 0 (ping_command dst count @ [0]) 0 (length (ping_command dst count) + 1);
            cmd \<leftarrow> c_str cmdBuf 0;
            (case sh_popen os cmd w of
               (None, w) \<Rightarrow> None
             | (Some stream, w) \<Rightarrow>
                 case sh_fread os stream 15 w of (bs, w) \<Rightarrow>
                 do {
                   t \<leftarrow> c_str (take 15 (bs @ replicate 15 0) @ [0]) 0;
                   let w = sh_pclose os stream w;
                   if atoi t > 0 then Some (0, w) else Some (-1, w)
                 })
          })"

section \<open>The tests\<close>

definition GPS_DEV_NAME :: "byte list" where "GPS_DEV_NAME = str ''/dev/ttyO4''"
definition WIFI_DEV_NAME :: "byte list" where "WIFI_DEV_NAME = str ''/dev/CH340G''"

text \<open>\<open>if (rret = 0)\<close> assigns, so the line of the receiver is never closed.\<close>

definition gps_test :: "('w, 'rb, 'x) board_os_scheme \<Rightarrow> stack_vars \<Rightarrow> lib_serial \<Rightarrow> 'w \<Rightarrow> 'w option" where
  "gps_test os v serial w = do {
     (rret, gps_serial, w) \<leftarrow> gps_init (serial.truncate os) (v_gps_serial v) GPS_DEV_NAME 9600 w;
     let (verdict, w) =
       (if rret < 0 then (0x04, w)
        else case gps_gga_on (serial.truncate os) (sfd gps_serial) w of (ret, w) \<Rightarrow>
          if ret < 0 then (0x04, w)
          else case s_read os (sfd gps_serial) 7 1000 w of (ret, bs, w) \<Rightarrow>
            if ret < 0 then (0x04, w) else (0x02, w));
     send_answer os serial 0x01 verdict w
   }"

definition wifi_test :: "('w, 'rb, 'x) board_os_scheme \<Rightarrow> stack_vars \<Rightarrow> lib_serial \<Rightarrow> 'w \<Rightarrow> 'w option" where
  "wifi_test os v serial w =
     (let wifi_serial = \<lparr>sfd = 0, pathname = WIFI_DEV_NAME @ replicate (128 - length WIFI_DEV_NAME) 0, flags = O_RDWR, speed = 57600,
            databits = 8, stopbits = 1\<rparr> in
      case wifi_init os wifi_serial w of (ret, wifi_serial, w) \<Rightarrow>
        if ret < 0 then send_answer os serial 0x02 0x04 w
        else do {
          m \<leftarrow> strcpy (wm_mode (v_wmode v)) (lit ''AP'') 0;
          (ret, w) \<leftarrow> wifi_set_wmode os (sfd wifi_serial) (Some ((v_wmode v)\<lparr>wm_mode := m\<rparr>)) w;
          ip \<leftarrow> strcpy (lan_ip (v_lann v)) (lit ''192.168.100.254'') 0;
          mask \<leftarrow> strcpy (lan_mask (v_lann v)) (lit ''255.255.255.0'') 0;
          (ret, w) \<leftarrow> wifi_set_lann os (sfd wifi_serial) (Some ((v_lann v)\<lparr>lan_ip := ip, lan_mask := mask\<rparr>)) w;
          w \<leftarrow> wifi_resease os wifi_serial w;
          let w = sh_system os ''ifconfig eth0 192.168.100.1'' w;
          (ret, w) \<leftarrow> checkConnect os (Some (lit ''192.168.100.254'')) 4 w;
          send_answer os serial 0x02 (if ret = 0 then 0x02 else 0x04) w
        })"

definition thrg_test :: "('w, 'rb, 'x) board_os_scheme \<Rightarrow> lib_serial \<Rightarrow> 'w \<Rightarrow> 'w option" where
  "thrg_test os serial w =
     (let (wl, w) = wl_new os w;
          (verdict, w) =
            (case wl of
               None \<Rightarrow> (0x04, w)
             | Some h \<Rightarrow> (case wl_hwver_get os h 2000 w of (ret, w) \<Rightarrow> if ret < 0 then (0x04, w) else (0x02, w))) in
      do {
        w \<leftarrow> send_answer os serial 0x04 verdict w;
        Some (wl_destroy os wl w)
      })"

definition can_package_make :: "('w, 'rb, 'x) board_os_scheme \<Rightarrow> byte list \<Rightarrow> byte \<Rightarrow> byte \<Rightarrow> byte \<Rightarrow> (nat \<times> byte list) option" where
  "can_package_make os dat dst src cmd =
     (let head = [0x55, 0xaa, src, dst, cmd, 0] @ store16 5 @ str ''ab00&'' in
      do {
        dat \<leftarrow> memcpy dat 0 head 0 13;
        dat \<leftarrow> memcpy dat 13 (store16 (crc16_with_byte os (take 13 dat))) 0 2;
        Some (15, dat)
      })"

text \<open>
  The checksum of the answer is computed over the packet for the CAN bus, with the packet's source address as the length. The structure is destroyed when there is none, and kept when there is one.
\<close>

definition can_conf :: ctos_config where
  "can_conf = \<lparr>cf_bus = 1, cf_id = 0, cf_baud = BAUD_RATE_125kbps, cf_buf_num = 32, cf_rb_sz = 4 * 1024\<rparr>"

definition can_answer :: "('w, 'rb, 'x) board_os_scheme \<Rightarrow> lib_serial \<Rightarrow> byte \<Rightarrow> byte list \<Rightarrow> 'w \<Rightarrow> 'w option" where
  "can_answer os serial verdict txbuf w = do {
     ck \<leftarrow> crc16 txbuf (unat (txbuf ! 2));
     Some (snd (s_send os (sfd serial) [0x55, 0xaa, 0x07, 0x08, verdict, ck, 0] w))
   }"

definition can_test :: "('w, 'rb, 'x) board_os_scheme \<Rightarrow> lib_serial \<Rightarrow> 'w board \<Rightarrow> 'w board option" where
  "can_test os serial b =
     (let (sys, w) = can_sys os (world b) in
      do {
        (ctos, fds, live) \<leftarrow> lib_ctos_create sys can_conf (open_fds b);
        case ctos of
          None \<Rightarrow> do { w \<leftarrow> can_answer os serial 0x04 (replicate 512 0) w; None }
        | Some ctos \<Rightarrow> do {
            (n, txbuf) \<leftarrow> can_package_make os (replicate 512 0) 0x7f 0x00 0x81;
            (ret, ctos, w) \<leftarrow> (if n > 0 then lib_ctos_put (can_writen os) ctos 0x7f txbuf (of_nat n) w else Some (-1, ctos, w));
            let (ctos, w) = can_threads os ctos w;
            let (ret, bs, ctos) = lib_ctos_get (can_getforce os) ctos 512;
            let rxbuf = read_into (replicate 512 0) bs;
            let verdict = (if ret > 0 \<and> rxbuf ! 8 = 97 \<and> rxbuf ! 9 = 97 then 0x02 else 0x04);
            w \<leftarrow> can_answer os serial verdict txbuf w;
            Some \<lparr>open_fds = fds, orphans = orphans b @ [live], world = w\<rparr>
          }
      })"

text \<open>Without an address there is no answer. The address is up to 32 octets, without room for a NUL.\<close>

definition rj45_test :: "('w, 'rb, 'x) board_os_scheme \<Rightarrow> lib_serial \<Rightarrow> 'w \<Rightarrow> 'w option" where
  "rj45_test os serial w =
     (case s_read os (sfd serial) 32 1500 w of (ret, bs, w) \<Rightarrow>
        if ret < 0 then Some w
        else do {
          (ret, w) \<leftarrow> checkConnect os (Some (read_into (replicate 32 0) bs)) 4 w;
          send_answer os serial 0x10 (if ret = 0 then 0x02 else 0x04) w
        })"

definition INTERFACE_A :: int where "INTERFACE_A = 1"

definition ftdi_test :: "('w, 'rb, 'x) board_os_scheme \<Rightarrow> lib_serial \<Rightarrow> 'w \<Rightarrow> 'w option" where
  "ftdi_test os serial w =
     (let (ftdi, w) = ft_new os w;
          (verdict, w) =
            (case ftdi of
               None \<Rightarrow> (0x04, w)
             | Some h \<Rightarrow>
                 let w = ft_set_interface os h INTERFACE_A w;
                     (f, w) = ft_usb_open os h 0x0403 0x6001 w;
                     (verdict, w) = (if f < 0 then (0x04, w) else (0x02, ft_usb_close os h w))
                 in (verdict, ft_free os h w))
      in send_answer os serial 0x11 verdict w)"

definition i2c_test :: "('w, 'rb, 'x) board_os_scheme \<Rightarrow> lib_serial \<Rightarrow> 'w \<Rightarrow> 'w option" where
  "i2c_test os serial w =
     (case sn_read32 os 1 w of (ret, sn32, w) \<Rightarrow> send_answer os serial 0x12 (if ret = 0 then 0x02 else 0x04) w)"

definition encryption_test :: "('w, 'rb, 'x) board_os_scheme \<Rightarrow> lib_serial \<Rightarrow> 'w \<Rightarrow> 'w option" where
  "encryption_test os serial w = do {
     (ret, fd, w) \<leftarrow> LIB_Encry_Verify (chip_bus os) w;
     send_answer os serial 0x14 (if ret = LIB_EV_OK then 0x02 else 0x04) w
   }"

definition ttyO2_test :: "'w \<Rightarrow> 'w option" where
  "ttyO2_test w = Some w"

section \<open>Commands\<close>

definition on_world :: "('w \<Rightarrow> 'w option) \<Rightarrow> 'w board \<Rightarrow> 'w board option" where
  "on_world f b = map_option (\<lambda>w. b\<lparr>world := w\<rparr>) (f (world b))"

definition analysts ::
  "('w, 'rb, 'x) board_os_scheme \<Rightarrow> stack_vars \<Rightarrow> byte list \<Rightarrow> lib_serial \<Rightarrow> 'w board \<Rightarrow> (int \<times> 'w board) option" where
  "analysts os v rxbuf serial b = do {
     h0 \<leftarrow> buf_rd rxbuf 0;
     h1 \<leftarrow> buf_rd rxbuf 1;
     if h0 \<noteq> 0x55 \<or> h1 \<noteq> 0xaa then Some (-1, b)
     else do {
     n \<leftarrow> buf_rd rxbuf 2;
     if n \<noteq> 0x07 then Some (-1, b)
     else do {
     check \<leftarrow> crc16 rxbuf (unat n);
     c \<leftarrow> buf_rd rxbuf 5;
     if c \<noteq> check then Some (-1, b)
     else do {
     tail \<leftarrow> buf_rd rxbuf 6;
     if tail \<noteq> 0x00 then Some (-1, b)
     else do {
     cmd \<leftarrow> buf_rd rxbuf 3;
     on \<leftarrow> buf_rd rxbuf 4;
     b \<leftarrow>
       (if on \<noteq> 1 then Some b
        else if cmd = 0x01 then on_world (gps_test os v serial) b
        else if cmd = 0x02 then on_world (wifi_test os v serial) b
        else if cmd = 0x04 then on_world (thrg_test os serial) b
        else if cmd = 0x08 then can_test os serial b
        else if cmd = 0x10 then on_world (rj45_test os serial) b
        else if cmd = 0x11 then on_world (ftdi_test os serial) b
        else if cmd = 0x12 then on_world (i2c_test os serial) b
        else if cmd = 0x14 then on_world (encryption_test os serial) b
        else if cmd = 0x18 then on_world ttyO2_test b
        else Some b);
     Some (0, b)
   }}}}}"

section \<open>The program\<close>

definition DEV_NAME :: "byte list" where "DEV_NAME = str ''/dev/ttyO1''"

text \<open>\<open>memset(txbuf, 0, sizeof(1024))\<close> clears the first four octets; \<open>stk\<close> is what the array held.\<close>

definition clear_tx :: "byte list \<Rightarrow> byte list" where
  "clear_tx stk = replicate 4 0 @ drop 4 stk"

text \<open>One pass of the loop; it never ends.\<close>

definition board_pass ::
  "('w, 'rb, 'x) board_os_scheme \<Rightarrow> stack_vars \<Rightarrow> byte list \<Rightarrow> lib_serial \<Rightarrow> 'w board \<Rightarrow> 'w board option" where
  "board_pass os v txbuf serial b =
     (case s_read os (sfd serial) 7 1500 (world b) of (ret, bs, w) \<Rightarrow>
        if ret \<le> 0 then Some (b\<lparr>world := w\<rparr>)
        else do {
          (ret, b) \<leftarrow> analysts os v (read_into (replicate 1024 0) bs) serial (b\<lparr>world := w\<rparr>);
          if ret < 0 then Some (b\<lparr>world := snd (s_send os (sfd serial) (take 7 txbuf) (world b))\<rparr>) else Some b
        })"

primrec board_passes ::
  "nat \<Rightarrow> ('w, 'rb, 'x) board_os_scheme \<Rightarrow> stack_vars \<Rightarrow> byte list \<Rightarrow> lib_serial \<Rightarrow> 'w board \<Rightarrow> 'w board option" where
  "board_passes 0 os v txbuf serial b = Some b"
| "board_passes (Suc n) os v txbuf serial b = do { b \<leftarrow> board_pass os v txbuf serial b; board_passes n os v txbuf serial b }"

text \<open>The program up to its \<open>n\<close>th pass, \<open>Inl\<close> when it leaves with \<open>exit\<close>. The structure is a global and starts as zeros.\<close>

definition board_main ::
  "nat \<Rightarrow> ('w, 'rb, 'x) board_os_scheme \<Rightarrow> stack_vars \<Rightarrow> byte list \<Rightarrow> 'w \<Rightarrow> ('w + 'w board) option" where
  "board_main n os v stk w =
     (let serial = \<lparr>sfd = 0, pathname = DEV_NAME @ replicate (128 - length DEV_NAME) 0, flags = O_RDWR, speed = 115200,
            databits = 8, stopbits = 1\<rparr> in
      case s_init os serial w of (ret, serial, w) \<Rightarrow>
        if ret < 0 then Some (Inl w)
        else map_option Inr (board_passes n os v (clear_tx stk) serial \<lparr>open_fds = {}, orphans = [], world = w\<rparr>))"

end
