(* ===== verification/WifiProps.thy ===== *)
theory WifiProps
  imports Wifi
begin

text \<open>
  The functions of the wireless module. Reading: what is taken from an answer is given by the list of its tokens, for all five structures. Setting: the command never fits its
  array, so none of the functions ever sends anything.
\<close>

section \<open>Reading\<close>

text \<open>Storing a token as a string in a member of a structure, and filling the members one after the other with tokens.\<close>

definition put_str :: "byte list \<Rightarrow> byte list \<Rightarrow> byte list option" where
  "put_str x dst = (if length x < length dst then Some (x @ 0 # drop (length x + 1) dst) else None)"

fun fill :: "(byte list \<Rightarrow> 's \<Rightarrow> 's option) list \<Rightarrow> byte list list \<Rightarrow> 's \<Rightarrow> (int \<times> 's) option" where
  "fill [] ts s = Some (WIFI_EOK, s)"
| "fill (f # fs) [] s = Some (WIFI_ERROR, s)"
| "fill (f # fs) (t # ts) s = do { s \<leftarrow> f t s; fill fs ts s }"

lemma strcpy_put_str: "c_str mem p = Some x \<Longrightarrow> strcpy dst mem p = put_str x dst"
  by (auto simp: strcpy_def put_str_def memcpy_def)

text \<open>The statements of the functions from the third token on.\<close>

fun read_fields ::
  "byte list \<Rightarrow> (byte list \<Rightarrow> nat \<Rightarrow> 's \<Rightarrow> (int \<times> 's) option) \<Rightarrow> (byte list \<Rightarrow> 's \<Rightarrow> 's option) list \<Rightarrow> byte list \<Rightarrow> nat \<Rightarrow> 's
   \<Rightarrow> (int \<times> 's) option" where
  "read_fields sp k [] mem pos s = k mem pos s"
| "read_fields sp k (f # fs) mem pos s = do {
     (mem, p, pos) \<leftarrow> strtok_any mem pos sp;
     case p of None \<Rightarrow> Some (WIFI_ERROR, s) | Some p \<Rightarrow> do { x \<leftarrow> c_str mem p; s \<leftarrow> f x s; read_fields sp k fs mem pos s } }"

lemma read_fields_eta:
  "read_fields sp k [] mem pos = k mem pos"
  "read_fields sp k (f # fs) mem pos = (\<lambda>s. strtok_any mem pos sp \<bind> (\<lambda>(mem, p, pos).
     case p of None \<Rightarrow> Some (WIFI_ERROR, s) | Some p \<Rightarrow> c_str mem p \<bind> (\<lambda>x. f x s \<bind> read_fields sp k fs mem pos)))"
  by (intro ext; simp)+

lemma read_fields_fill:
  assumes "text_at mem pos t" "0 \<notin> set sp" "\<And>mem pos t s. text_at mem pos t \<Longrightarrow> k mem pos s = Some (WIFI_EOK, s)"
  shows "read_fields sp k fs mem pos s = fill fs (tokens sp t) s"
  using assms(1)
proof (induction fs arbitrary: mem pos t s)
  case Nil
  then show ?case using assms(3) by simp
next
  case (Cons f fs)
  show ?case
  proof (cases "next_token sp t")
    case None
    then obtain pos' where "strtok_any mem pos sp = Some (mem, None, pos')"
      using strtok_any_none [OF Cons.prems assms(2)] by blast
    then show ?thesis using None by (simp add: tokens.simps [of sp t])
  next
    case (Some fr)
    then obtain x rest where n: "next_token sp t = Some (x, rest)" by (cases fr) auto
    obtain mem' p pos' where s: "strtok_any mem pos sp = Some (mem', Some p, pos')" "c_str mem' p = Some x" "text_at mem' pos' rest"
      using strtok_any_some [OF Cons.prems assms(2) n] by blast
    moreover have "read_fields sp k fs mem' pos' = fill fs (tokens sp rest)" using Cons.IH [OF s(3)] by (intro ext)
    ultimately show ?thesis using n by (simp add: tokens.simps [of sp t])
  qed
qed

text \<open>The first two calls, and what is done with the rest if there were two tokens.\<close>

definition after_two :: "byte list \<Rightarrow> byte list \<Rightarrow> byte list" where
  "after_two sp t = (case next_token sp t of None \<Rightarrow> [] | Some (a, t) \<Rightarrow> (case next_token sp t of None \<Rightarrow> [] | Some (b, t) \<Rightarrow> t))"

lemma next_token_Nil [simp]: "next_token sp [] = None"
  by (simp add: next_token_def)

lemma tokens_Nil [simp]: "tokens sp [] = []"
  by (simp add: tokens.simps)

lemma tokens_after_two: "tokens sp (after_two sp t) = drop 2 (tokens sp t)"
  by (auto simp: after_two_def tokens.simps [of sp t] split: option.splits)
     (auto simp: tokens.simps [of sp] split: option.splits)

lemma skip_two:
  assumes "text_at mem 0 t" "0 \<notin> set sp" "0 \<notin> set sp'" "fs \<noteq> []"
    "\<And>mem pos t s. text_at mem pos t \<Longrightarrow> k mem pos s = Some (WIFI_EOK, s)"
  shows "(do {
      (mem, p, pos) \<leftarrow> strtok_any mem 0 sp;
      (mem, p, pos) \<leftarrow> strtok_any mem pos sp;
      case p of None \<Rightarrow> Some (WIFI_ERROR, s) | Some _ \<Rightarrow> read_fields sp' k fs mem pos s }) =
    fill fs (tokens sp' (after_two sp t)) s"
proof -
  have empty: "fill fs [] s = Some (WIFI_ERROR, s)" using assms(4) by (cases fs) auto
  show ?thesis
  proof (cases "next_token sp t")
    case None
    obtain pos where a: "strtok_any mem 0 sp = Some (mem, None, pos)" "text_at mem pos []"
      using strtok_any_none [OF assms(1,2) None] by blast
    obtain pos' where "strtok_any mem pos sp = Some (mem, None, pos')" using strtok_any_none [OF a(2) assms(2)] by auto
    then show ?thesis using a None empty by (simp add: after_two_def)
  next
    case (Some ar)
    then obtain x rest where n: "next_token sp t = Some (x, rest)" by (cases ar) auto
    obtain mem' p pos where a: "strtok_any mem 0 sp = Some (mem', Some p, pos)" "text_at mem' pos rest"
      using strtok_any_some [OF assms(1,2) n] by blast
    show ?thesis
    proof (cases "next_token sp rest")
      case None
      obtain pos' where "strtok_any mem' pos sp = Some (mem', None, pos')" using strtok_any_none [OF a(2) assms(2) None] by blast
      then show ?thesis using a n None empty by (simp add: after_two_def)
    next
      case (Some br)
      then obtain y rest' where m: "next_token sp rest = Some (y, rest')" by (cases br) auto
      obtain mem'' p' pos' where b: "strtok_any mem' pos sp = Some (mem'', Some p', pos')" "text_at mem'' pos' rest'"
        using strtok_any_some [OF a(2) assms(2) m] by blast
      then show ?thesis using a n m read_fields_fill [OF b(2) assms(3,5)] by (simp add: after_two_def)
    qed
  qed
qed

text \<open>The module answers the command with the text \<open>t\<close>, which fits the buffer.\<close>

definition wifi_answers :: "('w, 'x) wifi_os_scheme \<Rightarrow> int \<Rightarrow> byte list \<Rightarrow> byte list \<Rightarrow> 'w \<Rightarrow> 'w \<Rightarrow> bool" where
  "wifi_answers os fd cmd t w w' \<longleftrightarrow> fd \<noteq> 0 \<and> 0 \<notin> set t \<and> length t < 1024 \<and>
     (case s_send os fd cmd w of (r, w1) \<Rightarrow> 0 \<le> r \<and> (case s_read os fd 1024 1500 w1 of (ret, bs, w2) \<Rightarrow> 0 < ret \<and> bs = t \<and> w2 = w'))"

lemma sendAT_answer:
  assumes "wifi_answers os fd cmd t w w'" "0 \<notin> set cmd"
  obtains mem where "sendAT os fd (Some (cmd @ [0])) (replicate 1024 0) w = Some (WIFI_EOK, mem, w')" "text_at mem 0 t"
proof -
  have t: "0 \<notin> set t" "length t < 1024" using assms(1) by (auto simp: wifi_answers_def)
  have zero: "memcpy (replicate 1024 0) 0 (replicate 4 0) 0 4 = Some (replicate 1024 (0 :: byte))"
    by (simp add: memcpy_def replicate_add [symmetric])
  have cmd: "c_str (cmd @ [0]) 0 = Some cmd" using assms(2) by (simp add: c_str_app)
  obtain n where n: "1024 - length t = Suc n" using t(2) by (metis Suc_diff_Suc)
  have mem: "read_into (replicate 1024 0) t = t @ 0 # replicate n 0" using t(2) n by (simp add: read_into_def)
  show thesis
  proof (rule that)
    show "sendAT os fd (Some (cmd @ [0])) (replicate 1024 0) w = Some (WIFI_EOK, t @ 0 # replicate n 0, w')"
      using assms(1) zero cmd mem by (auto simp: sendAT_def wifi_answers_def Let_def split: prod.splits)
    show "text_at (t @ 0 # replicate n 0) 0 t" using t(1) by (rule text_at_start)
  qed
qed

text \<open>The members of the structures.\<close>

definition put_lan_ip :: "byte list \<Rightarrow> wifi_lann \<Rightarrow> wifi_lann option" where
  "put_lan_ip x l = map_option (\<lambda>y. l\<lparr>lan_ip := y\<rparr>) (put_str x (lan_ip l))"
definition put_lan_mask :: "byte list \<Rightarrow> wifi_lann \<Rightarrow> wifi_lann option" where
  "put_lan_mask x l = map_option (\<lambda>y. l\<lparr>lan_mask := y\<rparr>) (put_str x (lan_mask l))"
definition put_protocol :: "byte list \<Rightarrow> wifi_netp \<Rightarrow> wifi_netp option" where
  "put_protocol x n = map_option (\<lambda>y. n\<lparr>np_protocol := y\<rparr>) (put_str x (np_protocol n))"
definition put_type :: "byte list \<Rightarrow> wifi_netp \<Rightarrow> wifi_netp option" where
  "put_type x n = map_option (\<lambda>y. n\<lparr>np_type := y\<rparr>) (put_str x (np_type n))"
definition put_port :: "byte list \<Rightarrow> wifi_netp \<Rightarrow> wifi_netp option" where
  "put_port x n = Some (n\<lparr>np_port := word_of_int (atoi x)\<rparr>)"
definition put_ipaddr :: "byte list \<Rightarrow> wifi_netp \<Rightarrow> wifi_netp option" where
  "put_ipaddr x n = map_option (\<lambda>y. n\<lparr>np_ipaddr := y\<rparr>) (put_str x (np_ipaddr n))"
definition put_auth :: "byte list \<Rightarrow> wifi_wakey \<Rightarrow> wifi_wakey option" where
  "put_auth x k = map_option (\<lambda>y. k\<lparr>wk_auth := y\<rparr>) (put_str x (wk_auth k))"
definition put_encry :: "byte list \<Rightarrow> wifi_wakey \<Rightarrow> wifi_wakey option" where
  "put_encry x k = map_option (\<lambda>y. k\<lparr>wk_encry := y\<rparr>) (put_str x (wk_encry k))"
definition put_key :: "byte list \<Rightarrow> wifi_wakey \<Rightarrow> wifi_wakey option" where
  "put_key x k = map_option (\<lambda>y. k\<lparr>wk_key := y\<rparr>) (put_str x (wk_key k))"
definition put_wifi_mode :: "byte list \<Rightarrow> wifi_wap \<Rightarrow> wifi_wap option" where
  "put_wifi_mode x a = map_option (\<lambda>y. a\<lparr>wa_mode := y\<rparr>) (put_str x (wa_mode a))"
definition put_ssid :: "byte list \<Rightarrow> wifi_wap \<Rightarrow> wifi_wap option" where
  "put_ssid x a = map_option (\<lambda>y. a\<lparr>wa_ssid := y\<rparr>) (put_str x (wa_ssid a))"
definition put_channel :: "byte list \<Rightarrow> wifi_wap \<Rightarrow> wifi_wap option" where
  "put_channel x a = map_option (\<lambda>y. a\<lparr>wa_channel := y\<rparr>) (put_str x (wa_channel a))"
definition put_wmode :: "byte list \<Rightarrow> wifi_wmode \<Rightarrow> wifi_wmode option" where
  "put_wmode x m = map_option (\<lambda>y. m\<lparr>wm_mode := y\<rparr>) (put_str x (wm_mode m))"

lemmas put_defs = put_lan_ip_def put_lan_mask_def put_protocol_def put_type_def put_port_def put_ipaddr_def put_auth_def put_encry_def
  put_key_def put_wifi_mode_def put_ssid_def put_channel_def put_wmode_def

lemma bind_map_option: "map_option f m \<bind> k = m \<bind> (\<lambda>x. k (f x))"
  by (cases m) auto

lemma strcpy_bind: "strcpy dst mem p \<bind> k = c_str mem p \<bind> (\<lambda>x. put_str x dst \<bind> k)"
  by (cases "c_str mem p") (auto simp: strcpy_put_str, simp add: strcpy_def)

lemma seps_no_nul: "0 \<notin> set seps" "0 \<notin> set seps_line"
  by (simp_all add: seps_def seps_line_def str_def)

lemma map_option_bind: "map_option f (m \<bind> k) = m \<bind> (\<lambda>x. map_option f (k x))"
  by (cases m) auto

lemma strtok_any_returns: "text_at mem pos t \<Longrightarrow> 0 \<notin> set sp \<Longrightarrow> \<exists>r. strtok_any mem pos sp = Some r"
  by (cases "next_token sp t") (metis strtok_any_none, metis strtok_any_some surj_pair)

text \<open>
  A function whose statements after the exchange are two tokens passed over and members filled takes the members from the third token on.
\<close>

lemma getter_fill:
  assumes "wifi_answers os fd cmd t w w'" "0 \<notin> set cmd" "0 \<notin> set sp" "fs \<noteq> []"
    "\<And>mem pos t s. text_at mem pos t \<Longrightarrow> k mem pos s = Some (WIFI_EOK, s)"
    "\<And>mem. G (WIFI_EOK, mem, w') = map_option (\<lambda>(r, s). (r, Some s, w')) (do {
      (mem, p, pos) \<leftarrow> strtok_any mem 0 sp;
      (mem, p, pos) \<leftarrow> strtok_any mem pos sp;
      case p of None \<Rightarrow> Some (WIFI_ERROR, s) | Some _ \<Rightarrow> read_fields seps k fs mem pos s })"
  shows "sendAT os fd (Some (cmd @ [0])) (replicate 1024 0) w \<bind> G =
    map_option (\<lambda>(r, s). (r, Some s, w')) (fill fs (tokens seps (after_two sp t)) s)"
proof -
  obtain mem where mem: "sendAT os fd (Some (cmd @ [0])) (replicate 1024 0) w = Some (WIFI_EOK, mem, w')" "text_at mem 0 t"
    by (rule sendAT_answer [OF assms(1,2)])
  show ?thesis using mem(1) assms(6) [of mem] skip_two [OF mem(2) assms(3) seps_no_nul(1) assms(4,5), where s = s] by simp
qed

lemma cmd_split: "xs @ [13, 0 :: byte] = (xs @ [13]) @ [0]"
  by simp

definition skip_last :: "byte list \<Rightarrow> nat \<Rightarrow> 's \<Rightarrow> (int \<times> 's) option" where
  "skip_last mem pos s = strtok_any mem pos seps \<bind> (\<lambda>_. Some (WIFI_EOK, s))"

definition no_more :: "byte list \<Rightarrow> nat \<Rightarrow> 's \<Rightarrow> (int \<times> 's) option" where
  "no_more mem pos s = Some (WIFI_EOK, s)"

lemma skip_last_ok: "text_at mem pos t \<Longrightarrow> skip_last mem pos s = Some (WIFI_EOK, s)"
  using strtok_any_returns [OF _ seps_no_nul(1)] by (fastforce simp: skip_last_def)

lemmas get_simps = wifi_codes put_defs strcpy_bind map_option_bind bind_map_option Let_def read_fields_eta skip_last_def no_more_def

lemma get_lann_fill:
  assumes "wifi_answers os fd (str ''AT+LANN'' @ [13]) t w w'"
  shows "wifi_get_lann os fd (Some l) w =
    map_option (\<lambda>(r, l). (r, Some l, w')) (fill [put_lan_ip, put_lan_mask] (tokens seps (after_two seps t)) l)"
  unfolding wifi_get_lann_def option.case cmd_split
  by (rule getter_fill [OF assms _ seps_no_nul(1) _ skip_last_ok])
     (auto simp: get_simps str_def intro!: Option.bind_cong split: option.splits)

lemma get_netp_fill:
  assumes "wifi_answers os fd (str ''AT+NETP'' @ [13]) t w w'"
  shows "wifi_get_netp os fd (Some n) w =
    map_option (\<lambda>(r, n). (r, Some n, w')) (fill [put_protocol, put_type, put_port, put_ipaddr] (tokens seps (after_two seps t)) n)"
  unfolding wifi_get_netp_def option.case cmd_split
  by (rule getter_fill [OF assms _ seps_no_nul(1) _ no_more_def])
     (auto simp: get_simps str_def intro!: Option.bind_cong split: option.splits)

lemma get_wakey_fill:
  assumes "wifi_answers os fd (str ''AT+WAKEY'' @ [13]) t w w'"
  shows "wifi_get_wakey os fd (Some k) w =
    map_option (\<lambda>(r, k). (r, Some k, w')) (fill [put_auth, put_encry, put_key] (tokens seps (after_two seps t)) k)"
  unfolding wifi_get_wakey_def option.case cmd_split
  by (rule getter_fill [OF assms _ seps_no_nul(1) _ no_more_def])
     (auto simp: get_simps str_def intro!: Option.bind_cong split: option.splits)

lemma get_wap_fill:
  assumes "wifi_answers os fd (str ''AT+WAP'' @ [13]) t w w'"
  shows "wifi_get_wap os fd (Some a) w =
    map_option (\<lambda>(r, a). (r, Some a, w')) (fill [put_wifi_mode, put_ssid, put_channel] (tokens seps (after_two seps t)) a)"
  unfolding wifi_get_wap_def option.case cmd_split
  by (rule getter_fill [OF assms _ seps_no_nul(1) _ no_more_def])
     (auto simp: get_simps str_def intro!: Option.bind_cong split: option.splits)

lemma get_wmode_fill:
  assumes "wifi_answers os fd (str ''AT+WMODE'' @ [13]) t w w'"
  shows "wifi_get_wmode os fd (Some m) w =
    map_option (\<lambda>(r, m). (r, Some m, w')) (fill [put_wmode] (tokens seps (after_two seps_line t)) m)"
  unfolding wifi_get_wmode_def option.case cmd_split
  by (rule getter_fill [OF assms _ seps_no_nul(2) _ no_more_def])
     (auto simp: get_simps str_def intro!: Option.bind_cong split: option.splits)

text \<open>
  C36. For a module that answers a command with any text that fits the buffer, each of the five reading functions fills the members of its structure, in order, with the tokens
  of the text from the third on (the first two are the echo and the word before the values): the strings with their NUL, the port as the number modulo 65536. With fewer tokens than members
  it gives the error after filling those there are; a token that does not fit its member is written over the member's end. For the mode the first two tokens end at line ends instead of carriage returns.
\<close>

theorem wifi_getters_take_tokens:
  "(wifi_answers os fd (str ''AT+LANN'' @ [13]) t w w' \<longrightarrow> wifi_get_lann os fd (Some l) w =
      map_option (\<lambda>(r, l). (r, Some l, w')) (fill [put_lan_ip, put_lan_mask] (drop 2 (tokens seps t)) l)) \<and>
   (wifi_answers os fd (str ''AT+NETP'' @ [13]) t w w' \<longrightarrow> wifi_get_netp os fd (Some n) w =
      map_option (\<lambda>(r, n). (r, Some n, w')) (fill [put_protocol, put_type, put_port, put_ipaddr] (drop 2 (tokens seps t)) n)) \<and>
   (wifi_answers os fd (str ''AT+WAKEY'' @ [13]) t w w' \<longrightarrow> wifi_get_wakey os fd (Some k) w =
      map_option (\<lambda>(r, k). (r, Some k, w')) (fill [put_auth, put_encry, put_key] (drop 2 (tokens seps t)) k)) \<and>
   (wifi_answers os fd (str ''AT+WAP'' @ [13]) t w w' \<longrightarrow> wifi_get_wap os fd (Some a) w =
      map_option (\<lambda>(r, a). (r, Some a, w')) (fill [put_wifi_mode, put_ssid, put_channel] (drop 2 (tokens seps t)) a)) \<and>
   (wifi_answers os fd (str ''AT+WMODE'' @ [13]) t w w' \<longrightarrow> wifi_get_wmode os fd (Some m) w =
      map_option (\<lambda>(r, m). (r, Some m, w')) (fill [put_wmode] (tokens seps (after_two seps_line t)) m))"
  by (auto simp: get_lann_fill get_netp_fill get_wakey_fill get_wap_fill get_wmode_fill tokens_after_two)

text \<open>A module whose world is the command it was sent and which answers every command with the same parameters.\<close>

definition demo_answer :: "byte list" where
  "demo_answer = str ''AT+NETP'' @ [13, 10, 10] @ str ''+ok=TCP,SERVER,8899,10.0.0.4'' @ [13, 10]"

definition demo_wifi :: "byte list wifi_os" where
  "demo_wifi = \<lparr>s_init = (\<lambda>s w. (0, s, w)), s_send = (\<lambda>fd bs w. (int (length bs), bs)),
     s_read = (\<lambda>fd n ms w. (37, demo_answer, w)), s_close = (\<lambda>s w. w),
     s_read_select = (\<lambda>fd n ms w. (1, [97], w)), inet_pton = (\<lambda>af s. if s = str ''10.0.0.4'' then 1 else 0)\<rparr>"

theorem wifi_getters_take_tokens_witness:
  "wifi_get_netp demo_wifi 3 (Some \<lparr>np_protocol = replicate 4 1, np_type = replicate 7 1, np_port = 0, np_ipaddr = replicate 9 1\<rparr>) [] =
     Some (0, Some \<lparr>np_protocol = lit ''TCP'', np_type = lit ''SERVER'', np_port = 8899, np_ipaddr = lit ''10.0.0.4''\<rparr>, str ''AT+NETP'' @ [13])"
proof -
  have ans: "wifi_answers demo_wifi 3 (str ''AT+NETP'' @ [13]) demo_answer [] (str ''AT+NETP'' @ [13])"
    by (simp add: wifi_answers_def demo_wifi_def demo_answer_def str_def)
  have "fill [put_protocol, put_type, put_port, put_ipaddr] (drop 2 (tokens seps demo_answer))
      \<lparr>np_protocol = replicate 4 1, np_type = replicate 7 1, np_port = 0, np_ipaddr = replicate 9 1\<rparr> =
    Some (0, \<lparr>np_protocol = lit ''TCP'', np_type = lit ''SERVER'', np_port = 8899, np_ipaddr = lit ''10.0.0.4''\<rparr>)"
    by code_simp
  then show ?thesis using wifi_getters_take_tokens ans by fastforce
qed

section \<open>Setting\<close>

lemma str_length [simp]: "length (str s) = length s"
  by (simp add: str_def)

text \<open>A literal's array has no room for another character.\<close>

lemma strcat_full:
  assumes "0 \<notin> set (str s)" "c_str x 0 \<noteq> Some []"
  shows "strcat (lit s) x = None"
proof -
  have "c_str (lit s) 0 = Some (str s)" using assms(1) by (simp add: lit_def c_str_app)
  then show ?thesis using assms(2) by (cases "c_str x 0") (auto simp: strcat_def memcpy_def lit_def)
qed

lemma c_str_hd: "x \<noteq> [] \<Longrightarrow> hd x \<noteq> 0 \<Longrightarrow> c_str x 0 \<noteq> Some []"
  by (cases x) (auto simp: c_str_def)

lemma str_is_c_str: "str_is x (c # s) \<Longrightarrow> of_char c \<noteq> (0 :: byte) \<Longrightarrow> c_str x 0 \<noteq> Some []"
  by (intro c_str_hd; cases x; auto simp: str_is_def lit_def str_def)

lemma tolower_zero: "tolower c = 0 \<longleftrightarrow> c = 0"
proof -
  have "c + 32 \<noteq> 0" if "65 \<le> c" "c \<le> 90" for c :: byte
    using that by (auto simp: word_le_nat_alt unat_arith_simps)
  then show ?thesis by (auto simp: tolower_def)
qed

lemma str_case_is_c_str: "str_case_is x (c # s) \<Longrightarrow> of_char c \<noteq> (0 :: byte) \<Longrightarrow> c_str x 0 \<noteq> Some []"
proof (rule c_str_hd)
  assume a: "str_case_is x (c # s)" "of_char c \<noteq> (0 :: byte)"
  show x: "x \<noteq> []" using a(1) by (auto simp: str_case_is_def lit_def str_def)
  have "tolower (hd x) = tolower (of_char c)" using a(1) x by (cases x) (simp_all add: str_case_is_def lit_def str_def)
  then show "hd x \<noteq> 0" using a(2) tolower_zero by metis
qed

lemma invalid_ipaddr_c_str: "invalid_ipaddr os (Some x) = Some r \<Longrightarrow> \<not> r < 0 \<Longrightarrow> c_str x 0 \<noteq> Some []"
proof (rule c_str_hd)
  assume a: "invalid_ipaddr os (Some x) = Some r" "\<not> r < 0"
  show x: "x \<noteq> []" using a(1) by (auto simp: invalid_ipaddr_def buf_rd_def)
  show "hd x \<noteq> 0"
  proof
    assume "hd x = 0"
    then have "invalid_ipaddr os (Some x) = Some WIFI_ERROR" using x by (cases x) (simp_all add: invalid_ipaddr_def buf_rd_def)
    then show False using a by (simp add: wifi_codes)
  qed
qed

lemma known_c_str:
  "auth_known x \<Longrightarrow> c_str x 0 \<noteq> Some []" "wifi_mode_known x \<Longrightarrow> c_str x 0 \<noteq> Some []"
  "str_case_is x ''STA'' \<or> str_case_is x ''AP'' \<Longrightarrow> c_str x 0 \<noteq> Some []"
  "str_is x ''TCP'' \<or> str_is x ''UDP'' \<Longrightarrow> c_str x 0 \<noteq> Some []"
  by (auto simp: auth_known_def wifi_mode_known_def dest: str_is_c_str str_case_is_c_str)

lemma literal_no_nul:
  "0 \<notin> set (str ''AT+LANN='')" "0 \<notin> set (str ''AT+NETP='')" "0 \<notin> set (str ''AT+WAKEY='')" "0 \<notin> set (str ''AT+WAP='')" "0 \<notin> set (str ''AT+WMODE='')"
  by (simp_all add: str_def)

lemma set_lann_fails: "wifi_set_lann os fd l w \<in> {None, Some (WIFI_ERROR, w)}"
proof (cases "fd = 0 \<or> l = None")
  case True
  then show ?thesis by (auto simp: wifi_set_lann_def)
next
  case False
  then obtain l' where l: "fd \<noteq> 0" "l = Some l'" by auto
  have full: "strcat (lit ''AT+LANN='') (lan_ip l') = None" if "invalid_ipaddr os (Some (lan_ip l')) = Some r" "\<not> r < 0" for r
    using strcat_full [OF literal_no_nul(1) invalid_ipaddr_c_str [OF that]] .
  show ?thesis using l full
    by (cases "invalid_ipaddr os (Some (lan_ip l'))"; cases "invalid_ipaddr os (Some (lan_mask l'))") (auto simp: wifi_set_lann_def)
qed

lemma set_netp_fails: "wifi_set_netp os stk_port rx fd n w \<in> {None, Some (WIFI_ERROR, w)}"
proof (cases n)
  case None
  then show ?thesis by (simp add: wifi_set_netp_def)
next
  case (Some n')
  have full: "strcat (lit ''AT+NETP='') (np_protocol n') = None"
    if "str_is (np_protocol n') ''TCP'' \<or> str_is (np_protocol n') ''UDP''"
    using strcat_full [OF literal_no_nul(2) known_c_str(4) [OF that]] .
  show ?thesis using Some full
    by (cases "invalid_ipaddr os (Some (np_ipaddr n'))"; cases "strcpy stk_port (lit (udec (unat (np_port n')))) 0")
      (auto simp: wifi_set_netp_def)
qed

lemma set_wakey_fails:
  "wifi_set_wakey os fd (Some k) w = (if auth_known (wk_auth k) \<and> encry_known (wk_encry k) then None else Some (WIFI_ERROR, w))"
  using strcat_full [OF literal_no_nul(3) known_c_str(1) [of "wk_auth k"]] by (auto simp: wifi_set_wakey_def)

lemma set_wap_fails:
  "wifi_set_wap os fd (Some a) w = (if wifi_mode_known (wa_mode a) \<and> channel_known (wa_channel a) then None else Some (WIFI_ERROR, w))"
  using strcat_full [OF literal_no_nul(4) known_c_str(2) [of "wa_mode a"]] by (auto simp: wifi_set_wap_def)

lemma set_wmode_fails:
  "wifi_set_wmode os fd (Some m) w =
     (if str_case_is (wm_mode m) ''STA'' \<or> str_case_is (wm_mode m) ''AP'' then None else Some (WIFI_ERROR, w))"
  using strcat_full [OF literal_no_nul(5) known_c_str(3) [of "wm_mode m"]] by (auto simp: wifi_set_wmode_def)

lemma set_wakey_fails_any: "wifi_set_wakey os fd k w \<in> {None, Some (WIFI_ERROR, w)}"
  by (cases k) (simp_all add: set_wakey_fails, simp add: wifi_set_wakey_def)

lemma set_wap_fails_any: "wifi_set_wap os fd a w \<in> {None, Some (WIFI_ERROR, w)}"
  by (cases a) (simp_all add: set_wap_fails, simp add: wifi_set_wap_def)

text \<open>A function around one that fails fails.\<close>

lemma bind_fails: "(\<And>x. f x \<in> {None, Some e}) \<Longrightarrow> m \<bind> f \<in> {None, Some e}"
  by (cases m) auto

lemma if_fails: "m \<in> {None, Some e} \<Longrightarrow> (if b then Some e else m) \<in> {None, Some e}"
  by simp

lemma outer_fails:
  "m \<in> {None, Some (WIFI_ERROR, w)} \<Longrightarrow>
   m \<bind> (\<lambda>(ret, w). if ret < 0 then Some (WIFI_ERROR, w) else Some (WIFI_EOK, w)) \<in> {None, Some (WIFI_ERROR, w)}"
  by (auto simp: wifi_codes)

lemma single_setters_fail:
  "wifi_set_ip os l0 fd ip w \<in> {None, Some (WIFI_ERROR, w)}"
  "wifi_set_port os stk_port rx n0 fd port w \<in> {None, Some (WIFI_ERROR, w)}"
  "wifi_set_key os k0 fd key w \<in> {None, Some (WIFI_ERROR, w)}"
  "wifi_set_ssid os a0 fd ssid w \<in> {None, Some (WIFI_ERROR, w)}"
  unfolding wifi_set_ip_def wifi_set_port_def wifi_set_key_def wifi_set_ssid_def
  by (intro if_fails bind_fails outer_fails set_lann_fails set_netp_fails set_wakey_fails_any set_wap_fails_any)+


end
