(* ===== verification/BoardProps.thy ===== *)
theory BoardProps
  imports Board WifiProps
begin

text \<open>
  The board test. Which frames are taken, that the answers are such frames themselves, and the tests that do otherwise: the wireless test cannot pass, the answer of the CAN
  test has no valid checksum and the test loses its socket, the network test hands its input to the shell.
\<close>

definition frame :: "byte \<Rightarrow> byte \<Rightarrow> byte list" where
  "frame cmd x = [0x55, 0xaa, 0x07, cmd, x, fold (XOR) [0x55, 0xaa, 0x07, cmd, x] 0, 0]"

text \<open>What is done for a command.\<close>

definition board_command ::
  "('w, 'rb, 'x) board_os_scheme \<Rightarrow> stack_vars \<Rightarrow> lib_serial \<Rightarrow> byte \<Rightarrow> byte \<Rightarrow> 'w board \<Rightarrow> 'w board option" where
  "board_command os v serial cmd x b =
     (if x \<noteq> 1 then Some b
      else if cmd = 0x01 then on_world (gps_test os v serial) b
      else if cmd = 0x02 then on_world (wifi_test os v serial) b
      else if cmd = 0x04 then on_world (thrg_test os serial) b
      else if cmd = 0x08 then can_test os serial b
      else if cmd = 0x10 then on_world (rj45_test os serial) b
      else if cmd = 0x11 then on_world (ftdi_test os serial) b
      else if cmd = 0x12 then on_world (i2c_test os serial) b
      else if cmd = 0x14 then on_world (encryption_test os serial) b
      else if cmd = 0x18 then on_world ttyO2_test b
      else Some b)"

lemma send_answer_frame: "send_answer os serial cmd x w = Some (snd (s_send os (sfd serial) (frame cmd x) w))"
  by (simp add: send_answer_def crc16_def frame_def Let_def)

lemma seven_octets:
  assumes "7 \<le> length rx"
  obtains a0 a1 a2 a3 a4 a5 a6 r where "rx = [a0, a1, a2, a3, a4, a5, a6] @ r"
proof -
  have "\<exists>a0 a1 a2 a3 a4 a5 a6. xs = [a0, a1, a2, a3, a4, a5, a6]" if "length xs = 7" for xs :: "'a list"
    using that by (auto simp: numeral_eq_Suc length_Suc_conv)
  from this [of "take 7 rx"] assms obtain a0 a1 a2 a3 a4 a5 a6 where "take 7 rx = [a0, a1, a2, a3, a4, a5, a6]" by auto
  then show thesis using that [of a0 a1 a2 a3 a4 a5 a6 "drop 7 rx"] by (metis append_take_drop_id)
qed

lemma seven_reads:
  fixes r :: "byte list" and a0 a1 a2 a3 a4 a5 a6 :: byte
  defines "rx \<equiv> [a0, a1, a2, a3, a4, a5, a6] @ r"
  shows "buf_rd rx 0 = Some a0" "buf_rd rx 1 = Some a1" "buf_rd rx 2 = Some a2" "buf_rd rx 3 = Some a3"
    "buf_rd rx 4 = Some a4" "buf_rd rx 5 = Some a5" "buf_rd rx 6 = Some a6" "crc16 rx (unat (7 :: byte)) = Some (fold (XOR) [a0, a1, a2, a3, a4] 0)"
  by (simp_all add: rx_def buf_rd_def crc16_def)

lemma analysts_seven:
  "analysts os v ([a0, a1, a2, a3, a4, a5, a6] @ r) serial b =
     (if a0 = 0x55 \<and> a1 = 0xaa \<and> a2 = 0x07 \<and> a5 = fold (XOR) [0x55, 0xaa, 0x07, a3, a4] 0 \<and> a6 = 0
      then map_option (Pair 0) (board_command os v serial a3 a4 b) else Some (-1, b))"
proof (cases "a0 = 0x55 \<and> a1 = 0xaa \<and> a2 = 0x07")
  case True
  then have a: "a0 = 0x55" "a1 = 0xaa" "a2 = 0x07" by auto
  show ?thesis
    unfolding analysts_def seven_reads a bind.simps board_command_def [symmetric] map_conv_bind_option
    by (simp only: simp_thms if_True if_False seven_reads bind.simps split: if_split) (auto simp: comp_def)
next
  case False
  then show ?thesis unfolding analysts_def seven_reads bind.simps by auto
qed

lemma analysts_frame:
  assumes "take 7 rx = frame cmd x" "7 \<le> length rx"
  shows "analysts os v rx serial b = map_option (Pair 0) (board_command os v serial cmd x b)"
proof -
  obtain r where "rx = frame cmd x @ r" using assms(1) append_take_drop_id by metis
  then show ?thesis by (simp only: frame_def analysts_seven simp_thms if_True)
qed

text \<open>
  C35. The program takes exactly the frames \<open>55 aa 07 cmd x\<close>, the exclusive or of these five octets, \<open>00\<close>. For such a frame it does what the command asks for and reports success, for every
  other input it reports an error and changes nothing. What stands behind the seven octets plays no part.
\<close>

theorem analysts_accepts_iff:
  assumes "7 \<le> length rx"
  shows "analysts os v rx serial b =
    (if \<exists>cmd x. take 7 rx = frame cmd x then map_option (Pair 0) (board_command os v serial (rx ! 3) (rx ! 4) b) else Some (-1, b))"
proof -
  obtain a0 a1 a2 a3 a4 a5 a6 r where rx: "rx = [a0, a1, a2, a3, a4, a5, a6] @ r" using seven_octets [OF assms] .
  have "(\<exists>cmd x. take 7 rx = frame cmd x) \<longleftrightarrow>
      a0 = 0x55 \<and> a1 = 0xaa \<and> a2 = 0x07 \<and> a5 = fold (XOR) [0x55, 0xaa, 0x07, a3, a4] 0 \<and> a6 = 0"
    by (auto simp: rx frame_def)
  moreover have "rx ! 3 = a3" "rx ! 4 = a4" by (simp_all add: rx)
  ultimately show ?thesis by (simp only: rx analysts_seven)
qed

text \<open>A board without any of its parts; the world is what was sent on the serial lines.\<close>

definition demo_bus :: "(int \<times> byte list) list bus" where
  "demo_bus = \<lparr>b_open = (\<lambda>p w. (-1, w)), b_ioctl = (\<lambda>fd a w. (-1, w)), b_write = (\<lambda>fd bs w. (-1, w)), b_read = (\<lambda>fd n w. (-1, [], w)),
     b_close = (\<lambda>fd w. w)\<rparr>"

definition demo_can :: "unit ctos_os" where
  "demo_can = \<lparr>os_sock = 7, os_ioctl = 0, os_bind = 0, os_opts = [0, 0, 0], os_mem = True, os_regular_rb = True,
     os_pack = Some \<lparr>err_statistics = 0, err_random = 0, frame_buf = []\<rparr>, os_mutex = True, os_ring = Some (), os_recv_thr = True, os_explain_thr = True,
     os_rwlock_frees_mutex = True\<rparr>"

definition demo_board :: "((int \<times> byte list) list, unit) board_os" where
  "demo_board = \<lparr>s_init = (\<lambda>s w. (-1, s, w)), s_send = (\<lambda>fd bs w. (int (length bs), w @ [(fd, bs)])), s_read = (\<lambda>fd n ms w. (-1, [], w)),
     s_close = (\<lambda>s w. w), s_read_select = (\<lambda>fd n ms w. (-1, [], w)), inet_pton = (\<lambda>af s. 0),
     sh_system = (\<lambda>c w. w), sh_popen = (\<lambda>c w. (Some 0, w)), sh_fread = (\<lambda>h n w. ([48, 10], w)), sh_pclose = (\<lambda>h w. w),
     wl_new = (\<lambda>w. (None, w)), wl_hwver_get = (\<lambda>h ms w. (-1, w)), wl_destroy = (\<lambda>h w. w),
     ft_new = (\<lambda>w. (None, w)), ft_set_interface = (\<lambda>h i w. w), ft_usb_open = (\<lambda>h a c w. (-1, w)), ft_usb_close = (\<lambda>h w. w), ft_free = (\<lambda>h w. w),
     sn_read32 = (\<lambda>s w. (0, s, w)), chip_bus = demo_bus, crc16_with_byte = (\<lambda>bs. 0), can_sys = (\<lambda>w. (demo_can, w)),
     can_writen = (\<lambda>w f. (META_LEN, w)), can_threads = (\<lambda>c w. (c, w)), can_getforce = (\<lambda>rb n. (0, [], rb))\<rparr>"

definition demo_line :: lib_serial where
  "demo_line = \<lparr>sfd = 3, pathname = replicate 128 0, flags = 2, speed = 9600, databits = 8, stopbits = 1\<rparr>"

definition demo_vars :: stack_vars where
  "demo_vars = \<lparr>v_gps_serial = demo_line, v_wmode = \<lparr>wm_mode = replicate 4 1\<rparr>, v_lann = \<lparr>lan_ip = replicate 32 1, lan_mask = replicate 32 1\<rparr>\<rparr>"

definition demo_start :: "(int \<times> byte list) list board" where
  "demo_start = \<lparr>open_fds = {}, orphans = [], world = []\<rparr>"

theorem analysts_accepts_iff_witness:
  "analysts demo_board demo_vars (frame 0x18 0x01 @ [1, 2, 3]) demo_line demo_start = Some (0, demo_start) \<and>
   analysts demo_board demo_vars [0x55, 0xaa, 0x07, 0x18, 0x01, 0x00, 0x00] demo_line demo_start = Some (-1, demo_start)"
proof
  have n: "(frame 0x18 0x01 @ [1, 2, 3]) ! 3 = 0x18" "(frame 0x18 0x01 @ [1, 2, 3]) ! 4 = 0x01" "7 \<le> length (frame 0x18 0x01 @ [1, 2, 3])"
    by (simp_all add: frame_def)
  have ex: "\<exists>cmd x. take 7 (frame 0x18 0x01 @ [1, 2, 3]) = frame cmd x"
    by (intro exI [of _ "0x18"] exI [of _ "0x01"]) (simp add: frame_def)
  have "board_command demo_board demo_vars demo_line 0x18 0x01 demo_start = Some demo_start"
    by (simp add: board_command_def on_world_def ttyO2_test_def demo_start_def)
  then show "analysts demo_board demo_vars (frame 0x18 0x01 @ [1, 2, 3]) demo_line demo_start = Some (0, demo_start)"
    using analysts_accepts_iff [OF n(3), of demo_board demo_vars demo_line demo_start] ex n(1,2) by simp
  have no: "\<not> (\<exists>cmd x. take 7 [0x55, 0xaa, 0x07, 0x18, 0x01, 0x00, 0x00] = frame cmd x)"
    by (auto simp: frame_def)
  show "analysts demo_board demo_vars [0x55, 0xaa, 0x07, 0x18, 0x01, 0x00, 0x00] demo_line demo_start = Some (-1, demo_start)"
    using analysts_accepts_iff [of "[0x55, 0xaa, 0x07, 0x18, 0x01, 0x00, 0x00]" demo_board demo_vars demo_line demo_start] no by simp
qed

section \<open>Answers\<close>

lemma gps_test_answers:
  assumes "length (pathname (v_gps_serial v)) = 128"
  shows "\<exists>w' u. u \<in> {2, 4} \<and> gps_test os v serial w = Some (snd (s_send os (sfd serial) (frame 0x01 u) w'))"
proof -
  have "\<exists>r gs w'. gps_init (serial.truncate os) (v_gps_serial v) GPS_DEV_NAME 9600 w = Some (r, gs, w')"
    using assms by (auto simp: gps_init_def memcpy_def GPS_DEV_NAME_def str_def Let_def split: prod.splits)
  then obtain r gs w' where init: "gps_init (serial.truncate os) (v_gps_serial v) GPS_DEV_NAME 9600 w = Some (r, gs, w')" by blast
  then show ?thesis by (auto simp: gps_test_def send_answer_frame Let_def split: prod.splits)
qed

lemma ftdi_test_answers: "\<exists>w' u. u \<in> {2, 4} \<and> ftdi_test os serial w = Some (snd (s_send os (sfd serial) (frame 0x11 u) w'))"
  by (auto simp: ftdi_test_def send_answer_frame Let_def split: prod.splits option.splits)

lemma i2c_test_answers: "\<exists>w' u. u \<in> {2, 4} \<and> i2c_test os serial w = Some (snd (s_send os (sfd serial) (frame 0x12 u) w'))"
  by (auto simp: i2c_test_def send_answer_frame split: prod.splits)

lemma thrg_test_answers:
  "\<exists>w' u h. u \<in> {2, 4} \<and> thrg_test os serial w = Some (wl_destroy os h (snd (s_send os (sfd serial) (frame 0x04 u) w')))"
  by (auto simp: thrg_test_def send_answer_frame Let_def split: prod.splits option.splits)

lemma encryption_test_answers:
  "LIB_Encry_Verify (chip_bus os) w = Some (r, fd, w') \<Longrightarrow>
   encryption_test os serial w = Some (snd (s_send os (sfd serial) (frame 0x14 (if r = LIB_EV_OK then 2 else 4)) w'))"
  by (simp add: encryption_test_def send_answer_frame)

section \<open>The tests that fail\<close>

lemma wifi_test_fails:
  "wifi_test os v serial w = None \<or> (\<exists>w'. wifi_test os v serial w = Some (snd (s_send os (sfd serial) (frame 0x02 0x04) w')))"
proof -
  have ap: "wifi_set_wmode os fd (Some (m\<lparr>wm_mode := x\<rparr>)) w = None" if "strcpy d (lit ''AP'') 0 = Some x" for fd m d x w
  proof -
    have "str_case_is x ''AP''"
      using that by (auto simp: strcpy_def c_str_def lit_def str_def memcpy_def str_case_is_def split: if_splits)
    then show ?thesis by (simp add: set_wmode_fails)
  qed
  show ?thesis
    by (cases "strcpy (wm_mode (v_wmode v)) (lit ''AP'') 0")
      (auto simp: wifi_test_def send_answer_frame Let_def ap split: prod.splits)
qed

lemma create_socket:
  "lib_ctos_create sys conf fds = Some (Some c, fds', live) \<Longrightarrow>
   fds' = insert (os_sock sys) fds \<and> live = {RMem, RRegular, RPack, RMutex, RRing, RRecvThr, RExplainThr}"
  by (auto simp: lib_ctos_create_def can_socket_init_def ctos_codes Let_def split: prod.splits if_splits)

lemma can_test_effect:
  assumes "can_test os serial b = Some b'"
  obtains w u where "u \<in> {2, 4}" "world b' = snd (s_send os (sfd serial) [0x55, 0xaa, 0x07, 0x08, u, 0, 0] w)"
    "open_fds b' = insert (os_sock (fst (can_sys os (world b)))) (open_fds b)"
    "orphans b' = orphans b @ [{RMem, RRegular, RPack, RMutex, RRing, RRecvThr, RExplainThr}]"
proof -
  obtain sys w0 where sys: "can_sys os (world b) = (sys, w0)" by fastforce
  then obtain co fds live where cr: "lib_ctos_create sys can_conf (open_fds b) = Some (co, fds, live)"
    using assms by (cases "lib_ctos_create sys can_conf (open_fds b)") (auto simp: can_test_def)
  then obtain c where c: "co = Some c" using assms sys by (cases co) (auto simp: can_test_def bind_eq_Some_conv)
  obtain tx where tx: "can_package_make os (replicate 512 0) 0x7f 0x00 0x81 = Some (15, tx)" "tx ! 2 = 0"
    by (auto simp: can_package_make_def memcpy_def store16_def str_def Let_def)
  have ck: "can_answer os serial u tx w = Some (snd (s_send os (sfd serial) [0x55, 0xaa, 0x07, 0x08, u, 0, 0] w))" for u w
    using tx(2) by (simp add: can_answer_def crc16_def)
  obtain r c1 w1 where put: "lib_ctos_put (can_writen os) c 0x7f tx 15 w0 = Some (r, c1, w1)"
    using assms sys cr c tx(1) by (cases "lib_ctos_put (can_writen os) c 0x7f tx 15 w0") (auto simp: can_test_def)
  obtain c2 w2 where thr: "can_threads os c1 w1 = (c2, w2)" by fastforce
  obtain n bs c3 where got: "lib_ctos_get (can_getforce os) c2 512 = (n, bs, c3)" by (metis surj_pair)
  define u :: byte where "u = (if n > 0 \<and> read_into (replicate 512 0) bs ! 8 = 97 \<and> read_into (replicate 512 0) bs ! 9 = 97 then 2 else 4)"
  have "b' = \<lparr>open_fds = fds, orphans = orphans b @ [live], world = snd (s_send os (sfd serial) [0x55, 0xaa, 0x07, 0x08, u, 0, 0] w2)\<rparr>"
    using assms sys cr c tx(1) put thr got ck by (simp add: can_test_def Let_def u_def [symmetric])
  moreover have "u \<in> {2, 4}" by (simp add: u_def)
  ultimately show thesis using that create_socket [OF cr [unfolded c]] sys by simp
qed



text \<open>
  Two tests do not do what they are for. The wireless test never reports that the module works: when the module does not start the answer is 4, and when it does the program writes
  outside an array. The CAN test answers with a checksum octet of zero, whatever it found, and its answers do not pass the program's own tests; every run that gets as far as an answer leaves one more socket open and
  one more set of threads and buffers that nothing can release, and when the library cannot be set up the program ends.
\<close>

theorem wifi_and_can_tests_fail:
  "(analysts os v (frame 0x02 1 @ r) serial b = None \<or>
    (\<exists>w. analysts os v (frame 0x02 1 @ r) serial b = Some (0, b\<lparr>world := snd (s_send os (sfd serial) (frame 0x02 4) w)\<rparr>))) \<and>
   (analysts os v (frame 0x08 1 @ r) serial b = None \<or>
    (\<exists>w u b'. u \<in> {2, 4} \<and> analysts os v (frame 0x08 1 @ r) serial b = Some (0, b') \<and>
      world b' = snd (s_send os (sfd serial) [0x55, 0xaa, 0x07, 0x08, u, 0, 0] w) \<and>
      open_fds b' = insert (os_sock (fst (can_sys os (world b)))) (open_fds b) \<and>
      orphans b' = orphans b @ [{RMem, RRegular, RPack, RMutex, RRing, RRecvThr, RExplainThr}])) \<and>
   analysts os v ([0x55, 0xaa, 0x07, 0x08, 2, 0, 0] @ r) serial b = Some (-1, b) \<and>
   analysts os v ([0x55, 0xaa, 0x07, 0x08, 4, 0, 0] @ r) serial b = Some (-1, b)"
proof (intro conjI)
  have a: "analysts os v (frame cmd 1 @ r) serial b = map_option (Pair 0) (board_command os v serial cmd 1 b)" for cmd
    by (rule analysts_frame) (simp_all add: frame_def)
  show "analysts os v (frame 0x02 1 @ r) serial b = None \<or>
    (\<exists>w. analysts os v (frame 0x02 1 @ r) serial b = Some (0, b\<lparr>world := snd (s_send os (sfd serial) (frame 0x02 4) w)\<rparr>))"
    using wifi_test_fails [of os v serial "world b"] unfolding a by (auto simp: board_command_def on_world_def)
  show "analysts os v (frame 0x08 1 @ r) serial b = None \<or>
    (\<exists>w u b'. u \<in> {2, 4} \<and> analysts os v (frame 0x08 1 @ r) serial b = Some (0, b') \<and>
      world b' = snd (s_send os (sfd serial) [0x55, 0xaa, 0x07, 0x08, u, 0, 0] w) \<and>
      open_fds b' = insert (os_sock (fst (can_sys os (world b)))) (open_fds b) \<and>
      orphans b' = orphans b @ [{RMem, RRegular, RPack, RMutex, RRing, RRecvThr, RExplainThr}])"
  proof (cases "can_test os serial b")
    case None
    then show ?thesis unfolding a by (simp add: board_command_def)
  next
    case (Some b')
    obtain w u where e: "u \<in> {2, 4}" "world b' = snd (s_send os (sfd serial) [0x55, 0xaa, 0x07, 0x08, u, 0, 0] w)"
      "open_fds b' = insert (os_sock (fst (can_sys os (world b)))) (open_fds b)" "orphans b' = orphans b @ [{RMem, RRegular, RPack, RMutex, RRing, RRecvThr, RExplainThr}]"
      by (rule can_test_effect [OF Some])
    have "map_option (Pair 0) (board_command os v serial 0x08 1 b) = Some (0, b')" using Some by (simp add: board_command_def)
    then show ?thesis unfolding a using e by (intro disjI2 exI conjI)
  qed
  show "analysts os v ([0x55, 0xaa, 0x07, 0x08, 2, 0, 0] @ r) serial b = Some (-1, b)" unfolding analysts_seven by simp
  show "analysts os v ([0x55, 0xaa, 0x07, 0x08, 4, 0, 0] @ r) serial b = Some (-1, b)" unfolding analysts_seven by simp
qed

section \<open>The shell\<close>

lemma ping_command_4: "ping_command t 4 = str ''ping '' @ t @ str '' -c 4 | grep time= | wc -l''"
proof -
  have "udec 4 = ''4''" by code_simp
  then show ?thesis by (simp add: ping_command_def str_def)
qed

text \<open>
  The network test runs a shell command that contains, unquoted, whatever text came over the serial line: every text of up to 31 octets. It answers 2 exactly when the command prints a positive
  number. A text of 32 octets is read on behind the array.
\<close>

theorem rj45_runs_any_command:
  assumes "s_read os (sfd serial) 32 1500 w = (n, t, w_in)" "0 \<le> n" "0 \<notin> set t"
    "sh_popen os (str ''ping '' @ t @ str '' -c 4 | grep time= | wc -l'') w_in = (Some h, w_run)" "sh_fread os h 15 w_run = (out, w_out)"
  shows "rj45_test os serial w =
    (if length t < 32
     then Some (snd (s_send os (sfd serial)
       (frame 0x10 (if atoi (takeWhile (\<lambda>c. c \<noteq> 0) (take 15 out)) > 0 then 2 else 4)) (sh_pclose os h w_out)))
     else None)"
proof (cases "length t < 32")
  case True
  then obtain m where m: "32 - length t = Suc m" by (metis Suc_diff_Suc)
  have buf: "read_into (replicate 32 0) t = t @ 0 # replicate m 0" using True m by (simp add: read_into_def)
  have out: "c_str (take 15 (out @ replicate 15 0) @ [0]) 0 = Some (takeWhile (\<lambda>c. c \<noteq> 0) (take 15 out))"
  proof -
    have all: "takeWhile (\<lambda>c. c \<noteq> 0) (xs @ replicate k 0) = takeWhile (\<lambda>c. c \<noteq> 0) xs" for xs :: "byte list" and k
      by (induction xs) (simp_all add: takeWhile_replicate)
    have "take 15 (out @ replicate 15 0) @ [0] = take 15 out @ replicate (15 - length out + 1) 0"
      by (simp add: replicate_append_same)
    then show ?thesis using all [of "take 15 out" "15 - length out + 1"] by (simp add: c_str_def)
  qed
  have cmd: "c_str (ping_command t 4 @ 0 # x) 0 = Some (ping_command t 4)" for x
    using assms(3) by (intro c_str_app) (simp add: ping_command_4 str_def)
  have "length (ping_command t 4) < 256" using True by (simp add: ping_command_4 str_def)
  then have "checkConnect os (Some (read_into (replicate 32 0) t)) 4 w_in =
      Some (if atoi (takeWhile (\<lambda>c. c \<noteq> 0) (take 15 out)) > 0 then 0 else -1, sh_pclose os h w_out)"
    using assms(3-5) buf out cmd by (simp add: checkConnect_def c_str_app memcpy_def ping_command_4 [symmetric] Let_def)
  then show ?thesis using assms(1,2) True by (simp add: rj45_test_def send_answer_frame)
next
  case False
  then have "read_into (replicate 32 0) t = take 32 t" by (simp add: read_into_def)
  then have "c_str (read_into (replicate 32 0) t) 0 = None" using assms(3) by (auto simp: c_str_def dest: in_set_takeD)
  then show ?thesis using assms(1,2) False by (simp add: rj45_test_def checkConnect_def)
qed

theorem rj45_runs_any_command_witness:
  "rj45_test (demo_board\<lparr>s_read := \<lambda>fd n ms w. (9, str '';reboot;a'', w), sh_popen := \<lambda>c w. (Some 0, w @ [(0, c)])\<rparr>) demo_line [] =
     Some [(0, str ''ping ;reboot;a -c 4 | grep time= | wc -l''), (3, frame 0x10 4)]"
  (is "rj45_test ?os _ _ = _")
proof -
  have "rj45_test ?os demo_line [] = (if length (str '';reboot;a'') < 32
     then Some (snd (s_send ?os (sfd demo_line)
       (frame 0x10 (if atoi (takeWhile (\<lambda>c. c \<noteq> 0) (take 15 [48, 10])) > 0 then 2 else 4))
       (sh_pclose ?os 0 [(0, str ''ping '' @ str '';reboot;a'' @ str '' -c 4 | grep time= | wc -l'')])))
     else None)"
    by (rule rj45_runs_any_command [where h = 0 and n = 9 and w_in = "[]" and w_run = "[(0, str ''ping '' @ str '';reboot;a'' @ str '' -c 4 | grep time= | wc -l'')]"])
      (simp_all add: demo_board_def str_def)
  moreover have "atoi (takeWhile (\<lambda>c. c \<noteq> 0) (take 15 [48, 10])) = 0" by code_simp
  ultimately show ?thesis by (simp add: demo_board_def demo_line_def str_def)
qed

end
