(* ===== verification/Sha256.thy ===== *)
theory Sha256
  imports Prelude
begin

text \<open>
  The SHA-256 beside the chip's code (\<open>src/sha204_test/sha256/newsha256.c\<close>), as it is compiled: little-endian, no fast copy, no unrolling. \<open>long_t\<close> has 32 bits on the target. Clearing
  the stack (\<open>burnStack\<close>) has no effect and is left out. A result \<open>None\<close> is an access outside a buffer.
\<close>

section \<open>Words\<close>

definition ROTL :: "u32 \<Rightarrow> nat \<Rightarrow> u32" where "ROTL x n = push_bit n x OR drop_bit (32 - n) x"
definition ROTR :: "u32 \<Rightarrow> nat \<Rightarrow> u32" where "ROTR x n = drop_bit n x OR push_bit (32 - n) x"

definition Ch :: "u32 \<Rightarrow> u32 \<Rightarrow> u32 \<Rightarrow> u32" where "Ch x y z = z XOR (x AND (y XOR z))"
definition Maj :: "u32 \<Rightarrow> u32 \<Rightarrow> u32 \<Rightarrow> u32" where "Maj x y z = (x AND (y OR z)) OR (y AND z)"
definition SIGMA0 :: "u32 \<Rightarrow> u32" where "SIGMA0 x = ROTR x 2 XOR ROTR x 13 XOR ROTR x 22"
definition SIGMA1 :: "u32 \<Rightarrow> u32" where "SIGMA1 x = ROTR x 6 XOR ROTR x 11 XOR ROTR x 25"
definition sigma0 :: "u32 \<Rightarrow> u32" where "sigma0 x = ROTR x 7 XOR ROTR x 18 XOR drop_bit 3 x"
definition sigma1 :: "u32 \<Rightarrow> u32" where "sigma1 x = ROTR x 17 XOR ROTR x 19 XOR drop_bit 10 x"

definition sha_K :: "u32 list" where
  "sha_K =
    [0x428a2f98, 0x71374491, 0xb5c0fbcf, 0xe9b5dba5, 0x3956c25b, 0x59f111f1, 0x923f82a4, 0xab1c5ed5,
     0xd807aa98, 0x12835b01, 0x243185be, 0x550c7dc3, 0x72be5d74, 0x80deb1fe, 0x9bdc06a7, 0xc19bf174,
     0xe49b69c1, 0xefbe4786, 0x0fc19dc6, 0x240ca1cc, 0x2de92c6f, 0x4a7484aa, 0x5cb0a9dc, 0x76f988da,
     0x983e5152, 0xa831c66d, 0xb00327c8, 0xbf597fc7, 0xc6e00bf3, 0xd5a79147, 0x06ca6351, 0x14292967,
     0x27b70a85, 0x2e1b2138, 0x4d2c6dfc, 0x53380d13, 0x650a7354, 0x766a0abb, 0x81c2c92e, 0x92722c85,
     0xa2bfe8a1, 0xa81a664b, 0xc24b8b70, 0xc76c51a3, 0xd192e819, 0xd6990624, 0xf40e3585, 0x106aa070,
     0x19a4c116, 0x1e376c08, 0x2748774c, 0x34b0bcb5, 0x391c0cb3, 0x4ed8aa4a, 0x5b9cca4f, 0x682e6ff3,
     0x748f82ee, 0x78a5636f, 0x84c87814, 0x8cc70208, 0x90befffa, 0xa4506ceb, 0xbef9a3f7, 0xc67178f2]"

text \<open>A word of the buffer as the processor loads it, and octets as it stores them.\<close>

definition load_word :: "byte list \<Rightarrow> nat \<Rightarrow> u32" where
  "load_word b i = ucast (b ! i) OR push_bit 8 (ucast (b ! (i + 1))) OR push_bit 16 (ucast (b ! (i + 2))) OR push_bit 24 (ucast (b ! (i + 3)))"

definition store_u64 :: "u64 \<Rightarrow> byte list" where
  "store_u64 x = map (\<lambda>i. ucast (drop_bit (8 * i) x)) [0..<8]"

definition BYTESWAP :: "u32 \<Rightarrow> u32" where
  "BYTESWAP x = (ROTR x 8 AND 0xff00ff00) OR (ROTL x 8 AND 0x00ff00ff)"

definition byteswap64 :: "u64 \<Rightarrow> u64" where
  "byteswap64 x =
     (let a = ucast (drop_bit 32 x); b = ucast x
      in push_bit 32 (ucast (BYTESWAP b)) OR ucast (BYTESWAP a))"

section \<open>The context\<close>

record SHA256Context =
  totalLength :: u32
  sc_hash :: "u32 list"
  bufferLength :: u32
  sc_buffer :: "byte list"

definition sha_padding :: "byte list" where
  "sha_padding = 0x80 # replicate 63 0"

definition SHA256Init :: "SHA256Context \<Rightarrow> SHA256Context" where
  "SHA256Init sc = sc\<lparr>totalLength := 0,
     sc_hash := [0x6a09e667, 0xbb67ae85, 0x3c6ef372, 0xa54ff53a, 0x510e527f, 0x9b05688c, 0x1f83d9ab, 0x5be0cd19],
     bufferLength := 0\<rparr>"

section \<open>One block\<close>

text \<open>The second loop extends the sixteen words of the block to sixty-four.\<close>

definition extend :: "u32 list \<Rightarrow> u32 list" where
  "extend W = fold (\<lambda>i W. W @ [sigma1 (W ! (i - 2)) + W ! (i - 7) + sigma0 (W ! (i - 15)) + W ! (i - 16)]) [16..<64] W"

type_synonym sha_vars = "u32 \<times> u32 \<times> u32 \<times> u32 \<times> u32 \<times> u32 \<times> u32 \<times> u32"

definition DO_ROUND :: "u32 \<Rightarrow> u32 \<Rightarrow> sha_vars \<Rightarrow> sha_vars" where
  "DO_ROUND k w s = (case s of (a, b, c, d, e, f, g, h) \<Rightarrow>
     let t1 = h + SIGMA1 e + Ch e f g + k + w;
         t2 = SIGMA0 a + Maj a b c
     in (t1 + t2, a, b, c, d + t1, e, f, g))"

definition guts :: "u32 list \<Rightarrow> byte list \<Rightarrow> u32 list" where
  "guts hash cbuf =
     (let W = extend (map (\<lambda>i. BYTESWAP (load_word cbuf (4 * i))) [0..<16]);
          s = fold (\<lambda>i. DO_ROUND (sha_K ! i) (W ! i)) [0..<64]
            (hash ! 0, hash ! 1, hash ! 2, hash ! 3, hash ! 4, hash ! 5, hash ! 6, hash ! 7)
      in case s of (a, b, c, d, e, f, g, h) \<Rightarrow>
        [hash ! 0 + a, hash ! 1 + b, hash ! 2 + c, hash ! 3 + d, hash ! 4 + e, hash ! 5 + f, hash ! 6 + g, hash ! 7 + h])"

definition SHA256Guts :: "SHA256Context \<Rightarrow> byte list \<Rightarrow> SHA256Context" where
  "SHA256Guts sc cbuf = sc\<lparr>sc_hash := guts (sc_hash sc) cbuf\<rparr>"

section \<open>Streaming\<close>

text \<open>One pass of the loop: context, position and length left.\<close>

definition update_step :: "SHA256Context \<Rightarrow> byte list \<Rightarrow> nat \<Rightarrow> u32 \<Rightarrow> (SHA256Context \<times> nat \<times> u32) option" where
  "update_step sc dat pos n =
     (let left = 64 - bufferLength sc;
          k = (if left > n then n else left) in
      do {
        buf \<leftarrow> memcpy (sc_buffer sc) (unat (bufferLength sc)) dat pos (unat k);
        let sc = sc\<lparr>sc_buffer := buf, totalLength := totalLength sc + k * 8, bufferLength := bufferLength sc + k\<rparr>;
        let sc = (if bufferLength sc = 64 then (SHA256Guts sc (sc_buffer sc))\<lparr>bufferLength := 0\<rparr> else sc);
        Some (sc, pos + unat k, n - k)
      })"

text \<open>Every pass takes octets, except one on a full buffer, which empties it.\<close>

lemma update_step_less:
  assumes "update_step sc dat pos n = Some (sc', pos', n')" "n \<noteq> 0"
  shows "unat n' < unat n \<or> unat n' = unat n \<and> bufferLength sc = 64 \<and> bufferLength sc' = 0"
proof -
  define k where "k = (if 64 - bufferLength sc > n then n else 64 - bufferLength sc)"
  have n': "n' = n - k" and sc': "k = 0 \<Longrightarrow> bufferLength sc = 64 \<Longrightarrow> bufferLength sc' = 0"
    using assms(1) by (auto simp: update_step_def k_def [symmetric] Let_def bind_eq_Some_conv SHA256Guts_def split: if_splits)
  have kn: "k \<le> n" by (auto simp: k_def)
  show ?thesis
  proof (cases "k = 0")
    case True
    then have "bufferLength sc = 64" using assms(2) by (auto simp: k_def split: if_splits)
    then show ?thesis using sc' True n' by simp
  next
    case False
    then have "0 < unat k" "unat k \<le> unat n" using kn by (simp_all add: unat_gt_0 word_le_nat_alt)
    then show ?thesis using n' unat_sub [OF kn] by simp
  qed
qed

function update_loop :: "SHA256Context \<Rightarrow> byte list \<Rightarrow> nat \<Rightarrow> u32 \<Rightarrow> SHA256Context option" where
  "update_loop sc dat pos n =
     (if n = 0 then Some sc
      else case update_step sc dat pos n of
        None \<Rightarrow> None
      | Some (sc, pos, n) \<Rightarrow> update_loop sc dat pos n)"
  by pat_completeness auto
termination
  by (relation "measures [\<lambda>(sc, dat, pos, n). unat n, \<lambda>(sc, dat, pos, n). if bufferLength sc = 64 then 1 else 0]")
    (auto dest: update_step_less)

declare update_loop.simps [simp del]

definition SHA256Update :: "SHA256Context \<Rightarrow> byte list \<Rightarrow> u32 \<Rightarrow> SHA256Context option" where
  "SHA256Update sc dat n = update_loop sc dat 0 n"

definition put_be :: "u32 \<Rightarrow> byte list" where
  "put_be x = [ucast (drop_bit 24 x), ucast (drop_bit 16 x), ucast (drop_bit 8 x), ucast x]"

text \<open>\<open>hash\<close> is \<open>None\<close> for a NULL pointer.\<close>

definition SHA256Final :: "SHA256Context \<Rightarrow> byte list option \<Rightarrow> (SHA256Context \<times> byte list option) option" where
  "SHA256Final sc hash =
     (let bytesToPad = 120 - bufferLength sc;
          bytesToPad = (if bytesToPad > 64 then bytesToPad - 64 else bytesToPad);
          lengthPad = byteswap64 (ucast (totalLength sc)) in
      do {
        sc \<leftarrow> SHA256Update sc sha_padding bytesToPad;
        sc \<leftarrow> SHA256Update sc (store_u64 lengthPad) 8;
        (case hash of
           None \<Rightarrow> Some (sc, None)
         | Some out \<Rightarrow> do {
             out \<leftarrow> memcpy out 0 (concat (map put_be (sc_hash sc))) 0 32;
             Some (sc, Some out)
           })
      })"

section \<open>The test program\<close>

definition challenge :: "byte list" where
  "challenge =
    [0x2d, 0xce, 0x04, 0x63, 0x36, 0x5c, 0x17, 0xad, 0x02, 0xe8, 0x62, 0xc6, 0x20, 0x75, 0xc7, 0x2f,
     0x5f, 0x4a, 0x98, 0x8f, 0x40, 0xe1, 0xe9, 0xda, 0x9f, 0x3d, 0x4b, 0x4d, 0x5e, 0x06, 0x10, 0x4f]"

definition nist_message :: "byte list" where
  "nist_message = map of_char ''abcdbcdecdefdefgefghfghighijhijkijkljklmklmnlmnomnopnopq''"

primrec update_times :: "nat \<Rightarrow> byte list \<Rightarrow> u32 \<Rightarrow> SHA256Context \<Rightarrow> SHA256Context option" where
  "update_times 0 dat n sc = Some sc"
| "update_times (Suc i) dat n sc = do { sc \<leftarrow> SHA256Update sc dat n; update_times i dat n sc }"

text \<open>The three digests that are printed; \<open>sc\<close> and \<open>hash\<close> are what the stack held.\<close>

definition sha256_main :: "SHA256Context \<Rightarrow> byte list \<Rightarrow> (byte list option \<times> byte list option \<times> byte list option) option" where
  "sha256_main sc hash = do {
     sc \<leftarrow> SHA256Update (SHA256Init sc) challenge 32;
     (sc, hash1) \<leftarrow> SHA256Final sc (Some hash);
     sc \<leftarrow> SHA256Update (SHA256Init sc) nist_message 56;
     (sc, hash2) \<leftarrow> SHA256Final sc hash1;
     sc \<leftarrow> update_times 1000 (replicate 1000 97) 1000 (SHA256Init sc);
     (sc, hash3) \<leftarrow> SHA256Final sc hash2;
     Some (hash1, hash2, hash3)
   }"

end
