(* ===== verification/Sha256Props.thy ===== *)
theory Sha256Props
  imports Sha256 BlockHash
begin

text \<open>
  SHA-256 as the standard (FIPS 180-4) defines it, and the functions of the source as an instance of the interface of streaming digests: any division of a message gives the digest of the whole, with
  one restriction that comes from the width of the length counter.
\<close>

section \<open>The standard\<close>

definition fips_ch :: "u32 \<Rightarrow> u32 \<Rightarrow> u32 \<Rightarrow> u32" where "fips_ch x y z = (x AND y) XOR (NOT x AND z)"
definition fips_maj :: "u32 \<Rightarrow> u32 \<Rightarrow> u32 \<Rightarrow> u32" where "fips_maj x y z = (x AND y) XOR (x AND z) XOR (y AND z)"
definition fips_S0 :: "u32 \<Rightarrow> u32" where "fips_S0 x = word_rotr 2 x XOR word_rotr 13 x XOR word_rotr 22 x"
definition fips_S1 :: "u32 \<Rightarrow> u32" where "fips_S1 x = word_rotr 6 x XOR word_rotr 11 x XOR word_rotr 25 x"
definition fips_s0 :: "u32 \<Rightarrow> u32" where "fips_s0 x = word_rotr 7 x XOR word_rotr 18 x XOR drop_bit 3 x"
definition fips_s1 :: "u32 \<Rightarrow> u32" where "fips_s1 x = word_rotr 17 x XOR word_rotr 19 x XOR drop_bit 10 x"

text \<open>Words are read with the most significant octet first.\<close>

definition be_word :: "byte list \<Rightarrow> nat \<Rightarrow> u32" where
  "be_word b i = push_bit 24 (ucast (b ! i)) OR push_bit 16 (ucast (b ! (i + 1))) OR push_bit 8 (ucast (b ! (i + 2))) OR ucast (b ! (i + 3))"

fun fips_W :: "byte list \<Rightarrow> nat \<Rightarrow> u32" where
  "fips_W b t = (if t < 16 then be_word b (4 * t)
     else fips_s1 (fips_W b (t - 2)) + fips_W b (t - 7) + fips_s0 (fips_W b (t - 15)) + fips_W b (t - 16))"

declare fips_W.simps [simp del]

definition fips_round :: "byte list \<Rightarrow> nat \<Rightarrow> sha_vars \<Rightarrow> sha_vars" where
  "fips_round m t s = (case s of (a, b, c, d, e, f, g, h) \<Rightarrow>
     let T1 = h + fips_S1 e + fips_ch e f g + sha_K ! t + fips_W m t; T2 = fips_S0 a + fips_maj a b c
     in (T1 + T2, a, b, c, d + T1, e, f, g))"

definition fips_block :: "u32 list \<Rightarrow> byte list \<Rightarrow> u32 list" where
  "fips_block H m = (case fold (fips_round m) [0..<64] (H ! 0, H ! 1, H ! 2, H ! 3, H ! 4, H ! 5, H ! 6, H ! 7) of
     (a, b, c, d, e, f, g, h) \<Rightarrow> [H ! 0 + a, H ! 1 + b, H ! 2 + c, H ! 3 + d, H ! 4 + e, H ! 5 + f, H ! 6 + g, H ! 7 + h])"

definition fips_H0 :: "u32 list" where
  "fips_H0 = [0x6a09e667, 0xbb67ae85, 0x3c6ef372, 0xa54ff53a, 0x510e527f, 0x9b05688c, 0x1f83d9ab, 0x5be0cd19]"

text \<open>The eight octets of a number, highest first; \<open>pad_len\<close> is what stands in the length field for a message of \<open>n\<close> octets.\<close>

definition be64 :: "nat \<Rightarrow> byte list" where
  "be64 n = map (\<lambda>i. of_nat (drop_bit (56 - 8 * i) n)) [0..<8]"

definition sha_pad :: "nat \<Rightarrow> byte list \<Rightarrow> byte list" where
  "sha_pad lenfield m = m @ take (if length m mod 64 < 56 then 56 - length m mod 64 else 120 - length m mod 64) (0x80 # replicate 63 0) @ be64 lenfield"

definition sha256_digest :: "nat \<Rightarrow> byte list \<Rightarrow> byte list" where
  "sha256_digest lenfield m = concat (map put_be (absorb fips_block fips_H0 (sha_pad lenfield m)))"

definition sha256_spec :: "byte list \<Rightarrow> byte list" where
  "sha256_spec m = sha256_digest (8 * length m) m"

section \<open>The block function\<close>

lemma ROTR_rotr: "0 < n \<Longrightarrow> n < 32 \<Longrightarrow> ROTR x n = word_rotr n x"
proof (rule bit_word_eqI)
  fix i :: nat
  assume n: "0 < n" "n < 32" and "i < LENGTH(32)"
  then have i: "i < 32" by simp
  show "bit (ROTR x n) i = bit (word_rotr n x) i"
  proof (cases "i + n < 32")
    case True
    then have "\<not> 32 - n \<le> i" by simp
    then show ?thesis using n i True by (simp add: ROTR_def bit_simps add.commute)
  next
    case False
    then have "(n + i) mod 32 = i - (32 - n)" "32 - n \<le> i" using n i by (simp_all add: le_mod_geq)
    moreover have "\<not> bit x (n + i)" using False bit_imp_le_length by fastforce
    ultimately show ?thesis using n i by (simp add: ROTR_def bit_simps add.commute)
  qed
qed

lemma Ch_fips: "Ch = fips_ch"
  by (intro ext bit_word_eqI) (auto simp: Ch_def fips_ch_def bit_simps)

lemma Maj_fips: "Maj = fips_maj"
  by (intro ext bit_word_eqI) (auto simp: Maj_def fips_maj_def bit_simps)

lemma sigmas_fips: "SIGMA0 = fips_S0" "SIGMA1 = fips_S1" "sigma0 = fips_s0" "sigma1 = fips_s1"
  by (intro ext; simp add: SIGMA0_def SIGMA1_def sigma0_def sigma1_def fips_S0_def fips_S1_def fips_s0_def fips_s1_def ROTR_rotr)+

lemmas functions_fips = Ch_fips Maj_fips sigmas_fips

lemma BYTESWAP_load: "BYTESWAP (load_word b i) = be_word b i"
  unfolding u32_bits by (simp add: BYTESWAP_def load_word_def be_word_def ROTR_def ROTL_def bit_simps octet_high)

text \<open>The list that the second loop builds holds the words of the standard's recursion.\<close>

lemma extend_W:
  assumes "n \<le> 48"
  shows "fold (\<lambda>i W. W @ [sigma1 (W ! (i - 2)) + W ! (i - 7) + sigma0 (W ! (i - 15)) + W ! (i - 16)]) [16..<16 + n] (map (fips_W b) [0..<16]) =
    map (fips_W b) [0..<16 + n]"
  using assms
proof (induction n)
  case (Suc n)
  have split: "[16..<16 + Suc n] = [16..<16 + n] @ [16 + n]" "[0..<16 + Suc n] = [0..<16 + n] @ [16 + n]"
    by (simp_all only: add_Suc_right upt_Suc_append le_add1 zero_le)
  show ?case unfolding split fold_append comp_apply using Suc
    by (simp add: functions_fips nth_append fips_W.simps [of b "n + 16"] ac_simps)
qed simp

lemma guts_fips: "guts H b = fips_block H b"
proof -
  have "map (\<lambda>i. BYTESWAP (load_word b (4 * i))) [0..<16] = map (fips_W b) [0..<16]"
    by (intro map_cong refl) (subst fips_W.simps, simp only: BYTESWAP_load set_upt atLeastLessThan_iff if_True)
  then have W: "extend (map (\<lambda>i. BYTESWAP (load_word b (4 * i))) [0..<16]) = map (fips_W b) [0..<64]"
    using extend_W [of 48 b] unfolding extend_def by (simp only: order.refl numeral_plus_numeral add_num_simps)
  have "fold (\<lambda>i. DO_ROUND (sha_K ! i) (map (fips_W b) [0..<64] ! i)) [0..<64] s = fold (fips_round b) [0..<64] s" for s
    by (rule fold_cong) (auto simp: DO_ROUND_def fips_round_def functions_fips fun_eq_iff)
  then show ?thesis by (simp only: guts_def fips_block_def W Let_def)
qed

section \<open>Streaming\<close>

definition sha_repr :: "SHA256Context \<Rightarrow> byte list \<Rightarrow> bool" where
  "sha_repr c m \<longleftrightarrow> length (sc_buffer c) = 64 \<and> sc_hash c = absorb fips_block fips_H0 m \<and>
     bufferLength c = of_nat (length m mod 64) \<and> take (length m mod 64) (sc_buffer c) = rest m \<and> totalLength c = of_nat (8 * length m)"

lemma SHA256Init_repr: "length (sc_buffer c) = 64 \<Longrightarrow> sha_repr (SHA256Init c) []"
  by (simp add: sha_repr_def SHA256Init_def fips_H0_def)

lemma small_u32: "a < 2 ^ 32 \<Longrightarrow> unat (of_nat a :: u32) = a"
  by (simp add: unat_of_nat)

text \<open>A pass of the loop takes as many octets as the buffer has room for.\<close>

lemma update_step_repr:
  assumes r: "sha_repr c m" and n: "0 < n" "n < 2 ^ 32" "pos + n \<le> length dat"
  defines "k \<equiv> min (64 - length m mod 64) n"
  shows "\<exists>c'. update_step c dat pos (of_nat n) = Some (c', pos + k, of_nat (n - k)) \<and> sha_repr c' (m @ take k (drop pos dat))"
proof -
  define l where "l = length m mod 64"
  define x where "x = take k (drop pos dat)"
  define H where "H = absorb fips_block fips_H0 m"
  define buf where "buf = take l (sc_buffer c) @ x @ drop (l + k) (sc_buffer c)"
  have l: "l < 64" "length (rest m) = l" by (simp_all add: l_def)
  have c: "length (sc_buffer c) = 64" "sc_hash c = H" "bufferLength c = of_nat l" "take l (sc_buffer c) = rest m" "totalLength c = of_nat (8 * length m)"
    using r by (simp_all add: sha_repr_def l_def H_def)
  have k: "k \<le> n" "l + k \<le> 64" using l by (auto simp: k_def l_def)
  have x: "length x = k" using n(3) k(1) by (simp add: x_def)
  have left: "(64 - bufferLength c :: u32) = of_nat (64 - l)" using l c(3) by (simp add: of_nat_diff)
  have kw: "(if 64 - bufferLength c > of_nat n then of_nat n else 64 - bufferLength c) = (of_nat k :: u32)"
  proof -
    have "unat (64 - bufferLength c) = 64 - l" unfolding left using l by (intro small_u32) simp
    then have "64 - bufferLength c > of_nat n \<longleftrightarrow> n < 64 - l" using n(2) by (simp only: word_less_nat_alt small_u32)
    then show ?thesis using left by (auto simp only: k_def l_def [symmetric] min_def split: if_split)
  qed
  have uk: "unat (of_nat k :: u32) = k" using k n(2) by (simp add: small_u32)
  have nk: "(of_nat n - of_nat k :: u32) = of_nat (n - k)" using k(1) by (simp add: of_nat_diff)
  have mem: "memcpy (sc_buffer c) l dat pos k = Some buf" using c(1) k n(3) by (simp add: memcpy_def buf_def x_def)
  have bl: "bufferLength c + of_nat k = (64 :: u32) \<longleftrightarrow> l + k = 64"
  proof -
    have "bufferLength c + of_nat k = (of_nat (l + k) :: u32)" by (simp add: c(3))
    moreover have "(of_nat (l + k) :: u32) = 64 \<longleftrightarrow> unat (of_nat (l + k) :: u32) = 64" by (simp add: word_unat_eq_iff)
    ultimately show ?thesis using k(2) small_u32 [of "l + k"] by simp
  qed
  have tot: "totalLength c + of_nat k * 8 = of_nat (8 * length (m @ x))" using x c(5) by (simp add: algebra_simps)
  define c1 where "c1 = c\<lparr>sc_buffer := buf, totalLength := of_nat (8 * length (m @ x)), bufferLength := of_nat (l + k)\<rparr>"
  define c2 where "c2 = (if l + k = 64 then c1\<lparr>sc_hash := fips_block H buf, bufferLength := 0\<rparr> else c1)"
  have "update_step c dat pos (of_nat n) = Some (c2, pos + k, of_nat (n - k))"
  proof -
    have "unat (bufferLength c) = l" using c(3) l(1) small_u32 [of l] by simp
    moreover have "bufferLength c + of_nat k = of_nat (l + k)" by (simp add: c(3))
    moreover have "(of_nat (l + k) :: u32) = 64 \<longleftrightarrow> l + k = 64" using bl c(3) by simp
    ultimately show ?thesis unfolding update_step_def Let_def kw uk nk
      using mem tot c(2) by (simp only: bind.simps SHA256Context.simps SHA256Context.update_convs c1_def [symmetric] c2_def)
        (simp add: c1_def SHA256Guts_def guts_fips)
  qed
  moreover have "sha_repr c2 (m @ x)"
  proof (cases "l + k = 64")
    case True
    then have b: "buf = rest m @ x" "length buf = 64" using c(1,4) l x by (simp_all add: buf_def)
    have "absorb fips_block fips_H0 (m @ x) = fips_block H buf"
      using absorb_append [of fips_block fips_H0 m x] absorb_block [OF b(2), of fips_block H "[]"] b(1) by (simp add: H_def)
    moreover have "rest (m @ x) = []" using rest_append [of m x] rest_block [OF b(2), of "[]"] b(1) by simp
    moreover have "(length m + k) mod 64 = 0" using True by (metis l_def mod_add_left_eq mod_self)
    ultimately show ?thesis using True b x by (simp add: sha_repr_def c2_def c1_def)
  next
    case False
    then have lt: "l + k < 64" using k(2) by simp
    have "rest (m @ x) = rest m @ x" using rest_append [of m x] l(2) x lt by simp
    moreover have "absorb fips_block fips_H0 (m @ x) = H" using absorb_append [of fips_block fips_H0 m x] l(2) x lt by (simp add: H_def)
    moreover have "(length m + k) mod 64 = l + k" using lt by (metis l_def mod_add_left_eq mod_less)
    moreover have "length buf = 64" using c(1) k(2) l x by (simp add: buf_def)
    moreover have "take (l + k) buf = rest m @ x" using c(1,4) l x by (simp add: buf_def)
    ultimately show ?thesis using False x c by (simp add: sha_repr_def c2_def c1_def)
  qed
  ultimately show ?thesis by (auto simp: x_def)
qed

lemma update_loop_repr:
  assumes "sha_repr c m" "n < 2 ^ 32" "pos + n \<le> length dat"
  shows "\<exists>c'. update_loop c dat pos (of_nat n) = Some c' \<and> sha_repr c' (m @ take n (drop pos dat))"
  using assms
proof (induction n arbitrary: c m pos rule: less_induct)
  case (less n)
  show ?case
  proof (cases "n = 0")
    case True
    then show ?thesis using less.prems(1) by (simp add: update_loop.simps)
  next
    case False
    define k where "k = min (64 - length m mod 64) n"
    have "length m mod 64 < 64" by simp
    then have k: "0 < k" "k \<le> n" using False by (auto simp: k_def)
    obtain c1 where c1: "update_step c dat pos (of_nat n) = Some (c1, pos + k, of_nat (n - k))" "sha_repr c1 (m @ take k (drop pos dat))"
      using update_step_repr [OF less.prems(1) _ less.prems(2,3)] False by (auto simp: k_def)
    obtain c' where c': "update_loop c1 dat (pos + k) (of_nat (n - k)) = Some c'"
        "sha_repr c' ((m @ take k (drop pos dat)) @ take (n - k) (drop (pos + k) dat))"
    proof -
      have "n - k < n" "n - k < 2 ^ 32" "pos + k + (n - k) \<le> length dat" using less.prems(2,3) k by simp_all
      then show thesis using less.IH [OF _ c1(2)] that by blast
    qed
    have "take n (drop pos dat) = take k (drop pos dat) @ take (n - k) (drop (pos + k) dat)"
      using k(2) take_add [of k "n - k" "drop pos dat"] by (simp add: add.commute)
    moreover have "(of_nat n :: u32) \<noteq> 0" using False less.prems(2) small_u32 by (metis unat_0)
    ultimately show ?thesis using c1(1) c' by (subst update_loop.simps) simp
  qed
qed

lemma SHA256Update_repr:
  "sha_repr c m \<Longrightarrow> n < 2 ^ 32 \<Longrightarrow> n \<le> length dat \<Longrightarrow>
   \<exists>c'. SHA256Update c dat (of_nat n) = Some c' \<and> sha_repr c' (m @ take n dat)"
  using update_loop_repr [of c m n 0 dat] by (simp add: SHA256Update_def)

interpretation sha256: stream_hash sha_repr "\<lambda>c x. SHA256Update c x (of_nat (length x))" "\<lambda>x. length x < 2 ^ 32"
proof
  fix c m and x :: "byte list"
  assume "sha_repr c m" "length x < 2 ^ 32"
  then show "\<exists>c'. SHA256Update c x (of_nat (length x)) = Some c' \<and> sha_repr c' (m @ x)"
    using SHA256Update_repr [of c m "length x" x] by simp
qed

section \<open>Finishing\<close>

lemma length_octets: "store_u64 (byteswap64 (ucast x)) = be64 (unat x)" for x :: u32
proof -
  have "bit (of_nat (drop_bit k (unat x)) :: byte) i \<longleftrightarrow> i < 8 \<and> bit x (k + i)" for i k
    by (auto simp: bit_simps)
  then show ?thesis
    by (simp add: store_u64_def be64_def upt_rec byte_bits byteswap64_def BYTESWAP_def ROTR_def ROTL_def bit_simps Let_def)
qed

lemma length_fips_block: "length (fips_block H b) = 8"
  by (simp add: fips_block_def split: prod.splits)

lemma length_absorb_fips: "length H = 8 \<Longrightarrow> length (absorb fips_block H bs) = 8"
  by (induction "length bs" arbitrary: H bs rule: less_induct) (subst absorb.simps, simp add: length_fips_block)

lemma length_put_be: "length (concat (map put_be H)) = 4 * length H"
  by (induction H) (simp_all add: put_be_def)

lemma length_digest: "length (sha256_digest n m) = 32"
  by (simp add: sha256_digest_def length_put_be length_absorb_fips fips_H0_def)

lemma SHA256Final_digest:
  assumes "sha_repr c m" "32 \<le> length out"
  shows "\<exists>c'. SHA256Final c (Some out) = Some (c', Some (sha256_digest (8 * length m mod 2 ^ 32) m @ drop 32 out)) \<and> length (sc_buffer c') = 64"
proof -
  define l where "l = length m mod 64"
  define padn where "padn = (if l < 56 then 56 - l else 120 - l)"
  have l: "l < 64" by (simp add: l_def)
  then have padn: "padn \<le> 64" by (auto simp: padn_def)
  have "(120 - bufferLength c :: u32) = of_nat (120 - l)" using assms(1) l by (simp add: sha_repr_def l_def of_nat_diff)
  moreover have "(of_nat (120 - l) :: u32) > 64 \<longleftrightarrow> l < 56" using l small_u32 [of "120 - l"] by (auto simp only: word_less_nat_alt) auto
  moreover have "l < 56 \<Longrightarrow> (of_nat (120 - l) - 64 :: u32) = of_nat (56 - l)" by (simp add: of_nat_diff)
  ultimately have pad: "(let p = 120 - bufferLength c in if p > 64 then p - 64 else p) = (of_nat padn :: u32)"
    by (auto simp only: Let_def padn_def split: if_split)
  obtain c1 where c1: "SHA256Update c sha_padding (of_nat padn) = Some c1" "sha_repr c1 (m @ take padn sha_padding)"
    using SHA256Update_repr [OF assms(1), of padn sha_padding] padn by (auto simp: sha_padding_def)
  define field where "field = 8 * length m mod 2 ^ 32"
  have "unat (totalLength c) = field" using assms(1) by (simp only: sha_repr_def field_def) (simp only: unat_of_nat, simp)
  then have len: "store_u64 (byteswap64 (ucast (totalLength c))) = be64 field" by (simp add: length_octets)
  obtain c2 where c2: "SHA256Update c1 (be64 field) 8 = Some c2" "sha_repr c2 (sha_pad field m)"
  proof -
    have "sha_pad field m = (m @ take padn sha_padding) @ be64 field" "length (be64 field) = 8"
      by (simp_all add: sha_pad_def padn_def l_def sha_padding_def be64_def)
    then show thesis using SHA256Update_repr [OF c1(2), of 8 "be64 field"] that by auto
  qed
  have "concat (map put_be (sc_hash c2)) = sha256_digest field m" using c2(2) by (simp add: sha_repr_def sha256_digest_def)
  then have "memcpy out 0 (concat (map put_be (sc_hash c2))) 0 32 = Some (sha256_digest field m @ drop 32 out)"
    using assms(2) length_digest by (simp add: memcpy_def)
  moreover have "length (sc_buffer c2) = 64" using c2(2) by (simp add: sha_repr_def)
  ultimately show ?thesis unfolding field_def [symmetric] using c1(1) c2(1) pad len by (auto simp: SHA256Final_def Let_def)
qed

lemma sha256_spec_short: "length m < 2 ^ 29 \<Longrightarrow> sha256_digest (8 * length m mod 2 ^ 32) m = sha256_spec m"
  by (simp add: sha256_spec_def)

text \<open>
  C7. Feeding a message in pieces of any sizes and finishing gives, in the first 32 octets of the output, the SHA-256 of the whole as FIPS 180-4 defines it, for every message below 512 megabytes.
  The counter of bits has 32 bits, so the length field of a longer message holds its length modulo \<open>2\<^sup>32\<close>.
\<close>

theorem sha256_stream_spec:
  assumes "length (sc_buffer stack) = 64" "list_all (\<lambda>x. length x < 2 ^ 32) xs" "32 \<le> length out"
  shows "\<exists>c c' d. feed (\<lambda>c x. SHA256Update c x (of_nat (length x))) xs (SHA256Init stack) = Some c \<and>
    SHA256Final c (Some out) = Some (c', Some (d @ drop 32 out)) \<and> length d = 32 \<and>
    d = sha256_digest (8 * length (concat xs) mod 2 ^ 32) (concat xs) \<and>
    (length (concat xs) < 2 ^ 29 \<longrightarrow> d = sha256_spec (concat xs))"
proof -
  obtain c where "feed (\<lambda>c x. SHA256Update c x (of_nat (length x))) xs (SHA256Init stack) = Some c" "sha_repr c (concat xs)"
    using sha256.feed_repr [OF SHA256Init_repr [OF assms(1)] assms(2)] by auto
  then show ?thesis using SHA256Final_digest [OF _ assms(3)] length_digest sha256_spec_short by blast
qed

theorem sha256_stream_spec_witness:
  "\<exists>c c'. feed (\<lambda>c x. SHA256Update c x (of_nat (length x))) [[97], [], [98, 99]]
      (SHA256Init \<lparr>totalLength = 1, sc_hash = [], bufferLength = 2, sc_buffer = replicate 64 3\<rparr>) = Some c \<and>
    SHA256Final c (Some (replicate 32 1)) = Some (c', Some (sha256_spec [97, 98, 99]))"
proof -
  define stack where "stack = \<lparr>totalLength = 1, sc_hash = [], bufferLength = 2, sc_buffer = replicate 64 3\<rparr>"
  have pre: "length (sc_buffer stack) = 64" "list_all (\<lambda>x. length x < 2 ^ 32) [[97], [], [98, 99 :: byte]]" "32 \<le> length (replicate 32 (1 :: byte))"
    by (simp_all add: stack_def)
  have short: "length (concat [[97], [], [98, 99 :: byte]]) < 2 ^ 29" by simp
  have whole: "concat [[97], [], [98, 99]] = [97, 98, 99 :: byte]" "d @ drop 32 (replicate 32 1) = d" for d :: "byte list" by simp_all
  obtain c c' d where run: "feed (\<lambda>c x. SHA256Update c x (of_nat (length x))) [[97], [], [98, 99]] (SHA256Init stack) = Some c"
      "SHA256Final c (Some (replicate 32 1)) = Some (c', Some d)" "d = sha256_spec [97, 98, 99]"
    using sha256_stream_spec [OF pre] short unfolding whole by (elim exE conjE) (drule (1) mp, rule that)
  then show ?thesis unfolding stack_def by blast
qed

section \<open>The test program\<close>

lemma digest_piece:
  assumes "length (sc_buffer c) = 64" "length x = n" "n < 2 ^ 29" "length out = 32"
  obtains c1 c2 where "SHA256Update (SHA256Init c) x (of_nat n) = Some c1" "SHA256Final c1 (Some out) = Some (c2, Some (sha256_spec x))"
    "length (sc_buffer c2) = 64"
proof -
  obtain c1 where c1: "SHA256Update (SHA256Init c) x (of_nat n) = Some c1" "sha_repr c1 x"
    using SHA256Update_repr [OF SHA256Init_repr [OF assms(1)], of n x] assms(2,3) by auto
  then show thesis using SHA256Final_digest [OF c1(2), of out] sha256_spec_short [of x] assms that by auto
qed

lemma update_times_repr:
  "sha_repr c m \<Longrightarrow> length x = n \<Longrightarrow> n < 2 ^ 32 \<Longrightarrow>
   \<exists>c'. update_times i x (of_nat n) c = Some c' \<and> sha_repr c' (m @ concat (replicate i x))"
proof (induction i arbitrary: c m)
  case (Suc i)
  then obtain c1 where c1: "SHA256Update c x (of_nat n) = Some c1" "sha_repr c1 (m @ x)"
    using SHA256Update_repr [of c m n x] by auto
  then show ?case using Suc.IH [OF c1(2)] Suc.prems by simp
qed simp

text \<open>
  The program prints the SHA-256 of the challenge, of the message of the standard's second example and of one million letters \<open>a\<close>, whatever the stack held.
\<close>

theorem sha256_main_digests:
  assumes "length (sc_buffer sc) = 64" "length hash = 32"
  shows "sha256_main sc hash = Some (Some (sha256_spec challenge), Some (sha256_spec nist_message), Some (sha256_spec (replicate 1000000 97)))"
proof -
  obtain c1 c2 where a: "SHA256Update (SHA256Init sc) challenge 32 = Some c1" "SHA256Final c1 (Some hash) = Some (c2, Some (sha256_spec challenge))"
      "length (sc_buffer c2) = 64"
    using digest_piece [OF assms(1), of challenge 32 hash] assms(2) by (auto simp: challenge_def)
  have len: "length (sha256_spec m) = 32" for m by (simp add: sha256_spec_def length_digest)
  obtain c3 c4 where b: "SHA256Update (SHA256Init c2) nist_message 56 = Some c3"
      "SHA256Final c3 (Some (sha256_spec challenge)) = Some (c4, Some (sha256_spec nist_message))" "length (sc_buffer c4) = 64"
    using digest_piece [OF a(3), of nist_message 56 "sha256_spec challenge"] len by (auto simp: nist_message_def)
  have million: "concat (replicate i (replicate k x)) = replicate (i * k) x" for i k and x :: byte
    by (induction i) (simp_all add: replicate_add)
  obtain c5 where c5: "update_times 1000 (replicate 1000 97) 1000 (SHA256Init c4) = Some c5" "sha_repr c5 (replicate 1000000 97)"
    using update_times_repr [OF SHA256Init_repr [OF b(3)], of "replicate 1000 97" 1000 1000] by (auto simp: million)
  then obtain c6 where "SHA256Final c5 (Some (sha256_spec nist_message)) = Some (c6, Some (sha256_spec (replicate 1000000 97)))"
    using SHA256Final_digest [OF c5(2), of "sha256_spec nist_message"] sha256_spec_short [of "replicate 1000000 97"] len by auto
  then show ?thesis using a(1,2) b(1,2) c5(1) by (simp add: sha256_main_def)
qed

theorem sha256_main_digests_witness:
  "sha256_main \<lparr>totalLength = 1, sc_hash = [], bufferLength = 2, sc_buffer = replicate 64 3\<rparr> (replicate 32 0) =
     Some (Some (sha256_spec challenge), Some (sha256_spec nist_message), Some (sha256_spec (replicate 1000000 97)))"
  by (rule sha256_main_digests) simp_all

end
