(* ===== verification/Sha256Kat.thy ===== *)
theory Sha256Kat
  imports Sha256Props
begin

text \<open>The example of the standard, the three letters \<open>abc\<close>, evaluated with the functions of the source.\<close>

definition sha_abc :: "byte list" where
  "sha_abc = [97, 98, 99, 0x80] @ replicate 52 0 @ [0, 0, 0, 0, 0, 0, 0, 24]"

lemma sha_pad_abc: "sha_pad 24 [97, 98, 99] = sha_abc"
proof -
  have "be64 24 = [0, 0, 0, 0, 0, 0, 0, 24]" by (simp add: be64_def upt_rec drop_bit_eq_div)
  then show ?thesis by (simp add: sha_pad_def sha_abc_def take_Cons')
qed

definition sha_abc_words :: "u32 list" where
  "sha_abc_words =
    [0x61626380, 0x00000000, 0x00000000, 0x00000000, 0x00000000, 0x00000000, 0x00000000, 0x00000000,
     0x00000000, 0x00000000, 0x00000000, 0x00000000, 0x00000000, 0x00000000, 0x00000000, 0x00000018,
     0x61626380, 0x000f0000, 0x7da86405, 0x600003c6, 0x3e9d7b78, 0x0183fc00, 0x12dcbfdb, 0xe2e2c38e,
     0xc8215c1a, 0xb73679a2, 0xe5bc3909, 0x32663c5b, 0x9d209d67, 0xec8726cb, 0x702138a4, 0xd3b7973b,
     0x93f5997f, 0x3b68ba73, 0xaff4ffc1, 0xf10a5c62, 0x0a8b3996, 0x72af830a, 0x9409e33e, 0x24641522,
     0x9f47bf94, 0xf0a64f5a, 0x3e246a79, 0x27333ba3, 0x0c4763f2, 0x840abf27, 0x7a290d5d, 0x065c43da,
     0xfb3e89cb, 0xcc7617db, 0xb9e66c34, 0xa9993667, 0x84badedd, 0xc21462bc, 0x1487472c, 0xb20f7a99,
     0xef57b9cd, 0xebe6b238, 0x9fe3095e, 0x78bc8d4b, 0xa43fcf15, 0x668b2ff8, 0xeeaba2cc, 0x12b1edeb]"

lemma sha_abc_extend: "extend (map (\<lambda>i. BYTESWAP (load_word sha_abc (4 * i))) [0..<16]) = sha_abc_words"
  by code_simp

lemma sha_abc_rounds_1:
  "fold (\<lambda>i. DO_ROUND (sha_K ! i) (sha_abc_words ! i)) [0..<16]
     (0x6a09e667, 0xbb67ae85, 0x3c6ef372, 0xa54ff53a, 0x510e527f, 0x9b05688c, 0x1f83d9ab, 0x5be0cd19) =
     (0xb0fa238e, 0xc0645fde, 0xd932eb16, 0x87912990, 0x07590dcd, 0x0b92f20c, 0x745a48de, 0x1e578218)"
  by code_simp

lemma sha_abc_rounds_2:
  "fold (\<lambda>i. DO_ROUND (sha_K ! i) (sha_abc_words ! i)) [16..<32]
     (0xb0fa238e, 0xc0645fde, 0xd932eb16, 0x87912990, 0x07590dcd, 0x0b92f20c, 0x745a48de, 0x1e578218) =
     (0x73b33bf5, 0xea992a22, 0xa0060b30, 0x363482c9, 0xba591112, 0x0109ab3a, 0xade79437, 0x6112a3b7)"
  by code_simp

lemma sha_abc_rounds_3:
  "fold (\<lambda>i. DO_ROUND (sha_K ! i) (sha_abc_words ! i)) [32..<48]
     (0x73b33bf5, 0xea992a22, 0xa0060b30, 0x363482c9, 0xba591112, 0x0109ab3a, 0xade79437, 0x6112a3b7) =
     (0x4172328d, 0xa14c14b0, 0x72ab4b91, 0x26628815, 0xfecf0bc6, 0xd57b94a9, 0xb7755da1, 0xa80f11f0)"
  by code_simp

lemma sha_abc_rounds_4:
  "fold (\<lambda>i. DO_ROUND (sha_K ! i) (sha_abc_words ! i)) [48..<64]
     (0x4172328d, 0xa14c14b0, 0x72ab4b91, 0x26628815, 0xfecf0bc6, 0xd57b94a9, 0xb7755da1, 0xa80f11f0) =
     (0x506e3058, 0xd39a2165, 0x04d24d6c, 0xb85e2ce9, 0x5ef50f24, 0xfb121210, 0x948d25b6, 0x961f4894)"
  by code_simp

lemmas sha_abc_rounds = sha_abc_rounds_1 sha_abc_rounds_2 sha_abc_rounds_3 sha_abc_rounds_4

lemma upt_64: "[0..<64] = [0..<16] @ [16..<32] @ [32..<48] @ [48..<64 :: nat]"
  by code_simp

lemma guts_abc: "guts fips_H0 sha_abc = [0xba7816bf, 0x8f01cfea, 0x414140de, 0x5dae2223, 0xb00361a3, 0x96177a9c, 0xb410ff61, 0xf20015ad]"
proof -
  have "(fips_H0 ! 0, fips_H0 ! 1, fips_H0 ! 2, fips_H0 ! 3, fips_H0 ! 4, fips_H0 ! 5, fips_H0 ! 6, fips_H0 ! 7) =
      (0x6a09e667, 0xbb67ae85, 0x3c6ef372, 0xa54ff53a, 0x510e527f, 0x9b05688c, 0x1f83d9ab, 0x5be0cd19)"
    by (simp add: fips_H0_def)
  then show ?thesis
    unfolding guts_def Let_def sha_abc_extend upt_64 fold_append comp_apply by (simp only: sha_abc_rounds prod.case) (simp add: fips_H0_def)
qed

lemma sha256_known_answer:
  "sha256_spec [97, 98, 99] =
    [0xba, 0x78, 0x16, 0xbf, 0x8f, 0x01, 0xcf, 0xea, 0x41, 0x41, 0x40, 0xde, 0x5d, 0xae, 0x22, 0x23,
     0xb0, 0x03, 0x61, 0xa3, 0x96, 0x17, 0x7a, 0x9c, 0xb4, 0x10, 0xff, 0x61, 0xf2, 0x00, 0x15, 0xad]"
proof -
  have "length sha_abc = 64" by (simp add: sha_abc_def)
  then have "absorb fips_block fips_H0 sha_abc = guts fips_H0 sha_abc"
    using absorb_block [of sha_abc fips_block fips_H0 "[]"] by (simp add: guts_fips)
  then show ?thesis by (simp add: sha256_spec_def sha256_digest_def sha_pad_abc guts_abc put_be_def)
qed

lemma sha256_functions_abc:
  "\<exists>c c'. SHA256Update (SHA256Init \<lparr>totalLength = 1, sc_hash = [], bufferLength = 2, sc_buffer = replicate 64 3\<rparr>) [97, 98, 99] 3 = Some c \<and>
    SHA256Final c (Some (replicate 32 0)) = Some (c', Some
    [0xba, 0x78, 0x16, 0xbf, 0x8f, 0x01, 0xcf, 0xea, 0x41, 0x41, 0x40, 0xde, 0x5d, 0xae, 0x22, 0x23,
     0xb0, 0x03, 0x61, 0xa3, 0x96, 0x17, 0x7a, 0x9c, 0xb4, 0x10, 0xff, 0x61, 0xf2, 0x00, 0x15, 0xad])"
  using digest_piece [of "\<lparr>totalLength = 1, sc_hash = [], bufferLength = 2, sc_buffer = replicate 64 3\<rparr>" "[97, 98, 99]" 3 "replicate 32 0"]
  by (simp add: sha256_known_answer) metis

end
