(* ===== verification/Yct.thy ===== *)
theory Yct
  imports Wifi
begin

text \<open>
  The card reader program (\<open>src/yct_card/yct_test.c\<close>): commands in frames of a header, a length, a command octet, data and a checksum. The checksum function starts from a variable without initial value;
  what it held is the argument \<open>g\<close>. Buffers have their C capacity. Pointers that a caller passes without a value are \<open>None\<close>. A result \<open>None\<close> is an access outside an array or
  through such a pointer. Output and delays are left out.
\<close>

record 'w yct_os = "'w serial" +
  s_recv :: "int \<Rightarrow> nat \<Rightarrow> 'w \<Rightarrow> int \<times> byte list \<times> 'w"

definition CheckSum :: "byte \<Rightarrow> byte list \<Rightarrow> nat \<Rightarrow> byte option" where
  "CheckSum g dat n = (if n \<le> length dat then Some (fold (XOR) (take n dat) g) else None)"

text \<open>
  The statements that all commands have: the checksum over \<open>n\<close> octets is stored at \<open>i\<close>, the array is sent, and the answer is read into \<open>cap\<close> octets.
\<close>

definition yct_exchange ::
  "('w, 'x) yct_os_scheme \<Rightarrow> byte \<Rightarrow> int \<Rightarrow> byte list \<Rightarrow> nat \<Rightarrow> nat \<Rightarrow> nat \<Rightarrow> 'w \<Rightarrow> (int \<times> byte list \<times> 'w) option" where
  "yct_exchange os g fd tbuf n i cap w = do {
     ck \<leftarrow> CheckSum g tbuf n;
     tbuf \<leftarrow> buf_wr tbuf i ck;
     case s_send os fd tbuf w of (ret, w) \<Rightarrow>
       case s_recv os fd cap w of (ret, bs, w) \<Rightarrow> Some (ret, read_into (replicate cap 0) bs, w)
   }"

definition GetVersion :: "('w, 'x) yct_os_scheme \<Rightarrow> byte \<Rightarrow> int \<Rightarrow> byte list option \<Rightarrow> 'w \<Rightarrow> (int \<times> byte list \<times> 'w) option" where
  "GetVersion os g fd szVer w = do {
     (ret, rbuf, w) \<leftarrow> yct_exchange os g fd [0xBA, 0x02, 0x60, 0] 3 3 128 w;
     szVer \<leftarrow> szVer;
     szVer \<leftarrow> memcpy szVer 0 rbuf 4 24;
     Some (0, szVer, w)
   }"

text \<open>The checksum is taken over seven octets of an array of six.\<close>

definition Module_Init :: "('w, 'x) yct_os_scheme \<Rightarrow> byte \<Rightarrow> int \<Rightarrow> byte list \<Rightarrow> byte list \<Rightarrow> 'w \<Rightarrow> (int \<times> byte list \<times> 'w) option" where
  "Module_Init os g fd pSPno pSamID w = do {
     tbuf \<leftarrow> memcpy [0xBA, 0x04, 0xD2, 0, 0, 0] 3 pSPno 0 2;
     (ret, rbuf, w) \<leftarrow> yct_exchange os g fd tbuf 7 5 128 w;
     pSamID \<leftarrow> memcpy pSamID 0 rbuf 4 4;
     Some (0, pSamID, w)
   }"

text \<open>\<open>memcpy(&pData, ...)\<close> changes the parameter and nothing of the caller.\<close>

definition QuerTicketInfo :: "('w, 'x) yct_os_scheme \<Rightarrow> byte \<Rightarrow> int \<Rightarrow> 'w \<Rightarrow> (int \<times> 'w) option" where
  "QuerTicketInfo os g fd w = do {
     (ret, rbuf, w) \<leftarrow> yct_exchange os g fd [0xBA, 0x02, 0xD3, 0] 3 3 128 w;
     Some (0, w)
   }"

definition QuerRentInfo :: "('w, 'x) yct_os_scheme \<Rightarrow> byte \<Rightarrow> int \<Rightarrow> byte \<Rightarrow> 'w \<Rightarrow> (int \<times> 'w) option" where
  "QuerRentInfo os g fd bID w = do {
     (ret, rbuf, w) \<leftarrow> yct_exchange os g fd [0xBA, 0x03, 0xD9, bID, 0] 4 4 128 w;
     Some (0, w)
   }"

text \<open>The data is stored behind an array of three octets.\<close>

definition SetRentInfo :: "('w, 'x) yct_os_scheme \<Rightarrow> byte \<Rightarrow> int \<Rightarrow> byte \<Rightarrow> byte list \<Rightarrow> 'w \<Rightarrow> (int \<times> 'w) option" where
  "SetRentInfo os g fd bID pData w = do {
     tbuf \<leftarrow> memcpy [0xBA, 0x04, 0xDA] 3 [bID] 0 1;
     tbuf \<leftarrow> memcpy tbuf 4 pData 0 1;
     (ret, rbuf, w) \<leftarrow> yct_exchange os g fd tbuf 5 5 128 w;
     Some (0, w)
   }"

definition store_u32 :: "u32 \<Rightarrow> byte list" where
  "store_u32 x = map (\<lambda>i. ucast (drop_bit (8 * i) x)) [0..<4]"

definition Consume ::
  "('w, 'x) yct_os_scheme \<Rightarrow> byte \<Rightarrow> int \<Rightarrow> u32 \<Rightarrow> u32 \<Rightarrow> byte list \<Rightarrow> byte list \<Rightarrow> byte \<Rightarrow> 'w \<Rightarrow> (int \<times> 'w) option" where
  "Consume os g fd lAmount lFee pTime bPHysicalID bAddtionalType w = do {
     tbuf \<leftarrow> memcpy (replicate 27 0) 0 [0xBA, 0x19, 0xD4] 0 3;
     tbuf \<leftarrow> memcpy tbuf 3 (store_u32 lAmount) 0 4;
     tbuf \<leftarrow> memcpy tbuf 7 (store_u32 lFee) 0 4;
     tbuf \<leftarrow> memcpy tbuf 11 pTime 0 6;
     tbuf \<leftarrow> memcpy tbuf 17 bPHysicalID 0 8;
     tbuf \<leftarrow> memcpy tbuf 25 [bAddtionalType] 0 1;
     (ret, rbuf, w) \<leftarrow> yct_exchange os g fd tbuf 26 26 128 w;
     Some (0, w)
   }"

definition SetBlackFlag :: "('w, 'x) yct_os_scheme \<Rightarrow> byte \<Rightarrow> int \<Rightarrow> 'w \<Rightarrow> (int \<times> 'w) option" where
  "SetBlackFlag os g fd w = do {
     (ret, rbuf, w) \<leftarrow> yct_exchange os g fd [0xBA, 0x02, 0xD5, 0] 3 3 128 w;
     Some (0, w)
   }"

text \<open>The number of octets that are copied is \<open>ret - 6\<close> as an unsigned number.\<close>

definition GetHisRecord ::
  "('w, 'x) yct_os_scheme \<Rightarrow> byte \<Rightarrow> int \<Rightarrow> byte list \<Rightarrow> byte list \<Rightarrow> 'w \<Rightarrow> (int \<times> byte list \<times> byte list \<times> 'w) option" where
  "GetHisRecord os g fd pType pData w = do {
     (ret, rbuf, w) \<leftarrow> yct_exchange os g fd [0xBA, 0x02, 0xD6, 0] 3 3 128 w;
     pType \<leftarrow> memcpy pType 0 rbuf 4 1;
     pData \<leftarrow> memcpy pData 0 rbuf 5 (nat ((ret - 6) mod 2 ^ 32));
     Some (0, pType, pData, w)
   }"

definition GetTrans :: "('w, 'x) yct_os_scheme \<Rightarrow> byte \<Rightarrow> int \<Rightarrow> byte list \<Rightarrow> 'w \<Rightarrow> (int \<times> byte list \<times> 'w) option" where
  "GetTrans os g fd bTrans w = do {
     (ret, rbuf, w) \<leftarrow> yct_exchange os g fd [0xBA, 0x02, 0xD8, 0] 3 3 128 w;
     bTrans \<leftarrow> memcpy bTrans 0 rbuf 4 90;
     Some (0, bTrans, w)
   }"

text \<open>The checksum is taken over six octets of an array of four; the parameters are not sent.\<close>

definition Set_parameter :: "('w, 'x) yct_os_scheme \<Rightarrow> byte \<Rightarrow> int \<Rightarrow> byte list \<Rightarrow> 'w \<Rightarrow> (int \<times> 'w) option" where
  "Set_parameter os g fd arg w = do {
     (ret, rbuf, w) \<leftarrow> yct_exchange os g fd [0xBA, 0x05, 0xD7, 0] 6 3 5 w;
     Some (0, w)
   }"

definition yct_main :: "('w, 'x) yct_os_scheme \<Rightarrow> byte \<Rightarrow> 'w \<Rightarrow> (int \<times> 'w) option" where
  "yct_main os g w =
     (let uart1 = \<lparr>sfd = 0, pathname = str ''/dev/ttyO1'' @ replicate 118 0, flags = O_RDWR, speed = 115200, databits = 8, stopbits = 1\<rparr> in
      case s_init os uart1 w of (ret, uart1, w) \<Rightarrow>
        do {
          (ret, pSamID, w) \<leftarrow> Module_Init os g (sfd uart1) [0, 0] [0, 0, 0, 0] w;
          (ret, szVer, w) \<leftarrow> GetVersion os g (sfd uart1) None w;
          (ret, w) \<leftarrow> QuerTicketInfo os g (sfd uart1) w;
          Some (0, w)
        })"

section \<open>What the commands send\<close>

text \<open>A frame is in order when the exclusive or of all its octets is zero.\<close>

definition yct_ok :: "byte list \<Rightarrow> bool" where
  "yct_ok f \<longleftrightarrow> fold (XOR) f 0 = 0"

lemma fold_xor: "fold (XOR) xs a = fold (XOR) xs 0 XOR (a :: byte)"
proof (induction xs arbitrary: a)
  case (Cons x xs)
  show ?case using Cons.IH [of "x XOR a"] Cons.IH [of x] by (simp add: xor.assoc)
qed simp

text \<open>With the checksum behind the octets it covers, the frame that is sent is in order exactly when the variable held zero.\<close>

lemma yct_exchange_sends:
  assumes "length head = n"
  shows "yct_exchange os g fd (head @ [x]) n n cap w =
    (let f = head @ [fold (XOR) head g] in case s_send os fd f w of (ret, w) \<Rightarrow>
       case s_recv os fd cap w of (ret, bs, w) \<Rightarrow> Some (ret, read_into (replicate cap 0) bs, w))"
    "yct_ok (head @ [fold (XOR) head g]) \<longleftrightarrow> g = 0"
proof -
  show "yct_exchange os g fd (head @ [x]) n n cap w =
    (let f = head @ [fold (XOR) head g] in case s_send os fd f w of (ret, w) \<Rightarrow>
       case s_recv os fd cap w of (ret, bs, w) \<Rightarrow> Some (ret, read_into (replicate cap 0) bs, w))"
    using assms by (simp add: yct_exchange_def CheckSum_def buf_wr_def list_update_append Let_def)
  have "fold (XOR) head g XOR fold (XOR) head 0 = g" using fold_xor [of head g] by (simp add: xor.assoc xor.left_commute)
  then show "yct_ok (head @ [fold (XOR) head g]) \<longleftrightarrow> g = 0" by (simp add: yct_ok_def)
qed

text \<open>The program reads behind an array before it has sent anything, as do two of the commands.\<close>

lemma yct_main_faults: "yct_main os g w = None"
  by (auto simp: yct_main_def Module_Init_def yct_exchange_def CheckSum_def memcpy_def Let_def split: prod.splits)

lemma yct_commands_fault: "SetRentInfo os g fd bID pData w = None" "Set_parameter os g fd arg w = None"
  by (simp_all add: SetRentInfo_def Set_parameter_def yct_exchange_def CheckSum_def memcpy_def)

definition consume_octets :: "u32 \<Rightarrow> u32 \<Rightarrow> byte list \<Rightarrow> byte list \<Rightarrow> byte \<Rightarrow> byte list" where
  "consume_octets amount fee time number kind = [0xBA, 0x19, 0xD4] @ store_u32 amount @ store_u32 fee @ time @ number @ [kind]"

lemma memcpy_fill: "length p = d \<Longrightarrow> length old = n \<Longrightarrow> length src = n \<Longrightarrow> memcpy (p @ old @ r) d src 0 n = Some (p @ src @ r)"
  by (simp add: memcpy_def)

text \<open>
  A payment is sent as one frame of 27 octets that holds the amount, the fee, the time, the card's number and the type in their places. The reader takes it (the exclusive or of all octets is zero) exactly when the
  variable that the checksum starts from, which nothing initialises, held zero. The program itself gets nowhere: the checksum of its first command is taken over more octets than the array has, as it is in two other commands.
\<close>

theorem yct_consume_frame:
  assumes "length pTime = 6" "length bPHysicalID = 8" "f = consume_octets lAmount lFee pTime bPHysicalID bType"
  shows "Consume os g fd lAmount lFee pTime bPHysicalID bType w =
      (case s_send os fd (f @ [fold (XOR) f g]) w of (ret, w) \<Rightarrow> case s_recv os fd 128 w of (ret, bs, w) \<Rightarrow> Some (0, w)) \<and>
    length f = 26 \<and> (yct_ok (f @ [fold (XOR) f g]) \<longleftrightarrow> g = 0) \<and>
    yct_main os g w = None \<and> SetRentInfo os g fd bID pData w = None \<and> Set_parameter os g fd arg w = None"
proof -
  have len: "length f = 26" using assms by (simp add: consume_octets_def store_u32_def)
  define z where "z n = replicate n (0 :: byte)" for n
  have lz: "length (z n) = n" for n by (simp add: z_def)
  have split: "replicate 27 0 = z 3 @ z 4 @ z 4 @ z 6 @ z 8 @ z 1 @ [0]" by (simp add: z_def numeral_eq_Suc)
  have ls: "length (store_u32 x) = 4" for x by (simp add: store_u32_def)
  define h where "h = [0xBA, 0x19, 0xD4 :: byte]"
  have "Consume os g fd lAmount lFee pTime bPHysicalID bType w =
      do { (ret, rbuf, w) \<leftarrow> yct_exchange os g fd (f @ [0]) 26 26 128 w; Some (0, w) }"
  proof -
    have "memcpy (replicate 27 0) 0 h 0 3 = Some (h @ z 4 @ z 4 @ z 6 @ z 8 @ z 1 @ [0])"
      using memcpy_fill [of "[]" 0 "z 3" 3 h] lz by (simp add: split h_def)
    moreover have "memcpy (h @ z 4 @ z 4 @ z 6 @ z 8 @ z 1 @ [0]) 3 (store_u32 lAmount) 0 4 = Some (h @ store_u32 lAmount @ z 4 @ z 6 @ z 8 @ z 1 @ [0])"
      by (rule memcpy_fill) (simp_all add: h_def lz ls)
    moreover have "memcpy (h @ store_u32 lAmount @ z 4 @ z 6 @ z 8 @ z 1 @ [0]) 7 (store_u32 lFee) 0 4 =
        Some (h @ store_u32 lAmount @ store_u32 lFee @ z 6 @ z 8 @ z 1 @ [0])"
      using memcpy_fill [of "h @ store_u32 lAmount" 7 "z 4" 4 "store_u32 lFee"] by (simp add: h_def lz ls)
    moreover have "memcpy (h @ store_u32 lAmount @ store_u32 lFee @ z 6 @ z 8 @ z 1 @ [0]) 11 pTime 0 6 =
        Some (h @ store_u32 lAmount @ store_u32 lFee @ pTime @ z 8 @ z 1 @ [0])"
      using memcpy_fill [of "h @ store_u32 lAmount @ store_u32 lFee" 11 "z 6" 6 pTime] assms(1) by (simp add: h_def lz ls)
    moreover have "memcpy (h @ store_u32 lAmount @ store_u32 lFee @ pTime @ z 8 @ z 1 @ [0]) 17 bPHysicalID 0 8 =
        Some (h @ store_u32 lAmount @ store_u32 lFee @ pTime @ bPHysicalID @ z 1 @ [0])"
      using memcpy_fill [of "h @ store_u32 lAmount @ store_u32 lFee @ pTime" 17 "z 8" 8 bPHysicalID] assms(1,2) by (simp add: h_def lz ls)
    moreover have "memcpy (h @ store_u32 lAmount @ store_u32 lFee @ pTime @ bPHysicalID @ z 1 @ [0]) 25 [bType] 0 1 = Some (f @ [0])"
      using memcpy_fill [of "h @ store_u32 lAmount @ store_u32 lFee @ pTime @ bPHysicalID" 25 "z 1" 1 "[bType]" "[0]"] assms
      by (simp add: h_def lz ls consume_octets_def)
    ultimately show ?thesis by (simp add: Consume_def h_def)
  qed
  then have "Consume os g fd lAmount lFee pTime bPHysicalID bType w =
      (case s_send os fd (f @ [fold (XOR) f g]) w of (ret, w) \<Rightarrow> case s_recv os fd 128 w of (ret, bs, w) \<Rightarrow> Some (0, w))"
    unfolding yct_exchange_sends(1) [OF len] by (simp add: Let_def split: prod.splits)
  then show ?thesis
    by (intro conjI) (assumption, rule len, rule yct_exchange_sends(2) [OF len], rule yct_main_faults, (rule yct_commands_fault)+)
qed

definition demo_reader :: "byte list list yct_os" where
  "demo_reader = \<lparr>s_init = (\<lambda>s w. (0, s, w)), s_send = (\<lambda>fd bs w. (int (length bs), w @ [bs])), s_read = (\<lambda>fd n ms w. (0, [], w)),
     s_close = (\<lambda>s w. w), s_recv = (\<lambda>fd n w. (0, [], w))\<rparr>"

theorem yct_consume_frame_witness:
  "Consume demo_reader 0 3 100 0 [1, 2, 3, 4, 5, 6] [1, 2, 3, 4, 5, 6, 7, 8] 9 [] =
     Some (0, [[0xBA, 0x19, 0xD4, 100, 0, 0, 0, 0, 0, 0, 0, 1, 2, 3, 4, 5, 6, 1, 2, 3, 4, 5, 6, 7, 8, 9, 0x15]])"
proof -
  define f where "f = consume_octets 100 0 [1, 2, 3, 4, 5, 6] [1, 2, 3, 4, 5, 6, 7, 8] 9"
  have "f @ [fold (XOR) f 0] = [0xBA, 0x19, 0xD4, 100, 0, 0, 0, 0, 0, 0, 0, 1, 2, 3, 4, 5, 6, 1, 2, 3, 4, 5, 6, 7, 8, 9, 0x15]"
    unfolding f_def by code_simp
  moreover have "Consume demo_reader 0 3 100 0 [1, 2, 3, 4, 5, 6] [1, 2, 3, 4, 5, 6, 7, 8] 9 [] =
      (case s_send demo_reader 3 (f @ [fold (XOR) f 0]) [] of (ret, w) \<Rightarrow> case s_recv demo_reader 3 128 w of (ret, bs, w) \<Rightarrow> Some (0, w))"
    using yct_consume_frame [of "[1, 2, 3, 4, 5, 6]" "[1, 2, 3, 4, 5, 6, 7, 8]" f 100 0 9 demo_reader 0 3 "[]"] by (simp add: f_def)
  ultimately show ?thesis by (simp add: demo_reader_def)
qed

end
