(* ===== verification/DList.thy ===== *)
theory DList
  imports Prelude
begin

text \<open>
  Doubly linked lists on a heap. Several parts of the program chain their structures through a \<open>prev\<close> and a \<open>next\<close> pointer: the timers, the
  headers of the leak tracker, the items of a JSON value. A heap maps addresses to structures; a null pointer is \<open>None\<close>, and so is the
  result of following a pointer to an address that is not allocated.
\<close>

section \<open>Heap access\<close>

type_synonym ptr = "nat option"
type_synonym 'n heap = "nat \<rightharpoonup> 'n"

definition deref :: "'n heap \<Rightarrow> ptr \<Rightarrow> 'n option" where
  "deref h p = Option.bind p h"

definition assign :: "ptr \<Rightarrow> ('n \<Rightarrow> 'n) \<Rightarrow> 'n heap \<Rightarrow> 'n heap option" where
  "assign p f h = do { a \<leftarrow> p; n \<leftarrow> h a; Some (h(a \<mapsto> f n)) }"

text \<open>The effect of an assignment through a pointer that may be null.\<close>

definition touch :: "ptr \<Rightarrow> ('n \<Rightarrow> 'n) \<Rightarrow> 'n heap \<Rightarrow> 'n heap" where
  "touch p f h = (case p of None \<Rightarrow> h | Some a \<Rightarrow> h(a := map_option f (h a)))"

lemma deref_Some [simp]: "deref h (Some a) = h a"
  by (simp add: deref_def)

lemma deref_None [simp]: "deref h None = None"
  by (simp add: deref_def)

lemma assign_touch: "h a \<noteq> None \<Longrightarrow> assign (Some a) f h = Some (touch (Some a) f h)"
  by (auto simp: assign_def touch_def)

lemma dom_touch [simp]: "dom (touch p f h) = dom h"
  by (auto simp: touch_def dom_def split: option.splits if_splits)

lemma touch_other: "p \<noteq> Some a \<Longrightarrow> touch p f h a = h a"
  by (auto simp: touch_def split: option.splits)

lemma touch_same [simp]: "touch (Some a) f h a = map_option f (h a)"
  by (simp add: touch_def)

lemma touch_None [simp]: "touch None f h = h"
  by (simp add: touch_def)

section \<open>Segments\<close>

text \<open>
  The nodes \<open>as\<close> form a chain that starts at \<open>p\<close>, points back to \<open>pr\<close>, ends at node \<open>q\<close> and goes on at \<open>r\<close>.
\<close>

fun dseg :: "('n \<Rightarrow> ptr) \<Rightarrow> ('n \<Rightarrow> ptr) \<Rightarrow> 'n heap \<Rightarrow> ptr \<Rightarrow> ptr \<Rightarrow> nat list \<Rightarrow> ptr \<Rightarrow> ptr \<Rightarrow> bool" where
  "dseg prv nxt h pr p [] q r \<longleftrightarrow> q = pr \<and> p = r"
| "dseg prv nxt h pr p (a # as) q r \<longleftrightarrow> p = Some a \<and>
     (case h a of None \<Rightarrow> False | Some n \<Rightarrow> prv n = pr \<and> dseg prv nxt h (Some a) (nxt n) as q r)"

definition dlist :: "('n \<Rightarrow> ptr) \<Rightarrow> ('n \<Rightarrow> ptr) \<Rightarrow> 'n heap \<Rightarrow> ptr \<Rightarrow> nat list \<Rightarrow> ptr \<Rightarrow> bool" where
  "dlist prv nxt h p as q \<longleftrightarrow> dseg prv nxt h None p as q None"

lemma dseg_append: "dseg prv nxt h pr p (as @ bs) q r \<longleftrightarrow> (\<exists>m x. dseg prv nxt h pr p as m x \<and> dseg prv nxt h m x bs q r)"
  by (induction as arbitrary: pr p) (auto split: option.splits)

lemma dseg_last: "dseg prv nxt h pr p as q r \<Longrightarrow> q = (if as = [] then pr else Some (last as))"
  by (induction as arbitrary: pr p) (auto split: option.splits)

lemma dseg_first: "dseg prv nxt h pr p as q r \<Longrightarrow> p = (if as = [] then r else Some (hd as))"
  by (cases as) auto

lemma dseg_alloc: "dseg prv nxt h pr p as q r \<Longrightarrow> a \<in> set as \<Longrightarrow> h a \<noteq> None"
  by (induction as arbitrary: pr p) (auto split: option.splits)

lemma dseg_Some: "dseg prv nxt h pr (Some a) as q None \<Longrightarrow> \<exists>n bs. as = a # bs \<and> h a = Some n \<and> prv n = pr \<and> dseg prv nxt h (Some a) (nxt n) bs q None"
  by (cases as) (auto split: option.splits)

lemma last_apart: "set as \<inter> set bs = {} \<Longrightarrow> as \<noteq> [] \<Longrightarrow> last as \<notin> set bs"
  by (metis disjoint_iff last_in_set)

text \<open>Only the links of the nodes matter.\<close>

definition links :: "('n \<Rightarrow> ptr) \<Rightarrow> ('n \<Rightarrow> ptr) \<Rightarrow> 'n heap \<Rightarrow> nat \<Rightarrow> (ptr \<times> ptr) option" where
  "links prv nxt h a = map_option (\<lambda>n. (prv n, nxt n)) (h a)"

lemma dseg_frame: "(\<And>a. a \<in> set as \<Longrightarrow> links prv nxt h' a = links prv nxt h a) \<Longrightarrow> dseg prv nxt h' pr p as q r = dseg prv nxt h pr p as q r"
proof (induction as arbitrary: pr p)
  case (Cons a as)
  then have "links prv nxt h' a = links prv nxt h a" by simp
  moreover have "dseg prv nxt h' (Some a) x as q r = dseg prv nxt h (Some a) x as q r" for x using Cons by simp
  ultimately show ?case by (cases "h a"; cases "h' a") (auto simp: links_def)
qed simp

section \<open>Nodes\<close>

text \<open>A node type with the two links and a way to set each of them.\<close>

locale dnode =
  fixes prv nxt :: "'n \<Rightarrow> ptr"
    and set_prv set_nxt :: "ptr \<Rightarrow> 'n \<Rightarrow> 'n"
  assumes prv_set_prv [simp]: "prv (set_prv p n) = p"
    and nxt_set_prv [simp]: "nxt (set_prv p n) = nxt n"
    and nxt_set_nxt [simp]: "nxt (set_nxt p n) = p"
    and prv_set_nxt [simp]: "prv (set_nxt p n) = prv n"
begin

text \<open>Make \<open>y\<close> the successor of \<open>q\<close> and \<open>q\<close> the predecessor of \<open>y\<close>.\<close>

definition connect :: "ptr \<Rightarrow> ptr \<Rightarrow> 'n heap \<Rightarrow> 'n heap" where
  "connect q y h = touch y (set_prv q) (touch q (set_nxt y) h)"

lemma links_connect: "q \<noteq> Some a \<Longrightarrow> y \<noteq> Some a \<Longrightarrow> connect q y h a = h a"
  by (simp add: connect_def touch_other)

lemma links_connect_nxt: "q \<noteq> Some a \<Longrightarrow> map_option nxt (connect q y h a) = map_option nxt (h a)"
  by (auto simp: connect_def touch_def option.map_comp comp_def split: option.splits)

lemma links_connect_prv: "y \<noteq> Some a \<Longrightarrow> map_option prv (connect q y h a) = map_option prv (h a)"
  by (auto simp: connect_def touch_def option.map_comp comp_def split: option.splits)

lemma dom_connect [simp]: "dom (connect q y h) = dom h"
  by (simp add: connect_def)

lemma dseg_connect_other:
  assumes "dseg prv nxt h pr p as m x" "q \<notin> Some ` set as" "y \<notin> Some ` set as"
  shows "dseg prv nxt (connect q y h) pr p as m x"
proof -
  have "links prv nxt (connect q y h) a = links prv nxt h a" if "a \<in> set as" for a
    using assms(2,3) that by (simp add: links_def links_connect image_iff)
  then show ?thesis using assms(1) dseg_frame [of as prv nxt "connect q y h" h] by blast
qed

text \<open>Connecting the end of one segment with the start of another makes one segment.\<close>

lemma dseg_connect_left:
  assumes "dseg prv nxt h pr p as q x" "distinct as" "y \<notin> Some ` set as" "as \<noteq> []"
  shows "dseg prv nxt (connect q y h) pr p as q y"
proof -
  obtain bs b where as: "as = bs @ [b]" using assms(4) by (metis append_butlast_last_id)
  then have q: "q = Some b" using dseg_last [OF assms(1)] by simp
  obtain m n where b: "dseg prv nxt h pr p bs m (Some b)" "h b = Some n" "prv n = m"
    using assms(1) by (auto simp: as dseg_append split: option.splits)
  have "dseg prv nxt (connect q y h) pr p bs m (Some b)" using b(1) assms(2,3) as q by (intro dseg_connect_other) auto
  moreover have "connect q y h b = Some (set_nxt y n)" using b(2) assms(3) as by (simp add: connect_def q touch_other)
  ultimately show ?thesis using b(3) by (auto simp: as dseg_append q)
qed

lemma dseg_connect_right:
  assumes "dseg prv nxt h m y bs z r" "distinct bs" "q \<notin> Some ` set bs" "bs \<noteq> []"
  shows "dseg prv nxt (connect q y h) q y bs z r"
proof -
  obtain b cs where bs: "bs = b # cs" using assms(4) by (cases bs) auto
  obtain n where b: "y = Some b" "h b = Some n" "dseg prv nxt h (Some b) (nxt n) cs z r"
    using assms(1) by (auto simp: bs split: option.splits)
  have "dseg prv nxt (connect q y h) (Some b) (nxt n) cs z r" using b assms(2,3) bs by (intro dseg_connect_other) auto
  moreover have "connect q y h b = Some (set_prv q n)" using b(1,2) assms(3) bs by (simp add: connect_def touch_other)
  ultimately show ?thesis by (simp add: bs b(1))
qed

theorem dseg_join:
  assumes "dseg prv nxt h pr p as q x" "dseg prv nxt h m y bs z r" "distinct (as @ bs)" "as \<noteq> [] \<or> pr = None" "bs \<noteq> [] \<or> r = None"
  shows "dseg prv nxt (connect q y h) pr (if as = [] then y else p) (as @ bs) (if bs = [] then q else z) r"
proof -
  have q: "q = (if as = [] then pr else Some (last as))" using dseg_last [OF assms(1)] .
  have y: "y = (if bs = [] then r else Some (hd bs))" using dseg_first [OF assms(2)] .
  have qb: "q \<notin> Some ` set bs" using q assms(3,4) last_apart [of as bs] by auto
  have ya: "y \<notin> Some ` set as" using y assms(3,5) list.set_sel(1) [of bs] by auto
  have "bs \<noteq> [] \<Longrightarrow> dseg prv nxt (connect q y h) q y bs z r" using assms(2,3) qb by (intro dseg_connect_right) auto
  moreover have "as \<noteq> [] \<Longrightarrow> dseg prv nxt (connect q y h) pr p as q y" using assms(1,3) ya by (intro dseg_connect_left) auto
  ultimately show ?thesis using q y by (cases "as = []"; cases "bs = []") (auto simp: dseg_append)
qed

text \<open>Taking a node out, putting one in, and the end of a list.\<close>

lemma dlist_unlink:
  assumes "dlist prv nxt h p (as @ a # bs) z" "distinct (as @ a # bs)" "h a = Some n"
  shows "dlist prv nxt (connect (prv n) (nxt n) h) (if as = [] then nxt n else p) (as @ bs) (if bs = [] then prv n else z)"
    "prv n = (if as = [] then None else Some (last as))" "nxt n = (if bs = [] then None else Some (hd bs))"
proof -
  obtain m where s: "dseg prv nxt h None p as m (Some a)" "prv n = m" "dseg prv nxt h (Some a) (nxt n) bs z None"
    using assms(1,3) by (auto simp: dlist_def dseg_append)
  show "prv n = (if as = [] then None else Some (last as))" using dseg_last [OF s(1)] s(2) by simp
  show "nxt n = (if bs = [] then None else Some (hd bs))" using dseg_first [OF s(3)] .
  show "dlist prv nxt (connect (prv n) (nxt n) h) (if as = [] then nxt n else p) (as @ bs) (if bs = [] then prv n else z)"
    using dseg_join [OF s(1,3)] assms(2) s(2) unfolding dlist_def by (simp only: distinct_append) auto
qed

lemma dlist_insert:
  assumes "dseg prv nxt h None p as q x" "dseg prv nxt h m y bs z None" "h t \<noteq> None" "distinct (as @ t # bs)"
  shows "dlist prv nxt (connect (Some t) y (connect q (Some t) h)) (if as = [] then Some t else p) (as @ t # bs) (if bs = [] then Some t else z)"
proof -
  obtain n where n: "h t = Some n" using assms(3) by auto
  have t: "dseg prv nxt h (prv n) (Some t) [t] (Some t) (nxt n)" using n by simp
  have q: "q = (if as = [] then None else Some (last as))" using dseg_last [OF assms(1)] .
  have 1: "dseg prv nxt (connect q (Some t) h) None (if as = [] then Some t else p) (as @ [t]) (Some t) (nxt n)"
    using dseg_join [OF assms(1) t] assms(4) by simp
  have 2: "dseg prv nxt (connect q (Some t) h) m y bs z None" using assms(2,4) q last_apart [of as bs] by (intro dseg_connect_other) auto
  show ?thesis using dseg_join [OF 1 2] assms(4) by (simp add: dlist_def)
qed

end

end
