(* ===== verification/Timers.thy ===== *)
theory Timers
  imports DList "HOL-Library.Signed_Division"
begin

text \<open>
  The timer package of the load generator (\<open>c_advanced/04_http_load/timers.c\<close>): timers live on the heap, the active ones in 67 doubly linked
  lists chosen by a hash of the trigger time and each sorted by it, the idle ones on a free list. Times are pairs of seconds and microseconds, divisions
  truncate as in C. Every pointer access is an access to the heap and fails, as \<open>None\<close>, when the pointer is null or its target is not allocated.
\<close>

section \<open>State\<close>

record timer =
  timer_proc :: nat
  client_data :: u32
  msecs :: int
  periodic :: bool
  tv_sec :: int
  tv_usec :: int
  t_prev :: ptr
  t_next :: ptr
  t_hash :: nat

type_synonym timeval = "int \<times> int"

record tmrs =
  tm_heap :: "timer heap"
  timers :: "ptr list"
  free_timers :: ptr

definition HASH_SIZE :: nat where "HASH_SIZE = 67"
definition INFTIM :: int where "INFTIM = -1"

text \<open>The hash of the trigger time, on the unsigned values of seconds and microseconds.\<close>

definition tmr_hash :: "timer \<Rightarrow> nat" where
  "tmr_hash t = unat ((word_of_int (tv_sec t) :: u32) XOR word_of_int (tv_usec t)) mod HASH_SIZE"

text \<open>The order of the lists: a new timer goes in front of the first one that does not trigger before it.\<close>

definition not_after :: "timer \<Rightarrow> timer \<Rightarrow> bool" where
  "not_after t t2 \<longleftrightarrow> tv_sec t < tv_sec t2 \<or> (tv_sec t = tv_sec t2 \<and> tv_usec t \<le> tv_usec t2)"

section \<open>The lists\<close>

partial_function (option) l_walk :: "timer heap \<Rightarrow> timer \<Rightarrow> nat \<Rightarrow> ptr \<Rightarrow> (nat \<times> ptr) option" where
  "l_walk h n t2prev t2 =
     (if t2 = None then Some (t2prev, None)
      else do {
        n2 \<leftarrow> deref h t2;
        if not_after n n2 then Some (t2prev, t2) else l_walk h n (the t2) (t_next n2)
      })"

definition l_add :: "nat \<Rightarrow> tmrs \<Rightarrow> tmrs option" where
  "l_add t s = do {
     n \<leftarrow> tm_heap s t;
     t2 \<leftarrow> buf_rd (timers s) (t_hash n);
     case t2 of
       None \<Rightarrow> do {
         ts \<leftarrow> buf_wr (timers s) (t_hash n) (Some t);
         h \<leftarrow> assign (Some t) (\<lambda>n. n\<lparr>t_next := None\<rparr>) (tm_heap s);
         h \<leftarrow> assign (Some t) (\<lambda>n. n\<lparr>t_prev := None\<rparr>) h;
         Some (s\<lparr>timers := ts, tm_heap := h\<rparr>)
       }
     | Some a \<Rightarrow> do {
         n2 \<leftarrow> tm_heap s a;
         if not_after n n2 then do {
           ts \<leftarrow> buf_wr (timers s) (t_hash n) (Some t);
           h \<leftarrow> assign (Some t) (\<lambda>n. n\<lparr>t_prev := None\<rparr>) (tm_heap s);
           h \<leftarrow> assign (Some t) (\<lambda>n. n\<lparr>t_next := Some a\<rparr>) h;
           h \<leftarrow> assign (Some a) (\<lambda>n. n\<lparr>t_prev := Some t\<rparr>) h;
           Some (s\<lparr>timers := ts, tm_heap := h\<rparr>)
         } else do {
           (t2prev, t2) \<leftarrow> l_walk (tm_heap s) n a (t_next n2);
           h \<leftarrow> assign (Some t2prev) (\<lambda>n. n\<lparr>t_next := Some t\<rparr>) (tm_heap s);
           h \<leftarrow> assign (Some t) (\<lambda>n. n\<lparr>t_prev := Some t2prev\<rparr>) h;
           h \<leftarrow> assign (Some t) (\<lambda>n. n\<lparr>t_next := t2\<rparr>) h;
           h \<leftarrow> (case t2 of None \<Rightarrow> Some h | Some b \<Rightarrow> assign (Some b) (\<lambda>n. n\<lparr>t_prev := Some t\<rparr>) h);
           Some (s\<lparr>tm_heap := h\<rparr>)
         }
       }
   }"

definition l_remove :: "nat \<Rightarrow> tmrs \<Rightarrow> tmrs option" where
  "l_remove t s = do {
     n \<leftarrow> tm_heap s t;
     s \<leftarrow> (case t_prev n of
         None \<Rightarrow> do { ts \<leftarrow> buf_wr (timers s) (t_hash n) (t_next n); Some (s\<lparr>timers := ts\<rparr>) }
       | Some p \<Rightarrow> do { h \<leftarrow> assign (Some p) (\<lambda>m. m\<lparr>t_next := t_next n\<rparr>) (tm_heap s); Some (s\<lparr>tm_heap := h\<rparr>) });
     n \<leftarrow> tm_heap s t;
     case t_next n of
       None \<Rightarrow> Some s
     | Some q \<Rightarrow> do { h \<leftarrow> assign (Some q) (\<lambda>m. m\<lparr>t_prev := t_prev n\<rparr>) (tm_heap s); Some (s\<lparr>tm_heap := h\<rparr>) }
   }"

definition l_resort :: "nat \<Rightarrow> tmrs \<Rightarrow> tmrs option" where
  "l_resort t s = do {
     s \<leftarrow> l_remove t s;
     h \<leftarrow> assign (Some t) (\<lambda>n. n\<lparr>t_hash := tmr_hash n\<rparr>) (tm_heap s);
     l_add t (s\<lparr>tm_heap := h\<rparr>)
   }"

section \<open>Creating, resetting and cancelling\<close>

definition tmr_init :: "tmrs \<Rightarrow> tmrs" where
  "tmr_init s = s\<lparr>timers := replicate HASH_SIZE None\<rparr>"

text \<open>The trigger time moves on by the period of the timer: the same five lines in three of the functions.\<close>

definition add_msecs :: "timer \<Rightarrow> timer" where
  "add_msecs n =
     (let sec = tv_sec n + msecs n sdiv 1000; usec = tv_usec n + (msecs n smod 1000) * 1000 in
      if usec \<ge> 1000000 then n\<lparr>tv_sec := sec + usec sdiv 1000000, tv_usec := usec smod 1000000\<rparr>
      else n\<lparr>tv_sec := sec, tv_usec := usec\<rparr>)"

text \<open>
  The caller gives the current time or none, in which case \<open>clock\<close> is what \<open>gettimeofday\<close> returns; \<open>block\<close> is what \<open>malloc\<close> returns, an address and
  the contents found there.
\<close>

definition tmr_create ::
  "(nat \<times> timer) option \<Rightarrow> timeval \<Rightarrow> timeval option \<Rightarrow> nat \<Rightarrow> u32 \<Rightarrow> int \<Rightarrow> bool \<Rightarrow> tmrs \<Rightarrow> (tmrs \<times> ptr) option" where
  "tmr_create block clock nowP proc data ms per s = do {
     (t, s) \<leftarrow> (case free_timers s of
         Some t \<Rightarrow> do { n \<leftarrow> tm_heap s t; Some (Some t, s\<lparr>free_timers := t_next n\<rparr>) }
       | None \<Rightarrow> (case block of
           None \<Rightarrow> Some (None, s)
         | Some (t, junk) \<Rightarrow> Some (Some t, s\<lparr>tm_heap := (tm_heap s)(t \<mapsto> junk)\<rparr>)));
     case t of
       None \<Rightarrow> Some (s, None)
     | Some t \<Rightarrow> do {
         h \<leftarrow> assign (Some t) (\<lambda>n. n\<lparr>timer_proc := proc, client_data := data, msecs := ms, periodic := per\<rparr>) (tm_heap s);
         h \<leftarrow> assign (Some t) (\<lambda>n. case (case nowP of Some now \<Rightarrow> now | None \<Rightarrow> clock) of (sec, usec) \<Rightarrow> n\<lparr>tv_sec := sec, tv_usec := usec\<rparr>) h;
         h \<leftarrow> assign (Some t) add_msecs h;
         h \<leftarrow> assign (Some t) (\<lambda>n. n\<lparr>t_hash := tmr_hash n\<rparr>) h;
         s \<leftarrow> l_add t (s\<lparr>tm_heap := h\<rparr>);
         Some (s, Some t)
       }
   }"

definition tmr_reset :: "timeval \<Rightarrow> nat \<Rightarrow> tmrs \<Rightarrow> tmrs option" where
  "tmr_reset now t s = do {
     h \<leftarrow> assign (Some t) (\<lambda>n. n\<lparr>tv_sec := fst now, tv_usec := snd now\<rparr>) (tm_heap s);
     h \<leftarrow> assign (Some t) add_msecs h;
     l_resort t (s\<lparr>tm_heap := h\<rparr>)
   }"

definition tmr_cancel :: "nat \<Rightarrow> tmrs \<Rightarrow> tmrs option" where
  "tmr_cancel t s = do {
     s \<leftarrow> l_remove t s;
     h \<leftarrow> assign (Some t) (\<lambda>n. n\<lparr>t_next := free_timers s\<rparr>) (tm_heap s);
     h \<leftarrow> assign (Some t) (\<lambda>n. n\<lparr>t_prev := None\<rparr>) h;
     Some (s\<lparr>free_timers := Some t, tm_heap := h\<rparr>)
   }"

section \<open>Waiting\<close>

definition ms_until :: "timeval \<Rightarrow> timer \<Rightarrow> int" where
  "ms_until now t = (tv_sec t - fst now) * 1000 + (tv_usec t - snd now) sdiv 1000"

text \<open>The loop over the heads of the lists, with the smallest delay found so far.\<close>

fun first_delay :: "timer heap \<Rightarrow> timeval \<Rightarrow> ptr list \<Rightarrow> int option \<Rightarrow> int option option" where
  "first_delay h now [] best = Some best"
| "first_delay h now (p # ps) best = (case p of
     None \<Rightarrow> first_delay h now ps best
   | Some a \<Rightarrow> do {
       t \<leftarrow> h a;
       let m = ms_until now t in
       first_delay h now ps (case best of None \<Rightarrow> Some m | Some b \<Rightarrow> Some (if m < b then m else b))
     })"

definition tmr_mstimeout :: "timeval \<Rightarrow> tmrs \<Rightarrow> int option" where
  "tmr_mstimeout now s = do {
     best \<leftarrow> first_delay (tm_heap s) now (timers s) None;
     Some (case best of None \<Rightarrow> INFTIM | Some m \<Rightarrow> if m \<le> 0 then 0 else m)
   }"

text \<open>The inner option is the null pointer that tells \<open>select\<close> to wait for ever.\<close>

definition tmr_timeout :: "timeval \<Rightarrow> tmrs \<Rightarrow> timeval option option" where
  "tmr_timeout now s = do {
     m \<leftarrow> tmr_mstimeout now s;
     Some (if m = INFTIM then None else Some (m sdiv 1000, (m smod 1000) * 1000))
   }"

section \<open>Running\<close>

text \<open>The function of a timer works on the package's state and on a state of its own.\<close>

type_synonym 'w tmr_callback = "nat \<Rightarrow> u32 \<Rightarrow> timeval \<Rightarrow> tmrs \<times> 'w \<Rightarrow> (tmrs \<times> 'w) option"

definition not_ready :: "timeval \<Rightarrow> timer \<Rightarrow> bool" where
  "not_ready now t \<longleftrightarrow> tv_sec t > fst now \<or> (tv_sec t = fst now \<and> tv_usec t > snd now)"

definition run_timer :: "'w tmr_callback \<Rightarrow> timeval \<Rightarrow> nat \<Rightarrow> tmrs \<times> 'w \<Rightarrow> (tmrs \<times> 'w) option" where
  "run_timer call now t sw = do {
     n \<leftarrow> tm_heap (fst sw) t;
     (s, w) \<leftarrow> call (timer_proc n) (client_data n) now sw;
     n \<leftarrow> tm_heap s t;
     s \<leftarrow> (if periodic n then do { h \<leftarrow> assign (Some t) add_msecs (tm_heap s); l_resort t (s\<lparr>tm_heap := h\<rparr>) }
          else tmr_cancel t s);
     Some (s, w)
   }"

partial_function (option) run_list :: "'w tmr_callback \<Rightarrow> timeval \<Rightarrow> ptr \<Rightarrow> tmrs \<times> 'w \<Rightarrow> (tmrs \<times> 'w) option" where
  "run_list call now t sw =
     (if t = None then Some sw
      else do {
        n \<leftarrow> deref (tm_heap (fst sw)) t;
        if not_ready now n then Some sw
        else do { sw \<leftarrow> run_timer call now (the t) sw; run_list call now (t_next n) sw }
      })"

fun run_lists :: "'w tmr_callback \<Rightarrow> timeval \<Rightarrow> nat list \<Rightarrow> tmrs \<times> 'w \<Rightarrow> (tmrs \<times> 'w) option" where
  "run_lists call now [] sw = Some sw"
| "run_lists call now (h # hs) sw = do {
     t \<leftarrow> buf_rd (timers (fst sw)) h;
     sw \<leftarrow> run_list call now t sw;
     run_lists call now hs sw
   }"

definition tmr_run :: "'w tmr_callback \<Rightarrow> timeval \<Rightarrow> tmrs \<times> 'w \<Rightarrow> (tmrs \<times> 'w) option" where
  "tmr_run call now sw = run_lists call now [0..<HASH_SIZE] sw"

section \<open>Releasing\<close>

partial_function (option) tmr_cleanup :: "tmrs \<Rightarrow> tmrs option" where
  "tmr_cleanup s =
     (if free_timers s = None then Some s
      else do {
        n \<leftarrow> deref (tm_heap s) (free_timers s);
        tmr_cleanup (s\<lparr>free_timers := t_next n, tm_heap := (tm_heap s)(the (free_timers s) := None)\<rparr>)
      })"

partial_function (option) cancel_list :: "nat \<Rightarrow> tmrs \<Rightarrow> tmrs option" where
  "cancel_list h s = do {
     p \<leftarrow> buf_rd (timers s) h;
     if p = None then Some s else do { s \<leftarrow> tmr_cancel (the p) s; cancel_list h s }
   }"

fun cancel_lists :: "nat list \<Rightarrow> tmrs \<Rightarrow> tmrs option" where
  "cancel_lists [] s = Some s"
| "cancel_lists (h # hs) s = do { s \<leftarrow> cancel_list h s; cancel_lists hs s }"

definition tmr_destroy :: "tmrs \<Rightarrow> tmrs option" where
  "tmr_destroy s = do { s \<leftarrow> cancel_lists [0..<HASH_SIZE] s; tmr_cleanup s }"

declare l_walk.simps [code] run_list.simps [code] tmr_cleanup.simps [code] cancel_list.simps [code]

end
