(* ===== verification/TimersProps.thy ===== *)
theory TimersProps
  imports Timers "HOL-Library.Multiset"
begin

text \<open>
  Correctness of the timer package. A state of the heap represents 67 lists of timers and a list of idle ones; every operation keeps that, and acts on the
  lists as on plain lists sorted by trigger time.
\<close>

interpretation tl: dnode t_prev t_next "\<lambda>p n. n\<lparr>t_prev := p\<rparr>" "\<lambda>p n. n\<lparr>t_next := p\<rparr>"
  by unfold_locales simp_all

section \<open>What a state represents\<close>

definition chain :: "timer heap \<Rightarrow> ptr \<Rightarrow> nat list \<Rightarrow> bool" where
  "chain h p as \<longleftrightarrow> dlist t_prev t_next h p as (if as = [] then None else Some (last as))"

fun slist :: "timer heap \<Rightarrow> ptr \<Rightarrow> nat list \<Rightarrow> bool" where
  "slist h p [] \<longleftrightarrow> p = None"
| "slist h p (a # as) \<longleftrightarrow> p = Some a \<and> (case h a of None \<Rightarrow> False | Some n \<Rightarrow> slist h (t_next n) as)"

definition tmr_rep :: "tmrs \<Rightarrow> (nat \<Rightarrow> nat list) \<Rightarrow> nat list \<Rightarrow> bool" where
  "tmr_rep s L F \<longleftrightarrow> length (timers s) = HASH_SIZE \<and>
     (\<forall>i<HASH_SIZE. chain (tm_heap s) (timers s ! i) (L i) \<and> distinct (L i) \<and> set (L i) \<inter> set F = {} \<and>
        (\<forall>j<HASH_SIZE. i \<noteq> j \<longrightarrow> set (L i) \<inter> set (L j) = {})) \<and>
     slist (tm_heap s) (free_timers s) F \<and> distinct F"

text \<open>Everything of a timer but its links.\<close>

definition bare :: "timer \<Rightarrow> timer" where
  "bare n = n\<lparr>t_prev := None, t_next := None\<rparr>"

definition same_data :: "timer heap \<Rightarrow> timer heap \<Rightarrow> bool" where
  "same_data h h' \<longleftrightarrow> (\<forall>a. map_option bare (h' a) = map_option bare (h a))"

lemma bare_links [simp]: "bare (n\<lparr>t_prev := p\<rparr>) = bare n" "bare (n\<lparr>t_next := p\<rparr>) = bare n"
  by (simp_all add: bare_def)

lemma bare_fields:
  assumes "bare n = bare m"
  shows "timer_proc n = timer_proc m" "client_data n = client_data m" "msecs n = msecs m" "periodic n = periodic m" "tv_sec n = tv_sec m"
    "tv_usec n = tv_usec m" "t_hash n = t_hash m"
  using assms by (cases n; cases m; simp add: bare_def)+

lemma same_data_refl [simp]: "same_data h h"
  by (simp add: same_data_def)

lemma same_data_trans: "same_data h h' \<Longrightarrow> same_data h' h'' \<Longrightarrow> same_data h h''"
  by (simp add: same_data_def)

lemma same_data_connect: "same_data h (tl.connect q y h)"
  by (auto simp: same_data_def tl.connect_def touch_def option.map_comp comp_def split: option.splits)

lemma same_data_node: "same_data h h' \<Longrightarrow> h a = Some n \<Longrightarrow> \<exists>n'. h' a = Some n' \<and> bare n' = bare n"
  unfolding same_data_def by (metis option.map_disc_iff option.map_sel option.exhaust_sel option.sel option.discI)

lemma same_data_the: "same_data h h' \<Longrightarrow> h a \<noteq> None \<Longrightarrow> bare (the (h' a)) = bare (the (h a))"
  using same_data_node by fastforce

text \<open>Lists are not disturbed by changes elsewhere on the heap.\<close>

lemma chain_frame: "(\<And>a. a \<in> set as \<Longrightarrow> h' a = h a) \<Longrightarrow> chain h' p as = chain h p as"
  unfolding chain_def dlist_def by (rule dseg_frame) (simp add: links_def)

lemma slist_frame: "(\<And>a. a \<in> set as \<Longrightarrow> h' a = h a) \<Longrightarrow> slist h' p as = slist h p as"
  by (induction as arbitrary: p) (auto split: option.splits)

lemma chain_alloc: "chain h p as \<Longrightarrow> a \<in> set as \<Longrightarrow> h a \<noteq> None"
  unfolding chain_def dlist_def by (rule dseg_alloc)

lemma chain_first: "chain h p as \<Longrightarrow> p = (if as = [] then None else Some (hd as))"
  unfolding chain_def dlist_def by (drule dseg_first) simp

section \<open>The lists\<close>

text \<open>The place where a new timer goes.\<close>

definition before :: "timer heap \<Rightarrow> timer \<Rightarrow> nat list \<Rightarrow> nat list" where
  "before h n as = takeWhile (\<lambda>a. \<not> not_after n (the (h a))) as"

definition behind :: "timer heap \<Rightarrow> timer \<Rightarrow> nat list \<Rightarrow> nat list" where
  "behind h n as = dropWhile (\<lambda>a. \<not> not_after n (the (h a))) as"

definition ins :: "timer heap \<Rightarrow> nat \<Rightarrow> nat list \<Rightarrow> nat list" where
  "ins h t as = before h (the (h t)) as @ t # behind h (the (h t)) as"

lemma before_behind: "before h n as @ behind h n as = as"
  by (simp add: before_def behind_def)

lemma set_ins [simp]: "set (ins h t as) = insert t (set as)"
  unfolding ins_def set_append list.set using before_behind [of h "the (h t)" as] by (metis Un_insert_right set_append)

lemma distinct_ins [simp]: "distinct (ins h t as) \<longleftrightarrow> t \<notin> set as \<and> distinct as"
proof -
  have "mset (ins h t as) = mset (t # as)" using before_behind [of h "the (h t)" as]
    by (metis ins_def mset_append mset.simps(2) union_mset_add_mset_right)
  then show ?thesis by (metis distinct.simps(2) mset_eq_imp_distinct_iff)
qed

definition head_of :: "nat list \<Rightarrow> ptr" where "head_of as = (if as = [] then None else Some (hd as))"
definition end_of :: "nat list \<Rightarrow> ptr" where "end_of as = (if as = [] then None else Some (last as))"

lemma l_walk_place:
  assumes "dseg t_prev t_next h (Some pv) p as z None"
  shows "l_walk h n pv p = Some (if before h n as = [] then pv else last (before h n as), head_of (behind h n as))"
  using assms
proof (induction as arbitrary: pv p)
  case Nil
  then show ?case by (subst l_walk.simps) (simp add: before_def behind_def head_of_def)
next
  case (Cons a as)
  then obtain m where m: "p = Some a" "h a = Some m" "dseg t_prev t_next h (Some a) (t_next m) as z None" by (auto split: option.splits)
  have ih: "l_walk h n a (t_next m) = Some (if before h n as = [] then a else last (before h n as), head_of (behind h n as))" using Cons.IH [OF m(3)] .
  show ?case
  proof (cases "not_after n m")
    case True
    then show ?thesis using m by (subst l_walk.simps) (simp add: before_def behind_def head_of_def)
  next
    case False
    then have "before h n (a # as) = a # before h n as" "behind h n (a # as) = behind h n as" using m by (simp_all add: before_def behind_def)
    then show ?thesis using m ih False by (subst l_walk.simps) simp
  qed
qed

lemma touch_touch [simp]: "touch p f (touch p g h) = touch p (\<lambda>n. f (g n)) h"
  by (auto simp: touch_def option.map_comp comp_def split: option.splits)

lemma touch_alloc [simp]: "touch p f h a = None \<longleftrightarrow> h a = None"
  by (auto simp: touch_def split: option.splits)

lemma links_swap: "n\<lparr>t_next := a, t_prev := b\<rparr> = n\<lparr>t_prev := b, t_next := a\<rparr>" for n :: timer
  by (cases n) simp

lemma l_add_eq:
  assumes c: "chain (tm_heap s) (timers s ! i) as" and n: "tm_heap s t = Some n" "t_hash n = i" and i: "i < length (timers s)"
    and d: "t \<notin> set as" "distinct as"
  shows "l_add t s = Some (s\<lparr>timers := (timers s)[i := if before (tm_heap s) n as = [] then Some t else timers s ! i],
    tm_heap := tl.connect (Some t) (head_of (behind (tm_heap s) n as)) (tl.connect (end_of (before (tm_heap s) n as)) (Some t) (tm_heap s))\<rparr>)"
proof (cases as)
  case Nil
  then have "timers s ! i = None" using chain_first [OF c] by simp
  then show ?thesis using n i Nil
    by (simp add: l_add_def buf_simps assign_touch before_def behind_def head_of_def end_of_def tl.connect_def links_swap)
next
  case (Cons a bs)
  let ?h = "tm_heap s"
  obtain m where m: "timers s ! i = Some a" "?h a = Some m" "dseg t_prev t_next ?h (Some a) (t_next m) bs (Some (last as)) None"
    using c unfolding chain_def dlist_def Cons by (auto split: option.splits)
  have ta: "t \<noteq> a" using d Cons by auto
  show ?thesis
  proof (cases "not_after n m")
    case True
    then have "before ?h n as = []" "behind ?h n as = as" using m Cons by (simp_all add: before_def behind_def)
    then show ?thesis using n i m True Cons
      by (simp add: l_add_def buf_simps assign_touch head_of_def end_of_def tl.connect_def)
  next
    case False
    then have b: "before ?h n as = a # before ?h n bs" "behind ?h n as = behind ?h n bs" using m Cons by (simp_all add: before_def behind_def)
    have w: "l_walk ?h n a (t_next m) = Some (last (before ?h n as), head_of (behind ?h n as))"
      using l_walk_place [OF m(3), of n] b by simp
    have e: "end_of (before ?h n as) = Some (last (before ?h n as))" by (simp add: end_of_def b)
    have "last (before ?h n as) \<in> set as" using b last_in_set [of "before ?h n as"] set_takeWhileD unfolding before_def by fastforce
    then have l: "?h (last (before ?h n as)) \<noteq> None" using chain_alloc [OF c] by blast
    have y: "\<And>y. head_of (behind ?h n as) = Some y \<Longrightarrow> ?h y \<noteq> None"
      using chain_alloc [OF c] set_dropWhileD unfolding head_of_def behind_def by (metis (no_types, lifting) hd_in_set option.discI option.sel)
    have ne: "before ?h n as \<noteq> []" using b by simp
    have s: "s\<lparr>timers := (timers s)[i := timers s ! i], tm_heap := x\<rparr> = s\<lparr>tm_heap := x\<rparr>" for x by (cases s) simp
    show ?thesis using n i m(1,2) False w l y ne
      by (simp add: l_add_def buf_simps assign_touch e tl.connect_def s [unfolded m(1)] split: option.split)
  qed
qed

lemma l_add_keeps:
  assumes c: "chain (tm_heap s) (timers s ! i) as" and n: "tm_heap s t = Some n" "t_hash n = i" and i: "i < length (timers s)"
    and d: "t \<notin> set as" "distinct as"
  obtains s' where "l_add t s = Some s'" "chain (tm_heap s') (timers s' ! i) (ins (tm_heap s) t as)" "length (timers s') = length (timers s)"
    "\<And>j. j \<noteq> i \<Longrightarrow> timers s' ! j = timers s ! j" "same_data (tm_heap s) (tm_heap s')" "free_timers s' = free_timers s"
    "\<And>a. a \<notin> insert t (set as) \<Longrightarrow> tm_heap s' a = tm_heap s a"
proof -
  let ?h = "tm_heap s"
  let ?B = "before ?h n as" and ?C = "behind ?h n as"
  let ?h' = "tl.connect (Some t) (head_of ?C) (tl.connect (end_of ?B) (Some t) ?h)"
  let ?s = "s\<lparr>timers := (timers s)[i := if ?B = [] then Some t else timers s ! i], tm_heap := ?h'\<rparr>"
  have as: "?B @ ?C = as" by (rule before_behind)
  obtain m x where seg: "dseg t_prev t_next ?h None (timers s ! i) ?B m x" "dseg t_prev t_next ?h m x ?C (if as = [] then None else Some (last as)) None"
    using c as unfolding chain_def dlist_def by (metis dseg_append)
  have mx: "m = end_of ?B" "x = head_of ?C" using dseg_last [OF seg(1)] dseg_first [OF seg(2)] by (simp_all add: end_of_def head_of_def)
  have dt: "distinct (?B @ t # ?C)" using d as by (metis distinct_ins ins_def n(1) option.sel)
  have "dlist t_prev t_next ?h' (if ?B = [] then Some t else timers s ! i) (?B @ t # ?C) (if ?C = [] then Some t else (if as = [] then None else Some (last as)))"
    using tl.dlist_insert [OF seg _ dt] n(1) unfolding mx by blast
  moreover have "?C \<noteq> [] \<Longrightarrow> as \<noteq> [] \<and> last as = last ?C" using as by (metis append_is_Nil_conv last_appendR)
  ultimately have ch: "chain (tm_heap ?s) (timers ?s ! i) (ins ?h t as)"
    using i n(1) by (auto simp: chain_def ins_def split: if_splits)
  have same: "?h' a = ?h a" if "a \<notin> insert t (set as)" for a
  proof -
    have "set ?B \<subseteq> set as" "set ?C \<subseteq> set as" using as by (metis set_append Un_upper1, metis set_append Un_upper2)
    then have "end_of ?B \<noteq> Some a" "head_of ?C \<noteq> Some a" using that
      by (auto simp: end_of_def head_of_def dest: last_in_set hd_in_set)
    then show ?thesis using that by (simp add: tl.links_connect)
  qed
  show ?thesis
    using that [of ?s] l_add_eq [OF assms] ch same same_data_trans [OF same_data_connect same_data_connect] by simp
qed

lemma l_remove_keeps:
  assumes c: "chain (tm_heap s) (timers s ! i) (as @ t # bs)" and n: "tm_heap s t = Some n" "t_hash n = i" and i: "i < length (timers s)"
    and d: "distinct (as @ t # bs)"
  obtains s' where "l_remove t s = Some s'" "chain (tm_heap s') (timers s' ! i) (as @ bs)" "length (timers s') = length (timers s)"
    "\<And>j. j \<noteq> i \<Longrightarrow> timers s' ! j = timers s ! j" "same_data (tm_heap s) (tm_heap s')" "free_timers s' = free_timers s"
    "\<And>a. a \<notin> set (as @ bs) \<Longrightarrow> tm_heap s' a = tm_heap s a"
proof -
  let ?h = "tm_heap s"
  note u = tl.dlist_unlink [OF c [unfolded chain_def] d n(1)]
  let ?h' = "tl.connect (t_prev n) (t_next n) ?h"
  let ?s = "s\<lparr>timers := (timers s)[i := if as = [] then t_next n else timers s ! i], tm_heap := ?h'\<rparr>"
  have al: "?h a \<noteq> None" if "a \<in> set (as @ t # bs)" for a using chain_alloc [OF c that] .
  have eq: "l_remove t s = Some ?s"
  proof (cases "as = []")
    case True
    then show ?thesis using u(2,3) n i al d
      by (cases "bs = []") (auto simp: l_remove_def buf_simps assign_touch tl.connect_def)
  next
    case False
    then have l: "last as \<in> set as" "last as \<noteq> t" using d by auto
    have b: "bs \<noteq> [] \<Longrightarrow> hd bs \<in> set bs" by simp
    show ?thesis using False u(2,3) n i al l b
      by (cases "bs = []") (simp_all add: l_remove_def buf_simps assign_touch tl.connect_def touch_other)
  qed
  have same: "?h' a = ?h a" if "a \<notin> set (as @ bs)" for a
    using that u(2,3) last_in_set [of as] hd_in_set [of bs] by (intro tl.links_connect) auto
  have "chain ?h' (if as = [] then t_next n else timers s ! i) (as @ bs)"
    using u(1,2) unfolding chain_def by (auto split: if_splits)
  then show ?thesis using that [of ?s] eq same same_data_connect i by simp
qed

section \<open>The invariant\<close>

definition active :: "(nat \<Rightarrow> nat list) \<Rightarrow> nat set" where
  "active L = (\<Union>i<HASH_SIZE. set (L i))"

abbreviation nd :: "tmrs \<Rightarrow> nat \<Rightarrow> timer" where
  "nd s a \<equiv> the (tm_heap s a)"

definition timer_ok :: "timer \<Rightarrow> bool" where
  "timer_ok n \<longleftrightarrow> t_hash n = tmr_hash n \<and> 0 \<le> tv_usec n \<and> tv_usec n < 1000000"

definition tmr_ok :: "tmrs \<Rightarrow> (nat \<Rightarrow> nat list) \<Rightarrow> bool" where
  "tmr_ok s L \<longleftrightarrow> (\<forall>i<HASH_SIZE. sorted_wrt (\<lambda>a b. not_after (nd s a) (nd s b)) (L i) \<and> (\<forall>a\<in>set (L i). timer_ok (nd s a) \<and> t_hash (nd s a) = i))"

definition tmr_inv :: "tmrs \<Rightarrow> (nat \<Rightarrow> nat list) \<Rightarrow> nat list \<Rightarrow> bool" where
  "tmr_inv s L F \<longleftrightarrow> tmr_rep s L F \<and> tmr_ok s L"

lemma tmr_hash_less: "tmr_hash n < HASH_SIZE"
  by (simp add: tmr_hash_def HASH_SIZE_def)

lemma bare_not_after: "bare n = bare n' \<Longrightarrow> bare m = bare m' \<Longrightarrow> not_after n m = not_after n' m'"
  by (simp add: not_after_def bare_fields [of n n'] bare_fields [of m m'])

lemma bare_timer_ok: "bare n = bare n' \<Longrightarrow> timer_ok n = timer_ok n'"
  by (simp add: timer_ok_def tmr_hash_def bare_fields [of n n'])

lemma not_after_trans: "not_after a b \<Longrightarrow> not_after b c \<Longrightarrow> not_after a c"
  by (auto simp: not_after_def)

lemma not_after_total: "\<not> not_after a b \<Longrightarrow> not_after b a"
  by (auto simp: not_after_def)

lemma tmr_ok_cong:
  assumes "\<And>a. a \<in> active L \<Longrightarrow> bare (nd s' a) = bare (nd s a)"
  shows "tmr_ok s' L = tmr_ok s L"
proof -
  have b: "bare (nd s' a) = bare (nd s a)" if "i < HASH_SIZE" "a \<in> set (L i)" for a i using assms that by (auto simp: active_def)
  have "sorted_wrt (\<lambda>a b. not_after (nd s' a) (nd s' b)) (L i) = sorted_wrt (\<lambda>a b. not_after (nd s a) (nd s b)) (L i)" if "i < HASH_SIZE" for i
    using bare_not_after [OF b b] that by (auto intro!: iffI elim!: sorted_wrt_mono_rel [rotated])
  then show ?thesis using bare_timer_ok [OF b] bare_fields(7) [OF b] by (simp add: tmr_ok_def)
qed

lemma ins_sorted:
  assumes "sorted_wrt (\<lambda>a b. not_after (the (h a)) (the (h b))) as"
  shows "sorted_wrt (\<lambda>a b. not_after (the (h a)) (the (h b))) (ins h t as)"
proof -
  let ?R = "\<lambda>a b. not_after (the (h a)) (the (h b))" and ?n = "the (h t)"
  have "sorted_wrt ?R (before h ?n as @ behind h ?n as)" using assms by (simp only: before_behind)
  then have s: "sorted_wrt ?R (before h ?n as)" "sorted_wrt ?R (behind h ?n as)" "\<forall>a\<in>set (before h ?n as). \<forall>b\<in>set (behind h ?n as). ?R a b"
    by (simp_all add: sorted_wrt_append)
  have b: "?R a t" if "a \<in> set (before h ?n as)" for a using that set_takeWhileD not_after_total unfolding before_def by fastforce
  have "?R t b" if "b \<in> set (behind h ?n as)" for b
  proof -
    have hd: "?R t (hd (behind h ?n as))" using that unfolding behind_def by (metis (no_types, lifting) dropWhile_eq_Nil_conv empty_iff empty_set hd_dropWhile)
    have "b = hd (behind h ?n as) \<or> ?R (hd (behind h ?n as)) b" using s(2) that by (cases "behind h ?n as") auto
    then show ?thesis using hd not_after_trans by blast
  qed
  then show ?thesis using s b by (auto simp: ins_def sorted_wrt_append)
qed

text \<open>Changing data without links.\<close>

lemma rep_touch:
  assumes "\<And>n. t_prev (f n) = t_prev n" "\<And>n. t_next (f n) = t_next n"
  shows "tmr_rep (s\<lparr>tm_heap := touch p f (tm_heap s)\<rparr>) L F = tmr_rep s L F"
proof -
  have l: "links t_prev t_next (touch p f h) a = links t_prev t_next h a" for h a
    using assms by (auto simp: links_def touch_def option.map_comp comp_def split: option.splits)
  have "slist (touch p f h) q as = slist h q as" for h q as
    by (induction as arbitrary: q) (use assms in \<open>auto simp: touch_def split: option.splits\<close>)
  moreover have "chain (touch p f h) q as = chain h q as" for h q as using dseg_frame [OF l] by (simp add: chain_def dlist_def)
  ultimately show ?thesis by (simp add: tmr_rep_def)
qed

lemma rep_alloc: "tmr_rep s L F \<Longrightarrow> a \<in> active L \<Longrightarrow> tm_heap s a \<noteq> None"
  unfolding tmr_rep_def active_def using chain_alloc by blast

lemma slist_alloc: "slist h p as \<Longrightarrow> a \<in> set as \<Longrightarrow> h a \<noteq> None"
  by (induction as arbitrary: p) (auto split: option.splits)

lemma active_upd: "i < HASH_SIZE \<Longrightarrow> active (L(i := as)) = set as \<union> (\<Union>j\<in>{..<HASH_SIZE} - {i}. set (L j))"
  by (auto simp: active_def split: if_splits)

lemma rep_only: "tmr_rep s L F \<Longrightarrow> i < HASH_SIZE \<Longrightarrow> a \<in> set (L i) \<Longrightarrow> j < HASH_SIZE \<Longrightarrow> a \<in> set (L j) \<Longrightarrow> j = i"
  unfolding tmr_rep_def by blast

text \<open>Adding and removing keep the invariant.\<close>

lemma rep_bucket: "tmr_rep s L F \<Longrightarrow> i < HASH_SIZE \<Longrightarrow> chain (tm_heap s) (timers s ! i) (L i) \<and> distinct (L i) \<and> i < length (timers s)"
  by (simp add: tmr_rep_def)

lemma active_ins: "i < HASH_SIZE \<Longrightarrow> active (L(i := ins h t (L i))) = insert t (active L)"
  by (auto simp: active_def split: if_splits)

lemma active_removeAll: "tmr_rep s L F \<Longrightarrow> i < HASH_SIZE \<Longrightarrow> t \<in> set (L i) \<Longrightarrow> active (L(i := removeAll t (L i))) = active L - {t}"
  by (auto simp: active_def split: if_splits dest: rep_only)

lemma rep_updI:
  assumes rep: "tmr_rep s L F" and i: "i < HASH_SIZE" and t: "length (timers s') = length (timers s)" "chain (tm_heap s') (timers s' ! i) as"
    and other: "\<And>j. j < HASH_SIZE \<Longrightarrow> j \<noteq> i \<Longrightarrow> chain (tm_heap s') (timers s' ! j) (L j)"
    and free: "free_timers s' = free_timers s" "\<And>a. a \<in> set F \<Longrightarrow> tm_heap s' a = tm_heap s a"
    and d: "distinct as" "\<And>j a. j < HASH_SIZE \<Longrightarrow> j \<noteq> i \<Longrightarrow> a \<in> set as \<Longrightarrow> a \<notin> set (L j)" "\<And>a. a \<in> set as \<Longrightarrow> a \<notin> set F"
  shows "tmr_rep s' (L(i := as)) F"
proof -
  have "length (timers s') = HASH_SIZE" "distinct F" using rep t(1) by (simp_all add: tmr_rep_def)
  moreover have "slist (tm_heap s') (free_timers s') F" using rep free(1) slist_frame [OF free(2)] by (simp add: tmr_rep_def)
  moreover have "chain (tm_heap s') (timers s' ! k) ((L(i := as)) k) \<and> distinct ((L(i := as)) k) \<and> set ((L(i := as)) k) \<inter> set F = {}" if k: "k < HASH_SIZE" for k
  proof (cases "k = i")
    case True
    then show ?thesis using t(2) d(1,3) by auto
  next
    case False
    then show ?thesis using other [OF k] rep k by (simp add: tmr_rep_def)
  qed
  moreover have "set ((L(i := as)) k) \<inter> set ((L(i := as)) j) = {}" if "k < HASH_SIZE" "j < HASH_SIZE" "k \<noteq> j" for k j
    using that d(2) rep unfolding tmr_rep_def by (cases "k = i"; cases "j = i") (simp_all, blast+)
  ultimately show ?thesis unfolding tmr_rep_def by blast
qed

lemma l_add_inv:
  assumes inv: "tmr_inv s L F" and n: "tm_heap s t = Some n" "timer_ok n" and t: "t \<notin> active L" "t \<notin> set F"
  obtains s' where "l_add t s = Some s'" "tmr_inv s' (L(t_hash n := ins (tm_heap s) t (L (t_hash n)))) F" "same_data (tm_heap s) (tm_heap s')"
    "\<And>a. a \<notin> insert t (active L) \<Longrightarrow> tm_heap s' a = tm_heap s a"
proof -
  let ?i = "t_hash n" and ?L = "L(t_hash n := ins (tm_heap s) t (L (t_hash n)))"
  have rep: "tmr_rep s L F" and ok: "tmr_ok s L" using inv by (simp_all add: tmr_inv_def)
  have i: "?i < HASH_SIZE" using n(2) tmr_hash_less by (simp add: timer_ok_def)
  have ti: "t \<notin> set (L j)" if "j < HASH_SIZE" for j using t that by (auto simp: active_def)
  note b = rep_bucket [OF rep i]
  obtain s' where s': "l_add t s = Some s'" "chain (tm_heap s') (timers s' ! ?i) (ins (tm_heap s) t (L ?i))" "length (timers s') = length (timers s)"
    "\<And>j. j \<noteq> ?i \<Longrightarrow> timers s' ! j = timers s ! j" "same_data (tm_heap s) (tm_heap s')" "free_timers s' = free_timers s"
    "\<And>a. a \<notin> insert t (set (L ?i)) \<Longrightarrow> tm_heap s' a = tm_heap s a"
    using l_add_keeps [of s ?i "L ?i" t n] b n(1) ti [OF i] by metis
  have other: "chain (tm_heap s') (timers s' ! j) (L j)" if "j < HASH_SIZE" "j \<noteq> ?i" for j
  proof -
    have "tm_heap s' a = tm_heap s a" if "a \<in> set (L j)" for a
      using that s'(7) [of a] rep_only [OF rep i] ti \<open>j < HASH_SIZE\<close> \<open>j \<noteq> ?i\<close> by blast
    then show ?thesis using chain_frame [of "L j" "tm_heap s'" "tm_heap s"] rep_bucket [OF rep that(1)] s'(4) [OF that(2)] by simp
  qed
  have free: "tm_heap s' a = tm_heap s a" if "a \<in> set F" for a
    using that s'(7) [of a] rep i t(2) by (auto simp: tmr_rep_def)
  have rep': "tmr_rep s' ?L F"
  proof (rule rep_updI [OF rep i s'(3,2) other s'(6) free])
    show "distinct (ins (tm_heap s) t (L ?i))" using b ti [OF i] by simp
    show "a \<notin> set (L j)" if "j < HASH_SIZE" "j \<noteq> ?i" "a \<in> set (ins (tm_heap s) t (L ?i))" for j a
      using that rep_only [OF rep i] ti by auto
    show "a \<notin> set F" if "a \<in> set (ins (tm_heap s) t (L ?i))" for a using that rep i t(2) by (auto simp: tmr_rep_def)
  qed
  have al: "tm_heap s a \<noteq> None" if "a \<in> active ?L" for a using that rep_alloc [OF rep] n(1) i by (auto simp: active_ins)
  have "tmr_ok s ?L" using ok i n ins_sorted [of "tm_heap s" "L ?i" t] unfolding tmr_ok_def by auto
  then have "tmr_ok s' ?L" using tmr_ok_cong [of ?L s' s] same_data_the [OF s'(5) al] by simp
  moreover have "tm_heap s' a = tm_heap s a" if "a \<notin> insert t (active L)" for a using that s'(7) i by (auto simp: active_def)
  ultimately show ?thesis using that s'(1,5) rep' by (simp add: tmr_inv_def)
qed

lemma removeAll_split: "distinct as \<Longrightarrow> t \<in> set as \<Longrightarrow> \<exists>bs cs. as = bs @ t # cs \<and> removeAll t as = bs @ cs"
  using split_list [of t as] by fastforce

lemma l_remove_inv:
  assumes rep: "tmr_rep s L F" and i: "i < HASH_SIZE" and t: "t \<in> set (L i)" and h: "t_hash (nd s t) = i" and ok: "tmr_ok s (L(i := removeAll t (L i)))"
  obtains s' where "l_remove t s = Some s'" "tmr_inv s' (L(i := removeAll t (L i))) F" "same_data (tm_heap s) (tm_heap s')" "tm_heap s' t = tm_heap s t"
    "\<And>a. a \<notin> active L \<Longrightarrow> tm_heap s' a = tm_heap s a"
proof -
  let ?L = "L(i := removeAll t (L i))"
  note b = rep_bucket [OF rep i]
  obtain bs cs where bc: "L i = bs @ t # cs" "removeAll t (L i) = bs @ cs" using removeAll_split [of "L i" t] b t by metis
  have "t \<in> active L" using t i by (auto simp: active_def)
  then obtain n where n: "tm_heap s t = Some n" using rep_alloc [OF rep] by blast
  have pre: "chain (tm_heap s) (timers s ! i) (bs @ t # cs)" "t_hash n = i" "i < length (timers s)" "distinct (bs @ t # cs)"
    using b h n unfolding bc(1) by simp_all
  obtain s' where s': "l_remove t s = Some s'" "chain (tm_heap s') (timers s' ! i) (bs @ cs)" "length (timers s') = length (timers s)"
    "\<And>j. j \<noteq> i \<Longrightarrow> timers s' ! j = timers s ! j" "same_data (tm_heap s) (tm_heap s')" "free_timers s' = free_timers s"
    "\<And>a. a \<notin> set (bs @ cs) \<Longrightarrow> tm_heap s' a = tm_heap s a"
    by (rule l_remove_keeps [OF pre(1) n pre(2,3,4)]) blast
  have sub: "set (bs @ cs) \<subseteq> set (L i)" using bc(1) by auto
  have other: "chain (tm_heap s') (timers s' ! j) (L j)" if "j < HASH_SIZE" "j \<noteq> i" for j
  proof -
    have "tm_heap s' a = tm_heap s a" if "a \<in> set (L j)" for a
      using that s'(7) [of a] rep_only [OF rep i] sub \<open>j < HASH_SIZE\<close> \<open>j \<noteq> i\<close> by blast
    then show ?thesis using chain_frame [of "L j" "tm_heap s'" "tm_heap s"] rep_bucket [OF rep that(1)] s'(4) [OF that(2)] by simp
  qed
  have free: "tm_heap s' a = tm_heap s a" if "a \<in> set F" for a
    using that s'(7) [of a] rep i sub by (auto simp: tmr_rep_def)
  have rep': "tmr_rep s' ?L F"
  proof (rule rep_updI [OF rep i s'(3) _ other s'(6) free])
    show "chain (tm_heap s') (timers s' ! i) (removeAll t (L i))" using s'(2) bc(2) by simp
    show "distinct (removeAll t (L i))" using b by (simp add: distinct_removeAll)
    show "a \<notin> set (L j)" if "j < HASH_SIZE" "j \<noteq> i" "a \<in> set (removeAll t (L i))" for j a
      using that rep_only [OF rep i] by auto
    show "a \<notin> set F" if "a \<in> set (removeAll t (L i))" for a using that rep i by (auto simp: tmr_rep_def)
  qed
  have al: "tm_heap s a \<noteq> None" if "a \<in> active ?L" for a
    using that rep_alloc [OF rep] active_removeAll [OF rep i t] by simp
  have "tmr_ok s' ?L" using ok tmr_ok_cong [of ?L s' s] same_data_the [OF s'(5) al] by simp
  moreover have "tm_heap s' t = tm_heap s t" using s'(7) bc b by simp
  moreover have "tm_heap s' a = tm_heap s a" if "a \<notin> active L" for a using that s'(7) i sub by (auto simp: active_def)
  ultimately show ?thesis using that s'(1,5) rep' by (simp add: tmr_inv_def)
qed

lemma ok_removeAll: "tmr_ok s L \<Longrightarrow> tmr_ok s (L(i := removeAll t (L i)))"
  by (auto simp: tmr_ok_def removeAll_filter_not_eq intro: sorted_wrt_filter)

lemma ins_cong:
  assumes "bare (the (h' t)) = bare (the (h t))" "\<And>a. a \<in> set as \<Longrightarrow> bare (the (h' a)) = bare (the (h a))"
  shows "ins h' t as = ins h t as"
proof -
  have "not_after (the (h' t)) (the (h' a)) = not_after (the (h t)) (the (h a))" if "a \<in> set as" for a
    using bare_not_after [OF assms(1) assms(2) [OF that]] .
  then show ?thesis unfolding ins_def before_def behind_def
    by (metis (mono_tags, lifting) takeWhile_cong dropWhile_cong)
qed

lemma rep_frame:
  assumes "\<And>a. a \<in> active L \<union> set F \<Longrightarrow> h' a = tm_heap s a"
  shows "tmr_rep (s\<lparr>tm_heap := h'\<rparr>) L F = tmr_rep s L F"
proof -
  have "chain h' p (L i) = chain (tm_heap s) p (L i)" if "i < HASH_SIZE" for p i
    using assms that by (intro chain_frame) (auto simp: active_def)
  moreover have "slist h' p F = slist (tm_heap s) p F" for p using assms by (intro slist_frame) simp
  ultimately show ?thesis by (simp add: tmr_rep_def)
qed

lemma ok_frame: "(\<And>a. a \<in> active L \<Longrightarrow> h' a = tm_heap s a) \<Longrightarrow> tmr_ok (s\<lparr>tm_heap := h'\<rparr>) L = tmr_ok s L"
  by (rule tmr_ok_cong) simp

lemma ok_other: "tmr_ok (s\<lparr>free_timers := p\<rparr>) L = tmr_ok s L"
  by (simp add: tmr_ok_def)

section \<open>Trigger times\<close>

definition usecs :: "timer \<Rightarrow> int" where
  "usecs n = tv_sec n * 1000000 + tv_usec n"

definition now_ok :: "timeval \<Rightarrow> bool" where
  "now_ok now \<longleftrightarrow> 0 \<le> snd now \<and> snd now < 1000000"

lemma sdiv_nonneg: "0 \<le> a \<Longrightarrow> 0 < b \<Longrightarrow> a sdiv b = a div b" for a b :: int
  by (auto simp: signed_divide_int_def sgn_if)

lemma smod_nonneg: "0 \<le> a \<Longrightarrow> 0 < b \<Longrightarrow> a smod b = a mod b" for a b :: int
  by (cases "a = 0") (simp_all add: signed_modulo_int_def)

lemma add_msecs_usecs:
  assumes "0 \<le> msecs n" "0 \<le> tv_usec n" "tv_usec n < 1000000"
  shows "usecs (add_msecs n) = usecs n + msecs n * 1000" "0 \<le> tv_usec (add_msecs n)" "tv_usec (add_msecs n) < 1000000"
proof -
  have m: "msecs n mod 1000 * 1000 + msecs n div 1000 * 1000000 = msecs n * 1000" using div_mult_mod_eq [of "msecs n" 1000] by linarith
  show "usecs (add_msecs n) = usecs n + msecs n * 1000" "0 \<le> tv_usec (add_msecs n)" "tv_usec (add_msecs n) < 1000000"
    using assms m div_mult_mod_eq [of "tv_usec n + msecs n mod 1000 * 1000" 1000000]
    by (auto simp: add_msecs_def Let_def sdiv_nonneg smod_nonneg usecs_def)
qed

lemma add_msecs_fields [simp]: "timer_proc (add_msecs n) = timer_proc n" "client_data (add_msecs n) = client_data n" "msecs (add_msecs n) = msecs n"
    "periodic (add_msecs n) = periodic n" "t_prev (add_msecs n) = t_prev n" "t_next (add_msecs n) = t_next n" "t_hash (add_msecs n) = t_hash n"
  by (simp_all add: add_msecs_def Let_def)

lemma not_after_usecs: "timer_ok a \<Longrightarrow> timer_ok b \<Longrightarrow> not_after a b \<longleftrightarrow> usecs a \<le> usecs b"
  by (auto simp: timer_ok_def not_after_def usecs_def)

lemma not_ready_usecs: "timer_ok a \<Longrightarrow> now_ok now \<Longrightarrow> not_ready now a \<longleftrightarrow> fst now * 1000000 + snd now < usecs a"
  by (auto simp: timer_ok_def not_ready_def usecs_def now_ok_def)

section \<open>Operations\<close>

lemma l_resort_inv:
  assumes rep: "tmr_rep s L F" and i: "i < HASH_SIZE" and t: "t \<in> set (L i)" and h: "t_hash (nd s t) = i" and ok: "tmr_ok s (L(i := removeAll t (L i)))"
    and u: "0 \<le> tv_usec (nd s t)" "tv_usec (nd s t) < 1000000"
  defines "L1 \<equiv> L(i := removeAll t (L i))" and "n \<equiv> (nd s t)\<lparr>t_hash := tmr_hash (nd s t)\<rparr>"
  obtains s' where "l_resort t s = Some s'" "tmr_inv s' (L1(t_hash n := ins (tm_heap s') t (L1 (t_hash n)))) F" "bare (nd s' t) = bare n"
    "\<And>a. a \<noteq> t \<Longrightarrow> map_option bare (tm_heap s' a) = map_option bare (tm_heap s a)" "\<And>a. a \<notin> active L \<Longrightarrow> tm_heap s' a = tm_heap s a"
proof -
  have ta: "t \<in> active L" using t i by (auto simp: active_def)
  then obtain m where m: "tm_heap s t = Some m" using rep_alloc [OF rep] by blast
  obtain s1 where s1: "l_remove t s = Some s1" "tmr_inv s1 L1 F" "same_data (tm_heap s) (tm_heap s1)" "tm_heap s1 t = tm_heap s t"
    "\<And>a. a \<notin> active L \<Longrightarrow> tm_heap s1 a = tm_heap s a"
    using l_remove_inv [OF rep i t h ok] unfolding L1_def by blast
  let ?h = "(tm_heap s1)(t \<mapsto> n)" and ?s = "s1\<lparr>tm_heap := (tm_heap s1)(t \<mapsto> n)\<rparr>"
  have as: "assign (Some t) (\<lambda>n. n\<lparr>t_hash := tmr_hash n\<rparr>) (tm_heap s1) = Some ?h" using s1(4) m by (simp add: assign_def n_def)
  have t1: "t \<notin> active L1" using active_removeAll [OF rep i t] by (simp add: L1_def)
  have tF: "t \<notin> set F" using rep t i by (auto simp: tmr_rep_def)
  have inv1: "tmr_inv ?s L1 F" using s1(2) t1 tF rep_frame [of L1 F ?h s1] ok_frame [of L1 ?h s1] unfolding tmr_inv_def by (metis Un_iff fun_upd_other)
  have n: "tm_heap ?s t = Some n" "timer_ok n" using u by (simp_all add: timer_ok_def n_def tmr_hash_def)
  obtain s' where s': "l_add t ?s = Some s'" "tmr_inv s' (L1(t_hash n := ins (tm_heap ?s) t (L1 (t_hash n)))) F" "same_data (tm_heap ?s) (tm_heap s')"
    "\<And>a. a \<notin> insert t (active L1) \<Longrightarrow> tm_heap s' a = tm_heap ?s a"
    using l_add_inv [OF inv1 n t1 tF] by blast
  have j: "t_hash n < HASH_SIZE" by (simp add: n_def tmr_hash_less)
  have al: "tm_heap ?s a \<noteq> None" if "a \<in> insert t (active L1)" for a using that inv1 rep_alloc [of ?s L1 F a] by (auto simp: tmr_inv_def)
  have "ins (tm_heap s') t (L1 (t_hash n)) = ins (tm_heap ?s) t (L1 (t_hash n))"
  proof (rule ins_cong)
    show "bare (nd s' t) = bare (nd ?s t)" using same_data_the [OF s'(3)] al by blast
    show "bare (nd s' a) = bare (nd ?s a)" if "a \<in> set (L1 (t_hash n))" for a
    proof -
      have "a \<in> insert t (active L1)" using that j by (auto simp: active_def)
      then show ?thesis by (rule same_data_the [OF s'(3) al])
    qed
  qed
  moreover have "bare (nd s' t) = bare n" using same_data_the [OF s'(3), of t] by simp
  moreover have "map_option bare (tm_heap s' a) = map_option bare (tm_heap s a)" if "a \<noteq> t" for a
    using s'(3) s1(3) that by (simp add: same_data_def)
  moreover have "tm_heap s' a = tm_heap s a" if "a \<notin> active L" for a
    using that s'(4) [of a] s1(5) ta active_removeAll [OF rep i t] by (auto simp: L1_def)
  ultimately show ?thesis using that [of s'] s1(1) as s'(1,2) by (simp add: l_resort_def)
qed

lemma bucket_of: "tmr_inv s L F \<Longrightarrow> t \<in> active L \<Longrightarrow> t_hash (nd s t) < HASH_SIZE \<and> t \<in> set (L (t_hash (nd s t))) \<and> timer_ok (nd s t)"
  by (auto simp: tmr_inv_def tmr_ok_def active_def)

lemma tmr_cancel_inv:
  assumes inv: "tmr_inv s L F" and t: "t \<in> active L"
  defines "i \<equiv> t_hash (nd s t)"
  obtains s' where "tmr_cancel t s = Some s'" "tmr_inv s' (L(i := removeAll t (L i))) (t # F)" "same_data (tm_heap s) (tm_heap s')"
    "dom (tm_heap s') = dom (tm_heap s)"
proof -
  have rep: "tmr_rep s L F" and ok: "tmr_ok s L" using inv by (simp_all add: tmr_inv_def)
  have i: "i < HASH_SIZE" "t \<in> set (L i)" using bucket_of [OF inv t] by (simp_all add: i_def)
  let ?L = "L(i := removeAll t (L i))"
  obtain s1 where s1: "l_remove t s = Some s1" "tmr_inv s1 ?L F" "same_data (tm_heap s) (tm_heap s1)" "tm_heap s1 t = tm_heap s t"
    using l_remove_inv [OF rep i _ ok_removeAll [OF ok]] unfolding i_def by blast
  obtain n where n: "tm_heap s1 t = Some n" using rep_alloc [OF rep t] s1(4) by auto
  let ?n = "n\<lparr>t_next := free_timers s1, t_prev := None\<rparr>" and ?h = "(tm_heap s1)(t \<mapsto> n\<lparr>t_next := free_timers s1, t_prev := None\<rparr>)"
  let ?s = "s1\<lparr>free_timers := Some t, tm_heap := ?h\<rparr>"
  have eq: "tmr_cancel t s = Some ?s" using s1(1) n by (simp add: tmr_cancel_def assign_def)
  have ta: "t \<notin> active ?L" using active_removeAll [OF rep i] by simp
  have tF: "t \<notin> set F" using rep i by (auto simp: tmr_rep_def)
  have fr: "?h a = tm_heap s1 a" if "a \<in> active ?L \<union> set F" for a using that ta tF by auto
  have r1: "tmr_rep (s1\<lparr>tm_heap := ?h\<rparr>) ?L F" using rep_frame [of ?L F ?h s1] fr s1(2) unfolding tmr_inv_def by blast
  have tL: "t \<notin> set (?L k)" if "k < HASH_SIZE" for k using ta that by (auto simp: active_def)
  have "slist ?h (free_timers s1) F" using r1 by (simp add: tmr_rep_def)
  then have rep': "tmr_rep ?s ?L (t # F)" using r1 tF tL unfolding tmr_rep_def by (simp del: fun_upd_apply) auto
  have "tmr_ok ?s ?L" using ok_frame [of ?L ?h s1] fr s1(2) unfolding tmr_inv_def by (simp add: tmr_ok_def)
  moreover have sd: "same_data (tm_heap s) ?h" using s1(3) n s1(4) [symmetric] by (auto simp: same_data_def split: if_splits)
  moreover have "dom ?h = dom (tm_heap s)"
  proof -
    have "?h a = None \<longleftrightarrow> tm_heap s a = None" for a using sd unfolding same_data_def by (metis option.map_disc_iff)
    then show ?thesis by (auto simp: dom_def)
  qed
  ultimately show ?thesis using that eq rep' by (simp add: tmr_inv_def)
qed

text \<open>A timer with all its fields set.\<close>

definition fresh_timer :: "timeval \<Rightarrow> nat \<Rightarrow> u32 \<Rightarrow> int \<Rightarrow> bool \<Rightarrow> timer \<Rightarrow> timer" where
  "fresh_timer now proc data ms per n =
     (let n = add_msecs (n\<lparr>timer_proc := proc, client_data := data, msecs := ms, periodic := per, tv_sec := fst now, tv_usec := snd now\<rparr>)
      in n\<lparr>t_hash := tmr_hash n\<rparr>)"

lemma fresh_timer_facts:
  assumes "0 \<le> ms" "now_ok now"
  shows "timer_ok (fresh_timer now proc data ms per n)" "usecs (fresh_timer now proc data ms per n) = fst now * 1000000 + snd now + ms * 1000"
    "timer_proc (fresh_timer now proc data ms per n) = proc" "client_data (fresh_timer now proc data ms per n) = data"
    "msecs (fresh_timer now proc data ms per n) = ms" "periodic (fresh_timer now proc data ms per n) = per"
proof -
  let ?m = "n\<lparr>timer_proc := proc, client_data := data, msecs := ms, periodic := per, tv_sec := fst now, tv_usec := snd now\<rparr>"
  have "0 \<le> msecs ?m" "0 \<le> tv_usec ?m" "tv_usec ?m < 1000000" using assms by (simp_all add: now_ok_def)
  note f = add_msecs_usecs [OF this]
  show "usecs (fresh_timer now proc data ms per n) = fst now * 1000000 + snd now + ms * 1000" using f(1) by (simp add: fresh_timer_def Let_def usecs_def)
  show "timer_ok (fresh_timer now proc data ms per n)" using f(2,3) by (simp add: fresh_timer_def Let_def timer_ok_def tmr_hash_def)
qed (simp_all add: fresh_timer_def Let_def)

lemma create_from:
  fixes proc :: nat and data :: u32 and per :: bool
  assumes inv: "tmr_inv s L F" and n: "tm_heap s t = Some n" and t: "t \<notin> active L" "t \<notin> set F" and a: "0 \<le> ms" "now_ok now"
  defines "m \<equiv> fresh_timer now proc data ms per n"
  obtains s' where "l_add t (s\<lparr>tm_heap := (tm_heap s)(t \<mapsto> m)\<rparr>) = Some s'"
    "tmr_inv s' (L(t_hash m := ins (tm_heap s') t (L (t_hash m)))) F" "bare (nd s' t) = bare m"
    "\<And>a. a \<noteq> t \<Longrightarrow> map_option bare (tm_heap s' a) = map_option bare (tm_heap s a)"
proof -
  let ?h = "(tm_heap s)(t \<mapsto> m)" and ?s = "s\<lparr>tm_heap := (tm_heap s)(t \<mapsto> m)\<rparr>"
  have mk: "timer_ok m" using fresh_timer_facts(1) [OF a] by (simp add: m_def)
  have fr: "?h a = tm_heap s a" if "a \<in> active L \<union> set F" for a using that t by auto
  have inv1: "tmr_inv ?s L F" using inv rep_frame [of L F ?h s] ok_frame [of L ?h s] fr unfolding tmr_inv_def by blast
  obtain s' where s': "l_add t ?s = Some s'" "tmr_inv s' (L(t_hash m := ins (tm_heap ?s) t (L (t_hash m)))) F" "same_data (tm_heap ?s) (tm_heap s')"
    using l_add_inv [OF inv1 _ mk t] by auto
  have al: "tm_heap ?s a \<noteq> None" if "a \<in> insert t (active L)" for a using that inv1 rep_alloc [of ?s L F a] by (auto simp: tmr_inv_def)
  have j: "t_hash m < HASH_SIZE" using mk tmr_hash_less by (simp add: timer_ok_def)
  have "ins (tm_heap s') t (L (t_hash m)) = ins (tm_heap ?s) t (L (t_hash m))"
  proof (rule ins_cong)
    show "bare (nd s' t) = bare (nd ?s t)" using same_data_the [OF s'(3)] al by blast
    show "bare (nd s' a) = bare (nd ?s a)" if "a \<in> set (L (t_hash m))" for a
    proof -
      have "a \<in> insert t (active L)" using that j by (auto simp: active_def)
      then show ?thesis by (rule same_data_the [OF s'(3) al])
    qed
  qed
  moreover have "bare (nd s' t) = bare m" using same_data_the [OF s'(3), of t] by simp
  moreover have "map_option bare (tm_heap s' a) = map_option bare (tm_heap s a)" if "a \<noteq> t" for a
    using s'(3) that by (simp add: same_data_def)
  ultimately show ?thesis using that s'(1,2) by simp
qed

lemma tmr_create_inv:
  assumes inv: "tmr_inv s L F" and a: "0 \<le> ms" "now_ok now" and b: "F = [] \<Longrightarrow> block = Some (b, junk) \<and> tm_heap s b = None"
  defines "t \<equiv> (if F = [] then b else hd F)"
  obtains s' j where "tmr_create block clock (Some now) proc data ms per s = Some (s', Some t)" "j < HASH_SIZE"
    "tmr_inv s' (L(j := ins (tm_heap s') t (L j))) (tl F)" "usecs (nd s' t) = fst now * 1000000 + snd now + ms * 1000"
    "timer_proc (nd s' t) = proc" "client_data (nd s' t) = data" "msecs (nd s' t) = ms" "periodic (nd s' t) = per" "t \<notin> active L"
    "\<And>a. a \<noteq> t \<Longrightarrow> map_option bare (tm_heap s' a) = map_option bare (tm_heap s a)"
proof -
  have rep: "tmr_rep s L F" and ok: "tmr_ok s L" using inv by (simp_all add: tmr_inv_def)
  define s0 where "s0 = (case F of [] \<Rightarrow> s\<lparr>tm_heap := (tm_heap s)(b \<mapsto> junk)\<rparr> | f # F' \<Rightarrow> s\<lparr>free_timers := t_next (nd s f)\<rparr>)"
  define n where "n = (case F of [] \<Rightarrow> junk | f # F' \<Rightarrow> nd s f)"
  let ?m = "fresh_timer now proc data ms per n"
  have facts: "tmr_inv s0 L (tl F) \<and> tm_heap s0 t = Some n \<and> t \<notin> active L \<and> t \<notin> set (tl F) \<and> (\<forall>a. a \<noteq> t \<longrightarrow> tm_heap s0 a = tm_heap s a) \<and>
    tmr_create block clock (Some now) proc data ms per s = do { s \<leftarrow> l_add t (s0\<lparr>tm_heap := (tm_heap s0)(t \<mapsto> ?m)\<rparr>); Some (s, Some t) }"
  proof (cases F)
    case Nil
    then have b': "block = Some (b, junk)" "tm_heap s b = None" and f: "free_timers s = None" using b rep by (auto simp: tmr_rep_def)
    have bL: "b \<notin> active L" using rep_alloc [OF rep] b'(2) by blast
    have fr: "((tm_heap s)(b \<mapsto> junk)) a = tm_heap s a" if "a \<in> active L \<union> set []" for a using that bL by auto
    have "tmr_rep (s\<lparr>tm_heap := (tm_heap s)(b \<mapsto> junk)\<rparr>) L [] = tmr_rep s L []" by (rule rep_frame [OF fr])
    moreover have "tmr_ok (s\<lparr>tm_heap := (tm_heap s)(b \<mapsto> junk)\<rparr>) L = tmr_ok s L" by (rule ok_frame [OF fr]) simp
    ultimately have "tmr_inv s0 L []" using inv Nil by (simp add: tmr_inv_def s0_def del: fun_upd_apply)
    then show ?thesis using Nil b' f bL
      by (simp add: s0_def n_def t_def tmr_create_def assign_def fresh_timer_def Let_def split: prod.splits)
  next
    case (Cons f F')
    then obtain m where m: "free_timers s = Some f" "tm_heap s f = Some m" "slist (tm_heap s) (t_next m) F'"
      using rep by (auto simp: tmr_rep_def split: option.splits)
    have fL: "f \<notin> active L" "f \<notin> set F'" using rep Cons by (auto simp: tmr_rep_def active_def)
    have "tmr_inv s0 L F'" using rep ok Cons m by (auto simp: tmr_inv_def s0_def tmr_rep_def tmr_ok_def)
    then show ?thesis using Cons m fL
      by (simp add: s0_def n_def t_def tmr_create_def assign_def fresh_timer_def Let_def split: prod.splits)
  qed
  then obtain s' where s': "l_add t (s0\<lparr>tm_heap := (tm_heap s0)(t \<mapsto> ?m)\<rparr>) = Some s'"
    "tmr_inv s' (L(t_hash ?m := ins (tm_heap s') t (L (t_hash ?m)))) (tl F)" "bare (nd s' t) = bare ?m"
    "\<And>a. a \<noteq> t \<Longrightarrow> map_option bare (tm_heap s' a) = map_option bare (tm_heap s0 a)"
    using create_from [of s0 L "tl F" t n ms now proc data per] a by blast
  note bf = bare_fields [OF s'(3)] and ff = fresh_timer_facts [OF a, of proc data per n]
  have "t_hash ?m < HASH_SIZE" using ff(1) tmr_hash_less by (simp add: timer_ok_def)
  then show ?thesis using that [of s' "t_hash ?m"] facts s' bf ff by (simp add: usecs_def)
qed

text \<open>With no memory left and no idle timer, nothing is created.\<close>

lemma tmr_create_fails: "tmr_inv s L [] \<Longrightarrow> tmr_create None clock nowP proc data ms per s = Some (s, None)"
  by (simp add: tmr_inv_def tmr_rep_def tmr_create_def)

text \<open>Moving an active timer to another time.\<close>

lemma move_inv:
  assumes inv: "tmr_inv s L F" and t: "t \<in> active L" and f: "\<And>n. t_prev (f n) = t_prev n" "\<And>n. t_next (f n) = t_next n" "\<And>n. t_hash (f n) = t_hash n"
    and u: "0 \<le> tv_usec (f (nd s t))" "tv_usec (f (nd s t)) < 1000000"
  defines "i \<equiv> t_hash (nd s t)" and "j \<equiv> tmr_hash (f (nd s t))"
  defines "L1 \<equiv> L(i := removeAll t (L i))"
  obtains s' where "l_resort t (s\<lparr>tm_heap := touch (Some t) f (tm_heap s)\<rparr>) = Some s'" "tmr_inv s' (L1(j := ins (tm_heap s') t (L1 j))) F"
    "bare (nd s' t) = bare ((f (nd s t))\<lparr>t_hash := j\<rparr>)" "\<And>a. a \<noteq> t \<Longrightarrow> map_option bare (tm_heap s' a) = map_option bare (tm_heap s a)"
proof -
  have rep: "tmr_rep s L F" and ok: "tmr_ok s L" using inv by (simp_all add: tmr_inv_def)
  have i: "i < HASH_SIZE" "t \<in> set (L i)" using bucket_of [OF inv t] by (simp_all add: i_def)
  obtain n where n: "tm_heap s t = Some n" using rep_alloc [OF rep t] by auto
  let ?s = "s\<lparr>tm_heap := touch (Some t) f (tm_heap s)\<rparr>"
  have nd: "nd ?s t = f n" using n by simp
  have rep1: "tmr_rep ?s L F" using rep rep_touch [OF f(1,2)] by simp
  have oth: "tm_heap ?s a = tm_heap s a" if "a \<noteq> t" for a using that by (simp add: touch_other)
  have "tmr_ok ?s L1 = tmr_ok s L1"
    using active_removeAll [OF rep i] unfolding L1_def by (intro ok_frame) (auto simp: touch_other)
  then have ok1: "tmr_ok ?s (L(i := removeAll t (L i)))" using ok_removeAll [OF ok] unfolding L1_def by simp
  have h: "t_hash (nd ?s t) = i" using n f(3) by (simp add: i_def)
  obtain s' where s': "l_resort t ?s = Some s'"
    "tmr_inv s' (L1(j := ins (tm_heap s') t (L1 j))) F" "bare (nd s' t) = bare ((f n)\<lparr>t_hash := j\<rparr>)"
    "\<And>a. a \<noteq> t \<Longrightarrow> map_option bare (tm_heap s' a) = map_option bare (tm_heap ?s a)"
    using l_resort_inv [OF rep1 i h ok1] u n unfolding L1_def j_def by (simp add: nd) blast
  then show ?thesis using that [of s'] n oth by simp
qed

lemma tmr_reset_inv:
  assumes inv: "tmr_inv s L F" and t: "t \<in> active L" and now: "now_ok now" and ms: "0 \<le> msecs (nd s t)"
  defines "i \<equiv> t_hash (nd s t)"
  defines "L1 \<equiv> L(i := removeAll t (L i))"
  obtains s' j where "tmr_reset now t s = Some s'" "j < HASH_SIZE" "tmr_inv s' (L1(j := ins (tm_heap s') t (L1 j))) F"
    "usecs (nd s' t) = fst now * 1000000 + snd now + msecs (nd s t) * 1000" "\<And>a. a \<noteq> t \<Longrightarrow> map_option bare (tm_heap s' a) = map_option bare (tm_heap s a)"
proof -
  let ?g = "\<lambda>n. n\<lparr>tv_sec := fst now, tv_usec := snd now\<rparr>"
  let ?f = "\<lambda>n. add_msecs (?g n)"
  obtain n where n: "tm_heap s t = Some n" using rep_alloc [of s L F t] inv t by (auto simp: tmr_inv_def)
  have g: "0 \<le> msecs (?g n)" "0 \<le> tv_usec (?g n)" "tv_usec (?g n) < 1000000" using now ms n by (simp_all add: now_ok_def)
  note us = add_msecs_usecs [OF g]
  let ?j = "tmr_hash (?f (nd s t))"
  obtain s' where s': "l_resort t (s\<lparr>tm_heap := touch (Some t) ?f (tm_heap s)\<rparr>) = Some s'" "tmr_inv s' (L1(?j := ins (tm_heap s') t (L1 ?j))) F"
    "bare (nd s' t) = bare ((?f (nd s t))\<lparr>t_hash := ?j\<rparr>)" "\<And>a. a \<noteq> t \<Longrightarrow> map_option bare (tm_heap s' a) = map_option bare (tm_heap s a)"
    using move_inv [OF inv t, of ?f] us n unfolding i_def L1_def by simp blast
  have "usecs (nd s' t) = fst now * 1000000 + snd now + msecs n * 1000"
    using us(1) n bare_fields(5,6) [OF s'(3)] by (simp add: usecs_def)
  moreover have "tmr_reset now t s = Some s'" using s'(1) n by (simp add: tmr_reset_def assign_touch)
  ultimately show ?thesis using that [of s' ?j] s' n tmr_hash_less by simp
qed

section \<open>The delay until the first timer\<close>

lemma sdiv_1000: "x sdiv 1000 = (if 0 \<le> x then x div 1000 else - ((- x) div 1000))" for x :: int
  by (auto simp: signed_divide_int_def sgn_if)

lemma sdiv_1000_mono: "x \<le> y \<Longrightarrow> x sdiv 1000 \<le> y sdiv 1000" for x y :: int
proof -
  assume le: "x \<le> y"
  have "0 \<le> (- x) div 1000" if "x < 0" using that by (simp add: pos_imp_zdiv_nonneg_iff)
  moreover have "0 \<le> y div 1000" if "0 \<le> y" using that by (simp add: pos_imp_zdiv_nonneg_iff)
  moreover have "x div 1000 \<le> y div 1000" "(- y) div 1000 \<le> (- x) div 1000" using le by (simp_all add: zdiv_mono1)
  ultimately show ?thesis using le unfolding sdiv_1000 by (smt (verit))
qed

lemma sdiv_1000_shift: "- 1000000 < y \<Longrightarrow> (y + 1000000) sdiv 1000 \<le> y sdiv 1000 + 1000" for y :: int
proof -
  assume "- 1000000 < y"
  moreover have "(y + 1000000) div 1000 = y div 1000 + 1000" using div_mult_self1 [of 1000 y 1000] by simp
  moreover have "y div 1000 \<le> - ((- y) div 1000)"
    using div_mult_mod_eq [of y 1000] div_mult_mod_eq [of "- y" 1000] pos_mod_sign [of 1000 y] pos_mod_sign [of 1000 "- y"] by linarith
  ultimately show ?thesis unfolding sdiv_1000 by simp
qed

lemma ms_until_mono:
  assumes "timer_ok a" "timer_ok b" "now_ok now" "not_after a b"
  shows "ms_until now a \<le> ms_until now b"
proof -
  have r: "0 \<le> tv_usec a" "tv_usec a < 1000000" "0 \<le> tv_usec b" "tv_usec b < 1000000" "0 \<le> snd now" "snd now < 1000000"
    using assms by (simp_all add: timer_ok_def now_ok_def)
  have "(tv_usec a - snd now) sdiv 1000 \<le> (tv_usec b - snd now) sdiv 1000" if "tv_usec a \<le> tv_usec b" using that sdiv_1000_mono by simp
  moreover have "(tv_usec a - snd now) sdiv 1000 \<le> (tv_usec b - snd now) sdiv 1000 + 1000"
    using sdiv_1000_mono [of "tv_usec a - snd now" "tv_usec b - snd now + 1000000"] sdiv_1000_shift [of "tv_usec b - snd now"] r by simp
  ultimately show ?thesis using assms(4) unfolding ms_until_def not_after_def by auto
qed

lemma first_delay_min:
  fixes now :: timeval
  assumes "\<And>a. Some a \<in> set ps \<Longrightarrow> h a \<noteq> None"
  defines "M \<equiv> \<lambda>ps best. set_option best \<union> {ms_until now (the (h a)) | a. Some a \<in> set ps}"
  shows "\<exists>r. first_delay h now ps best = Some r \<and> (case r of None \<Rightarrow> M ps best = {} | Some m \<Rightarrow> m \<in> M ps best \<and> (\<forall>x\<in>M ps best. m \<le> x))"
  using assms(1)
proof (induction ps arbitrary: best)
  case Nil
  then show ?case by (cases best) (auto simp: M_def)
next
  case (Cons p ps)
  show ?case
  proof (cases p)
    case None
    have m: "M (p # ps) best = M ps best" using None by (simp add: M_def)
    have f: "first_delay h now (p # ps) best = first_delay h now ps best" using None by simp
    show ?thesis unfolding m f by (rule Cons.IH) (use Cons.prems in simp)
  next
    case (Some a)
    obtain t where t: "h a = Some t" using Cons.prems Some by fastforce
    let ?m = "ms_until now t"
    let ?b = "case best of None \<Rightarrow> Some ?m | Some b \<Rightarrow> Some (if ?m < b then ?m else b)"
    obtain r where r: "first_delay h now ps ?b = Some r" "case r of None \<Rightarrow> M ps ?b = {} | Some m \<Rightarrow> m \<in> M ps ?b \<and> (\<forall>x\<in>M ps ?b. m \<le> x)"
      using Cons.IH [of ?b] Cons.prems by auto
    have sub: "M ps ?b \<subseteq> M (p # ps) best" using Some t by (auto simp: M_def split: option.splits if_splits intro: exI [of _ a])
    have low: "\<exists>y\<in>M ps ?b. y \<le> x" if "x \<in> M (p # ps) best" for x
    proof -
      have "x \<in> M ps None \<or> x = ?m \<or> best = Some x" using that Some t by (auto simp: M_def)
      moreover have "M ps None \<subseteq> M ps ?b" by (auto simp: M_def)
      moreover have "the ?b \<in> M ps ?b" "the ?b \<le> ?m" "best = Some x \<Longrightarrow> the ?b \<le> x" by (auto simp: M_def split: option.splits)
      ultimately show ?thesis by blast
    qed
    have "r \<noteq> None" using r(2) low [of ?m] Some t by (fastforce simp: M_def split: option.splits)
    then obtain m where m: "r = Some m" "m \<in> M ps ?b" "\<forall>x\<in>M ps ?b. m \<le> x" using r(2) by auto
    have "first_delay h now (p # ps) best = Some (Some m)" using r(1) m(1) Some t by simp
    moreover have "m \<in> M (p # ps) best" using m(2) sub by blast
    moreover have "\<forall>x\<in>M (p # ps) best. m \<le> x" using m(3) low by (meson order_trans)
    ultimately show ?thesis by simp
  qed
qed

lemma mstimeout_min:
  assumes inv: "tmr_inv s L F" and now: "now_ok now"
  shows "tmr_mstimeout now s = Some (if active L = {} then INFTIM else max 0 (Min ((\<lambda>a. ms_until now (nd s a)) ` active L)))"
proof -
  let ?D = "\<lambda>a. ms_until now (nd s a)"
  have rep: "tmr_rep s L F" and ok: "tmr_ok s L" using inv by (simp_all add: tmr_inv_def)
  have heads: "Some a \<in> set (timers s) \<longleftrightarrow> (\<exists>i<HASH_SIZE. L i \<noteq> [] \<and> a = hd (L i))" for a
  proof -
    have "timers s ! i = (if L i = [] then None else Some (hd (L i)))" if "i < HASH_SIZE" for i
      using chain_first rep_bucket [OF rep that] by blast
    then show ?thesis using rep by (auto simp: in_set_conv_nth tmr_rep_def split: if_splits)
  qed
  have hd_act: "a \<in> active L" if "Some a \<in> set (timers s)" for a using that by (auto simp: heads active_def intro!: hd_in_set)
  obtain r where r: "first_delay (tm_heap s) now (timers s) None = Some r"
    "case r of None \<Rightarrow> {?D a | a. Some a \<in> set (timers s)} = {} | Some m \<Rightarrow> m \<in> {?D a | a. Some a \<in> set (timers s)} \<and> (\<forall>x\<in>{?D a | a. Some a \<in> set (timers s)}. m \<le> x)"
    using first_delay_min [of "timers s" "tm_heap s" now None] hd_act rep_alloc [OF rep] unfolding option.set(1) sup_bot_left by blast
  have first: "\<exists>b. Some b \<in> set (timers s) \<and> ?D b \<le> ?D a" if a: "a \<in> active L" for a
  proof -
    obtain i where i: "i < HASH_SIZE" "a \<in> set (L i)" using a by (auto simp: active_def)
    then obtain b bs where b: "L i = b # bs" by (cases "L i") auto
    have "Some b \<in> set (timers s)" using heads i b by auto
    moreover have "?D b \<le> ?D a"
    proof (cases "a = b")
      case False
      then have "not_after (nd s b) (nd s a)" "timer_ok (nd s a)" "timer_ok (nd s b)" using ok i b by (auto simp: tmr_ok_def)
      then show ?thesis using ms_until_mono now by blast
    qed simp
    ultimately show ?thesis by blast
  qed
  show ?thesis
  proof (cases r)
    case None
    then have "active L = {}" using r(2) first by fastforce
    then show ?thesis using r(1) None by (simp add: tmr_mstimeout_def)
  next
    case (Some m)
    then obtain b where b: "Some b \<in> set (timers s)" "m = ?D b" and low: "\<And>a. Some a \<in> set (timers s) \<Longrightarrow> m \<le> ?D a" using r(2) by auto
    have "Min (?D ` active L) = m"
    proof (rule Min_eqI)
      show "finite (?D ` active L)" by (simp add: active_def)
      show "m \<le> y" if "y \<in> ?D ` active L" for y using that first low by force
      show "m \<in> ?D ` active L" using b hd_act by blast
    qed
    moreover have "active L \<noteq> {}" using b(1) hd_act by blast
    ultimately show ?thesis using r(1) Some by (simp add: tmr_mstimeout_def max_def)
  qed
qed

end
