(* ===== verification/TimersRun.thy ===== *)
theory TimersRun
  imports TimersProps
begin

text \<open>
  What running the timers does when their functions leave the package alone: it ends, exactly the timers that are due have run, the one-shot ones once and are
  idle after that, the periodic ones are set to a later time. And what it does when a function cancels another timer.
\<close>

definition quiet :: "(nat \<Rightarrow> u32 \<Rightarrow> timeval \<Rightarrow> 'w \<Rightarrow> 'w) \<Rightarrow> 'w tmr_callback" where
  "quiet f = (\<lambda>p d now (s, w). Some (s, f p d now w))"

text \<open>The effect of the functions of the timers \<open>fs\<close>, one after the other.\<close>

definition fire :: "(nat \<Rightarrow> u32 \<Rightarrow> timeval \<Rightarrow> 'w \<Rightarrow> 'w) \<Rightarrow> timeval \<Rightarrow> tmrs \<Rightarrow> nat list \<Rightarrow> 'w \<Rightarrow> 'w" where
  "fire f now s fs w = fold (\<lambda>a. f (timer_proc (nd s a)) (client_data (nd s a)) now) fs w"

definition ident :: "timer \<Rightarrow> nat \<times> u32 \<times> int \<times> bool" where
  "ident n = (timer_proc n, client_data n, msecs n, periodic n)"

definition same_id :: "tmrs \<Rightarrow> tmrs \<Rightarrow> bool" where
  "same_id s s' \<longleftrightarrow> (\<forall>a. map_option ident (tm_heap s' a) = map_option ident (tm_heap s a))"

text \<open>
  \<open>fs\<close> have run between two states: which timers are idle now, which are active, how often each one-shot and each periodic timer ran and what time
  it was set to.
\<close>

definition has_run :: "timeval \<Rightarrow> tmrs \<Rightarrow> (nat \<Rightarrow> nat list) \<Rightarrow> nat list \<Rightarrow> tmrs \<Rightarrow> (nat \<Rightarrow> nat list) \<Rightarrow> nat list \<Rightarrow> nat list \<Rightarrow> bool" where
  "has_run now s L F s' L' F' fs \<longleftrightarrow> same_id s s' \<and> set fs \<subseteq> active L \<and>
     active L' = active L - {a \<in> set fs. \<not> periodic (nd s a)} \<and> set F' = set F \<union> {a \<in> set fs. \<not> periodic (nd s a)} \<and>
     (\<forall>a\<in>set fs. \<not> not_ready now (nd s a)) \<and>
     (\<forall>a. a \<notin> set fs \<longrightarrow> map_option bare (tm_heap s' a) = map_option bare (tm_heap s a)) \<and>
     (\<forall>a\<in>set fs. if periodic (nd s a) then usecs (nd s' a) = usecs (nd s a) + int (count_list fs a) * (msecs (nd s a) * 1000) else count_list fs a = 1)"

lemma bare_ident: "bare n = bare m \<Longrightarrow> ident n = ident m"
  by (simp add: ident_def bare_fields [of n m])

lemma same_id_nd: "same_id s s' \<Longrightarrow> tm_heap s a \<noteq> None \<Longrightarrow> ident (nd s' a) = ident (nd s a)"
  unfolding same_id_def by (metis option.map_disc_iff option.map_sel)

lemma same_idI:
  assumes "\<And>a. a \<noteq> t \<Longrightarrow> map_option bare (tm_heap s' a) = map_option bare (tm_heap s a)" "tm_heap s t = Some n" "tm_heap s' t = Some n'" "ident n' = ident n"
  shows "same_id s s'"
  unfolding same_id_def
proof
  fix a
  show "map_option ident (tm_heap s' a) = map_option ident (tm_heap s a)"
  proof (cases "a = t")
    case False
    then show ?thesis using assms(1) [OF False] by (cases "tm_heap s a"; cases "tm_heap s' a") (auto intro: bare_ident)
  qed (use assms(2-4) in simp)
qed

lemma has_run_refl: "has_run now s L F s L F []"
  by (simp add: has_run_def same_id_def)

lemma map_bare_nd: "map_option bare (h' a) = map_option bare (h a) \<Longrightarrow> h a \<noteq> None \<Longrightarrow> bare (the (h' a)) = bare (the (h a))"
  by (cases "h a"; cases "h' a") auto

lemma bare_ready: "bare n = bare m \<Longrightarrow> not_ready now n = not_ready now m \<and> usecs n = usecs m"
  by (simp add: not_ready_def usecs_def bare_fields [of n m])

lemma has_run_trans:
  assumes 1: "has_run now s L F s1 L1 F1 fs" and 2: "has_run now s1 L1 F1 s2 L2 F2 gs" and al: "\<And>a. a \<in> active L \<Longrightarrow> tm_heap s a \<noteq> None"
  shows "has_run now s L F s2 L2 F2 (fs @ gs)"
proof -
  have id: "ident (nd s1 a) = ident (nd s a)" if "a \<in> active L" for a using same_id_nd al [OF that] 1 unfolding has_run_def by blast
  then have per: "periodic (nd s1 a) = periodic (nd s a)" "msecs (nd s1 a) = msecs (nd s a)" if "a \<in> active L" for a using that by (simp_all add: ident_def)
  have sub: "set fs \<subseteq> active L" "active L1 \<subseteq> active L" "set gs \<subseteq> active L1" using 1 2 unfolding has_run_def by auto
  have id2: "same_id s s2" using 1 2 unfolding has_run_def same_id_def by simp
  have bare1: "bare (nd s1 a) = bare (nd s a)" if "a \<in> active L" "a \<notin> set fs" for a
    using 1 that map_bare_nd [of "tm_heap s1" a "tm_heap s"] al unfolding has_run_def by blast
  have rdy: "\<not> not_ready now (nd s a)" if a: "a \<in> set fs \<union> set gs" for a
  proof (cases "a \<in> set fs")
    case False
    then have "a \<in> set gs" "a \<in> active L" using a sub by auto
    then show ?thesis using bare_ready [OF bare1] False 2 unfolding has_run_def by blast
  qed (use 1 in \<open>simp add: has_run_def\<close>)
  have one: "a \<notin> set gs" if "a \<in> set fs" "\<not> periodic (nd s a)" for a using 1 sub that unfolding has_run_def by auto
  have act: "active L2 = active L - {a \<in> set (fs @ gs). \<not> periodic (nd s a)}"
    using 1 2 per sub unfolding has_run_def by auto
  have idle: "set F2 = set F \<union> {a \<in> set (fs @ gs). \<not> periodic (nd s a)}"
    using 1 2 per sub unfolding has_run_def by auto
  have rest: "map_option bare (tm_heap s2 a) = map_option bare (tm_heap s a)" if "a \<notin> set (fs @ gs)" for a using 1 2 that unfolding has_run_def by simp
  have cnt: "if periodic (nd s a) then usecs (nd s2 a) = usecs (nd s a) + int (count_list (fs @ gs) a) * (msecs (nd s a) * 1000) else count_list (fs @ gs) a = 1"
    if a: "a \<in> set (fs @ gs)" for a
  proof -
    have aL: "a \<in> active L" using a sub by auto
    have z: "count_list fs a = 0" if "a \<notin> set fs" using that by (simp add: count_notin)
    have u1: "usecs (nd s1 a) = usecs (nd s a) + int (count_list fs a) * (msecs (nd s a) * 1000)" if "periodic (nd s a)"
    proof (cases "a \<in> set fs")
      case False
      then show ?thesis using bare_ready [OF bare1 [OF aL]] z by simp
    qed (use 1 that in \<open>simp add: has_run_def\<close>)
    have u2: "usecs (nd s2 a) = usecs (nd s1 a) + int (count_list gs a) * (msecs (nd s a) * 1000)" if "periodic (nd s a)"
    proof (cases "a \<in> set gs")
      case True
      then show ?thesis using 2 that per [OF aL] unfolding has_run_def by simp
    next
      case False
      have "tm_heap s1 a \<noteq> None" using 1 al [OF aL] unfolding has_run_def same_id_def by (metis option.map_disc_iff)
      then have "bare (nd s2 a) = bare (nd s1 a)" using 2 False map_bare_nd [of "tm_heap s2" a "tm_heap s1"] unfolding has_run_def by blast
      then show ?thesis using bare_ready [of "nd s2 a" "nd s1 a"] False by (simp add: count_notin)
    qed
    have c: "count_list (fs @ gs) a = 1" if np: "\<not> periodic (nd s a)"
    proof (cases "a \<in> set fs")
      case True
      then show ?thesis using 1 np one by (simp add: has_run_def count_notin)
    next
      case False
      then show ?thesis using 2 a np per [OF aL] by (simp add: has_run_def count_notin)
    qed
    show ?thesis using u1 u2 c by (simp add: algebra_simps)
  qed
  have cnt': "\<forall>a\<in>set (fs @ gs). if periodic (nd s a) then usecs (nd s2 a) = usecs (nd s a) + int (count_list (fs @ gs) a) * (msecs (nd s a) * 1000)
    else count_list (fs @ gs) a = 1" using cnt by blast
  have "set (fs @ gs) \<subseteq> active L" "\<forall>a\<in>set (fs @ gs). \<not> not_ready now (nd s a)" using sub rdy by auto
  then show ?thesis unfolding has_run_def using id2 act idle rest cnt' by blast
qed

section \<open>One timer\<close>

definition keeps_future :: "tmrs \<Rightarrow> (nat \<Rightarrow> nat list) \<Rightarrow> bool" where
  "keeps_future s L \<longleftrightarrow> (\<forall>a\<in>active L. periodic (nd s a) \<longrightarrow> 0 < msecs (nd s a))"

lemma run_oneshot:
  assumes inv: "tmr_inv s L F" and t: "t \<in> active L" and r: "\<not> not_ready now (nd s t)" and p: "\<not> periodic (nd s t)"
  defines "i \<equiv> t_hash (nd s t)"
  obtains s' where "run_timer (quiet f) now t (s, w) = Some (s', fire f now s [t] w)" "tmr_inv s' (L(i := removeAll t (L i))) (t # F)"
    "has_run now s L F s' (L(i := removeAll t (L i))) (t # F) [t]"
proof -
  have rep: "tmr_rep s L F" using inv by (simp add: tmr_inv_def)
  have i: "i < HASH_SIZE" "t \<in> set (L i)" using bucket_of [OF inv t] by (simp_all add: i_def)
  obtain n where n: "tm_heap s t = Some n" using rep_alloc [OF rep t] by auto
  obtain s' where s': "tmr_cancel t s = Some s'" "tmr_inv s' (L(i := removeAll t (L i))) (t # F)" "same_data (tm_heap s) (tm_heap s')"
    unfolding i_def by (rule tmr_cancel_inv [OF inv t]) blast
  have "run_timer (quiet f) now t (s, w) = Some (s', fire f now s [t] w)" using s'(1) n p by (simp add: run_timer_def quiet_def fire_def)
  moreover obtain n' where n': "tm_heap s' t = Some n'" "bare n' = bare n" using same_data_node [OF s'(3) n] by blast
  have "same_id s s'" by (rule same_idI [OF _ n n'(1) bare_ident [OF n'(2)]]) (use s'(3) in \<open>simp add: same_data_def\<close>)
  then have "has_run now s L F s' (L(i := removeAll t (L i))) (t # F) [t]"
    using t r p s'(3) active_removeAll [OF rep i] by (auto simp: has_run_def same_data_def)
  ultimately show ?thesis using that s'(2) by blast
qed

lemma run_periodic:
  assumes inv: "tmr_inv s L F" and t: "t \<in> active L" and r: "\<not> not_ready now (nd s t)" and p: "periodic (nd s t)" and ms: "0 < msecs (nd s t)"
  defines "i \<equiv> t_hash (nd s t)" and "j \<equiv> tmr_hash (add_msecs (nd s t))"
  defines "L1 \<equiv> L(i := removeAll t (L i))"
  obtains s' where "run_timer (quiet f) now t (s, w) = Some (s', fire f now s [t] w)" "tmr_inv s' (L1(j := ins (tm_heap s') t (L1 j))) F"
    "has_run now s L F s' (L1(j := ins (tm_heap s') t (L1 j))) F [t]"
proof -
  have rep: "tmr_rep s L F" using inv by (simp add: tmr_inv_def)
  have i: "i < HASH_SIZE" "t \<in> set (L i)" "timer_ok (nd s t)" using bucket_of [OF inv t] by (simp_all add: i_def)
  obtain n where n: "tm_heap s t = Some n" using rep_alloc [OF rep t] by auto
  have u: "0 \<le> msecs (nd s t)" "0 \<le> tv_usec (nd s t)" "tv_usec (nd s t) < 1000000" using ms i(3) by (simp_all add: timer_ok_def)
  note us = add_msecs_usecs [OF u]
  obtain s' where s': "l_resort t (s\<lparr>tm_heap := touch (Some t) add_msecs (tm_heap s)\<rparr>) = Some s'" "tmr_inv s' (L1(j := ins (tm_heap s') t (L1 j))) F"
    "bare (nd s' t) = bare ((add_msecs (nd s t))\<lparr>t_hash := j\<rparr>)" "\<And>a. a \<noteq> t \<Longrightarrow> map_option bare (tm_heap s' a) = map_option bare (tm_heap s a)"
    using move_inv [of s L F t add_msecs, OF inv t _ _ _ us(2,3)] unfolding i_def j_def L1_def by simp blast
  have j: "j < HASH_SIZE" by (simp add: j_def tmr_hash_less)
  have "active (L1(j := ins (tm_heap s') t (L1 j))) = active L" using active_ins [OF j, of L1] active_removeAll [OF rep i(1,2)] t by (auto simp: L1_def)
  moreover obtain n' where n': "tm_heap s' t = Some n'"
    using rep_alloc [of s' "L1(j := ins (tm_heap s') t (L1 j))" F t] s'(2) calculation t by (auto simp: tmr_inv_def)
  have "same_id s s'" using same_idI [OF s'(4) n n'] bare_ident [OF s'(3)] n n' by (simp add: ident_def)
  moreover have "usecs (nd s' t) = usecs (nd s t) + msecs (nd s t) * 1000" using us(1) bare_ready [OF s'(3)] by (simp add: usecs_def)
  ultimately have "has_run now s L F s' (L1(j := ins (tm_heap s') t (L1 j))) F [t]" using t r p s'(4) by (auto simp: has_run_def)
  moreover have "run_timer (quiet f) now t (s, w) = Some (s', fire f now s [t] w)"
    using s'(1) n p by (simp add: run_timer_def quiet_def fire_def assign_touch)
  ultimately show ?thesis using that s'(2) by blast
qed

section \<open>One list\<close>

text \<open>An upper bound of how often the loop can still visit a timer.\<close>

definition visits :: "timeval \<Rightarrow> tmrs \<Rightarrow> nat \<Rightarrow> nat" where
  "visits now s a = Suc (if periodic (nd s a) then nat ((fst now * 1000000 + snd now - usecs (nd s a)) div (msecs (nd s a) * 1000) + 1) else 0)"

lemma visits_less:
  assumes "usecs (nd s' a) = usecs (nd s a) + msecs (nd s a) * 1000" "ident (nd s' a) = ident (nd s a)" "periodic (nd s a)" "0 < msecs (nd s a)"
    "usecs (nd s a) \<le> fst now * 1000000 + snd now"
  shows "visits now s' a < visits now s a"
proof -
  let ?x = "fst now * 1000000 + snd now - usecs (nd s a)" and ?m = "msecs (nd s a) * 1000"
  have "(?x - ?m) div ?m = ?x div ?m - 1" using assms(4) div_add_self2 [of ?m "?x - ?m"] by simp
  moreover have "0 \<le> ?x div ?m" using assms(4,5) by (simp add: pos_imp_zdiv_nonneg_iff)
  moreover have "fst now * 1000000 + snd now - usecs (nd s' a) = ?x - ?m" using assms(1) by simp
  moreover have "msecs (nd s' a) = msecs (nd s a)" "periodic (nd s' a)" using assms(2,3) by (simp_all add: ident_def)
  ultimately show ?thesis using assms(3) unfolding visits_def by (simp only: if_True)
qed

lemma visits_same: "bare (nd s' a) = bare (nd s a) \<Longrightarrow> visits now s' a = visits now s a"
  by (simp add: visits_def bare_fields [of "nd s' a" "nd s a"] bare_ready [of "nd s' a" "nd s a", THEN conjunct2])

text \<open>Where a timer that is put back leaves the rest of the list that the loop walks along.\<close>

lemma ins_split: "\<exists>ds' rest'. ins h a (ds @ rest) = ds' @ rest' \<and> head_of rest' = head_of rest \<and>
  (rest' = rest \<or> (\<exists>r1 r2. rest = r1 @ r2 \<and> rest' = r1 @ a # r2))"
proof -
  let ?B = "before h (the (h a)) (ds @ rest)" and ?C = "behind h (the (h a)) (ds @ rest)"
  have "?B @ ?C = ds @ rest" by (rule before_behind)
  then consider us where "?B @ us = ds" "?C = us @ rest" | us where "?B = ds @ us" "us @ ?C = rest" "us \<noteq> []"
    unfolding append_eq_append_conv2 by (metis append_Nil append_Nil2)
  then show ?thesis
  proof cases
    case 1
    then have "ins h a (ds @ rest) = (?B @ a # us) @ rest" by (simp add: ins_def)
    then show ?thesis by blast
  next
    case 2
    have "ins h a (ds @ rest) = ds @ (us @ a # ?C)" using 2(1) by (simp add: ins_def)
    moreover have "head_of (us @ a # ?C) = head_of rest" using 2(2,3) by (metis append_is_Nil_conv head_of_def hd_append2)
    ultimately show ?thesis using 2(2) by metis
  qed
qed

text \<open>A visit of the loop: it continues with the timer that was next, and what is ahead of it becomes less.\<close>

lemma run_step:
  assumes inv: "tmr_inv s L F" and i: "i < HASH_SIZE" and L: "L i = ds @ a # rest" and r: "\<not> not_ready now (nd s a)" and now: "now_ok now"
    and fut: "keeps_future s L"
  obtains s1 L1 F1 ds1 rest1 where "run_timer (quiet f) now a (s, w) = Some (s1, fire f now s [a] w)" "tmr_inv s1 L1 F1" "has_run now s L F s1 L1 F1 [a]"
    "L1 i = ds1 @ rest1" "head_of rest1 = head_of rest" "set rest \<subseteq> set rest1" "(\<Sum>b\<leftarrow>rest1. visits now s1 b) < (\<Sum>b\<leftarrow>a # rest. visits now s b)"
    "\<And>k. k < HASH_SIZE \<Longrightarrow> set (L k) - {a} \<subseteq> set (L1 k)"
proof -
  have rep: "tmr_rep s L F" using inv by (simp add: tmr_inv_def)
  have aL: "a \<in> active L" using L i by (auto simp: active_def intro!: bexI [of _ i])
  have ai: "t_hash (nd s a) = i" "timer_ok (nd s a)" using inv L i by (auto simp: tmr_inv_def tmr_ok_def)
  have d: "distinct (ds @ a # rest)" using rep_bucket [OF rep i] L by simp
  have rm: "removeAll a (L i) = ds @ rest" using L d by simp
  have same: "visits now s1 b = visits now s b" if "has_run now s L F s1 L1 F1 [a]" "b \<in> set rest" for s1 L1 F1 b
  proof -
    have "b \<in> active L" "b \<noteq> a" using that(2) L i d by (auto simp: active_def intro!: bexI [of _ i])
    then have "bare (nd s1 b) = bare (nd s b)" using that(1) rep_alloc [OF rep, of b] map_bare_nd [of "tm_heap s1" b "tm_heap s"] by (simp add: has_run_def)
    then show ?thesis by (rule visits_same)
  qed
  show ?thesis
  proof (cases "periodic (nd s a)")
    case False
    obtain s1 where s1: "run_timer (quiet f) now a (s, w) = Some (s1, fire f now s [a] w)" "tmr_inv s1 (L(i := removeAll a (L i))) (a # F)"
      "has_run now s L F s1 (L(i := removeAll a (L i))) (a # F) [a]"
      by (rule run_oneshot [OF inv aL r False, of f w, unfolded ai(1)]) blast
    have "(\<Sum>b\<leftarrow>rest. visits now s1 b) = (\<Sum>b\<leftarrow>rest. visits now s b)" using same [OF s1(3)] by (metis (mono_tags, lifting) map_cong)
    then have "(\<Sum>b\<leftarrow>rest. visits now s1 b) < (\<Sum>b\<leftarrow>a # rest. visits now s b)" by (simp add: visits_def)
    moreover have "set (L k) - {a} \<subseteq> set ((L(i := removeAll a (L i))) k)" for k by auto
    moreover have "(L(i := removeAll a (L i))) i = ds @ rest" using rm by simp
    ultimately show ?thesis using that [OF s1] by blast
  next
    case True
    define j where "j = tmr_hash (add_msecs (nd s a))"
    define L0 where "L0 = L(i := removeAll a (L i))"
    have ms: "0 < msecs (nd s a)" using fut aL True by (simp add: keeps_future_def)
    obtain s1 where s1: "run_timer (quiet f) now a (s, w) = Some (s1, fire f now s [a] w)" "tmr_inv s1 (L0(j := ins (tm_heap s1) a (L0 j))) F"
      "has_run now s L F s1 (L0(j := ins (tm_heap s1) a (L0 j))) F [a]"
      unfolding j_def L0_def by (rule run_periodic [OF inv aL r True ms, of f w, unfolded ai(1)]) blast
    have L0i: "L0 i = ds @ rest" using rm by (simp add: L0_def)
    have "\<exists>ds1 rest1. (L0(j := ins (tm_heap s1) a (L0 j))) i = ds1 @ rest1 \<and> head_of rest1 = head_of rest \<and>
      (rest1 = rest \<or> (\<exists>r1 r2. rest = r1 @ r2 \<and> rest1 = r1 @ a # r2))"
      using ins_split [of "tm_heap s1" a ds rest] L0i by (cases "j = i") auto
    then obtain ds1 rest1 where sp: "(L0(j := ins (tm_heap s1) a (L0 j))) i = ds1 @ rest1" "head_of rest1 = head_of rest"
      "rest1 = rest \<or> (\<exists>r1 r2. rest = r1 @ r2 \<and> rest1 = r1 @ a # r2)" by blast
    have eq: "(\<Sum>b\<leftarrow>rest. visits now s1 b) = (\<Sum>b\<leftarrow>rest. visits now s b)" using same [OF s1(3)] by (metis (mono_tags, lifting) map_cong)
    have id: "ident (nd s1 a) = ident (nd s a)" using s1(3) same_id_nd rep_alloc [OF rep aL] by (auto simp: has_run_def)
    have us: "usecs (nd s1 a) = usecs (nd s a) + msecs (nd s a) * 1000" using s1(3) True by (simp add: has_run_def)
    have le: "usecs (nd s a) \<le> fst now * 1000000 + snd now" using r not_ready_usecs [OF ai(2) now] by simp
    have "visits now s1 a < visits now s a" by (rule visits_less [OF us id True ms le])
    then have "(\<Sum>b\<leftarrow>rest1. visits now s1 b) < (\<Sum>b\<leftarrow>a # rest. visits now s b)" using sp(3) eq by auto
    moreover have "set rest \<subseteq> set rest1" using sp(3) by auto
    moreover have "set (L k) - {a} \<subseteq> set ((L0(j := ins (tm_heap s1) a (L0 j))) k)" for k by (auto simp: L0_def)
    ultimately show ?thesis using that [OF s1] sp(1,2) by blast
  qed
qed

lemma next_of:
  assumes "tmr_rep s L F" "i < HASH_SIZE" "L i = ds @ a # rest" "tm_heap s a = Some n"
  shows "t_next n = head_of rest"
proof -
  have "dlist t_prev t_next (tm_heap s) (timers s ! i) (ds @ a # rest) (Some (last (ds @ a # rest)))" "distinct (ds @ a # rest)"
    using rep_bucket [OF assms(1,2)] assms(3) by (simp_all add: chain_def)
  from tl.dlist_unlink(3) [OF this assms(4)] show ?thesis by (simp add: head_of_def)
qed

lemma fire_append: "fire f now s (fs @ gs) w = fire f now s gs (fire f now s fs w)"
  by (simp add: fire_def)

lemma fire_same: "(\<And>a. a \<in> set gs \<Longrightarrow> ident (nd s' a) = ident (nd s a)) \<Longrightarrow> fire f now s' gs w = fire f now s gs w"
  unfolding fire_def by (rule fold_cong) (simp_all add: ident_def)

lemma has_run_fire: "has_run now s L F s1 L1 F1 fs \<Longrightarrow> tmr_rep s L F \<Longrightarrow> set gs \<subseteq> active L1 \<Longrightarrow> fire f now s1 gs w = fire f now s gs w"
  using same_id_nd rep_alloc by (intro fire_same) (auto simp: has_run_def)

lemma has_run_future:
  assumes "has_run now s L F s1 L1 F1 fs" "tmr_rep s L F" "keeps_future s L"
  shows "keeps_future s1 L1"
proof -
  have "ident (nd s1 a) = ident (nd s a)" "a \<in> active L" if "a \<in> active L1" for a
    using assms(1) same_id_nd [of s s1 a] rep_alloc [OF assms(2), of a] that by (auto simp: has_run_def)
  then show ?thesis using assms(3) by (fastforce simp: keeps_future_def ident_def)
qed

lemma run_list_ok:
  assumes "tmr_inv s L F" "i < HASH_SIZE" "L i = ds @ rest" "now_ok now" "keeps_future s L"
  shows "\<exists>s' L' F' fs. run_list (quiet f) now (head_of rest) (s, w) = Some (s', fire f now s fs w) \<and> tmr_inv s' L' F' \<and> has_run now s L F s' L' F' fs \<and>
    (\<forall>b\<in>set rest. \<not> not_ready now (nd s b) \<longrightarrow> b \<in> set fs) \<and> (\<forall>k<HASH_SIZE. set (L k) - set fs \<subseteq> set (L' k))"
  using assms
proof (induction "\<Sum>b\<leftarrow>rest. visits now s b" arbitrary: s L F ds rest w rule: less_induct)
  case less
  have rep: "tmr_rep s L F" and ok: "tmr_ok s L" using less.prems(1) by (simp_all add: tmr_inv_def)
  have stop: ?case if "run_list (quiet f) now (head_of rest) (s, w) = Some (s, w)" "\<forall>b\<in>set rest. not_ready now (nd s b)"
    using that less.prems(1) has_run_refl by (intro exI [of _ s] exI [of _ L] exI [of _ F] exI [of _ "[]"]) (auto simp: fire_def)
  show ?case
  proof (cases rest)
    case Nil
    then show ?thesis by (intro stop) (simp_all add: head_of_def run_list.simps)
  next
    case (Cons a rest0)
    have L: "L i = ds @ a # rest0" using less.prems(3) Cons by simp
    have aL: "a \<in> active L" using L less.prems(2) by (auto simp: active_def intro!: bexI [of _ i])
    then obtain n where n: "tm_heap s a = Some n" using rep_alloc [OF rep] by blast
    have hd: "head_of rest = Some a" using Cons by (simp add: head_of_def)
    show ?thesis
    proof (cases "not_ready now n")
      case True
      have "sorted_wrt (\<lambda>a b. not_after (nd s a) (nd s b)) (ds @ a # rest0)" using ok L less.prems(2) unfolding tmr_ok_def by metis
      then have "not_ready now (nd s b)" if "b \<in> set rest0" for b
        using that True n by (auto simp: sorted_wrt_append not_after_def not_ready_def)
      then show ?thesis using True n Cons by (intro stop) (simp_all add: head_of_def run_list.simps)
    next
      case False
      obtain s1 L1 F1 ds1 rest1 where st: "run_timer (quiet f) now a (s, w) = Some (s1, fire f now s [a] w)" "tmr_inv s1 L1 F1" "has_run now s L F s1 L1 F1 [a]"
        "L1 i = ds1 @ rest1" "head_of rest1 = head_of rest0" "set rest0 \<subseteq> set rest1" "(\<Sum>b\<leftarrow>rest1. visits now s1 b) < (\<Sum>b\<leftarrow>a # rest0. visits now s b)"
        "\<And>k. k < HASH_SIZE \<Longrightarrow> set (L k) - {a} \<subseteq> set (L1 k)"
        using run_step [OF less.prems(1,2) L _ less.prems(4,5), of f w] False n by (metis option.sel)
      have "\<exists>s' L' F' fs. run_list (quiet f) now (head_of rest1) (s1, fire f now s [a] w) = Some (s', fire f now s1 fs (fire f now s [a] w)) \<and> tmr_inv s' L' F' \<and>
        has_run now s1 L1 F1 s' L' F' fs \<and> (\<forall>b\<in>set rest1. \<not> not_ready now (nd s1 b) \<longrightarrow> b \<in> set fs) \<and> (\<forall>k<HASH_SIZE. set (L1 k) - set fs \<subseteq> set (L' k))"
        by (rule less.hyps [OF st(7) [folded Cons] st(2) less.prems(2) st(4) less.prems(4) has_run_future [OF st(3) rep less.prems(5)]])
      then obtain s' L' F' fs where ih: "run_list (quiet f) now (head_of rest1) (s1, fire f now s [a] w) = Some (s', fire f now s1 fs (fire f now s [a] w))"
        "tmr_inv s' L' F'" "has_run now s1 L1 F1 s' L' F' fs" "\<forall>b\<in>set rest1. \<not> not_ready now (nd s1 b) \<longrightarrow> b \<in> set fs" "\<forall>k<HASH_SIZE. set (L1 k) - set fs \<subseteq> set (L' k)"
        by blast
      have fr: "fire f now s1 fs (fire f now s [a] w) = fire f now s ([a] @ fs) w"
        unfolding fire_append by (rule has_run_fire [OF st(3) rep]) (use ih(3) in \<open>simp add: has_run_def\<close>)
      have nx: "t_next n = head_of rest1" using next_of [OF rep less.prems(2) L n] st(5) by simp
      have run: "run_list (quiet f) now (head_of rest) (s, w) = Some (s', fire f now s ([a] @ fs) w)"
        unfolding hd using n False st(1) ih(1) fr nx by (subst run_list.simps) simp
      have all: "b \<in> set ([a] @ fs)" if "b \<in> set rest" "\<not> not_ready now (nd s b)" for b
      proof (cases "b = a")
        case False
        then have b: "b \<in> set rest1" "b \<in> active L" using that(1) Cons st(6) L less.prems(2) by (auto simp: active_def intro!: bexI [of _ i])
        then have "bare (nd s1 b) = bare (nd s b)"
          using st(3) False rep_alloc [OF rep, of b] map_bare_nd [of "tm_heap s1" b "tm_heap s"] by (simp add: has_run_def)
        then show ?thesis using ih(4) b(1) that(2) bare_ready [of "nd s1 b" "nd s b" now] by auto
      qed simp
      have "set (L k) - set ([a] @ fs) \<subseteq> set (L' k)" if "k < HASH_SIZE" for k using st(8) [OF that] ih(5) that by auto
      then show ?thesis using run ih(2) has_run_trans [OF st(3) ih(3) rep_alloc [OF rep]] all by blast
    qed
  qed
qed

section \<open>All lists\<close>

lemma run_lists_ok:
  assumes "tmr_inv s L F" "set hs \<subseteq> {..<HASH_SIZE}" "now_ok now" "keeps_future s L"
  shows "\<exists>s' L' F' fs. run_lists (quiet f) now hs (s, w) = Some (s', fire f now s fs w) \<and> tmr_inv s' L' F' \<and> has_run now s L F s' L' F' fs \<and>
    (\<forall>k\<in>set hs. \<forall>b\<in>set (L k). \<not> not_ready now (nd s b) \<longrightarrow> b \<in> set fs)"
  using assms
proof (induction hs arbitrary: s L F w)
  case Nil
  then show ?case using has_run_refl by (intro exI [of _ s] exI [of _ L] exI [of _ F] exI [of _ "[]"]) (simp add: fire_def)
next
  case (Cons h hs)
  have rep: "tmr_rep s L F" using Cons.prems(1) by (simp add: tmr_inv_def)
  have h: "h < HASH_SIZE" using Cons.prems(2) by simp
  have rd: "buf_rd (timers s) h = Some (head_of (L h))" using rep_bucket [OF rep h] chain_first [of "tm_heap s" "timers s ! h" "L h"] by (simp add: buf_simps head_of_def)
  obtain s1 L1 F1 fs where 1: "run_list (quiet f) now (head_of (L h)) (s, w) = Some (s1, fire f now s fs w)" "tmr_inv s1 L1 F1" "has_run now s L F s1 L1 F1 fs"
    "\<forall>b\<in>set (L h). \<not> not_ready now (nd s b) \<longrightarrow> b \<in> set fs" "\<forall>k<HASH_SIZE. set (L k) - set fs \<subseteq> set (L1 k)"
    using run_list_ok [OF Cons.prems(1) h _ Cons.prems(3,4), of "[]" "L h" f w] by auto
  obtain s2 L2 F2 gs where 2: "run_lists (quiet f) now hs (s1, fire f now s fs w) = Some (s2, fire f now s1 gs (fire f now s fs w))" "tmr_inv s2 L2 F2"
    "has_run now s1 L1 F1 s2 L2 F2 gs" "\<forall>k\<in>set hs. \<forall>b\<in>set (L1 k). \<not> not_ready now (nd s1 b) \<longrightarrow> b \<in> set gs"
    using Cons.IH [OF 1(2) _ Cons.prems(3) has_run_future [OF 1(3) rep Cons.prems(4)], of "fire f now s fs w"] Cons.prems(2) by auto
  have fr: "fire f now s1 gs (fire f now s fs w) = fire f now s (fs @ gs) w"
    unfolding fire_append by (rule has_run_fire [OF 1(3) rep]) (use 2(3) in \<open>simp add: has_run_def\<close>)
  have all: "b \<in> set (fs @ gs)" if k: "k \<in> set (h # hs)" and b: "b \<in> set (L k)" "\<not> not_ready now (nd s b)" for k b
  proof (cases "k = h \<or> b \<in> set fs")
    case True
    then show ?thesis using 1(4) b by auto
  next
    case False
    have kH: "k < HASH_SIZE" using k Cons.prems(2) by auto
    then have bL: "b \<in> active L" "b \<in> set (L1 k)" using b(1) 1(5) False by (auto simp: active_def)
    then have "bare (nd s1 b) = bare (nd s b)"
      using 1(3) False rep_alloc [OF rep, of b] map_bare_nd [of "tm_heap s1" b "tm_heap s"] by (simp add: has_run_def)
    then show ?thesis using 2(4) k False bL(2) b(2) bare_ready [of "nd s1 b" "nd s b" now] by auto
  qed
  have "run_lists (quiet f) now (h # hs) (s, w) = Some (s2, fire f now s (fs @ gs) w)" using rd 1(1) 2(1) fr by simp
  then show ?case using 2(2) has_run_trans [OF 1(3) 2(3) rep_alloc [OF rep]] all by blast
qed

lemma tmr_run_ok:
  assumes "tmr_inv s L F" "now_ok now" "keeps_future s L"
  shows "\<exists>s' L' F' fs. tmr_run (quiet f) now (s, w) = Some (s', fire f now s fs w) \<and> tmr_inv s' L' F' \<and> has_run now s L F s' L' F' fs \<and>
    set fs = {a \<in> active L. \<not> not_ready now (nd s a)}"
proof -
  obtain s' L' F' fs where r: "tmr_run (quiet f) now (s, w) = Some (s', fire f now s fs w)" "tmr_inv s' L' F'" "has_run now s L F s' L' F' fs"
    "\<forall>k\<in>set [0..<HASH_SIZE]. \<forall>b\<in>set (L k). \<not> not_ready now (nd s b) \<longrightarrow> b \<in> set fs"
    using run_lists_ok [OF assms(1) _ assms(2,3), of "[0..<HASH_SIZE]" f w] unfolding tmr_run_def by (metis atLeast_upt order_refl)
  have "set fs = {a \<in> active L. \<not> not_ready now (nd s a)}" using r(3,4) by (auto simp: has_run_def active_def)
  then show ?thesis using r by blast
qed

section \<open>Start and end\<close>

lemma tmr_init_inv: "free_timers s = None \<Longrightarrow> tmr_inv (tmr_init s) (\<lambda>_. []) []"
  by (simp add: tmr_inv_def tmr_rep_def tmr_ok_def tmr_init_def chain_def dlist_def)

lemma cancel_list_ok:
  assumes "tmr_inv s L F" "i < HASH_SIZE"
  shows "\<exists>s' F'. cancel_list i s = Some s' \<and> tmr_inv s' (L(i := [])) F' \<and> set F' = set (L i) \<union> set F \<and> dom (tm_heap s') = dom (tm_heap s)"
  using assms
proof (induction "length (L i)" arbitrary: s L F)
  case 0
  have rep: "tmr_rep s L F" using 0(2) by (simp add: tmr_inv_def)
  have "timers s ! i = None" using rep_bucket [OF rep 0(3)] chain_first [of "tm_heap s" "timers s ! i" "L i"] 0(1) by simp
  moreover have "L(i := []) = L" using 0(1) by auto
  ultimately have "cancel_list i s = Some s" "tmr_inv s (L(i := [])) F" using 0 rep_bucket [OF rep 0(3)] by (simp_all add: cancel_list.simps buf_simps)
  moreover have "set F = set (L i) \<union> set F" using 0(1) by simp
  ultimately show ?case by blast
next
  case (Suc m)
  have rep: "tmr_rep s L F" using Suc.prems(1) by (simp add: tmr_inv_def)
  obtain a as where L: "L i = a # as" using Suc(2) by (cases "L i") auto
  have b: "timers s ! i = Some a" "i < length (timers s)" "distinct (a # as)" using rep_bucket [OF rep Suc.prems(2)] chain_first [of "tm_heap s" "timers s ! i" "L i"] L by auto
  have aL: "a \<in> active L" "t_hash (nd s a) = i" using L Suc.prems by (auto simp: active_def tmr_inv_def tmr_ok_def intro!: bexI [of _ i])
  obtain s1 where s1: "tmr_cancel a s = Some s1" "tmr_inv s1 (L(i := removeAll a (L i))) (a # F)" "dom (tm_heap s1) = dom (tm_heap s)"
    by (rule tmr_cancel_inv [OF Suc.prems(1) aL(1), unfolded aL(2)]) blast
  have rm: "removeAll a (L i) = as" using L b(3) by simp
  have "\<exists>s' F'. cancel_list i s1 = Some s' \<and> tmr_inv s' ((L(i := as))(i := [])) F' \<and> set F' = set ((L(i := as)) i) \<union> set (a # F) \<and> dom (tm_heap s') = dom (tm_heap s1)"
    using Suc(1) [of "L(i := as)" s1 "a # F"] s1(2) Suc(2) L rm Suc.prems(2) by simp
  moreover have "cancel_list i s = cancel_list i s1" using b s1(1) by (subst cancel_list.simps) (simp add: buf_simps)
  ultimately show ?case using s1(3) L by simp
qed

lemma cancel_lists_ok:
  assumes "tmr_inv s L F" "set hs \<subseteq> {..<HASH_SIZE}"
  shows "\<exists>s' L' F'. cancel_lists hs s = Some s' \<and> tmr_inv s' L' F' \<and> set F' = set F \<union> (\<Union>h\<in>set hs. set (L h)) \<and>
    (\<forall>k. L' k = (if k \<in> set hs then [] else L k)) \<and> dom (tm_heap s') = dom (tm_heap s)"
  using assms
proof (induction hs arbitrary: s L F)
  case (Cons h hs)
  obtain s1 F1 where 1: "cancel_list h s = Some s1" "tmr_inv s1 (L(h := [])) F1" "set F1 = set (L h) \<union> set F" "dom (tm_heap s1) = dom (tm_heap s)"
    using cancel_list_ok [OF Cons.prems(1), of h] Cons.prems(2) by auto
  obtain s2 L2 F2 where 2: "cancel_lists hs s1 = Some s2" "tmr_inv s2 L2 F2" "set F2 = set F1 \<union> (\<Union>k\<in>set hs. set ((L(h := [])) k))"
    "\<forall>k. L2 k = (if k \<in> set hs then [] else (L(h := [])) k)" "dom (tm_heap s2) = dom (tm_heap s1)"
    using Cons.IH [OF 1(2)] Cons.prems(2) by auto
  have "set F2 = set F \<union> (\<Union>k\<in>set (h # hs). set (L k))" using 2(3) 1(3) by (auto split: if_splits)
  moreover have "\<forall>k. L2 k = (if k \<in> set (h # hs) then [] else L k)" using 2(4) by auto
  moreover have "cancel_lists (h # hs) s = Some s2" "dom (tm_heap s2) = dom (tm_heap s)" using 1(1,4) 2(1,5) by simp_all
  ultimately show ?case using 2(2) by blast
qed auto

lemma tmr_cleanup_ok:
  assumes "tmr_inv s L F" "active L = {}"
  shows "\<exists>s'. tmr_cleanup s = Some s' \<and> tmr_inv s' L [] \<and> dom (tm_heap s') = dom (tm_heap s) - set F"
  using assms
proof (induction F arbitrary: s)
  case Nil
  then show ?case by (subst tmr_cleanup.simps) (simp add: tmr_inv_def tmr_rep_def)
next
  case (Cons a F)
  obtain n where n: "free_timers s = Some a" "tm_heap s a = Some n" "slist (tm_heap s) (t_next n) F" "a \<notin> set F"
    using Cons.prems(1) by (auto simp: tmr_inv_def tmr_rep_def split: option.splits)
  let ?s = "s\<lparr>free_timers := t_next n, tm_heap := (tm_heap s)(a := None)\<rparr>"
  have "slist (tm_heap ?s) (t_next n) F = slist (tm_heap s) (t_next n) F" using n(4) by (intro slist_frame) auto
  moreover have e: "L i = []" if "i < HASH_SIZE" for i using Cons.prems(2) that by (auto simp: active_def)
  ultimately have "tmr_inv ?s L F" using Cons.prems(1) n(3) by (auto simp: tmr_inv_def tmr_rep_def tmr_ok_def chain_def dlist_def)
  then obtain s' where "tmr_cleanup ?s = Some s'" "tmr_inv s' L []" "dom (tm_heap s') = dom (tm_heap ?s) - set F" using Cons.IH Cons.prems(2) by blast
  moreover have "tmr_cleanup s = tmr_cleanup ?s" using n by (subst tmr_cleanup.simps) simp
  ultimately show ?case by auto
qed

lemma tmr_destroy_ok:
  assumes "tmr_inv s L F"
  shows "\<exists>s'. tmr_destroy s = Some s' \<and> tmr_inv s' (\<lambda>_. []) [] \<and> dom (tm_heap s') = dom (tm_heap s) - (active L \<union> set F)"
proof -
  obtain s1 L1 F1 where 1: "cancel_lists [0..<HASH_SIZE] s = Some s1" "tmr_inv s1 L1 F1" "set F1 = set F \<union> (\<Union>h\<in>set [0..<HASH_SIZE]. set (L h))"
    "\<forall>k. L1 k = (if k \<in> set [0..<HASH_SIZE] then [] else L k)" "dom (tm_heap s1) = dom (tm_heap s)"
    using cancel_lists_ok [OF assms equalityD1 [OF atLeast_upt [symmetric]]] by blast
  have "active L1 = {}" using 1(4) by (simp add: active_def)
  then obtain s2 where 2: "tmr_cleanup s1 = Some s2" "tmr_inv s2 L1 []" "dom (tm_heap s2) = dom (tm_heap s1) - set F1" using tmr_cleanup_ok [OF 1(2)] by blast
  have "tmr_inv s2 (\<lambda>_. []) []" using 2(2) 1(4) by (simp add: tmr_inv_def tmr_rep_def tmr_ok_def)
  moreover have "set F1 = active L \<union> set F" using 1(3) by (auto simp: active_def)
  ultimately show ?thesis using 1(1,5) 2(1,3) by (simp add: tmr_destroy_def)
qed

section \<open>A function that cancels another timer\<close>

lemma run_lists_append: "run_lists call now (hs @ ks) sw = do { sw \<leftarrow> run_lists call now hs sw; run_lists call now ks sw }"
  by (induction hs arbitrary: sw) (auto simp: bind_assoc intro!: Option.bind_cong)

lemma run_lists_idle: "(\<And>h. h \<in> set hs \<Longrightarrow> buf_rd (timers s) h = Some None) \<Longrightarrow> run_lists call now hs (s, w) = Some (s, w)"
  by (induction hs) (simp_all add: run_list.simps)

text \<open>Two timers of the same trigger time, at addresses 2 and 3; the function of the first cancels the second.\<close>

definition timer_at :: "nat \<Rightarrow> ptr \<Rightarrow> ptr \<Rightarrow> timer" where
  "timer_at proc p q = \<lparr>timer_proc = proc, client_data = 0, msecs = 500, periodic = False, tv_sec = 10, tv_usec = 500000, t_prev = p, t_next = q, t_hash = 56\<rparr>"

definition two_timers :: tmrs where
  "two_timers = \<lparr>tm_heap = [3 \<mapsto> timer_at 3 (Some 2) None, 2 \<mapsto> timer_at 2 None (Some 3)], timers = (replicate HASH_SIZE None)[56 := Some 2], free_timers = None\<rparr>"

definition canceller :: "nat list tmr_callback" where
  "canceller p d now sw = (if p = 2 then do { s \<leftarrow> tmr_cancel 3 (fst sw); Some (s, snd sw @ [p]) } else Some (fst sw, snd sw @ [p]))"

lemma timer_at_fields [simp]: "timer_proc (timer_at pr p q) = pr" "periodic (timer_at pr p q) = False" "t_prev (timer_at pr p q) = p"
   "t_next (timer_at pr p q) = q" "t_hash (timer_at pr p q) = 56" "(timer_at pr p q)\<lparr>t_prev := p'\<rparr> = timer_at pr p' q" "(timer_at pr p q)\<lparr>t_next := q'\<rparr> = timer_at pr p q'"
   "not_ready (11, 0) (timer_at pr p q) = False" "tmr_hash (timer_at pr p q) = 56" "timer_ok (timer_at pr p q)" "not_after (timer_at pr p q) (timer_at pr' p' q')"
  by (simp_all add: timer_at_def not_ready_def tmr_hash_def HASH_SIZE_def timer_ok_def not_after_def)

lemma two_inv: "tmr_inv two_timers ((\<lambda>_. [])(56 := [2, 3])) []"
  by (auto simp: tmr_inv_def tmr_rep_def tmr_ok_def two_timers_def chain_def dlist_def HASH_SIZE_def)

definition two_lists :: "nat \<Rightarrow> nat list" where
  "two_lists = (\<lambda>_. [])(56 := [2, 3])"

lemma active_two: "active two_lists = {2, 3}"
  by (auto simp: active_def two_lists_def HASH_SIZE_def split: if_splits intro!: bexI [of _ 56])

section \<open>Properties\<close>





text \<open>
  A new timer. Given an idle timer or memory, \<open>tmr_create\<close> returns it active, with its function, data and period, due the given number of milliseconds after
  the given time, at the place in its list where the list stays sorted; no other timer changes except in its links.
\<close>

theorem tmr_create_sorted:
  assumes "tmr_inv s L F" "0 \<le> ms" "now_ok now" "F = [] \<Longrightarrow> block = Some (b, junk) \<and> tm_heap s b = None"
  shows "\<exists>s' j. let t = (if F = [] then b else hd F) in
    tmr_create block clock (Some now) proc data ms per s = Some (s', Some t) \<and> j < HASH_SIZE \<and> t \<notin> active L \<and>
    tmr_inv s' (L(j := ins (tm_heap s') t (L j))) (tl F) \<and> usecs (nd s' t) = fst now * 1000000 + snd now + ms * 1000 \<and>
    timer_proc (nd s' t) = proc \<and> client_data (nd s' t) = data \<and> msecs (nd s' t) = ms \<and> periodic (nd s' t) = per \<and>
    (\<forall>a. a \<noteq> t \<longrightarrow> map_option bare (tm_heap s' a) = map_option bare (tm_heap s a))"
  unfolding Let_def by (rule tmr_create_inv [OF assms]) blast+

theorem tmr_create_sorted_witness:
  "\<exists>s'. tmr_create (Some (4, timer_at 0 None None)) (0, 0) (Some (9, 999999)) 7 1 1 True two_timers = Some (s', Some 4) \<and> usecs (nd s' 4) = 10000999"
proof -
  have p: "0 \<le> (1 :: int)" "now_ok (9, 999999)" "[] = ([] :: nat list) \<Longrightarrow> Some (4, timer_at 0 None None) = Some (4, timer_at 0 None None) \<and> tm_heap two_timers 4 = None"
    by (simp_all add: now_ok_def two_timers_def)
  show ?thesis using tmr_create_sorted [OF two_inv [folded two_lists_def] p, of "(0, 0)" 7 1 True] by (auto simp: Let_def)
qed

text \<open>
  C21. Releasing everything. \<open>tmr_destroy\<close> ends and frees every active and every idle timer exactly once: what is left of the heap is what did not belong to the package.
\<close>

theorem tmr_destroy_frees:
  assumes "tmr_inv s L F"
  shows "\<exists>s'. tmr_destroy s = Some s' \<and> tmr_inv s' (\<lambda>_. []) [] \<and> dom (tm_heap s') = dom (tm_heap s) - (active L \<union> set F)"
  using tmr_destroy_ok [OF assms] .

theorem tmr_destroy_frees_witness: "\<exists>s'. tmr_destroy two_timers = Some s' \<and> dom (tm_heap s') = {}"
  using tmr_destroy_frees [OF two_inv [folded two_lists_def]] by (auto simp: active_two two_timers_def)

text \<open>
  A cancelled timer runs. The loop takes the pointer to the next timer before it calls a function; when that function cancels the next timer, the loop goes on with the cancelled one:
  it calls its function, cancels it a second time, and leaves a free list that is a cycle.
\<close>

theorem cancelled_timer_runs:
  "\<exists>s. tmr_run canceller (11, 0) (two_timers, []) = Some (s, [2, 3]) \<and> free_timers s = Some 3 \<and>
     map_option t_next (tm_heap s 3) = Some (Some 2) \<and> map_option t_next (tm_heap s 2) = Some (Some 3)"
proof -
  let ?s = "\<lparr>tm_heap = [2 \<mapsto> timer_at 2 None (Some 3), 3 \<mapsto> timer_at 3 None (Some 2)], timers = (replicate HASH_SIZE None)[56 := None], free_timers = Some 3\<rparr>"
  have hs: "[0..<HASH_SIZE] = [0..<56] @ 56 # [57..<HASH_SIZE]" by (simp add: HASH_SIZE_def upt_conv_Cons)
  have r: "run_list canceller (11, 0) (Some 2) (two_timers, []) = Some (?s, [2, 3])"
    by (simp add: run_list.simps [of _ _ "Some 2"] run_list.simps [of _ _ "Some 3"] run_list.simps [of _ _ None] run_timer_def canceller_def tmr_cancel_def
        l_remove_def two_timers_def assign_def buf_simps HASH_SIZE_def)
  have 1: "run_lists canceller (11, 0) [0..<56] (two_timers, []) = Some (two_timers, [])"
    by (rule run_lists_idle) (simp add: two_timers_def buf_simps HASH_SIZE_def)
  have 2: "run_lists canceller (11, 0) [57..<HASH_SIZE] (?s, [2, 3]) = Some (?s, [2, 3])"
    by (rule run_lists_idle) (auto simp: buf_rd_def HASH_SIZE_def)
  have h: "buf_rd (timers two_timers) 56 = Some (Some 2)" by (simp add: two_timers_def buf_simps HASH_SIZE_def)
  have "tmr_run canceller (11, 0) (two_timers, []) = Some (?s, [2, 3])"
    unfolding tmr_run_def hs run_lists_append 1 by (simp only: bind.bind_lunit run_lists.simps fst_conv h r 2)
  then show ?thesis by simp
qed

end
