(* ===== verification/Cjson.thy ===== *)
theory Cjson
  imports CString
begin

text \<open>
  The JSON reader and writer (\<open>c_advanced/02_cJSON/cJSON.c\<close>). A text is a C string; a pointer into it is the rest of the text from there on, so that the empty list is the
  place of the terminator. An operation ends well, fails with a null pointer, or reads or writes outside of the text or of the block it allocated
  (\<open>Over\<close>). Blocks are allocated; a failing \<open>malloc\<close> is not part of the model. Numbers are doubles, that is rationals rounded by \<open>f64\<close>, within their range.
\<close>

section \<open>Items\<close>

datatype ('e, 'a) outcome = Ok 'a | Fail 'e | Over

fun bind_outcome :: "('e, 'a) outcome \<Rightarrow> ('a \<Rightarrow> ('e, 'b) outcome) \<Rightarrow> ('e, 'b) outcome" where
  "bind_outcome (Ok x) f = f x"
| "bind_outcome (Fail e) f = Fail e"
| "bind_outcome Over f = Over"

text \<open>An item with its children in the order of their \<open>next\<close> pointers.\<close>

datatype cJSON = Item
  (jtype: nat) (child: "cJSON list") (valuestring: "byte list option") (valueint: int) (valuedouble: rat) (jstring: "byte list option")

definition cJSON_False :: nat where "cJSON_False = 0"
definition cJSON_True :: nat where "cJSON_True = 1"
definition cJSON_NULL :: nat where "cJSON_NULL = 2"
definition cJSON_Number :: nat where "cJSON_Number = 3"
definition cJSON_String :: nat where "cJSON_String = 4"
definition cJSON_Array :: nat where "cJSON_Array = 5"
definition cJSON_Object :: nat where "cJSON_Object = 6"

lemmas cjson_types = cJSON_False_def cJSON_True_def cJSON_NULL_def cJSON_Number_def cJSON_String_def cJSON_Array_def cJSON_Object_def

definition cJSON_New_Item :: cJSON where
  "cJSON_New_Item = Item 0 [] None 0 0 None"

definition set_name :: "byte list option \<Rightarrow> cJSON \<Rightarrow> cJSON" where
  "set_name s i = Item (jtype i) (child i) (valuestring i) (valueint i) (valuedouble i) s"

section \<open>Reading the text\<close>

definition at0 :: "byte list \<Rightarrow> byte" where
  "at0 p = (case p of [] \<Rightarrow> 0 | c # _ \<Rightarrow> c)"

text \<open>Moving a pointer; behind the terminator there is nothing to read.\<close>

definition adv :: "nat \<Rightarrow> byte list \<Rightarrow> (byte list, byte list) outcome" where
  "adv k p = (if k \<le> length p then Ok (drop k p) else Over)"

definition skip :: "byte list \<Rightarrow> byte list" where
  "skip p = dropWhile (\<lambda>c. c \<noteq> 0 \<and> c \<le> 32) p"

section \<open>Numbers\<close>

definition INT_MAX :: int where "INT_MAX = 2147483647"
definition INT_MIN :: int where "INT_MIN = -2147483648"

text \<open>The conversion to \<open>int\<close>, which stays at the bounds outside of the range as the target's does.\<close>

definition double_to_int :: "rat \<Rightarrow> int" where
  "double_to_int d = max INT_MIN (min INT_MAX (to_int d))"

definition digits_acc :: "rat \<Rightarrow> byte list \<Rightarrow> rat" where
  "digits_acc n ds = foldl (\<lambda>n c. f64 (f64 (n * 10) + of_nat (unat c - 48))) n ds"

definition pow10 :: "int \<Rightarrow> rat" where
  "pow10 k = f64 (10 powi k)"

definition number_item :: "rat \<Rightarrow> cJSON" where
  "number_item d = Item cJSON_Number [] None (double_to_int d) d None"

definition number_int :: "byte list \<Rightarrow> rat \<times> byte list" where
  "number_int num = (let num = (if at0 num = 48 then drop 1 num else num) in
     if 49 \<le> at0 num \<and> at0 num \<le> 57 then (digits_acc 0 (takeWhile isdigit num), dropWhile isdigit num) else (0, num))"

definition number_frac :: "rat \<Rightarrow> byte list \<Rightarrow> rat \<times> int \<times> byte list" where
  "number_frac n num =
     (if at0 num = 46 \<and> isdigit (at0 (drop 1 num))
      then (digits_acc n (takeWhile isdigit (drop 1 num)), - int (length (takeWhile isdigit (drop 1 num))), dropWhile isdigit (drop 1 num))
      else (n, 0, num))"

definition number_exp :: "byte list \<Rightarrow> int \<times> byte list" where
  "number_exp num =
     (if at0 num = 101 \<or> at0 num = 69
      then let num = drop 1 num;
               (ss, num) = (if at0 num = 43 then (1, drop 1 num) else if at0 num = 45 then (-1, drop 1 num) else (1, num))
           in (ss * int (digits_value (takeWhile isdigit num)), dropWhile isdigit num)
      else (0, num))"

definition parse_number :: "byte list \<Rightarrow> cJSON \<times> byte list" where
  "parse_number num =
     (let (sgn, num) = (if at0 num = 45 then (-1, drop 1 num) else (1, num));
          (n, num) = number_int num;
          (n, scale, num) = number_frac n num;
          (subscale, num) = number_exp num
      in (number_item (f64 (sgn * n * pow10 (scale + subscale))), num))"

text \<open>The conversions \<open>%d\<close>, \<open>%.0f\<close>, \<open>%f\<close> and \<open>%e\<close>, from the exact value.\<close>

definition fmt_d :: "int \<Rightarrow> byte list" where
  "fmt_d i = (if i < 0 then 45 # str (udec (nat (- i))) else str (udec (nat i)))"

definition pad0 :: "nat \<Rightarrow> byte list \<Rightarrow> byte list" where
  "pad0 k ds = replicate (k - length ds) 48 @ ds"

definition fmt_f0 :: "rat \<Rightarrow> byte list" where
  "fmt_f0 d = (if d < 0 then [45] else []) @ str (udec (nat (round_even \<bar>d\<bar>)))"

definition fmt_f :: "rat \<Rightarrow> byte list" where
  "fmt_f d = (let m = nat (round_even (\<bar>d\<bar> * 1000000)) in
     (if d < 0 then [45] else []) @ str (udec (m div 1000000)) @ 46 # pad0 6 (str (udec (m mod 1000000))))"

fun exp10 :: "nat \<Rightarrow> rat \<Rightarrow> int" where
  "exp10 0 q = 0"
| "exp10 (Suc k) q = (if q < 1 then exp10 k (q * 10) - 1 else if q \<ge> 10 then exp10 k (q / 10) + 1 else 0)"

definition fmt_e :: "rat \<Rightarrow> byte list" where
  "fmt_e d = (let e = exp10 400 \<bar>d\<bar>; m = nat (round_even (\<bar>d\<bar> / 10 powi e * 1000000));
                  (e, m) = (if m = 10000000 then (e + 1, 1000000) else (e, m)) in
     (if d < 0 then [45] else []) @ str (udec (m div 1000000)) @ 46 # pad0 6 (str (udec (m mod 1000000))) @ 101 #
     (if e < 0 then 45 else 43) # pad0 2 (str (udec (nat \<bar>e\<bar>))))"

definition DBL_EPSILON :: rat where "DBL_EPSILON = 1 / 2 ^ 52"

text \<open>A text written into a block of \<open>room\<close> octets, with its terminator.\<close>

definition put_text :: "nat \<Rightarrow> byte list \<Rightarrow> (unit, byte list) outcome" where
  "put_text room t = (if length t < room then Ok t else Over)"

text \<open>The size of the block for a number and the text written into it.\<close>

definition number_parts :: "cJSON \<Rightarrow> nat \<times> byte list" where
  "number_parts item =
     (let d = valuedouble item in
      if d = 0 then (2, [48])
      else if \<bar>f64 (of_int (valueint item) - d)\<bar> \<le> DBL_EPSILON \<and> d \<le> of_int INT_MAX \<and> d \<ge> of_int INT_MIN then (21, fmt_d (valueint item))
      else (64,
        if \<bar>f64 (of_int \<lfloor>d\<rfloor> - d)\<bar> \<le> DBL_EPSILON \<and> \<bar>d\<bar> < f64 (10 ^ 60) then fmt_f0 d
        else if \<bar>d\<bar> < f64 (1 / 1000000) \<or> \<bar>d\<bar> > 1000000000 then fmt_e d
        else fmt_f d))"

definition print_number :: "cJSON \<Rightarrow> (unit, byte list) outcome" where
  "print_number item = (let (room, t) = number_parts item in put_text room t)"

section \<open>Strings\<close>

definition hex_digit :: "byte \<Rightarrow> u32 option" where
  "hex_digit c = (if 48 \<le> c \<and> c \<le> 57 then Some (ucast c - 48) else if 65 \<le> c \<and> c \<le> 70 then Some (10 + ucast c - 65)
     else if 97 \<le> c \<and> c \<le> 102 then Some (10 + ucast c - 97) else None)"

definition parse_hex4 :: "byte list \<Rightarrow> u32" where
  "parse_hex4 p = (case hex_digit (at0 p) of None \<Rightarrow> 0 | Some a \<Rightarrow>
     (case hex_digit (at0 (drop 1 p)) of None \<Rightarrow> 0 | Some b \<Rightarrow>
     (case hex_digit (at0 (drop 2 p)) of None \<Rightarrow> 0 | Some c \<Rightarrow>
     (case hex_digit (at0 (drop 3 p)) of None \<Rightarrow> 0 | Some d \<Rightarrow>
       push_bit 4 (push_bit 4 (push_bit 4 a + b) + c) + d))))"

definition firstByteMark :: "byte list" where
  "firstByteMark = [0x00, 0x00, 0xC0, 0xE0, 0xF0, 0xF8, 0xFC]"

definition utf8_len :: "u32 \<Rightarrow> nat" where
  "utf8_len uc = (if uc < 0x80 then 1 else if uc < 0x800 then 2 else if uc < 0x10000 then 3 else 4)"

text \<open>The octets are written from the last to the first, six bits at a time.\<close>

fun utf8_back :: "nat \<Rightarrow> nat \<Rightarrow> u32 \<Rightarrow> byte list \<Rightarrow> byte list" where
  "utf8_back n 0 uc acc = acc"
| "utf8_back n (Suc 0) uc acc = (ucast uc OR firstByteMark ! n) # acc"
| "utf8_back n (Suc k) uc acc = utf8_back n k (drop_bit 6 uc) (ucast ((uc OR 0x80) AND 0xBF) # acc)"

definition utf8 :: "u32 \<Rightarrow> byte list" where
  "utf8 uc = utf8_back (utf8_len uc) (utf8_len uc) uc []"

text \<open>The length of the string counted before it is copied: an escape counts as one character, and the character behind a backslash is skipped whatever it is.\<close>

function count_chars :: "byte list \<Rightarrow> (byte list, nat) outcome" where
  "count_chars p = (if at0 p = 34 \<or> p = [] then Ok 0
     else if at0 p = 92 then (if length p < 2 then Over else bind_outcome (count_chars (drop 2 p)) (\<lambda>n. Ok (n + 1)))
     else bind_outcome (count_chars (drop 1 p)) (\<lambda>n. Ok (n + 1)))"
  by pat_completeness auto
termination
  by (relation "measure length") auto

declare count_chars.simps [simp del]

text \<open>One escape, with the pointer at the character behind the backslash: the octets it stands for and the pointer to the last character that belongs to it.\<close>

definition escape_u :: "byte list \<Rightarrow> (byte list, byte list \<times> byte list) outcome" where
  "escape_u p =
     (let uc = parse_hex4 (drop 1 p) in
      bind_outcome (adv 4 p) (\<lambda>p.
      if (0xDC00 \<le> uc \<and> uc \<le> 0xDFFF) \<or> uc = 0 then Ok ([], p)
      else if 0xD800 \<le> uc \<and> uc \<le> 0xDBFF then
        (if at0 (drop 1 p) \<noteq> 92 \<or> at0 (drop 2 p) \<noteq> 117 then Ok ([], p)
         else let uc2 = parse_hex4 (drop 3 p) in
           bind_outcome (adv 6 p) (\<lambda>p.
           if uc2 < 0xDC00 \<or> 0xDFFF < uc2 then Ok ([], p)
           else Ok (utf8 (0x10000 + (push_bit 10 (uc AND 0x3FF) OR (uc2 AND 0x3FF))), p)))
      else Ok (utf8 uc, p)))"

definition parse_escape :: "byte list \<Rightarrow> (byte list, byte list \<times> byte list) outcome" where
  "parse_escape p =
     (if at0 p = 98 then Ok ([8], p) else if at0 p = 102 then Ok ([12], p) else if at0 p = 110 then Ok ([10], p)
      else if at0 p = 114 then Ok ([13], p) else if at0 p = 116 then Ok ([9], p) else if at0 p = 117 then escape_u p
      else Ok ([at0 p], p))"

text \<open>The loop that copies, into a block of \<open>room\<close> octets of which \<open>out\<close> are written; \<open>fuel\<close> bounds its rounds.\<close>

fun copy_chars :: "nat \<Rightarrow> nat \<Rightarrow> byte list \<Rightarrow> byte list \<Rightarrow> (byte list, byte list \<times> byte list) outcome" where
  "copy_chars 0 room out p = Over"
| "copy_chars (Suc fuel) room out p =
     (if at0 p = 34 \<or> p = [] then (if length out < room then Ok (out, p) else Over)
      else if at0 p \<noteq> 92 then (if length out < room then copy_chars fuel room (out @ [at0 p]) (drop 1 p) else Over)
      else bind_outcome (parse_escape (drop 1 p)) (\<lambda>(cs, p).
        if room < length out + length cs then Over else bind_outcome (adv 1 p) (copy_chars fuel room (out @ cs))))"

definition parse_string :: "byte list \<Rightarrow> (byte list, byte list \<times> byte list) outcome" where
  "parse_string p =
     (if at0 p \<noteq> 34 then Fail p
      else bind_outcome (count_chars (drop 1 p)) (\<lambda>len.
        bind_outcome (copy_chars (length p) (len + 1) [] (drop 1 p)) (\<lambda>(out, p).
          Ok (out, if at0 p = 34 then drop 1 p else p))))"

definition string_item :: "byte list \<Rightarrow> cJSON" where
  "string_item s = Item cJSON_String [] (Some s) 0 0 None"

text \<open>Writing a string.\<close>

definition special :: "byte \<Rightarrow> bool" where
  "special c \<longleftrightarrow> (0 < c \<and> c < 32) \<or> c = 34 \<or> c = 92"

definition short_escape :: "byte \<Rightarrow> byte option" where
  "short_escape c = (if c = 92 then Some 92 else if c = 34 then Some 34 else if c = 8 then Some 98 else if c = 12 then Some 102
     else if c = 10 then Some 110 else if c = 13 then Some 114 else if c = 9 then Some 116 else None)"

definition hex_lower :: "byte \<Rightarrow> byte" where
  "hex_lower d = (if d < 10 then 48 + d else 87 + d)"

definition escape_char :: "byte \<Rightarrow> byte list" where
  "escape_char c = (if 31 < c \<and> c \<noteq> 34 \<and> c \<noteq> 92 then [c]
     else (case short_escape c of Some e \<Rightarrow> [92, e] | None \<Rightarrow> [92, 117, 48, 48, hex_lower (drop_bit 4 c), hex_lower (c AND 15)]))"

definition escaped_len :: "byte list \<Rightarrow> nat" where
  "escaped_len s = sum_list (map (\<lambda>c. if short_escape c \<noteq> None then 2 else if c < 32 then 6 else 1) s)"

text \<open>The size of the block for a string and the text written into it: a string without special characters is copied.\<close>

definition string_parts :: "byte list \<Rightarrow> nat \<times> byte list" where
  "string_parts s =
     (if \<not> list_ex special s then (length s + 3, 34 # s @ [34])
      else (escaped_len s + 3, 34 # concat (map escape_char s) @ [34]))"

text \<open>A null pointer is read before it is tested.\<close>

definition print_string_ptr :: "byte list option \<Rightarrow> (unit, byte list) outcome" where
  "print_string_ptr sp = (case sp of None \<Rightarrow> Over | Some s \<Rightarrow> (let (room, t) = string_parts s in put_text room t))"

section \<open>Values\<close>

text \<open>
  Values, arrays and objects call each other: the functions for the latter two take the one for values as an argument. \<open>n\<close> bounds the nesting and the number of
  values of an array or object; the length of the text is always enough.
\<close>

type_synonym parser = "byte list \<Rightarrow> (byte list, cJSON \<times> byte list) outcome"

fun parse_items :: "parser \<Rightarrow> nat \<Rightarrow> cJSON list \<Rightarrow> byte list \<Rightarrow> (byte list, cJSON list \<times> byte list) outcome" where
  "parse_items pv 0 cs value = Over"
| "parse_items pv (Suc n) cs value =
     bind_outcome (pv (skip value)) (\<lambda>(c, p).
       let p = skip p in if at0 p = 44 then parse_items pv n (cs @ [c]) (drop 1 p) else Ok (cs @ [c], p))"

definition parse_array :: "parser \<Rightarrow> nat \<Rightarrow> parser" where
  "parse_array pv n value =
     (if at0 value \<noteq> 91 then Fail value
      else let value = skip (drop 1 value) in
        if at0 value = 93 then Ok (Item cJSON_Array [] None 0 0 None, drop 1 value)
        else bind_outcome (parse_items pv n [] value) (\<lambda>(cs, value).
          if at0 value = 93 then Ok (Item cJSON_Array cs None 0 0 None, drop 1 value) else Fail value))"

fun parse_members :: "parser \<Rightarrow> nat \<Rightarrow> cJSON list \<Rightarrow> byte list \<Rightarrow> (byte list, cJSON list \<times> byte list) outcome" where
  "parse_members pv 0 cs value = Over"
| "parse_members pv (Suc n) cs value =
     bind_outcome (parse_string (skip value)) (\<lambda>(s, p).
       let p = skip p in
       if at0 p \<noteq> 58 then Fail p
       else bind_outcome (pv (skip (drop 1 p))) (\<lambda>(c, p).
         let p = skip p; c = set_name (Some s) c in
         if at0 p = 44 then parse_members pv n (cs @ [c]) (drop 1 p) else Ok (cs @ [c], p)))"

definition parse_object :: "parser \<Rightarrow> nat \<Rightarrow> parser" where
  "parse_object pv n value =
     (if at0 value \<noteq> 123 then Fail value
      else let value = skip (drop 1 value) in
        if at0 value = 125 then Ok (Item cJSON_Object [] None 0 0 None, drop 1 value)
        else bind_outcome (parse_members pv n [] value) (\<lambda>(cs, value).
          if at0 value = 125 then Ok (Item cJSON_Object cs None 0 0 None, drop 1 value) else Fail value))"

fun parse_value :: "nat \<Rightarrow> parser" where
  "parse_value 0 value = Over"
| "parse_value (Suc n) value =
     (if take 4 value = str ''null'' then Ok (Item cJSON_NULL [] None 0 0 None, drop 4 value)
      else if take 5 value = str ''false'' then Ok (Item cJSON_False [] None 0 0 None, drop 5 value)
      else if take 4 value = str ''true'' then Ok (Item cJSON_True [] None 1 0 None, drop 4 value)
      else if at0 value = 34 then bind_outcome (parse_string value) (\<lambda>(s, p). Ok (string_item s, p))
      else if at0 value = 45 \<or> (48 \<le> at0 value \<and> at0 value \<le> 57) then Ok (parse_number value)
      else if at0 value = 91 then parse_array (parse_value n) n value
      else if at0 value = 123 then parse_object (parse_value n) n value
      else Fail value)"

definition parse_fuel :: "byte list \<Rightarrow> nat" where
  "parse_fuel t = length t + 1"

definition cJSON_ParseWithOpts :: "byte list \<Rightarrow> bool \<Rightarrow> (byte list, cJSON \<times> byte list) outcome" where
  "cJSON_ParseWithOpts value require_null_terminated =
     bind_outcome (parse_value (parse_fuel value) (skip value)) (\<lambda>(c, e).
       if require_null_terminated then (let e = skip e in if e \<noteq> [] then Fail e else Ok (c, e)) else Ok (c, e))"

definition cJSON_Parse :: "byte list \<Rightarrow> (byte list, cJSON) outcome" where
  "cJSON_Parse value = bind_outcome (cJSON_ParseWithOpts value False) (\<lambda>(c, e). Ok c)"

text \<open>
  Writing a value. The texts of the children are collected, the length of the result is added up from them, and the result is composed in a block of that
  length. An array stops at the first child that cannot be written, an object goes on and fails at the end.
\<close>

definition tabs :: "nat \<Rightarrow> byte list" where
  "tabs n = replicate n 9"

definition compose_array :: "bool \<Rightarrow> byte list list \<Rightarrow> (unit, byte list) outcome" where
  "compose_array fmt entries =
     (if entries = [] then put_text 3 [91, 93]
      else put_text (5 + sum_list (map (\<lambda>e. length e + 2 + (if fmt then 1 else 0)) entries))
        (91 # concat (map (\<lambda>e. e @ 44 # (if fmt then [32] else [])) (butlast entries)) @ last entries @ [93]))"

definition member_text :: "bool \<Rightarrow> nat \<Rightarrow> byte list \<times> byte list \<Rightarrow> byte list" where
  "member_text fmt depth e = (if fmt then tabs depth else []) @ fst e @ 58 # (if fmt then [9] else []) @ snd e"

text \<open>\<open>depth\<close> is that of the object.\<close>

definition compose_object :: "bool \<Rightarrow> nat \<Rightarrow> (byte list \<times> byte list) list \<Rightarrow> (unit, byte list) outcome" where
  "compose_object fmt depth entries =
     (if entries = [] then put_text (if fmt then depth + 4 else 3) (123 # (if fmt then 10 # tabs (depth - 1) else []) @ [125])
      else let depth = depth + 1; nl = (if fmt then [10] else []) in
        put_text (7 + (if fmt then depth else 0) + sum_list (map (\<lambda>e. length (snd e) + length (fst e) + 2 + (if fmt then 2 + depth else 0)) entries))
          (123 # nl @ concat (map (\<lambda>e. member_text fmt depth e @ 44 # nl) (butlast entries)) @ member_text fmt depth (last entries) @ nl @
           (if fmt then tabs (depth - 1) else []) @ [125]))"

fun collect_array :: "(unit, byte list) outcome list \<Rightarrow> (unit, byte list list) outcome" where
  "collect_array [] = Ok []"
| "collect_array (r # rs) = bind_outcome r (\<lambda>e. bind_outcome (collect_array rs) (\<lambda>es. Ok (e # es)))"

fun collect_object :: "((unit, byte list) outcome \<times> (unit, byte list) outcome) list \<Rightarrow> (unit, (byte list \<times> byte list) list) outcome" where
  "collect_object [] = Ok []"
| "collect_object ((n, v) # rs) = (case (n, v, collect_object rs) of
     (Over, _, _) \<Rightarrow> Over | (_, Over, _) \<Rightarrow> Over | (_, _, Over) \<Rightarrow> Over
   | (Ok n, Ok v, Ok es) \<Rightarrow> Ok ((n, v) # es) | _ \<Rightarrow> Fail ())"

fun print_value :: "cJSON \<Rightarrow> nat \<Rightarrow> bool \<Rightarrow> (unit, byte list) outcome" where
  "print_value (Item t cs vs vi vd nm) depth fmt =
     (let ty = t mod 256 in
      if ty = cJSON_NULL then Ok (str ''null'')
      else if ty = cJSON_False then Ok (str ''false'')
      else if ty = cJSON_True then Ok (str ''true'')
      else if ty = cJSON_Number then print_number (Item t cs vs vi vd nm)
      else if ty = cJSON_String then print_string_ptr vs
      else if ty = cJSON_Array then bind_outcome (collect_array (map (\<lambda>c. print_value c (depth + 1) fmt) cs)) (compose_array fmt)
      else if ty = cJSON_Object then
        bind_outcome (collect_object (map (\<lambda>c. (print_string_ptr (jstring c), print_value c (depth + 1) fmt)) cs)) (compose_object fmt depth)
      else Fail ())"

definition cJSON_Print :: "cJSON \<Rightarrow> (unit, byte list) outcome" where
  "cJSON_Print item = print_value item 0 True"

definition cJSON_PrintUnformatted :: "cJSON \<Rightarrow> (unit, byte list) outcome" where
  "cJSON_PrintUnformatted item = print_value item 0 False"

section \<open>Removing blanks and comments\<close>

definition minify_blank :: "byte \<Rightarrow> bool" where
  "minify_blank c \<longleftrightarrow> c = 32 \<or> c = 9 \<or> c = 13 \<or> c = 10"

text \<open>The text behind a comment that ends in \<open>*\<close> and \<open>/\<close>; without the end the pointer leaves the text.\<close>

fun comment_end :: "byte list \<Rightarrow> (byte list, byte list) outcome" where
  "comment_end [] = Over"
| "comment_end (c # p) = (if c = 42 \<and> at0 p = 47 then Ok (drop 1 p) else comment_end p)"

text \<open>The rest of a string literal up to and with its quote, and what follows.\<close>

fun literal_end :: "byte list \<Rightarrow> (byte list, byte list \<times> byte list) outcome" where
  "literal_end [] = Over"
| "literal_end (c # p) =
     (if c = 34 then Ok ([34], p)
      else if c = 92 then (case p of [] \<Rightarrow> Over | e # q \<Rightarrow> bind_outcome (literal_end q) (\<lambda>(l, r). Ok (92 # e # l, r)))
      else bind_outcome (literal_end p) (\<lambda>(l, r). Ok (c # l, r)))"

lemma comment_end_shorter: "comment_end p = Ok q \<Longrightarrow> length q < length p"
  by (induction p) (auto split: if_splits)

lemma literal_end_shorter: "literal_end p = Ok (l, q) \<Longrightarrow> length q < length p"
proof (induction p arbitrary: l q rule: literal_end.induct)
  case (2 c p)
  then show ?case
    by (cases "c = 34"; cases "c = 92"; cases p; cases "literal_end p"; cases "literal_end (tl p)") (fastforce split: list.splits prod.splits)+
qed simp

function cJSON_Minify :: "byte list \<Rightarrow> (byte list, byte list) outcome" where
  "cJSON_Minify json =
     (if json = [] then Ok []
      else if minify_blank (at0 json) then cJSON_Minify (drop 1 json)
      else if at0 json = 47 \<and> at0 (drop 1 json) = 47 then cJSON_Minify (dropWhile (\<lambda>c. c \<noteq> 10) json)
      else if at0 json = 47 \<and> at0 (drop 1 json) = 42 then (case comment_end json of Ok p \<Rightarrow> cJSON_Minify p | Fail e \<Rightarrow> Fail e | Over \<Rightarrow> Over)
      else if at0 json = 34 then
        (case literal_end (drop 1 json) of
           Ok (l, p) \<Rightarrow> bind_outcome (cJSON_Minify p) (\<lambda>r. Ok (34 # l @ r)) | Fail e \<Rightarrow> Fail e | Over \<Rightarrow> Over)
      else bind_outcome (cJSON_Minify (drop 1 json)) (\<lambda>r. Ok (at0 json # r)))"
  by pat_completeness auto
termination
proof (relation "measure length", goal_cases)
  case (3 json)
  then show ?case by (cases json) (auto simp: at0_def length_dropWhile_le le_imp_less_Suc)
next
  case (4 json p)
  then show ?case using comment_end_shorter by simp
next
  case (5 json x l p)
  then show ?case using literal_end_shorter [of "drop 1 json"] by (cases json) (auto simp: at0_def)
qed auto

declare cJSON_Minify.simps [simp del]

end
