(* ===== verification/CjsonItems.thy ===== *)
theory CjsonItems
  imports DList CTokens Cjson
begin

text \<open>
  The items of a JSON value as the program keeps them (\<open>c_advanced/02_cJSON/cJSON.c\<close>): structures on the heap, chained through \<open>next\<close> and \<open>prev\<close>, with a
  pointer to the first child and pointers to strings in blocks of their own. Following a pointer that is null or released, and releasing a block twice, fails as
  \<open>None\<close>. \<open>malloc\<close> gives blocks that were never used before.
\<close>

section \<open>Memory\<close>

record jnode =
  j_next :: ptr
  j_prev :: ptr
  j_child :: ptr
  j_type :: u32
  j_valuestring :: ptr
  j_valueint :: int
  j_valuedouble :: rat
  j_string :: ptr

text \<open>The functions used for allocating and releasing, exchanged by the caller: a missing one is that of the C library.\<close>

definition cJSON_InitHooks :: "('m option \<times> 'f option) option \<Rightarrow> 'm \<Rightarrow> 'f \<Rightarrow> 'm \<times> 'f" where
  "cJSON_InitHooks hooks malloc free = (case hooks of None \<Rightarrow> (malloc, free) | Some (m, f) \<Rightarrow> (case_option malloc id m, case_option free id f))"

record jmem =
  j_items :: "jnode heap"
  j_strs :: "byte list heap"
  j_brk :: nat

definition cJSON_IsReference :: u32 where "cJSON_IsReference = 256"
definition cJSON_StringIsConst :: u32 where "cJSON_StringIsConst = 512"

definition new_node :: jnode where
  "new_node = \<lparr>j_next = None, j_prev = None, j_child = None, j_type = 0, j_valuestring = None, j_valueint = 0, j_valuedouble = 0, j_string = None\<rparr>"

definition New_Item :: "jmem \<Rightarrow> nat \<times> jmem" where
  "New_Item m = (j_brk m, m\<lparr>j_items := (j_items m)(j_brk m \<mapsto> new_node), j_brk := j_brk m + 1\<rparr>)"

definition cJSON_strdup :: "byte list \<Rightarrow> jmem \<Rightarrow> nat \<times> jmem" where
  "cJSON_strdup s m = (j_brk m, m\<lparr>j_strs := (j_strs m)(j_brk m \<mapsto> s), j_brk := j_brk m + 1\<rparr>)"

definition free_str :: "ptr \<Rightarrow> jmem \<Rightarrow> jmem option" where
  "free_str p m = do { a \<leftarrow> p; s \<leftarrow> j_strs m a; Some (m\<lparr>j_strs := (j_strs m)(a := None)\<rparr>) }"

definition free_item :: "ptr \<Rightarrow> jmem \<Rightarrow> jmem option" where
  "free_item p m = do { a \<leftarrow> p; n \<leftarrow> j_items m a; Some (m\<lparr>j_items := (j_items m)(a := None)\<rparr>) }"

definition set_item :: "ptr \<Rightarrow> (jnode \<Rightarrow> jnode) \<Rightarrow> jmem \<Rightarrow> jmem option" where
  "set_item p f m = do { h \<leftarrow> assign p f (j_items m); Some (m\<lparr>j_items := h\<rparr>) }"

definition is_ref :: "jnode \<Rightarrow> bool" where
  "is_ref n \<longleftrightarrow> j_type n AND cJSON_IsReference \<noteq> 0"

definition is_const :: "jnode \<Rightarrow> bool" where
  "is_const n \<longleftrightarrow> j_type n AND cJSON_StringIsConst \<noteq> 0"

partial_function (option) cJSON_Delete :: "ptr \<Rightarrow> jmem \<Rightarrow> jmem option" where
  "cJSON_Delete c m =
     (if c = None then Some m
      else do {
        n \<leftarrow> deref (j_items m) c;
        m \<leftarrow> (if \<not> is_ref n \<and> j_child n \<noteq> None then cJSON_Delete (j_child n) m else Some m);
        n' \<leftarrow> deref (j_items m) c;
        m \<leftarrow> (if \<not> is_ref n' \<and> j_valuestring n' \<noteq> None then free_str (j_valuestring n') m else Some m);
        m \<leftarrow> (if \<not> is_const n' \<and> j_string n' \<noteq> None then free_str (j_string n') m else Some m);
        m \<leftarrow> free_item c m;
        cJSON_Delete (j_next n) m
      })"

section \<open>Looking at a list\<close>

fun casecmp :: "byte list \<Rightarrow> byte list \<Rightarrow> int" where
  "casecmp [] [] = 0"
| "casecmp [] (d # t) = (if tolower 0 = tolower d then 0 else uint (tolower 0) - uint (tolower d))"
| "casecmp (c # s) [] = (if tolower c = tolower 0 then 0 else uint (tolower c) - uint (tolower 0))"
| "casecmp (c # s) (d # t) = (if tolower c = tolower d then (if c = 0 then 0 else casecmp s t) else uint (tolower c) - uint (tolower d))"

definition cJSON_strcasecmp :: "byte list option \<Rightarrow> byte list option \<Rightarrow> int" where
  "cJSON_strcasecmp s1 s2 = (case s1 of None \<Rightarrow> (if s2 = None then 0 else 1) | Some s \<Rightarrow> (case s2 of None \<Rightarrow> 1 | Some t \<Rightarrow> casecmp s t))"

text \<open>What a string pointer points to; a null pointer is allowed.\<close>

definition string_at :: "jmem \<Rightarrow> ptr \<Rightarrow> byte list option option" where
  "string_at m p = (case p of None \<Rightarrow> Some None | Some a \<Rightarrow> map_option Some (j_strs m a))"

partial_function (option) count_items :: "jmem \<Rightarrow> ptr \<Rightarrow> int \<Rightarrow> int option" where
  "count_items m c i = (if c = None then Some i else do { n \<leftarrow> deref (j_items m) c; count_items m (j_next n) (i + 1) })"

definition cJSON_GetArraySize :: "ptr \<Rightarrow> jmem \<Rightarrow> int option" where
  "cJSON_GetArraySize array m = do { n \<leftarrow> deref (j_items m) array; count_items m (j_child n) 0 }"

partial_function (option) walk_items :: "jmem \<Rightarrow> ptr \<Rightarrow> int \<Rightarrow> ptr option" where
  "walk_items m c item = (if c = None \<or> item \<le> 0 then Some c else do { n \<leftarrow> deref (j_items m) c; walk_items m (j_next n) (item - 1) })"

definition cJSON_GetArrayItem :: "ptr \<Rightarrow> int \<Rightarrow> jmem \<Rightarrow> ptr option" where
  "cJSON_GetArrayItem array item m = do { n \<leftarrow> deref (j_items m) array; walk_items m (j_child n) item }"

text \<open>The position and the item with the name, in the search of the three functions that look for one.\<close>

partial_function (option) find_name :: "jmem \<Rightarrow> byte list \<Rightarrow> ptr \<Rightarrow> int \<Rightarrow> (int \<times> ptr) option" where
  "find_name m name c i =
     (if c = None then Some (i, None)
      else do {
        n \<leftarrow> deref (j_items m) c;
        s \<leftarrow> string_at m (j_string n);
        if cJSON_strcasecmp s (Some name) = 0 then Some (i, c) else find_name m name (j_next n) (i + 1)
      })"

definition cJSON_GetObjectItem :: "ptr \<Rightarrow> byte list \<Rightarrow> jmem \<Rightarrow> ptr option" where
  "cJSON_GetObjectItem object name m = do { n \<leftarrow> deref (j_items m) object; (i, c) \<leftarrow> find_name m name (j_child n) 0; Some c }"

section \<open>Changing a list\<close>

definition suffix_object :: "ptr \<Rightarrow> ptr \<Rightarrow> jmem \<Rightarrow> jmem option" where
  "suffix_object prv item m = do { m \<leftarrow> set_item prv (\<lambda>n. n\<lparr>j_next := item\<rparr>) m; set_item item (\<lambda>n. n\<lparr>j_prev := prv\<rparr>) m }"

definition create_reference :: "ptr \<Rightarrow> jmem \<Rightarrow> (nat \<times> jmem) option" where
  "create_reference item m = do {
     n \<leftarrow> deref (j_items m) item;
     (ref, m) \<leftarrow> Some (New_Item m);
     m \<leftarrow> set_item (Some ref) (\<lambda>_. n\<lparr>j_string := None, j_type := j_type n OR cJSON_IsReference, j_next := None, j_prev := None\<rparr>) m;
     Some (ref, m)
   }"

partial_function (option) last_item :: "jmem \<Rightarrow> ptr \<Rightarrow> ptr option" where
  "last_item m c = do { n \<leftarrow> deref (j_items m) c; if j_next n = None then Some c else last_item m (j_next n) }"

definition cJSON_AddItemToArray :: "ptr \<Rightarrow> ptr \<Rightarrow> jmem \<Rightarrow> jmem option" where
  "cJSON_AddItemToArray array item m = do {
     n \<leftarrow> deref (j_items m) array;
     if item = None then Some m
     else if j_child n = None then set_item array (\<lambda>n. n\<lparr>j_child := item\<rparr>) m
     else do { c \<leftarrow> last_item m (j_child n); suffix_object c item m }
   }"

definition cJSON_AddItemToObject :: "ptr \<Rightarrow> byte list \<Rightarrow> ptr \<Rightarrow> jmem \<Rightarrow> jmem option" where
  "cJSON_AddItemToObject object name item m =
     (if item = None then Some m
      else do {
        n \<leftarrow> deref (j_items m) item;
        m \<leftarrow> (if j_string n \<noteq> None then free_str (j_string n) m else Some m);
        (s, m) \<leftarrow> Some (cJSON_strdup name m);
        m \<leftarrow> set_item item (\<lambda>n. n\<lparr>j_string := Some s\<rparr>) m;
        cJSON_AddItemToArray object item m
      })"

text \<open>Here the name is a string of the caller's, given by its address.\<close>

definition cJSON_AddItemToObjectCS :: "ptr \<Rightarrow> ptr \<Rightarrow> ptr \<Rightarrow> jmem \<Rightarrow> jmem option" where
  "cJSON_AddItemToObjectCS object name item m =
     (if item = None then Some m
      else do {
        n \<leftarrow> deref (j_items m) item;
        m \<leftarrow> (if \<not> is_const n \<and> j_string n \<noteq> None then free_str (j_string n) m else Some m);
        m \<leftarrow> set_item item (\<lambda>n. n\<lparr>j_string := name, j_type := j_type n OR cJSON_StringIsConst\<rparr>) m;
        cJSON_AddItemToArray object item m
      })"

definition cJSON_AddItemReferenceToArray :: "ptr \<Rightarrow> ptr \<Rightarrow> jmem \<Rightarrow> jmem option" where
  "cJSON_AddItemReferenceToArray array item m = do { (r, m) \<leftarrow> create_reference item m; cJSON_AddItemToArray array (Some r) m }"

definition cJSON_AddItemReferenceToObject :: "ptr \<Rightarrow> byte list \<Rightarrow> ptr \<Rightarrow> jmem \<Rightarrow> jmem option" where
  "cJSON_AddItemReferenceToObject object name item m = do { (r, m) \<leftarrow> create_reference item m; cJSON_AddItemToObject object name (Some r) m }"

definition cJSON_DetachItemFromArray :: "ptr \<Rightarrow> int \<Rightarrow> jmem \<Rightarrow> (ptr \<times> jmem) option" where
  "cJSON_DetachItemFromArray array which m = do {
     a \<leftarrow> deref (j_items m) array;
     c \<leftarrow> walk_items m (j_child a) which;
     if c = None then Some (None, m)
     else do {
       n \<leftarrow> deref (j_items m) c;
       m \<leftarrow> (if j_prev n \<noteq> None then set_item (j_prev n) (\<lambda>x. x\<lparr>j_next := j_next n\<rparr>) m else Some m);
       n \<leftarrow> deref (j_items m) c;
       m \<leftarrow> (if j_next n \<noteq> None then set_item (j_next n) (\<lambda>x. x\<lparr>j_prev := j_prev n\<rparr>) m else Some m);
       a \<leftarrow> deref (j_items m) array;
       n \<leftarrow> deref (j_items m) c;
       m \<leftarrow> (if c = j_child a then set_item array (\<lambda>x. x\<lparr>j_child := j_next n\<rparr>) m else Some m);
       m \<leftarrow> set_item c (\<lambda>x. x\<lparr>j_next := None, j_prev := None\<rparr>) m;
       Some (c, m)
     }
   }"

definition cJSON_DeleteItemFromArray :: "ptr \<Rightarrow> int \<Rightarrow> jmem \<Rightarrow> jmem option" where
  "cJSON_DeleteItemFromArray array which m = do { (c, m) \<leftarrow> cJSON_DetachItemFromArray array which m; cJSON_Delete c m }"

definition cJSON_DetachItemFromObject :: "ptr \<Rightarrow> byte list \<Rightarrow> jmem \<Rightarrow> (ptr \<times> jmem) option" where
  "cJSON_DetachItemFromObject object name m = do {
     n \<leftarrow> deref (j_items m) object;
     (i, c) \<leftarrow> find_name m name (j_child n) 0;
     if c \<noteq> None then cJSON_DetachItemFromArray object i m else Some (None, m)
   }"

definition cJSON_DeleteItemFromObject :: "ptr \<Rightarrow> byte list \<Rightarrow> jmem \<Rightarrow> jmem option" where
  "cJSON_DeleteItemFromObject object name m = do { (c, m) \<leftarrow> cJSON_DetachItemFromObject object name m; cJSON_Delete c m }"

definition cJSON_InsertItemInArray :: "ptr \<Rightarrow> int \<Rightarrow> ptr \<Rightarrow> jmem \<Rightarrow> jmem option" where
  "cJSON_InsertItemInArray array which newitem m = do {
     a \<leftarrow> deref (j_items m) array;
     c \<leftarrow> walk_items m (j_child a) which;
     if c = None then cJSON_AddItemToArray array newitem m
     else do {
       m \<leftarrow> set_item newitem (\<lambda>x. x\<lparr>j_next := c\<rparr>) m;
       n \<leftarrow> deref (j_items m) c;
       m \<leftarrow> set_item newitem (\<lambda>x. x\<lparr>j_prev := j_prev n\<rparr>) m;
       m \<leftarrow> set_item c (\<lambda>x. x\<lparr>j_prev := newitem\<rparr>) m;
       a \<leftarrow> deref (j_items m) array;
       if c = j_child a then set_item array (\<lambda>x. x\<lparr>j_child := newitem\<rparr>) m
       else do { w \<leftarrow> deref (j_items m) newitem; set_item (j_prev w) (\<lambda>x. x\<lparr>j_next := newitem\<rparr>) m }
     }
   }"

definition cJSON_ReplaceItemInArray :: "ptr \<Rightarrow> int \<Rightarrow> ptr \<Rightarrow> jmem \<Rightarrow> jmem option" where
  "cJSON_ReplaceItemInArray array which newitem m = do {
     a \<leftarrow> deref (j_items m) array;
     c \<leftarrow> walk_items m (j_child a) which;
     if c = None then Some m
     else do {
       n \<leftarrow> deref (j_items m) c;
       m \<leftarrow> set_item newitem (\<lambda>x. x\<lparr>j_next := j_next n, j_prev := j_prev n\<rparr>) m;
       w \<leftarrow> deref (j_items m) newitem;
       m \<leftarrow> (if j_next w \<noteq> None then set_item (j_next w) (\<lambda>x. x\<lparr>j_prev := newitem\<rparr>) m else Some m);
       a \<leftarrow> deref (j_items m) array;
       m \<leftarrow> (if c = j_child a then set_item array (\<lambda>x. x\<lparr>j_child := newitem\<rparr>) m
         else do { w \<leftarrow> deref (j_items m) newitem; set_item (j_prev w) (\<lambda>x. x\<lparr>j_next := newitem\<rparr>) m });
       m \<leftarrow> set_item c (\<lambda>x. x\<lparr>j_next := None, j_prev := None\<rparr>) m;
       cJSON_Delete c m
     }
   }"

definition cJSON_ReplaceItemInObject :: "ptr \<Rightarrow> byte list \<Rightarrow> ptr \<Rightarrow> jmem \<Rightarrow> jmem option" where
  "cJSON_ReplaceItemInObject object name newitem m = do {
     n \<leftarrow> deref (j_items m) object;
     (i, c) \<leftarrow> find_name m name (j_child n) 0;
     if c \<noteq> None then do {
       (s, m) \<leftarrow> Some (cJSON_strdup name m);
       m \<leftarrow> set_item newitem (\<lambda>x. x\<lparr>j_string := Some s\<rparr>) m;
       cJSON_ReplaceItemInArray object i newitem m
     } else Some m
   }"

section \<open>Making items\<close>

definition create :: "(jnode \<Rightarrow> jnode) \<Rightarrow> jmem \<Rightarrow> nat \<times> jmem" where
  "create f m = (j_brk m, m\<lparr>j_items := (j_items m)(j_brk m \<mapsto> f new_node), j_brk := j_brk m + 1\<rparr>)"

definition cJSON_CreateNull :: "jmem \<Rightarrow> nat \<times> jmem" where "cJSON_CreateNull = create (\<lambda>n. n\<lparr>j_type := of_nat cJSON_NULL\<rparr>)"
definition cJSON_CreateTrue :: "jmem \<Rightarrow> nat \<times> jmem" where "cJSON_CreateTrue = create (\<lambda>n. n\<lparr>j_type := of_nat cJSON_True\<rparr>)"
definition cJSON_CreateFalse :: "jmem \<Rightarrow> nat \<times> jmem" where "cJSON_CreateFalse = create (\<lambda>n. n\<lparr>j_type := of_nat cJSON_False\<rparr>)"
definition cJSON_CreateBool :: "bool \<Rightarrow> jmem \<Rightarrow> nat \<times> jmem" where
  "cJSON_CreateBool b = create (\<lambda>n. n\<lparr>j_type := of_nat (if b then cJSON_True else cJSON_False)\<rparr>)"
definition cJSON_CreateNumber :: "rat \<Rightarrow> jmem \<Rightarrow> nat \<times> jmem" where
  "cJSON_CreateNumber num = create (\<lambda>n. n\<lparr>j_type := of_nat cJSON_Number, j_valuedouble := num, j_valueint := double_to_int num\<rparr>)"
definition cJSON_CreateString :: "byte list \<Rightarrow> jmem \<Rightarrow> nat \<times> jmem" where
  "cJSON_CreateString s m = (let (item, m) = create (\<lambda>n. n\<lparr>j_type := of_nat cJSON_String\<rparr>) m; (p, m) = cJSON_strdup s m in
     (item, m\<lparr>j_items := (j_items m)(item := map_option (\<lambda>n. n\<lparr>j_valuestring := Some p\<rparr>) (j_items m item))\<rparr>))"
definition cJSON_CreateArray :: "jmem \<Rightarrow> nat \<times> jmem" where "cJSON_CreateArray = create (\<lambda>n. n\<lparr>j_type := of_nat cJSON_Array\<rparr>)"
definition cJSON_CreateObject :: "jmem \<Rightarrow> nat \<times> jmem" where "cJSON_CreateObject = create (\<lambda>n. n\<lparr>j_type := of_nat cJSON_Object\<rparr>)"

text \<open>The loop of the four functions that make an array of numbers or strings: each item made is put behind the one before.\<close>

fun chain_items :: "nat \<Rightarrow> ptr \<Rightarrow> (jmem \<Rightarrow> nat \<times> jmem) list \<Rightarrow> jmem \<Rightarrow> jmem option" where
  "chain_items a p [] m = Some m"
| "chain_items a p (mk # mks) m = do {
     (n, m) \<leftarrow> Some (mk m);
     m \<leftarrow> (if p = None then set_item (Some a) (\<lambda>x. x\<lparr>j_child := Some n\<rparr>) m else suffix_object p (Some n) m);
     chain_items a (Some n) mks m
   }"

definition cJSON_CreateArrayOf :: "(jmem \<Rightarrow> nat \<times> jmem) list \<Rightarrow> jmem \<Rightarrow> (nat \<times> jmem) option" where
  "cJSON_CreateArrayOf mks m = do { (a, m) \<leftarrow> Some (cJSON_CreateArray m); m \<leftarrow> chain_items a None mks m; Some (a, m) }"

definition cJSON_CreateIntArray :: "int list \<Rightarrow> jmem \<Rightarrow> (nat \<times> jmem) option" where
  "cJSON_CreateIntArray numbers = cJSON_CreateArrayOf (map (\<lambda>i. cJSON_CreateNumber (of_int i)) numbers)"
definition cJSON_CreateDoubleArray :: "rat list \<Rightarrow> jmem \<Rightarrow> (nat \<times> jmem) option" where
  "cJSON_CreateDoubleArray numbers = cJSON_CreateArrayOf (map cJSON_CreateNumber numbers)"
definition cJSON_CreateStringArray :: "byte list list \<Rightarrow> jmem \<Rightarrow> (nat \<times> jmem) option" where
  "cJSON_CreateStringArray strings = cJSON_CreateArrayOf (map cJSON_CreateString strings)"

section \<open>Copying\<close>

definition dup_str :: "ptr \<Rightarrow> jmem \<Rightarrow> (ptr \<times> jmem) option" where
  "dup_str p m = (case p of None \<Rightarrow> Some (None, m) | Some a \<Rightarrow> do { s \<leftarrow> j_strs m a; let (q, m) = cJSON_strdup s m in Some (Some q, m) })"

definition dup_fields :: "nat \<Rightarrow> jmem \<Rightarrow> (nat \<times> jmem) option" where
  "dup_fields item m = do {
     n \<leftarrow> j_items m item;
     (w, m) \<leftarrow> Some (New_Item m);
     m \<leftarrow> set_item (Some w) (\<lambda>x. x\<lparr>j_type := j_type n AND NOT cJSON_IsReference, j_valueint := j_valueint n, j_valuedouble := j_valuedouble n\<rparr>) m;
     (vs, m) \<leftarrow> dup_str (j_valuestring n) m;
     m \<leftarrow> set_item (Some w) (\<lambda>x. x\<lparr>j_valuestring := vs\<rparr>) m;
     (nm, m) \<leftarrow> dup_str (j_string n) m;
     m \<leftarrow> set_item (Some w) (\<lambda>x. x\<lparr>j_string := nm\<rparr>) m;
     Some (w, m)
   }"

text \<open>
  The copy of an item and the loop over its children call each other. \<open>dup w nptr cptr\<close> is the loop: it appends copies of the chain at \<open>cptr\<close> to the children
  of \<open>w\<close>, the last of which is \<open>nptr\<close>.
\<close>

partial_function (option) dup_children :: "nat \<Rightarrow> ptr \<Rightarrow> ptr \<Rightarrow> jmem \<Rightarrow> jmem option" where
  "dup_children w nptr cptr m =
     (if cptr = None then Some m
      else do {
        (x, m) \<leftarrow> dup_fields (the cptr) m;
        n \<leftarrow> deref (j_items m) cptr;
        m \<leftarrow> dup_children x None (j_child n) m;
        m \<leftarrow> (if nptr \<noteq> None then suffix_object nptr (Some x) m else set_item (Some w) (\<lambda>z. z\<lparr>j_child := Some x\<rparr>) m);
        n \<leftarrow> deref (j_items m) cptr;
        dup_children w (Some x) (j_next n) m
      })"

definition cJSON_Duplicate :: "ptr \<Rightarrow> bool \<Rightarrow> jmem \<Rightarrow> (ptr \<times> jmem) option" where
  "cJSON_Duplicate item recurse m =
     (case item of None \<Rightarrow> Some (None, m)
      | Some a \<Rightarrow> do {
          (w, m) \<leftarrow> dup_fields a m;
          if \<not> recurse then Some (Some w, m)
          else do { n \<leftarrow> j_items m a; m \<leftarrow> dup_children w None (j_child n) m; Some (Some w, m) }
        })"

end
