(* ===== verification/CjsonItemsProps.thy ===== *)
theory CjsonItemsProps
  imports CjsonItems
begin

text \<open>
  The item lists of a JSON value: the operations that look at a list, that change it and that release it, against the list of addresses it stands for.
\<close>

interpretation jl: dnode j_prev j_next "\<lambda>p n. n\<lparr>j_prev := p\<rparr>" "\<lambda>p n. n\<lparr>j_next := p\<rparr>"
  by unfold_locales simp_all

section \<open>Walking\<close>

abbreviation jseg :: "jnode heap \<Rightarrow> ptr \<Rightarrow> ptr \<Rightarrow> nat list \<Rightarrow> ptr \<Rightarrow> ptr \<Rightarrow> bool" where
  "jseg \<equiv> dseg j_prev j_next"

abbreviation jdlist :: "jnode heap \<Rightarrow> ptr \<Rightarrow> nat list \<Rightarrow> ptr \<Rightarrow> bool" where
  "jdlist \<equiv> dlist j_prev j_next"

lemma count_items_length: "jseg (j_items m) pr p as q None \<Longrightarrow> count_items m p i = Some (i + int (length as))"
proof (induction as arbitrary: pr p i)
  case Nil
  then show ?case by (subst count_items.simps) simp
next
  case (Cons a as)
  then obtain n where n: "p = Some a" "j_items m a = Some n" "jseg (j_items m) (Some a) (j_next n) as q None" by (auto split: option.splits)
  show ?case using Cons.IH [OF n(3), of "i + 1"] n(1,2) by (subst count_items.simps) simp
qed

definition nth_ptr :: "nat list \<Rightarrow> int \<Rightarrow> ptr" where
  "nth_ptr as i = (if nat i < length as then Some (as ! nat i) else None)"

lemma walk_items_nth: "jseg (j_items m) pr p as q None \<Longrightarrow> walk_items m p i = Some (nth_ptr as i)"
proof (induction as arbitrary: pr p i)
  case Nil
  then show ?case by (subst walk_items.simps) (simp add: nth_ptr_def)
next
  case (Cons a as)
  then obtain n where n: "p = Some a" "j_items m a = Some n" "jseg (j_items m) (Some a) (j_next n) as q None" by (auto split: option.splits)
  show ?case
  proof (cases "i \<le> 0")
    case True
    then show ?thesis using n(1) by (subst walk_items.simps) (simp add: nth_ptr_def)
  next
    case False
    then have "nat i = Suc (nat (i - 1))" by simp
    then show ?thesis using Cons.IH [OF n(3), of "i - 1"] n(1,2) False by (subst walk_items.simps) (simp add: nth_ptr_def)
  qed
qed

lemma last_item_last: "jseg (j_items m) pr p as q None \<Longrightarrow> as \<noteq> [] \<Longrightarrow> last_item m p = Some (Some (last as))"
proof (induction as arbitrary: pr p)
  case (Cons a as)
  then obtain n where n: "p = Some a" "j_items m a = Some n" "jseg (j_items m) (Some a) (j_next n) as q None" by (auto split: option.splits)
  have "j_next n = None \<longleftrightarrow> as = []" using dseg_first [OF n(3)] by auto
  then show ?case using Cons.IH [OF n(3)] n(1,2) by (subst last_item.simps) auto
qed simp

section \<open>Lists\<close>

definition jarray :: "jmem \<Rightarrow> nat \<Rightarrow> nat list \<Rightarrow> bool" where
  "jarray m a as \<longleftrightarrow> (\<exists>n q. j_items m a = Some n \<and> jdlist (j_items m) (j_child n) as q \<and> distinct (a # as))"

text \<open>What an operation on the list \<open>as\<close> of the item \<open>a\<close> leaves alone: all of the memory but the links of the nodes of \<open>A\<close> and the child pointer of \<open>a\<close>.\<close>

definition body :: "jnode \<Rightarrow> u32 \<times> ptr \<times> int \<times> rat \<times> ptr" where
  "body n = (j_type n, j_valuestring n, j_valueint n, j_valuedouble n, j_string n)"

definition relinked :: "nat \<Rightarrow> nat set \<Rightarrow> jmem \<Rightarrow> jmem \<Rightarrow> bool" where
  "relinked a A m m' \<longleftrightarrow> j_strs m' = j_strs m \<and> j_brk m' = j_brk m \<and> (\<forall>x. x \<notin> insert a A \<longrightarrow> j_items m' x = j_items m x) \<and>
     (\<forall>x. map_option body (j_items m' x) = map_option body (j_items m x)) \<and> (\<forall>x. x \<noteq> a \<longrightarrow> map_option j_child (j_items m' x) = map_option j_child (j_items m x)) \<and>
     (a \<notin> A \<longrightarrow> links j_prev j_next (j_items m') a = links j_prev j_next (j_items m) a)"

lemma relinked_refl [simp]: "relinked a A m m"
  by (simp add: relinked_def)

text \<open>Such operations are made of assignments to links and to the child pointer.\<close>

definition at_item :: "ptr \<Rightarrow> (jnode \<Rightarrow> jnode) \<Rightarrow> jmem \<Rightarrow> jmem" where
  "at_item p f m = m\<lparr>j_items := touch p f (j_items m)\<rparr>"

lemma upd_at: "j_items m x \<noteq> None \<Longrightarrow> set_item (Some x) f m = Some (at_item (Some x) f m)"
  by (simp add: set_item_def at_item_def assign_touch)

lemma upd_opt: "(\<And>x. p = Some x \<Longrightarrow> j_items m x \<noteq> None) \<Longrightarrow> (if p \<noteq> None then set_item p f m else Some m) = Some (at_item p f m)"
  by (cases p) (auto simp: upd_at, simp add: at_item_def)

lemma at_item_fields [simp]: "j_strs (at_item p f m) = j_strs m" "j_brk (at_item p f m) = j_brk m" "j_items (at_item p f m) = touch p f (j_items m)"
  by (simp_all add: at_item_def)

lemma at_item_alloc: "j_items (at_item p f m) x = None \<longleftrightarrow> j_items m x = None"
  by (cases p) (auto simp: touch_def)

definition link_upd :: "(jnode \<Rightarrow> jnode) \<Rightarrow> bool" where
  "link_upd f \<longleftrightarrow> (\<forall>n. body (f n) = body n \<and> j_child (f n) = j_child n)"

definition child_upd :: "(jnode \<Rightarrow> jnode) \<Rightarrow> bool" where
  "child_upd f \<longleftrightarrow> (\<forall>n. body (f n) = body n \<and> j_prev (f n) = j_prev n \<and> j_next (f n) = j_next n)"

lemma link_upds [simp]:
  "link_upd (\<lambda>n. n\<lparr>j_next := p\<rparr>)" "link_upd (\<lambda>n. n\<lparr>j_prev := p\<rparr>)" "link_upd (\<lambda>n. n\<lparr>j_next := p, j_prev := q\<rparr>)" "child_upd (\<lambda>n. n\<lparr>j_child := p\<rparr>)"
  by (simp_all add: link_upd_def child_upd_def body_def)

lemma relinked_link: "relinked a A m m' \<Longrightarrow> link_upd f \<Longrightarrow> (\<And>x. p = Some x \<Longrightarrow> x \<in> A) \<Longrightarrow> relinked a A m (at_item p f m')"
  by (cases p) (auto simp: relinked_def link_upd_def touch_def option.map_comp comp_def links_def at_item_def)

lemma relinked_child: "relinked a A m m' \<Longrightarrow> child_upd f \<Longrightarrow> relinked a A m (at_item (Some a) f m')"
  by (auto simp: relinked_def child_upd_def touch_def option.map_comp comp_def links_def)

lemma relinked_node:
  assumes "relinked a A m m'" "a \<notin> A" "j_items m a = Some n"
  obtains n' where "j_items m' a = Some n'" "body n' = body n" "j_prev n' = j_prev n" "j_next n' = j_next n"
proof -
  have "map_option body (j_items m' a) = Some (body n)" "links j_prev j_next (j_items m') a = Some (j_prev n, j_next n)"
    using assms by (simp_all add: relinked_def links_def)
  then show ?thesis using that by (auto simp: links_def)
qed

lemma jarray_links:
  assumes "jdlist h p as q" "distinct (a # as)" "j_items m a = Some n" "j_child n = p" "\<And>x. x \<in> set as \<Longrightarrow> links j_prev j_next (j_items m) x = links j_prev j_next h x"
  shows "jarray m a as"
  using assms dseg_frame [of as j_prev j_next "j_items m" h] unfolding jarray_def dlist_def by blast

lemma links_touch: "links j_prev j_next (touch p f h) x = (if p = Some x then map_option (\<lambda>n. (j_prev (f n), j_next (f n))) (h x) else links j_prev j_next h x)"
  by (cases p) (auto simp: links_def touch_def option.map_comp comp_def)

lemma links_upds:
  "links j_prev j_next (touch p (\<lambda>n. n\<lparr>j_prev := r\<rparr>) h) x = (if p = Some x then map_option (\<lambda>l. (r, snd l)) (links j_prev j_next h x) else links j_prev j_next h x)"
  "links j_prev j_next (touch p (\<lambda>n. n\<lparr>j_next := r\<rparr>) h) x = (if p = Some x then map_option (\<lambda>l. (fst l, r)) (links j_prev j_next h x) else links j_prev j_next h x)"
  "links j_prev j_next (touch p (\<lambda>n. n\<lparr>j_child := r\<rparr>) h) x = links j_prev j_next h x"
  "links j_prev j_next (touch p (\<lambda>n. n\<lparr>j_next := r, j_prev := s\<rparr>) h) x = (if p = Some x then map_option (\<lambda>l. (s, r)) (links j_prev j_next h x) else links j_prev j_next h x)"
  by (simp_all add: links_touch) (auto simp: links_def option.map_comp comp_def)

text \<open>The list of an item around one of its nodes.\<close>

lemma jarray_split:
  assumes "jarray m a (xs @ c # ys)"
  obtains na n q where "j_items m a = Some na" "j_items m c = Some n" "jseg (j_items m) None (j_child na) xs (j_prev n) (Some c)"
    "jseg (j_items m) (Some c) (j_next n) ys q None" "distinct (a # xs @ c # ys)"
    "j_prev n = (if xs = [] then None else Some (last xs))" "j_next n = (if ys = [] then None else Some (hd ys))"
    "j_child na = (if xs = [] then Some c else Some (hd xs))"
proof -
  obtain na q where na: "j_items m a = Some na" "jdlist (j_items m) (j_child na) (xs @ c # ys) q" "distinct (a # xs @ c # ys)" using assms by (auto simp: jarray_def)
  then obtain n where s: "j_items m c = Some n" "jseg (j_items m) None (j_child na) xs (j_prev n) (Some c)" "jseg (j_items m) (Some c) (j_next n) ys q None"
    by (auto simp: dlist_def dseg_append split: option.splits)
  show ?thesis by (rule that [OF na(1) s na(3) dseg_last [OF s(2)] dseg_first [OF s(3)] dseg_first [OF s(2)]])
qed

lemma touch_neq: "x \<noteq> y \<Longrightarrow> touch (Some x) f h y = h y"
  by (simp add: touch_other)

lemma split_at_nth: "k < length as \<Longrightarrow> as = take k as @ as ! k # drop (k + 1) as"
  by (simp add: id_take_nth_drop)

section \<open>Changing a list\<close>

lemma detach_at:
  assumes "jarray m a (xs @ c # ys)"
  shows "\<exists>m' n'. cJSON_DetachItemFromArray (Some a) (int (length xs)) m = Some (Some c, m') \<and> jarray m' a (xs @ ys) \<and> relinked a (set (xs @ c # ys)) m m' \<and>
    j_items m' c = Some n' \<and> j_next n' = None \<and> j_prev n' = None"
proof -
  obtain na n q where s: "j_items m a = Some na" "j_items m c = Some n" "jseg (j_items m) None (j_child na) xs (j_prev n) (Some c)"
    "jseg (j_items m) (Some c) (j_next n) ys q None" and d: "distinct (a # xs @ c # ys)"
    and p: "j_prev n = (if xs = [] then None else Some (last xs))" and nx: "j_next n = (if ys = [] then None else Some (hd ys))"
    and ch: "j_child na = (if xs = [] then Some c else Some (hd xs))"
    by (rule jarray_split [OF assms]) blast
  let ?A = "set (xs @ c # ys)" and ?P = "j_prev n" and ?N = "j_next n"
  have all: "jseg (j_items m) None (j_child na) (xs @ c # ys) q None" using s by (auto simp: dseg_append)
  have alloc: "x \<in> ?A \<Longrightarrow> j_items m x \<noteq> None" for x using dseg_alloc [OF all] by blast
  have walk: "walk_items m (j_child na) (int (length xs)) = Some (Some c)" using walk_items_nth [OF all, of "int (length xs)"] by (simp add: nth_ptr_def)
  have P: "?P = Some x \<Longrightarrow> x \<in> ?A \<and> x \<noteq> c \<and> x \<noteq> a" for x using p d by (auto split: if_splits)
  have N: "?N = Some x \<Longrightarrow> x \<in> ?A \<and> x \<noteq> c \<and> x \<noteq> a" for x using nx d by (auto split: if_splits)
  have ne: "?P \<noteq> Some c" "?P \<noteq> Some a" "?N \<noteq> Some c" "?N \<noteq> Some a" using P N by blast+
  let ?m1 = "at_item ?P (\<lambda>x. x\<lparr>j_next := ?N\<rparr>) m"
  let ?m2 = "at_item ?N (\<lambda>x. x\<lparr>j_prev := ?P\<rparr>) ?m1"
  let ?m3 = "if Some c = j_child na then at_item (Some a) (\<lambda>x. x\<lparr>j_child := ?N\<rparr>) ?m2 else ?m2"
  let ?m4 = "at_item (Some c) (\<lambda>x. x\<lparr>j_next := None, j_prev := None\<rparr>) ?m3"
  have c1: "j_items ?m1 c = Some n" using ne s(2) by (simp add: touch_other)
  have c2: "j_items ?m2 c = Some n" "j_items ?m2 a = Some na" using ne s(1,2) by (simp_all add: touch_other)
  have m1: "(if ?P \<noteq> None then set_item ?P (\<lambda>x. x\<lparr>j_next := ?N\<rparr>) m else Some m) = Some ?m1" by (rule upd_opt) (use P alloc in blast)
  have m2: "(if ?N \<noteq> None then set_item ?N (\<lambda>x. x\<lparr>j_prev := ?P\<rparr>) ?m1 else Some ?m1) = Some ?m2"
    by (rule upd_opt) (use N alloc in \<open>metis at_item_fields(3) dom_touch domIff\<close>)
  have m3: "(if Some c = j_child na then set_item (Some a) (\<lambda>x. x\<lparr>j_child := ?N\<rparr>) ?m2 else Some ?m2) = Some ?m3" using c2 by (simp add: upd_at)
  have "a \<noteq> c" using d by auto
  then have c3: "j_items ?m3 c = Some n" using c2 by (auto simp: touch_neq)
  have m4: "set_item (Some c) (\<lambda>x. x\<lparr>j_next := None, j_prev := None\<rparr>) ?m3 = Some ?m4" by (rule upd_at) (use c3 in simp)
  have run: "cJSON_DetachItemFromArray (Some a) (int (length xs)) m = Some (Some c, ?m4)"
    unfolding cJSON_DetachItemFromArray_def using s(1,2) walk c1 c2 m1 m2 m3 m4 by (simp del: at_item_fields)
  have "relinked a ?A m ?m2" using P N by (intro relinked_link relinked_refl) auto
  then have rel: "relinked a ?A m ?m4" by (intro relinked_link) (auto intro: relinked_child)
  have u: "jdlist (jl.connect ?P ?N (j_items m)) (if xs = [] then ?N else j_child na) (xs @ ys) (if ys = [] then ?P else q)"
    by (rule jl.dlist_unlink(1)) (use all d s(2) in \<open>simp_all add: dlist_def\<close>)
  have "\<exists>na'. j_items ?m4 a = Some na' \<and> j_child na' = (if xs = [] then ?N else j_child na)" using c2 d ch by (auto simp: touch_other)
  then obtain na' where na': "j_items ?m4 a = Some na'" "j_child na' = (if xs = [] then ?N else j_child na)" by blast
  have "jarray ?m4 a (xs @ ys)"
  proof (rule jarray_links [OF u _ na'])
    show "distinct (a # xs @ ys)" using d by auto
    show "links j_prev j_next (j_items ?m4) x = links j_prev j_next (jl.connect ?P ?N (j_items m)) x" if "x \<in> set (xs @ ys)" for x
      using that d by (auto simp: links_touch jl.connect_def)
  qed
  moreover have "j_items ?m4 c = Some (n\<lparr>j_next := None, j_prev := None\<rparr>)" using c3 by simp
  ultimately show ?thesis using run rel by (intro exI conjI) (assumption, assumption, assumption, assumption, simp_all)
qed

lemma add_item:
  assumes "jarray m a as" "j_items m t = Some nt" "j_next nt = None" "as = [] \<Longrightarrow> j_prev nt = None" "t \<notin> set (a # as)"
  shows "\<exists>m'. cJSON_AddItemToArray (Some a) (Some t) m = Some m' \<and> jarray m' a (as @ [t]) \<and> relinked a (set (as @ [t])) m m'"
proof -
  obtain na q where na: "j_items m a = Some na" "jseg (j_items m) None (j_child na) as q None" "distinct (a # as)" using assms(1) by (auto simp: jarray_def dlist_def)
  show ?thesis
  proof (cases "as = []")
    case True
    let ?m' = "at_item (Some a) (\<lambda>n. n\<lparr>j_child := Some t\<rparr>) m"
    have "cJSON_AddItemToArray (Some a) (Some t) m = Some ?m'" using na True by (simp add: cJSON_AddItemToArray_def upd_at)
    moreover have "jarray ?m' a [t]" using na assms(2-5) True by (auto simp: jarray_def dlist_def touch_neq)
    moreover have "relinked a {t} m ?m'" by (intro relinked_child relinked_refl link_upds)
    ultimately show ?thesis using True by auto
  next
    case False
    let ?l = "last as"
    have l: "q = Some ?l" "j_items m ?l \<noteq> None" "?l \<noteq> t" "j_child na \<noteq> None"
      using dseg_last [OF na(2)] dseg_alloc [OF na(2), of ?l] dseg_first [OF na(2)] False assms(5) by auto
    let ?m' = "at_item (Some t) (\<lambda>n. n\<lparr>j_prev := Some ?l\<rparr>) (at_item (Some ?l) (\<lambda>n. n\<lparr>j_next := Some t\<rparr>) m)"
    have m': "j_items ?m' = jl.connect (Some ?l) (Some t) (j_items m)" by (simp add: jl.connect_def)
    have "cJSON_AddItemToArray (Some a) (Some t) m = Some ?m'"
      using na l last_item_last [OF na(2) False] assms(2) by (auto simp: cJSON_AddItemToArray_def suffix_object_def upd_at touch_neq)
    moreover have "relinked a (set (as @ [t])) m ?m'" using False by (intro relinked_link relinked_refl) auto
    moreover have "jseg (jl.connect (Some ?l) (Some t) (j_items m)) None (j_child na) (as @ [t]) (Some t) None"
      using jl.dseg_join [OF na(2), of "j_prev nt" "Some t" "[t]" "Some t" None] na(3) assms(2,3,5) False l(1) by simp
    moreover have "j_items ?m' a = Some na" using na False assms(5) by (metis at_item_fields(3) distinct.simps(2) last_in_set list.set_intros(1) touch_neq)
    ultimately show ?thesis using na(3) assms(5) m' unfolding jarray_def dlist_def by (intro exI [of _ ?m'] conjI exI [of _ na] exI [of _ "Some t"]) auto
  qed
qed

lemma insert_at:
  assumes "jarray m a (xs @ c # ys)" "j_items m t \<noteq> None" "t \<notin> set (a # xs @ c # ys)"
  shows "\<exists>m'. cJSON_InsertItemInArray (Some a) (int (length xs)) (Some t) m = Some m' \<and> jarray m' a (xs @ t # c # ys) \<and> relinked a (set (xs @ t # c # ys)) m m'"
proof -
  obtain na n q where s: "j_items m a = Some na" "j_items m c = Some n" "jseg (j_items m) None (j_child na) xs (j_prev n) (Some c)"
    "jseg (j_items m) (Some c) (j_next n) ys q None" and d: "distinct (a # xs @ c # ys)"
    and p: "j_prev n = (if xs = [] then None else Some (last xs))" and nx: "j_next n = (if ys = [] then None else Some (hd ys))"
    and ch: "j_child na = (if xs = [] then Some c else Some (hd xs))"
    by (rule jarray_split [OF assms(1)]) blast
  let ?A = "set (xs @ t # c # ys)" and ?P = "j_prev n"
  have all: "jseg (j_items m) None (j_child na) (xs @ c # ys) q None" using s by (auto simp: dseg_append)
  have walk: "walk_items m (j_child na) (int (length xs)) = Some (Some c)" using walk_items_nth [OF all, of "int (length xs)"] by (simp add: nth_ptr_def)
  have neq: "t \<noteq> c" "a \<noteq> c" "a \<noteq> t" using assms(3) d by auto
  have P: "?P = Some x \<Longrightarrow> x \<in> set xs \<and> x \<noteq> c \<and> x \<noteq> a \<and> x \<noteq> t" for x using p d assms(3) by (auto split: if_splits)
  have first: "Some c = j_child na \<longleftrightarrow> xs = []" using ch d list.set_sel(1) [of xs] by auto
  let ?m1 = "at_item (Some t) (\<lambda>x. x\<lparr>j_next := Some c\<rparr>) m"
  let ?m2 = "at_item (Some t) (\<lambda>x. x\<lparr>j_prev := ?P\<rparr>) ?m1"
  let ?m3 = "at_item (Some c) (\<lambda>x. x\<lparr>j_prev := Some t\<rparr>) ?m2"
  let ?m4 = "if xs = [] then at_item (Some a) (\<lambda>x. x\<lparr>j_child := Some t\<rparr>) ?m3 else at_item ?P (\<lambda>x. x\<lparr>j_next := Some t\<rparr>) ?m3"
  obtain nt where nt: "j_items m t = Some nt" using assms(2) by blast
  have a3: "j_items ?m3 a = Some na" using s neq by (simp add: touch_neq)
  have t3: "j_items ?m3 t = Some (nt\<lparr>j_next := Some c, j_prev := ?P\<rparr>)" using nt neq by (simp add: touch_neq)
  have P3: "set_item ?P (\<lambda>x. x\<lparr>j_next := Some t\<rparr>) ?m3 = Some (at_item ?P (\<lambda>x. x\<lparr>j_next := Some t\<rparr>) ?m3)" if ne: "xs \<noteq> []"
  proof -
    have pl: "?P = Some (last xs)" using p ne by simp
    then have "last xs \<noteq> c" "last xs \<noteq> t" "j_items m (last xs) \<noteq> None" using P dseg_alloc [OF s(3), of "last xs"] ne by auto
    then show ?thesis unfolding pl by (intro upd_at) (simp add: touch_neq)
  qed
  have run: "cJSON_InsertItemInArray (Some a) (int (length xs)) (Some t) m = Some ?m4"
    unfolding cJSON_InsertItemInArray_def using s(1,2) walk nt neq first a3 t3 P3 by (simp add: upd_at touch_neq)
  have "relinked a ?A m ?m3" by (intro relinked_link relinked_refl) auto
  then have rel: "relinked a ?A m ?m4" using P by (auto intro: relinked_child relinked_link)
  have tail: "jseg (j_items m) ?P (Some c) (c # ys) q None" using s(2,4) by simp
  have u: "jdlist (jl.connect (Some t) (Some c) (jl.connect ?P (Some t) (j_items m))) (if xs = [] then Some t else j_child na) (xs @ t # c # ys) (if c # ys = [] then Some t else q)"
    by (rule jl.dlist_insert [OF s(3) tail assms(2)]) (use d assms(3) in auto)
  have ex: "\<exists>na'. j_items ?m4 a = Some na' \<and> j_child na' = (if xs = [] then Some t else j_child na)"
  proof (cases "xs = []")
    case False
    have "?P \<noteq> Some a" using P by blast
    then have "j_items ?m4 a = Some na" using False a3 by (simp add: touch_other)
    then show ?thesis using False by simp
  qed (use a3 in simp)
  then obtain na' where na': "j_items ?m4 a = Some na'" "j_child na' = (if xs = [] then Some t else j_child na)" by blast
  have "jarray ?m4 a (xs @ t # c # ys)"
  proof (rule jarray_links [OF u _ na'])
    show "distinct (a # xs @ t # c # ys)" using d assms(3) by auto
    show "links j_prev j_next (j_items ?m4) x = links j_prev j_next (jl.connect (Some t) (Some c) (jl.connect ?P (Some t) (j_items m))) x" if "x \<in> set (xs @ t # c # ys)" for x
      using that d assms(3) p neq by (simp add: jl.connect_def links_upds option.map_comp comp_def) auto
  qed
  then show ?thesis using run rel by blast
qed

lemma replace_at:
  assumes "jarray m a (xs @ c # ys)" "j_items m t \<noteq> None" "t \<notin> set (a # xs @ c # ys)"
  shows "\<exists>m' n'. cJSON_ReplaceItemInArray (Some a) (int (length xs)) (Some t) m = cJSON_Delete (Some c) m' \<and> jarray m' a (xs @ t # ys) \<and>
    relinked a (set (xs @ t # c # ys)) m m' \<and> j_items m' c = Some n' \<and> j_next n' = None"
proof -
  obtain na n q where s: "j_items m a = Some na" "j_items m c = Some n" "jseg (j_items m) None (j_child na) xs (j_prev n) (Some c)"
    "jseg (j_items m) (Some c) (j_next n) ys q None" and d: "distinct (a # xs @ c # ys)"
    and p: "j_prev n = (if xs = [] then None else Some (last xs))" and nx: "j_next n = (if ys = [] then None else Some (hd ys))"
    and ch: "j_child na = (if xs = [] then Some c else Some (hd xs))"
    by (rule jarray_split [OF assms(1)]) blast
  let ?A = "set (xs @ t # c # ys)" and ?P = "j_prev n" and ?N = "j_next n"
  have all: "jseg (j_items m) None (j_child na) (xs @ c # ys) q None" using s by (auto simp: dseg_append)
  have walk: "walk_items m (j_child na) (int (length xs)) = Some (Some c)" using walk_items_nth [OF all, of "int (length xs)"] by (simp add: nth_ptr_def)
  have neq: "t \<noteq> c" "a \<noteq> c" "a \<noteq> t" using assms(3) d by auto
  have P: "?P = Some x \<Longrightarrow> x \<in> set xs \<and> j_items m x \<noteq> None" for x using p dseg_alloc [OF s(3)] by (auto split: if_splits)
  have N: "?N = Some x \<Longrightarrow> x \<in> set ys \<and> j_items m x \<noteq> None" for x using nx dseg_alloc [OF s(4)] by (auto split: if_splits)
  have ne: "?P \<noteq> Some a" "?P \<noteq> Some c" "?P \<noteq> Some t" "?N \<noteq> Some a" "?N \<noteq> Some c" "?N \<noteq> Some t" using P N d assms(3) by auto
  have first: "Some c = j_child na \<longleftrightarrow> xs = []" using ch d list.set_sel(1) [of xs] by auto
  obtain nt where nt: "j_items m t = Some nt" using assms(2) by blast
  let ?m1 = "at_item (Some t) (\<lambda>x. x\<lparr>j_next := ?N, j_prev := ?P\<rparr>) m"
  let ?m2 = "at_item ?N (\<lambda>x. x\<lparr>j_prev := Some t\<rparr>) ?m1"
  let ?m3 = "if xs = [] then at_item (Some a) (\<lambda>x. x\<lparr>j_child := Some t\<rparr>) ?m2 else at_item ?P (\<lambda>x. x\<lparr>j_next := Some t\<rparr>) ?m2"
  let ?m4 = "at_item (Some c) (\<lambda>x. x\<lparr>j_next := None, j_prev := None\<rparr>) ?m3"
  obtain w where t1: "j_items ?m1 t = Some w" and w: "j_next w = ?N" "j_prev w = ?P" using nt by simp
  have m2: "(if j_next w \<noteq> None then set_item (j_next w) (\<lambda>x. x\<lparr>j_prev := Some t\<rparr>) ?m1 else Some ?m1) = Some ?m2"
    unfolding w by (rule upd_opt) (use N in \<open>metis at_item_fields(3) dom_touch domIff\<close>)
  have i2: "j_items ?m2 a = Some na" "j_items ?m2 t = Some w" "j_items ?m2 c = Some n"
    using s(1,2) t1 neq ne by (simp_all add: touch_other touch_neq)
  have P2: "set_item ?P (\<lambda>x. x\<lparr>j_next := Some t\<rparr>) ?m2 = Some (at_item ?P (\<lambda>x. x\<lparr>j_next := Some t\<rparr>) ?m2)" if "xs \<noteq> []"
  proof -
    have pl: "?P = Some (last xs)" using p that by simp
    have "j_items ?m2 (last xs) \<noteq> None" unfolding at_item_alloc using P [OF pl] by blast
    then show ?thesis using upd_at [of ?m2 "last xs"] unfolding pl by blast
  qed
  have c3: "j_items ?m3 c = Some n" using i2 neq ne by (simp add: touch_other touch_neq)
  have m1: "set_item (Some t) (\<lambda>x. x\<lparr>j_next := ?N, j_prev := ?P\<rparr>) m = Some ?m1" by (rule upd_at) (use nt in simp)
  have m3: "(if Some c = j_child na then set_item (Some a) (\<lambda>x. x\<lparr>j_child := Some t\<rparr>) ?m2
      else do { w \<leftarrow> deref (j_items ?m2) (Some t); set_item (j_prev w) (\<lambda>x. x\<lparr>j_next := Some t\<rparr>) ?m2 }) = Some ?m3"
    using first P2 i2 w by (simp add: upd_at)
  have m4: "set_item (Some c) (\<lambda>x. x\<lparr>j_next := None, j_prev := None\<rparr>) ?m3 = Some ?m4" by (rule upd_at) (use c3 in simp)
  have run: "cJSON_ReplaceItemInArray (Some a) (int (length xs)) (Some t) m = cJSON_Delete (Some c) ?m4"
    unfolding cJSON_ReplaceItemInArray_def by (simp add: s(1,2) walk m1 t1 m2 i2 m3 m4 del: at_item_fields not_None_eq split del: if_split)
  have "relinked a ?A m ?m2" using N by (intro relinked_link relinked_refl) auto
  then have "relinked a ?A m ?m3" using P by (auto intro: relinked_child relinked_link)
  then have rel: "relinked a ?A m ?m4" by (intro relinked_link) auto
  have u: "jdlist (jl.connect (Some t) ?N (jl.connect ?P (Some t) (j_items m))) (if xs = [] then Some t else j_child na) (xs @ t # ys) (if ys = [] then Some t else q)"
    by (rule jl.dlist_insert [OF s(3,4) assms(2)]) (use d assms(3) in auto)
  have "j_items ?m4 a = Some (if xs = [] then na\<lparr>j_child := Some t\<rparr> else na)" using i2 neq ne by (simp add: touch_other touch_neq)
  then obtain na' where na': "j_items ?m4 a = Some na'" "j_child na' = (if xs = [] then Some t else j_child na)" by (simp split: if_splits)
  have "jarray ?m4 a (xs @ t # ys)"
  proof (rule jarray_links [OF u _ na'])
    show "distinct (a # xs @ t # ys)" using d assms(3) by auto
    show "links j_prev j_next (j_items ?m4) x = links j_prev j_next (jl.connect (Some t) ?N (jl.connect ?P (Some t) (j_items m))) x" if "x \<in> set (xs @ t # ys)" for x
      using that d assms(3) p nx neq by (simp add: jl.connect_def links_upds option.map_comp comp_def) auto
  qed
  moreover have "j_items ?m4 c = Some (n\<lparr>j_next := None, j_prev := None\<rparr>)" using c3 by simp
  ultimately show ?thesis using run rel by (intro exI conjI) (assumption, assumption, assumption, assumption, simp)
qed

section \<open>Releasing a list\<close>

definition own_strs :: "jnode \<Rightarrow> nat list" where
  "own_strs n = (case j_valuestring n of Some v \<Rightarrow> if is_ref n then [] else [v] | None \<Rightarrow> []) @ (case j_string n of Some v \<Rightarrow> if is_const n then [] else [v] | None \<Rightarrow> [])"

text \<open>The nodes and the strings that belong to a chain: those of the children too, unless the node is a reference.\<close>

inductive jtree :: "jnode heap \<Rightarrow> ptr \<Rightarrow> nat list \<Rightarrow> nat list \<Rightarrow> bool" for h where
  jt_null: "jtree h None [] []"
| jt_node: "h a = Some n \<Longrightarrow> jtree h (if is_ref n then None else j_child n) is1 ss1 \<Longrightarrow> jtree h (j_next n) is2 ss2 \<Longrightarrow>
    jtree h (Some a) (a # is1 @ is2) (own_strs n @ ss1 @ ss2)"

inductive_cases jtree_SomeE: "jtree h (Some a) is ss"

lemma jtree_frame: "jtree h p is ss \<Longrightarrow> (\<And>x. x \<in> set is \<Longrightarrow> h' x = h x) \<Longrightarrow> jtree h' p is ss"
proof (induction rule: jtree.induct)
  case (jt_node a n is1 ss1 is2 ss2)
  then show ?case by (intro jtree.jt_node) auto
qed (rule jt_null)

definition released :: "nat list \<Rightarrow> nat list \<Rightarrow> jmem \<Rightarrow> jmem" where
  "released is ss m = m\<lparr>j_items := (\<lambda>x. if x \<in> set is then None else j_items m x), j_strs := (\<lambda>x. if x \<in> set ss then None else j_strs m x)\<rparr>"

lemma released_released [simp]: "released is2 ss2 (released is1 ss1 m) = released (is1 @ is2) (ss1 @ ss2) m"
  by (auto simp: released_def fun_eq_iff)

lemma released_Nil [simp]: "released [] [] m = m"
  by (simp add: released_def)

lemma released_items [simp]: "x \<notin> set is \<Longrightarrow> j_items (released is ss m) x = j_items m x"
  by (simp add: released_def)

lemma free_str_released: "j_strs m a = Some v \<Longrightarrow> free_str (Some a) m = Some (released [] [a] m)"
  by (simp add: free_str_def released_def fun_upd_def)

lemma free_item_released: "j_items m a = Some v \<Longrightarrow> free_item (Some a) m = Some (released [a] [] m)"
  by (simp add: free_item_def released_def fun_upd_def)

lemma free_own:
  assumes "distinct (own_strs n)" "\<And>x. x \<in> set (own_strs n) \<Longrightarrow> j_strs m x \<noteq> None"
  shows "do { m \<leftarrow> (if \<not> is_ref n \<and> j_valuestring n \<noteq> None then free_str (j_valuestring n) m else Some m);
              m \<leftarrow> (if \<not> is_const n \<and> j_string n \<noteq> None then free_str (j_string n) m else Some m); k m } = k (released [] (own_strs n) m)"
proof -
  have st: "j_strs (released [] [x] m) y = j_strs m y" if "x \<noteq> y" for x y using that by (simp add: released_def)
  have "\<forall>x\<in>set (own_strs n). \<exists>s. j_strs m x = Some s" using assms(2) by blast
  then show ?thesis
    using assms(1) by (cases "j_valuestring n"; cases "j_string n"; cases "is_ref n"; cases "is_const n")
      (auto simp: own_strs_def free_str_released st)
qed

lemma delete_releases:
  assumes "jtree h p is ss" "distinct is" "distinct ss" "\<And>x. x \<in> set is \<Longrightarrow> j_items m x = h x" "\<And>x. x \<in> set ss \<Longrightarrow> j_strs m x \<noteq> None"
  shows "cJSON_Delete p m = Some (released is ss m)"
  using assms
proof (induction arbitrary: m rule: jtree.induct)
  case jt_null
  then show ?case by (subst cJSON_Delete.simps) simp
next
  case (jt_node a n is1 ss1 is2 ss2)
  have n: "j_items m a = Some n" using jt_node by simp
  let ?m1 = "released is1 ss1 m" and ?c = "if is_ref n then None else j_child n"
  have "cJSON_Delete ?c m = Some ?m1" by (rule jt_node.IH(1)) (use jt_node.prems in auto)
  moreover have "is1 = [] \<and> ss1 = []" if "?c = None" using jt_node.hyps(2) that by (auto elim: jtree.cases)
  ultimately have m1: "(if \<not> is_ref n \<and> j_child n \<noteq> None then cJSON_Delete (j_child n) m else Some m) = Some ?m1" by (auto split: if_splits)
  have n1: "j_items ?m1 a = Some n" using n jt_node.prems(1) by simp
  let ?m2 = "released [] (own_strs n) ?m1"
  have m2: "do { m \<leftarrow> (if \<not> is_ref n \<and> j_valuestring n \<noteq> None then free_str (j_valuestring n) ?m1 else Some ?m1);
              m \<leftarrow> (if \<not> is_const n \<and> j_string n \<noteq> None then free_str (j_string n) m else Some m); k m } = k ?m2" for k :: "jmem \<Rightarrow> jmem option"
    by (rule free_own) (use jt_node.prems in \<open>auto simp: released_def\<close>)
  have n2: "j_items ?m2 a = Some n" using n1 by (simp add: released_def)
  let ?m3 = "released [a] [] ?m2"
  have "cJSON_Delete (j_next n) ?m3 = Some (released is2 ss2 ?m3)"
    by (rule jt_node.IH(2)) (use jt_node.prems in \<open>auto simp: released_def\<close>)
  moreover have "released is2 ss2 ?m3 = released (a # is1 @ is2) (own_strs n @ ss1 @ ss2) m" by (auto simp: released_def fun_eq_iff)
  ultimately show ?case
    using n n1 m1 free_item_released [OF n2] m2 by (subst cJSON_Delete.simps) (simp del: released_released not_None_eq split del: if_split)
qed

end
