(* ===== verification/CjsonNum.thy ===== *)
theory CjsonNum
  imports Cjson CFloat
begin

text \<open>
  Whole numbers in JSON texts: doubles hold them exactly, so the reader gets back what the writer wrote.
\<close>

section \<open>Exact doubles\<close>

lemma fl_exp_minus: "fl_exp (- q) = fl_exp q"
proof -
  obtain n d where "quotient_of q = (n, d)" by fastforce
  then show ?thesis by (simp add: fl_exp_def rat_uminus_code Let_def)
qed

lemma round_even_int [simp]: "round_even (of_int i) = i"
  by (simp add: round_even_def)

lemma f64_int:
  assumes "\<bar>i\<bar> < 2 ^ 53"
  shows "f64 (of_int i) = of_int i"
proof (cases "i = 0")
  case True
  then show ?thesis by (simp add: f64_def fl_def)
next
  case False
  have abs: "fl_exp (of_int i) = fl_exp (of_int \<bar>i\<bar>)" using fl_exp_minus [of "of_int i"] by (cases "0 \<le> i") simp_all
  have "(of_int \<bar>i\<bar> :: rat) < 2 ^ 53"
  proof -
    have "(of_int \<bar>i\<bar> :: rat) < of_int (2 ^ 53)" using assms by (simp only: of_int_less_iff)
    then show ?thesis by simp
  qed
  then have "fl_exp (of_int \<bar>i\<bar>) < 53" using fl_exp_less [of "of_int \<bar>i\<bar>" 53] False by simp
  then have e: "fl_exp (of_int i) < 53" using abs by simp
  define k where "k = nat (52 - fl_exp (of_int i))"
  have "fl_exp (of_int i) + 1 - int 53 = - int k" using e by (simp add: k_def)
  then have "f64 (of_int i) = of_int (round_even (of_int i / (2 powi (- int k)))) * 2 powi (- int k)"
    unfolding f64_def fl_def using False by (simp only: Let_def of_int_eq_0_iff if_False)
  moreover have "(of_int i / (2 powi (- int k)) :: rat) = of_int (i * 2 ^ k)" by (simp add: power_int_minus field_simps)
  ultimately show ?thesis by (simp only: round_even_int) (simp add: power_int_minus field_simps)
qed

section \<open>Decimal digits\<close>

lemma str_append [simp]: "str (a @ b) = str a @ str b"
  by (simp add: str_def)

lemma str_digit: "d < 10 \<Longrightarrow> str [digit d] = [word_of_nat (48 + d)]"
proof -
  assume "d < 10"
  have "(of_char (char_of (48 + d)) :: byte) = of_nat (of_char (char_of (48 + d)) :: nat)" by (simp only: of_nat_of_char)
  then show ?thesis using \<open>d < 10\<close> by (simp add: str_def digit_def)
qed

lemma digit_byte: "d < 10 \<Longrightarrow> isdigit (word_of_nat (48 + d)) \<and> unat (word_of_nat (48 + d) :: byte) = 48 + d"
proof -
  assume "d < 10"
  then have "unat (word_of_nat (48 + d) :: byte) = 48 + d" by (simp only: unat_of_nat) simp
  then show ?thesis using \<open>d < 10\<close> by (simp add: isdigit_def word_le_nat_alt del: of_nat_add)
qed

lemma udec_step: "str (udec n) = (if n < 10 then [word_of_nat (48 + n)] else str (udec (n div 10)) @ [word_of_nat (48 + n mod 10)])"
  by (subst udec.simps) (simp add: str_digit)

lemma udec_digits: "list_all isdigit (str (udec n))" "digits_value (str (udec n)) = n" "str (udec n) \<noteq> []" "0 < n \<Longrightarrow> 48 < at0 (str (udec n))"
proof (induction n rule: less_induct)
  case (less n)
  have d: "n mod 10 < 10" by simp
  {
    case 1
    show ?case using less(1) [of "n div 10"] digit_byte [of n] digit_byte [OF d] by (subst udec_step) simp
  next
    case 2
    show ?case using less(2) [of "n div 10"] digit_byte [of n] digit_byte [OF d] by (subst udec_step) (simp add: digits_value_def)
  next
    case 3
    show ?case by (subst udec_step) simp
  next
    case 4
    show ?case
    proof (cases "n < 10")
      case True
      then show ?thesis using 4 digit_byte [of n] by (subst udec_step) (simp add: at0_def word_less_nat_alt)
    next
      case False
      then have "48 < at0 (str (udec (n div 10)))" "str (udec (n div 10)) \<noteq> []" using less(3,4) [of "n div 10"] by simp_all
      then show ?thesis using False by (subst udec_step) (cases "str (udec (n div 10))"; simp add: at0_def)
    qed
  }
qed

lemma digits_value_snoc: "digits_value (xs @ [c]) = 10 * digits_value xs + (unat c - 48)"
  by (simp add: digits_value_def)

lemma digits_acc_exact:
  assumes "int (digits_value ds) < 2 ^ 53"
  shows "digits_acc 0 ds = of_nat (digits_value ds)"
  using assms
proof (induction ds rule: rev_induct)
  case Nil
  then show ?case by (simp add: digits_acc_def digits_value_def)
next
  case (snoc c ds)
  let ?v = "digits_value ds" and ?d = "unat c - 48"
  have b: "int (10 * ?v + ?d) < 2 ^ 53" using snoc.prems by (simp add: digits_value_snoc)
  then have "digits_acc 0 ds = of_nat ?v" using snoc.IH by simp
  moreover have "f64 (of_nat ?v * 10) = of_int (int ?v * 10)" using b f64_int [of "int ?v * 10"] by simp
  moreover have "f64 (of_int (int ?v * 10) + of_nat ?d) = of_int (int (10 * ?v + ?d))" using b f64_int [of "int (10 * ?v + ?d)"] by (simp add: algebra_simps)
  ultimately show ?case by (simp add: digits_acc_def digits_value_snoc)
qed

section \<open>Reading what was written\<close>

text \<open>What may follow a number.\<close>

definition ends_number :: "byte list \<Rightarrow> bool" where
  "ends_number p \<longleftrightarrow> \<not> isdigit (at0 p) \<and> at0 p \<noteq> 46 \<and> at0 p \<noteq> 101 \<and> at0 p \<noteq> 69"

definition int_range :: "int \<Rightarrow> bool" where
  "int_range i \<longleftrightarrow> INT_MIN \<le> i \<and> i \<le> INT_MAX"

lemma digits_then: "list_all isdigit ds \<Longrightarrow> \<not> isdigit (at0 p) \<Longrightarrow> takeWhile isdigit (ds @ p) = ds \<and> dropWhile isdigit (ds @ p) = p"
  by (induction ds) (cases p; simp add: at0_def)+

lemma double_to_int_of_int: "int_range i \<Longrightarrow> double_to_int (of_int i) = i"
  by (simp add: double_to_int_def int_range_def to_int_def)

lemma at0_append: "p \<noteq> [] \<Longrightarrow> at0 (p @ q) = at0 p"
  by (cases p) (simp_all add: at0_def)

lemma pow10_0 [simp]: "pow10 0 = 1"
  using f64_int [of 1] by (simp add: pow10_def)

lemma parse_digits:
  assumes n: "0 < n" "int n < 2 ^ 53" and p: "ends_number p"
  shows "parse_number (str (udec n) @ p) = (number_item (of_nat n), p)" "parse_number (45 # str (udec n) @ p) = (number_item (- of_nat n), p)"
proof -
  let ?ds = "str (udec n)"
  note d = udec_digits [of n]
  have f: "at0 (?ds @ p) = at0 ?ds" using d(3) by (rule at0_append)
  have dg: "isdigit (at0 ?ds)" using d(1,3) by (cases ?ds) (simp_all add: at0_def)
  have at: "at0 ?ds \<noteq> 45" "at0 ?ds \<noteq> 48" "49 \<le> at0 ?ds" "at0 ?ds \<le> 57"
    using d(4) [OF n(1)] dg by (auto simp: isdigit_def word_le_nat_alt word_less_nat_alt)
  have sp: "takeWhile isdigit (?ds @ p) = ?ds" "dropWhile isdigit (?ds @ p) = p" using digits_then [OF d(1)] p by (simp_all add: ends_number_def)
  have acc: "digits_acc 0 ?ds = of_nat n" using digits_acc_exact [of ?ds] d(2) n(2) by simp
  have x: "f64 (of_nat n) = of_nat n" "f64 (- of_nat n) = - of_nat n" using f64_int [of "int n"] f64_int [of "- int n"] n(2) by simp_all
  have p0: "at0 p \<noteq> 46" "at0 p \<noteq> 101" "at0 p \<noteq> 69" using p by (simp_all add: ends_number_def)
  show "parse_number (?ds @ p) = (number_item (of_nat n), p)"
    using at sp acc x p0 by (simp add: parse_number_def number_int_def number_frac_def number_exp_def f)
  have "at0 (45 # ?ds @ p) = 45" by (simp add: at0_def)
  then show "parse_number (45 # ?ds @ p) = (number_item (- of_nat n), p)"
    using at sp acc x p0 by (simp add: parse_number_def number_int_def number_frac_def number_exp_def f)
qed

lemma parse_fmt_d:
  assumes "int_range i" "ends_number p"
  shows "parse_number (fmt_d i @ p) = (number_item (of_int i), p)"
proof -
  consider "i = 0" | "0 < i" | "i < 0" by linarith
  then show ?thesis
  proof cases
    case 1
    have "str (udec 0) = [48]" by (subst udec_step) simp
    moreover have "\<not> 49 \<le> at0 p \<or> \<not> at0 p \<le> 57" using assms(2) by (auto simp: ends_number_def isdigit_def word_le_nat_alt)
    ultimately show ?thesis using 1 assms(2) f64_int [of 0] by (elim disjE) (simp_all add: fmt_d_def parse_number_def number_int_def number_frac_def number_exp_def at0_def [of "48 # p"] ends_number_def)
  next
    case 2
    then show ?thesis using parse_digits(1) [of "nat i" p] assms by (simp add: fmt_d_def int_range_def INT_MAX_def)
  next
    case 3
    then show ?thesis using parse_digits(2) [of "nat (- i)" p] assms by (simp add: fmt_d_def int_range_def INT_MIN_def)
  qed
qed

lemma number_parts_int:
  assumes "valuedouble v = of_int i" "valueint v = i" "int_range i"
  shows "\<exists>room\<le>21. length (fmt_d i) < room \<and> number_parts v = (room, fmt_d i)"
proof (cases "i = 0")
  case True
  have "fmt_d 0 = [48]" unfolding fmt_d_def by (subst udec_step) simp
  then show ?thesis using True assms by (simp add: number_parts_def)
next
  case False
  have b: "nat \<bar>i\<bar> < 10 ^ 10" using assms(3) by (auto simp: int_range_def INT_MAX_def INT_MIN_def nat_less_iff)
  have "length (str (udec (nat \<bar>i\<bar>))) \<le> 10" using length_udec [OF b] by (simp add: str_def)
  then have "length (fmt_d i) < 21" by (auto simp: fmt_d_def abs_if split: if_splits)
  moreover have "(of_int i :: rat) \<le> of_int INT_MAX" "(of_int INT_MIN :: rat) \<le> of_int i" using assms(3) by (simp_all only: int_range_def of_int_le_iff)
  moreover have "\<bar>f64 (of_int i - of_int i)\<bar> \<le> DBL_EPSILON" using f64_int [of 0] by (simp add: DBL_EPSILON_def)
  ultimately show ?thesis using assms(1,2) False by (simp add: number_parts_def Let_def)
qed

lemma print_int: "valuedouble v = of_int i \<Longrightarrow> valueint v = i \<Longrightarrow> int_range i \<Longrightarrow> print_number v = Ok (fmt_d i)"
  using number_parts_int [of v i] by (auto simp: print_number_def put_text_def)

end
