(* ===== verification/CjsonStr.thy ===== *)
theory CjsonStr
  imports CjsonNum
begin

text \<open>
  Strings in JSON texts: what the writer escapes the reader restores, inside the blocks that both allocate.
\<close>

definition quoted :: "byte list \<Rightarrow> byte list" where
  "quoted s = 34 # concat (map escape_char s) @ [34]"

lemma at0_Cons [simp]: "at0 (c # p) = c"
  by (simp add: at0_def)

lemma at0_Nil [simp]: "at0 [] = 0"
  by (simp add: at0_def)

text \<open>An octet is copied, or follows a backslash, or is written as four hexadecimal digits.\<close>

lemma escape_cases:
  assumes "c \<noteq> 0"
  obtains "escape_char c = [c]" "31 < c" "c \<noteq> 34" "c \<noteq> 92" "\<not> special c" "short_escape c = None"
  | e where "escape_char c = [92, e]" "parse_escape (e # q) = Ok ([c], e # q)" "short_escape c = Some e" "special c"
  | "escape_char c = [92, 117, 48, 48, hex_lower (drop_bit 4 c), hex_lower (c AND 15)]" "c < 32" "short_escape c = None" "special c"
proof (cases "31 < c \<and> c \<noteq> 34 \<and> c \<noteq> 92")
  case True
  then have "escape_char c = [c]" "\<not> special c" "short_escape c = None"
    by (auto simp: escape_char_def special_def short_escape_def word_less_nat_alt)
  then show ?thesis using that(1) True by blast
next
  case False
  show ?thesis
  proof (cases "short_escape c")
    case None
    then have "c < 32" using False by (auto simp: short_escape_def word_less_nat_alt split: if_splits)
    then show ?thesis using that(3) False None assms by (auto simp: escape_char_def special_def word_less_nat_alt unat_gt_0)
  next
    case (Some e)
    then have "parse_escape (e # q) = Ok ([c], e # q)" "special c" by (auto simp: short_escape_def parse_escape_def special_def split: if_splits)
    then show ?thesis using that(2) [of e] False Some by (auto simp: escape_char_def)
  qed
qed

lemma control_octets: "c \<noteq> 0 \<Longrightarrow> c < 32 \<Longrightarrow> c \<in> set (map word_of_nat [1..<32])" for c :: byte
proof -
  assume "c \<noteq> 0" "c < 32"
  then have "unat c \<in> set [1..<32]" by (auto simp: word_less_nat_alt unat_gt_0 Suc_le_eq)
  then have "word_of_nat (unat c) \<in> (word_of_nat :: nat \<Rightarrow> byte) ` set [1..<32]" by blast
  then show ?thesis by (simp only: set_map) simp
qed

lemma control_check: "list_all (\<lambda>c. hex_digit (hex_lower (drop_bit 4 c)) = Some (ucast (drop_bit 4 c)) \<and> hex_digit (hex_lower (c AND 15)) = Some (ucast (c AND 15)) \<and>
   push_bit 4 (ucast (drop_bit 4 c)) + ucast (c AND 15) = (ucast c :: u32) \<and> utf8 (ucast c) = [c] \<and> (ucast c :: u32) \<noteq> 0 \<and> (ucast c :: u32) < 0x80 \<and>
   hex_lower (drop_bit 4 c) \<noteq> 34 \<and> hex_lower (drop_bit 4 c) \<noteq> 92 \<and> hex_lower (c AND 15) \<noteq> 34 \<and> hex_lower (c AND 15) \<noteq> 92) (map word_of_nat [1..<32])"
  by code_simp

lemma hex_escape:
  fixes c :: byte
  assumes "c \<noteq> 0" "c < 32"
  defines "h \<equiv> hex_lower (drop_bit 4 c)" and "l \<equiv> hex_lower (c AND 15)"
  shows "parse_escape (117 # 48 # 48 # h # l # q) = Ok ([c], l # q)" "h \<noteq> 34" "h \<noteq> 92" "l \<noteq> 34" "l \<noteq> 92"
proof -
  have c: "hex_digit h = Some (ucast (drop_bit 4 c))" "hex_digit l = Some (ucast (c AND 15))" "push_bit 4 (ucast (drop_bit 4 c)) + ucast (c AND 15) = (ucast c :: u32)"
    "utf8 (ucast c) = [c]" "(ucast c :: u32) \<noteq> 0" "(ucast c :: u32) < 0x80" "h \<noteq> 34" "h \<noteq> 92" "l \<noteq> 34" "l \<noteq> 92"
    using control_check control_octets [OF assms(1,2)] unfolding h_def l_def list_all_iff by blast+
  have "hex_digit 48 = Some 0" by (simp add: hex_digit_def)
  then have "parse_hex4 (48 # 48 # h # l # q) = ucast c" using c(1-3) by (simp add: parse_hex4_def)
  moreover have "\<not> 0xDC00 \<le> (ucast c :: u32)" "\<not> 0xD800 \<le> (ucast c :: u32)" using c(6) by (simp_all add: word_less_nat_alt word_le_nat_alt)
  ultimately show "parse_escape (117 # 48 # 48 # h # l # q) = Ok ([c], l # q)" using c(4,5) by (simp add: parse_escape_def escape_u_def adv_def)
qed (use control_check control_octets [OF assms(1,2)] in \<open>unfold h_def l_def list_all_iff, blast+\<close>)

section \<open>The reader\<close>

lemma count_plain: "c \<noteq> 34 \<Longrightarrow> c \<noteq> 92 \<Longrightarrow> count_chars (c # q) = bind_outcome (count_chars q) (\<lambda>n. Ok (n + 1))"
  by (subst count_chars.simps) simp

lemma count_escape: "count_chars (92 # e # q) = bind_outcome (count_chars q) (\<lambda>n. Ok (n + 1))"
  by (subst count_chars.simps) simp

lemma count_quoted: "0 \<notin> set s \<Longrightarrow> \<exists>n\<ge>length s. count_chars (concat (map escape_char s) @ 34 # q) = Ok n"
proof (induction s)
  case Nil
  then show ?case by (subst count_chars.simps) simp
next
  case (Cons c s)
  then obtain n where n: "length s \<le> n" "count_chars (concat (map escape_char s) @ 34 # q) = Ok n" by auto
  have c: "c \<noteq> 0" using Cons.prems by auto
  show ?case
  proof (cases rule: escape_cases [OF c, where q = "[]"])
    case 3
    then show ?thesis using n hex_escape(2-5) [OF c 3(2)] by (simp add: count_plain count_escape)
  qed (use n in \<open>simp_all add: count_plain count_escape\<close>)
qed

lemma copy_quoted:
  "0 \<notin> set s \<Longrightarrow> length s < fuel \<Longrightarrow> length out + length s < room \<Longrightarrow> copy_chars fuel room out (concat (map escape_char s) @ 34 # q) = Ok (out @ s, 34 # q)"
proof (induction s arbitrary: fuel out)
  case Nil
  then show ?case by (cases fuel) simp_all
next
  case (Cons c s)
  obtain f where f: "fuel = Suc f" using Cons.prems by (cases fuel) simp_all
  have ih: "copy_chars f room (out @ [c]) (concat (map escape_char s) @ 34 # q) = Ok (out @ c # s, 34 # q)"
    using Cons.IH [of f "out @ [c]"] Cons.prems f by simp
  have c: "c \<noteq> 0" using Cons.prems by auto
  show ?case
  proof (cases rule: escape_cases [OF c, where q = "concat (map escape_char s) @ 34 # q"])
    case 1
    then show ?thesis using ih f Cons.prems by simp
  next
    case (2 e)
    then show ?thesis using ih f Cons.prems by (simp add: adv_def)
  next
    case 3
    then show ?thesis using ih f Cons.prems hex_escape(1) [OF c 3(2)] by (simp add: adv_def)
  qed
qed

lemma parse_quoted:
  assumes "0 \<notin> set s"
  shows "parse_string (quoted s @ q) = Ok (s, q)"
proof -
  let ?t = "concat (map escape_char s) @ 34 # q"
  obtain n where n: "length s \<le> n" "count_chars ?t = Ok n" using count_quoted [OF assms] by blast
  have "length s \<le> length (concat (map escape_char s))"
  proof (induction s)
    case (Cons c s)
    have "1 \<le> length (escape_char c)" by (simp add: escape_char_def split: option.split)
    then show ?case using Cons by simp
  qed simp
  then have "copy_chars (length (34 # ?t)) (n + 1) [] ?t = Ok (s, 34 # q)"
    using copy_quoted [OF assms, of "length (34 # ?t)" "[]" "n + 1" q] n(1) by (simp del: copy_chars.simps)
  then show ?thesis using n(2) by (simp add: parse_string_def quoted_def)
qed

section \<open>The writer\<close>

lemma escaped_len: "0 \<notin> set s \<Longrightarrow> length (concat (map escape_char s)) = escaped_len s"
proof (induction s)
  case (Cons c s)
  have c: "c \<noteq> 0" using Cons.prems by auto
  have "length (escape_char c) = (if short_escape c \<noteq> None then 2 else if c < 32 then 6 else 1)"
    by (cases rule: escape_cases [OF c, where q = "[]"]) (auto simp: word_less_nat_alt)
  then show ?case using Cons by (simp add: escaped_len_def)
qed (simp add: escaped_len_def)

lemma string_parts_quoted:
  assumes "0 \<notin> set s"
  shows "string_parts s = (length (quoted s) + 1, quoted s)"
proof (cases "list_ex special s")
  case True
  then show ?thesis using escaped_len [OF assms] by (simp add: string_parts_def quoted_def)
next
  case False
  have "escape_char c = [c]" if "c \<in> set s" for c
  proof -
    have "c \<noteq> 0" "\<not> special c" using assms that False by (auto simp: list_ex_iff)
    then show ?thesis by (cases rule: escape_cases [OF \<open>c \<noteq> 0\<close>, where q = "[]"]) auto
  qed
  then have "concat (map escape_char s) = s" by (induction s) simp_all
  then show ?thesis using False by (simp add: string_parts_def quoted_def)
qed

lemma print_quoted: "0 \<notin> set s \<Longrightarrow> print_string_ptr (Some s) = Ok (quoted s)"
  by (simp add: print_string_ptr_def string_parts_quoted put_text_def)

end
