(* ===== verification/CjsonText.thy ===== *)
theory CjsonText
  imports CjsonProps
begin

text \<open>
  Whole texts: reading back what was written, removing blanks, how much fuel the reader needs, and where it leaves the text it reads.
\<close>

section \<open>Meaning\<close>

lemma those_Some_map: "those (map f xs) = Some ys \<longleftrightarrow> map f xs = map Some ys"
  by (induction xs arbitrary: ys) (auto split: option.splits)

lemma meaning_valid: "meaning v = Some j \<Longrightarrow> valid j"
proof (induction v arbitrary: j rule: meaning.induct)
  case (1 t cs vs vi vd nm)
  consider "t mod 256 = cJSON_Array" | "t mod 256 = cJSON_Object" | "t mod 256 \<noteq> cJSON_Array" "t mod 256 \<noteq> cJSON_Object" by blast
  then show ?case
  proof cases
    case 1
    then obtain js where js: "map meaning cs = map Some js" "j = JArr js" using "1.prems" by (auto simp: Let_def cjson_types those_Some_map)
    have "valid x" if "x \<in> set js" for x
    proof -
      have "Some x \<in> set (map meaning cs)" using that js(1) by simp
      then obtain c where "c \<in> set cs" "meaning c = Some x" by auto
      then show ?thesis using "1.IH"(1) [of "t mod 256" c x] 1 by (simp add: cjson_types)
    qed
    then show ?thesis using js(2) by (simp add: list_all_iff)
  next
    case 2
    let ?f = "\<lambda>c. case (jstring c, meaning c) of (Some s, Some j) \<Rightarrow> if 0 \<in> set s then None else Some (s, j) | _ \<Rightarrow> None"
    obtain ms where ms: "map ?f cs = map Some ms" "j = JObj ms" using "1.prems" 2 by (auto simp: Let_def cjson_types those_Some_map)
    have "0 \<notin> set s \<and> valid x" if "(s, x) \<in> set ms" for s x
    proof -
      have "Some (s, x) \<in> set (map ?f cs)" unfolding ms(1) using that by simp
      then obtain c where c: "c \<in> set cs" "?f c = Some (s, x)" by auto
      then have "jstring c = Some s" "meaning c = Some x" "0 \<notin> set s" by (cases "jstring c"; cases "meaning c"; auto split: if_splits)+
      then show ?thesis using "1.IH"(2) [of "t mod 256" c x] 2 c(1) by (simp add: cjson_types)
    qed
    then show ?thesis using ms(2) by (auto simp: list_all_iff)
  next
    case 3
    then show ?thesis using "1.prems" by (auto simp: Let_def split: if_splits option.splits)
  qed
qed

lemma meaning_set_name: "meaning (set_name s i) = meaning i"
  by (cases i) (simp add: set_name_def)

lemma jstring_set_name: "jstring (set_name s i) = s"
  by (cases i) (simp add: set_name_def)

lemma meaning_item_of: "valid j \<Longrightarrow> meaning (item_of j) = Some j"
proof (induction j)
  case (JNum i)
  then show ?case by (simp add: number_item_def double_to_int_of_int cjson_types)
next
  case (JArr js)
  have "map meaning (map item_of js) = map Some js" using JArr by (simp add: list_all_iff)
  then show ?case by (simp add: cjson_types those_Some_map)
next
  case (JObj ms)
  let ?f = "\<lambda>c. case (jstring c, meaning c) of (Some s, Some j) \<Rightarrow> if 0 \<in> set s then None else Some (s, j) | _ \<Rightarrow> None"
  have "?f (set_name (Some s) (item_of j)) = Some (s, j)" if "(s, j) \<in> set ms" for s j
  proof -
    have "meaning (item_of j) = Some j" "0 \<notin> set s" using JObj(1) [OF that, of j] JObj(2) that by (auto simp: list_all_iff snds.intros)
    then show ?thesis by (simp add: meaning_set_name jstring_set_name)
  qed
  then have "map ?f (map (\<lambda>(s, j). set_name (Some s) (item_of j)) ms) = map Some ms" by auto
  then show ?case unfolding item_of_Obj by (simp add: cjson_types those_Some_map del: map_map)
qed (simp_all add: cjson_types string_item_def)

text \<open>Reading the whole text of a value.\<close>

lemma parse_jtext:
  assumes "valid j"
  shows "cJSON_ParseWithOpts (jtext j d fmt) True = Ok (item_of j, [])" "cJSON_Parse (jtext j d fmt) = Ok (item_of j)"
proof -
  have "skip (jtext j d fmt) = jtext j d fmt" using jtext_skip [of "[]" j d fmt "[]"] by simp
  moreover have "parse_value (parse_fuel (jtext j d fmt)) (jtext j d fmt @ []) = Ok (item_of j, [])"
    by (rule parse_value_text [OF assms]) (simp_all add: ends_number_def isdigit_def parse_fuel_def)
  ultimately show "cJSON_ParseWithOpts (jtext j d fmt) True = Ok (item_of j, [])" "cJSON_Parse (jtext j d fmt) = Ok (item_of j)"
    by (simp_all add: cJSON_ParseWithOpts_def cJSON_Parse_def skip_def)
qed

section \<open>Removing blanks\<close>

definition solid :: "byte \<Rightarrow> bool" where
  "solid c \<longleftrightarrow> \<not> minify_blank c \<and> c \<noteq> 47 \<and> c \<noteq> 34"

definition glue :: "byte list \<Rightarrow> (byte list, byte list) outcome \<Rightarrow> (byte list, byte list) outcome" where
  "glue t r = bind_outcome r (\<lambda>r. Ok (t @ r))"

lemma glue_glue [simp]: "glue a (glue b r) = glue (a @ b) r"
  by (cases r) (simp_all add: glue_def)

lemma glue_Nil [simp]: "glue [] r = r"
  by (cases r) (simp_all add: glue_def)

lemma minify_blanks: "list_all minify_blank w \<Longrightarrow> cJSON_Minify (w @ q) = cJSON_Minify q"
proof (induction w)
  case (Cons c w)
  have "cJSON_Minify (c # w @ q) = cJSON_Minify (w @ q)" using Cons.prems by (subst cJSON_Minify.simps) simp
  then show ?case using Cons by simp
qed simp

lemma minify_solid: "list_all solid t \<Longrightarrow> cJSON_Minify (t @ q) = glue t (cJSON_Minify q)"
proof (induction t)
  case (Cons c t)
  have "cJSON_Minify (c # t @ q) = glue [c] (cJSON_Minify (t @ q))" using Cons.prems by (subst cJSON_Minify.simps) (simp add: solid_def glue_def)
  then show ?case using Cons by simp
qed simp

lemma literal_quoted: "0 \<notin> set s \<Longrightarrow> literal_end (concat (map escape_char s) @ 34 # q) = Ok (concat (map escape_char s) @ [34], q)"
proof (induction s)
  case (Cons c s)
  have c: "c \<noteq> 0" using Cons.prems by auto
  show ?case
  proof (cases rule: escape_cases [OF c, where q = "[]"])
    case 3
    then show ?thesis using Cons hex_escape(2-5) [OF c 3(2)] by simp
  qed (use Cons in simp_all)
qed simp

lemma minify_quoted: "0 \<notin> set s \<Longrightarrow> cJSON_Minify (quoted s @ q) = glue (quoted s) (cJSON_Minify q)"
proof -
  assume s: "0 \<notin> set s"
  have "quoted s @ q = 34 # concat (map escape_char s) @ 34 # q" by (simp add: quoted_def)
  then show ?thesis using literal_quoted [OF s, of q] by (simp only:, subst cJSON_Minify.simps) (simp add: minify_blank_def glue_def quoted_def)
qed

lemma blank_tabs [simp]: "list_all minify_blank (tabs n)"
  by (simp add: tabs_def list_all_length minify_blank_def)

lemma solid_fmt_d: "list_all solid (fmt_d i)"
proof -
  have "isdigit c \<Longrightarrow> solid c" for c by (auto simp: isdigit_def solid_def minify_blank_def word_le_nat_alt)
  then have "list_all solid (str (udec n))" for n using udec_digits(1) [of n] by (auto simp: list_all_iff)
  then show ?thesis by (simp add: fmt_d_def solid_def minify_blank_def)
qed

lemma minify_items:
  assumes "\<And>j q. j \<in> set js \<Longrightarrow> cJSON_Minify (f j @ q) = glue (g j) (cJSON_Minify q)"
  shows "cJSON_Minify (items_text fmt (map f js) @ q) = glue (items_text False (map g js)) (cJSON_Minify q)"
  using assms
proof (induction js)
  case (Cons j js)
  have s: "cJSON_Minify (44 # q) = glue [44] (cJSON_Minify q)" for q using minify_solid [of "[44]" q] by (simp add: solid_def minify_blank_def)
  have b: "cJSON_Minify (32 # q) = cJSON_Minify q" for q using minify_blanks [of "[32]" q] by (simp add: minify_blank_def)
  have ih: "cJSON_Minify (items_text fmt (map f js) @ q) = glue (items_text False (map g js)) (cJSON_Minify q)"
    by (rule Cons.IH [OF Cons.prems]) simp
  have "cJSON_Minify (f j @ p) = glue (g j) (cJSON_Minify p)" for p using Cons.prems by simp
  then show ?case using ih s b by (cases "js = []"; cases fmt) simp_all
qed simp

lemma minify_members:
  assumes "\<And>s j q. (s, j) \<in> set ms \<Longrightarrow> cJSON_Minify (f j @ q) = glue (g j) (cJSON_Minify q)" "\<And>s j. (s, j) \<in> set ms \<Longrightarrow> 0 \<notin> set s"
  shows "cJSON_Minify (members_text fmt d (map (\<lambda>(s, j). (quoted s, f j)) ms) @ q) = glue (members_text False e (map (\<lambda>(s, j). (quoted s, g j)) ms)) (cJSON_Minify q)"
  using assms
proof (induction ms)
  case (Cons m ms)
  obtain s j where m: "m = (s, j)" by fastforce
  have sol: "cJSON_Minify (44 # q) = glue [44] (cJSON_Minify q)" "cJSON_Minify (58 # q) = glue [58] (cJSON_Minify q)" for q
    using minify_solid [of "[44]" q] minify_solid [of "[58]" q] by (simp_all add: solid_def minify_blank_def)
  have bl: "cJSON_Minify (10 # q) = cJSON_Minify q" "cJSON_Minify (9 # q) = cJSON_Minify q" for q
    using minify_blanks [of "[10]" q] minify_blanks [of "[9]" q] by (simp_all add: minify_blank_def)
  have ih: "cJSON_Minify (members_text fmt d (map (\<lambda>(s, j). (quoted s, f j)) ms) @ q) = glue (members_text False e (map (\<lambda>(s, j). (quoted s, g j)) ms)) (cJSON_Minify q)"
    by (rule Cons.IH [OF Cons.prems]) (auto intro: list.set_intros)
  have "cJSON_Minify (f j @ q) = glue (g j) (cJSON_Minify q)" for q using Cons.prems(1) [of s j q] m by simp
  then show ?case using ih m minify_quoted [of s] Cons.prems(2) [of s j] minify_blanks [OF blank_tabs]
    by (cases "ms = []"; cases fmt) (simp_all add: member_text_def sol bl)
qed simp

lemma minify_jtext: "valid j \<Longrightarrow> cJSON_Minify (jtext j d fmt @ q) = glue (jtext j e False) (cJSON_Minify q)"
proof (induction j arbitrary: d e q)
  case (JNum i)
  then show ?case using minify_solid [OF solid_fmt_d] by simp
next
  case (JStr s)
  then show ?case using minify_quoted by simp
next
  case (JArr js)
  have "cJSON_Minify (items_text fmt (map (\<lambda>j. jtext j (d + 1) fmt) js) @ p) = glue (items_text False (map (\<lambda>j. jtext j (e + 1) False) js)) (cJSON_Minify p)" for p
    by (rule minify_items) (use JArr in \<open>auto simp: list_all_iff\<close>)
  then show ?case using minify_solid [of "[91]"] minify_solid [of "[93]"]
    by (simp add: jtext_Arr array_text_def solid_def minify_blank_def del: jtext.simps)
next
  case (JObj ms)
  have v: "valid j \<and> 0 \<notin> set s" if "(s, j) \<in> set ms" for s j using JObj(2) that by (auto simp: list_all_iff)
  have m: "cJSON_Minify (members_text fmt (d + 1) (map (\<lambda>(s, j). (quoted s, jtext j (d + 1) fmt)) ms) @ p) =
    glue (members_text False (e + 1) (map (\<lambda>(s, j). (quoted s, jtext j (e + 1) False)) ms)) (cJSON_Minify p)" for p
    by (rule minify_members) (use JObj(1) v in \<open>auto intro: snds.intros\<close>)
  have sol: "cJSON_Minify (123 # p) = glue [123] (cJSON_Minify p)" "cJSON_Minify (125 # p) = glue [125] (cJSON_Minify p)" for p
    using minify_solid [of "[123]" p] minify_solid [of "[125]" p] by (simp_all add: solid_def minify_blank_def)
  have bl: "cJSON_Minify (10 # p) = cJSON_Minify p" for p using minify_blanks [of "[10]" p] by (simp add: minify_blank_def)
  show ?case using m minify_blanks [OF blank_tabs]
    by (cases "ms = []"; cases fmt) (simp_all add: jtext_Obj object_text_def sol bl del: jtext.simps)
qed (simp_all only: jtext.simps, (rule minify_solid, simp add: str_literals solid_def minify_blank_def)+)

section \<open>Fuel\<close>

lemma bind_outcome_Ok: "bind_outcome r f = Ok y \<longleftrightarrow> (\<exists>x. r = Ok x \<and> f x = Ok y)"
  by (cases r) simp_all

lemma skip_length: "length (skip p) \<le> length p"
  by (simp add: skip_def length_dropWhile_le)

lemma adv_length: "adv k p = Ok q \<Longrightarrow> length q + k = length p"
  by (auto simp: adv_def split: if_splits)

lemma escape_u_length: "escape_u p = Ok (cs, q) \<Longrightarrow> length q \<le> length p"
  unfolding escape_u_def Let_def by (fastforce simp: bind_outcome_Ok dest: adv_length split: if_splits)

lemma parse_escape_length: "parse_escape p = Ok (cs, q) \<Longrightarrow> length q \<le> length p"
  by (auto simp: parse_escape_def dest: escape_u_length split: if_splits)

lemma copy_chars_length: "copy_chars fuel room out p = Ok (s, q) \<Longrightarrow> length q \<le> length p"
proof (induction fuel arbitrary: out p)
  case (Suc fuel)
  consider "at0 p = 34 \<or> p = []" | "at0 p \<noteq> 34" "p \<noteq> []" "at0 p \<noteq> 92" | "at0 p = 92" "p \<noteq> []" by blast
  then show ?case
  proof cases
    case 1
    then show ?thesis using Suc.prems by (auto split: if_splits)
  next
    case 2
    then have "copy_chars fuel room (out @ [at0 p]) (drop 1 p) = Ok (s, q)" using Suc.prems by (auto split: if_splits)
    then show ?thesis using Suc.IH by fastforce
  next
    case 3
    then obtain cs p1 p2 where e: "parse_escape (drop 1 p) = Ok (cs, p1)" "adv 1 p1 = Ok p2" "copy_chars fuel room (out @ cs) p2 = Ok (s, q)"
      using Suc.prems by (auto simp: bind_outcome_Ok split: if_splits)
    then show ?thesis using Suc.IH [OF e(3)] parse_escape_length [OF e(1)] adv_length [OF e(2)] by simp
  qed
qed simp

lemma parse_string_length: "parse_string p = Ok (s, q) \<Longrightarrow> length q < length p"
proof -
  assume "parse_string p = Ok (s, q)"
  then obtain n out r where r: "at0 p = 34" "copy_chars (length p) (n + 1) [] (drop 1 p) = Ok (out, r)" "q = (if at0 r = 34 then drop 1 r else r)"
    by (auto simp: parse_string_def bind_outcome_Ok split: if_splits)
  then have "length r \<le> length p - 1" using copy_chars_length [OF r(2)] by simp
  moreover have "p \<noteq> []" using r(1) by auto
  ultimately show ?thesis using r(3) by (cases p) auto
qed

lemma number_rest: "length (snd (number_int p)) \<le> length p" "length (snd (snd (number_frac n p))) \<le> length p" "length (snd (number_exp p)) \<le> length p"
proof -
  have dw: "length (dropWhile isdigit x) \<le> length x" for x by (rule length_dropWhile_le)
  show "length (snd (number_int p)) \<le> length p" using dw [of p] dw [of "drop 1 p"] by (auto simp: number_int_def Let_def)
  show "length (snd (snd (number_frac n p))) \<le> length p" using dw [of "drop 1 p"] by (auto simp: number_frac_def)
  show "length (snd (number_exp p)) \<le> length p"
    using dw [of "drop 1 (drop 1 p)"] dw [of "drop 1 p"] by (auto simp: number_exp_def Let_def)
qed

lemma number_int_digit: "48 \<le> at0 p \<Longrightarrow> at0 p \<le> 57 \<Longrightarrow> length (snd (number_int p)) < length p"
proof (cases p)
  case (Cons c r)
  assume "48 \<le> at0 p" "at0 p \<le> 57"
  moreover have "length (dropWhile isdigit r) \<le> length r" by (rule length_dropWhile_le)
  moreover have "49 \<le> c \<Longrightarrow> c \<le> 57 \<Longrightarrow> isdigit c" "48 \<le> c \<Longrightarrow> c \<noteq> 48 \<Longrightarrow> 49 \<le> c" by (auto simp: isdigit_def word_le_nat_alt word_unat_eq_iff)
  ultimately show ?thesis using Cons by (auto simp: number_int_def Let_def)
qed (simp add: word_le_nat_alt)

lemma parse_number_length: "at0 p = 45 \<or> (48 \<le> at0 p \<and> at0 p \<le> 57) \<Longrightarrow> parse_number p = (c, q) \<Longrightarrow> length q < length p"
proof -
  assume h: "at0 p = 45 \<or> (48 \<le> at0 p \<and> at0 p \<le> 57)" and eq: "parse_number p = (c, q)"
  let ?p = "if at0 p = 45 then drop 1 p else p"
  obtain n p1 where 1: "number_int ?p = (n, p1)" by fastforce
  obtain n2 sc p2 where 2: "number_frac n p1 = (n2, sc, p2)" by (metis surj_pair)
  obtain ss p3 where 3: "number_exp p2 = (ss, p3)" by fastforce
  have "q = p3" using eq 1 2 3 by (auto simp: parse_number_def split: if_splits)
  moreover have "length p3 \<le> length p1" using number_rest(2) [of n p1] number_rest(3) [of p2] 2 3 by simp
  moreover have "length p1 < length p"
  proof (cases "at0 p = 45")
    case True
    then have "p \<noteq> []" by auto
    then show ?thesis using number_rest(1) [of "drop 1 p"] 1 True by (cases p) auto
  next
    case False
    then show ?thesis using number_int_digit [of p] 1 h by simp
  qed
  ultimately show ?thesis by simp
qed

text \<open>Every value takes at least one character.\<close>

definition eats :: "parser \<Rightarrow> bool" where
  "eats pv \<longleftrightarrow> (\<forall>t c p. pv t = Ok (c, p) \<longrightarrow> length p < length t)"

lemma parse_items_length: "eats pv \<Longrightarrow> parse_items pv n cs t = Ok (cs', p) \<Longrightarrow> length p < length t"
proof (induction n arbitrary: cs t)
  case (Suc n)
  obtain c q where c: "pv (skip t) = Ok (c, q)" using Suc.prems(2) by (auto simp: bind_outcome_Ok)
  have len: "length q < length t" using Suc.prems(1) c skip_length [of t] unfolding eats_def by (meson less_le_trans)
  show ?case
  proof (cases "at0 (skip q) = 44")
    case True
    then have "parse_items pv n (cs @ [c]) (drop 1 (skip q)) = Ok (cs', p)" using Suc.prems(2) c by (simp add: Let_def)
    then have "length p < length (drop 1 (skip q))" by (rule Suc.IH [OF Suc.prems(1)])
    then show ?thesis using len skip_length [of q] by simp
  next
    case False
    then show ?thesis using Suc.prems(2) c len skip_length [of q] by (auto simp: Let_def)
  qed
qed simp

lemma parse_members_length: "eats pv \<Longrightarrow> parse_members pv n cs t = Ok (cs', p) \<Longrightarrow> length p < length t"
proof (induction n arbitrary: cs t)
  case (Suc n)
  obtain s q where s: "parse_string (skip t) = Ok (s, q)" "at0 (skip q) = 58" using Suc.prems(2) by (auto simp: bind_outcome_Ok Let_def split: if_splits)
  obtain c r where c: "pv (skip (drop 1 (skip q))) = Ok (c, r)" using Suc.prems(2) s by (auto simp: bind_outcome_Ok Let_def)
  have "length r < length (skip (drop 1 (skip q)))" using Suc.prems(1) c by (simp add: eats_def)
  then have len: "length r < length t" using parse_string_length [OF s(1)] skip_length [of t] skip_length [of q] skip_length [of "drop 1 (skip q)"] by simp
  show ?case
  proof (cases "at0 (skip r) = 44")
    case True
    then have "parse_members pv n (cs @ [set_name (Some s) c]) (drop 1 (skip r)) = Ok (cs', p)" using Suc.prems(2) s c by (simp add: Let_def)
    then have "length p < length (drop 1 (skip r))" by (rule Suc.IH [OF Suc.prems(1)])
    then show ?thesis using len skip_length [of r] by simp
  next
    case False
    then show ?thesis using Suc.prems(2) s c len skip_length [of r] by (auto simp: Let_def)
  qed
qed simp

lemma parse_value_eats: "eats (parse_value n)"
proof (induction n)
  case 0
  then show ?case by (simp add: eats_def)
next
  case (Suc n)
  have drp: "length (drop 1 x) < length t" if "length x \<le> length t" "t \<noteq> []" for x t :: "byte list" using that by (cases x) auto
  have "length p < length t" if eq: "parse_value (Suc n) t = Ok (c, p)" for t c p
  proof -
    have ne: "t \<noteq> []" using eq by (auto simp: str_literals)
    have arr: "length p < length t" if "parse_array (parse_value n) n t = Ok (c, p)"
      using that drp [OF skip_length] ne parse_items_length [OF Suc, of n "[]" "skip (drop 1 t)"] skip_length [of "drop 1 t"]
      by (fastforce simp: parse_array_def Let_def bind_outcome_Ok split: if_splits)
    have obj: "length p < length t" if "parse_object (parse_value n) n t = Ok (c, p)"
      using that drp [OF skip_length] ne parse_members_length [OF Suc, of n "[]" "skip (drop 1 t)"] skip_length [of "drop 1 t"]
      by (fastforce simp: parse_object_def Let_def bind_outcome_Ok split: if_splits)
    show ?thesis using eq ne arr obj parse_string_length [of t] parse_number_length [of t]
      by (auto simp: bind_outcome_Ok split: if_splits)
  qed
  then show ?case by (simp add: eats_def)
qed

lemma parse_items_fuel:
  assumes "eats pv" "\<And>u. length u \<le> length t \<Longrightarrow> pv u = pv' u" "length t < n" "length t < m"
  shows "parse_items pv n cs t = parse_items pv' m cs t"
  using assms
proof (induction n arbitrary: m cs t)
  case (Suc n)
  obtain k where k: "m = Suc k" using Suc.prems(4) by (cases m) auto
  have pv: "pv' (skip t) = pv (skip t)" using Suc.prems(2) skip_length by simp
  show ?case
  proof (cases "pv (skip t)")
    case (Ok x)
    obtain c q where x: "x = (c, q)" by fastforce
    have "length q < length t" using Suc.prems(1) Ok x skip_length [of t] unfolding eats_def by (meson less_le_trans)
    then have l: "length (drop 1 (skip q)) < length t" using skip_length [of q] by simp
    have "parse_items pv n (cs @ [c]) (drop 1 (skip q)) = parse_items pv' k (cs @ [c]) (drop 1 (skip q))"
      by (rule Suc.IH [OF Suc.prems(1)]) (use l Suc.prems(2-4) k in simp_all)
    then show ?thesis using Ok x pv k by (simp add: Let_def)
  qed (use pv k in simp_all)
qed simp

lemma parse_members_fuel:
  assumes "eats pv" "\<And>u. length u \<le> length t \<Longrightarrow> pv u = pv' u" "length t < n" "length t < m"
  shows "parse_members pv n cs t = parse_members pv' m cs t"
  using assms
proof (induction n arbitrary: m cs t)
  case (Suc n)
  obtain k where k: "m = Suc k" using Suc.prems(4) by (cases m) auto
  show ?case
  proof (cases "parse_string (skip t)")
    case (Ok x)
    obtain s q where x: "x = (s, q)" by fastforce
    have q: "length q < length t" using parse_string_length [of "skip t" s q] Ok x skip_length [of t] by simp
    let ?u = "skip (drop 1 (skip q))"
    have u: "length ?u \<le> length t" using q skip_length [of q] skip_length [of "drop 1 (skip q)"] by simp
    then have pv: "pv' ?u = pv ?u" using Suc.prems(2) by simp
    have "parse_members pv n (cs @ [c]) (drop 1 (skip r)) = parse_members pv' k (cs @ [c]) (drop 1 (skip r))" if "pv ?u = Ok (c0, r)" for c c0 r
    proof -
      have "length r < length ?u" using Suc.prems(1) that by (simp add: eats_def)
      then have l: "length (drop 1 (skip r)) < length t" using u skip_length [of r] by simp
      show ?thesis by (rule Suc.IH [OF Suc.prems(1)]) (use l Suc.prems(2-4) k in simp_all)
    qed
    then show ?thesis using Ok x pv k by (cases "pv ?u") (auto simp: Let_def)
  qed (use k in simp_all)
qed simp

lemma parse_value_fuel: "length t < n \<Longrightarrow> length t < m \<Longrightarrow> parse_value n t = parse_value m t"
proof (induction n arbitrary: m t)
  case (Suc n)
  obtain k where k: "m = Suc k" using Suc.prems(2) by (cases m) auto
  let ?u = "skip (drop 1 t)"
  have u: "length ?u < length t" if "t \<noteq> []" using skip_length [of "drop 1 t"] that by (cases t) auto
  have same: "parse_value n v = parse_value k v" if "length v \<le> length ?u" "t \<noteq> []" for v using Suc.IH [of v k] that u Suc.prems k by simp
  have "parse_items (parse_value n) n [] ?u = parse_items (parse_value k) k [] ?u" if "t \<noteq> []"
    by (rule parse_items_fuel [OF parse_value_eats]) (use same that u Suc.prems k in simp_all)
  then have a: "parse_array (parse_value n) n t = parse_array (parse_value k) k t" by (cases "t = []") (simp_all add: parse_array_def Let_def)
  have "parse_members (parse_value n) n [] ?u = parse_members (parse_value k) k [] ?u" if "t \<noteq> []"
    by (rule parse_members_fuel [OF parse_value_eats]) (use same that u Suc.prems k in simp_all)
  then have o: "parse_object (parse_value n) n t = parse_object (parse_value k) k t" by (cases "t = []") (simp_all add: parse_object_def Let_def)
  show ?case unfolding k using a o by simp
qed simp

section \<open>Texts without backslashes\<close>

text \<open>The reader then stays inside the text and inside the block it allocates.\<close>

lemma count_chars_plain: "92 \<notin> set p \<Longrightarrow> count_chars p = Ok (length (takeWhile (\<lambda>c. c \<noteq> 34) p))"
proof (induction p)
  case Nil
  then show ?case by (subst count_chars.simps) simp
next
  case (Cons c p)
  then show ?case by (subst count_chars.simps) auto
qed

lemma copy_chars_plain:
  "92 \<notin> set p \<Longrightarrow> length p < fuel \<Longrightarrow> length out + length (takeWhile (\<lambda>c. c \<noteq> 34) p) < room \<Longrightarrow>
   copy_chars fuel room out p = Ok (out @ takeWhile (\<lambda>c. c \<noteq> 34) p, dropWhile (\<lambda>c. c \<noteq> 34) p)"
proof (induction fuel arbitrary: out p)
  case (Suc fuel)
  show ?case
  proof (cases p)
    case (Cons c r)
    then show ?thesis using Suc.prems Suc.IH [of r "out @ [c]"] by (cases "c = 34") auto
  qed (use Suc.prems in simp)
qed simp

lemma parse_string_plain:
  assumes "92 \<notin> set p"
  shows "parse_string p = (if at0 p \<noteq> 34 then Fail p else Ok (takeWhile (\<lambda>c. c \<noteq> 34) (drop 1 p), drop 1 (dropWhile (\<lambda>c. c \<noteq> 34) (drop 1 p))))"
proof (cases "at0 p = 34")
  case True
  then obtain r where r: "p = 34 # r" by (cases p) auto
  then have r92: "92 \<notin> set r" using assms by simp
  let ?d = "dropWhile (\<lambda>c. c \<noteq> 34) r"
  have "(if at0 ?d = 34 then drop 1 ?d else ?d) = drop 1 ?d"
  proof (cases "?d = []")
    case False
    then have "hd ?d = 34" using hd_dropWhile [of "\<lambda>c. c \<noteq> 34" r] by blast
    then have "at0 ?d = 34" using False unfolding at0_def by (metis list.case_eq_if)
    then show ?thesis by presburger
  next
    case True
    then show ?thesis by (metis drop_Nil)
  qed
  then show ?thesis using r count_chars_plain [OF r92] copy_chars_plain [OF r92, of "length p" "[]" "length (takeWhile (\<lambda>c. c \<noteq> 34) r) + 1"]
    by (simp add: parse_string_def del: copy_chars.simps dropWhile_eq_Nil_conv)
qed (simp add: parse_string_def)

definition inside :: "nat \<Rightarrow> parser \<Rightarrow> bool" where
  "inside n pv \<longleftrightarrow> (\<forall>t. 92 \<notin> set t \<longrightarrow> length t < n \<longrightarrow> pv t \<noteq> Over \<and> (\<forall>c p. pv t = Ok (c, p) \<longrightarrow> set p \<subseteq> set t))"

lemma skip_set: "set (skip p) \<subseteq> set p"
  by (auto simp: skip_def dest: set_dropWhileD)

lemma drop_skip_set: "set (drop k (skip p)) \<subseteq> set p"
  by (rule order_trans [OF set_drop_subset skip_set])

lemma inside_items:
  assumes "inside n pv" "eats pv" "92 \<notin> set t" "length t < n" "length t < m"
  shows "parse_items pv m cs t \<noteq> Over \<and> (\<forall>cs' p. parse_items pv m cs t = Ok (cs', p) \<longrightarrow> set p \<subseteq> set t)"
  using assms(3-5)
proof (induction m arbitrary: cs t)
  case (Suc m)
  have s: "92 \<notin> set (skip t)" "length (skip t) < n" using Suc.prems skip_set [of t] skip_length [of t] by auto
  then have v: "pv (skip t) \<noteq> Over" "\<And>c p. pv (skip t) = Ok (c, p) \<Longrightarrow> set p \<subseteq> set t" using assms(1) skip_set [of t] unfolding inside_def by blast+
  show ?case
  proof (cases "pv (skip t)")
    case (Ok x)
    obtain c q where x: "x = (c, q)" by fastforce
    have q: "set q \<subseteq> set t" using v(2) Ok x by simp
    have "length q < length t" using assms(2) Ok x skip_length [of t] unfolding eats_def by (meson less_le_trans)
    then have l: "length (drop 1 (skip q)) < n" "length (drop 1 (skip q)) < m" using skip_length [of q] Suc.prems by simp_all
    have d: "set (drop 1 (skip q)) \<subseteq> set t" "set (skip q) \<subseteq> set t" using drop_skip_set [of 1 q] skip_set [of q] q by blast+
    have "parse_items pv m (cs @ [c]) (drop 1 (skip q)) \<noteq> Over \<and> (\<forall>cs' p. parse_items pv m (cs @ [c]) (drop 1 (skip q)) = Ok (cs', p) \<longrightarrow> set p \<subseteq> set (drop 1 (skip q)))"
      by (rule Suc.IH) (use l d Suc.prems(1) in auto)
    then show ?thesis using Ok x d order_trans [OF _ d(1)] by (simp add: Let_def)
  qed (use v in simp_all)
qed simp

lemma inside_members:
  assumes "inside n pv" "eats pv" "92 \<notin> set t" "length t < n" "length t < m"
  shows "parse_members pv m cs t \<noteq> Over \<and> (\<forall>cs' p. parse_members pv m cs t = Ok (cs', p) \<longrightarrow> set p \<subseteq> set t)"
  using assms(3-5)
proof (induction m arbitrary: cs t)
  case (Suc m)
  have s92: "92 \<notin> set (skip t)" using Suc.prems(1) skip_set [of t] by auto
  show ?case
  proof (cases "parse_string (skip t)")
    case (Ok x)
    obtain s q where x: "x = (s, q)" by fastforce
    have "set q \<subseteq> set (skip t)" using Ok x unfolding parse_string_plain [OF s92] by (auto split: if_splits dest!: in_set_dropD set_dropWhileD)
    then have qt: "set q \<subseteq> set t" using skip_set [of t] by blast
    have ql: "length q < length t" using parse_string_length [of "skip t" s q] Ok x skip_length [of t] by simp
    let ?u = "skip (drop 1 (skip q))"
    have u: "set ?u \<subseteq> set t" "length ?u < length t" using skip_set [of "drop 1 (skip q)"] drop_skip_set [of 1 q] qt ql skip_length [of q] skip_length [of "drop 1 (skip q)"] by auto
    have "92 \<notin> set ?u" "length ?u < n" using u Suc.prems(1,2) by auto
    then have "pv ?u \<noteq> Over" "\<And>c p. pv ?u = Ok (c, p) \<Longrightarrow> set p \<subseteq> set ?u" using assms(1) unfolding inside_def by blast+
    then have v: "pv ?u \<noteq> Over" "\<And>c p. pv ?u = Ok (c, p) \<Longrightarrow> set p \<subseteq> set t" using u(1) order_trans by blast+
    show ?thesis
    proof (cases "pv ?u")
      case ok: (Ok y)
      obtain c r where y: "y = (c, r)" by fastforce
      have r: "set r \<subseteq> set t" using v(2) ok y by simp
      have "length r < length ?u" using assms(2) ok y by (simp add: eats_def)
      then have l: "length (drop 1 (skip r)) < n" "length (drop 1 (skip r)) < m" using skip_length [of r] u(2) Suc.prems by simp_all
      have d: "set (drop 1 (skip r)) \<subseteq> set t" "set (skip r) \<subseteq> set t" using drop_skip_set [of 1 r] skip_set [of r] r by blast+
      have "parse_members pv m (cs @ [set_name (Some s) c]) (drop 1 (skip r)) \<noteq> Over \<and>
        (\<forall>cs' p. parse_members pv m (cs @ [set_name (Some s) c]) (drop 1 (skip r)) = Ok (cs', p) \<longrightarrow> set p \<subseteq> set (drop 1 (skip r)))"
        by (rule Suc.IH) (use l d Suc.prems(1) in auto)
      then show ?thesis using Ok x ok y d order_trans [OF _ d(1)] by (simp add: Let_def)
    qed (use Ok x v in \<open>simp_all add: Let_def\<close>)
  qed (use s92 in \<open>simp_all add: parse_string_plain split: if_splits\<close>)
qed simp

lemma dropWhile_drop_set: "set (dropWhile f (drop k p)) \<subseteq> set p"
  using set_dropWhileD in_set_dropD by fast

lemma number_rest_set: "set (snd (number_int p)) \<subseteq> set p" "set (snd (snd (number_frac n p))) \<subseteq> set p" "set (snd (number_exp p)) \<subseteq> set p"
proof -
  note dw = dropWhile_drop_set [of isdigit 0 p, simplified] dropWhile_drop_set [of isdigit 1 p] set_drop_subset [of 1 p]
  show "set (snd (number_int p)) \<subseteq> set p" using dw by (simp add: number_int_def Let_def)
  show "set (snd (snd (number_frac n p))) \<subseteq> set p" using dw by (simp add: number_frac_def)
  show "set (snd (number_exp p)) \<subseteq> set p" using dw dropWhile_drop_set [of isdigit 2 p] by (simp add: number_exp_def Let_def drop_drop numeral_2_eq_2)
qed

lemma parse_number_set: "set (snd (parse_number p)) \<subseteq> set p"
proof -
  let ?p = "if at0 p = 45 then drop 1 p else p"
  obtain n p1 where 1: "number_int ?p = (n, p1)" by fastforce
  obtain n2 sc p2 where 2: "number_frac n p1 = (n2, sc, p2)" by (metis surj_pair)
  obtain sb p3 where 3: "number_exp p2 = (sb, p3)" by fastforce
  have "set ?p \<subseteq> set p" using set_drop_subset [of 1 p] by simp
  moreover have "set p1 \<subseteq> set ?p" "set p2 \<subseteq> set p1" "set p3 \<subseteq> set p2"
    using number_rest_set(1) [of ?p] number_rest_set(2) [of n p1] number_rest_set(3) [of p2] unfolding 1 2 3 by simp_all
  ultimately have "set p3 \<subseteq> set p" by blast
  then show ?thesis using 1 2 3 by (auto simp: parse_number_def Let_def)
qed

lemma parse_value_inside: "inside n (parse_value n)"
proof (induction n)
  case (Suc n)
  have "parse_value (Suc n) t \<noteq> Over \<and> (\<forall>c p. parse_value (Suc n) t = Ok (c, p) \<longrightarrow> set p \<subseteq> set t)" if t: "92 \<notin> set t" "length t < Suc n" for t
  proof (cases t)
    case Nil
    then show ?thesis by (simp add: str_literals)
  next
    case (Cons c0 r0)
    let ?u = "skip (drop 1 t)"
    have u: "92 \<notin> set ?u" "length ?u < n" "set ?u \<subseteq> set t" using skip_set [of "drop 1 t"] skip_length [of "drop 1 t"] t Cons by auto
    have sub: "set (drop 1 p) \<subseteq> set t" if "set p \<subseteq> set ?u" for p using that u(3) set_drop_subset [of 1 p] by blast
    note it = inside_items [OF Suc parse_value_eats u(1,2,2), of "[]"] and mb = inside_members [OF Suc parse_value_eats u(1,2,2), of "[]"]
    have a: "parse_array (parse_value n) n t \<noteq> Over \<and> (\<forall>c p. parse_array (parse_value n) n t = Ok (c, p) \<longrightarrow> set p \<subseteq> set t)"
    proof (cases "parse_items (parse_value n) n [] ?u")
      case (Ok x)
      obtain cs b where x: "x = (cs, b)" by (metis surj_pair)
      then have "set (drop 1 b) \<subseteq> set t" using it Ok sub by blast
      then show ?thesis unfolding parse_array_def Let_def using Ok x sub [of ?u] by simp
    qed (use it sub [of ?u] in \<open>simp_all add: parse_array_def Let_def\<close>)
    have o: "parse_object (parse_value n) n t \<noteq> Over \<and> (\<forall>c p. parse_object (parse_value n) n t = Ok (c, p) \<longrightarrow> set p \<subseteq> set t)"
    proof (cases "parse_members (parse_value n) n [] ?u")
      case (Ok x)
      obtain cs b where x: "x = (cs, b)" by (metis surj_pair)
      then have "set (drop 1 b) \<subseteq> set t" using mb Ok sub by blast
      then show ?thesis unfolding parse_object_def Let_def using Ok x sub [of ?u] by simp
    qed (use mb sub [of ?u] in \<open>simp_all add: parse_object_def Let_def\<close>)
    have st: "\<forall>s p. parse_string t = Ok (s, p) \<longrightarrow> set p \<subseteq> set t" "parse_string t \<noteq> Over"
      unfolding parse_string_plain [OF t(1)] by (auto split: if_splits dest!: in_set_dropD set_dropWhileD)
    have nu: "set (snd (parse_number t)) \<subseteq> set t" by (rule parse_number_set)
    have dr: "set (drop k t) \<subseteq> set t" for k by (rule set_drop_subset)
    show ?thesis using a o st nu dr [of 4] dr [of 5] by (cases "parse_string t") (auto simp del: drop_Suc_Cons)
  qed
  then show ?case by (simp add: inside_def)
qed (simp add: inside_def)

end
