(* ===== verification/CjsonCopy.thy ===== *)
theory CjsonCopy
  imports CjsonItemsProps CjsonText
begin

text \<open>
  Copying an item: the value that a chain of nodes stands for, and that a copy stands for the same value in memory of its own.
\<close>

section \<open>What a chain stands for\<close>

text \<open>The chain at \<open>p\<close>, whose first node points back to \<open>pr\<close>, holds the items \<open>vs\<close>; \<open>F\<close> are the nodes of the chain and of all the chains below it.\<close>

inductive jden :: "jmem \<Rightarrow> ptr \<Rightarrow> ptr \<Rightarrow> cJSON list \<Rightarrow> nat list \<Rightarrow> bool" for m where
  den_null: "jden m pr None [] []"
| den_node: "j_items m a = Some n \<Longrightarrow> j_prev n = pr \<Longrightarrow> jden m None (j_child n) cs F1 \<Longrightarrow> jden m (Some a) (j_next n) vs F2 \<Longrightarrow>
    string_at m (j_valuestring n) = Some s \<Longrightarrow> string_at m (j_string n) = Some nm \<Longrightarrow>
    jden m pr (Some a) (Item (unat (j_type n)) cs s (j_valueint n) (j_valuedouble n) nm # vs) (a # F1 @ F2)"

lemma string_at_mono: "j_strs m \<subseteq>\<^sub>m j_strs m' \<Longrightarrow> string_at m p = Some s \<Longrightarrow> string_at m' p = Some s"
  unfolding string_at_def map_le_def by (auto split: option.splits) (metis domI)

lemma jden_frame:
  "jden m pr p vs F \<Longrightarrow> (\<And>x. x \<in> set F \<Longrightarrow> j_items m' x = j_items m x) \<Longrightarrow> j_strs m \<subseteq>\<^sub>m j_strs m' \<Longrightarrow> jden m' pr p vs F"
proof (induction rule: jden.induct)
  case (den_node a n pr cs F1 vs F2 s nm)
  then show ?case by (intro jden.den_node) (auto intro: string_at_mono)
qed (rule den_null)

lemma jden_alloc: "jden m pr p vs F \<Longrightarrow> x \<in> set F \<Longrightarrow> j_items m x \<noteq> None"
  by (induction rule: jden.induct) auto

text \<open>A copy is not a reference.\<close>

primrec unref :: "cJSON \<Rightarrow> cJSON" where
  "unref (Item t cs vs vi vd nm) = Item (unat ((of_nat t :: u32) AND NOT cJSON_IsReference)) (map unref cs) vs vi vd nm"

text \<open>All blocks lie below the next one to be given out.\<close>

definition jmem_ok :: "jmem \<Rightarrow> bool" where
  "jmem_ok m \<longleftrightarrow> dom (j_items m) \<subseteq> {..<j_brk m} \<and> dom (j_strs m) \<subseteq> {..<j_brk m}"

lemma jmem_ok_below: "jmem_ok m \<Longrightarrow> j_items m x \<noteq> None \<Longrightarrow> x < j_brk m"
  by (auto simp: jmem_ok_def)

section \<open>Copying the fields\<close>

lemma dup_str_copy:
  assumes "jmem_ok m" "string_at m p = Some s"
  shows "\<exists>q m'. dup_str p m = Some (q, m') \<and> j_items m' = j_items m \<and> j_strs m \<subseteq>\<^sub>m j_strs m' \<and> j_brk m \<le> j_brk m' \<and> jmem_ok m' \<and> string_at m' q = Some s \<and>
    (\<forall>y<j_brk m. j_strs m' y = j_strs m y)"
proof (cases p)
  case (Some a)
  then obtain t where t: "j_strs m a = Some t" "s = Some t" using assms(2) by (auto simp: string_at_def)
  have "j_strs m (j_brk m) = None" using assms(1) by (auto simp: jmem_ok_def)
  then show ?thesis using assms(1) Some t by (auto simp: dup_str_def cJSON_strdup_def string_at_def jmem_ok_def map_le_def)
qed (use assms in \<open>auto simp: dup_str_def string_at_def\<close>)

definition fresh_copy :: "jnode \<Rightarrow> ptr \<Rightarrow> ptr \<Rightarrow> jnode" where
  "fresh_copy n vs nm = new_node\<lparr>j_type := j_type n AND NOT cJSON_IsReference, j_valueint := j_valueint n, j_valuedouble := j_valuedouble n, j_valuestring := vs, j_string := nm\<rparr>"

lemma set_item_fresh: "set_item (Some x) f (m\<lparr>j_items := h(x \<mapsto> n)\<rparr>) = Some (m\<lparr>j_items := h(x \<mapsto> f n)\<rparr>)"
  by (simp add: set_item_def assign_def)

lemma set_item_here: "j_items m = h(x \<mapsto> n) \<Longrightarrow> set_item (Some x) f m = Some (m\<lparr>j_items := h(x \<mapsto> f n)\<rparr>)"
  by (simp add: set_item_def assign_def)

lemma dup_fields_copy:
  assumes "jmem_ok m" "j_items m a = Some n" "string_at m (j_valuestring n) = Some s" "string_at m (j_string n) = Some nm"
  shows "\<exists>m' vp np. dup_fields a m = Some (j_brk m, m') \<and> j_items m' = (j_items m)(j_brk m \<mapsto> fresh_copy n vp np) \<and> j_strs m \<subseteq>\<^sub>m j_strs m' \<and>
    j_brk m < j_brk m' \<and> jmem_ok m' \<and> string_at m' vp = Some s \<and> string_at m' np = Some nm \<and> (\<forall>y<j_brk m. j_strs m' y = j_strs m y)"
proof -
  let ?x = "j_brk m"
  define n1 where "n1 = new_node\<lparr>j_type := j_type n AND NOT cJSON_IsReference, j_valueint := j_valueint n, j_valuedouble := j_valuedouble n\<rparr>"
  define m1 where "m1 = m\<lparr>j_items := (j_items m)(?x \<mapsto> n1), j_brk := ?x + 1\<rparr>"
  have f1: "j_items m1 = (j_items m)(?x \<mapsto> n1)" "j_strs m1 = j_strs m" "j_brk m1 = ?x + 1" by (simp_all add: m1_def)
  have ok1: "jmem_ok m1" using assms(1) by (auto simp: jmem_ok_def f1)
  have s1: "string_at m1 (j_valuestring n) = Some s" using string_at_mono [of m m1] assms(3) by (simp add: f1)
  obtain vp m2 where 2: "dup_str (j_valuestring n) m1 = Some (vp, m2)" "j_items m2 = j_items m1" "j_strs m1 \<subseteq>\<^sub>m j_strs m2" "j_brk m1 \<le> j_brk m2" "jmem_ok m2"
    "string_at m2 vp = Some s" "\<forall>y<j_brk m1. j_strs m2 y = j_strs m1 y"
    using dup_str_copy [OF ok1 s1] by blast
  define m3 where "m3 = m2\<lparr>j_items := (j_items m)(?x \<mapsto> n1\<lparr>j_valuestring := vp\<rparr>)\<rparr>"
  have f3: "j_items m3 = (j_items m)(?x \<mapsto> n1\<lparr>j_valuestring := vp\<rparr>)" "j_strs m3 = j_strs m2" "j_brk m3 = j_brk m2" by (simp_all add: m3_def)
  have ok3: "jmem_ok m3" using 2(2,5) by (auto simp: jmem_ok_def f3 f1)
  have nm3: "string_at m3 (j_string n) = Some nm" using string_at_mono [of m m3] assms(4) 2(3) by (simp add: f3 f1)
  obtain np m4 where 4: "dup_str (j_string n) m3 = Some (np, m4)" "j_items m4 = j_items m3" "j_strs m3 \<subseteq>\<^sub>m j_strs m4" "j_brk m3 \<le> j_brk m4" "jmem_ok m4"
    "string_at m4 np = Some nm" "\<forall>y<j_brk m3. j_strs m4 y = j_strs m3 y"
    using dup_str_copy [OF ok3 nm3] by blast
  define m5 where "m5 = m4\<lparr>j_items := (j_items m)(?x \<mapsto> n1\<lparr>j_valuestring := vp, j_string := np\<rparr>)\<rparr>"
  have f5: "j_items m5 = (j_items m)(?x \<mapsto> n1\<lparr>j_valuestring := vp, j_string := np\<rparr>)" "j_strs m5 = j_strs m4" "j_brk m5 = j_brk m4" by (simp_all add: m5_def)
  have sets: "set_item (Some ?x) (\<lambda>x. x\<lparr>j_type := j_type n AND NOT cJSON_IsReference, j_valueint := j_valueint n, j_valuedouble := j_valuedouble n\<rparr>) (snd (New_Item m)) = Some m1"
    "set_item (Some ?x) (\<lambda>x. x\<lparr>j_valuestring := vp\<rparr>) m2 = Some m3" "set_item (Some ?x) (\<lambda>x. x\<lparr>j_string := np\<rparr>) m4 = Some m5"
    using 2(2) 4(2) f1(1) f3(1) by (simp_all add: set_item_here m3_def m5_def) (simp add: set_item_def assign_def New_Item_def m1_def n1_def)
  have run: "dup_fields a m = Some (?x, m5)"
    using assms(2) 2(1) 4(1) sets unfolding dup_fields_def by (simp add: New_Item_def)
  have le: "j_strs m \<subseteq>\<^sub>m j_strs m5" using 2(3) 4(3) by (metis f1(2) f3(2) f5(2) map_le_trans)
  have same: "\<forall>y<?x. j_strs m5 y = j_strs m y" using 2(4,7) 4(4,7) by (simp add: f1 f3 f5)
  have ok5: "jmem_ok m5" using 4(2,5) by (auto simp: jmem_ok_def f5 f3)
  have strs: "string_at m5 vp = Some s" "string_at m5 np = Some nm"
    using string_at_mono [of m2 m5 vp s] string_at_mono [of m4 m5 np nm] 2(6) 4(3,6) by (simp_all add: f3 f5)
  have "j_items m5 = (j_items m)(?x \<mapsto> fresh_copy n vp np)" by (simp add: f5 fresh_copy_def n1_def)
  moreover have "?x < j_brk m5" using 2(4) 4(4) by (simp add: f1 f3 f5)
  ultimately show ?thesis using run le same ok5 strs by blast
qed

section \<open>Copying a chain\<close>

text \<open>Where the first copy is hung: at the node copied last, or else below the parent.\<close>

definition hook :: "nat \<Rightarrow> ptr \<Rightarrow> nat" where
  "hook w nptr = (case nptr of None \<Rightarrow> w | Some l \<Rightarrow> l)"

definition hang :: "ptr \<Rightarrow> ptr \<Rightarrow> jnode \<Rightarrow> jnode" where
  "hang nptr p n = (if nptr = None then n\<lparr>j_child := p\<rparr> else n\<lparr>j_next := p\<rparr>)"

definition hung :: "ptr \<Rightarrow> jnode \<Rightarrow> ptr" where
  "hung nptr n = (if nptr = None then j_child n else j_next n)"

definition grown :: "nat \<Rightarrow> jmem \<Rightarrow> jmem \<Rightarrow> bool" where
  "grown k m m' \<longleftrightarrow> jmem_ok m' \<and> j_brk m \<le> j_brk m' \<and> j_strs m \<subseteq>\<^sub>m j_strs m' \<and> (\<forall>y<j_brk m. j_strs m' y = j_strs m y) \<and>
     (\<forall>y<j_brk m. y \<noteq> k \<longrightarrow> j_items m' y = j_items m y)"

lemma hang_hung [simp]: "hung nptr (hang nptr p n) = p" "hang nptr (hung nptr n) n = n" "hang nptr p (hang nptr q n) = hang nptr p n"
  by (simp_all add: hang_def hung_def)

lemma dup_link:
  assumes "j_items m (hook w nptr) = Some nh" "j_items m x = Some n" "hook w nptr \<noteq> x" "nptr = None \<Longrightarrow> j_prev n = None"
  shows "(if nptr \<noteq> None then suffix_object nptr (Some x) m else set_item (Some w) (\<lambda>z. z\<lparr>j_child := Some x\<rparr>) m) =
    Some (m\<lparr>j_items := (j_items m)(hook w nptr \<mapsto> hang nptr (Some x) nh, x \<mapsto> n\<lparr>j_prev := nptr\<rparr>)\<rparr>)"
proof (cases nptr)
  case None
  then have "n\<lparr>j_prev := nptr\<rparr> = n" using assms(4) by (cases n) simp
  then show ?thesis using None assms by (simp add: hook_def hang_def set_item_def assign_def fun_upd_twist fun_upd_triv fun_upd_idem)
next
  case (Some l)
  then show ?thesis using assms by (simp add: hook_def hang_def set_item_def assign_def suffix_object_def)
qed

lemma dup_chain:
  assumes "jden m0 pr cptr vs F" "\<And>x. x \<in> set F \<Longrightarrow> j_items m x = j_items m0 x \<and> x < b" "j_strs m0 \<subseteq>\<^sub>m j_strs m"
    "jmem_ok m" "j_items m (hook w nptr) = Some nh" "hung nptr nh = None" "b \<le> hook w nptr"
  shows "\<exists>m' p F'. dup_children w nptr cptr m = Some m' \<and> grown (hook w nptr) m m' \<and> j_items m' (hook w nptr) = Some (hang nptr p nh) \<and>
    jden m' nptr p (map unref vs) F' \<and> distinct F' \<and> set F' \<subseteq> {j_brk m..<j_brk m'}"
  using assms
proof (induction arbitrary: m w nptr nh rule: jden.induct)
  case (den_null pr)
  have "dup_children w nptr None m = Some m" by (subst dup_children.simps) simp
  moreover have "hang nptr None nh = nh" using den_null(5) hang_hung(2) [of nptr nh] by simp
  ultimately show ?case using den_null jden.den_null by (intro exI [of _ m] exI [of _ None] exI [of _ "[]"]) (auto simp: grown_def)
next
  case (den_node a n pr cs F1 vs F2 s nm)
  let ?k = "hook w nptr" and ?x = "j_brk m"
  have a: "j_items m a = Some n" "a < b" using den_node by auto
  have k: "?k < ?x" using jmem_ok_below [OF den_node.prems(3)] den_node.prems(4) by blast
  have strs: "string_at m (j_valuestring n) = Some s" "string_at m (j_string n) = Some nm" using string_at_mono den_node.hyps(5,6) den_node.prems(2) by blast+
  obtain m1 vp np where 1: "dup_fields a m = Some (?x, m1)" "j_items m1 = (j_items m)(?x \<mapsto> fresh_copy n vp np)" "j_strs m \<subseteq>\<^sub>m j_strs m1"
    "?x < j_brk m1" "jmem_ok m1" "string_at m1 vp = Some s" "string_at m1 np = Some nm" "\<forall>y<?x. j_strs m1 y = j_strs m y"
    using dup_fields_copy [OF den_node.prems(3) a(1) strs] by blast
  let ?f = "fresh_copy n vp np"
  have old: "x < ?x" if "x \<in> set (a # F1 @ F2)" for x using den_node.prems(1) [OF that] den_node.prems(6) k by simp
  have "\<exists>m' p F'. dup_children ?x None (j_child n) m1 = Some m' \<and> grown (hook ?x None) m1 m' \<and> j_items m' (hook ?x None) = Some (hang None p ?f) \<and>
    jden m' None p (map unref cs) F' \<and> distinct F' \<and> set F' \<subseteq> {j_brk m1..<j_brk m'}"
  proof (rule den_node.IH(1))
    show "j_items m1 y = j_items m0 y \<and> y < b" if "y \<in> set F1" for y using that den_node.prems(1) [of y] old [of y] 1(2) by simp
    show "j_strs m0 \<subseteq>\<^sub>m j_strs m1" using den_node.prems(2) 1(3) map_le_trans by blast
    show "b \<le> hook ?x None" using den_node.prems(6) k by (simp add: hook_def)
  qed (use 1 in \<open>simp_all add: hook_def hung_def fresh_copy_def new_node_def\<close>)
  then obtain m2 p1 G1 where 2: "dup_children ?x None (j_child n) m1 = Some m2" "grown ?x m1 m2" "j_items m2 ?x = Some (?f\<lparr>j_child := p1\<rparr>)"
    "jden m2 None p1 (map unref cs) G1" "distinct G1" "set G1 \<subseteq> {j_brk m1..<j_brk m2}"
    by (auto simp: hook_def hang_def)
  have i2: "j_items m2 y = j_items m y" if "y < ?x" for y using that 2(2) 1(2,4) by (auto simp: grown_def)
  have k2: "j_items m2 ?k = Some nh" using i2 [OF k] den_node.prems(4) by simp
  let ?x3 = "?f\<lparr>j_child := p1, j_prev := nptr\<rparr>"
  let ?m3 = "m2\<lparr>j_items := (j_items m2)(?k \<mapsto> hang nptr (Some ?x) nh, ?x \<mapsto> ?x3)\<rparr>"
  have 3: "(if nptr \<noteq> None then suffix_object nptr (Some ?x) m2 else set_item (Some w) (\<lambda>z. z\<lparr>j_child := Some ?x\<rparr>) m2) = Some ?m3"
    using dup_link [of m2 w nptr nh ?x, OF k2 2(3)] k by (simp add: fresh_copy_def new_node_def)
  have ok3: "jmem_ok ?m3" using 2(2,3) k2 by (auto simp: grown_def jmem_ok_def)
  have ne: "a \<noteq> ?k" "a \<noteq> ?x" using a(2) den_node.prems(6) k by auto
  have a3: "j_items ?m3 a = Some n" using i2 [of a] a(1) old [of a] ne by simp
  have "\<exists>m' p F'. dup_children w (Some ?x) (j_next n) ?m3 = Some m' \<and> grown (hook w (Some ?x)) ?m3 m' \<and> j_items m' (hook w (Some ?x)) = Some (hang (Some ?x) p ?x3) \<and>
    jden m' (Some ?x) p (map unref vs) F' \<and> distinct F' \<and> set F' \<subseteq> {j_brk ?m3..<j_brk m'}"
  proof (rule den_node.IH(2) [OF _ _ ok3])
    show "j_items ?m3 y = j_items m0 y \<and> y < b" if "y \<in> set F2" for y
      using that den_node.prems(1) [of y] den_node.prems(6) old [of y] i2 [of y] k by auto
    show "j_strs m0 \<subseteq>\<^sub>m j_strs ?m3" using den_node.prems(2) 1(3) 2(2) map_le_trans by (simp add: grown_def) blast
    show "b \<le> hook w (Some ?x)" using den_node.prems(6) k by (simp add: hook_def)
  qed (simp_all add: hook_def hung_def fresh_copy_def new_node_def)
  then obtain m4 p2 G2 where 4: "dup_children w (Some ?x) (j_next n) ?m3 = Some m4" "grown ?x ?m3 m4" "j_items m4 ?x = Some (?x3\<lparr>j_next := p2\<rparr>)"
    "jden m4 (Some ?x) p2 (map unref vs) G2" "distinct G2" "set G2 \<subseteq> {j_brk m2..<j_brk m4}"
    by (auto simp: hook_def hang_def)
  have run: "dup_children w nptr (Some a) m = Some m4"
    using 1(1) i2 [of a] a(1) old [of a] 1(2) ne 2(1) 3 a3 4(1) by (subst dup_children.simps) (simp split del: if_split del: not_None_eq)
  have g: "j_brk m < j_brk m1" "j_brk m1 \<le> j_brk m2" "j_brk m2 \<le> j_brk m4" using 1(4) 2(2) 4(2) by (auto simp: grown_def)
  have G1: "jden m4 None p1 (map unref cs) G1"
  proof (rule jden_frame [OF 2(4)])
    show "j_items m4 y = j_items m2 y" if "y \<in> set G1" for y using that 2(6) 4(2) k g by (auto simp: grown_def)
  qed (use 4(2) in \<open>simp add: grown_def\<close>)
  have le: "j_strs m1 \<subseteq>\<^sub>m j_strs m4" using 2(2) 4(2) map_le_trans by (simp add: grown_def) blast
  let ?x4 = "?x3\<lparr>j_next := p2\<rparr>"
  have "jden m4 nptr (Some ?x) (Item (unat (j_type ?x4)) (map unref cs) s (j_valueint ?x4) (j_valuedouble ?x4) nm # map unref vs) (?x # G1 @ G2)"
    by (rule jden.den_node [OF 4(3)]) (use G1 4(4) string_at_mono [OF le] 1(6,7) in \<open>simp_all add: fresh_copy_def\<close>)
  then have den: "jden m4 nptr (Some ?x) (map unref (Item (unat (j_type n)) cs s (j_valueint n) (j_valuedouble n) nm # vs)) (?x # G1 @ G2)"
    by (simp add: fresh_copy_def)
  have "grown ?k m m4"
    unfolding grown_def using 1(3,8) 2(2) 4(2) le g k i2 map_le_trans [OF 1(3) le] by (auto simp: grown_def)
  moreover have "j_items m4 ?k = Some (hang nptr (Some ?x) nh)" using 4(2) k g by (simp add: grown_def)
  moreover have "set G1 \<inter> set G2 = {}" using 2(6) 4(6) by fastforce
  then have "distinct (?x # G1 @ G2)" "set (?x # G1 @ G2) \<subseteq> {j_brk m..<j_brk m4}" using 2(5,6) 4(5,6) g by auto
  ultimately show ?case using run den by blast
qed

end
