(* ===== verification/CjsonBuf.thy ===== *)
theory CjsonBuf
  imports CjsonText
begin

text \<open>
  Writing into one buffer that grows (\<open>cJSON_PrintBuffered\<close>): the buffer with the octets written so far, its length and the offset at which the next text goes. A
  place that was never written holds \<open>None\<close>; reading it, or reading or writing behind the buffer, is \<open>Over\<close>. The functions return the place of what they wrote.
\<close>

section \<open>The buffer\<close>

record printbuffer =
  pb_buffer :: "byte option list"
  pb_length :: int
  pb_offset :: nat

definition pow2gt :: "int \<Rightarrow> int" where
  "pow2gt x = (let x = x - 1; x = x OR drop_bit 1 x; x = x OR drop_bit 2 x; x = x OR drop_bit 4 x; x = x OR drop_bit 8 x; x = x OR drop_bit 16 x in x + 1)"

definition ensure :: "nat \<Rightarrow> printbuffer \<Rightarrow> printbuffer" where
  "ensure needed p =
     (let needed = int needed + int (pb_offset p) in
      if needed \<le> pb_length p then p
      else let newsize = pow2gt needed in
        p\<lparr>pb_buffer := take (nat (pb_length p)) (pb_buffer p) @ replicate (nat newsize - nat (pb_length p)) None, pb_length := newsize\<rparr>)"

fun strlen_at :: "byte option list \<Rightarrow> nat option" where
  "strlen_at [] = None"
| "strlen_at (None # m) = None"
| "strlen_at (Some c # m) = (if c = 0 then Some 0 else map_option Suc (strlen_at m))"

definition update :: "printbuffer \<Rightarrow> (unit, printbuffer) outcome" where
  "update p = (case strlen_at (drop (pb_offset p) (pb_buffer p)) of None \<Rightarrow> Over | Some n \<Rightarrow> Ok (p\<lparr>pb_offset := pb_offset p + n\<rparr>))"

text \<open>Storing octets at the offset.\<close>

definition poke :: "byte list \<Rightarrow> printbuffer \<Rightarrow> (unit, printbuffer) outcome" where
  "poke bs p = (if pb_offset p + length bs \<le> length (pb_buffer p)
     then Ok (p\<lparr>pb_buffer := take (pb_offset p) (pb_buffer p) @ map Some bs @ drop (pb_offset p + length bs) (pb_buffer p)\<rparr>) else Over)"

definition advance :: "nat \<Rightarrow> printbuffer \<Rightarrow> printbuffer" where
  "advance k p = p\<lparr>pb_offset := pb_offset p + k\<rparr>"

section \<open>Values\<close>

text \<open>The result: the buffer and, unless nothing was written, the place of the text.\<close>

type_synonym bprinter = "printbuffer \<Rightarrow> (unit, printbuffer \<times> nat option) outcome"

definition put_block :: "nat \<Rightarrow> byte list \<Rightarrow> bprinter" where
  "put_block room t p = (let p = ensure room p in bind_outcome (poke (t @ [0]) p) (\<lambda>p. Ok (p, Some (pb_offset p))))"

definition print_string_buf :: "byte list option \<Rightarrow> bprinter" where
  "print_string_buf sp p = (case sp of None \<Rightarrow> Over | Some s \<Rightarrow> (let (room, t) = string_parts s in put_block room t p))"

fun array_loop :: "bool \<Rightarrow> bprinter list \<Rightarrow> printbuffer \<Rightarrow> (unit, printbuffer) outcome" where
  "array_loop fmt [] p = Ok p"
| "array_loop fmt (f # fs) p =
     bind_outcome (f p) (\<lambda>(p, _). bind_outcome (update p) (\<lambda>p.
       if fs \<noteq> [] then let len = (if fmt then 2 else 1) in
         bind_outcome (poke (44 # (if fmt then [32] else []) @ [0]) (ensure (len + 1) p)) (\<lambda>p. array_loop fmt fs (advance len p))
       else array_loop fmt fs p))"

definition print_array_buf :: "bool \<Rightarrow> bprinter list \<Rightarrow> bprinter" where
  "print_array_buf fmt fs p =
     (if fs = [] then put_block 3 [91, 93] p
      else let i = pb_offset p in
        bind_outcome (poke [91] (ensure 1 p)) (\<lambda>p. bind_outcome (array_loop fmt fs (advance 1 p)) (\<lambda>p.
          bind_outcome (poke [93, 0] (ensure 2 p)) (\<lambda>p. Ok (p, Some i)))))"

text \<open>The members of an object, with the depth of the members.\<close>

fun object_loop :: "bool \<Rightarrow> nat \<Rightarrow> (byte list option \<times> bprinter) list \<Rightarrow> printbuffer \<Rightarrow> (unit, printbuffer) outcome" where
  "object_loop fmt depth [] p = Ok p"
| "object_loop fmt depth ((nm, f) # fs) p =
     bind_outcome (if fmt then bind_outcome (poke (tabs depth) (ensure depth p)) (\<lambda>p. Ok (advance depth p)) else Ok p) (\<lambda>p.
     bind_outcome (print_string_buf nm p) (\<lambda>(p, _). bind_outcome (update p) (\<lambda>p.
     let len = (if fmt then 2 else 1) in
     bind_outcome (poke (58 # (if fmt then [9] else [])) (ensure len p)) (\<lambda>p.
     bind_outcome (f (advance len p)) (\<lambda>(p, _). bind_outcome (update p) (\<lambda>p.
     let len = (if fmt then 1 else 0) + (if fs \<noteq> [] then 1 else 0) in
     bind_outcome (poke ((if fs \<noteq> [] then [44] else []) @ (if fmt then [10] else []) @ [0]) (ensure (len + 1) p)) (\<lambda>p.
       object_loop fmt depth fs (advance len p))))))))"

text \<open>With layout the variable that held the place of the text is the counter of the last loop: the place returned is the number of tabulators.\<close>

definition print_object_buf :: "bool \<Rightarrow> nat \<Rightarrow> (byte list option \<times> bprinter) list \<Rightarrow> bprinter" where
  "print_object_buf fmt depth fs p =
     (if fs = [] then put_block (if fmt then depth + 4 else 3) (123 # (if fmt then 10 # tabs (depth - 1) else []) @ [125]) p
      else let i = pb_offset p; len = (if fmt then 2 else 1) in
        bind_outcome (poke (123 # (if fmt then [10] else []) @ [0]) (ensure (len + 1) p)) (\<lambda>p.
        let depth = depth + 1 in
        bind_outcome (object_loop fmt depth fs (advance len p)) (\<lambda>p.
        bind_outcome (poke ((if fmt then tabs (depth - 1) else []) @ [125, 0]) (ensure (if fmt then depth + 1 else 2) p)) (\<lambda>p.
          Ok (p, Some (if fmt then depth - 1 else i))))))"

fun print_value_buf :: "cJSON \<Rightarrow> nat \<Rightarrow> bool \<Rightarrow> bprinter" where
  "print_value_buf (Item t cs vs vi vd nm) depth fmt p =
     (let ty = t mod 256 in
      if ty = cJSON_NULL then put_block 5 (str ''null'') p
      else if ty = cJSON_False then put_block 6 (str ''false'') p
      else if ty = cJSON_True then put_block 5 (str ''true'') p
      else if ty = cJSON_Number then (let (room, x) = number_parts (Item t cs vs vi vd nm) in put_block room x p)
      else if ty = cJSON_String then print_string_buf vs p
      else if ty = cJSON_Array then print_array_buf fmt (map (\<lambda>c. print_value_buf c (depth + 1) fmt) cs) p
      else if ty = cJSON_Object then print_object_buf fmt depth (map (\<lambda>c. (jstring c, print_value_buf c (depth + 1) fmt)) cs) p
      else Ok (p, None))"

text \<open>The text that the caller finds at the place returned.\<close>

definition text_at :: "printbuffer \<Rightarrow> nat \<Rightarrow> byte list option" where
  "text_at p i = map_option (\<lambda>n. map the (take n (drop i (pb_buffer p)))) (strlen_at (drop i (pb_buffer p)))"

definition cJSON_PrintBuffered :: "cJSON \<Rightarrow> nat \<Rightarrow> bool \<Rightarrow> (unit, byte list option) outcome" where
  "cJSON_PrintBuffered item prebuffer fmt =
     bind_outcome (print_value_buf item 0 fmt \<lparr>pb_buffer = replicate prebuffer None, pb_length = int prebuffer, pb_offset = 0\<rparr>) (\<lambda>(p, r).
       case r of None \<Rightarrow> Ok None | Some i \<Rightarrow> (case text_at p i of None \<Rightarrow> Over | Some t \<Rightarrow> Ok (Some t)))"

end
