(* ===== verification/CjsonBufProps.thy ===== *)
theory CjsonBufProps
  imports CjsonBuf
begin

text \<open>
  Writing into the growing buffer gives the text that is written into separate blocks, whatever the first guess of the size was.
\<close>

section \<open>The buffer\<close>

lemma smear:
  fixes x :: int
  assumes "0 \<le> x" "x < 2 ^ n"
  shows "x \<le> x OR drop_bit k x" "x OR drop_bit k x < 2 ^ n"
proof -
  have d: "0 \<le> drop_bit k x" using assms(1) by simp
  then show "x \<le> x OR drop_bit k x" by (rule or_greater_eq)
  have "x div 2 ^ k \<le> x div 1" using assms(1) by (intro zdiv_mono2) simp_all
  then have "drop_bit k x \<le> x" by (simp add: drop_bit_eq_div)
  then show "x OR drop_bit k x < 2 ^ n" using assms d by (intro OR_upper) auto
qed

lemma pow2gt_bounds:
  assumes "0 < x" "x \<le> 2 ^ n"
  shows "x \<le> pow2gt x \<and> pow2gt x \<le> 2 ^ n"
proof -
  have step: "x - 1 \<le> y OR drop_bit k y \<and> y OR drop_bit k y < 2 ^ n" if "x - 1 \<le> y \<and> y < 2 ^ n" for y k
    using smear [of y n k] that assms(1) by auto
  have "x - 1 \<le> x - 1 \<and> x - 1 < 2 ^ n" using assms by simp
  from step [OF step [OF step [OF step [OF step [OF this, of 1], of 2], of 4], of 8], of 16]
  show ?thesis by (simp add: pow2gt_def Let_def)
qed

definition holds :: "printbuffer \<Rightarrow> byte list \<Rightarrow> bool" where
  "holds p bs \<longleftrightarrow> int (length (pb_buffer p)) = pb_length p \<and> length bs \<le> length (pb_buffer p) \<and> take (length bs) (pb_buffer p) = map Some bs"

lemma holds_prefix: "holds p (bs @ cs) \<Longrightarrow> holds p bs"
proof -
  assume h: "holds p (bs @ cs)"
  then have "take (length bs) (take (length (bs @ cs)) (pb_buffer p)) = map Some bs" by (simp add: holds_def)
  then show ?thesis using h by (simp add: holds_def min_def)
qed

lemma holds_advance [simp]: "holds (advance k p) bs = holds p bs" "pb_offset (advance k p) = pb_offset p + k"
  by (simp_all add: holds_def advance_def)

lemma ensure_holds:
  assumes "holds p bs" "pb_offset p = length bs" "length bs + k \<le> 2 ^ 30"
  shows "holds (ensure k p) bs \<and> pb_offset (ensure k p) = pb_offset p \<and> length bs + k \<le> length (pb_buffer (ensure k p))"
proof (cases "int k + int (pb_offset p) \<le> pb_length p")
  case True
  then show ?thesis using assms by (simp add: ensure_def holds_def Let_def)
next
  case False
  let ?n = "int k + int (pb_offset p)"
  have l: "pb_length p = int (length (pb_buffer p))" using assms(1) by (simp add: holds_def)
  have "?n \<le> 2 ^ 30" using assms(2,3) by (metis add.commute of_nat_add of_nat_le_iff of_nat_numeral of_nat_power)
  moreover have "0 < ?n" using False l by linarith
  ultimately have b: "?n \<le> pow2gt ?n" using pow2gt_bounds by blast
  let ?m = "pb_buffer p @ replicate (nat (pow2gt ?n) - length (pb_buffer p)) None"
  have e: "ensure k p = p\<lparr>pb_buffer := ?m, pb_length := pow2gt ?n\<rparr>" using False by (simp add: ensure_def Let_def l)
  have len: "int (length ?m) = pow2gt ?n" using b False l by simp
  have "length bs + k \<le> length ?m" using b len assms(2) by linarith
  then show ?thesis using assms(1,2) len by (simp add: e holds_def)
qed

lemma poke_holds:
  assumes "holds p bs" "pb_offset p = length bs" "length cs \<le> k" "length bs + k \<le> 2 ^ 30"
  obtains p' where "poke cs (ensure k p) = Ok p'" "holds p' (bs @ cs)" "pb_offset p' = length bs"
proof -
  let ?q = "ensure k p"
  have q: "holds ?q bs" "pb_offset ?q = length bs" "length bs + k \<le> length (pb_buffer ?q)" using ensure_holds [OF assms(1,2,4)] assms(2) by simp_all
  let ?p' = "?q\<lparr>pb_buffer := take (length bs) (pb_buffer ?q) @ map Some cs @ drop (length bs + length cs) (pb_buffer ?q)\<rparr>"
  have "poke cs ?q = Ok ?p'" using q assms(3) by (simp add: poke_def)
  moreover have "holds ?p' (bs @ cs)" using q assms(3) by (simp add: holds_def)
  ultimately show ?thesis using that q(2) by simp
qed

lemma strlen_at_text: "0 \<notin> set u \<Longrightarrow> strlen_at (map Some u @ Some 0 # m) = Some (length u)"
  by (induction u) auto

lemma drop_text:
  assumes "holds p (bs @ [0])" "i \<le> length bs"
  shows "drop i (pb_buffer p) = map Some (drop i bs) @ Some 0 # drop (length bs + 1) (pb_buffer p)"
proof -
  have t: "take (length bs + 1) (pb_buffer p) = map Some (bs @ [0])" using assms(1) by (simp add: holds_def)
  have "pb_buffer p = map Some (bs @ [0]) @ drop (length bs + 1) (pb_buffer p)" by (metis append_take_drop_id t)
  then have "drop i (pb_buffer p) = drop i (map Some bs @ Some 0 # drop (length bs + 1) (pb_buffer p))" by (metis append.assoc append_Cons append_Nil list.map(1,2) map_append)
  then show ?thesis using assms(2) by (simp add: drop_map)
qed

lemma update_holds:
  assumes "holds p (bs @ t @ [0])" "length bs \<le> pb_offset p" "pb_offset p \<le> length (bs @ t)" "0 \<notin> set t"
  obtains p' where "update p = Ok p'" "holds p' (bs @ t)" "pb_offset p' = length (bs @ t)"
proof -
  let ?u = "drop (pb_offset p) (bs @ t)"
  have d: "drop (pb_offset p) (pb_buffer p) = map Some ?u @ Some 0 # drop (length (bs @ t) + 1) (pb_buffer p)" using drop_text [of p "bs @ t" "pb_offset p"] assms(1,3) by simp
  have "0 \<notin> set ?u" using assms(2,4) by (auto dest: in_set_dropD)
  then have "strlen_at (drop (pb_offset p) (pb_buffer p)) = Some (length ?u)" unfolding d by (rule strlen_at_text)
  then have "update p = Ok (p\<lparr>pb_offset := length (bs @ t)\<rparr>)" using assms(3) by (simp add: update_def)
  moreover have "holds (p\<lparr>pb_offset := length (bs @ t)\<rparr>) (bs @ t)" using holds_prefix [of p "bs @ t" "[0]"] assms(1) by (simp add: holds_def)
  ultimately show ?thesis using that by simp
qed

section \<open>Printers\<close>

text \<open>A printer that puts the text \<open>t\<close> and its terminator behind what is there, at depth \<open>d\<close>.\<close>

definition writes :: "nat \<Rightarrow> bprinter \<Rightarrow> byte list \<Rightarrow> bool" where
  "writes d f t \<longleftrightarrow> (\<forall>p bs. holds p bs \<longrightarrow> pb_offset p = length bs \<longrightarrow> length bs + length t + 32 \<le> 2 ^ 30 \<longrightarrow>
     (\<exists>p' r. f p = Ok (p', Some r) \<and> holds p' (bs @ t @ [0]) \<and> length bs \<le> pb_offset p' \<and> pb_offset p' \<le> length (bs @ t) \<and> (r = length bs \<or> r = d)))"

lemma writesD:
  assumes "writes d f t" "holds p bs" "pb_offset p = length bs" "length bs + length t + 32 \<le> 2 ^ 30"
  obtains p' r where "f p = Ok (p', Some r)" "holds p' (bs @ t @ [0])" "length bs \<le> pb_offset p'" "pb_offset p' \<le> length (bs @ t)"
  using assms unfolding writes_def by blast

text \<open>The printer and the search for the end of its text.\<close>

lemma writes_update:
  assumes "writes d f t" "0 \<notin> set t" "holds p bs" "pb_offset p = length bs" "length bs + length t + 32 \<le> 2 ^ 30"
  obtains p1 r p' where "f p = Ok (p1, r)" "update p1 = Ok p'" "holds p' (bs @ t)" "pb_offset p' = length (bs @ t)"
proof -
  obtain p1 r where 1: "f p = Ok (p1, Some r)" "holds p1 (bs @ t @ [0])" "length bs \<le> pb_offset p1" "pb_offset p1 \<le> length (bs @ t)"
    by (rule writesD [OF assms(1,3,4,5)])
  obtain p2 where "update p1 = Ok p2" "holds p2 (bs @ t)" "pb_offset p2 = length (bs @ t)" by (rule update_holds [OF 1(2,3,4) assms(2)])
  then show ?thesis using that 1(1) by simp
qed

lemma put_block_writes: "length t < room \<Longrightarrow> room \<le> length t + 32 \<Longrightarrow> writes d (put_block room t) t"
  unfolding writes_def
proof (intro allI impI)
  fix p bs
  assume a: "length t < room" "room \<le> length t + 32" "holds p bs" "pb_offset p = length bs" "length bs + length t + 32 \<le> 2 ^ 30"
  obtain p' where "poke (t @ [0]) (ensure room p) = Ok p'" "holds p' (bs @ t @ [0])" "pb_offset p' = length bs"
    by (rule poke_holds [OF a(3,4), of "t @ [0]" room]) (use a in simp_all)
  then show "\<exists>p' r. put_block room t p = Ok (p', Some r) \<and> holds p' (bs @ t @ [0]) \<and> length bs \<le> pb_offset p' \<and> pb_offset p' \<le> length (bs @ t) \<and> (r = length bs \<or> r = d)"
    by (simp add: put_block_def Let_def)
qed

lemma print_string_writes: "0 \<notin> set s \<Longrightarrow> writes d (print_string_buf (Some s)) (quoted s)"
  using put_block_writes [of "quoted s" "length (quoted s) + 1"] by (simp add: print_string_buf_def [abs_def] string_parts_quoted)

lemma array_loop_text:
  assumes "list_all2 (writes d) fs es" "\<And>e. e \<in> set es \<Longrightarrow> 0 \<notin> set e" "holds p bs" "pb_offset p = length bs" "length bs + length (items_text fmt es) + 32 \<le> 2 ^ 30"
  shows "\<exists>p'. array_loop fmt fs p = Ok p' \<and> holds p' (bs @ items_text fmt es) \<and> pb_offset p' = length (bs @ items_text fmt es)"
  using assms
proof (induction fs es arbitrary: p bs rule: list_all2_induct)
  case (Cons f fs e es)
  have nz: "0 \<notin> set e" using Cons.prems(1) by simp
  have ne: "fs = [] \<longleftrightarrow> es = []" using Cons.hyps(2) by auto
  show ?case
  proof (cases "es = []")
    case True
    obtain p1 r p' where "f p = Ok (p1, r)" "update p1 = Ok p'" "holds p' (bs @ e)" "pb_offset p' = length (bs @ e)"
      by (rule writes_update [OF Cons.hyps(1) nz Cons.prems(2,3)]) (use Cons.prems(4) True in simp)
    then show ?thesis using True ne by simp
  next
    case False
    let ?sep = "44 # (if fmt then [32] else []) :: byte list" and ?len = "if fmt then 2 else 1 :: nat"
    obtain p0 r p1 where f: "f p = Ok (p0, r)" "update p0 = Ok p1" and 1: "holds p1 (bs @ e)" "pb_offset p1 = length (bs @ e)"
      by (rule writes_update [OF Cons.hyps(1) nz Cons.prems(2,3)]) (use Cons.prems(4) False in simp)
    obtain p2 where 2: "poke (?sep @ [0]) (ensure (?len + 1) p1) = Ok p2" "holds p2 ((bs @ e) @ ?sep @ [0])" "pb_offset p2 = length (bs @ e)"
      by (rule poke_holds [OF 1, of "?sep @ [0]" "?len + 1"]) (use Cons.prems(4) False in \<open>auto split: if_splits\<close>)
    have "holds (advance ?len p2) (bs @ e @ ?sep)" using holds_prefix [of p2 "bs @ e @ ?sep" "[0]"] 2(2) by simp
    moreover have "pb_offset (advance ?len p2) = length (bs @ e @ ?sep)" using 2(3) by simp
    moreover have "length (bs @ e @ ?sep) + length (items_text fmt es) + 32 \<le> 2 ^ 30" using Cons.prems(4) False by (auto split: if_splits)
    ultimately obtain p' where "array_loop fmt fs (advance ?len p2) = Ok p'" "holds p' ((bs @ e @ ?sep) @ items_text fmt es)" "pb_offset p' = length ((bs @ e @ ?sep) @ items_text fmt es)"
      using Cons.IH [of "advance ?len p2" "bs @ e @ ?sep"] Cons.prems(1) by auto
    moreover have "array_loop fmt (f # fs) p = array_loop fmt fs (advance ?len p2)" using f 2(1) ne False by (simp add: Let_def)
    ultimately show ?thesis using False by simp
  qed
qed simp

definition member_writes :: "nat \<Rightarrow> byte list option \<times> bprinter \<Rightarrow> byte list \<times> byte list \<Rightarrow> bool" where
  "member_writes d x e \<longleftrightarrow> (\<exists>s. fst x = Some s \<and> 0 \<notin> set s \<and> fst e = quoted s \<and> 0 \<notin> set (quoted s)) \<and> writes d (snd x) (snd e) \<and> 0 \<notin> set (snd e)"

definition line_end :: "bool \<Rightarrow> byte list" where
  "line_end fmt = (if fmt then [10] else [])"

lemma poke_advance:
  assumes "holds p bs" "pb_offset p = length bs" "length (cs @ z) \<le> k" "length bs + k \<le> 2 ^ 30"
  obtains p' where "poke (cs @ z) (ensure k p) = Ok p'" "holds (advance (length cs) p') (bs @ cs)" "pb_offset (advance (length cs) p') = length (bs @ cs)"
proof -
  obtain p' where p: "poke (cs @ z) (ensure k p) = Ok p'" "holds p' (bs @ cs @ z)" "pb_offset p' = length bs"
    by (rule poke_holds [OF assms])
  then have "holds p' (bs @ cs)" using holds_prefix [of p' "bs @ cs" z] by simp
  then show ?thesis using that p by simp
qed

definition loop_text :: "bool \<Rightarrow> nat \<Rightarrow> (byte list \<times> byte list) list \<Rightarrow> byte list" where
  "loop_text fmt k es = (if es = [] then [] else members_text fmt k es @ line_end fmt)"

lemma object_loop_text:
  assumes "list_all2 (member_writes d) fs es" "holds p bs" "pb_offset p = length bs" "length bs + length (loop_text fmt k es) + 32 \<le> 2 ^ 30"
  shows "\<exists>p'. object_loop fmt k fs p = Ok p' \<and> holds p' (bs @ loop_text fmt k es) \<and> pb_offset p' = length (bs @ loop_text fmt k es)"
  using assms
proof (induction fs es arbitrary: p bs rule: list_all2_induct)
  case Nil
  then show ?case by (simp add: loop_text_def)
next
  case (Cons x fs e es)
  obtain s where s: "fst x = Some s" "0 \<notin> set s" "fst e = quoted s" "0 \<notin> set (quoted s)" and v: "writes d (snd x) (snd e)" "0 \<notin> set (snd e)"
    using Cons.hyps(1) by (auto simp: member_writes_def)
  have ne: "fs = [] \<longleftrightarrow> es = []" using Cons.hyps(2) by auto
  define tb where "tb = (if fmt then tabs k else [])"
  define col :: "byte list" where "col = 58 # (if fmt then [9] else [])"
  define com where "com = (if fs \<noteq> [] then [44] else []) @ line_end fmt"
  define rest where "rest = loop_text fmt k es"
  have m: "loop_text fmt k (e # es) = tb @ quoted s @ col @ snd e @ com @ rest"
    using s(3) ne by (simp add: loop_text_def member_text_def line_end_def tb_def col_def com_def rest_def)
  have b: "length bs + length tb + length (quoted s) + length col + length (snd e) + length com + length rest + 32 \<le> 2 ^ 30" using Cons.prems(3) unfolding m by simp
  obtain p1 where 1: "(if fmt then bind_outcome (poke (tabs k) (ensure k p)) (\<lambda>p. Ok (advance k p)) else Ok p) = Ok p1" "holds p1 (bs @ tb)" "pb_offset p1 = length (bs @ tb)"
  proof (cases fmt)
    case True
    have k: "length tb = k" "tb = tabs k" using True by (simp_all add: tb_def tabs_def)
    obtain p' where "poke (tb @ []) (ensure k p) = Ok p'" "holds (advance (length tb) p') (bs @ tb)" "pb_offset (advance (length tb) p') = length (bs @ tb)"
      by (rule poke_advance [OF Cons.prems(1,2), of tb "[]" k]) (use b k in simp_all)
    then show ?thesis using that [of "advance k p'"] True k by simp
  qed (use that [of p] Cons.prems(1,2) in \<open>simp add: tb_def\<close>)
  obtain q1 r1 p2 where f1: "print_string_buf (Some s) p1 = Ok (q1, r1)" "update q1 = Ok p2" and 2: "holds p2 ((bs @ tb) @ quoted s)" "pb_offset p2 = length ((bs @ tb) @ quoted s)"
    by (rule writes_update [OF print_string_writes [OF s(2)] s(4) 1(2,3)]) (use b in simp)
  obtain q2 where f2: "poke (col @ []) (ensure (length col) p2) = Ok q2" and 3: "holds (advance (length col) q2) (((bs @ tb) @ quoted s) @ col)"
    "pb_offset (advance (length col) q2) = length (((bs @ tb) @ quoted s) @ col)"
    by (rule poke_advance [OF 2, of col "[]" "length col"]) (use b in simp_all)
  obtain q3 r3 p4 where f3: "snd x (advance (length col) q2) = Ok (q3, r3)" "update q3 = Ok p4" and 4: "holds p4 ((((bs @ tb) @ quoted s) @ col) @ snd e)"
    "pb_offset p4 = length ((((bs @ tb) @ quoted s) @ col) @ snd e)"
    by (rule writes_update [OF v 3]) (use b in simp)
  obtain q5 where f5: "poke (com @ [0]) (ensure (length com + 1) p4) = Ok q5" and 5: "holds (advance (length com) q5) (((((bs @ tb) @ quoted s) @ col) @ snd e) @ com)"
    "pb_offset (advance (length com) q5) = length (((((bs @ tb) @ quoted s) @ col) @ snd e) @ com)"
    by (rule poke_advance [OF 4, of com "[0]" "length com + 1"]) (use b in simp_all)
  have cl: "length col = (if fmt then 2 else 1)" "length com = (if fmt then 1 else 0) + (if fs \<noteq> [] then 1 else 0)" by (simp_all add: col_def com_def line_end_def)
  have step: "object_loop fmt k (x # fs) p = object_loop fmt k fs (advance (length com) q5)"
    using 1(1) f1 f2 f3 f5 s(1) unfolding cl by (cases x) (simp add: Let_def col_def com_def line_end_def del: One_nat_def)
  show ?case unfolding step m using Cons.IH [OF 5] b by (simp add: rest_def)
qed

lemma array_writes:
  assumes "list_all2 (writes (d + 1)) fs es" "\<And>e. e \<in> set es \<Longrightarrow> 0 \<notin> set e"
  shows "writes d (print_array_buf fmt fs) (array_text fmt es)"
proof (cases "fs = []")
  case True
  then have "es = []" using assms(1) by simp
  then show ?thesis using True put_block_writes [of "[91, 93]" 3 d] by (simp add: print_array_buf_def [abs_def] array_text_def)
next
  case False
  show ?thesis unfolding writes_def
  proof (intro allI impI)
    fix p bs
    assume a: "holds p bs" "pb_offset p = length bs" "length bs + length (array_text fmt es) + 32 \<le> 2 ^ 30"
    obtain q1 where f1: "poke ([91] @ []) (ensure 1 p) = Ok q1" and 1: "holds (advance (length [91 :: byte]) q1) (bs @ [91])" "pb_offset (advance (length [91 :: byte]) q1) = length (bs @ [91])"
      by (rule poke_advance [OF a(1,2), of "[91]" "[]" 1]) (use a(3) in simp_all)
    obtain p2 where f2: "array_loop fmt fs (advance (length [91 :: byte]) q1) = Ok p2" and 2: "holds p2 ((bs @ [91]) @ items_text fmt es)" "pb_offset p2 = length ((bs @ [91]) @ items_text fmt es)"
      using array_loop_text [OF assms 1, where fmt = fmt] a(3) by (auto simp: array_text_def)
    obtain p3 where f3: "poke [93, 0] (ensure 2 p2) = Ok p3" and 3: "holds p3 (((bs @ [91]) @ items_text fmt es) @ [93, 0])" "pb_offset p3 = length ((bs @ [91]) @ items_text fmt es)"
      by (rule poke_holds [OF 2, of "[93, 0]" 2]) (use a(3) in \<open>simp_all add: array_text_def\<close>)
    have "print_array_buf fmt fs p = Ok (p3, Some (length bs))" using f1 f2 f3 False a(2) by (simp add: print_array_buf_def Let_def)
    then show "\<exists>p' r. print_array_buf fmt fs p = Ok (p', Some r) \<and> holds p' (bs @ array_text fmt es @ [0]) \<and> length bs \<le> pb_offset p' \<and>
        pb_offset p' \<le> length (bs @ array_text fmt es) \<and> (r = length bs \<or> r = d)"
      using 3 by (simp add: array_text_def)
  qed
qed

lemma object_writes:
  assumes "list_all2 (member_writes (d + 1)) fs es"
  shows "writes d (print_object_buf fmt d fs) (object_text fmt d es)"
proof (cases "fs = []")
  case True
  then have "es = []" using assms by simp
  moreover have "writes d (put_block (if fmt then d + 4 else 3) (123 # (if fmt then 10 # tabs (d - 1) else []) @ [125])) (123 # (if fmt then 10 # tabs (d - 1) else []) @ [125])"
    by (rule put_block_writes) (auto simp: tabs_def)
  ultimately show ?thesis using True by (simp only: print_object_buf_def [abs_def] object_text_def refl if_True simp_thms)
next
  case False
  then have es: "es \<noteq> []" using assms by auto
  define hd where "hd = 123 # line_end fmt"
  define tl where "tl = (if fmt then tabs d else []) @ [125]"
  have t: "object_text fmt d es = hd @ loop_text fmt (d + 1) es @ tl" using es by (simp add: object_text_def hd_def tl_def loop_text_def line_end_def)
  have hl: "length hd = (if fmt then 2 else 1)" "length (tl @ [0]) = (if fmt then d + 1 + 1 else 2)" by (simp_all add: hd_def tl_def line_end_def tabs_def)
  show ?thesis unfolding writes_def
  proof (intro allI impI)
    fix p bs
    assume a: "holds p bs" "pb_offset p = length bs" "length bs + length (object_text fmt d es) + 32 \<le> 2 ^ 30"
    have b: "length bs + length hd + length (loop_text fmt (d + 1) es) + length tl + 32 \<le> 2 ^ 30" using a(3) unfolding t by simp
    obtain q1 where f1: "poke (hd @ [0]) (ensure (length hd + 1) p) = Ok q1" and 1: "holds (advance (length hd) q1) (bs @ hd)" "pb_offset (advance (length hd) q1) = length (bs @ hd)"
      by (rule poke_advance [OF a(1,2), of hd "[0]" "length hd + 1"]) (use b in simp_all)
    obtain p2 where f2: "object_loop fmt (d + 1) fs (advance (length hd) q1) = Ok p2" and 2: "holds p2 ((bs @ hd) @ loop_text fmt (d + 1) es)"
      "pb_offset p2 = length ((bs @ hd) @ loop_text fmt (d + 1) es)"
      using object_loop_text [OF assms 1, where fmt = fmt and k = "d + 1"] b by auto
    obtain p3 where f3: "poke (tl @ [0]) (ensure (length (tl @ [0])) p2) = Ok p3" and 3: "holds p3 (((bs @ hd) @ loop_text fmt (d + 1) es) @ tl @ [0])"
      "pb_offset p3 = length ((bs @ hd) @ loop_text fmt (d + 1) es)"
      by (rule poke_holds [OF 2, of "tl @ [0]" "length (tl @ [0])"]) (use b in simp_all)
    have "print_object_buf fmt d fs p = Ok (p3, Some (if fmt then d else length bs))"
      using f1 f2 f3 False a(2) unfolding hl by (cases fmt) (simp_all add: print_object_buf_def Let_def hd_def tl_def line_end_def del: One_nat_def)
    then show "\<exists>p' r. print_object_buf fmt d fs p = Ok (p', Some r) \<and> holds p' (bs @ object_text fmt d es @ [0]) \<and> length bs \<le> pb_offset p' \<and>
        pb_offset p' \<le> length (bs @ object_text fmt d es) \<and> (r = length bs \<or> r = d)"
      using 3 unfolding t by simp
  qed
qed

section \<open>No terminator in a text\<close>

lemma control_nonzero: "list_all (\<lambda>c. 0 \<notin> set (escape_char c)) (map word_of_nat [1..<32])"
  by code_simp

lemma quoted_nonzero: "0 \<notin> set s \<Longrightarrow> 0 \<notin> set (quoted s)"
proof -
  assume s: "0 \<notin> set s"
  have "0 \<notin> set (escape_char c)" if "c \<in> set s" for c
  proof -
    have c: "c \<noteq> 0" using s that by auto
    show ?thesis
    proof (cases "c < 32")
      case True
      then show ?thesis using control_nonzero control_octets [OF c True] unfolding list_all_iff by blast
    next
      case False
      then have "31 < c" by (simp add: word_less_nat_alt)
      then show ?thesis using c by (auto simp: escape_char_def short_escape_def split: option.splits if_splits)
    qed
  qed
  then show ?thesis by (auto simp: quoted_def)
qed

lemma items_text_nonzero: "(\<And>e. e \<in> set es \<Longrightarrow> 0 \<notin> set e) \<Longrightarrow> 0 \<notin> set (items_text fmt es)"
  by (induction es) auto

lemma members_text_nonzero: "(\<And>e. e \<in> set es \<Longrightarrow> 0 \<notin> set (fst e) \<and> 0 \<notin> set (snd e)) \<Longrightarrow> 0 \<notin> set (members_text fmt k es)"
  by (induction es) (auto simp: member_text_def tabs_def)

lemma fmt_d_nonzero: "0 \<notin> set (fmt_d i)"
proof -
  have "0 \<notin> set (str (udec n))" for n using udec_digits(1) [of n] by (auto simp: list_all_iff isdigit_def)
  then show ?thesis by (auto simp: fmt_d_def)
qed

lemma jtext_nonzero: "valid j \<Longrightarrow> 0 \<notin> set (jtext j d fmt)"
proof (induction j arbitrary: d)
  case (JArr js)
  have "0 \<notin> set (jtext j (d + 1) fmt)" if "j \<in> set js" for j using JArr that by (simp add: list_all_iff)
  then show ?case unfolding jtext_Arr array_text_def using items_text_nonzero [of "map (\<lambda>j. jtext j (d + 1) fmt) js" fmt] by auto
next
  case (JObj ms)
  have "0 \<notin> set (quoted s) \<and> 0 \<notin> set (jtext j (d + 1) fmt)" if "(s, j) \<in> set ms" for s j
    using JObj.IH [OF that] JObj.prems that quoted_nonzero by (force simp: list_all_iff snds.simps)
  then have "0 \<notin> set (members_text fmt k (map (\<lambda>(s, j). (quoted s, jtext j (d + 1) fmt)) ms))" for k by (intro members_text_nonzero) auto
  then show ?case unfolding jtext_Obj object_text_def by (auto simp: tabs_def)
qed (simp_all add: str_literals fmt_d_nonzero quoted_nonzero)

section \<open>Values\<close>

lemma map_Some_all2: "map f xs = map Some ys \<Longrightarrow> list_all2 (\<lambda>x y. f x = Some y) xs ys"
  by (induction xs arbitrary: ys) (auto simp: Cons_eq_map_conv)

lemma print_value_writes: "meaning v = Some j \<Longrightarrow> writes d (print_value_buf v d fmt) (jtext j d fmt)"
proof (induction v arbitrary: d j rule: meaning.induct)
  case (1 t cs vs vi vd nm)
  have vj: "valid j" by (rule meaning_valid [OF "1.prems"])
  consider "t mod 256 = cJSON_Array" | "t mod 256 = cJSON_Object" | "t mod 256 \<noteq> cJSON_Array" "t mod 256 \<noteq> cJSON_Object" by blast
  then show ?case
  proof cases
    case 1
    then obtain js where js: "map meaning cs = map Some js" "j = JArr js" using "1.prems" by (auto simp: Let_def cjson_types those_Some_map)
    have "list_all2 (\<lambda>c x. meaning c = Some x) cs js" by (rule map_Some_all2 [OF js(1)])
    then have "list_all2 (writes (d + 1)) (map (\<lambda>c. print_value_buf c (d + 1) fmt) cs) (map (\<lambda>x. jtext x (d + 1) fmt) js)"
      unfolding list_all2_map1 list_all2_map2
    proof (rule list.rel_mono_strong)
      fix c x assume "c \<in> set cs" "meaning c = Some x"
      then show "writes (d + 1) (print_value_buf c (d + 1) fmt) (jtext x (d + 1) fmt)" using "1.IH"(1) [of "t mod 256" c x "d + 1"] 1 by (simp add: cjson_types)
    qed
    moreover have "0 \<notin> set e" if "e \<in> set (map (\<lambda>x. jtext x (d + 1) fmt) js)" for e using that vj js(2) jtext_nonzero by (auto simp: list_all_iff)
    ultimately have "writes d (print_array_buf fmt (map (\<lambda>c. print_value_buf c (d + 1) fmt) cs)) (jtext j d fmt)" unfolding js(2) jtext_Arr by (rule array_writes)
    moreover have "print_value_buf (Item t cs vs vi vd nm) d fmt = print_array_buf fmt (map (\<lambda>c. print_value_buf c (d + 1) fmt) cs)" using 1 by (intro ext) (simp add: Let_def cjson_types)
    ultimately show ?thesis by simp
  next
    case 2
    let ?f = "\<lambda>c. case (jstring c, meaning c) of (Some s, Some j) \<Rightarrow> if 0 \<in> set s then None else Some (s, j) | _ \<Rightarrow> None"
    obtain ms where ms: "map ?f cs = map Some ms" "j = JObj ms" using "1.prems" 2 by (auto simp: Let_def cjson_types those_Some_map)
    have "list_all2 (\<lambda>c x. ?f c = Some x) cs ms" by (rule map_Some_all2 [OF ms(1)])
    then have "list_all2 (member_writes (d + 1)) (map (\<lambda>c. (jstring c, print_value_buf c (d + 1) fmt)) cs) (map (\<lambda>(s, x). (quoted s, jtext x (d + 1) fmt)) ms)"
      unfolding list_all2_map1 list_all2_map2
    proof (rule list.rel_mono_strong)
      fix c x assume c: "c \<in> set cs" "x \<in> set ms" "?f c = Some x"
      then obtain s y where sy: "jstring c = Some s" "meaning c = Some y" "0 \<notin> set s" "x = (s, y)" by (cases "jstring c"; cases "meaning c") (auto split: if_splits)
      have "writes (d + 1) (print_value_buf c (d + 1) fmt) (jtext y (d + 1) fmt)" using "1.IH"(2) [of "t mod 256" c y "d + 1"] 2 c(1) sy(2) by (simp add: cjson_types)
      then show "member_writes (d + 1) (jstring c, print_value_buf c (d + 1) fmt) (case x of (s, x) \<Rightarrow> (quoted s, jtext x (d + 1) fmt))"
        using sy quoted_nonzero [OF sy(3)] jtext_nonzero [OF meaning_valid [OF sy(2)]] by (simp add: member_writes_def)
    qed
    then have "writes d (print_object_buf fmt d (map (\<lambda>c. (jstring c, print_value_buf c (d + 1) fmt)) cs)) (jtext j d fmt)" unfolding ms(2) jtext_Obj by (rule object_writes)
    moreover have "print_value_buf (Item t cs vs vi vd nm) d fmt = print_object_buf fmt d (map (\<lambda>c. (jstring c, print_value_buf c (d + 1) fmt)) cs)" using 2 by (intro ext) (simp add: Let_def cjson_types)
    ultimately show ?thesis by simp
  next
    case 3
    let ?i = "Item t cs vs vi vd nm"
    have lit: "writes d (put_block 5 (str ''null'')) (str ''null'')" "writes d (put_block 6 (str ''false'')) (str ''false'')" "writes d (put_block 5 (str ''true'')) (str ''true'')"
      by (rule put_block_writes; simp add: str_literals)+
    consider "t mod 256 = cJSON_NULL" "j = JNull" | "t mod 256 = cJSON_False" "j = JFalse" | "t mod 256 = cJSON_True" "j = JTrue"
      | "t mod 256 = cJSON_Number" "vd = of_int vi" "int_range vi" "j = JNum vi" | s where "t mod 256 = cJSON_String" "vs = Some s" "0 \<notin> set s" "j = JStr s"
      using "1.prems" 3 by (auto simp: Let_def split: if_splits option.splits)
    then show ?thesis
    proof cases
      case 4
      obtain room where "room \<le> 21" "length (fmt_d vi) < room" "number_parts ?i = (room, fmt_d vi)" using number_parts_int [of ?i vi] 4 by auto
      then show ?thesis using put_block_writes [of "fmt_d vi" room d] 4 by (simp add: Let_def cjson_types print_value_buf.simps [abs_def])
    next
      case 5
      then show ?thesis using print_string_writes [of s d] by (simp add: Let_def cjson_types print_value_buf.simps [abs_def])
    qed (use lit in \<open>simp_all add: Let_def cjson_types print_value_buf.simps [abs_def]\<close>)
  qed
qed

lemma empty_buffer: "holds \<lparr>pb_buffer = replicate n None, pb_length = int n, pb_offset = 0\<rparr> []"
  by (simp add: holds_def)

end
