(* ===== verification/CjsonMain.thy ===== *)
theory CjsonMain
  imports CjsonBufProps
begin

text \<open>
  What the JSON reader and writer promise to their callers, and the texts on which the reader breaks its promise.
\<close>

section \<open>Facts shared by the properties\<close>

lemma minify_Nil: "cJSON_Minify [] = Ok []"
  by (subst cJSON_Minify.simps) simp

lemma skip_skip_set: "92 \<notin> set t \<Longrightarrow> 92 \<notin> set (skip t)"
  using skip_set [of t] by blast

text \<open>An item used by the examples: an object with a name, an array of a number, a truth value and nothing, and a text with a quote, a line end and a control character.\<close>

definition sample_item :: cJSON where
  "sample_item = Item cJSON_Object
     [Item cJSON_Array [Item cJSON_Number [] None (-42) (-42) None, Item cJSON_True [] None 1 0 None, Item cJSON_NULL [] None 0 0 None] None 0 0 (Some (str ''list'')),
      Item cJSON_String [] (Some [72, 34, 10, 1]) 0 0 (Some (str ''note''))] None 0 0 None"

definition sample_json :: json where
  "sample_json = JObj [(str ''list'', JArr [JNum (-42), JTrue, JNull]), (str ''note'', JStr [72, 34, 10, 1])]"

lemma sample_meaning: "meaning sample_item = Some sample_json"
  by (simp add: sample_item_def sample_json_def cjson_types int_range_def INT_MIN_def INT_MAX_def str_def)

section \<open>Properties\<close>



text \<open>C18. Writing into the growing buffer gives the same text as writing into separate blocks, whatever the caller guessed the size to be: no access leaves the buffer, no octet is
  read before it is written, and the text starts at the place returned, although with layout the variable for that place is overwritten in objects. The text has to be
  shorter than the largest power of two of an \<open>int\<close>.\<close>

theorem buffered_print:
  assumes "meaning v = Some j" "length (jtext j 0 fmt) + 32 \<le> 2 ^ 30"
  shows "cJSON_PrintBuffered v prebuffer fmt = Ok (Some (jtext j 0 fmt)) \<and> print_value v 0 fmt = Ok (jtext j 0 fmt)"
proof -
  let ?p = "\<lparr>pb_buffer = replicate prebuffer None, pb_length = int prebuffer, pb_offset = 0\<rparr>" and ?t = "jtext j 0 fmt"
  obtain p' r where p: "print_value_buf v 0 fmt ?p = Ok (p', Some r)" "holds p' (?t @ [0])" "r = 0"
    using print_value_writes [OF assms(1), of 0 fmt] empty_buffer [of prebuffer] assms(2) unfolding writes_def by fastforce
  have d: "pb_buffer p' = map Some ?t @ Some 0 # drop (length ?t + 1) (pb_buffer p')" using drop_text [OF p(2), of 0] by simp
  have "strlen_at (pb_buffer p') = Some (length ?t)" by (subst d) (rule strlen_at_text [OF jtext_nonzero [OF meaning_valid [OF assms(1)]]])
  moreover have "take (length ?t) (pb_buffer p') = map Some ?t" by (subst d) simp
  ultimately have "text_at p' 0 = Some ?t" by (simp add: text_at_def comp_def)
  then show ?thesis using p print_value_text [OF assms(1), of 0 fmt] by (simp add: cJSON_PrintBuffered_def)
qed

theorem buffered_print_witness:
  "meaning sample_item = Some sample_json \<and> length (jtext sample_json 0 True) + 32 \<le> 2 ^ 30 \<and>
   cJSON_PrintBuffered sample_item 1 True = Ok (Some (jtext sample_json 0 True)) \<and> print_value sample_item 0 True = Ok (jtext sample_json 0 True)"
proof -
  have "length (jtext sample_json 0 True) < 100" by code_simp
  then have "length (jtext sample_json 0 True) + 32 \<le> 2 ^ 30" by simp
  then show ?thesis using buffered_print [OF sample_meaning, of True 1] sample_meaning by blast
qed

text \<open>C19. Removing the blanks of the text written with layout gives the text written without layout: strings are kept as they are.\<close>

theorem minify_print:
  assumes "meaning v = Some j"
  shows "\<exists>t u. cJSON_Print v = Ok t \<and> cJSON_PrintUnformatted v = Ok u \<and> cJSON_Minify t = Ok u"
  using print_value_text [OF assms, of 0] minify_jtext [OF meaning_valid [OF assms], of 0 True "[]" 0]
  by (simp add: cJSON_Print_def cJSON_PrintUnformatted_def minify_Nil glue_def)

theorem minify_print_witness:
  "\<exists>t u. cJSON_Print sample_item = Ok t \<and> cJSON_PrintUnformatted sample_item = Ok u \<and> cJSON_Minify t = Ok u"
  by (rule minify_print [OF sample_meaning])

text \<open>C20. A text without a backslash is never read past its end, and no block is written past its end, whatever else the text holds; the reader either builds an
  item or fails.\<close>

theorem parse_stays_inside:
  assumes "92 \<notin> set t"
  shows "cJSON_ParseWithOpts t r \<noteq> Over \<and> cJSON_Parse t \<noteq> Over"
proof -
  have "parse_value (parse_fuel t) (skip t) \<noteq> Over"
    using parse_value_inside [of "parse_fuel t"] skip_skip_set [OF assms] skip_length [of t] by (simp add: inside_def parse_fuel_def)
  then have "cJSON_ParseWithOpts t r \<noteq> Over" for r
    by (cases "parse_value (parse_fuel t) (skip t)") (auto simp: cJSON_ParseWithOpts_def Let_def split: if_splits)
  then show ?thesis by (cases "cJSON_ParseWithOpts t False") (auto simp: cJSON_Parse_def)
qed

theorem parse_stays_inside_witness: "cJSON_ParseWithOpts (str ''[{'') True \<noteq> Over \<and> cJSON_Parse (str ''[{'') \<noteq> Over"
  by (rule parse_stays_inside) (simp add: str_def)




text \<open>A comment or a string that is not closed makes the removal of blanks run behind the end of the text.\<close>

theorem minify_overruns: "cJSON_Minify (str ''[1] /* '') = Over \<and> cJSON_Minify (str ''[\"a'') = Over"
  by code_simp

end
