(* ===== verification/CjsonOps.thy ===== *)
theory CjsonOps
  imports CjsonCopy CjsonMain
begin

text \<open>
  What the operations on items promise: taking an item out and putting it back, replacing one and releasing it, finding one by its name, copying one; and a name
  that is released though it is not the program's.
\<close>

section \<open>Looking an item up\<close>

lemma array_size: "jarray m a as \<Longrightarrow> cJSON_GetArraySize (Some a) m = Some (int (length as))"
  using count_items_length [of m None] by (fastforce simp: jarray_def dlist_def cJSON_GetArraySize_def)

lemma array_item: "jarray m a as \<Longrightarrow> cJSON_GetArrayItem (Some a) i m = Some (nth_ptr as i)"
  using walk_items_nth [of m None] by (fastforce simp: jarray_def dlist_def cJSON_GetArrayItem_def)

definition item_name :: "jmem \<Rightarrow> nat \<Rightarrow> byte list option" where
  "item_name m x = Option.bind (j_items m x) (\<lambda>n. Option.bind (j_string n) (j_strs m))"

definition named :: "jmem \<Rightarrow> byte list \<Rightarrow> nat \<Rightarrow> bool" where
  "named m name x \<longleftrightarrow> cJSON_strcasecmp (item_name m x) (Some name) = 0"

definition names_ok :: "jmem \<Rightarrow> nat list \<Rightarrow> bool" where
  "names_ok m as \<longleftrightarrow> (\<forall>x\<in>set as. \<forall>n p. j_items m x = Some n \<longrightarrow> j_string n = Some p \<longrightarrow> j_strs m p \<noteq> None)"

lemma find_name_first:
  "jseg (j_items m) pr p as q None \<Longrightarrow> names_ok m as \<Longrightarrow>
   find_name m name p i = Some (i + int (length (takeWhile (\<lambda>x. \<not> named m name x) as)), List.find (named m name) as)"
proof (induction as arbitrary: pr p i)
  case Nil
  then show ?case by (subst find_name.simps) simp
next
  case (Cons a as)
  then obtain n where n: "p = Some a" "j_items m a = Some n" "jseg (j_items m) (Some a) (j_next n) as q None" by (auto split: option.splits)
  have st: "string_at m (j_string n) = Some (item_name m a)" using Cons.prems(2) n(2) by (cases "j_string n") (auto simp: names_ok_def item_name_def string_at_def)
  have "names_ok m as" using Cons.prems(2) by (simp add: names_ok_def)
  then show ?case using Cons.IH [OF n(3), of "i + 1"] n(1,2) st by (subst find_name.simps) (simp add: named_def [symmetric])
qed

lemma object_item:
  assumes "jarray m a as" "names_ok m as"
  shows "cJSON_GetObjectItem (Some a) name m = Some (List.find (named m name) as)"
  using assms find_name_first [of m None] by (fastforce simp: jarray_def dlist_def cJSON_GetObjectItem_def)

lemma tolower_null [simp]: "tolower 0 = 0" "tolower c = 0 \<longleftrightarrow> c = 0" "0 = tolower c \<longleftrightarrow> c = 0"
proof -
  have "c + 32 \<noteq> 0" if "65 \<le> c" "c \<le> 90"
  proof
    assume "c + 32 = 0"
    then have "c = - 32" by (rule eq_neg_iff_add_eq_0 [THEN iffD2])
    then show False using that by simp
  qed
  then show "tolower 0 = 0" "tolower c = 0 \<longleftrightarrow> c = 0" "0 = tolower c \<longleftrightarrow> c = 0" by (auto simp: tolower_def)
qed

lemma casecmp_zero: "0 \<notin> set s \<Longrightarrow> 0 \<notin> set t \<Longrightarrow> casecmp s t = 0 \<longleftrightarrow> map tolower s = map tolower t"
proof (induction s t rule: casecmp.induct)
  case (2 d t)
  then show ?case by (auto simp: uint_0_iff)
next
  case (3 c s)
  then show ?case by (auto simp: uint_0_iff)
next
  case (4 c s d t)
  then show ?case by (auto dest: word_uint_eqI)
qed simp

section \<open>Taking out and putting back\<close>

lemma jarray_alloc: "jarray m a as \<Longrightarrow> x \<in> set as \<Longrightarrow> j_items m x \<noteq> None"
  using dseg_alloc by (fastforce simp: jarray_def dlist_def)

lemma jarray_distinct: "jarray m a as \<Longrightarrow> distinct (a # as)"
  by (auto simp: jarray_def)

lemma relinked_trans: "relinked a A m m' \<Longrightarrow> relinked a A m' m'' \<Longrightarrow> relinked a A m m''"
  by (auto simp: relinked_def)

lemma insert_end:
  assumes "jarray m a as" "int (length as) \<le> i"
  shows "cJSON_InsertItemInArray (Some a) i t m = cJSON_AddItemToArray (Some a) t m"
proof -
  obtain n q where n: "j_items m a = Some n" "jseg (j_items m) None (j_child n) as q None" using assms(1) by (auto simp: jarray_def dlist_def)
  have "nth_ptr as i = None" using assms(2) by (simp add: nth_ptr_def)
  then show ?thesis using walk_items_nth [OF n(2), of i] n(1) by (simp add: cJSON_InsertItemInArray_def)
qed

lemma detach_none:
  assumes "jarray m a as" "int (length as) \<le> i"
  shows "cJSON_DetachItemFromArray (Some a) i m = Some (None, m)"
proof -
  obtain n q where n: "j_items m a = Some n" "jseg (j_items m) None (j_child n) as q None" using assms(1) by (auto simp: jarray_def dlist_def)
  have "nth_ptr as i = None" using assms(2) by (simp add: nth_ptr_def)
  then show ?thesis using walk_items_nth [OF n(2), of i] n(1) by (simp add: cJSON_DetachItemFromArray_def)
qed

text \<open>Two items in an array, and one more to put in, for the examples.\<close>

definition sample_mem :: jmem where
  "sample_mem = \<lparr>j_items = [0 \<mapsto> new_node\<lparr>j_type := 5, j_child := Some 1\<rparr>, 1 \<mapsto> new_node\<lparr>j_type := 4, j_next := Some 2, j_valuestring := Some 4\<rparr>,
     2 \<mapsto> new_node\<lparr>j_type := 2, j_prev := Some 1\<rparr>, 3 \<mapsto> new_node\<lparr>j_type := 1\<rparr>], j_strs = [4 \<mapsto> [72, 105]], j_brk = 5\<rparr>"

lemma sample_array: "jarray sample_mem 0 [1, 2]"
  by (auto simp: jarray_def sample_mem_def dlist_def new_node_def)



section \<open>Replacing\<close>

text \<open>The nodes and the strings that belong to one item of a list.\<close>

definition owned :: "jmem \<Rightarrow> nat \<Rightarrow> nat list \<Rightarrow> nat list \<Rightarrow> bool" where
  "owned m c is ss \<longleftrightarrow> (\<exists>n is1 ss1. j_items m c = Some n \<and> jtree (j_items m) (if is_ref n then None else j_child n) is1 ss1 \<and> is = c # is1 \<and> ss = own_strs n @ ss1) \<and>
     distinct is \<and> distinct ss \<and> (\<forall>x\<in>set ss. j_strs m x \<noteq> None)"

lemma body_flags: "body n' = body n \<Longrightarrow> is_ref n' = is_ref n \<and> own_strs n' = own_strs n"
proof -
  assume "body n' = body n"
  then have "is_ref n' = is_ref n" "is_const n' = is_const n" "j_valuestring n' = j_valuestring n" "j_string n' = j_string n"
    by (simp_all add: body_def is_ref_def is_const_def)
  then show ?thesis by (simp only: own_strs_def simp_thms)
qed

lemma owned_jtree:
  assumes "owned m c is ss" "relinked a A m m'" "set is \<inter> insert a A = {c}" "c \<noteq> a" "j_items m' c = Some n'" "j_next n' = None"
  shows "jtree (j_items m') (Some c) is ss" "\<And>x. x \<in> set ss \<Longrightarrow> j_strs m' x \<noteq> None"
proof -
  obtain n is1 ss1 where n: "j_items m c = Some n" "jtree (j_items m) (if is_ref n then None else j_child n) is1 ss1" "is = c # is1" "ss = own_strs n @ ss1" "distinct is"
    using assms(1) by (auto simp: owned_def)
  have b: "body n' = body n" "j_child n' = j_child n" using assms(2,4,5) n(1) unfolding relinked_def by (metis option.map(2) option.sel)+
  have "jtree (j_items m') (if is_ref n' then None else j_child n') is1 ss1"
    unfolding b(2) body_flags [OF b(1), THEN conjunct1]
  proof (rule jtree_frame [OF n(2)])
    show "j_items m' x = j_items m x" if "x \<in> set is1" for x using assms(2,3) that n(3,5) unfolding relinked_def by auto
  qed
  then show "jtree (j_items m') (Some c) is ss"
    using jt_node [of "j_items m'" c n' is1 ss1 "[]" "[]"] jt_null assms(5,6) n(3,4) body_flags [OF b(1)] by simp
  show "j_strs m' x \<noteq> None" if "x \<in> set ss" for x using assms(1,2) that by (simp add: owned_def relinked_def)
qed

lemma jarray_released:
  assumes "jarray m a as" "set is \<inter> set (a # as) = {}"
  shows "jarray (released is ss m) a as"
proof -
  obtain n q where n: "j_items m a = Some n" "jdlist (j_items m) (j_child n) as q" "distinct (a # as)" using assms(1) by (auto simp: jarray_def)
  show ?thesis by (rule jarray_links [OF n(2,3)]) (use n(1) assms(2) in \<open>auto simp: links_def released_def\<close>)
qed

lemma sample_owned: "owned sample_mem 1 [1] [4]"
proof -
  have "jtree (j_items sample_mem) None [] []" by (rule jt_null)
  then show ?thesis by (auto simp: owned_def sample_mem_def new_node_def own_strs_def is_ref_def is_const_def cJSON_IsReference_def cJSON_StringIsConst_def)
qed

text \<open>C15. Replacing the item at a position of an array puts the new item in its place and releases the old one: exactly its nodes and strings, with those of the items
  below it, each once, but nothing that a reference only borrows; the rest of the memory keeps its values.\<close>

theorem replace_releases:
  assumes "jarray m a as" "k < length as" "j_items m t \<noteq> None" "t \<notin> set (a # as)" "owned m (as ! k) is ss" "set is \<inter> insert t (insert a (set as)) = {as ! k}"
  shows "\<exists>m'. cJSON_ReplaceItemInArray (Some a) (int k) (Some t) m = Some (released is ss m') \<and> relinked a (insert t (set as)) m m' \<and>
    jarray (released is ss m') a (as[k := t])"
proof -
  let ?xs = "take k as" and ?c = "as ! k" and ?ys = "drop (k + 1) as"
  have as: "?xs @ ?c # ?ys = as" using split_at_nth [OF assms(2)] by simp
  have up: "?xs @ t # ?ys = as[k := t]" using assms(2) by (simp add: upd_conv_take_nth_drop)
  have lx: "length ?xs = k" using assms(2) by simp
  have A: "set (?xs @ t # ?c # ?ys) = insert t (set as)" using arg_cong [OF as, of set] by auto
  obtain m' n' where 1: "cJSON_ReplaceItemInArray (Some a) (int k) (Some t) m = cJSON_Delete (Some ?c) m'" "jarray m' a (as[k := t])" "relinked a (insert t (set as)) m m'"
    "j_items m' ?c = Some n'" "j_next n' = None"
    using replace_at [of m a ?xs ?c ?ys t, unfolded as A up lx, OF assms(1,3,4)] by blast
  have d: "distinct (a # as)" by (rule jarray_distinct [OF assms(1)])
  have ca: "?c \<noteq> a" using d assms(2) by auto
  note tr = owned_jtree [OF assms(5) 1(3) _ ca 1(4,5)]
  have cut: "set is \<inter> insert a (insert t (set as)) = {?c}" using assms(6) by auto
  have "cJSON_Delete (Some ?c) m' = Some (released is ss m')"
    by (rule delete_releases [OF tr(1) [OF cut]]) (use assms(5) tr(2) [OF cut] in \<open>auto simp: owned_def\<close>)
  moreover have "?c \<notin> set (as[k := t])"
    using d assms(2,4) by (metis distinct.simps(2) in_set_conv_nth length_list_update list.set_intros(2) nth_eq_iff_index_eq nth_list_update_eq nth_list_update_neq nth_mem)
  then have "set is \<inter> set (a # as[k := t]) = {}" 
  proof (intro equals0I)
    fix x assume nc: "?c \<notin> set (as[k := t])" and x: "x \<in> set is \<inter> set (a # as[k := t])"
    then have "x \<in> set is \<inter> insert a (insert t (set as))" using set_update_subset_insert [of as k t] by auto
    then have "x = ?c" using cut by blast
    then show False using x nc ca by simp
  qed
  ultimately show ?thesis using 1 jarray_released [OF 1(2)] by auto
qed

theorem replace_releases_witness:
  "jarray sample_mem 0 [1, 2] \<and> owned sample_mem 1 [1] [4] \<and>
   (\<exists>m'. cJSON_ReplaceItemInArray (Some 0) (int 0) (Some 3) sample_mem = Some (released [1] [4] m') \<and> relinked 0 (insert 3 (set [1, 2])) sample_mem m' \<and>
    jarray (released [1] [4] m') 0 ([1, 2][0 := 3]))"
  using replace_releases [OF sample_array, of 0 3 "[1]" "[4]"] sample_array sample_owned by (simp add: sample_mem_def)

section \<open>Copying\<close>

lemma unref_type: "unat ((w :: u32) AND NOT cJSON_IsReference) mod 256 = unat w mod 256"
proof -
  have h: "(256 :: u32) = 2 ^ 8" by simp
  have "take_bit 8 (w AND NOT 256) = take_bit 8 w" unfolding h
    by (rule bit_word_eqI) (auto simp only: bit_take_bit_iff bit_and_iff bit_not_iff bit_exp_iff possible_bit_word)
  then have "unat (take_bit 8 (w AND NOT 256)) = unat (take_bit 8 w)" by simp
  then show ?thesis unfolding unsigned_take_bit_eq by (simp add: take_bit_eq_mod cJSON_IsReference_def)
qed

lemma unref_nat: "unat ((of_nat t :: u32) AND NOT cJSON_IsReference) mod 256 = t mod 256"
proof -
  have "(t mod 2 ^ 32) mod 256 = t mod 256" by (rule mod_mod_cancel) simp
  then show ?thesis unfolding unref_type by (simp add: unat_of_nat take_bit_eq_mod)
qed

lemma jstring_unref [simp]: "jstring (unref v) = jstring v"
  by (cases v) simp

lemma meaning_unref: "meaning (unref v) = meaning v"
proof (induction v)
  case (Item t cs vs vi vd nm)
  have c: "map (\<lambda>c. meaning (unref c)) cs = map meaning cs" using Item by simp
  have o: "map (\<lambda>x. case (jstring x, meaning (unref x)) of (Some s, Some j) \<Rightarrow> if 0 \<in> set s then None else Some (s, j) | _ \<Rightarrow> None) cs =
    map (\<lambda>x. case (jstring x, meaning x) of (Some s, Some j) \<Rightarrow> if 0 \<in> set s then None else Some (s, j) | _ \<Rightarrow> None) cs"
    by (rule map_cong [OF refl]) (simp only: Item)
  show ?case unfolding unref.simps meaning.simps unref_nat Let_def map_map comp_def jstring_unref c o by (rule refl)
qed

lemma sample_ok: "jmem_ok sample_mem"
  by (auto simp: jmem_ok_def sample_mem_def)

definition sample_list :: "cJSON list" where
  "sample_list = [Item 4 [] (Some [72, 105]) 0 0 None, Item 2 [] None 0 0 None]"

lemma sample_den: "jden sample_mem None (Some 1) sample_list [1, 2]"
proof -
  let ?n1 = "new_node\<lparr>j_type := 4, j_next := Some 2, j_valuestring := Some 4\<rparr>" and ?n2 = "new_node\<lparr>j_type := 2, j_prev := Some 1\<rparr>"
  have i: "j_items sample_mem 1 = Some ?n1" "j_items sample_mem 2 = Some ?n2" by (simp_all add: sample_mem_def)
  have "jden sample_mem (Some 1) (Some 2) [Item 2 [] None 0 0 None] [2]"
    using den_node [OF i(2), of "Some 1" "[]" "[]" "[]" "[]" None None] by (simp add: new_node_def den_null string_at_def)
  then show ?thesis
    using den_node [OF i(1), of None "[]" "[]" "[Item 2 [] None 0 0 None]" "[2]" "Some [72, 105]" None]
    by (simp add: new_node_def den_null string_at_def sample_list_def) (simp add: sample_mem_def)
qed



section \<open>A constant name\<close>

definition const_mem :: jmem where
  "const_mem = \<lparr>j_items = [0 \<mapsto> new_node\<lparr>j_type := 6\<rparr>, 1 \<mapsto> new_node\<lparr>j_type := 2\<rparr>], j_strs = [2 \<mapsto> [97]], j_brk = 3\<rparr>"

text \<open>An item added under a constant name, taken out and added again under another name: the second call passes the constant, which is not the program's to
  release, to \<open>free\<close>, and the mark of the constant stays, so that the new name is never released.\<close>

theorem const_name_freed:
  "\<exists>m1 m2 m3 n. cJSON_AddItemToObjectCS (Some 0) (Some 2) (Some 1) const_mem = Some m1 \<and> cJSON_DetachItemFromArray (Some 0) 0 m1 = Some (Some 1, m2) \<and>
     j_strs m2 2 = Some [97] \<and> cJSON_AddItemToObject (Some 0) [98] (Some 1) m2 = Some m3 \<and> j_strs m3 2 = None \<and> j_items m3 1 = Some n \<and> is_const n"
  by (simp add: const_mem_def cJSON_AddItemToObjectCS_def cJSON_AddItemToArray_def cJSON_DetachItemFromArray_def cJSON_AddItemToObject_def set_item_def assign_def new_node_def
      walk_items.simps free_str_def cJSON_strdup_def is_const_def cJSON_StringIsConst_def)

end
