(* ===== verification/Spec2Isabelle.thy ===== *)
theory Spec2Isabelle
  imports RecRefine DesKat AesKat Md5Props CtosProps Sha204Props PingRuns RentMain NodePacket GpsProps ModemRun BoardProps Sha256Kat Yct TimersRun CjsonOps
begin

text \<open>
  \<^bold>\<open>The program.\<close> The repository holds the software of a bicycle rental terminal, as a collection of small C
  libraries and programs for an ARM board running Linux: a terminal keeps rental and payment records in SQLite, talks to the
  lock stakes of its station over a CAN bus, to a node server over an escaped byte protocol, to a 4G modem and a position receiver
  over serial lines, checks with echo requests whether the network is up, authenticates itself with a
  SHA204 chip on the I2C bus, and encrypts and digests what it sends. Beside them the repository carries
  third-party programs, among them the sources the author studied (\<open>c_advanced\<close>). The development models the libraries and programs with logic
  of their own, and of the third-party code the timers of a load generator and a JSON library.

  \<^bold>\<open>Conventions.\<close> C integers that wrap are words of their width (\<open>unsigned long\<close> has 32 bits on the target), others are
  \<open>int\<close> or \<open>nat\<close>. An array is a list whose length is its capacity (theory \<open>Prelude\<close>): an access outside is the value
  \<open>None\<close> (\<open>Fault\<close> in the record store), so a conclusion \<open>f x = Some y\<close> also says that no access left a buffer.
  A null pointer that is read is \<open>None\<close> as well. Code that is not in the repository (SQLite, the general library of ring buffers and
  threads, kernel calls) is an argument of the definitions; what is relied on is stated as a hypothesis or as a locale. Output is kept
  where it is the program's purpose (the rental records, the modem's report) and otherwise left out, as are delays.
  A loop over data is a function with a termination proof. A loop that waits for the outside has no bound in the code: blocking on
  a semaphore is the outcome \<open>Blocked\<close>, and the send loop of the network check is a \<open>partial_function\<close> whose \<open>None\<close> is
  not returning, so that returning is a theorem (and so is not returning). Loops that follow pointers are \<open>partial_function\<close>s too, and return on
  every well-formed list. Only the JSON reader has fuel, one more than the length of the text; any larger amount gives the same result.

  \<^bold>\<open>Record store\<close> (\<open>src/records/records.c\<close>).
  \<^item> \<open>RecStore\<close>: the structure, the System V semaphore operations, creation of the six tables, and the insert,
    select, select-all, delete and count functions; the four packet tables share one definition per operation,
    instantiated under the source's names. SQLite is a record of functions on an abstract database.
  \<^item> \<open>RecProps\<close>: a locale for calls made under the semaphore (balanced semaphore and statements), one for SQLite as documented (what
    the commands do to tables as lists of rows), the interpretation on the store's writers, and a sublocale that gives whole sessions.
  \<^item> \<open>RecEngine\<close>: a reference SQLite for these commands; it satisfies the locale, so the hypotheses are met.
  \<^item> \<open>RecClaims\<close>: sessions return and keep the invariant; insert and select round trip; count; delete; creation and
    destruction; commands fit their buffers; and the ways in which the store fails (a packet over 512 octets blocks everyone, negative numbers
    cannot be reached, the wrong semaphore is removed, two users do not exclude each other).
  \<^item> \<open>RecRefine\<close>: the specification, a state of six lists of rows with one function per call; a locale for refinement of calls that
    carries over to sessions, and its interpretation on the store: the store's codes, lists and packets are those of the specification.

  \<^bold>\<open>Node server escaping\<close> (\<open>src/node_server/escape.c\<close>). \<open>Escape\<close>: both directions with their buffers; the round
  trip, absence of delimiters in what is sent, and the stale octet after an unknown code.

  \<^bold>\<open>Encryption\<close> (\<open>src/encryption\<close>).
  \<^item> \<open>Base64\<close> (\<open>lib_base64.c\<close>): layout of the encoding and the round trip.
  \<^item> \<open>Feistel\<close>, \<open>Des\<close>, \<open>DesProps\<close>, \<open>DesKat\<close> (\<open>des.c\<close>): the cipher with its tables and key schedule; a locale for
    Feistel networks, interpreted on the DES round, gives that the reversed key schedule undoes the cipher; the round trips of
    the buffer functions, what they compute for every length, their overrun, and the published example.
  \<^item> \<open>BlockHash\<close>, \<open>Md5\<close>, \<open>Md5Props\<close> (\<open>md5.c\<close>): a locale for digests that are fed in pieces, interpreted on MD5, gives
    that any division of a message has the digest of the whole; the checksum function computes the padded digest; the published example.
  \<^item> \<open>Aes\<close>, \<open>AesTables\<close>, \<open>Spn\<close>, \<open>AesProps\<close>, \<open>AesBuf\<close>, \<open>AesKat\<close> (\<open>aes.c\<close>): the globals as a record, the tables generated at the
    first call and the constant tables of the other configuration, which are proved equal; a locale for substitution-permutation
    networks with the equivalent inverse cipher, interpreted on the rounds; the buffer functions on one memory, so that in-place calls are
    covered; the round trip, the invisibility of the first call's initialisation, and what the extra pass over the first block does.

  \<^bold>\<open>CAN to serial\<close> (\<open>src/cantoserial/ctos.c\<close>).
  \<^item> \<open>Ctos\<close>: frames with their bit-fields, the per-stake reassembly, sending, one pass of the receive and of the explain thread, bit
    rate, set-up and shutdown with the results of the system calls as a record.
  \<^item> \<open>CtosProps\<close>: packets of several stakes that arrive interleaved are all delivered; what is sent arrives; the identifier word and the
    filter; what set-up and shutdown leave behind; the bit rate commands; and short messages, frame numbers and random codes,
    where the code does less than it means to.

  \<^bold>\<open>Authentication chip\<close> (\<open>src/sha204_test/sha204_command.c\<close>, \<open>i2c_common.c\<close>).
  \<^item> \<open>Sha204\<close>: the checksum, the packets, the exchanges and the two entry points; the kernel's calls are a record.
  \<^item> \<open>Sha204Props\<close>: the checksum finds every change within sixteen bits; the transcripts of key check and device information,
    obtained by recording every kernel call; the descriptors left open.

  \<^bold>\<open>SHA-256\<close> (\<open>src/sha204_test/sha256/newsha256.c\<close>). \<open>Sha256\<close>: the functions as compiled for the target, and the test program. \<open>Sha256Props\<close>: the digest of
  FIPS 180-4, the interpretation of the digest locale of \<open>BlockHash\<close>, the restriction by the 32-bit length counter, and what the program prints. \<open>Sha256Kat\<close>: the published example.

  \<^bold>\<open>C library.\<close> \<open>CString\<close> has strings with their terminator, \<open>strtok\<close>, \<open>atoi\<close>, \<open>sprintf\<close> and the like; \<open>CFloat\<close>
  has rounding to \<open>double\<close> as a function on rationals, with the bounds that show when truncating a rounded product loses nothing.

  \<^bold>\<open>Network check\<close> (\<open>src/ping\<close>). \<open>Ping\<close>: the checksum, the echo packet, the checks of a reply and the send and receive
  loops. \<open>PingProps\<close>: for which packets the checksum is the Internet checksum and a receiver accepts the packet. \<open>PingRuns\<close>: the check
  returns when sends fail finitely often and what its result says; with every send failing it does not return.

  \<^bold>\<open>Rental records\<close> (\<open>src/rent_record\<close>). \<open>RentRecord\<close>: the conversion from hexadecimal, the record structure and its
  parser; \<open>RentProps\<close>: the parser on encoded records, and what more records than announced do; \<open>RentMain\<close>: the whole program, with the
  functions of \<open>Base64\<close>, on the text of any list of records.

  \<^bold>\<open>Node server\<close> (\<open>src/node_server\<close>). \<open>NodePacket\<close>: the packet builders and the key exchange of the program over \<open>Escape\<close>; the
  packets are read back by removing the escapes, and which key the program ends with.

  \<^bold>\<open>Position receiver\<close> (\<open>src/board_test/gps.c\<close>). \<open>Calendar\<close>: day of the year and weekday, against the Gregorian calendar.
  \<open>Gps\<close>: the serial port, the commands to the receiver, the checks and parsers of its sentences. \<open>GpsProps\<close>: which sentences are
  accepted and what is taken from them.

  \<^bold>\<open>4G modem\<close> (\<open>src/4G\<close>). \<open>Modem\<close>: the serial port, the exchange of a command, every function of \<open>4g.c\<close> and the program.
  \<open>ModemGps\<close>: the position report, whose parser computes with doubles. \<open>ModemProps\<close>: sizes of the global buffers through
  any session, and the calls that read a null pointer. \<open>ModemRun\<close>: the transcript of the program.

  \<^bold>\<open>Board test\<close> (\<open>src/board_test\<close>).
  \<^item> \<open>CTokens\<close>: \<open>strtok\<close> with several separators, and the list of tokens it gives one by one.
  \<^item> \<open>Wifi\<close>, \<open>WifiProps\<close> (\<open>wifi.c\<close>): the wireless module's commands; what the reading functions take from any answer, and that the setting functions
    overrun the array of the command for every argument they accept.
  \<^item> \<open>Board\<close>, \<open>BoardProps\<close> (\<open>bicycle.c\<close>, \<open>bicycle_test.c\<close>): the program that tests the board at the request of seven-octet frames, over the models of the receiver, the wireless module,
    the CAN library and the chip; which frames it accepts and answers with, and the tests that do not do what they are for.

  \<^bold>\<open>Card reader\<close> (\<open>src/yct_card/yct_test.c\<close>). \<open>Yct\<close>: the commands and the program; the frame of a payment, the checksum that starts from an uninitialised variable, and
  the commands that leave their arrays.

  \<^bold>\<open>Linked lists.\<close> \<open>DList\<close>: a heap as a map from addresses to structures, pointers as optional addresses, segments of doubly linked lists, and a locale for
  node types with two links, in which taking a node out, putting one in and joining segments are proved. It is interpreted on the timers and on the JSON items.

  \<^bold>\<open>Timers\<close> (\<open>src/c_advanced/04_http_load/timers.c\<close>).
  \<^item> \<open>Timers\<close>: the hash table of sorted lists, the free list, and every function of the package; the callbacks are a parameter that may call the package.
  \<^item> \<open>TimersProps\<close>: the invariant (each list well linked and sorted, each timer on the list of its hash, idle timers on the free list) and that creating, cancelling, resetting
    and resorting keep it.
  \<^item> \<open>TimersRun\<close>: running the due timers with callbacks that leave the timers alone, the time to wait, creation, destruction; and what happens when a callback cancels
    the next timer.

  \<^bold>\<open>JSON\<close> (\<open>src/c_advanced/02_cJSON/cJSON.c\<close>).
  \<^item> \<open>Cjson\<close>: reading, writing and removing blanks, on trees of items; an outcome is a result, a failure, or an access outside of the text or of an allocated block.
  \<^item> \<open>CjsonNum\<close>, \<open>CjsonStr\<close>, \<open>CjsonProps\<close>, \<open>CjsonText\<close>: whole numbers, strings, values and texts are read back from what is written; the fuel of the reader; texts without
    backslashes. \<open>CjsonBuf\<close>, \<open>CjsonBufProps\<close>: writing into one growing buffer, which gives the same text. \<open>CjsonMain\<close>: the properties of reading and writing, and the texts on which the reader leaves its memory.
  \<^item> \<open>CjsonItems\<close>: the items on the heap with their strings, and every function that looks at, changes, makes, copies and releases them. \<open>CjsonItemsProps\<close>: these functions
    against the list of addresses an array stands for, and what \<open>cJSON_Delete\<close> releases. \<open>CjsonCopy\<close>: the value a chain stands for, and copying. \<open>CjsonOps\<close>: the properties.

  \<^bold>\<open>Not modelled.\<close> Third-party: memcached, ppp, the other \<open>c_advanced\<close> programs, mini_httpd and i2c-tools; of the JSON library failing allocations. The other test programs and the kernel drivers only drive hardware. The interleaving of
  the two CAN threads within a pass is not modelled: they share only the ring buffers, whose calls are enclosed by a mutex.

  \<^bold>\<open>Plan.\<close> The stand-alone test programs for serial lines, CAN and I2C as far as they compute anything.
\<close>


end
